(* ===== verification/Prelude.thy ===== *)
theory Prelude
  imports Main "HOL-Library.Sublist"
begin

text \<open>
  Vocabulary and lemmas shared by every component: the model's types for
  identifiers and instants, Python's string operations the sources call
  (on ASCII text), truthiness of optional strings, and a few facts on lists
  that stand for table rows.
\<close>

named_theorems py "evaluation of the Python string operations"
named_theorems rows "selection and update of table rows"

text \<open>Identifiers are strings; an instant is an integer count of microseconds.\<close>

type_synonym ident = string
type_synonym instant = int

section \<open>Results of fallible code\<close>

text \<open>A raising function returns \<open>Inl e\<close>, a returning one \<open>Inr v\<close>.\<close>

definition is_ok :: "'e + 'a \<Rightarrow> bool" where
  "is_ok r = (case r of Inl _ \<Rightarrow> False | Inr _ \<Rightarrow> True)"

lemma is_ok_simps [simp]: "is_ok (Inl e) = False" "is_ok (Inr v) = True"
  by (simp_all add: is_ok_def)

lemma is_ok_iff: "is_ok r \<longleftrightarrow> (\<exists>v. r = Inr v)"
  by (cases r) auto

section \<open>Python strings (ASCII)\<close>

definition code_of :: "char \<Rightarrow> nat" where
  "code_of c = of_char c"

definition is_upper :: "char \<Rightarrow> bool" where
  "is_upper c = (65 \<le> code_of c \<and> code_of c \<le> 90)"

definition is_lower :: "char \<Rightarrow> bool" where
  "is_lower c = (97 \<le> code_of c \<and> code_of c \<le> 122)"

definition is_digit :: "char \<Rightarrow> bool" where
  "is_digit c = (48 \<le> code_of c \<and> code_of c \<le> 57)"

definition lower_char :: "char \<Rightarrow> char" where
  "lower_char c = (if is_upper c then char_of (code_of c + 32) else c)"

definition upper_char :: "char \<Rightarrow> char" where
  "upper_char c = (if is_lower c then char_of (code_of c - 32) else c)"

definition lower :: "string \<Rightarrow> string" where
  "lower s = map lower_char s"

definition upper :: "string \<Rightarrow> string" where
  "upper s = map upper_char s"

text \<open>\<open>str.isspace\<close> on ASCII: tab to carriage return, the four separators, blank.\<close>

definition is_space :: "char \<Rightarrow> bool" where
  "is_space c = ((9 \<le> code_of c \<and> code_of c \<le> 13) \<or> (28 \<le> code_of c \<and> code_of c \<le> 32))"

definition strip :: "string \<Rightarrow> string" where
  "strip s = rev (dropWhile is_space (rev (dropWhile is_space s)))"

definition starts_with :: "string \<Rightarrow> string \<Rightarrow> bool" where
  "starts_with s p = (take (length p) s = p)"

text \<open>\<open>s.split(c)\<close> for a one-character separator: never empty.\<close>

fun split_on :: "char \<Rightarrow> string \<Rightarrow> string list" where
  "split_on c [] = [[]]"
| "split_on c (x # xs) =
     (if x = c then [] # split_on c xs
      else (case split_on c xs of [] \<Rightarrow> [[x]] | p # ps \<Rightarrow> (x # p) # ps))"

lemmas char_class_defs = is_upper_def is_lower_def is_digit_def is_space_def code_of_def

declare char_class_defs [py] lower_char_def [py] upper_char_def [py] lower_def [py]
  upper_def [py] strip_def [py] starts_with_def [py]

lemma split_on_not_Nil [simp]: "split_on c s \<noteq> []"
  by (induction s) (auto split: list.splits)

lemma split_on_no_sep: "c \<notin> set s \<Longrightarrow> split_on c s = [s]"
  by (induction s) auto

lemma split_on_append_sep: "split_on c (xs @ c # ys) = split_on c xs @ split_on c ys"
  by (induction xs) (auto split: list.splits)

lemma split_on_parts: "p \<in> set (split_on c s) \<Longrightarrow> c \<notin> set p"
proof (induction s arbitrary: p)
  case (Cons x xs)
  obtain q qs where q: "split_on c xs = q # qs"
    by (cases "split_on c xs") auto
  show ?case
  proof (cases "x = c")
    case False
    with Cons.prems q have "p = x # q \<or> p \<in> set qs" by auto
    with False Cons.IH q show ?thesis by auto
  qed (use Cons in auto)
qed simp

fun join_with :: "char \<Rightarrow> string list \<Rightarrow> string" where
  "join_with c [] = []"
| "join_with c [p] = p"
| "join_with c (p # q # ps) = p @ c # join_with c (q # ps)"

lemma join_split [simp]: "join_with c (split_on c s) = s"
proof (induction s)
  case (Cons x xs)
  obtain q qs where q: "split_on c xs = q # qs"
    by (cases "split_on c xs") auto
  with Cons.IH show ?case
    by (cases qs) auto
qed simp

lemma split_on_inject: "split_on c s = split_on c t \<Longrightarrow> s = t"
  by (metis join_split)

section \<open>Truthiness and defaults\<close>

definition truthy :: "string option \<Rightarrow> bool" where
  "truthy s = (s \<noteq> None \<and> s \<noteq> Some [])"

lemma truthy_simps [simp]: "truthy None = False" "truthy (Some s) = (s \<noteq> [])"
  by (simp_all add: truthy_def)

text \<open>\<open>x or d\<close> on optional strings.\<close>

definition or_else :: "string option \<Rightarrow> string \<Rightarrow> string" where
  "or_else s d = (case s of None \<Rightarrow> d | Some x \<Rightarrow> if x = [] then d else x)"

lemma or_else_simps [simp]:
  "or_else None d = d" "or_else (Some []) d = d" "or_else (Some (c # cs)) d = c # cs"
  by (simp_all add: or_else_def)

text \<open>The first of two optional values.\<close>

definition option_or :: "'a option \<Rightarrow> 'a option \<Rightarrow> 'a option" where
  "option_or a b = (case a of None \<Rightarrow> b | Some x \<Rightarrow> Some x)"

lemma option_or_simps [simp]:
  "option_or None b = b" "option_or (Some x) b = Some x" "option_or a None = a"
  by (simp_all add: option_or_def split: option.split)

lemma option_or_None [simp]: "option_or a b = None \<longleftrightarrow> a = None \<and> b = None"
  by (simp add: option_or_def split: option.split)

section \<open>Rows\<close>

lemma find_Some_iff_first:
  "List.find P xs = Some x \<Longrightarrow> x \<in> set xs \<and> P x"
  by (induction xs) (auto split: if_splits)

lemma find_None_filter [rows]: "List.find P xs = None \<longleftrightarrow> filter P xs = []"
  by (induction xs) auto

lemma find_append [rows]:
  "List.find P (xs @ ys) = (case List.find P xs of None \<Rightarrow> List.find P ys | Some x \<Rightarrow> Some x)"
  by (induction xs) auto

lemma find_None_ball [rows]: "List.find P xs = None \<longleftrightarrow> (\<forall>x\<in>set xs. \<not> P x)"
  by (induction xs) auto

definition map_where :: "('r \<Rightarrow> bool) \<Rightarrow> ('r \<Rightarrow> 'r) \<Rightarrow> 'r list \<Rightarrow> 'r list" where
  "map_where P f rs = map (\<lambda>r. if P r then f r else r) rs"

lemma map_where_simps [simp]:
  "map_where P f [] = []"
  "map_where P f (r # rs) = (if P r then f r else r) # map_where P f rs"
  "length (map_where P f rs) = length rs"
  by (simp_all add: map_where_def)

lemma map_where_id: "\<forall>r\<in>set rs. \<not> P r \<Longrightarrow> map_where P f rs = rs"
  by (induction rs) auto

lemma map_map_where:
  "(\<And>r. g (f r) = g r) \<Longrightarrow> map g (map_where P f rs) = map g rs"
  by (induction rs) auto

lemma find_map_where_other:
  assumes "\<And>r. P r \<Longrightarrow> \<not> Q r" "\<And>r. P r \<Longrightarrow> \<not> Q (f r)"
  shows "List.find Q (map_where P f rs) = List.find Q rs"
  using assms by (induction rs) auto

lemma find_map_where_same:
  assumes "\<And>r. P r \<Longrightarrow> P (f r)"
  shows "List.find P (map_where P f rs) = map_option f (List.find P rs)"
  using assms by (induction rs) auto

text \<open>Where the last of two parts has no colon, the parts can be told apart.\<close>

lemma colon_append_inject:
  assumes "CHR '':'' \<notin> set p" "CHR '':'' \<notin> set p'" "k @ CHR '':'' # p = k' @ CHR '':'' # p'"
  shows "k = k' \<and> p = p'"
proof -
  have "rev p @ CHR '':'' # rev k = rev p' @ CHR '':'' # rev k'"
    using arg_cong [OF assms(3), of rev] by simp
  moreover have "takeWhile (\<lambda>c. c \<noteq> CHR '':'') (rev q @ CHR '':'' # rest) = rev q" if "CHR '':'' \<notin> set q" for q rest
    using that by (induction q arbitrary: rest) (auto simp: takeWhile_append)
  ultimately have "rev p = rev p'" using assms(1,2) by metis
  with assms(3) show ?thesis by simp
qed

end
