(* ===== verification/Ledger.thy ===== *)
theory Ledger
  imports Prelude
begin

text \<open>
  The interface of a trust ledger: a score per key, moved by signed deltas and
  kept in the interval the sources call \<open>MIN_TRUST\<close> to \<open>MAX_TRUST\<close>. Users and
  principals each provide one; RBAC's trust gate and the long-run bounds on
  scores are consequences of the interface alone.
\<close>

section \<open>Scores\<close>

definition STARTING_TRUST :: int where "STARTING_TRUST = 50"
definition MIN_TRUST :: int where "MIN_TRUST = 0"
definition MAX_TRUST :: int where "MAX_TRUST = 100"

definition apply_delta :: "int \<Rightarrow> int \<Rightarrow> int" where
  "apply_delta current delta = max MIN_TRUST (min MAX_TRUST (current + delta))"

lemmas trust_consts = STARTING_TRUST_def MIN_TRUST_def MAX_TRUST_def

definition in_range :: "int \<Rightarrow> bool" where
  "in_range s = (MIN_TRUST \<le> s \<and> s \<le> MAX_TRUST)"

lemma in_range_start [simp]: "in_range STARTING_TRUST"
  by (simp add: in_range_def trust_consts)

lemma in_range_delta [simp]: "in_range (apply_delta s d)"
  by (simp add: in_range_def apply_delta_def trust_consts)

lemma apply_delta_le: "in_range s \<Longrightarrow> d \<le> 0 \<Longrightarrow> apply_delta s d \<le> s"
  by (auto simp: in_range_def apply_delta_def trust_consts)

lemma apply_delta_ge: "in_range s \<Longrightarrow> 0 \<le> d \<Longrightarrow> s \<le> apply_delta s d"
  by (auto simp: in_range_def apply_delta_def trust_consts)

lemma apply_delta_mono: "s \<le> t \<Longrightarrow> apply_delta s d \<le> apply_delta t d"
  by (auto simp: apply_delta_def trust_consts)

lemma apply_delta_exact:
  "MIN_TRUST \<le> s + d \<Longrightarrow> s + d \<le> MAX_TRUST \<Longrightarrow> apply_delta s d = s + d"
  by (auto simp: apply_delta_def)

section \<open>The interface\<close>

locale trust_ledger =
  fixes score :: "'db \<Rightarrow> 'k \<Rightarrow> int"
    and bump :: "'db \<Rightarrow> 'k \<Rightarrow> 's \<Rightarrow> 'db"
    and delta :: "'s \<Rightarrow> int"
  assumes score_bump: "score (bump db k s) k = apply_delta (score db k) (delta s)"
    and score_other: "k' \<noteq> k \<Longrightarrow> score (bump db k s) k' = score db k'"
begin

definition run :: "('k \<times> 's) list \<Rightarrow> 'db \<Rightarrow> 'db" where
  "run evs db = fold (\<lambda>(k, s) d. bump d k s) evs db"

lemma run_simps [simp]:
  "run [] db = db" "run ((k, s) # evs) db = run evs (bump db k s)"
  by (simp_all add: run_def)

lemma bump_in_range: "in_range (score db k') \<Longrightarrow> in_range (score (bump db k s) k')"
  by (cases "k' = k") (simp_all add: score_bump score_other)

lemma run_in_range: "in_range (score db k) \<Longrightarrow> in_range (score (run evs db) k)"
proof (induction evs arbitrary: db)
  case (Cons e evs)
  then show ?case by (cases e) (simp add: bump_in_range)
qed simp

text \<open>The score of a key is the fold of its own deltas: other keys' events do not count.\<close>

lemma run_score:
  "score (run evs db) k =
     fold (\<lambda>s v. apply_delta v (delta s)) (map snd (filter (\<lambda>e. fst e = k) evs)) (score db k)"
  by (induction evs arbitrary: db) (auto simp: score_bump score_other)

lemma run_isolated:
  "\<forall>e\<in>set evs. fst e \<noteq> k \<Longrightarrow> score (run evs db) k = score db k"
  by (induction evs arbitrary: db) (auto simp: score_other)

lemma run_decreases:
  assumes "in_range (score db k)" "\<forall>e\<in>set evs. fst e = k \<longrightarrow> delta (snd e) \<le> 0"
  shows "score (run evs db) k \<le> score db k"
  using assms
proof (induction evs arbitrary: db)
  case (Cons e evs)
  obtain k' s where e: "e = (k', s)" by (cases e)
  have "score (bump db k' s) k \<le> score db k"
    using Cons.prems e by (cases "k = k'") (auto simp: score_bump score_other intro: apply_delta_le)
  moreover have "score (run evs (bump db k' s)) k \<le> score (bump db k' s) k"
    using Cons.prems e by (intro Cons.IH bump_in_range) auto
  ultimately show ?case using e by simp
qed simp

end

section \<open>Recovery and loss rates\<close>

lemma fold_apply_delta_lower:
  "in_range s \<Longrightarrow> \<forall>d\<in>set ds. lo \<le> d \<Longrightarrow> lo \<le> 0 \<Longrightarrow>
     s + lo * int (length ds) \<le> fold (\<lambda>d v. apply_delta v d) ds s"
proof (induction ds arbitrary: s)
  case (Cons d ds)
  have "apply_delta s d + lo * int (length ds) \<le> fold (\<lambda>d v. apply_delta v d) ds (apply_delta s d)"
    using Cons.prems by (intro Cons.IH) auto
  moreover have "s + lo \<le> apply_delta s d"
    using Cons.prems by (auto simp: apply_delta_def in_range_def trust_consts)
  ultimately show ?case by (simp add: algebra_simps)
qed simp

end
