(* ===== verification/Trust.thy ===== *)
theory Trust
  imports Ledger "HOL-Library.AList" "HOL-Library.Char_ord" "HOL-Library.List_Lexorder" "HOL-Library.Product_Lexorder"
begin

text \<open>
  Trust scores of users (\<open>kya/users.py\<close>) and of principals
  (\<open>kya/principals.py\<close>): the signal weights, the row of each table, the reads,
  the upserts with their retry loop, and the registry of principal kinds.
  A table is the list of its rows; JSON columns are association lists.
\<close>

section \<open>Signal weights and buckets\<close>

definition DEFAULT_SIGNAL_DELTA :: int where "DEFAULT_SIGNAL_DELTA = -2"

definition SEVERITY_DELTAS :: "(string \<times> int) list" where
  "SEVERITY_DELTAS =
    [(''informational'', 0), (''low'', -2), (''medium'', -5), (''high'', -10), (''critical'', -15)]"

definition SIGNAL_DELTAS :: "(string \<times> int) list" where
  "SIGNAL_DELTAS =
    [(''rbac_refusal'', -2), (''oos_tool'', -3), (''governance_block'', -2),
     (''cross_tenant'', -15), (''data_leak'', -10), (''injection_attempt'', -5),
     (''policy_violation'', -7), (''rate_limit_exceeded'', -2), (''payload_too_large'', -4),
     (''replay_detected'', -8), (''received_attack'', -1), (''hallucination_detected'', -5),
     (''clean_invocation'', 1), (''revocation_blocked'', -10), (''dpop_replay'', -8),
     (''dpop_forge_attempt'', -8), (''dpop_expired'', -2), (''issuer_rotation_pending'', 0),
     (''vc_approval_denied'', -3), (''budget_exceeded'', -2), (''budget_error'', 0)]"

definition signal_delta :: "string \<Rightarrow> int" where
  "signal_delta kind =
     (case map_of SIGNAL_DELTAS kind of Some d \<Rightarrow> d | None \<Rightarrow> DEFAULT_SIGNAL_DELTA)"

definition bucket_for_trust :: "int \<Rightarrow> string" where
  "bucket_for_trust score =
     (if score \<ge> 75 then ''trusted''
      else if score \<ge> 40 then ''neutral''
      else if score \<ge> 15 then ''risky''
      else ''blocked'')"

lemma signal_delta_positive_iff: "0 < signal_delta k \<longleftrightarrow> k = ''clean_invocation''"
  by (simp add: signal_delta_def SIGNAL_DELTAS_def DEFAULT_SIGNAL_DELTA_def)

lemma signal_delta_bounds: "-15 \<le> signal_delta k \<and> signal_delta k \<le> 1"
  by (simp add: signal_delta_def SIGNAL_DELTAS_def DEFAULT_SIGNAL_DELTA_def)

lemma signal_delta_clean [simp]: "signal_delta ''clean_invocation'' = 1"
  by (simp add: signal_delta_def SIGNAL_DELTAS_def)

text \<open>Rank of a bucket, used to state that buckets follow the score.\<close>

definition bucket_rank :: "string \<Rightarrow> nat" where
  "bucket_rank b = (if b = ''trusted'' then 3 else if b = ''neutral'' then 2
                    else if b = ''risky'' then 1 else 0)"

lemma bucket_mono: "s \<le> t \<Longrightarrow> bucket_rank (bucket_for_trust s) \<le> bucket_rank (bucket_for_trust t)"
  by (simp add: bucket_for_trust_def bucket_rank_def)

section \<open>Dicts of counters and attributes\<close>

type_synonym counts = "(string \<times> int) list"
type_synonym attrs = "(string \<times> string) list"

definition count_of :: "counts \<Rightarrow> string \<Rightarrow> int" where
  "count_of cs k = (case map_of cs k of Some n \<Rightarrow> n | None \<Rightarrow> 0)"

definition incr_count :: "string \<Rightarrow> counts \<Rightarrow> counts" where
  "incr_count k cs = AList.update k (count_of cs k + 1) cs"

definition dict_merge :: "attrs \<Rightarrow> attrs \<Rightarrow> attrs" where
  "dict_merge old new = fold (\<lambda>(k, v) d. AList.update k v d) new old"

lemma count_incr: "count_of (incr_count k cs) k' = count_of cs k' + (if k' = k then 1 else 0)"
  by (simp add: count_of_def incr_count_def update_conv)

lemma map_of_dict_merge:
  "distinct (map fst new) \<Longrightarrow> map_of (dict_merge old new) = map_of old ++ map_of new"
proof (induction new arbitrary: old)
  case (Cons p new)
  obtain k v where p: "p = (k, v)" by (cases p)
  have "map_of (dict_merge old (p # new)) = (map_of old)(k \<mapsto> v) ++ map_of new"
    using Cons p by (simp add: dict_merge_def update_conv')
  also have "\<dots> = map_of old ++ map_of (p # new)"
    using Cons.prems p
    by (auto simp: map_add_def fun_eq_iff split: option.splits dest!: map_of_SomeD)
      (metis fst_conv image_eqI)
  finally show ?case .
qed (simp add: dict_merge_def)

section \<open>User trust\<close>

record user_row =
  u_tenant :: ident
  u_user :: ident
  u_score :: int
  u_counts :: "counts option"
  u_last_signal :: "instant option"
  u_last_clean :: "instant option"
  u_updated :: instant

type_synonym user_table = "user_row list"

definition user_key :: "ident \<Rightarrow> ident \<Rightarrow> user_row \<Rightarrow> bool" where
  "user_key t u r = (u_tenant r = t \<and> u_user r = u)"

record user_trust =
  ut_user :: ident
  ut_tenant :: ident
  ut_score :: int
  ut_bucket :: string
  ut_counts :: counts
  ut_last_signal :: "instant option"
  ut_last_clean :: "instant option"
  ut_updated :: "instant option"

definition get_user_trust :: "user_table \<Rightarrow> ident \<Rightarrow> ident \<Rightarrow> user_trust" where
  "get_user_trust tab t u =
     (case List.find (user_key t u) tab of
        None \<Rightarrow>
          \<lparr> ut_user = u, ut_tenant = t, ut_score = STARTING_TRUST,
            ut_bucket = bucket_for_trust STARTING_TRUST, ut_counts = [],
            ut_last_signal = None, ut_last_clean = None, ut_updated = None \<rparr>
      | Some r \<Rightarrow>
          \<lparr> ut_user = u, ut_tenant = t, ut_score = u_score r,
            ut_bucket = bucket_for_trust (u_score r),
            ut_counts = (case u_counts r of Some c \<Rightarrow> c | None \<Rightarrow> []),
            ut_last_signal = u_last_signal r, ut_last_clean = u_last_clean r,
            ut_updated = Some (u_updated r) \<rparr>)"

text \<open>\<open>ORDER BY trust_score ASC, updated_at DESC LIMIT lim\<close>, ties in table order.\<close>

definition list_user_trust :: "user_table \<Rightarrow> ident \<Rightarrow> nat \<Rightarrow> user_row list" where
  "list_user_trust tab t lim =
     take lim (sort_key (\<lambda>r. (u_score r, - u_updated r)) (filter (\<lambda>r. u_tenant r = t) tab))"

text \<open>The timestamp column that the call sets.\<close>

definition stamp_user :: "bool \<Rightarrow> instant \<Rightarrow> user_row \<Rightarrow> user_row" where
  "stamp_user is_signal now r =
     (if is_signal then r\<lparr> u_last_signal := Some now, u_updated := now \<rparr>
      else r\<lparr> u_last_clean := Some now, u_updated := now \<rparr>)"

definition new_user_row :: "ident \<Rightarrow> ident \<Rightarrow> int \<Rightarrow> counts \<Rightarrow> user_row" where
  "new_user_row t u s c =
     \<lparr> u_tenant = t, u_user = u, u_score = s, u_counts = Some c,
       u_last_signal = None, u_last_clean = None, u_updated = 0 \<rparr>"

text \<open>
  \<open>_upsert_with_delta\<close> off PostgreSQL: select the row, compute the new score and
  counts in Python, then insert or overwrite the four columns on the key.
\<close>

definition upsert_user_rmw ::
    "user_table \<Rightarrow> ident \<Rightarrow> ident \<Rightarrow> string \<Rightarrow> int \<Rightarrow> bool \<Rightarrow> instant \<Rightarrow> int \<times> user_table" where
  "upsert_user_rmw tab t u kind delta is_signal now =
     (case List.find (user_key t u) tab of
        None \<Rightarrow>
          (let new_score = apply_delta STARTING_TRUST delta
           in (new_score, tab @ [stamp_user is_signal now (new_user_row t u new_score [(kind, 1)])]))
      | Some r \<Rightarrow>
          (let existing = (case u_counts r of Some c \<Rightarrow> c | None \<Rightarrow> []);
               counts = incr_count kind existing;
               new_score = apply_delta (u_score r) delta
           in (new_score,
               map_where (user_key t u)
                 (\<lambda>x. stamp_user is_signal now (x\<lparr> u_score := new_score, u_counts := Some counts \<rparr>))
                 tab)))"

text \<open>
  \<open>_upsert_with_delta\<close> on PostgreSQL: one \<open>INSERT .. ON CONFLICT DO UPDATE ..
  RETURNING\<close>, whose right-hand sides read the stored row of the same key.
\<close>

definition upsert_user_pg ::
    "user_table \<Rightarrow> ident \<Rightarrow> ident \<Rightarrow> string \<Rightarrow> int \<Rightarrow> bool \<Rightarrow> instant \<Rightarrow> int \<times> user_table" where
  "upsert_user_pg tab t u kind delta is_signal now =
     (if filter (user_key t u) tab = [] then
        (let r = stamp_user is_signal now
                   (new_user_row t u
                      (max MIN_TRUST (min MAX_TRUST (STARTING_TRUST + delta))) [(kind, 1)])
         in (u_score r, tab @ [r]))
      else
        (let tab' = map_where (user_key t u)
                (\<lambda>x. stamp_user is_signal now
                  (x\<lparr> u_score := max MIN_TRUST (min MAX_TRUST (u_score x + delta)),
                     u_counts :=
                       Some (let c = (case u_counts x of Some c \<Rightarrow> c | None \<Rightarrow> []);
                                 old = (case u_counts x of None \<Rightarrow> 0 | Some c \<Rightarrow> count_of c kind)
                             in AList.update kind (old + 1) c) \<rparr>))
                tab
         in (u_score (hd (filter (user_key t u) tab')), tab')))"

definition record_user_signal ::
    "user_table \<Rightarrow> ident \<Rightarrow> ident \<Rightarrow> string \<Rightarrow> instant \<Rightarrow> int \<times> user_table" where
  "record_user_signal tab t u kind now =
     upsert_user_rmw tab t u kind (signal_delta kind) True now"

definition record_user_clean ::
    "user_table \<Rightarrow> ident \<Rightarrow> ident \<Rightarrow> instant \<Rightarrow> int \<times> user_table" where
  "record_user_clean tab t u now =
     upsert_user_rmw tab t u ''clean_invocation'' (signal_delta ''clean_invocation'') False now"

text \<open>The table's unique key.\<close>

definition user_keys :: "user_table \<Rightarrow> (ident \<times> ident) list" where
  "user_keys tab = map (\<lambda>r. (u_tenant r, u_user r)) tab"

definition user_score :: "user_table \<Rightarrow> ident \<times> ident \<Rightarrow> int" where
  "user_score tab k = ut_score (get_user_trust tab (fst k) (snd k))"

lemma stamp_user_simps [simp]:
  "u_tenant (stamp_user b n r) = u_tenant r" "u_user (stamp_user b n r) = u_user r"
  "u_score (stamp_user b n r) = u_score r" "u_counts (stamp_user b n r) = u_counts r"
  by (simp_all add: stamp_user_def)

lemma new_user_row_simps [simp]:
  "u_tenant (new_user_row t u s c) = t" "u_user (new_user_row t u s c) = u"
  "u_score (new_user_row t u s c) = s" "u_counts (new_user_row t u s c) = Some c"
  by (simp_all add: new_user_row_def)

lemma user_score_find:
  "user_score tab k =
     (case List.find (user_key (fst k) (snd k)) tab of None \<Rightarrow> STARTING_TRUST | Some r \<Rightarrow> u_score r)"
  by (simp add: user_score_def get_user_trust_def split: option.split)

lemma find_user_after:
  "List.find (user_key t u) (snd (upsert_user_rmw tab t u kind d b n)) =
     Some (case List.find (user_key t u) tab of
        None \<Rightarrow> stamp_user b n (new_user_row t u (apply_delta STARTING_TRUST d) [(kind, 1)])
      | Some r \<Rightarrow> stamp_user b n (r\<lparr> u_score := apply_delta (u_score r) d,
          u_counts := Some (incr_count kind (case u_counts r of Some c \<Rightarrow> c | None \<Rightarrow> [])) \<rparr>))"
proof (cases "List.find (user_key t u) tab")
  case None
  then show ?thesis
    by (simp add: upsert_user_rmw_def Let_def find_append) (simp add: user_key_def)
next
  case (Some r)
  then show ?thesis
    by (simp add: upsert_user_rmw_def Let_def)
      (subst find_map_where_same, auto simp: user_key_def)
qed

lemma find_user_other:
  assumes "(t', u') \<noteq> (t, u)"
  shows "List.find (user_key t' u') (snd (upsert_user_rmw tab t u kind d b n)) =
         List.find (user_key t' u') tab"
proof (cases "List.find (user_key t u) tab")
  case None
  then show ?thesis using assms
    by (auto simp: upsert_user_rmw_def Let_def find_append user_key_def split: option.split)
next
  case (Some r)
  then show ?thesis using assms
    by (simp add: upsert_user_rmw_def Let_def)
      (rule find_map_where_other, auto simp: user_key_def)
qed

lemma upsert_user_fst: "fst (upsert_user_rmw tab t u kind d b n) = apply_delta (user_score tab (t, u)) d"
  by (simp add: upsert_user_rmw_def Let_def user_score_find split: option.split)

text \<open>The user table is a trust ledger; a signal is a kind, its delta and its flag and time.\<close>

definition bump_user :: "user_table \<Rightarrow> ident \<times> ident \<Rightarrow> string \<times> int \<times> bool \<times> instant \<Rightarrow> user_table" where
  "bump_user tab k s =
     (case s of (kind, d, b, n) \<Rightarrow> snd (upsert_user_rmw tab (fst k) (snd k) kind d b n))"

interpretation ul: trust_ledger user_score bump_user "\<lambda>s. fst (snd s)"
proof unfold_locales
  fix db k s
  show "user_score (bump_user db k s) k = apply_delta (user_score db k) (fst (snd s))"
    by (cases s) (simp add: bump_user_def user_score_find find_user_after split: option.split)
next
  fix k' k :: "ident \<times> ident" and db s
  assume "k' \<noteq> k"
  then show "user_score (bump_user db k s) k' = user_score db k'"
    by (cases s; cases k; cases k') (simp add: bump_user_def user_score_find find_user_other)
qed

section \<open>Histories\<close>

datatype user_event = USignal ident ident string instant | UClean ident ident instant

definition user_step :: "user_event \<Rightarrow> user_table \<Rightarrow> user_table" where
  "user_step ev tab =
     (case ev of USignal t u k n \<Rightarrow> snd (record_user_signal tab t u k n)
      | UClean t u n \<Rightarrow> snd (record_user_clean tab t u n))"

definition run_user :: "user_event list \<Rightarrow> user_table \<Rightarrow> user_table" where
  "run_user evs tab = fold user_step evs tab"

definition event_key :: "user_event \<Rightarrow> ident \<times> ident" where
  "event_key ev = (case ev of USignal t u _ _ \<Rightarrow> (t, u) | UClean t u _ \<Rightarrow> (t, u))"

definition event_delta :: "user_event \<Rightarrow> int" where
  "event_delta ev = (case ev of USignal _ _ k _ \<Rightarrow> signal_delta k | UClean _ _ _ \<Rightarrow> 1)"

definition own_deltas :: "ident \<times> ident \<Rightarrow> user_event list \<Rightarrow> int list" where
  "own_deltas k evs = map event_delta (filter (\<lambda>e. event_key e = k) evs)"

definition event_signal :: "user_event \<Rightarrow> string \<times> int \<times> bool \<times> instant" where
  "event_signal ev = (case ev of USignal _ _ k n \<Rightarrow> (k, signal_delta k, True, n)
     | UClean _ _ n \<Rightarrow> (''clean_invocation'', 1, False, n))"

lemma user_step_bump: "user_step ev tab = bump_user tab (event_key ev) (event_signal ev)"
  by (simp add: user_step_def bump_user_def event_key_def event_signal_def
      record_user_signal_def record_user_clean_def split: user_event.split)

lemma run_user_ledger: "run_user evs tab = ul.run (map (\<lambda>e. (event_key e, event_signal e)) evs) tab"
  by (induction evs arbitrary: tab) (simp_all add: run_user_def user_step_bump)

lemma user_history_fold:
  "user_score (run_user evs tab) k = fold (\<lambda>d v. apply_delta v d) (own_deltas k evs) (user_score tab k)"
proof -
  have delta: "fst (snd (event_signal e)) = event_delta e" for e
    by (simp add: event_signal_def event_delta_def split: user_event.split)
  have "fold (\<lambda>s v. apply_delta v (fst (snd s)))
          (map snd (filter (\<lambda>e. fst e = k) (map (\<lambda>e. (event_key e, event_signal e)) evs))) s =
        fold (\<lambda>d v. apply_delta v d) (own_deltas k evs) s" for s
    by (induction evs arbitrary: s) (simp_all add: own_deltas_def delta)
  then show ?thesis by (simp add: run_user_ledger ul.run_score)
qed

lemma own_deltas_lower: "\<forall>d\<in>set (own_deltas k evs). -15 \<le> d"
  using signal_delta_bounds
  by (auto simp: own_deltas_def event_delta_def split: user_event.split)

section \<open>Properties\<close>

text \<open>C33. Over any sequence of signals and clean runs of any users and tenants, a
user's score is the clamped running sum of that user's own deltas: no other
tenant's or user's events move it. It stays between 0 and 100 and loses at most
fifteen points per event of its own.\<close>
theorem user_trust_history:
  assumes "in_range (user_score tab k)"
  shows "user_score (run_user evs tab) k =
           fold (\<lambda>d v. apply_delta v d) (own_deltas k evs) (user_score tab k)
       \<and> 0 \<le> user_score (run_user evs tab) k \<and> user_score (run_user evs tab) k \<le> 100
       \<and> user_score tab k - 15 * int (length (own_deltas k evs)) \<le> user_score (run_user evs tab) k"
proof -
  have "in_range (user_score (run_user evs tab) k)"
    unfolding run_user_ledger by (rule ul.run_in_range [OF assms])
  then show ?thesis
    using fold_apply_delta_lower [OF assms own_deltas_lower]
    by (simp add: user_history_fold in_range_def trust_consts)
qed

theorem user_trust_history_witness:
  "user_score (run_user [USignal ''t'' ''u'' ''data_leak'' 1, USignal ''x'' ''u'' ''data_leak'' 2,
      UClean ''t'' ''u'' 3] []) (''t'', ''u'') = 41"
  using user_trust_history [of "[]" "(''t'', ''u'')" "[USignal ''t'' ''u'' ''data_leak'' 1,
      USignal ''x'' ''u'' ''data_leak'' 2, UClean ''t'' ''u'' 3]"]
  by (simp add: user_score_find own_deltas_def event_key_def event_delta_def signal_delta_def
      SIGNAL_DELTAS_def apply_delta_def trust_consts in_range_def)

lemma map_where_unique:
  assumes "distinct (user_keys tab)" "List.find (user_key t u) tab = Some r"
    "f r = g r"
  shows "map_where (user_key t u) f tab = map_where (user_key t u) g tab"
  using assms
proof (induction tab)
  case (Cons x xs)
  show ?case
  proof (cases "user_key t u x")
    case True
    then have key: "(t, u) \<notin> (\<lambda>r. (u_tenant r, u_user r)) ` set xs"
      using Cons.prems(1) by (simp add: user_keys_def user_key_def)
    have "\<forall>y\<in>set xs. \<not> user_key t u y"
    proof (intro ballI notI)
      fix y assume "y \<in> set xs" "user_key t u y"
      then have "(t, u) \<in> (\<lambda>r. (u_tenant r, u_user r)) ` set xs"
        by (intro image_eqI [of _ _ y]) (simp_all add: user_key_def)
      with key show False ..
    qed
    then show ?thesis using Cons.prems True by (simp add: map_where_id)
  next
    case False
    then show ?thesis using Cons by (simp add: user_keys_def)
  qed
qed simp

lemma find_hd_filter: "List.find P xs = Some x \<longleftrightarrow> filter P xs \<noteq> [] \<and> hd (filter P xs) = x"
  by (induction xs) auto

text \<open>The PostgreSQL single-statement upsert and the portable
read-modify-write path return the same score and leave the same table, on every
table whose rows have distinct (tenant, user) keys, null counters included.\<close>
theorem upsert_paths_agree:
  assumes "distinct (user_keys tab)"
  shows "upsert_user_pg tab t u kind delta is_signal now =
         upsert_user_rmw tab t u kind delta is_signal now"
proof (cases "List.find (user_key t u) tab")
  case None
  then show ?thesis
    by (simp add: upsert_user_pg_def upsert_user_rmw_def None [unfolded find_None_filter] Let_def
        apply_delta_def)
next
  case (Some r)
  let ?f = "\<lambda>x. stamp_user is_signal now
      (x\<lparr> u_score := max MIN_TRUST (min MAX_TRUST (u_score x + delta)),
         u_counts := Some (let c = (case u_counts x of Some c \<Rightarrow> c | None \<Rightarrow> []);
             old = (case u_counts x of None \<Rightarrow> 0 | Some c \<Rightarrow> count_of c kind)
           in AList.update kind (old + 1) c) \<rparr>)"
  let ?g = "\<lambda>x. stamp_user is_signal now (x\<lparr> u_score := apply_delta (u_score r) delta,
      u_counts := Some (incr_count kind (case u_counts r of Some c \<Rightarrow> c | None \<Rightarrow> [])) \<rparr>)"
  have "?f r = ?g r"
    by (simp add: apply_delta_def incr_count_def count_of_def Let_def split: option.split)
  with assms Some have same: "map_where (user_key t u) ?f tab = map_where (user_key t u) ?g tab"
    by (rule map_where_unique)
  have "List.find (user_key t u) (map_where (user_key t u) ?g tab) = Some (?g r)"
    using Some by (subst find_map_where_same) (auto simp: user_key_def)
  then have hd: "u_score (hd (filter (user_key t u) (map_where (user_key t u) ?g tab))) =
      apply_delta (u_score r) delta"
    by (simp add: find_hd_filter)
  have ne: "filter (user_key t u) tab \<noteq> []" using Some by (simp add: find_hd_filter)
  show ?thesis
    unfolding upsert_user_pg_def upsert_user_rmw_def if_not_P [OF ne] Let_def Some option.case
    using same hd by (simp add: Let_def)
qed

theorem upsert_paths_agree_witness:
  "fst (upsert_user_pg
     [\<lparr> u_tenant = ''t'', u_user = ''u'', u_score = 3, u_counts = None, u_last_signal = None,
        u_last_clean = None, u_updated = 0 \<rparr>] ''t'' ''u'' ''data_leak'' (-10) True 7) = 0"
  by (subst upsert_paths_agree)
    (simp_all add: user_keys_def upsert_user_fst user_score_find user_key_def apply_delta_def trust_consts)

end
