(* ===== verification/Canonicals.thy ===== *)
theory Canonicals
  imports Prelude
begin

text \<open>
  The wire vocabulary (\<open>kya/canonicals.py\<close>, \<open>kya/_verdict_aliases.py\<close>): verdicts,
  outcomes with their terminal subset, evidence kinds, principal kinds, signal
  kinds, and the legacy verdict alias. Frozensets are lists tested for
  membership.
\<close>

definition CANONICAL_VERDICTS :: "string list" where
  "CANONICAL_VERDICTS =
    [''allow'', ''deny'', ''flag_for_review'', ''block'', ''redact'', ''throttle'',
     ''anonymize'']"

definition NON_TERMINAL_OUTCOMES :: "string list" where
  "NON_TERMINAL_OUTCOMES =
    [''pending'', ''in_progress'']"

definition CANONICAL_OUTCOMES :: "string list" where
  "CANONICAL_OUTCOMES =
    [''success'', ''failure'', ''refused'', ''denied'', ''blocked'', ''error'', ''throttled'',
     ''partial'', ''in_progress'', ''pending'']"

definition CANONICAL_EVIDENCE_KINDS :: "string list" where
  "CANONICAL_EVIDENCE_KINDS =
    [''chain_genesis'', ''prompt'', ''response'', ''tool_call'', ''tool_result'',
     ''delegation_message'', ''hil_decision'', ''system_message'', ''judge_verdict'',
     ''runtime_falco'', ''runtime_tetragon'', ''runtime_tracee'', ''runtime_sysdig'',
     ''runtime_osquery'', ''runtime_auditd'', ''runtime_k8s_audit'', ''runtime_ebpf'',
     ''autonomy_mavlink'', ''issuer_vc_issued'', ''issuer_vc_revoked'',
     ''issuer_vc_revoke_already_set'', ''trust_registry_change'', ''gateway_verdict'',
     ''revocation_blocked'', ''dpop_replay'', ''dpop_forge_attempt'', ''dpop_expired'',
     ''issuer_rotation_pending'', ''vc_request_queued'', ''vc_request_approved'',
     ''vc_request_auto_approved'', ''vc_request_denied'', ''action_gate_block'',
     ''external_alert'', ''abac_decision'', ''abac_shadow_eval'', ''abac_native_override'']"

definition CANONICAL_PRINCIPAL_KINDS :: "string list" where
  "CANONICAL_PRINCIPAL_KINDS =
    [''user'', ''agent'', ''service_account'', ''drone'', ''robot'', ''vehicle'', ''plc'',
     ''scada'', ''controller'', ''sensor'', ''actuator'', ''lakehouse_job'',
     ''machine_identity'', ''autonomous_system'', ''admin'']"

definition CANONICAL_SIGNAL_KINDS :: "string list" where
  "CANONICAL_SIGNAL_KINDS =
    [''oos_tool'', ''cross_tenant'', ''data_leak'', ''rbac_refusal'', ''governance_block'',
     ''hallucination'', ''injection_attempt'', ''definition_drift'', ''policy_violation'',
     ''agent_first_sight'', ''rate_limit_exceeded'', ''payload_too_large'',
     ''replay_detected'', ''revocation_blocked'', ''dpop_replay'', ''dpop_forge_attempt'',
     ''dpop_expired'', ''issuer_rotation_pending'', ''vc_approval_denied'',
     ''budget_exceeded'', ''budget_error'', ''human_gate'']"

definition CANONICAL_LIFECYCLE_STATES :: "string list" where
  "CANONICAL_LIFECYCLE_STATES =
    [''draft'', ''staged'', ''active'', ''deprecated'', ''archived'']"

definition CANONICAL_COMPOSITION_MODES :: "string list" where
  "CANONICAL_COMPOSITION_MODES =
    [''abac_only'', ''abac_then_native'', ''native_then_abac'', ''abac_augments_native'']"

definition TERMINAL_OUTCOMES :: "string list" where
  "TERMINAL_OUTCOMES = filter (\<lambda>x. x \<notin> set NON_TERMINAL_OUTCOMES) CANONICAL_OUTCOMES"

definition EVIDENCE_KIND_CHAIN_GENESIS :: string where
  "EVIDENCE_KIND_CHAIN_GENESIS = ''chain_genesis''"

definition LEGACY_VERDICT_ALIASES :: "(string \<times> string) list" where
  "LEGACY_VERDICT_ALIASES = [(''require_human'', ''flag_for_review'')]"

lemma non_terminal_subset: "set NON_TERMINAL_OUTCOMES \<subseteq> set CANONICAL_OUTCOMES"
  by (simp add: NON_TERMINAL_OUTCOMES_def CANONICAL_OUTCOMES_def)

lemma terminal_not_non_terminal:
  "out \<in> set TERMINAL_OUTCOMES \<Longrightarrow> out \<notin> set NON_TERMINAL_OUTCOMES"
  by (simp add: TERMINAL_OUTCOMES_def)

lemma outcome_cases:
  "out \<in> set CANONICAL_OUTCOMES \<longleftrightarrow> out \<in> set TERMINAL_OUTCOMES \<or> out \<in> set NON_TERMINAL_OUTCOMES"
  using non_terminal_subset by (auto simp: TERMINAL_OUTCOMES_def)

lemma aliases_reach_canonical:
  "map_of LEGACY_VERDICT_ALIASES v = Some w \<Longrightarrow>
     w \<in> set CANONICAL_VERDICTS \<and> v \<notin> set CANONICAL_VERDICTS"
  by (auto simp: LEGACY_VERDICT_ALIASES_def CANONICAL_VERDICTS_def split: if_splits)

end
