(* ===== verification/Principals.thy ===== *)
theory Principals
  imports Trust Canonicals
begin

text \<open>
  Trust of non-human principals (\<open>kya/principals.py\<close>): the registry of principal
  kinds, the trust row, its reads, the signal write with its retry loop against
  concurrent writers, and the clean-run write.
\<close>

section \<open>Registry of kinds\<close>

text \<open>\<open>_KIND_REGEX = ^[a-z][a-z0-9_]{0,19}$\<close>; \<open>$\<close> also matches before one final newline.\<close>

definition kind_tail_char :: "char \<Rightarrow> bool" where
  "kind_tail_char c = (is_lower c \<or> is_digit c \<or> c = CHR ''_'')"

definition kind_body :: "string \<Rightarrow> bool" where
  "kind_body s = (case s of [] \<Rightarrow> False
     | c # cs \<Rightarrow> is_lower c \<and> length cs \<le> 19 \<and> list_all kind_tail_char cs)"

definition kind_regex :: "string \<Rightarrow> bool" where
  "kind_regex s = (kind_body s \<or> (s \<noteq> [] \<and> last s = CHR 0x0A \<and> kind_body (butlast s)))"

definition initial_registered_kinds :: "string option \<Rightarrow> string list" where
  "initial_registered_kinds env =
     CANONICAL_PRINCIPAL_KINDS @
     (let raw = strip (case env of Some s \<Rightarrow> s | None \<Rightarrow> [])
      in if raw = [] then []
         else filter (\<lambda>k. k \<noteq> [] \<and> kind_regex k) (map strip (split_on CHR '','' raw)))"

definition register_principal_kind :: "string list \<Rightarrow> string \<Rightarrow> string + string list" where
  "register_principal_kind reg kind =
     (if \<not> kind_regex kind then Inl ''ValueError'' else Inr (List.insert kind reg))"

definition is_valid_principal_kind :: "string list \<Rightarrow> string \<Rightarrow> bool" where
  "is_valid_principal_kind reg kind = (kind \<in> set reg)"

definition registered_principal_kinds :: "string list \<Rightarrow> string list" where
  "registered_principal_kinds reg = sort (remdups reg)"

lemma register_adds:
  "register_principal_kind reg k = Inr reg' \<Longrightarrow>
     is_valid_principal_kind reg' k' \<longleftrightarrow> k' = k \<or> is_valid_principal_kind reg k'"
  by (auto simp: register_principal_kind_def is_valid_principal_kind_def split: if_splits)

lemma initial_kinds_default: "set CANONICAL_PRINCIPAL_KINDS \<subseteq> set (initial_registered_kinds env)"
  by (simp add: initial_registered_kinds_def)

text \<open>Stripping removes the newline that the regex would accept, so the environment path is exact.\<close>

lemma strip_last_not_space: "strip s \<noteq> [] \<Longrightarrow> \<not> is_space (last (strip s))"
proof -
  assume "strip s \<noteq> []"
  then have "dropWhile is_space (rev (dropWhile is_space s)) \<noteq> []"
    by (simp only: strip_def rev_is_Nil_conv not_False_eq_True)
  from hd_dropWhile [OF this] show ?thesis
    by (simp only: strip_def last_rev not_False_eq_True)
qed

lemma is_space_newline [simp]: "is_space (CHR 0x0A)"
  by (simp add: is_space_def code_of_def)

lemma initial_kinds_exact:
  assumes "k \<in> set (initial_registered_kinds env)"
  shows "k \<in> set CANONICAL_PRINCIPAL_KINDS \<or> kind_body k"
proof (rule disjCI)
  assume "\<not> kind_body k"
  show "k \<in> set CANONICAL_PRINCIPAL_KINDS"
  proof (rule ccontr)
    assume "k \<notin> set CANONICAL_PRINCIPAL_KINDS"
    with assms obtain x where x: "k = strip x" "k \<noteq> []" "kind_regex k"
      by (auto simp: initial_registered_kinds_def Let_def split: if_splits)
    with \<open>\<not> kind_body k\<close> have "is_space (last k)"
      by (auto simp: kind_regex_def)
    with x strip_last_not_space [of x] show False by simp
  qed
qed

section \<open>Rows and reads\<close>

record principal_row =
  p_tenant :: ident
  p_kind :: string
  p_id :: ident
  p_score :: int
  p_counts :: "counts option"
  p_actor :: "ident option"
  p_attrs :: "attrs option"
  p_last_signal :: "instant option"
  p_last_clean :: "instant option"
  p_updated :: instant

type_synonym principal_table = "principal_row list"
type_synonym principal_key = "ident \<times> string \<times> ident"

definition principal_at :: "principal_key \<Rightarrow> principal_row \<Rightarrow> bool" where
  "principal_at k r = (k = (p_tenant r, p_kind r, p_id r))"

record principal_trust =
  pt_key :: principal_key
  pt_score :: int
  pt_bucket :: string
  pt_counts :: counts
  pt_actor :: "ident option"
  pt_attrs :: attrs
  pt_last_signal :: "instant option"
  pt_last_clean :: "instant option"
  pt_updated :: "instant option"

definition get_principal_trust :: "principal_table \<Rightarrow> principal_key \<Rightarrow> principal_trust" where
  "get_principal_trust tab k =
     (case List.find (principal_at k) tab of
        None \<Rightarrow>
          \<lparr> pt_key = k, pt_score = STARTING_TRUST, pt_bucket = bucket_for_trust STARTING_TRUST,
            pt_counts = [], pt_actor = None, pt_attrs = [], pt_last_signal = None,
            pt_last_clean = None, pt_updated = None \<rparr>
      | Some r \<Rightarrow>
          \<lparr> pt_key = k, pt_score = p_score r, pt_bucket = bucket_for_trust (p_score r),
            pt_counts = (case p_counts r of Some c \<Rightarrow> c | None \<Rightarrow> []),
            pt_actor = p_actor r,
            pt_attrs = (case p_attrs r of Some a \<Rightarrow> a | None \<Rightarrow> []),
            pt_last_signal = p_last_signal r, pt_last_clean = p_last_clean r,
            pt_updated = Some (p_updated r) \<rparr>)"

definition list_principals ::
    "principal_table \<Rightarrow> ident \<Rightarrow> string option \<Rightarrow> nat \<Rightarrow> principal_row list" where
  "list_principals tab t kind lim =
     take lim (sort_key (\<lambda>r. (p_score r, - p_updated r))
       (filter (\<lambda>r. p_tenant r = t \<and> (truthy kind \<longrightarrow> kind = Some (p_kind r))) tab))"

section \<open>Recording a signal\<close>

text \<open>The arguments that reach the write, after the defaults of the call.\<close>

record signal_args =
  sa_kind :: string
  sa_actor :: "ident option"
  sa_attrs :: attrs
  sa_at :: instant
  sa_allow_create :: bool
  sa_delta :: int

definition coerce_kind :: "string list \<Rightarrow> string \<Rightarrow> string" where
  "coerce_kind reg kind = (if is_valid_principal_kind reg kind then kind else ''user'')"

text \<open>An explicit override is floored at zero; a table weight is used as it is.\<close>

definition principal_delta :: "string \<Rightarrow> int option \<Rightarrow> int" where
  "principal_delta signal_kind override =
     (case override of None \<Rightarrow> signal_delta signal_kind | Some d \<Rightarrow> min 0 d)"

definition created_row :: "principal_key \<Rightarrow> signal_args \<Rightarrow> instant \<Rightarrow> principal_row" where
  "created_row k a now =
     (case k of (t, kind, pid) \<Rightarrow>
       \<lparr> p_tenant = t, p_kind = kind, p_id = pid,
         p_score = max MIN_TRUST (min MAX_TRUST (STARTING_TRUST + sa_delta a)),
         p_counts = Some [(sa_kind a, 1)], p_actor = sa_actor a,
         p_attrs = Some (sa_attrs a), p_last_signal = Some (sa_at a),
         p_last_clean = None, p_updated = now \<rparr>)"

definition merged_row :: "signal_args \<Rightarrow> instant \<Rightarrow> principal_row \<Rightarrow> principal_row" where
  "merged_row a now r =
     r\<lparr> p_score := max MIN_TRUST (min MAX_TRUST (p_score r + sa_delta a)),
        p_counts := Some (incr_count (sa_kind a) (case p_counts r of Some c \<Rightarrow> c | None \<Rightarrow> [])),
        p_actor := (if truthy (sa_actor a) then sa_actor a else p_actor r),
        p_attrs := Some (dict_merge (case p_attrs r of Some x \<Rightarrow> x | None \<Rightarrow> []) (sa_attrs a)),
        p_last_signal := Some (sa_at a), p_updated := now \<rparr>"

text \<open>One pass of the loop body before the commit: the score and the table to commit.\<close>

definition signal_pass ::
    "principal_table \<Rightarrow> principal_key \<Rightarrow> signal_args \<Rightarrow> instant \<Rightarrow> (int \<times> principal_table) option" where
  "signal_pass tab k a now =
     (case List.find (principal_at k) tab of
        None \<Rightarrow>
          if \<not> sa_allow_create a then None
          else Some (p_score (created_row k a now), tab @ [created_row k a now])
      | Some r \<Rightarrow>
          Some (p_score (merged_row a now r), map_where (principal_at k) (merged_row a now) tab))"

text \<open>
  What the database does at each commit: accept; reject with an integrity or operational
  error, leaving the table that other writers committed; or accept although other
  writers committed after the row was read. The row lock of PostgreSQL and MySQL and the
  in-process lock of SQLite and DuckDB keep other signals out of that gap, but the lock is
  skipped when it cannot be taken, other processes do not share it, and
  \<open>record_principal_clean\<close> takes none.
\<close>

datatype commit = Committed | Conflict principal_table | Overtaken principal_table

datatype landing = Landed principal_table | Refused principal_table | Vanished principal_table

text \<open>
  The flush writes the changed columns of the row that was read, as absolute values. Upon
  a table changed in between, an insert whose key is now taken is refused, an update whose
  row is gone matches nothing (the session's \<open>StaleDataError\<close>), and an update whose row
  is still there overwrites its columns.
\<close>

definition commit_lands ::
    "commit \<Rightarrow> principal_key \<Rightarrow> (principal_row \<Rightarrow> principal_row \<Rightarrow> principal_row) \<Rightarrow> principal_row \<Rightarrow>
     principal_table \<Rightarrow> principal_table \<Rightarrow> landing" where
  "commit_lands c k late new tab tab' =
     (case c of
        Committed \<Rightarrow> Landed tab'
      | Conflict rival \<Rightarrow> Refused rival
      | Overtaken rival \<Rightarrow>
          (case List.find (principal_at k) tab of
             None \<Rightarrow>
               if List.find (principal_at k) rival = None then Landed (rival @ [new]) else Refused rival
           | Some r \<Rightarrow>
               if List.find (principal_at k) rival = None then Vanished rival
               else Landed (map_where (principal_at k) (late r) rival)))"

definition changed :: "'a \<Rightarrow> 'a \<Rightarrow> 'a \<Rightarrow> 'a" where
  "changed new old other = (if new = old then other else new)"

definition late_signal :: "signal_args \<Rightarrow> instant \<Rightarrow> principal_row \<Rightarrow> principal_row \<Rightarrow> principal_row" where
  "late_signal a now r x =
     (let m = merged_row a now r
      in x\<lparr> p_score := changed (p_score m) (p_score r) (p_score x),
            p_counts := changed (p_counts m) (p_counts r) (p_counts x),
            p_actor := changed (p_actor m) (p_actor r) (p_actor x),
            p_attrs := changed (p_attrs m) (p_attrs r) (p_attrs x),
            p_last_signal := changed (p_last_signal m) (p_last_signal r) (p_last_signal x),
            p_updated := now \<rparr>)"

fun signal_loop ::
    "nat \<Rightarrow> commit list \<Rightarrow> principal_table \<Rightarrow> principal_key \<Rightarrow> signal_args \<Rightarrow> instant \<Rightarrow>
     (string + int) \<times> principal_table" where
  "signal_loop attempt cs tab k a now =
     (case signal_pass tab k a now of
        None \<Rightarrow> (Inr (-1), tab)
      | Some (s, tab') \<Rightarrow>
          (case cs of
             [] \<Rightarrow> (Inr s, tab')
           | c # rest \<Rightarrow>
               (case commit_lands c k (late_signal a now) (created_row k a now) tab tab' of
                  Landed db \<Rightarrow> (Inr s, db)
                | Vanished rival \<Rightarrow> (Inl ''StaleDataError'', rival)
                | Refused rival \<Rightarrow>
                    if attempt = 9 then (Inl ''OperationalError'', rival)
                    else signal_loop (Suc attempt) rest rival k a now)))"

declare signal_loop.simps [simp del]

definition signal_call ::
    "string \<Rightarrow> ident option \<Rightarrow> attrs \<Rightarrow> instant option \<Rightarrow> bool \<Rightarrow> int option \<Rightarrow> instant \<Rightarrow> signal_args" where
  "signal_call signal_kind actor attrs occurred allow_create override now =
     \<lparr> sa_kind = signal_kind, sa_actor = actor, sa_attrs = attrs,
       sa_at = (case occurred of Some o' \<Rightarrow> o' | None \<Rightarrow> now),
       sa_allow_create = allow_create,
       sa_delta = principal_delta signal_kind override \<rparr>"

definition record_principal_signal ::
    "string list \<Rightarrow> commit list \<Rightarrow> principal_table \<Rightarrow> principal_key \<Rightarrow> string \<Rightarrow> ident option \<Rightarrow>
     attrs \<Rightarrow> instant option \<Rightarrow> bool \<Rightarrow> int option \<Rightarrow> instant \<Rightarrow>
     (string + int) \<times> principal_table" where
  "record_principal_signal reg cs tab k signal_kind actor attrs occurred allow_create override now =
     (case k of (t, kind, pid) \<Rightarrow>
       signal_loop 0 cs tab (t, coerce_kind reg kind, pid)
         (signal_call signal_kind actor attrs occurred allow_create override now) now)"

text \<open>A clean run: the same read and write, without a lock, a retry or an \<open>allow_create\<close>.\<close>

definition clean_row :: "principal_key \<Rightarrow> instant \<Rightarrow> instant \<Rightarrow> principal_row" where
  "clean_row k ran_at now =
     (case k of (t, kind, pid) \<Rightarrow>
       \<lparr> p_tenant = t, p_kind = kind, p_id = pid,
         p_score = max MIN_TRUST (min MAX_TRUST (STARTING_TRUST + signal_delta ''clean_invocation'')),
         p_counts = Some [(''clean_invocation'', 1)], p_actor = None,
         p_attrs = Some [], p_last_signal = None, p_last_clean = Some ran_at, p_updated = now \<rparr>)"

definition late_clean :: "instant \<Rightarrow> instant \<Rightarrow> principal_row \<Rightarrow> principal_row \<Rightarrow> principal_row" where
  "late_clean ran_at now r x =
     x\<lparr> p_score := changed (max MIN_TRUST (min MAX_TRUST (p_score r + signal_delta ''clean_invocation'')))
                     (p_score r) (p_score x),
        p_counts := Some (incr_count ''clean_invocation''
                      (case p_counts r of Some c \<Rightarrow> c | None \<Rightarrow> [])),
        p_last_clean := changed (Some ran_at) (p_last_clean r) (p_last_clean x), p_updated := now \<rparr>"

definition record_principal_clean ::
    "string list \<Rightarrow> commit \<Rightarrow> principal_table \<Rightarrow> principal_key \<Rightarrow> instant option \<Rightarrow> instant \<Rightarrow>
     (string + int) \<times> principal_table" where
  "record_principal_clean reg c tab k occurred now =
     (case k of (t, kind, pid) \<Rightarrow>
       (let key = (t, coerce_kind reg kind, pid);
            ran_at = (case occurred of Some o' \<Rightarrow> o' | None \<Rightarrow> now);
            found = List.find (principal_at key) tab;
            s = max MIN_TRUST (min MAX_TRUST
                  ((case found of None \<Rightarrow> STARTING_TRUST | Some r \<Rightarrow> p_score r) + signal_delta ''clean_invocation''));
            tab' = (case found of None \<Rightarrow> tab @ [clean_row key ran_at now]
                    | Some r \<Rightarrow> map_where (principal_at key) (late_clean ran_at now r) tab)
        in (case commit_lands c key (late_clean ran_at now) (clean_row key ran_at now) tab tab' of
              Landed db \<Rightarrow> (Inr s, db)
            | Refused rival \<Rightarrow> (Inl ''OperationalError'', rival)
            | Vanished rival \<Rightarrow> (Inl ''StaleDataError'', rival))))"

section \<open>Facts\<close>

definition principal_score :: "principal_table \<Rightarrow> principal_key \<Rightarrow> int" where
  "principal_score tab k = pt_score (get_principal_trust tab k)"

definition principal_count :: "principal_table \<Rightarrow> principal_key \<Rightarrow> string \<Rightarrow> int" where
  "principal_count tab k s = count_of (pt_counts (get_principal_trust tab k)) s"

lemma principal_score_find:
  "principal_score tab k =
     (case List.find (principal_at k) tab of None \<Rightarrow> STARTING_TRUST | Some r \<Rightarrow> p_score r)"
  by (simp add: principal_score_def get_principal_trust_def split: option.split)

lemma principal_count_find:
  "principal_count tab k s =
     (case List.find (principal_at k) tab of None \<Rightarrow> 0
      | Some r \<Rightarrow> (case p_counts r of Some c \<Rightarrow> count_of c s | None \<Rightarrow> 0))"
  by (simp add: principal_count_def get_principal_trust_def count_of_def split: option.split)

lemma principal_at_created [simp]: "principal_at k' (created_row k a now) \<longleftrightarrow> k' = k"
  by (cases k) (simp add: principal_at_def created_row_def)

lemma principal_at_merged [simp]: "principal_at k (merged_row a now r) = principal_at k r"
  by (simp add: principal_at_def merged_row_def)

lemma created_row_fields [simp]:
  "p_score (created_row k a now) = apply_delta STARTING_TRUST (sa_delta a)"
  "p_counts (created_row k a now) = Some [(sa_kind a, 1)]"
  by (cases k; simp add: created_row_def apply_delta_def)+

lemma merged_row_fields [simp]:
  "p_score (merged_row a now r) = apply_delta (p_score r) (sa_delta a)"
  "p_counts (merged_row a now r) =
     Some (incr_count (sa_kind a) (case p_counts r of Some c \<Rightarrow> c | None \<Rightarrow> []))"
  by (simp_all add: merged_row_def apply_delta_def)

lemma signal_pass_find:
  assumes "signal_pass tab k a now = Some (s, tab')"
  shows "List.find (principal_at k) tab' =
    Some (case List.find (principal_at k) tab of
            None \<Rightarrow> created_row k a now | Some r \<Rightarrow> merged_row a now r)"
  using assms
  by (auto simp: signal_pass_def find_append find_map_where_same split: option.splits if_splits)

lemma signal_pass_other:
  assumes "signal_pass tab k a now = Some (s, tab')" "k' \<noteq> k"
  shows "List.find (principal_at k') tab' = List.find (principal_at k') tab"
proof -
  have disj: "principal_at k r \<Longrightarrow> \<not> principal_at k' r" for r
    using assms(2) by (auto simp: principal_at_def)
  have "List.find (principal_at k') (map_where (principal_at k) (merged_row a now) tab) =
        List.find (principal_at k') tab"
    by (rule find_map_where_other) (auto dest: disj)
  then show ?thesis using assms
    by (auto simp: signal_pass_def find_append split: option.splits if_splits)
qed

lemma signal_pass_score:
  assumes "signal_pass tab k a now = Some (s, tab')"
  shows "s = apply_delta (principal_score tab k) (sa_delta a)" "principal_score tab' k = s"
    "principal_count tab' k c = principal_count tab k c + (if c = sa_kind a then 1 else 0)"
proof -
  show "s = apply_delta (principal_score tab k) (sa_delta a)"
    using assms by (auto simp: signal_pass_def principal_score_find split: option.splits if_splits)
  then show "principal_score tab' k = s"
    by (simp add: principal_score_find signal_pass_find [OF assms] split: option.split)
  show "principal_count tab' k c = principal_count tab k c + (if c = sa_kind a then 1 else 0)"
    by (simp add: principal_count_find signal_pass_find [OF assms] count_incr split: option.split)
      (simp add: count_of_def)
qed

lemma signal_pass_None:
  "signal_pass tab k a now = None \<longleftrightarrow>
     List.find (principal_at k) tab = None \<and> \<not> sa_allow_create a"
  by (auto simp: signal_pass_def split: option.split)

text \<open>The table that attempt \<open>n\<close> reads, and the one its accepted commit lands on.\<close>

primrec left_by :: "commit \<Rightarrow> principal_table \<Rightarrow> principal_table" where
  "left_by Committed tab = tab"
| "left_by (Conflict rival) tab = rival"
| "left_by (Overtaken rival) tab = rival"

fun read_at :: "commit list \<Rightarrow> principal_table \<Rightarrow> nat \<Rightarrow> principal_table" where
  "read_at (c # cs) tab (Suc n) = read_at cs (left_by c tab) n"
| "read_at cs tab n = tab"

fun landed_on :: "commit list \<Rightarrow> principal_table \<Rightarrow> nat \<Rightarrow> principal_table" where
  "landed_on (c # cs) tab 0 = left_by c tab"
| "landed_on (c # cs) tab (Suc n) = landed_on cs (left_by c tab) n"
| "landed_on [] tab n = tab"

text \<open>What an accepted commit did: everything of \<open>k\<close> from the row read, the rest from the table it met.\<close>

definition signal_applied ::
    "principal_table \<Rightarrow> principal_table \<Rightarrow> principal_key \<Rightarrow> string \<Rightarrow> int \<Rightarrow> int \<Rightarrow> principal_table \<Rightarrow> bool" where
  "signal_applied base met k sk delta s tab' =
     (s = apply_delta (principal_score base k) delta
      \<and> principal_score tab' k = (if s = principal_score base k then principal_score met k else s)
      \<and> (\<forall>c. principal_count tab' k c = principal_count base k c + (if c = sk then 1 else 0))
      \<and> (\<forall>k'. k' \<noteq> k \<longrightarrow> principal_score tab' k' = principal_score met k' \<and>
            (\<forall>c. principal_count tab' k' c = principal_count met k' c)))"

lemma principal_at_late [simp]:
  "principal_at k (late_signal a now r x) = principal_at k x"
  "principal_at k (late_clean ran_at now r x) = principal_at k x"
  by (simp_all add: principal_at_def late_signal_def late_clean_def Let_def)

lemma incr_count_changes [simp]: "incr_count k cs \<noteq> cs"
  using count_incr [of k cs k] by auto

lemma late_signal_fields [simp]:
  "p_score (late_signal a now r x) = changed (apply_delta (p_score r) (sa_delta a)) (p_score r) (p_score x)"
  "p_counts (late_signal a now r x) = p_counts (merged_row a now r)"
  by (auto simp: late_signal_def Let_def changed_def split: option.splits)

lemma principal_at_one: "k' \<noteq> k \<Longrightarrow> principal_at k r \<Longrightarrow> \<not> principal_at k' r"
  by (auto simp: principal_at_def)

lemma signal_lands:
  assumes pass: "signal_pass base k a now = Some (s, t1)"
    and lands: "commit_lands c k (late_signal a now) (created_row k a now) base t1 = Landed tab'"
  shows "signal_applied base (left_by c base) k (sa_kind a) (sa_delta a) s tab'"
proof (cases c)
  case Committed
  then show ?thesis
    using lands signal_pass_score [OF pass] signal_pass_other [OF pass]
    by (auto simp: commit_lands_def signal_applied_def principal_score_find principal_count_find)
next
  case (Conflict rival)
  with lands show ?thesis by (simp add: commit_lands_def)
next
  case (Overtaken rival)
  have s: "s = apply_delta (principal_score base k) (sa_delta a)"
    by (rule signal_pass_score(1) [OF pass])
  show ?thesis
  proof (cases "List.find (principal_at k) base")
    case None
    with lands Overtaken have free: "List.find (principal_at k) rival = None"
      and tab': "tab' = rival @ [created_row k a now]"
      by (auto simp: commit_lands_def split: if_splits)
    have at_k: "List.find (principal_at k) tab' = Some (created_row k a now)"
      and other: "k' \<noteq> k \<Longrightarrow> List.find (principal_at k') tab' = List.find (principal_at k') rival" for k'
      using free by (simp_all add: tab' find_append split: option.split)
    show ?thesis
      using None free other s
      by (simp add: signal_applied_def Overtaken principal_score_find principal_count_find at_k)
        (simp add: count_of_def)
  next
    case (Some r)
    with lands Overtaken obtain x where x: "List.find (principal_at k) rival = Some x"
      and tab': "tab' = map_where (principal_at k) (late_signal a now r) rival"
      by (auto simp: commit_lands_def split: if_splits)
    have at_k: "List.find (principal_at k) tab' = Some (late_signal a now r x)"
      using x by (simp add: tab' find_map_where_same)
    have other: "k' \<noteq> k \<Longrightarrow> List.find (principal_at k') tab' = List.find (principal_at k') rival" for k'
      unfolding tab' by (rule find_map_where_other) (auto dest: principal_at_one)
    show ?thesis
      using Some x other s
      by (simp add: signal_applied_def Overtaken principal_score_find principal_count_find at_k
          count_incr changed_def split: option.split) (simp add: count_of_def)
  qed
qed

lemma signal_loop_result:
  assumes "signal_loop m cs tab k a now = (Inr s, tab')" "sa_allow_create a" "m \<le> 9"
  shows "\<exists>n. m + n \<le> 9 \<and> n \<le> length cs \<and> Committed \<notin> set (take n cs) \<and>
    signal_applied (read_at cs tab n) (landed_on cs tab n) k (sa_kind a) (sa_delta a) s tab'"
  using assms
proof (induction cs arbitrary: m tab)
  case Nil
  obtain s1 t1 where pass: "signal_pass tab k a now = Some (s1, t1)"
    using signal_pass_None [of tab k a now] Nil.prems(2) by fastforce
  with Nil.prems(1) have "s1 = s \<and> t1 = tab'" by (subst (asm) signal_loop.simps) simp
  with pass have "signal_applied tab tab k (sa_kind a) (sa_delta a) s tab'"
    using signal_lands [OF pass, of Committed tab']
    by (simp add: commit_lands_def)
  then show ?case using Nil.prems(3) by (intro exI [of _ 0]) simp
next
  case (Cons c rest)
  obtain s1 t1 where pass: "signal_pass tab k a now = Some (s1, t1)"
    using signal_pass_None [of tab k a now] Cons.prems(2) by fastforce
  show ?case
  proof (cases "commit_lands c k (late_signal a now) (created_row k a now) tab t1")
    case (Landed db)
    with Cons.prems(1) pass have "s1 = s \<and> db = tab'" by (subst (asm) signal_loop.simps) simp
    with Landed pass signal_lands [where base = tab and c = c]
    have "signal_applied tab (left_by c tab) k (sa_kind a) (sa_delta a) s tab'" by blast
    then show ?thesis using Cons.prems(3) by (intro exI [of _ 0]) simp
  next
    case (Refused rival)
    then have left: "left_by c tab = rival" and ne: "c \<noteq> Committed"
      by (auto simp: commit_lands_def split: commit.splits option.splits if_splits)
    from Refused Cons.prems(1) pass have "m \<noteq> 9"
      and step: "signal_loop (Suc m) rest rival k a now = (Inr s, tab')"
      by (subst (asm) signal_loop.simps, simp split: if_splits)+
    with Cons.IH [OF step Cons.prems(2)] Cons.prems(3) obtain n where
      "Suc m + n \<le> 9" "n \<le> length rest" "Committed \<notin> set (take n rest)"
      "signal_applied (read_at rest rival n) (landed_on rest rival n) k (sa_kind a) (sa_delta a) s tab'"
      by auto
    with left ne show ?thesis by (intro exI [of _ "Suc n"]) simp
  next
    case (Vanished rival)
    with Cons.prems(1) pass show ?thesis by (subst (asm) signal_loop.simps) simp
  qed
qed

lemma signal_loop_error:
  assumes "signal_loop m cs tab k a now = (Inl e, tab')" "m \<le> 9"
  shows "(e = ''OperationalError'' \<and> 10 - m \<le> length cs \<and> Committed \<notin> set (take (10 - m) cs))
    \<or> (e = ''StaleDataError'' \<and> Overtaken tab' \<in> set cs \<and> List.find (principal_at k) tab' = None)"
  using assms
proof (induction cs arbitrary: m tab)
  case Nil
  then show ?case by (subst (asm) signal_loop.simps) (auto split: option.splits)
next
  case (Cons c rest)
  obtain s1 t1 where pass: "signal_pass tab k a now = Some (s1, t1)"
    using Cons.prems(1) by (subst (asm) signal_loop.simps) (auto split: option.splits)
  show ?case
  proof (cases "commit_lands c k (late_signal a now) (created_row k a now) tab t1")
    case (Landed db)
    with Cons.prems(1) pass show ?thesis by (subst (asm) signal_loop.simps) simp
  next
    case (Vanished rival)
    with Cons.prems(1) pass have "e = ''StaleDataError'' \<and> rival = tab'"
      by (subst (asm) signal_loop.simps) auto
    with Vanished show ?thesis
      by (auto simp: commit_lands_def split: commit.splits option.splits if_splits)
  next
    case (Refused rival)
    then have ne: "c \<noteq> Committed" by (auto simp: commit_lands_def)
    show ?thesis
    proof (cases "m = 9")
      case True
      with Refused Cons.prems(1) pass ne show ?thesis by (subst (asm) signal_loop.simps) auto
    next
      case False
      with Refused Cons.prems(1) pass have "signal_loop (Suc m) rest rival k a now = (Inl e, tab')"
        by (subst (asm) signal_loop.simps) simp
      note IH = Cons.IH [OF this]
      have "10 - m = Suc (10 - Suc m)" using False Cons.prems(2) by simp
      with IH False Cons.prems(2) ne show ?thesis by (auto simp del: diff_Suc_Suc)
    qed
  qed
qed

text \<open>The principal table is a trust ledger.\<close>

definition bump_principal :: "principal_table \<Rightarrow> principal_key \<Rightarrow> signal_args \<times> instant \<Rightarrow> principal_table" where
  "bump_principal tab k s =
     (case signal_pass tab k ((fst s)\<lparr> sa_allow_create := True \<rparr>) (snd s) of
        Some (_, tab') \<Rightarrow> tab' | None \<Rightarrow> tab)"

interpretation pl: trust_ledger principal_score bump_principal "\<lambda>s. sa_delta (fst s)"
proof unfold_locales
  fix db k and s :: "signal_args \<times> instant"
  let ?a = "(fst s)\<lparr> sa_allow_create := True \<rparr>"
  obtain v db' where p: "signal_pass db k ?a (snd s) = Some (v, db')"
    using signal_pass_None [of db k ?a "snd s"] by fastforce
  then show "principal_score (bump_principal db k s) k = apply_delta (principal_score db k) (sa_delta (fst s))"
    using signal_pass_score(1,2) [OF p] by (simp add: bump_principal_def)
next
  fix k' k :: principal_key and db and s :: "signal_args \<times> instant"
  assume ne: "k' \<noteq> k"
  let ?a = "(fst s)\<lparr> sa_allow_create := True \<rparr>"
  obtain v db' where p: "signal_pass db k ?a (snd s) = Some (v, db')"
    using signal_pass_None [of db k ?a "snd s"] by fastforce
  then show "principal_score (bump_principal db k s) k' = principal_score db k'"
    using signal_pass_other [OF p ne] by (simp add: bump_principal_def principal_score_find)
qed

lemma signal_call_simps [simp]:
  "sa_kind (signal_call sk actor at occ ac ovr now) = sk"
  "sa_allow_create (signal_call sk actor at occ ac ovr now) = ac"
  "sa_delta (signal_call sk actor at occ ac ovr now) = principal_delta sk ovr"
  by (simp_all add: signal_call_def)

text \<open>The uncontended call: its table, obtained once for the properties below.\<close>

lemma uncontended_signal:
  assumes "k = (t, coerce_kind reg kind, pid)"
  obtains tab' where
    "record_principal_signal reg [] tab (t, kind, pid) sk actor at occ True ovr now =
       (Inr (apply_delta (principal_score tab k) (principal_delta sk ovr)), tab')"
    "principal_score tab' k = apply_delta (principal_score tab k) (principal_delta sk ovr)"
    "\<And>k'. k' \<noteq> k \<Longrightarrow> principal_score tab' k' = principal_score tab k'"
proof -
  let ?a = "signal_call sk actor at occ True ovr now"
  obtain v tab' where p: "signal_pass tab k ?a now = Some (v, tab')"
    using signal_pass_None [of tab k ?a now] by fastforce
  show thesis
  proof (rule that)
    show "record_principal_signal reg [] tab (t, kind, pid) sk actor at occ True ovr now =
       (Inr (apply_delta (principal_score tab k) (principal_delta sk ovr)), tab')"
      using assms p signal_pass_score(1) [OF p]
      by (simp add: record_principal_signal_def signal_loop.simps)
    show "principal_score tab' k = apply_delta (principal_score tab k) (principal_delta sk ovr)"
      using signal_pass_score(1,2) [OF p] by simp
    show "principal_score tab' k' = principal_score tab k'" if "k' \<noteq> k" for k'
      using signal_pass_other [OF p that] by (simp add: principal_score_find)
  qed
qed

section \<open>Properties\<close>

text \<open>C17. What a principal signal does against concurrent writers. A call that returns a
score made it at one attempt \<open>n\<close> of at most ten, after \<open>n\<close> refused commits, from the table that
attempt read: the score returned is that table's moved by the delta and clamped, and the
counters stored for the principal are that table's with the signal's counter one higher.
Every other principal, and the score where the delta left it unchanged, is as in the table
the commit landed on, which is the one read unless another writer committed in between: then
what that writer counted for this principal is gone. The call fails only after ten refused
commits in a row, or when the row it read was deleted under it.\<close>
theorem principal_signal_read_and_landed:
  "case record_principal_signal reg cs tab (t, kind, pid) sk actor ats occ True ovr now of
     (Inr s, tab') \<Rightarrow>
       \<exists>n \<le> 9. n \<le> length cs \<and> Committed \<notin> set (take n cs)
       \<and> s = apply_delta (principal_score (read_at cs tab n) (t, coerce_kind reg kind, pid)) (principal_delta sk ovr)
       \<and> principal_score tab' (t, coerce_kind reg kind, pid) =
           (if s = principal_score (read_at cs tab n) (t, coerce_kind reg kind, pid)
            then principal_score (landed_on cs tab n) (t, coerce_kind reg kind, pid) else s)
       \<and> (\<forall>c. principal_count tab' (t, coerce_kind reg kind, pid) c =
            principal_count (read_at cs tab n) (t, coerce_kind reg kind, pid) c + (if c = sk then 1 else 0))
       \<and> (\<forall>k'. k' \<noteq> (t, coerce_kind reg kind, pid) \<longrightarrow>
            principal_score tab' k' = principal_score (landed_on cs tab n) k' \<and>
            (\<forall>c. principal_count tab' k' c = principal_count (landed_on cs tab n) k' c))
   | (Inl e, tab') \<Rightarrow>
       e = ''OperationalError'' \<and> 10 \<le> length cs \<and> Committed \<notin> set (take 10 cs)
       \<or> e = ''StaleDataError'' \<and> Overtaken tab' \<in> set cs
         \<and> List.find (principal_at (t, coerce_kind reg kind, pid)) tab' = None"
proof -
  let ?k = "(t, coerce_kind reg kind, pid)"
  let ?a = "signal_call sk actor ats occ True ovr now"
  obtain r tab' where r: "record_principal_signal reg cs tab (t, kind, pid) sk actor ats occ True ovr now = (r, tab')"
    by (metis surj_pair)
  then have loop: "signal_loop 0 cs tab ?k ?a now = (r, tab')"
    by (simp add: record_principal_signal_def)
  show ?thesis
  proof (cases r)
    case (Inl e)
    with loop signal_loop_error [of 0 cs tab ?k ?a now e tab'] r show ?thesis by simp
  next
    case (Inr s)
    with loop signal_loop_result [of 0 cs tab ?k ?a now s tab'] obtain n where
      "n \<le> 9" "n \<le> length cs" "Committed \<notin> set (take n cs)"
      "signal_applied (read_at cs tab n) (landed_on cs tab n) ?k sk (principal_delta sk ovr) s tab'"
      by auto
    then show ?thesis
      unfolding r Inr sum.case prod.case signal_applied_def by (intro exI [of _ n] conjI) simp_all
  qed
qed

theorem principal_signal_read_and_landed_witness:
  "case record_principal_signal [''agent''] [Conflict []] [] (''t'', ''agent'', ''a'')
      ''oos_tool'' None [] None True None 5 of (Inr s, _) \<Rightarrow> s = 47 | _ \<Rightarrow> False"
  using principal_signal_read_and_landed [where reg = "[''agent'']" and cs = "[Conflict []]"
      and tab = "[]" and t = "''t''" and kind = "''agent''" and pid = "''a''" and sk = "''oos_tool''"
      and actor = None and ats = "[]" and occ = None and ovr = None and now = 5]
  by (auto simp: coerce_kind_def is_valid_principal_kind_def principal_score_find le_Suc_eq
      principal_delta_def signal_delta_def SIGNAL_DELTAS_def apply_delta_def trust_consts
      split: sum.splits prod.splits)

text \<open>The lost update. When the principal has a row, and a writer reads it before another
signal of a different kind commits and commits after it, both calls return a score and only the second
signal is counted: the first one's counter is back where it was.\<close>
theorem concurrent_signal_lost:
  assumes row: "List.find (principal_at (t, coerce_kind reg kind, pid)) tab \<noteq> None"
    and first: "record_principal_signal reg [] tab (t, kind, pid) sk1 actor1 ats1 occ1 True ovr1 now1 = (Inr s1, tab1)"
    and second: "record_principal_signal reg [Overtaken tab1] tab (t, kind, pid) sk2 actor2 ats2 occ2 True ovr2 now2 = (res, tab2)"
    and kinds: "sk1 \<noteq> sk2"
  shows "res = Inr (apply_delta (principal_score tab (t, coerce_kind reg kind, pid)) (principal_delta sk2 ovr2))
    \<and> principal_count tab1 (t, coerce_kind reg kind, pid) sk1 =
        principal_count tab (t, coerce_kind reg kind, pid) sk1 + 1
    \<and> principal_count tab2 (t, coerce_kind reg kind, pid) sk1 =
        principal_count tab (t, coerce_kind reg kind, pid) sk1"
proof -
  let ?k = "(t, coerce_kind reg kind, pid)"
  let ?a1 = "signal_call sk1 actor1 ats1 occ1 True ovr1 now1"
  let ?a2 = "signal_call sk2 actor2 ats2 occ2 True ovr2 now2"
  obtain r where r: "List.find (principal_at ?k) tab = Some r" using row by auto
  obtain v1 u1 where p1: "signal_pass tab ?k ?a1 now1 = Some (v1, u1)"
    using signal_pass_None [of tab ?k ?a1 now1] by fastforce
  obtain v2 u2 where p2: "signal_pass tab ?k ?a2 now2 = Some (v2, u2)"
    using signal_pass_None [of tab ?k ?a2 now2] by fastforce
  have tab1: "tab1 = u1" using first p1 by (simp add: record_principal_signal_def signal_loop.simps)
  have "List.find (principal_at ?k) tab1 \<noteq> None" using signal_pass_find [OF p1] tab1 by simp
  then obtain db where lands:
    "commit_lands (Overtaken tab1) ?k (late_signal ?a2 now2) (created_row ?k ?a2 now2) tab u2 = Landed db"
    using r by (simp add: commit_lands_def)
  then have "res = Inr v2 \<and> tab2 = db"
    using second p2 by (simp add: record_principal_signal_def signal_loop.simps [of _ "_ # _"])
  with signal_lands [OF p2 lands] signal_pass_score(3) [OF p1, of sk1] tab1 kinds
  show ?thesis by (auto simp: signal_applied_def)
qed

text \<open>A clean run is such a writer on every database: it takes neither the row lock nor the
in-process lock, so what a signal committed after its read is overwritten.\<close>
theorem clean_run_erases_signal:
  assumes row: "List.find (principal_at (t, coerce_kind reg kind, pid)) tab = Some r"
    and signal: "record_principal_signal reg [] tab (t, kind, pid) sk actor ats occ True ovr now = (Inr s1, tab1)"
    and clean: "record_principal_clean reg (Overtaken tab1) tab (t, kind, pid) occ2 now2 = (res, tab2)"
    and kinds: "sk \<noteq> ''clean_invocation''" and room: "in_range (p_score r)" "p_score r < MAX_TRUST"
  shows "res = Inr (p_score r + 1)
    \<and> principal_score tab2 (t, coerce_kind reg kind, pid) = p_score r + 1
    \<and> principal_count tab2 (t, coerce_kind reg kind, pid) sk =
        principal_count tab (t, coerce_kind reg kind, pid) sk"
proof -
  let ?k = "(t, coerce_kind reg kind, pid)"
  let ?a = "signal_call sk actor ats occ True ovr now"
  obtain v1 u1 where p1: "signal_pass tab ?k ?a now = Some (v1, u1)"
    using signal_pass_None [of tab ?k ?a now] by fastforce
  have tab1: "tab1 = u1" using signal p1 by (simp add: record_principal_signal_def signal_loop.simps)
  obtain x where x: "List.find (principal_at ?k) tab1 = Some x" using signal_pass_find [OF p1] tab1 by simp
  have step: "max MIN_TRUST (min MAX_TRUST (p_score r + signal_delta ''clean_invocation'')) = p_score r + 1"
    using room by (simp add: in_range_def trust_consts signal_delta_def SIGNAL_DELTAS_def)
  define ran_at where "ran_at = (case occ2 of Some o' \<Rightarrow> o' | None \<Rightarrow> now2)"
  have wrote: "res = Inr (p_score r + 1)" "tab2 = map_where (principal_at ?k) (late_clean ran_at now2 r) tab1"
    using clean row x step by (simp_all add: record_principal_clean_def commit_lands_def Let_def ran_at_def)
  have "List.find (principal_at ?k) tab2 = Some (late_clean ran_at now2 r x)"
    unfolding wrote(2) using x by (subst find_map_where_same) simp_all
  moreover have "p_score (late_clean ran_at now2 r x) = p_score r + 1"
    "p_counts (late_clean ran_at now2 r x) = Some (incr_count ''clean_invocation''
       (case p_counts r of Some c \<Rightarrow> c | None \<Rightarrow> []))"
    using step by (simp_all add: late_clean_def changed_def)
  ultimately show ?thesis
    using wrote(1) row kinds
    by (simp add: principal_score_find principal_count_find count_incr)
      (simp add: count_of_def split: option.split)
qed

text \<open>Both happen: a row at 50, a leak of data, and the clean run or the second signal that read before it.\<close>

definition fresh_agent :: principal_table where
  "fresh_agent = [\<lparr> p_tenant = ''t'', p_kind = ''agent'', p_id = ''a'', p_score = 50, p_counts = None,
     p_actor = None, p_attrs = None, p_last_signal = None, p_last_clean = None, p_updated = 0 \<rparr>]"

definition leaked :: principal_table where
  "leaked = snd (record_principal_signal [''agent''] [] fresh_agent (''t'', ''agent'', ''a'')
     ''data_leak'' None [] None True None 5)"

lemma fresh_agent_facts:
  "List.find (principal_at (''t'', coerce_kind [''agent''] ''agent'', ''a'')) fresh_agent = Some (hd fresh_agent)"
  "fst (record_principal_signal [''agent''] [] fresh_agent (''t'', ''agent'', ''a'')
     ''data_leak'' None [] None True None 5) = Inr 40"
  "p_score (hd fresh_agent) = 50"
  by (simp_all add: fresh_agent_def coerce_kind_def is_valid_principal_kind_def principal_at_def
      record_principal_signal_def signal_loop.simps signal_pass_def signal_call_def principal_delta_def
      signal_delta_def SIGNAL_DELTAS_def apply_delta_def trust_consts)

theorem concurrent_signal_lost_witness:
  "principal_count leaked (''t'', ''agent'', ''a'') ''data_leak'' = 1
   \<and> principal_count (snd (record_principal_signal [''agent''] [Overtaken leaked] fresh_agent (''t'', ''agent'', ''a'')
        ''oos_tool'' None [] None True None 6)) (''t'', ''agent'', ''a'') ''data_leak'' = 0"
proof -
  have none: "principal_count fresh_agent (''t'', coerce_kind [''agent''] ''agent'', ''a'') ''data_leak'' = 0"
    using fresh_agent_facts(1) by (simp add: principal_count_find fresh_agent_def)
  have k: "coerce_kind [''agent''] ''agent'' = ''agent''"
    by (simp add: coerce_kind_def is_valid_principal_kind_def)
  have sent: "record_principal_signal [''agent''] [] fresh_agent (''t'', ''agent'', ''a'')
      ''data_leak'' None [] None True None 5 = (Inr 40, leaked)"
    using fresh_agent_facts(2) by (simp add: leaked_def prod_eq_iff)
  show ?thesis
    using concurrent_signal_lost [OF _ sent prod.collapse [symmetric], of "''oos_tool''" None "[]" None None 6]
      fresh_agent_facts(1) none by (simp add: k)
qed

theorem clean_run_erases_signal_witness:
  "principal_score leaked (''t'', ''agent'', ''a'') = 40
   \<and> principal_score (snd (record_principal_clean [''agent''] (Overtaken leaked) fresh_agent
        (''t'', ''agent'', ''a'') None 6)) (''t'', ''agent'', ''a'') = 51"
proof -
  have k: "coerce_kind [''agent''] ''agent'' = ''agent''"
    by (simp add: coerce_kind_def is_valid_principal_kind_def)
  have sent: "record_principal_signal [''agent''] [] fresh_agent (''t'', ''agent'', ''a'')
      ''data_leak'' None [] None True None 5 = (Inr 40, leaked)"
    using fresh_agent_facts(2) by (simp add: leaked_def prod_eq_iff)
  have "principal_score leaked (''t'', ''agent'', ''a'') = 40"
    by (simp add: leaked_def fresh_agent_def coerce_kind_def is_valid_principal_kind_def principal_at_def
      record_principal_signal_def signal_loop.simps signal_pass_def signal_call_def principal_delta_def
      merged_row_def signal_delta_def SIGNAL_DELTAS_def apply_delta_def trust_consts principal_score_find)
  then show ?thesis
    using clean_run_erases_signal [OF fresh_agent_facts(1) sent prod.collapse [symmetric], of None 6]
      fresh_agent_facts(3) by (simp add: k in_range_def trust_consts)
qed

text \<open>A signal raises a principal's score in exactly one case: its kind is
\<open>clean_invocation\<close>, no override is given, and the score was below the maximum.
An explicit override, of whatever sign, never raises it.\<close>
theorem signal_raises_only_clean:
  assumes "in_range (principal_score tab (t, coerce_kind reg kind, pid))"
  shows "principal_score
           (snd (record_principal_signal reg [] tab (t, kind, pid) sk actor at occ True ovr now))
           (t, coerce_kind reg kind, pid)
         > principal_score tab (t, coerce_kind reg kind, pid)
     \<longleftrightarrow> sk = ''clean_invocation'' \<and> ovr = None
         \<and> principal_score tab (t, coerce_kind reg kind, pid) < MAX_TRUST"
proof -
  let ?k = "(t, coerce_kind reg kind, pid)"
  have new: "principal_score (snd (record_principal_signal reg [] tab (t, kind, pid) sk actor at occ True ovr now)) ?k
      = apply_delta (principal_score tab ?k) (principal_delta sk ovr)"
    by (rule uncontended_signal [OF refl, where reg = reg and kind = kind and t = t and pid = pid
        and tab = tab and sk = sk and actor = actor and at = at and occ = occ and ovr = ovr and now = now]) simp
  have raise: "s < apply_delta s d \<longleftrightarrow> 0 < d \<and> s < MAX_TRUST" if "in_range s" for s d
    using that by (auto simp: apply_delta_def in_range_def trust_consts)
  have "0 < principal_delta sk ovr \<longleftrightarrow> sk = ''clean_invocation'' \<and> ovr = None"
    by (simp add: principal_delta_def signal_delta_positive_iff split: option.split)
  then show ?thesis unfolding new raise [OF assms] by blast
qed

theorem signal_raises_only_clean_witness:
  "principal_score (snd (record_principal_signal [''agent''] [] [] (''t'', ''agent'', ''a'')
      ''clean_invocation'' None [] None True None 5)) (''t'', ''agent'', ''a'') > 50"
  using signal_raises_only_clean [where tab = "[]" and t = "''t''" and reg = "[''agent'']"
      and kind = "''agent''" and pid = "''a''" and sk = "''clean_invocation''" and actor = None
      and at = "[]" and occ = None and ovr = None and now = 5]
  by (simp add: coerce_kind_def is_valid_principal_kind_def principal_score_find trust_consts in_range_def)

text \<open>A signal about a principal of an unregistered kind is charged to the
\<open>user\<close> of the same id, while reads keep the kind they are given: the score read
under the original kind never moves, whatever the signals.\<close>
theorem unregistered_kind_misattributed:
  assumes "\<not> is_valid_principal_kind reg kind" "is_valid_principal_kind reg ''user''"
  shows "principal_score
           (snd (record_principal_signal reg [] tab (t, kind, pid) sk actor at occ True ovr now))
           (t, kind, pid) = principal_score tab (t, kind, pid)
     \<and> principal_score
           (snd (record_principal_signal reg [] tab (t, kind, pid) sk actor at occ True ovr now))
           (t, ''user'', pid) =
         apply_delta (principal_score tab (t, ''user'', pid)) (principal_delta sk ovr)"
proof -
  have k: "(t, ''user'', pid) = (t, coerce_kind reg kind, pid)" "(t, kind, pid) \<noteq> (t, ''user'', pid)"
    using assms by (auto simp: coerce_kind_def)
  show ?thesis
    by (rule uncontended_signal [OF k(1), where tab = tab and sk = sk and actor = actor and at = at
        and occ = occ and ovr = ovr and now = now]) (use k(2) in simp)
qed

theorem unregistered_kind_misattributed_witness:
  "principal_score (snd (record_principal_signal CANONICAL_PRINCIPAL_KINDS [] []
      (''t'', ''swarm'', ''a'') ''data_leak'' None [] None True None 5)) (''t'', ''swarm'', ''a'') = 50
   \<and> principal_score (snd (record_principal_signal CANONICAL_PRINCIPAL_KINDS [] []
      (''t'', ''swarm'', ''a'') ''data_leak'' None [] None True None 5)) (''t'', ''user'', ''a'') = 40"
  using unregistered_kind_misattributed [where reg = CANONICAL_PRINCIPAL_KINDS and kind = "''swarm''"
      and tab = "[]" and t = "''t''" and pid = "''a''" and sk = "''data_leak''" and actor = None
      and at = "[]" and occ = None and ovr = None and now = 5]
  by (simp add: CANONICAL_PRINCIPAL_KINDS_def is_valid_principal_kind_def principal_score_find
      principal_delta_def signal_delta_def SIGNAL_DELTAS_def apply_delta_def trust_consts)

text \<open>\<open>register_principal_kind\<close> accepts the kinds its naming rules describe and,
besides, each of them followed by one newline, because \<open>$\<close> matches before a final
newline; the environment variable's path, which strips, admits only the former.\<close>
theorem registered_kind_shape:
  "(is_ok (register_principal_kind reg k) \<longleftrightarrow>
      kind_body k \<or> (\<exists>b. k = b @ [CHR 0x0A] \<and> kind_body b))
   \<and> (\<forall>j \<in> set (initial_registered_kinds env).
        j \<in> set CANONICAL_PRINCIPAL_KINDS \<or> kind_body j)"
proof (intro conjI ballI)
  have "kind_regex k \<longleftrightarrow> kind_body k \<or> (\<exists>b. k = b @ [CHR 0x0A] \<and> kind_body b)"
    by (auto simp: kind_regex_def) (metis append_butlast_last_id)
  then show "is_ok (register_principal_kind reg k) \<longleftrightarrow>
      kind_body k \<or> (\<exists>b. k = b @ [CHR 0x0A] \<and> kind_body b)"
    by (simp add: register_principal_kind_def)
qed (rule initial_kinds_exact)

theorem registered_kind_shape_witness:
  "is_ok (register_principal_kind [] (''drone'' @ [CHR 0x0A]))"
  using registered_kind_shape [of "[]" "''drone'' @ [CHR 0x0A]" None]
  by (simp add: kind_body_def kind_tail_char_def char_class_defs)

end
