(* ===== verification/Rbac.thy ===== *)
theory Rbac
  imports Principals
begin

text \<open>
  Role grants and the action check (\<open>kya/rbac.py\<close>), with the security-event
  emitter it calls on refusals (\<open>kya/_security_events.py\<close>): the action
  vocabulary, modes, grant/revoke/list, the default-deny lookup, and
  \<open>require_action\<close> with its grant gate and its trust gate. A refusal debits the
  principal's trust before the trust gate reads it, so the check threads the
  principal table.
\<close>

section \<open>Actions and modes\<close>

definition ACTIONS :: "string list" where
  "ACTIONS =
    [''kya.budget.write'', ''kya.budget.read'', ''kya.cost.read'',
     ''kya.delegation.override.set'', ''kya.delegation.override.delete'',
     ''kya.delegation.policy.read'', ''kya.principal.bind'', ''kya.principal.trust.read'',
     ''kya.evidence.read'', ''kya.evidence.export'', ''kya.audit.signed_export'',
     ''kya.version.snapshot'', ''kya.version.rollback'', ''kya.version.read'',
     ''kya.signal.record'', ''kya.signal.read'', ''kya.*'', ''mcp.*'']"

text \<open>One segment \<open>[a-z0-9][a-z0-9_-]*\<close> of the dynamic namespace.\<close>

definition seg_first :: "char \<Rightarrow> bool" where
  "seg_first c = (is_lower c \<or> is_digit c)"

definition seg_rest :: "char \<Rightarrow> bool" where
  "seg_rest c = (is_lower c \<or> is_digit c \<or> c = CHR ''_'' \<or> c = CHR ''-'')"

definition action_segment :: "string \<Rightarrow> bool" where
  "action_segment s = (case s of [] \<Rightarrow> False | c # cs \<Rightarrow> seg_first c \<and> list_all seg_rest cs)"

text \<open>\<open>_MCP_ACTION_RE\<close>; no segment contains a dot, so the match is the split.\<close>

definition mcp_action_re :: "string \<Rightarrow> bool" where
  "mcp_action_re a =
     (case split_on CHR ''.'' a of
        [p, b, t] \<Rightarrow> p = ''mcp'' \<and> action_segment b \<and> action_segment t
      | _ \<Rightarrow> False)"

definition is_valid_action :: "string \<Rightarrow> bool" where
  "is_valid_action a =
     (if a \<in> set ACTIONS then True
      else if \<not> starts_with a ''mcp.'' then False
      else mcp_action_re a)"

definition RBAC_MODES :: "string list" where "RBAC_MODES = [''off'', ''flag'', ''block'']"
definition DEFAULT_RBAC_MODE :: string where "DEFAULT_RBAC_MODE = ''off''"

datatype rbac_error =
    InvalidActionError | InvalidRbacModeError | AccessDeniedError
  | ValueError | TypeError | RuntimeError | DatabaseError

text \<open>\<open>configure_rbac\<close> returns the mode that it also writes to the environment.\<close>

definition configure_rbac :: "string option \<Rightarrow> rbac_error + string" where
  "configure_rbac mode =
     (let normalized = strip (lower (or_else mode []))
      in if normalized \<in> set RBAC_MODES then Inr normalized else Inl InvalidRbacModeError)"

definition active_rbac_mode :: "string option \<Rightarrow> string" where
  "active_rbac_mode env =
     (let raw = lower (or_else env DEFAULT_RBAC_MODE)
      in if raw \<in> set RBAC_MODES then raw else DEFAULT_RBAC_MODE)"

section \<open>Grants\<close>

record grant_row =
  g_id :: nat
  g_tenant :: ident
  g_kind :: string
  g_pid :: ident
  g_action :: string
  g_by :: "ident option"
  g_reason :: "string option"
  g_effective :: instant
  g_expires :: "instant option"

type_synonym scope = "ident \<times> string \<times> ident \<times> string"

definition scope_of :: "grant_row \<Rightarrow> scope" where
  "scope_of g = (g_tenant g, g_kind g, g_pid g, g_action g)"

text \<open>What the insert meets: success, a rival's committed row of the same key, or an error.\<close>

datatype insert_outcome = Inserted nat | RaceLost grant_row | InsertError

definition grant_lookup :: "grant_row list \<Rightarrow> scope \<Rightarrow> grant_row option" where
  "grant_lookup db s = List.find (\<lambda>g. scope_of g = s) db"

definition grant_action ::
    "insert_outcome \<Rightarrow> grant_row list \<Rightarrow> ident \<Rightarrow> string \<Rightarrow> ident \<Rightarrow> string \<Rightarrow> ident option \<Rightarrow>
     string option \<Rightarrow> instant option \<Rightarrow> instant \<Rightarrow> (rbac_error + nat) \<times> grant_row list" where
  "grant_action out db t kind pid act granted_by reason expires now =
     (if t = [] then (Inl ValueError, db)
      else if pid = [] then (Inl ValueError, db)
      else if \<not> is_valid_action act then (Inl InvalidActionError, db)
      else
        (case grant_lookup db (t, kind, pid, act) of
           Some g \<Rightarrow> (Inr (g_id g), db)
         | None \<Rightarrow>
             (case out of
                Inserted i \<Rightarrow>
                  (Inr i, db @ [\<lparr> g_id = i, g_tenant = t, g_kind = kind, g_pid = pid,
                     g_action = act, g_by = granted_by, g_reason = reason,
                     g_effective = now, g_expires = expires \<rparr>])
              | RaceLost rival \<Rightarrow>
                  (case grant_lookup (db @ [rival]) (t, kind, pid, act) of
                     Some g \<Rightarrow> (Inr (g_id g), db @ [rival])
                   | None \<Rightarrow> (Inl RuntimeError, db @ [rival]))
              | InsertError \<Rightarrow> (Inl DatabaseError, db))))"

definition revoke_action ::
    "bool \<Rightarrow> grant_row list \<Rightarrow> ident \<Rightarrow> string \<Rightarrow> ident \<Rightarrow> string \<Rightarrow>
     (rbac_error + bool) \<times> grant_row list" where
  "revoke_action db_ok db t kind pid act =
     (if t = [] \<or> pid = [] \<or> act = [] then (Inl ValueError, db)
      else if \<not> db_ok then (Inr False, db)
      else
        (case grant_lookup db (t, kind, pid, act) of
           None \<Rightarrow> (Inr False, db)
         | Some g \<Rightarrow> (Inr True, filter (\<lambda>x. g_id x \<noteq> g_id g) db)))"

definition grant_active :: "instant \<Rightarrow> grant_row \<Rightarrow> bool" where
  "grant_active now g =
     (g_effective g \<le> now \<and> (case g_expires g of None \<Rightarrow> True | Some e \<Rightarrow> now < e))"

definition list_grants ::
    "bool \<Rightarrow> grant_row list \<Rightarrow> ident \<Rightarrow> string option \<Rightarrow> ident option \<Rightarrow> bool \<Rightarrow> instant \<Rightarrow>
     rbac_error + grant_row list" where
  "list_grants db_ok db t kind pid include_expired now =
     (if t = [] then Inl ValueError
      else if \<not> db_ok then Inr []
      else Inr (sort_key g_id (filter (\<lambda>g. g_tenant g = t
              \<and> (include_expired \<or> grant_active now g)
              \<and> (case kind of None \<Rightarrow> True | Some k \<Rightarrow> g_kind g = k)
              \<and> (case pid of None \<Rightarrow> True | Some p \<Rightarrow> g_pid g = p)) db)))"

definition namespace_wild :: "string \<Rightarrow> string" where
  "namespace_wild act = (if starts_with act ''mcp.'' then ''mcp.*'' else ''kya.*'')"

definition has_action ::
    "bool \<Rightarrow> grant_row list \<Rightarrow> instant \<Rightarrow> ident \<Rightarrow> string \<Rightarrow> ident \<Rightarrow> string \<Rightarrow> bool" where
  "has_action db_ok db now t kind pid act =
     (if t = [] \<or> pid = [] \<or> act = [] then False
      else if \<not> is_valid_action act then False
      else db_ok \<and>
        list_ex (\<lambda>g. g_tenant g = t \<and> g_kind g = kind \<and> g_pid g = pid
           \<and> (g_action g = act \<or> g_action g = namespace_wild act) \<and> grant_active now g) db)"

section \<open>Security events\<close>

definition HARDENING_EVENT_KINDS :: "string list" where
  "HARDENING_EVENT_KINDS =
    [''rate_limit_exceeded'', ''payload_too_large'', ''replay_detected'', ''rbac_refusal'',
     ''revocation_blocked'', ''dpop_replay'', ''dpop_forge_attempt'', ''dpop_expired'',
     ''issuer_rotation_pending'', ''vc_approval_denied'']"

text \<open>
  The durable effect of an event: a signal on the principal's row. Errors are
  swallowed; \<open>detail\<close> is the JSON text stored under \<open>hardening\<close>.
\<close>

definition emit_security_event ::
    "string list \<Rightarrow> commit list \<Rightarrow> principal_table \<Rightarrow> string \<Rightarrow> ident \<Rightarrow> string option \<Rightarrow>
     ident option \<Rightarrow> string \<Rightarrow> bool \<Rightarrow> instant \<Rightarrow> principal_table" where
  "emit_security_event reg cs tab event t kind pid detail has_db now =
     (if event \<notin> set HARDENING_EVENT_KINDS then tab
      else if t = [] then tab
      else if \<not> has_db \<or> \<not> truthy kind \<or> \<not> truthy pid then tab
      else snd (record_principal_signal reg cs tab (t, the kind, the pid) event None
                  [(''hardening'', detail)] None True None now))"

section \<open>The check\<close>

datatype min_trust = NoGate | Gate int | NotAnInt

text \<open>
  The databases a check reads and writes: the grants, the principal table, the
  kinds registered in the process, whether each query succeeds, and what each
  commit of an event meets.
\<close>

record rbac_env =
  re_grants :: "grant_row list"
  re_kinds :: "string list"
  re_db_ok :: bool
  re_trust_ok :: bool
  re_commits :: "commit list"
  re_mode :: "string option"
  re_now :: instant

definition grant_gate ::
    "rbac_env \<Rightarrow> principal_table \<Rightarrow> ident \<Rightarrow> string \<Rightarrow> ident \<Rightarrow> string \<Rightarrow> string \<Rightarrow>
     rbac_error option \<times> principal_table" where
  "grant_gate e tab t kind pid act mode =
     (if mode = ''off'' then (None, tab)
      else if mode \<notin> set RBAC_MODES then (Some InvalidRbacModeError, tab)
      else if has_action (re_db_ok e) (re_grants e) (re_now e) t kind pid act then (None, tab)
      else
        (let tab' = emit_security_event (re_kinds e) (re_commits e) tab ''rbac_refusal'' t
                      (Some kind) (Some pid) ''no_grant'' True (re_now e)
         in if mode = ''flag'' then (None, tab') else (Some AccessDeniedError, tab')))"

definition trust_gate ::
    "rbac_env \<Rightarrow> principal_table \<Rightarrow> ident \<Rightarrow> string \<Rightarrow> ident \<Rightarrow> min_trust \<Rightarrow>
     rbac_error option \<times> principal_table" where
  "trust_gate e tab t kind pid mt =
     (case mt of
        Gate m \<Rightarrow>
          (let score = (if re_trust_ok e then Some (pt_score (get_principal_trust tab (t, kind, pid)))
                        else None)
           in (case score of
                 None \<Rightarrow>
                   (Some AccessDeniedError,
                    emit_security_event (re_kinds e) (re_commits e) tab ''rbac_refusal'' t
                      (Some kind) (Some pid) ''no_trust_record'' True (re_now e))
               | Some s \<Rightarrow>
                   if s < m then
                     (Some AccessDeniedError,
                      emit_security_event (re_kinds e) (re_commits e) tab ''rbac_refusal'' t
                        (Some kind) (Some pid) ''trust_below_threshold'' True (re_now e))
                   else (None, tab)))
      | _ \<Rightarrow> (None, tab))"

definition require_action ::
    "rbac_env \<Rightarrow> principal_table \<Rightarrow> ident \<Rightarrow> string \<Rightarrow> ident \<Rightarrow> string \<Rightarrow> string option \<Rightarrow>
     min_trust \<Rightarrow> (rbac_error + bool) \<times> principal_table" where
  "require_action e tab t kind pid act mode mt =
     (if \<not> is_valid_action act then (Inl InvalidActionError, tab)
      else if mt = NotAnInt then (Inl TypeError, tab)
      else
        (let effective = (case mode of Some m \<Rightarrow> m | None \<Rightarrow> active_rbac_mode (re_mode e))
         in (case grant_gate e tab t kind pid act effective of
               (Some err, tab') \<Rightarrow> (Inl err, tab')
             | (None, tab') \<Rightarrow>
                 (case trust_gate e tab' t kind pid mt of
                    (Some err, tab'') \<Rightarrow> (Inl err, tab'')
                  | (None, tab'') \<Rightarrow> (Inr True, tab'')))))"

section \<open>Facts about actions\<close>

lemma action_segment_no_dot: "action_segment s \<Longrightarrow> CHR ''.'' \<notin> set s"
  by (auto simp: action_segment_def seg_first_def seg_rest_def list_all_iff char_class_defs
      split: list.splits)

lemma mcp_action_re_iff:
  "mcp_action_re a \<longleftrightarrow>
     (\<exists>b t. a = ''mcp.'' @ b @ ''.'' @ t \<and> action_segment b \<and> action_segment t)"
proof
  assume m: "mcp_action_re a"
  then obtain b t where sp: "split_on CHR ''.'' a = [''mcp'', b, t]"
    and seg: "action_segment b" "action_segment t"
    by (auto simp: mcp_action_re_def split: list.splits)
  have "a = join_with CHR ''.'' [''mcp'', b, t]" by (metis sp join_split)
  then show "\<exists>b t. a = ''mcp.'' @ b @ ''.'' @ t \<and> action_segment b \<and> action_segment t"
    using seg by auto
next
  assume "\<exists>b t. a = ''mcp.'' @ b @ ''.'' @ t \<and> action_segment b \<and> action_segment t"
  then obtain b t where a: "a = ''mcp'' @ CHR ''.'' # b @ CHR ''.'' # t"
    and seg: "action_segment b" "action_segment t" by auto
  have "split_on CHR ''.'' a = [''mcp'', b, t]"
    using seg by (simp only: a split_on_append_sep)
      (simp add: split_on_no_sep action_segment_no_dot)
  then show "mcp_action_re a" using seg by (simp add: mcp_action_re_def)
qed

lemma starts_with_append [simp]: "starts_with (p @ s) p"
  by (simp add: starts_with_def)

lemma is_valid_action_iff:
  "is_valid_action a \<longleftrightarrow> a \<in> set ACTIONS \<or> mcp_action_re a"
proof -
  have "mcp_action_re a \<Longrightarrow> starts_with a ''mcp.''"
    unfolding mcp_action_re_iff starts_with_def by auto
  then show ?thesis by (auto simp: is_valid_action_def)
qed

lemma active_mode_known: "active_rbac_mode env \<in> set RBAC_MODES"
  by (simp add: active_rbac_mode_def RBAC_MODES_def DEFAULT_RBAC_MODE_def Let_def)

section \<open>Facts about grants\<close>

definition grants_wf :: "grant_row list \<Rightarrow> bool" where
  "grants_wf db = (distinct (map g_id db) \<and> distinct (map scope_of db)
     \<and> list_all (\<lambda>g. g_tenant g \<noteq> [] \<and> g_pid g \<noteq> [] \<and> is_valid_action (g_action g)) db)"

lemma grant_lookup_None: "grant_lookup db s = None \<longleftrightarrow> s \<notin> scope_of ` set db"
  by (auto simp: grant_lookup_def find_None_ball)

lemma grant_lookup_Some: "grant_lookup db s = Some g \<Longrightarrow> g \<in> set db \<and> scope_of g = s"
  by (auto simp: grant_lookup_def dest: find_Some_iff_first)

lemma has_action_iff:
  "has_action ok db now t kind pid act \<longleftrightarrow>
     ok \<and> t \<noteq> [] \<and> pid \<noteq> [] \<and> act \<noteq> [] \<and> is_valid_action act \<and>
     (\<exists>g\<in>set db. (scope_of g = (t, kind, pid, act) \<or> scope_of g = (t, kind, pid, namespace_wild act))
        \<and> grant_active now g)"
  by (auto simp: has_action_def list_ex_iff scope_of_def)

lemma wild_valid: "is_valid_action (namespace_wild act)"
  by (simp add: is_valid_action_def namespace_wild_def ACTIONS_def)

lemma grant_action_wf:
  assumes "grants_wf db" "grant_action out db t kind pid act b r ex now = (res, db')"
    and "\<And>i. out = Inserted i \<Longrightarrow> i \<notin> g_id ` set db"
    and "\<And>g. out = RaceLost g \<Longrightarrow> grants_wf (db @ [g])"
  shows "grants_wf db'"
  using assms
  by (auto simp: grant_action_def grants_wf_def grant_lookup_None scope_of_def
      split: if_splits option.splits insert_outcome.splits)

lemma revoke_filter_lookup:
  assumes "distinct (map g_id db)" "distinct (map scope_of db)" "grant_lookup db s = Some g"
  shows "filter (\<lambda>x. g_id x \<noteq> g_id g) db = filter (\<lambda>x. scope_of x \<noteq> s) db"
proof (rule filter_cong [OF refl])
  fix x assume x: "x \<in> set db"
  have g: "g \<in> set db" "scope_of g = s" using grant_lookup_Some [OF assms(3)] by auto
  show "(g_id x \<noteq> g_id g) = (scope_of x \<noteq> s)"
    using assms(1,2) x g by (auto simp: distinct_map dest: inj_onD)
qed

lemma revoke_action_wf:
  "grants_wf db \<Longrightarrow> grants_wf (snd (revoke_action ok db t kind pid act))"
  by (auto simp: revoke_action_def grants_wf_def list_all_iff distinct_map
      intro: inj_on_subset split: option.splits)

section \<open>Facts about events and the gates\<close>

text \<open>A refusal whose commit succeeds costs the principal two points and touches no other row.\<close>

lemma refusal_event:
  assumes "t \<noteq> []" "kind \<noteq> []" "pid \<noteq> []" "is_valid_principal_kind reg kind"
  shows "emit_security_event reg [] tab ''rbac_refusal'' t (Some kind) (Some pid) d True now =
    bump_principal tab (t, kind, pid)
      (\<lparr> sa_kind = ''rbac_refusal'', sa_actor = None, sa_attrs = [(''hardening'', d)],
         sa_at = now, sa_allow_create = True, sa_delta = -2 \<rparr>, now)"
proof -
  have "signal_delta ''rbac_refusal'' = -2" by (simp add: signal_delta_def SIGNAL_DELTAS_def)
  then show ?thesis using assms
    by (simp add: emit_security_event_def HARDENING_EVENT_KINDS_def record_principal_signal_def
        coerce_kind_def signal_call_def principal_delta_def signal_loop.simps bump_principal_def signal_pass_None
        split: option.split prod.split)
qed

lemma refusal_score:
  assumes "t \<noteq> []" "kind \<noteq> []" "pid \<noteq> []" "is_valid_principal_kind reg kind"
  shows "principal_score
      (emit_security_event reg [] tab ''rbac_refusal'' t (Some kind) (Some pid) d True now) k =
    (if k = (t, kind, pid) then apply_delta (principal_score tab k) (-2) else principal_score tab k)"
  using assms by (simp add: refusal_event pl.score_bump pl.score_other)

lemma grant_gate_cases:
  "fst (grant_gate e tab t kind pid act mode) =
     (if mode = ''off'' then None
      else if mode \<notin> set RBAC_MODES then Some InvalidRbacModeError
      else if has_action (re_db_ok e) (re_grants e) (re_now e) t kind pid act then None
      else if mode = ''flag'' then None else Some AccessDeniedError)"
  by (simp add: grant_gate_def Let_def)

lemma trust_gate_cases:
  "fst (trust_gate e tab t kind pid mt) =
     (case mt of Gate m \<Rightarrow>
        if re_trust_ok e \<and> m \<le> principal_score tab (t, kind, pid) then None
        else Some AccessDeniedError
      | _ \<Rightarrow> None)"
  by (simp add: trust_gate_def principal_score_def Let_def not_less split: min_trust.split)

lemma require_action_result:
  "fst (require_action e tab t kind pid act mode mt) =
     (if \<not> is_valid_action act then Inl InvalidActionError
      else if mt = NotAnInt then Inl TypeError
      else (case grant_gate e tab t kind pid act
                   (case mode of Some m \<Rightarrow> m | None \<Rightarrow> active_rbac_mode (re_mode e)) of
              (Some err, _) \<Rightarrow> Inl err
            | (None, tab') \<Rightarrow>
                (case fst (trust_gate e tab' t kind pid mt) of Some err \<Rightarrow> Inl err | None \<Rightarrow> Inr True)))"
  by (auto simp: require_action_def Let_def split: option.split prod.split)

lemma require_action_ok_iff:
  "is_ok (fst (require_action e tab t kind pid act (Some mode) mt)) \<longleftrightarrow>
     is_valid_action act \<and> mt \<noteq> NotAnInt \<and>
     fst (grant_gate e tab t kind pid act mode) = None \<and>
     fst (trust_gate e (snd (grant_gate e tab t kind pid act mode)) t kind pid mt) = None"
  by (auto simp: require_action_result split: option.split prod.split)

section \<open>Properties\<close>

text \<open>Outside the closed set, an action is accepted exactly when it reads
\<open>mcp.<backend>.<tool>\<close> with two non-empty lower-case segments; in particular no
accepted action contains an upper-case letter or a newline.\<close>
theorem valid_action_shape:
  "is_valid_action a \<longleftrightarrow> a \<in> set ACTIONS \<or>
     (\<exists>b t. a = ''mcp.'' @ b @ ''.'' @ t \<and> action_segment b \<and> action_segment t)"
  by (simp add: is_valid_action_iff mcp_action_re_iff)

text \<open>Which actions a stored grant covers: its own, and for the two wildcards the tool calls
and the fixed \<open>kya.\<close> actions.\<close>

definition grant_covers :: "string \<Rightarrow> string \<Rightarrow> bool" where
  "grant_covers a act =
     (a = act \<and> is_valid_action act
      \<or> a = ''mcp.*'' \<and> (\<exists>b t. act = ''mcp.'' @ b @ ''.'' @ t \<and> action_segment b \<and> action_segment t)
      \<or> a = ''kya.*'' \<and> act \<in> set ACTIONS \<and> take 4 act = ''kya.'')"

lemma ACTIONS_prefixes: "act \<in> set ACTIONS \<Longrightarrow>
    take 4 act = ''kya.'' \<and> \<not> starts_with act ''mcp.'' \<or> act = ''mcp.*''"
  by (auto simp: ACTIONS_def starts_with_def)

lemma mcp_starts:
  assumes "mcp_action_re act"
  shows "starts_with act ''mcp.'' \<and> act \<noteq> ''mcp.*'' \<and> act \<notin> set ACTIONS"
proof -
  obtain b t where act: "act = ''mcp.'' @ b @ ''.'' @ t" and b: "action_segment b"
    using assms unfolding mcp_action_re_iff by blast
  from b obtain c cs where "b = c # cs" "seg_first c" by (auto simp: action_segment_def split: list.splits)
  then have "act \<noteq> ''mcp.*''" by (auto simp: act seg_first_def char_class_defs)
  moreover have start: "starts_with act ''mcp.''" by (simp add: act starts_with_def)
  ultimately show ?thesis using ACTIONS_prefixes [of act] by blast
qed

lemma grant_covers_iff: "is_valid_action act \<and> a \<in> {act, namespace_wild act} \<longleftrightarrow> grant_covers a act"
proof (cases "act \<in> set ACTIONS")
  case True
  then have "\<not> mcp_action_re act" "namespace_wild act = (if act = ''mcp.*'' then ''mcp.*'' else ''kya.*'')"
    using mcp_starts [of act] ACTIONS_prefixes [OF True] by (auto simp: namespace_wild_def starts_with_def)
  with True ACTIONS_prefixes [OF True] show ?thesis
    unfolding grant_covers_def is_valid_action_iff mcp_action_re_iff [symmetric] by (cases "act = ''mcp.*''") auto
next
  case False
  then have "mcp_action_re act \<Longrightarrow> namespace_wild act = ''mcp.*''"
    using mcp_starts [of act] by (simp add: namespace_wild_def)
  with False show ?thesis
    unfolding grant_covers_def is_valid_action_iff mcp_action_re_iff [symmetric] by auto
qed

text \<open>A history of grants and revocations, each grant with what its insert met.\<close>

datatype grant_op =
    Grant insert_outcome ident string ident string "ident option" "string option" "instant option" instant
  | Revoke bool ident string ident string

fun grant_step :: "grant_op \<Rightarrow> grant_row list \<Rightarrow> grant_row list" where
  "grant_step (Grant out t kind pid act b r ex now) db = snd (grant_action out db t kind pid act b r ex now)"
| "grant_step (Revoke ok t kind pid act) db = snd (revoke_action ok db t kind pid act)"

text \<open>The row ids the database hands out, and that a lost race was lost to a row of the same scope.\<close>

fun new_ids :: "grant_op \<Rightarrow> nat list" where
  "new_ids (Grant (Inserted i) t kind pid act b r ex now) = [i]"
| "new_ids (Grant (RaceLost g) t kind pid act b r ex now) = [g_id g]"
| "new_ids op = []"

fun same_scope_race :: "grant_op \<Rightarrow> bool" where
  "same_scope_race (Grant (RaceLost g) t kind pid act b r ex now) = (scope_of g = (t, kind, pid, act))"
| "same_scope_race op = True"

text \<open>The specification, for one scope: the first grant since the last revocation stands, with
its start and end; later grants change nothing.\<close>

fun standing_step :: "scope \<Rightarrow> grant_op \<Rightarrow> (instant \<times> instant option) option \<Rightarrow> (instant \<times> instant option) option" where
  "standing_step s (Grant out t kind pid act b r ex now) x =
     (if x \<noteq> None \<or> s \<noteq> (t, kind, pid, act) \<or> t = [] \<or> pid = [] \<or> \<not> is_valid_action act then x
      else (case out of
              Inserted i \<Rightarrow> Some (now, ex)
            | RaceLost g \<Rightarrow> Some (g_effective g, g_expires g)
            | InsertError \<Rightarrow> None))"
| "standing_step s (Revoke ok t kind pid act) x =
     (if ok \<and> s = (t, kind, pid, act) \<and> t \<noteq> [] \<and> pid \<noteq> [] \<and> act \<noteq> [] then None else x)"

definition standing :: "scope \<Rightarrow> grant_op list \<Rightarrow> (instant \<times> instant option) option" where
  "standing s ops = fold (standing_step s) ops None"

definition grant_view :: "grant_row list \<Rightarrow> scope \<Rightarrow> (instant \<times> instant option) option" where
  "grant_view db s = map_option (\<lambda>g. (g_effective g, g_expires g)) (grant_lookup db s)"

lemma revoke_lookup:
  assumes "grants_wf db"
  shows "grant_lookup (snd (revoke_action ok db t kind pid act)) s =
    (if ok \<and> s = (t, kind, pid, act) \<and> t \<noteq> [] \<and> pid \<noteq> [] \<and> act \<noteq> [] then None else grant_lookup db s)"
proof (cases "ok \<and> t \<noteq> [] \<and> pid \<noteq> [] \<and> act \<noteq> []")
  case True
  have wf: "distinct (map g_id db)" "distinct (map scope_of db)" using assms by (auto simp: grants_wf_def)
  have drop: "grant_lookup (filter (\<lambda>x. scope_of x \<noteq> u) db) s = (if s = u then None else grant_lookup db s)" for u
    by (induction db) (auto simp: grant_lookup_def)
  show ?thesis
    using True drop revoke_filter_lookup [OF wf]
    by (auto simp: revoke_action_def split: option.split)
qed (auto simp: revoke_action_def)

lemma grant_step_view:
  assumes "grants_wf db" "same_scope_race op"
  shows "grant_view (grant_step op db) s = standing_step s op (grant_view db s)"
proof (cases op)
  case (Grant out t kind pid act b r ex now)
  show ?thesis
  proof (cases "grant_lookup db (t, kind, pid, act)")
    case None
    show ?thesis
    proof (cases "s = (t, kind, pid, act) \<and> t \<noteq> [] \<and> pid \<noteq> [] \<and> is_valid_action act")
      case True
      have add: "scope_of g = (t, kind, pid, act) \<Longrightarrow> grant_lookup (db @ [g]) (t, kind, pid, act) = Some g" for g
        using None by (simp add: grant_lookup_def find_append)
      have s: "s = (t, kind, pid, act)" using True by blast
      show ?thesis
        unfolding s using True None assms(2) Grant
        by (cases out) (simp_all add: grant_view_def grant_action_def add scope_of_def)
    next
      case False
      have other: "grant_lookup (db @ [g]) s = grant_lookup db s" if "scope_of g \<noteq> s" for g
        using that by (simp add: grant_lookup_def find_append split: option.split)
      show ?thesis
        using False None assms(2) Grant
        by (cases out) (auto simp: grant_view_def grant_action_def scope_of_def other split: option.split)
    qed
  next
    case (Some g)
    then show ?thesis by (auto simp: Grant grant_view_def grant_action_def)
  qed
next
  case (Revoke ok t kind pid act)
  then show ?thesis using revoke_lookup [OF assms(1)] by (auto simp: grant_view_def)
qed

lemma grant_step_wf:
  assumes "grants_wf db" "same_scope_race op" "set (new_ids op) \<inter> g_id ` set db = {}"
  shows "grants_wf (grant_step op db) \<and> g_id ` set (grant_step op db) \<subseteq> g_id ` set db \<union> set (new_ids op)"
proof (cases op)
  case (Grant out t kind pid act b r ex now)
  let ?ok = "t \<noteq> [] \<and> pid \<noteq> [] \<and> is_valid_action act \<and> grant_lookup db (t, kind, pid, act) = None"
  have ids: "g_id ` set (grant_step op db) \<subseteq> g_id ` set db \<union> set (new_ids op)"
    unfolding Grant
    by (cases out) (auto simp: grant_action_def split: option.split)
  have add: "grants_wf (db @ [g])" if "?ok" "scope_of g = (t, kind, pid, act)" "g_id g \<notin> g_id ` set db" for g
    using assms(1) that by (auto simp: grants_wf_def grant_lookup_None scope_of_def)
  have "grants_wf (grant_step op db)"
  proof (cases ?ok)
    case True
    show ?thesis
    proof (cases out)
      case (Inserted i)
      with True Grant assms(3) show ?thesis by (simp add: grant_action_def) (rule add [OF True], simp_all add: scope_of_def)
    next
      case (RaceLost g)
      with True Grant assms(2,3) add [of g] show ?thesis by (auto simp: grant_action_def split: option.split)
    next
      case InsertError
      with Grant assms(1) show ?thesis by (simp add: grant_action_def split: option.split)
    qed
  next
    case False
    with Grant assms(1) show ?thesis by (auto simp: grant_action_def split: option.split)
  qed
  with ids show ?thesis by blast
next
  case (Revoke ok t kind pid act)
  then show ?thesis
    using revoke_action_wf [OF assms(1)] by (auto simp: revoke_action_def split: option.split)
qed

lemma run_grants_view:
  assumes "grants_wf db" "list_all same_scope_race ops" "distinct (concat (map new_ids ops))"
    and "set (concat (map new_ids ops)) \<inter> g_id ` set db = {}"
  shows "grants_wf (fold grant_step ops db)
    \<and> grant_view (fold grant_step ops db) s = fold (standing_step s) ops (grant_view db s)"
  using assms
proof (induction ops arbitrary: db)
  case (Cons op ops)
  have op: "same_scope_race op" "set (new_ids op) \<inter> g_id ` set db = {}" using Cons.prems(2,4) by auto
  note wf = grant_step_wf [OF Cons.prems(1) op]
  have "set (new_ids op) \<inter> set (concat (map new_ids ops)) = {}" using Cons.prems(3) by simp
  with wf Cons.prems(4) have "set (concat (map new_ids ops)) \<inter> g_id ` set (grant_step op db) = {}"
    unfolding list.map concat.simps set_append by blast
  with Cons.IH [of "grant_step op db"] wf Cons.prems(2,3) grant_step_view [OF Cons.prems(1) op(1)]
  show ?case by simp
qed simp

lemma active_view:
  assumes "distinct (map scope_of db)"
  shows "(\<exists>g \<in> set db. scope_of g = s \<and> grant_active now g) \<longleftrightarrow>
    (\<exists>eff ex. grant_view db s = Some (eff, ex) \<and> eff \<le> now \<and> (\<forall>e. ex = Some e \<longrightarrow> now < e))"
proof -
  have "g \<in> set db \<and> scope_of g = s \<longleftrightarrow> grant_lookup db s = Some g" for g
  proof
    assume g: "g \<in> set db \<and> scope_of g = s"
    then obtain h where h: "grant_lookup db s = Some h" by (metis grant_lookup_None imageI not_None_eq)
    with grant_lookup_Some [OF h] g assms have "h = g" by (metis distinct_map inj_onD)
    with h show "grant_lookup db s = Some g" by simp
  qed (rule grant_lookup_Some)
  then have "(\<exists>g \<in> set db. scope_of g = s \<and> grant_active now g) \<longleftrightarrow>
      (\<exists>g. grant_lookup db s = Some g \<and> grant_active now g)" by blast
  then show ?thesis by (auto simp: grant_view_def grant_active_def split: option.splits)
qed

text \<open>C18. Who may do what after any history of grants and revocations from an empty table
(the database hands out fresh row ids, and a lost insert race was lost to a row of the same
tenant, principal and action): the lookup answers yes exactly when the query succeeds and, for
this tenant and principal, some grant stands in the history, started and not ended, that covers
the action. The grant standing for a scope is the first since its last successful revocation, with its
own start and end. It covers its own action; \<open>mcp.*\<close> also covers exactly the tool calls
\<open>mcp.<backend>.<tool>\<close> with two lower-case segments, and \<open>kya.*\<close> exactly the fixed \<open>kya.\<close> actions.\<close>
theorem permission_follows_history:
  assumes "list_all same_scope_race ops" "distinct (concat (map new_ids ops))"
  shows "has_action ok (fold grant_step ops []) now t kind pid act \<longleftrightarrow>
    ok \<and> t \<noteq> [] \<and> pid \<noteq> [] \<and>
    (\<exists>a eff ex. grant_covers a act \<and> standing (t, kind, pid, a) ops = Some (eff, ex)
        \<and> eff \<le> now \<and> (\<forall>e. ex = Some e \<longrightarrow> now < e))"
proof -
  let ?db = "fold grant_step ops []"
  have run: "grants_wf ?db" "grant_view ?db s = standing s ops" for s
    using run_grants_view [of "[]" ops s] assms by (simp_all add: grants_wf_def grant_view_def grant_lookup_def standing_def)
  then have d: "distinct (map scope_of ?db)" by (simp add: grants_wf_def)
  have ne: "act \<noteq> []" if "is_valid_action act"
    using that by (auto simp: is_valid_action_def starts_with_def ACTIONS_def split: if_splits)
  have "has_action ok ?db now t kind pid act \<longleftrightarrow> ok \<and> t \<noteq> [] \<and> pid \<noteq> [] \<and>
      (\<exists>a. grant_covers a act \<and> (\<exists>g \<in> set ?db. scope_of g = (t, kind, pid, a) \<and> grant_active now g))"
    unfolding grant_covers_iff [symmetric] using ne by (auto simp: has_action_iff)
  then show ?thesis unfolding active_view [OF d] run(2) by blast
qed

definition sample_grants :: "grant_op list" where
  "sample_grants =
     [Grant (Inserted 1) ''t'' ''agent'' ''a'' ''mcp.*'' None None (Some 9) 0,
      Grant (Inserted 2) ''t'' ''agent'' ''a'' ''kya.*'' None None None 1,
      Revoke True ''t'' ''agent'' ''a'' ''kya.*'',
      Grant InsertError ''t'' ''agent'' ''a'' ''kya.cost.read'' None None None 2]"

lemma sample_standing: "standing (''t'', ''agent'', ''a'', a) sample_grants = (if a = ''mcp.*'' then Some (0, Some 9) else None)"
  by (simp add: standing_def sample_grants_def is_valid_action_def ACTIONS_def)

theorem permission_follows_history_witness:
  "has_action True (fold grant_step sample_grants []) 8 ''t'' ''agent'' ''a'' ''mcp.fs.read''
   \<and> \<not> has_action True (fold grant_step sample_grants []) 9 ''t'' ''agent'' ''a'' ''mcp.fs.read''
   \<and> \<not> has_action True (fold grant_step sample_grants []) 8 ''t'' ''agent'' ''a'' ''kya.cost.read''"
proof -
  have h: "list_all same_scope_race sample_grants" "distinct (concat (map new_ids sample_grants))"
    by (simp_all add: sample_grants_def)
  have c: "grant_covers ''mcp.*'' ''mcp.fs.read''" "\<not> grant_covers ''mcp.*'' ''kya.cost.read''"
    unfolding grant_covers_def mcp_action_re_iff [symmetric]
    by (simp_all add: mcp_action_re_def action_segment_def seg_first_def seg_rest_def char_class_defs)
  show ?thesis
    unfolding permission_follows_history [OF h] sample_standing using c by auto
qed

text \<open>A successful grant is found under its scope with the id returned, is the
only change to any scope, and re-granting returns that id and changes nothing,
even when the stored grant has expired.\<close>
theorem grant_action_idempotent:
  assumes "grant_action out db t kind pid act b r ex now = (Inr i, db')"
    and "\<And>rival. out = RaceLost rival \<Longrightarrow> scope_of rival = (t, kind, pid, act)"
  shows "map_option g_id (grant_lookup db' (t, kind, pid, act)) = Some i
     \<and> (\<forall>s. s \<noteq> (t, kind, pid, act) \<longrightarrow> grant_lookup db' s = grant_lookup db s)
     \<and> grant_action out' db' t kind pid act b' r' ex' now' = (Inr i, db')"
proof -
  have guards: "t \<noteq> [] \<and> pid \<noteq> [] \<and> is_valid_action act"
    using assms(1) by (auto simp: grant_action_def split: if_splits)
  have look: "map_option g_id (grant_lookup db' (t, kind, pid, act)) = Some i
     \<and> (\<forall>s. s \<noteq> (t, kind, pid, act) \<longrightarrow> grant_lookup db' s = grant_lookup db s)"
  proof (cases "grant_lookup db (t, kind, pid, act)")
    case None
    with assms guards show ?thesis
      by (cases out) (auto simp: grant_action_def grant_lookup_def find_append scope_of_def
          split: option.splits if_splits)
  next
    case (Some g)
    with assms(1) guards show ?thesis by (auto simp: grant_action_def)
  qed
  then obtain g where "grant_lookup db' (t, kind, pid, act) = Some g" "g_id g = i" by auto
  with guards look show ?thesis by (simp add: grant_action_def)
qed

theorem grant_action_idempotent_witness:
  "fst (grant_action InsertError (snd (grant_action (Inserted 4) [] ''t'' ''agent'' ''a'' ''kya.*'' None None
      None 0)) ''t'' ''agent'' ''a'' ''kya.*'' None None None 5) = Inr 4"
  using grant_action_idempotent [where out = "Inserted 4" and db = "[]" and t = "''t''"
      and kind = "''agent''" and pid = "''a''" and act = "''kya.*''" and b = None and r = None
      and ex = None and now = 0 and i = 4 and out' = InsertError and b' = None and r' = None
      and ex' = None and now' = 5]
  by (auto simp: grant_action_def is_valid_action_def ACTIONS_def grant_lookup_def)

text \<open>Revoking removes exactly the grant of that scope: afterwards the scope
has no row, every other scope is as before, and the principal keeps the action
only through an active wildcard grant.\<close>
theorem revoke_action_exact:
  assumes "grants_wf db" "t \<noteq> []" "pid \<noteq> []" "act \<noteq> []"
  shows "let (res, db') = revoke_action True db t kind pid act in
     res = Inr (grant_lookup db (t, kind, pid, act) \<noteq> None)
   \<and> grant_lookup db' (t, kind, pid, act) = None
   \<and> (\<forall>s. s \<noteq> (t, kind, pid, act) \<longrightarrow> grant_lookup db' s = grant_lookup db s)
   \<and> (has_action True db' now t kind pid act \<longrightarrow>
        (\<exists>g. grant_lookup db (t, kind, pid, namespace_wild act) = Some g \<and> grant_active now g))"
proof -
  let ?s = "(t, kind, pid, act)"
  let ?db = "filter (\<lambda>x. scope_of x \<noteq> ?s) db"
  have wf: "distinct (map g_id db)" "distinct (map scope_of db)"
    using assms(1) by (auto simp: grants_wf_def)
  have res: "revoke_action True db t kind pid act = (Inr (grant_lookup db ?s \<noteq> None), ?db)"
  proof (cases "grant_lookup db ?s")
    case None
    then have "\<forall>x\<in>set db. scope_of x \<noteq> ?s"
      by (metis grant_lookup_None image_eqI)
    with None assms(2-4) show ?thesis by (simp add: revoke_action_def)
  qed (use assms(2-4) revoke_filter_lookup [OF wf] in \<open>simp add: revoke_action_def\<close>)
  have gone: "grant_lookup ?db ?s = None" by (auto simp: grant_lookup_None)
  have other: "grant_lookup ?db s = grant_lookup db s" if "s \<noteq> ?s" for s
    using that by (induction db) (auto simp: grant_lookup_def)
  have wild: "\<exists>g. grant_lookup db (t, kind, pid, namespace_wild act) = Some g \<and> grant_active now g"
    if "has_action True ?db now t kind pid act"
  proof -
    from that obtain g where g: "g \<in> set db" "scope_of g = (t, kind, pid, namespace_wild act)" "grant_active now g"
      by (auto simp: has_action_iff)
    then obtain h where h: "grant_lookup db (t, kind, pid, namespace_wild act) = Some h"
      using grant_lookup_None by fastforce
    with grant_lookup_Some [OF h] g wf(2) have "h = g" by (metis distinct_map inj_onD)
    with h g show ?thesis by simp
  qed
  show ?thesis using gone other wild by (simp add: res)
qed

theorem revoke_action_exact_witness:
  "grant_lookup (snd (revoke_action True
     [\<lparr> g_id = 1, g_tenant = ''t'', g_kind = ''agent'', g_pid = ''a'', g_action = ''kya.cost.read'',
        g_by = None, g_reason = None, g_effective = 0, g_expires = None \<rparr>]
     ''t'' ''agent'' ''a'' ''kya.cost.read'')) (''t'', ''agent'', ''a'', ''kya.cost.read'') = None"
  using revoke_action_exact [where db = "[\<lparr> g_id = 1, g_tenant = ''t'', g_kind = ''agent'',
      g_pid = ''a'', g_action = ''kya.cost.read'', g_by = None, g_reason = None, g_effective = 0,
      g_expires = None \<rparr>]" and t = "''t''" and kind = "''agent''" and pid = "''a''"
      and act = "''kya.cost.read''" and now = 0]
  by (simp add: grants_wf_def is_valid_action_def ACTIONS_def split: prod.splits)

text \<open>C5. In block mode the check returns only for a valid action with an active
grant of this tenant, and, when a minimum trust is asked, with a trust lookup that
succeeded and a score at or above it; it never returns false.\<close>
theorem block_mode_sound:
  "fst (require_action e tab t kind pid act (Some ''block'') mt) = Inr v \<longleftrightarrow>
     v \<and> is_valid_action act \<and> mt \<noteq> NotAnInt
     \<and> has_action (re_db_ok e) (re_grants e) (re_now e) t kind pid act
     \<and> (case mt of Gate m \<Rightarrow> re_trust_ok e \<and> m \<le> principal_score tab (t, kind, pid) | _ \<Rightarrow> True)"
  by (auto simp: require_action_result grant_gate_def trust_gate_cases RBAC_MODES_def Let_def
      split: min_trust.splits)

text \<open>One flag-mode call of an ungranted principal under a trust gate.\<close>

lemma flag_call:
  fixes tab :: principal_table
  assumes "is_valid_action act" "t \<noteq> []" "kind \<noteq> []" "pid \<noteq> []"
    "is_valid_principal_kind (re_kinds e) kind" "re_commits e = []" "re_trust_ok e"
    "\<not> has_action (re_db_ok e) (re_grants e) (re_now e) t kind pid act"
  defines "k \<equiv> (t, kind, pid)" and "d \<equiv> apply_delta (principal_score tab (t, kind, pid)) (-2)"
  shows flag_result: "fst (require_action e tab t kind pid act (Some ''flag'') (Gate m)) =
      (if m \<le> d then Inr True else Inl AccessDeniedError)"
    and flag_score: "principal_score (snd (require_action e tab t kind pid act (Some ''flag'') (Gate m))) k =
      (if m \<le> d then d else apply_delta d (-2))"
proof -
  obtain tab' where g: "grant_gate e tab t kind pid act ''flag'' = (None, tab')"
    and s: "principal_score tab' k = d"
    using assms refusal_score [OF assms(2-5), of tab "''no_grant''" "re_now e" k]
    by (simp add: grant_gate_def RBAC_MODES_def Let_def k_def d_def)
  have sc: "pt_score (get_principal_trust tab' k) = d"
    using s by (simp add: principal_score_def)
  have ev: "principal_score (emit_security_event (re_kinds e) [] tab' ''rbac_refusal'' t
      (Some kind) (Some pid) x True (re_now e)) k = apply_delta d (-2)" for x
    by (simp add: refusal_score [OF assms(2-5)] s k_def s [unfolded k_def])
  show "fst (require_action e tab t kind pid act (Some ''flag'') (Gate m)) =
      (if m \<le> d then Inr True else Inl AccessDeniedError)"
    using assms(1,6,7) sc by (simp add: require_action_def g trust_gate_def Let_def k_def)
  show "principal_score (snd (require_action e tab t kind pid act (Some ''flag'') (Gate m))) k =
      (if m \<le> d then d else apply_delta d (-2))"
    using assms(1,6,7) sc s ev by (simp add: require_action_def g trust_gate_def Let_def k_def)
qed

text \<open>Flag mode does not only observe. When it also carries a trust gate, an
ungranted principal is judged on its score after the two-point refusal debit: the
call returns exactly when the debited score reaches the minimum, and the debit
stays in the table either way.\<close>
theorem flag_mode_judges_debited_score:
  assumes "is_valid_action act" "t \<noteq> []" "kind \<noteq> []" "pid \<noteq> []"
    "is_valid_principal_kind (re_kinds e) kind" "re_commits e = []" "re_trust_ok e"
    "\<not> has_action (re_db_ok e) (re_grants e) (re_now e) t kind pid act"
  shows "(fst (require_action e tab t kind pid act (Some ''flag'') (Gate m)) = Inr True \<longleftrightarrow>
            m \<le> apply_delta (principal_score tab (t, kind, pid)) (-2))
    \<and> principal_score (snd (require_action e tab t kind pid act (Some ''flag'') (Gate m))) (t, kind, pid)
        \<le> apply_delta (principal_score tab (t, kind, pid)) (-2)"
  using flag_result [OF assms, of tab m] flag_score [OF assms, of tab m]
  by (simp add: apply_delta_le)

theorem flag_mode_judges_debited_score_witness:
  "fst (require_action \<lparr> re_grants = [], re_kinds = [''agent''], re_db_ok = True, re_trust_ok = True,
      re_commits = [], re_mode = None, re_now = 1 \<rparr> [] ''t'' ''agent'' ''a'' ''kya.cost.read''
      (Some ''flag'') (Gate 50)) \<noteq> Inr True"
  by (subst flag_mode_judges_debited_score [THEN conjunct1])
    (simp_all add: is_valid_action_def ACTIONS_def is_valid_principal_kind_def has_action_def
      principal_score_find apply_delta_def trust_consts)

fun flag_calls :: "nat \<Rightarrow> rbac_env \<Rightarrow> principal_table \<Rightarrow> ident \<Rightarrow> string \<Rightarrow> ident \<Rightarrow> string \<Rightarrow> int \<Rightarrow> principal_table" where
  "flag_calls 0 e tab t kind pid act m = tab"
| "flag_calls (Suc n) e tab t kind pid act m =
     flag_calls n e (snd (require_action e tab t kind pid act (Some ''flag'') (Gate m))) t kind pid act m"

lemma flag_calls_score:
  assumes "is_valid_action act" "t \<noteq> []" "kind \<noteq> []" "pid \<noteq> []"
    "is_valid_principal_kind (re_kinds e) kind" "re_commits e = []" "re_trust_ok e"
    "\<not> has_action (re_db_ok e) (re_grants e) (re_now e) t kind pid act"
    and "in_range (principal_score tab (t, kind, pid))"
  shows "principal_score (flag_calls n e tab t kind pid act m) (t, kind, pid) \<le>
     max 0 (principal_score tab (t, kind, pid) - 2 * int n)"
  using assms(9)
proof (induction n arbitrary: tab)
  case (Suc n)
  let ?k = "(t, kind, pid)"
  let ?tab = "snd (require_action e tab t kind pid act (Some ''flag'') (Gate m))"
  have le: "principal_score ?tab ?k \<le> apply_delta (principal_score tab ?k) (-2)"
    and "in_range (principal_score ?tab ?k)"
    using flag_score [OF assms(1-8), of tab m] by (simp_all add: apply_delta_le)
  from Suc.IH [OF this(2)] le Suc.prems show ?case
    by (auto simp: apply_delta_def in_range_def trust_consts)
qed simp

text \<open>Repeated ungranted calls lock the principal out: in flag mode with a
positive minimum trust, once enough calls have been refused that the score less
two points per call is below the minimum, the next call is denied.\<close>
theorem flag_mode_lockout:
  assumes "is_valid_action act" "t \<noteq> []" "kind \<noteq> []" "pid \<noteq> []"
    "is_valid_principal_kind (re_kinds e) kind" "re_commits e = []" "re_trust_ok e"
    "\<not> has_action (re_db_ok e) (re_grants e) (re_now e) t kind pid act"
    and "in_range (principal_score tab (t, kind, pid))"
    and "0 < m" "principal_score tab (t, kind, pid) - 2 * int n - 2 < m"
  shows "fst (require_action e (flag_calls n e tab t kind pid act m) t kind pid act
            (Some ''flag'') (Gate m)) = Inl AccessDeniedError"
proof -
  let ?tab = "flag_calls n e tab t kind pid act m"
  have "apply_delta (principal_score ?tab (t, kind, pid)) (-2) < m"
    using flag_calls_score [OF assms(1-9), of n m] assms(10,11)
    by (auto simp: apply_delta_def trust_consts)
  then show ?thesis
    using flag_result [OF assms(1-8), of ?tab m] by simp
qed

theorem flag_mode_lockout_witness:
  "fst (require_action \<lparr> re_grants = [], re_kinds = [''agent''], re_db_ok = True, re_trust_ok = True,
      re_commits = [], re_mode = None, re_now = 1 \<rparr>
      (flag_calls 5 \<lparr> re_grants = [], re_kinds = [''agent''], re_db_ok = True, re_trust_ok = True,
      re_commits = [], re_mode = None, re_now = 1 \<rparr> [] ''t'' ''agent'' ''a'' ''kya.cost.read'' 40)
      ''t'' ''agent'' ''a'' ''kya.cost.read'' (Some ''flag'') (Gate 40)) = Inl AccessDeniedError"
  by (rule flag_mode_lockout)
    (simp_all add: is_valid_action_def ACTIONS_def is_valid_principal_kind_def has_action_def
      principal_score_find in_range_def trust_consts)

end
