(* ===== verification/Json.thy ===== *)
theory Json
  imports Prelude "HOL-Library.Multiset" "HOL-Library.Char_ord" "HOL-Library.List_Lexorder"
begin

text \<open>
  JSON values as the sources serialise them: \<open>json.dumps\<close> with compact separators
  and ASCII escapes, the sorted and type-marked canonical form of
  \<open>kya/evidence.py\<close>, and the size cap of \<open>kya/payload_caps.py\<close>. Numbers are
  integers. \<open>JMarked t v\<close> stands for a Python object that plain JSON cannot
  encode: its type name and the text or list that replaces it.
\<close>

section \<open>Values and their text\<close>

datatype json =
    JNull | JBool bool | JInt int | JStr string
  | JList "json list" | JObj "(string \<times> json) list"
  | JMarked string json

type_synonym jobj = "(string \<times> json) list"

definition hex_digit :: "nat \<Rightarrow> char" where
  "hex_digit n = (if n < 10 then char_of (48 + n) else char_of (87 + n))"

definition is_plain :: "char \<Rightarrow> bool" where
  "is_plain c = (32 \<le> code_of c \<and> code_of c \<le> 126 \<and> code_of c \<noteq> 34 \<and> code_of c \<noteq> 92)"

definition short_escape :: "nat \<Rightarrow> char option" where
  "short_escape n =
     (if n = 34 then Some (CHR 0x22) else if n = 92 then Some (CHR 0x5C)
      else if n = 8 then Some (CHR ''b'') else if n = 12 then Some (CHR ''f'')
      else if n = 10 then Some (CHR ''n'') else if n = 13 then Some (CHR ''r'')
      else if n = 9 then Some (CHR ''t'') else None)"

definition esc_char :: "char \<Rightarrow> string" where
  "esc_char c =
     (if is_plain c then [c]
      else (case short_escape (code_of c) of
              Some e \<Rightarrow> [CHR 0x5C, e]
            | None \<Rightarrow> [CHR 0x5C, CHR ''u'', CHR ''0'', CHR ''0'',
                        hex_digit (code_of c div 16), hex_digit (code_of c mod 16)]))"

definition str_text :: "string \<Rightarrow> string" where
  "str_text s = CHR 0x22 # concat (map esc_char s) @ [CHR 0x22]"

fun nat_text :: "nat \<Rightarrow> string" where
  "nat_text n = (if n < 10 then [char_of (48 + n)] else nat_text (n div 10) @ [char_of (48 + n mod 10)])"

declare nat_text.simps [simp del]

definition int_text :: "int \<Rightarrow> string" where
  "int_text i = (if i < 0 then CHR ''-'' # nat_text (nat (- i)) else nat_text (nat i))"

fun commas :: "string list \<Rightarrow> string" where
  "commas [] = []"
| "commas [p] = p"
| "commas (p # q # ps) = p @ CHR '','' # commas (q # ps)"

definition member_text :: "string \<times> string \<Rightarrow> string" where
  "member_text m = str_text (fst m) @ CHR '':'' # snd m"

text \<open>\<open>json.dumps(x, separators=(",", ":"))\<close>; a marked object is not serialisable
plainly, the type is told apart by \<open>serialisable\<close>.\<close>

primrec dumps :: "json \<Rightarrow> string" where
  "dumps JNull = ''null''"
| "dumps (JBool b) = (if b then ''true'' else ''false'')"
| "dumps (JInt i) = int_text i"
| "dumps (JStr s) = str_text s"
| "dumps (JList xs) = CHR ''['' # commas (map dumps xs) @ '']''"
| "dumps (JObj kvs) = CHR ''{'' # commas (map member_text (map (map_prod id dumps) kvs)) @ ''}''"
| "dumps (JMarked t v) = []"

primrec serialisable :: "json \<Rightarrow> bool" where
  "serialisable JNull = True"
| "serialisable (JBool b) = True"
| "serialisable (JInt i) = True"
| "serialisable (JStr s) = True"
| "serialisable (JList xs) = list_all id (map serialisable xs)"
| "serialisable (JObj kvs) = list_all snd (map (map_prod id serialisable) kvs)"
| "serialisable (JMarked t v) = False"

section \<open>The canonical form\<close>

text \<open>\<open>_canonical_default\<close>: the replacement of an object, applied where it occurs.\<close>

primrec canonical_default :: "json \<Rightarrow> json" where
  "canonical_default JNull = JNull"
| "canonical_default (JBool b) = JBool b"
| "canonical_default (JInt i) = JInt i"
| "canonical_default (JStr s) = JStr s"
| "canonical_default (JList xs) = JList (map canonical_default xs)"
| "canonical_default (JObj kvs) = JObj (map (map_prod id canonical_default) kvs)"
| "canonical_default (JMarked t v) = JObj [(''__t__'', JStr t), (''v'', canonical_default v)]"

primrec sort_keys :: "json \<Rightarrow> json" where
  "sort_keys JNull = JNull"
| "sort_keys (JBool b) = JBool b"
| "sort_keys (JInt i) = JInt i"
| "sort_keys (JStr s) = JStr s"
| "sort_keys (JList xs) = JList (map sort_keys xs)"
| "sort_keys (JObj kvs) = JObj (sort_key fst (map (map_prod id sort_keys) kvs))"
| "sort_keys (JMarked t v) = JMarked t (sort_keys v)"

definition canonicalize :: "json \<Rightarrow> string" where
  "canonicalize j = dumps (sort_keys (canonical_default j))"

text \<open>Sorting by distinct keys does not depend on the order of the input.\<close>

lemma sort_key_perm:
  assumes "mset xs = mset ys" "distinct (map f xs)"
  shows "sort_key f xs = sort_key f ys"
  using assms by (intro sort_key_inj_key_eq) (simp_all add: distinct_map)

section \<open>Size cap\<close>

definition DEFAULT_MAX_PAYLOAD_BYTES :: nat where
  "DEFAULT_MAX_PAYLOAD_BYTES = 1 * 1024 * 1024"

text \<open>One variable: unset, blank, or the integer it parses to, if any.\<close>

datatype env_int = Unset | Blank | NotNumeric | Numeric int

definition positive_env :: "env_int \<Rightarrow> nat option" where
  "positive_env e = (case e of Numeric v \<Rightarrow> if 0 < v then Some (nat v) else None | _ \<Rightarrow> None)"

definition resolve_max_bytes :: "env_int \<Rightarrow> env_int \<Rightarrow> nat" where
  "resolve_max_bytes specific general =
     (case positive_env specific of Some v \<Rightarrow> v
      | None \<Rightarrow> (case positive_env general of Some v \<Rightarrow> v | None \<Rightarrow> DEFAULT_MAX_PAYLOAD_BYTES))"

datatype cap_error = PayloadTooLargeError nat nat | PayloadTypeError

definition check_payload_size :: "nat \<Rightarrow> json option \<Rightarrow> cap_error + nat" where
  "check_payload_size max_bytes payload =
     (case payload of
        None \<Rightarrow> Inr 0
      | Some p \<Rightarrow>
          if \<not> serialisable p then Inl PayloadTypeError
          else (let actual = length (dumps p)
                in if max_bytes < actual then Inl (PayloadTooLargeError actual max_bytes)
                   else Inr actual))"

section \<open>Facts\<close>

lemma length_commas: "length (commas ps) = sum_list (map length ps) + (length ps - 1)"
  by (induction ps rule: commas.induct) auto

lemma length_commas_perm: "mset xs = mset ys \<Longrightarrow> length (commas xs) = length (commas ys)"
proof -
  assume m: "mset xs = mset ys"
  then have "mset (map length xs) = mset (map length ys)" by simp
  then have "sum_list (map length xs) = sum_list (map length ys)"
    by (metis sum_mset_sum_list)
  with m show ?thesis by (simp add: length_commas mset_eq_length [OF m])
qed

lemma canonical_default_serialisable: "serialisable j \<Longrightarrow> canonical_default j = j"
proof (induction j)
  case (JObj kvs)
  then have "\<forall>kv\<in>set kvs. map_prod id canonical_default kv = kv"
    by (auto simp: list_all_iff)
  then show ?case by (simp add: map_idI)
qed (auto simp: list_all_iff intro!: map_idI)

lemma length_dumps_sort_keys: "length (dumps (sort_keys j)) = length (dumps j)"
proof (induction j)
  case (JList xs)
  then have "map length (map dumps (map sort_keys xs)) = map length (map dumps xs)" by simp
  then show ?case by (simp only: sort_keys.simps dumps.simps length_commas length_Cons
        length_append length_map)
next
  case (JObj kvs)
  let ?t = "\<lambda>kvs. map member_text (map (map_prod id dumps) kvs)"
  have "map length (?t (map (map_prod id sort_keys) kvs)) = map length (?t kvs)"
    using JObj by (auto simp: member_text_def)
  then have "length (commas (?t (map (map_prod id sort_keys) kvs))) = length (commas (?t kvs))"
    by (simp only: length_commas length_map)
  moreover have "length (commas (?t (sort_key fst (map (map_prod id sort_keys) kvs)))) =
      length (commas (?t (map (map_prod id sort_keys) kvs)))"
    by (rule length_commas_perm) (simp add: image_mset.compositionality comp_assoc)
  ultimately show ?case by simp
qed simp_all

text \<open>The size that the cap accepts is the size stored with the row.\<close>

lemma accepted_size:
  "check_payload_size m (Some p) = Inr n \<Longrightarrow> n = length (canonicalize p) \<and> n \<le> m"
  by (auto simp: check_payload_size_def canonicalize_def length_dumps_sort_keys
      canonical_default_serialisable Let_def split: if_splits)

section \<open>The text determines the value\<close>

lemma code_of_inject [simp]: "code_of c = code_of d \<longleftrightarrow> c = d"
  by (simp add: code_of_def)

lemma code_of_less [simp]: "code_of c < 256"
  by (simp add: code_of_def)

lemma code_of_char_of [simp]: "code_of (char_of n) = n mod 256"
  by (simp add: code_of_def)

lemma hex_digit_inject: "n < 16 \<Longrightarrow> m < 16 \<Longrightarrow> hex_digit n = hex_digit m \<Longrightarrow> n = m"
  by (drule arg_cong [of _ _ code_of]) (auto simp: hex_digit_def split: if_splits)

lemma short_escape_inject: "short_escape n = Some e \<Longrightarrow> short_escape m = Some e \<Longrightarrow> n = m"
  by (auto simp: short_escape_def split: if_splits)

lemma short_escape_char:
  "short_escape (code_of c) = Some e \<Longrightarrow> short_escape (code_of d) = Some e \<Longrightarrow> c = d"
  by (metis short_escape_inject code_of_inject)

lemma short_escape_not_u: "short_escape n \<noteq> Some (CHR ''u'')"
  by (simp add: short_escape_def)

lemma plain_not_backslash: "is_plain c \<Longrightarrow> c \<noteq> CHR 0x5C"
  by (auto simp: is_plain_def code_of_def)

lemma esc_char_inject: "esc_char c @ r = esc_char d @ r' \<Longrightarrow> c = d \<and> r = r'"
proof -
  assume eq: "esc_char c @ r = esc_char d @ r'"
  show ?thesis
  proof (cases "is_plain c \<or> is_plain d")
    case True
    with eq plain_not_backslash [of c] plain_not_backslash [of d] show ?thesis
      by (auto simp: esc_char_def split: if_splits option.splits)
  next
    case False
    have "code_of c = code_of d \<and> r = r'"
    proof (cases "short_escape (code_of c)"; cases "short_escape (code_of d)")
      assume n: "short_escape (code_of c) = None" "short_escape (code_of d) = None"
      have dv: "code_of c div 16 < 16" "code_of d div 16 < 16"
        by (simp_all add: less_mult_imp_div_less)
      have "hex_digit (code_of c div 16) = hex_digit (code_of d div 16)"
        and "hex_digit (code_of c mod 16) = hex_digit (code_of d mod 16)" and rr: "r = r'"
        using eq n False by (simp_all add: esc_char_def)
      with dv have "code_of c div 16 = code_of d div 16" "code_of c mod 16 = code_of d mod 16"
        by (auto intro: hex_digit_inject)
      then have "code_of c = code_of d" by (metis div_mult_mod_eq)
      with rr show ?thesis by simp
    qed (use eq False short_escape_not_u in \<open>auto simp: esc_char_def intro: short_escape_char\<close>)
    then show ?thesis by simp
  qed
qed

lemma esc_char_not_quote: "esc_char c \<noteq> [] \<and> hd (esc_char c) \<noteq> CHR 0x22"
  by (auto simp: esc_char_def is_plain_def code_of_def split: option.split)

lemma quote_not_esc: "CHR 0x22 # r \<noteq> esc_char c @ r'"
  using esc_char_not_quote [of c] by (cases "esc_char c") auto

lemma str_text_inject: "str_text s @ r = str_text s' @ r' \<Longrightarrow> s = s' \<and> r = r'"
proof -
  have "concat (map esc_char s) @ CHR 0x22 # r = concat (map esc_char s') @ CHR 0x22 # r' \<Longrightarrow>
     s = s' \<and> r = r'"
  proof (induction s arbitrary: s')
    case Nil
    then show ?case by (cases s') (simp_all add: quote_not_esc)
  next
    case (Cons c s)
    have "s' \<noteq> []"
      using Cons.prems quote_not_esc [symmetric, of c] by auto
    then obtain d t where s': "s' = d # t"
      by (cases s') auto
    with Cons.prems have "c = d \<and> concat (map esc_char s) @ CHR 0x22 # r = concat (map esc_char t) @ CHR 0x22 # r'"
      using esc_char_inject [of c "concat (map esc_char s) @ CHR 0x22 # r" d] by simp
    with Cons.IH s' show ?case by blast
  qed
  then show "str_text s @ r = str_text s' @ r' \<Longrightarrow> s = s' \<and> r = r'"
    by (simp add: str_text_def)
qed

definition delim :: "string \<Rightarrow> bool" where
  "delim r = (r = [] \<or> hd r \<in> {CHR '','', CHR '']'', CHR ''}''})"

lemma delim_Cons [simp]: "delim (c # r) \<longleftrightarrow> c \<in> {CHR '','', CHR '']'', CHR ''}''}"
  by (simp add: delim_def)

lemma nat_text_digits: "list_all is_digit (nat_text n)"
proof (induction n rule: nat_text.induct)
  case (1 n)
  have "is_digit (char_of (48 + n mod 10))" "n < 10 \<Longrightarrow> is_digit (char_of (48 + n))"
    by (simp_all add: is_digit_def)
  with 1 show ?case by (subst nat_text.simps) simp
qed

lemma nat_text_ne: "nat_text n \<noteq> []"
  by (subst nat_text.simps) simp

definition nat_val :: "string \<Rightarrow> nat" where
  "nat_val xs = foldl (\<lambda>a c. 10 * a + (code_of c - 48)) 0 xs"

lemma nat_val_text: "nat_val (nat_text n) = n"
proof (induction n rule: nat_text.induct)
  case (1 n)
  then show ?case by (subst nat_text.simps) (simp add: nat_val_def)
qed

lemma nat_text_inject: "nat_text n = nat_text m \<Longrightarrow> n = m"
  by (metis nat_val_text)

lemma takeWhile_digits: "list_all is_digit xs \<Longrightarrow> delim r \<Longrightarrow> takeWhile is_digit (xs @ r) = xs"
  by (cases r) (auto simp: list_all_iff takeWhile_append2 delim_def is_digit_def code_of_def)

lemma nat_text_split: "nat_text n @ r = nat_text m @ r' \<Longrightarrow> delim r \<Longrightarrow> delim r' \<Longrightarrow> n = m \<and> r = r'"
proof -
  assume eq: "nat_text n @ r = nat_text m @ r'" and d: "delim r" "delim r'"
  have "nat_text n = nat_text m"
    using arg_cong [OF eq, of "takeWhile is_digit"] takeWhile_digits nat_text_digits d by simp
  with eq nat_text_inject show "n = m \<and> r = r'" by auto
qed

lemma nat_text_hd: "is_digit (hd (nat_text n))"
  using nat_text_digits [of n] nat_text_ne [of n] by (cases "nat_text n") auto

lemma minus_not_digit: "nat_text n @ r \<noteq> CHR ''-'' # r'"
proof
  assume "nat_text n @ r = CHR ''-'' # r'"
  then have "hd (nat_text n) = CHR ''-''" using nat_text_ne [of n] by (cases "nat_text n") auto
  with nat_text_hd [of n] show False by (simp add: is_digit_def code_of_def)
qed

lemma int_text_split:
  assumes "int_text i @ r = int_text j @ r'" "delim r" "delim r'"
  shows "i = j \<and> r = r'"
proof (cases "i < 0"; cases "j < 0")
  assume "i < 0" "j < 0"
  with assms nat_text_split [of "nat (-i)" r "nat (-j)" r'] show ?thesis
    by (auto simp: int_text_def)
next
  assume "\<not> i < 0" "\<not> j < 0"
  with assms nat_text_split [of "nat i" r "nat j" r'] show ?thesis
    by (auto simp: int_text_def)
qed (use assms(1) minus_not_digit minus_not_digit [symmetric] in \<open>simp_all add: int_text_def\<close>)

text \<open>First characters tell the constructors apart.\<close>

lemma int_text_hd: "int_text i \<noteq> [] \<and> (hd (int_text i) = CHR ''-'' \<or> is_digit (hd (int_text i)))"
  using nat_text_ne nat_text_hd by (auto simp: int_text_def)

definition kind_char :: "json \<Rightarrow> nat" where
  "kind_char j = (case j of JNull \<Rightarrow> 0 | JBool b \<Rightarrow> (if b then 1 else 2) | JInt _ \<Rightarrow> 3 | JStr _ \<Rightarrow> 4
     | JList _ \<Rightarrow> 5 | JObj _ \<Rightarrow> 6 | JMarked _ _ \<Rightarrow> 7)"

definition char_kind :: "char \<Rightarrow> nat" where
  "char_kind c = (if c = CHR ''n'' then 0 else if c = CHR ''t'' then 1 else if c = CHR ''f'' then 2
     else if c = CHR 0x22 then 4 else if c = CHR ''['' then 5 else if c = CHR ''{'' then 6 else 3)"

lemma digit_chars:
  "is_digit c \<Longrightarrow> c \<notin> {CHR ''n'', CHR ''t'', CHR ''f'', CHR 0x22, CHR ''['', CHR ''{'', CHR '']'', CHR ''}''}"
  by (auto simp: is_digit_def code_of_def)

lemma dumps_head:
  "serialisable j \<Longrightarrow> dumps j \<noteq> [] \<and> char_kind (hd (dumps j)) = kind_char j
     \<and> hd (dumps j) \<notin> {CHR '']'', CHR ''}''}"
proof (cases j)
  case (JInt i)
  have "char_kind c = 3 \<and> c \<notin> {CHR '']'', CHR ''}''}" if "c = CHR ''-'' \<or> is_digit c" for c
    using that digit_chars [of c] by (elim disjE) (simp_all add: char_kind_def)
  with JInt int_text_hd [of i] show ?thesis by (simp add: kind_char_def)
qed (auto simp: kind_char_def char_kind_def str_text_def)

lemma dumps_same_kind:
  "serialisable j \<Longrightarrow> serialisable j' \<Longrightarrow> dumps j @ r = dumps j' @ r' \<Longrightarrow> kind_char j = kind_char j'"
  using dumps_head [of j] dumps_head [of j'] by (metis hd_append2)

text \<open>A bracketed sequence of texts that are each uniquely readable is.\<close>

definition seq_tail :: "('a \<Rightarrow> string) \<Rightarrow> 'a list \<Rightarrow> char \<Rightarrow> string \<Rightarrow> string" where
  "seq_tail f xs c r = (if xs = [] then c # r else CHR '','' # commas (map f xs) @ c # r)"

lemma commas_Cons: "commas (map f (x # xs)) @ c # r = f x @ seq_tail f xs c r"
  by (cases xs) (simp_all add: seq_tail_def)

lemma commas_inject:
  assumes "\<And>x y r r'. x \<in> set xs \<Longrightarrow> y \<in> set ys \<Longrightarrow> f x @ r = f y @ r' \<Longrightarrow> delim r \<Longrightarrow> delim r' \<Longrightarrow>
      x = y \<and> r = r'"
    and "\<And>z. z \<in> set xs \<union> set ys \<Longrightarrow> f z \<noteq> [] \<and> hd (f z) \<noteq> c"
    and c: "c = CHR '']'' \<or> c = CHR ''}''"
    and "commas (map f xs) @ c # r = commas (map f ys) @ c # r'"
  shows "xs = ys \<and> r = r'"
  using assms(1,2,4)
proof (induction xs arbitrary: ys)
  case Nil
  show ?case
  proof (cases ys)
    case (Cons y ys')
    then have "c # r = f y @ seq_tail f ys' c r'" using Nil.prems(3) commas_Cons by simp
    with Nil.prems(2) [of y] Cons show ?thesis by (cases "f y") auto
  qed (use Nil in simp)
next
  case (Cons x xs)
  note IH = Cons.IH and prems = Cons.prems
  show ?case
  proof (cases ys)
    case Nil
    then have "f x @ seq_tail f xs c r = c # r'"
      using prems(3) commas_Cons [of f x xs c r] by simp
    with prems(2) [of x] show ?thesis by (cases "f x") auto
  next
    case (Cons y ys')
    have d: "delim (seq_tail f zs c q)" for zs q using c by (auto simp: seq_tail_def)
    have "f x @ seq_tail f xs c r = f y @ seq_tail f ys' c r'"
      using prems(3) Cons commas_Cons [of f x xs c r] commas_Cons [of f y ys' c r'] by simp
    from prems(1) [OF _ _ this d d] Cons have xy: "x = y" and t: "seq_tail f xs c r = seq_tail f ys' c r'"
      by auto
    have "commas (map f xs) @ c # r = commas (map f ys') @ c # r'"
      using t c by (auto simp: seq_tail_def split: if_splits)
    then have "xs = ys' \<and> r = r'"
      using prems(1,2) Cons by (intro IH) auto
    with xy Cons show ?thesis by simp
  qed
qed

lemma member_text_inject:
  assumes "str_text k @ CHR '':'' # t @ r = str_text k' @ CHR '':'' # t' @ r'"
  shows "k = k' \<and> t @ r = t' @ r'"
  using str_text_inject [OF assms] by simp

lemma dumps_inject:
  "serialisable j \<Longrightarrow> serialisable j' \<Longrightarrow> dumps j @ r = dumps j' @ r' \<Longrightarrow> delim r \<Longrightarrow> delim r' \<Longrightarrow>
     j = j' \<and> r = r'"
proof (induction j arbitrary: j' r r')
  case (JInt i)
  then obtain i' where "j' = JInt i'"
    using dumps_same_kind [OF JInt(1-3)] by (cases j') (auto simp: kind_char_def split: if_splits)
  with int_text_split [of i r i' r'] JInt show ?case by simp
next
  case (JStr s)
  then obtain s' where "j' = JStr s'"
    using dumps_same_kind [OF JStr(1-3)] by (cases j') (auto simp: kind_char_def split: if_splits)
  with str_text_inject [of s r s' r'] JStr show ?case by simp
next
  case (JList xs)
  then obtain ys where j': "j' = JList ys"
    using dumps_same_kind [OF JList(2-4)] by (cases j') (auto simp: kind_char_def split: if_splits)
  have ser: "serialisable z" if "z \<in> set xs \<union> set ys" for z
    using that JList.prems(1,2) j' by (auto simp: list_all_iff)
  have "xs = ys \<and> r = r'"
  proof (rule commas_inject [where f = dumps and c = "CHR '']''"])
    show "commas (map dumps xs) @ CHR '']'' # r = commas (map dumps ys) @ CHR '']'' # r'"
      using JList.prems(3) j' by simp
    show "dumps z \<noteq> [] \<and> hd (dumps z) \<noteq> CHR '']''" if "z \<in> set xs \<union> set ys" for z
      using dumps_head [OF ser [OF that]] by simp
    show "x = y \<and> q = q'"
      if "x \<in> set xs" "y \<in> set ys" "dumps x @ q = dumps y @ q'" "delim q" "delim q'" for x y q q'
      using that ser by (intro JList.IH) simp_all
  qed simp
  with j' show ?case by simp
next
  case (JObj kvs)
  then obtain kvs' where j': "j' = JObj kvs'"
    using dumps_same_kind [OF JObj(2-4)] by (cases j') (auto simp: kind_char_def split: if_splits)
  let ?f = "\<lambda>kv. member_text (map_prod id dumps kv)"
  have ser: "serialisable (snd kv)" if "kv \<in> set kvs \<union> set kvs'" for kv
    using that JObj.prems(1,2) j' by (auto simp: list_all_iff)
  have "kvs = kvs' \<and> r = r'"
  proof (rule commas_inject [where f = ?f and c = "CHR ''}''"])
    show "commas (map ?f kvs) @ CHR ''}'' # r = commas (map ?f kvs') @ CHR ''}'' # r'"
      using JObj.prems(3) j' by (simp add: comp_def)
    show "?f z \<noteq> [] \<and> hd (?f z) \<noteq> CHR ''}''" for z
      by (simp add: member_text_def str_text_def)
    fix x y q q'
    assume xy: "x \<in> set kvs" "y \<in> set kvs'" "?f x @ q = ?f y @ q'" "delim q" "delim q'"
    have "fst x = fst y \<and> dumps (snd x) @ q = dumps (snd y) @ q'"
      using xy(3) member_text_inject [of "fst x" "dumps (snd x)" q "fst y" "dumps (snd y)" q']
      by (simp add: member_text_def)
    moreover have "snd x = snd y \<and> q = q'"
      using calculation xy ser by (intro JObj.IH [of x "snd x"]) (auto simp: snds.simps)
    ultimately show "x = y \<and> q = q'" by (simp add: prod_eq_iff)
  qed simp
  with j' show ?case by simp
next
  case JNull
  then have "j' = JNull"
    using dumps_same_kind [OF JNull(1-3)] by (cases j') (auto simp: kind_char_def split: if_splits)
  with JNull show ?case by simp
next
  case (JBool b)
  then have "j' = JBool b"
    using dumps_same_kind [OF JBool(1-3)] by (cases j') (auto simp: kind_char_def split: if_splits)
  with JBool show ?case by (simp split: if_splits)
qed simp

lemma serialisable_canonical: "serialisable (canonical_default j)"
proof (induction j)
  case (JObj kvs)
  then show ?case by (auto simp: list_all_iff)
qed (auto simp: list_all_iff)

lemma serialisable_sort: "serialisable j \<Longrightarrow> serialisable (sort_keys j)"
proof (induction j)
  case (JObj kvs)
  then show ?case by (auto simp: list_all_iff)
qed (auto simp: list_all_iff)

lemma canonical_bytes_inject:
  "canonicalize p = canonicalize q \<Longrightarrow>
     sort_keys (canonical_default p) = sort_keys (canonical_default q)"
  using dumps_inject [of "sort_keys (canonical_default p)" "sort_keys (canonical_default q)" "[]" "[]"]
  by (simp add: canonicalize_def serialisable_sort serialisable_canonical delim_def)

section \<open>Properties\<close>

text \<open>Two payloads have the same canonical bytes exactly when they are equal
after their objects' keys are sorted and their non-JSON objects are replaced by
the type-marked form: the hash of a payload fixes the payload up to key order,
unless SHA-256 collides. The size accepted by the cap is the length of these
bytes.\<close>
theorem canonicalize_inject:
  "(canonicalize p = canonicalize q \<longleftrightarrow>
      sort_keys (canonical_default p) = sort_keys (canonical_default q))
   \<and> (\<forall>m n. check_payload_size m (Some p) = Inr n \<longrightarrow> n = length (canonicalize p) \<and> n \<le> m)"
  using canonical_bytes_inject [of p q] accepted_size by (auto simp: canonicalize_def)

theorem canonicalize_inject_witness:
  "canonicalize (JObj [(''b'', JInt 1), (''a'', JStr ''x'')]) =
     canonicalize (JObj [(''a'', JStr ''x''), (''b'', JInt 1)])
   \<and> canonicalize (JStr ''1'') \<noteq> canonicalize (JInt 1)"
  by (simp add: canonicalize_inject [THEN conjunct1])

end
