(* ===== verification/Linked.thy ===== *)
theory Linked
  imports Prelude
begin

text \<open>
  The interface of a keyed hash chain: a log whose rows each commit to the tip
  left by the row before. The evidence chain provides it; what a valid walk
  guarantees (splitting, gaps, and that the last tip fixes the whole log unless two
  different messages, one of each of the logs compared, have the same code) is proved here once.
\<close>

locale linked_log =
  fixes ok :: "'h \<Rightarrow> 'r \<Rightarrow> bool"
    and tip :: "'r \<Rightarrow> 'h"
  assumes ok_head: "ok h r \<Longrightarrow> ok h' r \<Longrightarrow> h = h'"
begin

primrec valid :: "'h \<Rightarrow> 'r list \<Rightarrow> bool" where
  "valid h [] = True"
| "valid h (r # rs) = (ok h r \<and> valid (tip r) rs)"

definition tip_of :: "'h \<Rightarrow> 'r list \<Rightarrow> 'h" where
  "tip_of h rs = (if rs = [] then h else tip (last rs))"

lemma tip_of_simps [simp]:
  "tip_of h [] = h" "tip_of h (r # rs) = tip_of (tip r) rs" "tip_of h (rs @ [r]) = tip r"
  by (simp_all add: tip_of_def)

lemma valid_append: "valid h (xs @ ys) \<longleftrightarrow> valid h xs \<and> valid (tip_of h xs) ys"
  by (induction xs arbitrary: h) auto

lemma valid_snoc: "valid h (xs @ [r]) \<longleftrightarrow> valid h xs \<and> ok (tip_of h xs) r"
  by (simp add: valid_append)

lemma valid_take: "valid h rs \<Longrightarrow> valid h (take n rs)"
  by (metis append_take_drop_id valid_append)

lemma valid_head_unique: "rs \<noteq> [] \<Longrightarrow> valid h rs \<Longrightarrow> valid h' rs \<Longrightarrow> h = h'"
  by (cases rs) (auto intro: ok_head)

text \<open>A row can be cut out unnoticed only if its tip is the one it started from.\<close>

lemma gap_detected:
  assumes "valid h (xs @ gone @ ys)" "ys \<noteq> []" "valid h (xs @ ys)"
  shows "tip_of (tip_of h xs) gone = tip_of h xs"
  using assms valid_head_unique [of ys] by (auto simp: valid_append)

lemma valid_nth:
  "valid h rs \<longleftrightarrow> (\<forall>i < length rs. ok (if i = 0 then h else tip (rs ! (i - 1))) (rs ! i))"
proof (induction rs arbitrary: h)
  case (Cons r rs)
  show ?case
  proof
    assume v: "valid h (r # rs)"
    show "\<forall>i < length (r # rs). ok (if i = 0 then h else tip ((r # rs) ! (i - 1))) ((r # rs) ! i)"
    proof (intro allI impI)
      fix i assume "i < length (r # rs)"
      with v Cons.IH [of "tip r"] show "ok (if i = 0 then h else tip ((r # rs) ! (i - 1))) ((r # rs) ! i)"
        by (cases i; cases "i - 1") auto
    qed
  next
    assume a: "\<forall>i < length (r # rs). ok (if i = 0 then h else tip ((r # rs) ! (i - 1))) ((r # rs) ! i)"
    have "ok (if i = 0 then tip r else tip (rs ! (i - 1))) (rs ! i)" if "i < length rs" for i
      using a [rule_format, of "Suc i"] that by (cases i) auto
    with Cons.IH [of "tip r"] a [rule_format, of 0] show "valid h (r # rs)" by simp
  qed
qed simp

end

text \<open>A chain whose tips are codes of messages built from the head and the content.\<close>

locale signed_log = linked_log ok tip
  for ok :: "'h \<Rightarrow> 'r \<Rightarrow> bool" and tip :: "'r \<Rightarrow> 'h" +
  fixes sign :: "'m \<Rightarrow> 'h"
    and msg :: "'h \<Rightarrow> 'c \<Rightarrow> 'm"
    and content :: "'r \<Rightarrow> 'c"
    and good :: "'h \<Rightarrow> bool"
  assumes ok_signed: "ok h r \<Longrightarrow> tip r = sign (msg h (content r))"
    and msg_inject: "good h \<Longrightarrow> good h' \<Longrightarrow> msg h c = msg h' c' \<Longrightarrow> h = h' \<and> c = c'"
begin

text \<open>The messages whose codes a valid chain carries, and a collision between two chains: two
different messages, one of each chain, with one code.\<close>

primrec messages :: "'h \<Rightarrow> 'r list \<Rightarrow> 'm list" where
  "messages h [] = []"
| "messages h (r # rs) = msg h (content r) # messages (tip r) rs"

definition collision :: "'h \<Rightarrow> 'r list \<Rightarrow> 'r list \<Rightarrow> bool" where
  "collision h rs rs' =
     (\<exists>m \<in> set (messages h rs). \<exists>m' \<in> set (messages h rs'). m \<noteq> m' \<and> sign m = sign m')"

lemma messages_snoc: "messages h (rs @ [r]) = messages h rs @ [msg (tip_of h rs) (content r)]"
  by (induction rs arbitrary: h) simp_all

lemma collision_snoc: "collision h rs ss \<Longrightarrow> collision h (rs @ [r]) (ss @ [s])"
  by (auto simp: collision_def messages_snoc)

lemma good_tip:
  "valid h rs \<Longrightarrow> good h \<Longrightarrow> \<forall>m. good (sign m) \<Longrightarrow> good (tip_of h rs)"
proof (induction rs arbitrary: h)
  case (Cons r rs)
  then show ?case using ok_signed [of h r] by auto
qed simp

lemma tip_is_code: "valid h rs \<Longrightarrow> rs \<noteq> [] \<Longrightarrow> \<exists>m. tip_of h rs = sign m"
proof (induction rs arbitrary: h)
  case (Cons r rs)
  then show ?case using ok_signed [of h r] by (cases rs) auto
qed simp

text \<open>The last tip of a chain from the initial head fixes every content, or there is a collision between the two chains.\<close>

lemma tip_fixes_log:
  assumes codes: "\<forall>m. good (sign m) \<and> sign m \<noteq> h0" and "good h0"
    and "valid h0 rs" "valid h0 rs'" "tip_of h0 rs = tip_of h0 rs'"
  shows "map content rs = map content rs' \<or> collision h0 rs rs'"
  using assms(3-)
proof (induction rs arbitrary: rs' rule: rev_induct)
  case Nil
  with tip_is_code [of h0 rs'] codes show ?case by (cases "rs' = []") auto
next
  case (snoc r rs)
  then have v: "valid h0 rs" "ok (tip_of h0 rs) r" by (simp_all add: valid_snoc)
  show ?case
  proof (cases rs' rule: rev_cases)
    case Nil
    with snoc.prems tip_is_code [of h0 "rs @ [r]"] codes show ?thesis by auto
  next
    case (snoc ss s)
    then have v': "valid h0 ss" "ok (tip_of h0 ss) s"
      using \<open>valid h0 rs'\<close> by (simp_all add: valid_snoc)
    have g: "good (tip_of h0 rs)" "good (tip_of h0 ss)"
      using good_tip codes \<open>good h0\<close> v(1) v'(1) by blast+
    let ?m = "msg (tip_of h0 rs) (content r)" and ?m' = "msg (tip_of h0 ss) (content s)"
    have eq: "sign ?m = sign ?m'"
      using \<open>tip_of h0 (rs @ [r]) = tip_of h0 rs'\<close> snoc ok_signed [OF v(2)] ok_signed [OF v'(2)] by simp
    show ?thesis
    proof (cases "?m = ?m'")
      case True
      with msg_inject [OF g] have h: "tip_of h0 rs = tip_of h0 ss" "content r = content s" by auto
      with snoc.IH [OF v(1) v'(1) h(1)] \<open>rs' = ss @ [s]\<close> show ?thesis by (auto dest: collision_snoc)
    next
      case False
      with eq \<open>rs' = ss @ [s]\<close> show ?thesis by (auto simp: collision_def messages_snoc)
    qed
  qed
qed

end

end
