(* ===== verification/Evidence.thy ===== *)
theory Evidence
  imports Json Linked Canonicals "HOL-Library.AList"
begin

text \<open>
  The signed evidence chain (\<open>kya/evidence.py\<close>): the signing key, the hash and
  code of a row, the counter anchor kept on the invocation, the write with its
  redaction, genesis row and retention, the reads, \<open>verify_chain\<close> in stages, the
  retention sweep, and the signature backfill (\<open>kya/invocations.py\<close>). SHA-256
  and HMAC-SHA-256 are parameters; so is \<open>isoformat\<close>.
\<close>

section \<open>Keys and codes\<close>

record crypto =
  c_sha :: "string \<Rightarrow> string"
  c_mac :: "string \<Rightarrow> string \<Rightarrow> string"
  c_iso :: "instant \<Rightarrow> string"

text \<open>The provider: not configured, or failing (import, call, type), or a key and an id.\<close>

datatype provider = NoProvider | ProviderFailed | ProviderKey string string

definition get_signing_key ::
    "provider \<Rightarrow> string option option \<Rightarrow> string option \<Rightarrow> string \<Rightarrow> string \<Rightarrow> string \<times> string" where
  "get_signing_key prov env_decoded env_id dev_key dev_fp =
     (let env_path =
        (case env_decoded of
           Some (Some key) \<Rightarrow>
             if length key < 16 then (dev_key, ''dev-local-'' @ dev_fp)
             else (key, (case env_id of Some i \<Rightarrow> i | None \<Rightarrow> ''env-v1''))
         | _ \<Rightarrow> (dev_key, ''dev-local-'' @ dev_fp))
      in (case prov of
            ProviderKey key key_id \<Rightarrow> if length key < 16 then env_path else (key, key_id)
          | _ \<Rightarrow> env_path))"

definition payload_hash :: "crypto \<Rightarrow> json \<Rightarrow> string" where
  "payload_hash cr p = c_sha cr (canonicalize p)"

definition sign_message :: "string \<Rightarrow> string \<Rightarrow> string" where
  "sign_message prev phash = prev @ CHR ''|'' # phash"

definition hmac_sign :: "crypto \<Rightarrow> string \<Rightarrow> string \<Rightarrow> string \<Rightarrow> string" where
  "hmac_sign cr key prev phash = c_mac cr key (sign_message prev phash)"

definition counter_payload :: "ident \<Rightarrow> int \<Rightarrow> int \<Rightarrow> json" where
  "counter_payload t i n =
     JObj [(''tenant_id'', JStr t), (''invocation_id'', JInt i), (''evidence_row_count'', JInt n)]"

definition counter_signature :: "crypto \<Rightarrow> string \<Rightarrow> ident \<Rightarrow> int \<Rightarrow> int \<Rightarrow> string" where
  "counter_signature cr key t i n = hmac_sign cr key [] (payload_hash cr (counter_payload t i n))"

section \<open>Tables\<close>

record evidence_row =
  e_id :: int
  e_tenant :: ident
  e_inv :: int
  e_corr :: "ident option"
  e_parent :: "int option"
  e_span :: "string option"
  e_kind :: string
  e_role :: "string option"
  e_payload :: json
  e_phash :: string
  e_size :: nat
  e_prev :: "string option"
  e_signed :: string
  e_key_id :: string
  e_occurred :: instant
  e_ingested :: instant
  e_source :: "string option"
  e_classes :: "string option list option"
  e_retention :: "instant option"
  e_evaluator :: "string option"

text \<open>The anchor columns of an invocation: the row count and its signature.\<close>

type_synonym anchors = "((ident \<times> int) \<times> (int option \<times> string option)) list"

record evidence_db =
  d_rows :: "evidence_row list"
  d_anchors :: anchors
  d_next :: int

definition chain :: "evidence_db \<Rightarrow> ident \<Rightarrow> int \<Rightarrow> evidence_row list" where
  "chain db t i = sort_key e_id (filter (\<lambda>r. e_tenant r = t \<and> e_inv r = i) (d_rows db))"

section \<open>Redaction\<close>

definition REDACTION_TARGET_KEYS :: "string list" where
  "REDACTION_TARGET_KEYS =
    [''tool_arguments'', ''arguments'', ''prompt'', ''response'', ''http_body'', ''tool_input'',
     ''tool_output'', ''input'', ''output'']"

definition REDACTION_TARGET_NESTED_PATHS :: "string list list" where
  "REDACTION_TARGET_NESTED_PATHS =
    [[''tool_call'', ''arguments''], [''tool_call'', ''input''], [''tool_call'', ''output'']]"

definition resolve_redaction_target_keys :: "string \<Rightarrow> string list" where
  "resolve_redaction_target_keys extra =
     (if extra = [] then REDACTION_TARGET_KEYS
      else fold (\<lambda>k merged. if k \<in> set merged then merged else merged @ [k])
             (filter (\<lambda>k. k \<noteq> []) (map strip (split_on CHR '','' extra))) REDACTION_TARGET_KEYS)"

text \<open>The installed hook maps an attribute object to one, or raises.\<close>

type_synonym hook = "jobj \<Rightarrow> jobj option"

definition redact_value :: "hook \<Rightarrow> string \<Rightarrow> json \<Rightarrow> json option" where
  "redact_value h k v =
     (case v of
        JObj d \<Rightarrow> map_option JObj (h d)
      | JStr s \<Rightarrow> map_option (\<lambda>d. case map_of d k of Some w \<Rightarrow> w | None \<Rightarrow> v) (h [(k, v)])
      | _ \<Rightarrow> Some v)"

definition redact_member :: "hook \<Rightarrow> string \<Rightarrow> jobj \<Rightarrow> jobj option" where
  "redact_member h k obj =
     (case map_of obj k of
        None \<Rightarrow> Some obj
      | Some v \<Rightarrow> map_option (\<lambda>w. AList.update k w obj) (redact_value h k v))"

fun redact_top :: "hook \<Rightarrow> string list \<Rightarrow> jobj \<Rightarrow> jobj option" where
  "redact_top h [] obj = Some obj"
| "redact_top h (k # ks) obj =
     (case redact_member h k obj of None \<Rightarrow> None | Some obj' \<Rightarrow> redact_top h ks obj')"

text \<open>One dotted path: the walk copies parents of the new payload as it descends.\<close>

fun redact_path :: "hook \<Rightarrow> string list \<Rightarrow> jobj \<Rightarrow> jobj \<Rightarrow> jobj option" where
  "redact_path h [] new src = Some new"
| "redact_path h [leaf] new src = redact_member h leaf new"
| "redact_path h (p # q # ps) new src =
     (case map_of src p of
        Some (JObj child) \<Rightarrow>
          (let cur = (case map_of new p of Some (JObj d) \<Rightarrow> d | _ \<Rightarrow> child)
           in (case redact_path h (q # ps) cur child of
                 None \<Rightarrow> None
               | Some cur' \<Rightarrow> Some (AList.update p (JObj cur') new)))
      | _ \<Rightarrow> Some new)"

fun redact_nested :: "hook \<Rightarrow> string list list \<Rightarrow> jobj \<Rightarrow> jobj \<Rightarrow> jobj option" where
  "redact_nested h [] new src = Some new"
| "redact_nested h (p # ps) new src =
     (case redact_path h p new src of None \<Rightarrow> None | Some new' \<Rightarrow> redact_nested h ps new' src)"

definition redaction_in_scope :: "string list \<Rightarrow> string list list \<Rightarrow> jobj \<Rightarrow> bool" where
  "redaction_in_scope keys paths obj =
     (list_ex (\<lambda>k. map_of obj k \<noteq> None) keys \<or>
      list_ex (\<lambda>p. case map_of obj (hd p) of Some (JObj _) \<Rightarrow> True | _ \<Rightarrow> False) paths)"

text \<open>The whole block: a raise anywhere leaves the payload as it came.\<close>

definition redact_payload :: "hook \<Rightarrow> string \<Rightarrow> json \<Rightarrow> json" where
  "redact_payload h extra payload =
     (case payload of
        JObj obj \<Rightarrow>
          (let keys = resolve_redaction_target_keys extra;
               paths = REDACTION_TARGET_NESTED_PATHS
           in if \<not> redaction_in_scope keys paths obj then payload
              else (case redact_top h keys obj of
                      None \<Rightarrow> payload
                    | Some new \<Rightarrow>
                        (case redact_nested h paths new obj of
                           None \<Rightarrow> payload
                         | Some new' \<Rightarrow> JObj new')))
      | _ \<Rightarrow> payload)"

section \<open>Retention\<close>

definition REGIME_RETENTION_DAYS :: "(string \<times> int) list" where
  "REGIME_RETENTION_DAYS =
    [(''gdpr'', 2190), (''nydfs_500'', 1825), (''hipaa'', 2190), (''sox'', 2555),
     (''pci_dss'', 365), (''eu_ai_act'', 2555)]"

definition DATA_CLASS_REGIMES :: "(string \<times> string list) list" where
  "DATA_CLASS_REGIMES =
    [(''pii'', [''gdpr'']), (''phi'', [''hipaa'']), (''pci'', [''pci_dss'']),
     (''financial'', [''sox'', ''nydfs_500'']),
     (''regulated'', [''gdpr'', ''nydfs_500'', ''hipaa'']),
     (''secret'', [''gdpr'']), (''confidential'', [''gdpr''])]"

definition microseconds_per_day :: int where
  "microseconds_per_day = 86400000000"

definition class_days :: "string option \<Rightarrow> int list" where
  "class_days cls =
     List.map_filter (map_of REGIME_RETENTION_DAYS)
       (case map_of DATA_CLASS_REGIMES (lower (or_else cls [])) of Some rs \<Rightarrow> rs | None \<Rightarrow> [])"

definition retention_until :: "int option \<Rightarrow> string option list option \<Rightarrow> instant \<Rightarrow> instant option" where
  "retention_until days classes now =
     (case days of
        Some d \<Rightarrow> Some (now + d * microseconds_per_day)
      | None \<Rightarrow>
          (case classes of
             None \<Rightarrow> None
           | Some cs \<Rightarrow>
               (let applicable = concat (map class_days cs)
                in if applicable = [] then None
                   else Some (now + Max (set applicable) * microseconds_per_day))))"

section \<open>Recording\<close>

text \<open>\<open>_bump_counter_and_resign\<close>; \<open>schema_ok\<close> is false when a column or the table is missing.\<close>

definition bump_counter_and_resign ::
    "crypto \<Rightarrow> bool \<Rightarrow> string \<Rightarrow> ident \<Rightarrow> int \<Rightarrow> anchors \<Rightarrow> anchors" where
  "bump_counter_and_resign cr schema_ok key t i anchors =
     (if \<not> schema_ok then anchors
      else (case map_of anchors (t, i) of
              None \<Rightarrow> anchors
            | Some (cnt, _) \<Rightarrow>
                (let n = (case cnt of Some c \<Rightarrow> c | None \<Rightarrow> 0) + 1
                 in AList.update (t, i) (Some n, Some (counter_signature cr key t i n)) anchors)))"

record evidence_args =
  a_tenant :: ident
  a_inv :: int
  a_kind :: string
  a_payload :: json
  a_role :: "string option"
  a_source :: "string option"
  a_occurred :: "instant option"
  a_classes :: "string option list option"
  a_corr :: "ident option"
  a_parent :: "int option"
  a_span :: "string option"
  a_retention :: "int option"
  a_evaluator :: "string option"

text \<open>What the process and its databases supply to a write.\<close>

record evidence_env =
  v_crypto :: crypto
  v_key :: string
  v_key_id :: string
  v_kinds :: "string list"
  v_hook :: hook
  v_extra_keys :: string
  v_max_bytes :: nat
  v_schema_ok :: bool
  v_now :: instant

definition coerce_evidence_kind :: "string list \<Rightarrow> string \<Rightarrow> string" where
  "coerce_evidence_kind kinds k = (if k \<in> set kinds then k else ''system_message'')"

definition prev_hash :: "evidence_db \<Rightarrow> ident \<Rightarrow> int \<Rightarrow> string" where
  "prev_hash db t i = (if chain db t i = [] then [] else e_signed (last (chain db t i)))"

definition insert_row :: "evidence_row \<Rightarrow> evidence_env \<Rightarrow> evidence_db \<Rightarrow> evidence_db" where
  "insert_row r v db =
     db\<lparr> d_rows := d_rows db @ [r\<lparr> e_id := d_next db \<rparr>], d_next := d_next db + 1,
         d_anchors := bump_counter_and_resign (v_crypto v) (v_schema_ok v) (v_key v)
           (e_tenant r) (e_inv r) (d_anchors db) \<rparr>"

definition genesis_payload :: "crypto \<Rightarrow> ident \<Rightarrow> int \<Rightarrow> instant \<Rightarrow> json" where
  "genesis_payload cr t i occurred =
     JObj [(''tenant_id'', JStr t), (''invocation_id'', JInt i),
           (''created_at'', JStr (c_iso cr occurred)), (''chain_version'', JInt 1)]"

definition genesis_row :: "evidence_env \<Rightarrow> evidence_args \<Rightarrow> instant \<Rightarrow> evidence_row" where
  "genesis_row v a occurred =
     (let cr = v_crypto v; p = genesis_payload cr (a_tenant a) (a_inv a) occurred
      in \<lparr> e_id = 0, e_tenant = a_tenant a, e_inv = a_inv a, e_corr = a_corr a,
           e_parent = a_parent a, e_span = a_span a, e_kind = EVIDENCE_KIND_CHAIN_GENESIS,
           e_role = None, e_payload = p, e_phash = payload_hash cr p,
           e_size = length (canonicalize p), e_prev = None,
           e_signed = hmac_sign cr (v_key v) [] (payload_hash cr p), e_key_id = v_key_id v,
           e_occurred = occurred, e_ingested = v_now v, e_source = None, e_classes = None,
           e_retention = None, e_evaluator = None \<rparr>)"

text \<open>The anchor row of a chain that has none: written unless the caller writes it.\<close>

definition ensure_genesis ::
    "evidence_env \<Rightarrow> evidence_args \<Rightarrow> string \<Rightarrow> instant \<Rightarrow> evidence_db \<Rightarrow> evidence_db" where
  "ensure_genesis v a kind occurred db =
     (if prev_hash db (a_tenant a) (a_inv a) = [] \<and> kind \<noteq> EVIDENCE_KIND_CHAIN_GENESIS
      then insert_row (genesis_row v a occurred) v db else db)"

definition caller_row ::
    "evidence_env \<Rightarrow> evidence_args \<Rightarrow> string \<Rightarrow> json \<Rightarrow> instant \<Rightarrow> string \<Rightarrow> evidence_row" where
  "caller_row v a kind p occurred prev =
     (let cr = v_crypto v
      in \<lparr> e_id = 0, e_tenant = a_tenant a, e_inv = a_inv a, e_corr = a_corr a,
           e_parent = a_parent a, e_span = a_span a, e_kind = kind, e_role = a_role a,
           e_payload = p, e_phash = payload_hash cr p, e_size = length (canonicalize p),
           e_prev = (if prev = [] then None else Some prev),
           e_signed = hmac_sign cr (v_key v) prev (payload_hash cr p), e_key_id = v_key_id v,
           e_occurred = occurred, e_ingested = v_now v, e_source = a_source a,
           e_classes = (if a_classes a = Some [] then None else a_classes a),
           e_retention = retention_until (a_retention a) (a_classes a) (v_now v),
           e_evaluator = a_evaluator a \<rparr>)"

definition append_evidence ::
    "evidence_env \<Rightarrow> evidence_args \<Rightarrow> string \<Rightarrow> json \<Rightarrow> evidence_db \<Rightarrow> evidence_db" where
  "append_evidence v a kind p db =
     (let occurred = (case a_occurred a of Some o' \<Rightarrow> o' | None \<Rightarrow> v_now v);
          db1 = ensure_genesis v a kind occurred db
      in insert_row (caller_row v a kind p occurred (prev_hash db1 (a_tenant a) (a_inv a))) v db1)"

definition record_evidence ::
    "evidence_env \<Rightarrow> evidence_args \<Rightarrow> evidence_db \<Rightarrow> (cap_error + int) \<times> evidence_db" where
  "record_evidence v a db =
     (let kind = coerce_evidence_kind (v_kinds v) (a_kind a);
          payload = redact_payload (v_hook v) (v_extra_keys v) (a_payload a)
      in (case check_payload_size (v_max_bytes v) (Some payload) of
            Inl err \<Rightarrow> (Inl err, db)
          | Inr _ \<Rightarrow>
              (let db' = append_evidence v a kind payload db in (Inr (d_next db' - 1), db'))))"

section \<open>Reads\<close>

definition list_evidence ::
    "evidence_db \<Rightarrow> ident \<Rightarrow> int option \<Rightarrow> string option \<Rightarrow> string option \<Rightarrow> instant option \<Rightarrow>
     instant option \<Rightarrow> nat \<Rightarrow> evidence_row list" where
  "list_evidence db t inv_id corr kind since til lim =
     take lim (sort_key e_id (filter (\<lambda>r. e_tenant r = t
        \<and> (case inv_id of Some i \<Rightarrow> e_inv r = i | None \<Rightarrow> True)
        \<and> (truthy corr \<longrightarrow> e_corr r = corr)
        \<and> (truthy kind \<longrightarrow> Some (e_kind r) = kind)
        \<and> (case since of Some s \<Rightarrow> s \<le> e_occurred r | None \<Rightarrow> True)
        \<and> (case til of Some u \<Rightarrow> e_occurred r < u | None \<Rightarrow> True)) (d_rows db)))"

definition get_evidence :: "evidence_db \<Rightarrow> ident \<Rightarrow> int \<Rightarrow> evidence_row option" where
  "get_evidence db t i = List.find (\<lambda>r. e_tenant r = t \<and> e_id r = i) (d_rows db)"

section \<open>Verification\<close>

datatype reason =
    SignatureMissing | SignatureInvalid | EmptyChain | ChainWiped int
  | CountMismatch int nat | GenesisMissing | PayloadModified | PrevHashBreak | SignedMismatch

record verify_result =
  r_valid :: bool
  r_broken_at :: "int option"
  r_checked :: int
  r_reason :: "reason option"
  r_expected :: "int option"
  r_signature_ok :: "bool option"

text \<open>The columns that the installed schema has.\<close>

datatype anchor_schema = AnchorFull | AnchorCountOnly | AnchorAbsent

definition load_anchor ::
    "anchor_schema \<Rightarrow> anchors \<Rightarrow> ident \<Rightarrow> int \<Rightarrow> int option \<times> string option" where
  "load_anchor sch anchors t i =
     (case map_of anchors (t, i) of
        None \<Rightarrow> (None, None)
      | Some (cnt, sig) \<Rightarrow>
          (case sch of AnchorFull \<Rightarrow> (cnt, sig) | AnchorCountOnly \<Rightarrow> (cnt, None)
           | AnchorAbsent \<Rightarrow> (None, None)))"

definition check_counter_signature ::
    "crypto \<Rightarrow> string \<Rightarrow> ident \<Rightarrow> int \<Rightarrow> int option \<Rightarrow> string option \<Rightarrow> verify_result + bool option" where
  "check_counter_signature cr key t i expected sig =
     (case expected of
        None \<Rightarrow> Inr None
      | Some n \<Rightarrow>
          (case sig of
             None \<Rightarrow> Inl \<lparr> r_valid = False, r_broken_at = None, r_checked = 0,
                r_reason = Some SignatureMissing, r_expected = expected, r_signature_ok = Some False \<rparr>
           | Some s \<Rightarrow>
               if counter_signature cr key t i n \<noteq> s then
                 Inl \<lparr> r_valid = False, r_broken_at = None, r_checked = 0,
                   r_reason = Some SignatureInvalid, r_expected = expected, r_signature_ok = Some False \<rparr>
               else Inr (Some True)))"

definition check_count ::
    "evidence_row list \<Rightarrow> int option \<Rightarrow> bool option \<Rightarrow> verify_result option" where
  "check_count rows expected sig_ok =
     (if rows = [] then
        (if expected = None \<or> expected = Some 0 then
           Some \<lparr> r_valid = True, r_broken_at = None, r_checked = 0, r_reason = Some EmptyChain,
             r_expected = expected, r_signature_ok = sig_ok \<rparr>
         else
           Some \<lparr> r_valid = False, r_broken_at = None, r_checked = 0,
             r_reason = Some (ChainWiped (the expected)), r_expected = expected,
             r_signature_ok = sig_ok \<rparr>)
      else if expected \<noteq> None \<and> int (length rows) \<noteq> the expected then
        Some \<lparr> r_valid = False, r_broken_at = None, r_checked = int (length rows),
          r_reason = Some (CountMismatch (the expected) (length rows)), r_expected = expected,
          r_signature_ok = sig_ok \<rparr>
      else if expected \<noteq> None \<and> e_kind (hd rows) \<noteq> EVIDENCE_KIND_CHAIN_GENESIS then
        Some \<lparr> r_valid = False, r_broken_at = Some (e_id (hd rows)), r_checked = 0,
          r_reason = Some GenesisMissing, r_expected = expected, r_signature_ok = sig_ok \<rparr>
      else None)"

text \<open>The checks of one row, in the order of the loop body.\<close>

definition row_fault :: "crypto \<Rightarrow> string \<Rightarrow> string \<Rightarrow> evidence_row \<Rightarrow> reason option" where
  "row_fault cr key expected_prev r =
     (if payload_hash cr (e_payload r) \<noteq> e_phash r then Some PayloadModified
      else if or_else (e_prev r) [] \<noteq> expected_prev then Some PrevHashBreak
      else if hmac_sign cr key expected_prev (e_phash r) \<noteq> e_signed r then Some SignedMismatch
      else None)"

fun walk_rows ::
    "crypto \<Rightarrow> string \<Rightarrow> string \<Rightarrow> evidence_row list \<Rightarrow> (evidence_row \<times> reason) option" where
  "walk_rows cr key expected_prev [] = None"
| "walk_rows cr key expected_prev (r # rs) =
     (case row_fault cr key expected_prev r of
        Some f \<Rightarrow> Some (r, f)
      | None \<Rightarrow> walk_rows cr key (e_signed r) rs)"

definition verify_chain ::
    "crypto \<Rightarrow> string \<Rightarrow> anchor_schema \<Rightarrow> evidence_db \<Rightarrow> ident \<Rightarrow> int \<Rightarrow> verify_result" where
  "verify_chain cr key sch db t i =
     (case load_anchor sch (d_anchors db) t i of (expected, sig) \<Rightarrow>
       (case check_counter_signature cr key t i expected sig of
          Inl res \<Rightarrow> res
        | Inr sig_ok \<Rightarrow>
            (case check_count (chain db t i) expected sig_ok of
               Some res \<Rightarrow> res
             | None \<Rightarrow>
                 (case walk_rows cr key [] (chain db t i) of
                    Some (r, f) \<Rightarrow>
                      \<lparr> r_valid = False, r_broken_at = Some (e_id r), r_checked = e_id r,
                        r_reason = Some f, r_expected = expected, r_signature_ok = sig_ok \<rparr>
                  | None \<Rightarrow>
                      \<lparr> r_valid = True, r_broken_at = None, r_checked = int (length (chain db t i)),
                        r_reason = None, r_expected = expected, r_signature_ok = sig_ok \<rparr>))))"

section \<open>Retention sweep and backfill\<close>

definition expired_row :: "instant \<Rightarrow> ident option \<Rightarrow> evidence_row \<Rightarrow> bool" where
  "expired_row now t r =
     ((case e_retention r of Some u \<Rightarrow> u < now | None \<Rightarrow> False) \<and> (truthy t \<longrightarrow> Some (e_tenant r) = t))"

definition prune_expired_evidence :: "instant \<Rightarrow> ident option \<Rightarrow> evidence_db \<Rightarrow> nat \<times> evidence_db" where
  "prune_expired_evidence now t db =
     (length (filter (expired_row now t) (d_rows db)),
      db\<lparr> d_rows := filter (\<lambda>r. \<not> expired_row now t r) (d_rows db) \<rparr>)"

definition backfill_signatures :: "crypto \<Rightarrow> string \<Rightarrow> anchors \<Rightarrow> anchors" where
  "backfill_signatures cr key anchors =
     map (\<lambda>((t, i), (cnt, sig)).
       (case cnt of
          Some n \<Rightarrow> if sig = None then ((t, i), (cnt, Some (counter_signature cr key t i n)))
                    else ((t, i), (cnt, sig))
        | None \<Rightarrow> ((t, i), (cnt, sig)))) anchors"

end
