(* ===== verification/EvidenceFacts.thy ===== *)
theory EvidenceFacts
  imports Evidence
begin

text \<open>
  Lemmas and properties of the evidence chain: what verification accepts, that
  recording keeps every chain verifiable, what tampering is caught, and what is
  not. The row walk is an instance of the signed log; a collision is always an
  explicit pair of messages the chains carry with one code.
\<close>

section \<open>The walk is a signed log\<close>

lemma row_fault_None:
  "row_fault cr key h r = None \<longleftrightarrow>
     payload_hash cr (e_payload r) = e_phash r \<and> or_else (e_prev r) [] = h
     \<and> hmac_sign cr key h (e_phash r) = e_signed r"
  by (simp add: row_fault_def)

lemma sign_message_inject:
  assumes "CHR ''|'' \<notin> set h" "CHR ''|'' \<notin> set h'" "sign_message h c = sign_message h' c'"
  shows "h = h' \<and> c = c'"
proof -
  have "takeWhile (\<lambda>x. x \<noteq> CHR ''|'') (sign_message h c) = h"
    and "takeWhile (\<lambda>x. x \<noteq> CHR ''|'') (sign_message h' c') = h'"
    using assms(1,2) by (auto simp: sign_message_def takeWhile_append takeWhile_eq_all_conv)
  with assms(3) show ?thesis by (auto simp: sign_message_def)
qed

interpretation ec: signed_log "\<lambda>h r. row_fault cr key h r = None" e_signed "c_mac cr key"
    sign_message e_phash "\<lambda>h. CHR ''|'' \<notin> set h" for cr key
  by unfold_locales (auto simp: row_fault_None hmac_sign_def dest: sign_message_inject)

lemma list_all2_or_pair:
  assumes "list_all2 P xs ys" "\<And>x y. P x y \<Longrightarrow> Q x y \<or> R x y"
  shows "list_all2 Q xs ys \<or> (\<exists>x \<in> set xs. \<exists>y \<in> set ys. R x y)"
  using assms by (induction rule: list_all2_induct) fastforce+

lemma message_row:
  "ec.valid cr key h rs \<Longrightarrow> m \<in> set (ec.messages h rs) \<Longrightarrow>
     \<exists>r \<in> set rs. m = sign_message (or_else (e_prev r) []) (e_phash r)"
proof (induction rs arbitrary: h)
  case (Cons r rs)
  then have "row_fault cr key h r = None" and v: "ec.valid cr key (e_signed r) rs" by simp_all
  then have "or_else (e_prev r) [] = h" by (simp add: row_fault_None)
  with Cons.IH [OF v] Cons.prems(2) show ?case by auto
qed simp

lemma walk_valid: "walk_rows cr key h rs = None \<longleftrightarrow> ec.valid cr key h rs"
  by (induction rs arbitrary: h) (auto split: option.split)

lemma valid_map:
  assumes "\<And>h r. row_fault cr key h (f r) = row_fault cr key h r" "\<And>r. e_signed (f r) = e_signed r"
  shows "ec.valid cr key h (map f rs) = ec.valid cr key h rs"
  using assms by (induction rs arbitrary: h) simp_all

lemma walk_fault_row: "walk_rows cr key h rs = Some (r, f) \<Longrightarrow> r \<in> set rs"
  by (induction rs arbitrary: h) (auto split: option.splits)

lemma walk_append:
  "walk_rows cr key h (xs @ ys) =
     (case walk_rows cr key h xs of Some b \<Rightarrow> Some b | None \<Rightarrow> walk_rows cr key (ec.tip_of h xs) ys)"
  by (induction xs arbitrary: h) (auto split: option.split)

section \<open>What verification accepts\<close>

definition anchor_ok :: "crypto \<Rightarrow> string \<Rightarrow> ident \<Rightarrow> int \<Rightarrow> int option \<Rightarrow> string option \<Rightarrow> evidence_row list \<Rightarrow> bool" where
  "anchor_ok cr key t i expected sig rows =
     (case expected of None \<Rightarrow> True
      | Some n \<Rightarrow> sig = Some (counter_signature cr key t i n) \<and> n = int (length rows)
          \<and> (rows \<noteq> [] \<longrightarrow> e_kind (hd rows) = EVIDENCE_KIND_CHAIN_GENESIS))"

lemma verify_valid_iff:
  "r_valid (verify_chain cr key sch db t i) \<longleftrightarrow>
     (case load_anchor sch (d_anchors db) t i of (expected, sig) \<Rightarrow>
        anchor_ok cr key t i expected sig (chain db t i)) \<and>
     ec.valid cr key [] (chain db t i)"
proof (cases "load_anchor sch (d_anchors db) t i")
  case (Pair expected sig)
  show ?thesis
  proof (cases expected)
    case None
    with Pair show ?thesis
      by (auto simp: verify_chain_def check_counter_signature_def check_count_def anchor_ok_def
          walk_valid [symmetric] split: option.split)
  next
    case (Some n)
    with Pair show ?thesis
      by (cases "chain db t i = []")
        (auto simp: verify_chain_def check_counter_signature_def check_count_def anchor_ok_def
          walk_valid [symmetric] split: option.split)
  qed
qed

lemma verify_reason_count:
  assumes "load_anchor sch (d_anchors db) t i = (Some n, Some (counter_signature cr key t i n))"
    and "n \<noteq> int (length (chain db t i))"
  shows "r_reason (verify_chain cr key sch db t i) =
     Some (if chain db t i = [] then ChainWiped n else CountMismatch n (length (chain db t i)))"
    "\<not> r_valid (verify_chain cr key sch db t i)"
  using assms by (auto simp: verify_chain_def check_counter_signature_def check_count_def)

section \<open>Inserting\<close>

definition db_wf :: "evidence_db \<Rightarrow> bool" where
  "db_wf db = (sorted (map e_id (d_rows db)) \<and> list_all (\<lambda>r. e_id r < d_next db) (d_rows db))"

lemma chain_wf: "db_wf db \<Longrightarrow> chain db t i = filter (\<lambda>r. e_tenant r = t \<and> e_inv r = i) (d_rows db)"
  unfolding chain_def db_wf_def by (rule sort_key_id_if_sorted) (simp add: sorted_filter)

lemma map_rows_wf:
  assumes "db_wf db" "\<And>r. e_id (f r) = e_id r"
  shows "db_wf (db\<lparr> d_rows := map f (d_rows db) \<rparr>)"
proof -
  have "map e_id (map f (d_rows db)) = map e_id (d_rows db)" using assms(2) by simp
  then show ?thesis
    using assms unfolding db_wf_def list_all_iff by (auto simp del: map_map)
qed

lemma map_rows_chain:
  assumes "db_wf db" "\<And>r. e_id (f r) = e_id r \<and> e_tenant (f r) = e_tenant r \<and> e_inv (f r) = e_inv r"
  shows "chain (db\<lparr> d_rows := map f (d_rows db) \<rparr>) t i = map f (chain db t i)"
  using chain_wf [OF assms(1)] chain_wf [OF map_rows_wf [OF assms(1), of f]] assms(2)
  by (simp add: filter_map comp_def)

lemma insert_row_wf: "db_wf db \<Longrightarrow> db_wf (insert_row r v db)"
  by (auto simp: db_wf_def insert_row_def list_all_iff sorted_append less_imp_le)

lemma insert_row_chain:
  assumes "db_wf db"
  shows "chain (insert_row r v db) t i =
    chain db t i @ (if e_tenant r = t \<and> e_inv r = i then [r\<lparr> e_id := d_next db \<rparr>] else [])"
  using chain_wf [OF assms] chain_wf [OF insert_row_wf [OF assms]]
  by (simp add: insert_row_def)

lemma bump_other:
  "(t', i') \<noteq> (t, i) \<Longrightarrow>
     map_of (bump_counter_and_resign cr ok key t i anchors) (t', i') = map_of anchors (t', i')"
  by (auto simp: bump_counter_and_resign_def update_conv Let_def split: option.split)

lemma bump_same:
  "map_of (bump_counter_and_resign cr True key t i anchors) (t, i) =
     (case map_of anchors (t, i) of None \<Rightarrow> None
      | Some (cnt, _) \<Rightarrow>
          Some (Some ((case cnt of Some c \<Rightarrow> c | None \<Rightarrow> 0) + 1),
                Some (counter_signature cr key t i ((case cnt of Some c \<Rightarrow> c | None \<Rightarrow> 0) + 1))))"
  by (auto simp: bump_counter_and_resign_def update_conv Let_def split: option.split)

text \<open>The state that recording maintains for one chain.\<close>

definition chain_inv :: "crypto \<Rightarrow> string \<Rightarrow> evidence_db \<Rightarrow> ident \<Rightarrow> int \<Rightarrow> bool" where
  "chain_inv cr key db t i =
     (ec.valid cr key [] (chain db t i) \<and>
      (case map_of (d_anchors db) (t, i) of
         None \<Rightarrow> True
       | Some (None, _) \<Rightarrow> chain db t i = []
       | Some (Some n, sig) \<Rightarrow> anchor_ok cr key t i (Some n) sig (chain db t i)))"

lemma chain_inv_verifies: "chain_inv cr key db t i \<Longrightarrow> r_valid (verify_chain cr key AnchorFull db t i)"
  by (auto simp: chain_inv_def verify_valid_iff load_anchor_def anchor_ok_def split: option.splits)

lemma insert_row_other:
  assumes "db_wf db" "(t, i) \<noteq> (e_tenant r, e_inv r)"
  shows "chain_inv cr key (insert_row r v db) t i = chain_inv cr key db t i"
proof -
  have c: "chain (insert_row r v db) t i = chain db t i"
    using assms by (auto simp: insert_row_chain)
  have a: "map_of (d_anchors (insert_row r v db)) (t, i) = map_of (d_anchors db) (t, i)"
    using bump_other [OF assms(2)] by (simp add: insert_row_def)
  show ?thesis unfolding chain_inv_def c a ..
qed

lemma insert_row_inv:
  assumes "db_wf db" "chain_inv cr key db t i" "v_crypto v = cr" "v_key v = key" "v_schema_ok v"
    and "e_tenant r = t" "e_inv r = i"
    and "row_fault cr key (ec.tip_of [] (chain db t i)) r = None"
    and "chain db t i = [] \<longrightarrow> e_kind r = EVIDENCE_KIND_CHAIN_GENESIS"
  shows "chain_inv cr key (insert_row r v db) t i"
proof -
  let ?r = "r\<lparr> e_id := d_next db \<rparr>"
  have c: "chain (insert_row r v db) t i = chain db t i @ [?r]"
    using assms by (simp add: insert_row_chain)
  have "row_fault cr key (ec.tip_of [] (chain db t i)) ?r = None"
    using assms(8) by (simp add: row_fault_None)
  then have "ec.valid cr key [] (chain db t i @ [?r])"
    using assms(2) by (simp add: chain_inv_def ec.valid_snoc)
  moreover have "map_of (d_anchors (insert_row r v db)) (t, i) =
      (case map_of (d_anchors db) (t, i) of None \<Rightarrow> None
       | Some (cnt, _) \<Rightarrow>
          Some (Some ((case cnt of Some c \<Rightarrow> c | None \<Rightarrow> 0) + 1),
                Some (counter_signature cr key t i ((case cnt of Some c \<Rightarrow> c | None \<Rightarrow> 0) + 1))))"
    using assms(3-7) by (simp add: insert_row_def bump_same)
  ultimately show ?thesis
    using assms(2,9)
    by (cases "chain db t i")
      (auto simp: chain_inv_def c anchor_ok_def split: option.splits)
qed

section \<open>Recording keeps chains verifiable\<close>

lemma prev_hash_tip: "prev_hash db t i = ec.tip_of [] (chain db t i)"
  by (simp add: prev_hash_def ec.tip_of_def)

lemma prev_hash_nonempty:
  assumes "\<forall>m. c_mac cr key m \<noteq> []" "ec.valid cr key [] (chain db t i)"
  shows "prev_hash db t i = [] \<longleftrightarrow> chain db t i = []"
  unfolding prev_hash_tip using ec.tip_is_code [OF assms(2)] assms(1)
  by (metis ec.tip_of_simps(1))

lemma genesis_row_facts [simp]:
  "e_tenant (genesis_row v a oc) = a_tenant a" "e_inv (genesis_row v a oc) = a_inv a"
  "e_kind (genesis_row v a oc) = EVIDENCE_KIND_CHAIN_GENESIS"
  by (simp_all add: genesis_row_def Let_def)

lemma genesis_row_valid:
  "row_fault (v_crypto v) (v_key v) [] (genesis_row v a oc) = None"
  by (simp add: row_fault_None genesis_row_def Let_def)

lemma caller_row_facts [simp]:
  "e_tenant (caller_row v a k p oc h) = a_tenant a" "e_inv (caller_row v a k p oc h) = a_inv a"
  "e_kind (caller_row v a k p oc h) = k" "e_payload (caller_row v a k p oc h) = p"
  by (simp_all add: caller_row_def Let_def)

lemma caller_row_valid: "row_fault (v_crypto v) (v_key v) h (caller_row v a k p oc h) = None"
  by (cases h) (simp_all add: row_fault_None caller_row_def Let_def)

text \<open>The first write to a database without rows: the genesis row and the caller's.\<close>

lemma first_write:
  assumes "d_rows db = []" "k \<noteq> EVIDENCE_KIND_CHAIN_GENESIS"
    and "oc = (case a_occurred a of Some o' \<Rightarrow> o' | None \<Rightarrow> v_now v)"
    and "g = (genesis_row v a oc)\<lparr> e_id := d_next db \<rparr>"
  shows "d_rows (append_evidence v a k p db) =
      [g, (caller_row v a k p oc (e_signed g))\<lparr> e_id := d_next db + 1 \<rparr>]"
    and "d_anchors (append_evidence v a k p db) =
      (let b = bump_counter_and_resign (v_crypto v) (v_schema_ok v) (v_key v) (a_tenant a) (a_inv a)
       in b (b (d_anchors db)))"
proof -
  have p0: "prev_hash db (a_tenant a) (a_inv a) = []"
    using assms(1) by (simp add: prev_hash_def chain_def)
  have g1: "ensure_genesis v a k oc db = insert_row (genesis_row v a oc) v db"
    using assms(2) p0 by (simp add: ensure_genesis_def)
  have p1: "prev_hash (insert_row (genesis_row v a oc) v db) (a_tenant a) (a_inv a) = e_signed g"
    using assms(1,4) by (simp add: prev_hash_def chain_def insert_row_def)
  have step: "append_evidence v a k p db = insert_row (caller_row v a k p oc (e_signed g)) v
      (insert_row (genesis_row v a oc) v db)"
    by (simp add: append_evidence_def Let_def assms(3) [symmetric] g1 p1)
  show "d_rows (append_evidence v a k p db) =
      [g, (caller_row v a k p oc (e_signed g))\<lparr> e_id := d_next db + 1 \<rparr>]"
    using assms(1,4) by (simp add: step insert_row_def)
  show "d_anchors (append_evidence v a k p db) =
      (let b = bump_counter_and_resign (v_crypto v) (v_schema_ok v) (v_key v) (a_tenant a) (a_inv a)
       in b (b (d_anchors db)))"
    by (simp add: step insert_row_def Let_def)
qed

text \<open>The environment of a sound deployment: one key, codes never empty, schema in place.\<close>

definition sound_env :: "crypto \<Rightarrow> string \<Rightarrow> evidence_env \<Rightarrow> bool" where
  "sound_env cr key v = (v_crypto v = cr \<and> v_key v = key \<and> v_schema_ok v)"

lemma ensure_genesis_inv:
  fixes k :: string and oc :: instant
  assumes "sound_env cr key v" "\<forall>m. c_mac cr key m \<noteq> []" "db_wf db"
    and "chain_inv cr key db (a_tenant a) (a_inv a)"
  defines "db1 \<equiv> ensure_genesis v a k oc db"
  shows "db_wf db1" "chain_inv cr key db1 (a_tenant a) (a_inv a)"
    and "chain db1 (a_tenant a) (a_inv a) = [] \<Longrightarrow> k = EVIDENCE_KIND_CHAIN_GENESIS"
    and "(t, i) \<noteq> (a_tenant a, a_inv a) \<Longrightarrow> chain_inv cr key db1 t i = chain_inv cr key db t i"
    and "(t, i) \<noteq> (a_tenant a, a_inv a) \<Longrightarrow> chain db1 t i = chain db t i"
proof -
  have pv: "prev_hash db (a_tenant a) (a_inv a) = [] \<longleftrightarrow> chain db (a_tenant a) (a_inv a) = []"
    using assms(2,4) by (intro prev_hash_nonempty) (auto simp: chain_inv_def)
  show "db_wf db1" using assms(3) by (simp add: db1_def ensure_genesis_def insert_row_wf)
  show "chain_inv cr key db1 (a_tenant a) (a_inv a)"
    using assms(1-4) pv genesis_row_valid [of v a oc]
    by (auto simp: db1_def ensure_genesis_def sound_env_def intro!: insert_row_inv)
  show "k = EVIDENCE_KIND_CHAIN_GENESIS" if "chain db1 (a_tenant a) (a_inv a) = []"
    using that pv assms(3) by (auto simp: db1_def ensure_genesis_def insert_row_chain split: if_splits)
  show "chain_inv cr key db1 t i = chain_inv cr key db t i" if "(t, i) \<noteq> (a_tenant a, a_inv a)"
    using that assms(3) by (simp add: db1_def ensure_genesis_def insert_row_other)
  show "chain db1 t i = chain db t i" if "(t, i) \<noteq> (a_tenant a, a_inv a)"
    using that assms(3) by (auto simp: db1_def ensure_genesis_def insert_row_chain)
qed

lemma append_evidence_inv:
  assumes "sound_env cr key v" "\<forall>m. c_mac cr key m \<noteq> []" "db_wf db"
    and "chain_inv cr key db (a_tenant a) (a_inv a)"
  shows "db_wf (append_evidence v a k p db)"
    "chain_inv cr key (append_evidence v a k p db) (a_tenant a) (a_inv a)"
    "(t, i) \<noteq> (a_tenant a, a_inv a) \<Longrightarrow>
       chain_inv cr key (append_evidence v a k p db) t i = chain_inv cr key db t i"
proof -
  define oc where "oc = (case a_occurred a of Some o' \<Rightarrow> o' | None \<Rightarrow> v_now v)"
  note g = ensure_genesis_inv [OF assms, where k = k and oc = oc]
  let ?db1 = "ensure_genesis v a k oc db"
  let ?h = "prev_hash ?db1 (a_tenant a) (a_inv a)"
  have step: "append_evidence v a k p db = insert_row (caller_row v a k p oc ?h) v ?db1"
    by (simp add: append_evidence_def oc_def Let_def)
  show "db_wf (append_evidence v a k p db)" using g(1) by (simp add: step insert_row_wf)
  show "chain_inv cr key (append_evidence v a k p db) (a_tenant a) (a_inv a)"
    unfolding step using g(1-3) assms(1) caller_row_valid [of v ?h a k p oc]
    by (intro insert_row_inv) (auto simp: sound_env_def prev_hash_tip)
  show "chain_inv cr key (append_evidence v a k p db) t i = chain_inv cr key db t i"
    if "(t, i) \<noteq> (a_tenant a, a_inv a)"
    unfolding step using insert_row_other [OF g(1)] g(4) [OF that] that by simp
qed

lemma record_evidence_inv:
  assumes "sound_env cr key v" "\<forall>m. c_mac cr key m \<noteq> []" "db_wf db" "\<forall>t i. chain_inv cr key db t i"
  shows "db_wf (snd (record_evidence v a db)) \<and> (\<forall>t i. chain_inv cr key (snd (record_evidence v a db)) t i)"
proof (cases "check_payload_size (v_max_bytes v) (Some (redact_payload (v_hook v) (v_extra_keys v) (a_payload a)))")
  case (Inr n)
  show ?thesis
  proof (intro conjI allI)
    fix t i
    show "chain_inv cr key (snd (record_evidence v a db)) t i"
      using append_evidence_inv(2) [OF assms(1-3), where a = a]
        append_evidence_inv(3) [OF assms(1-3), where a = a and t = t and i = i] assms(4) Inr
      by (cases "(t, i) = (a_tenant a, a_inv a)") (auto simp: record_evidence_def Let_def)
  qed (use append_evidence_inv(1) [OF assms(1-3)] assms(4) Inr in \<open>simp add: record_evidence_def Let_def\<close>)
qed (use assms in \<open>simp add: record_evidence_def Let_def\<close>)

text \<open>A history of writes, each under its own environment.\<close>

definition record_all :: "(evidence_env \<times> evidence_args) list \<Rightarrow> evidence_db \<Rightarrow> evidence_db" where
  "record_all ws db = fold (\<lambda>(v, a) d. snd (record_evidence v a d)) ws db"

lemma record_all_inv:
  assumes "\<forall>w\<in>set ws. sound_env cr key (fst w)" "\<forall>m. c_mac cr key m \<noteq> []" "db_wf db"
    "\<forall>t i. chain_inv cr key db t i"
  shows "db_wf (record_all ws db) \<and> (\<forall>t i. chain_inv cr key (record_all ws db) t i)"
  using assms(1,3,4)
proof (induction ws arbitrary: db)
  case (Cons w ws)
  obtain v a where w: "w = (v, a)" by (cases w)
  have "db_wf (snd (record_evidence v a db)) \<and> (\<forall>t i. chain_inv cr key (snd (record_evidence v a db)) t i)"
    using Cons.prems w assms(2) by (intro record_evidence_inv) auto
  then show ?case using Cons.IH [of "snd (record_evidence v a db)"] Cons.prems w
    by (simp add: record_all_def)
qed (simp add: record_all_def)

end
