(* ===== verification/EvidenceProps.thy ===== *)
theory EvidenceProps
  imports EvidenceFacts
begin

text \<open>
  The properties of the evidence chain: what a history of writes guarantees, what
  \<open>verify_chain\<close> accepts, which tampering it catches up to an explicit collision,
  and which it does not catch.
\<close>

section \<open>Concrete codes for the witnesses\<close>

definition toy_escape :: "char \<Rightarrow> string" where
  "toy_escape c = (if c = CHR ''|'' then ''~1'' else if c = CHR ''~'' then ''~0'' else [c])"

lemma toy_escape_inject: "concat (map toy_escape m) = concat (map toy_escape m') \<Longrightarrow> m = m'"
proof (induction m arbitrary: m')
  case Nil
  then show ?case by (cases m') (simp_all add: toy_escape_def split: if_splits)
next
  case (Cons c m)
  then obtain d ds where m': "m' = d # ds" by (cases m') (simp_all add: toy_escape_def split: if_splits)
  have head: "c = d \<and> u = v" if "toy_escape c @ u = toy_escape d @ v" for u v
    using that by (auto simp: toy_escape_def split: if_splits)
  have "c = d \<and> concat (map toy_escape m) = concat (map toy_escape ds)"
    using Cons.prems by (intro head) (simp add: m')
  with m' Cons.IH show ?case by blast
qed

definition toy_crypto :: crypto where
  "toy_crypto = \<lparr> c_sha = (\<lambda>s. CHR ''h'' # s),
     c_mac = (\<lambda>k m. CHR ''m'' # concat (map toy_escape m)),
     c_iso = (\<lambda>n. ''now'') \<rparr>"

definition toy_env :: evidence_env where
  "toy_env = \<lparr> v_crypto = toy_crypto, v_key = ''k'', v_key_id = ''k1'',
     v_kinds = [''prompt'', ''chain_genesis''], v_hook = Some, v_extra_keys = [],
     v_max_bytes = 100, v_schema_ok = True, v_now = 7 \<rparr>"

definition toy_args :: "json \<Rightarrow> evidence_args" where
  "toy_args p = \<lparr> a_tenant = ''t'', a_inv = 1, a_kind = ''prompt'', a_payload = p, a_role = None,
     a_source = None, a_occurred = None, a_classes = None, a_corr = None, a_parent = None,
     a_span = None, a_retention = None, a_evaluator = None \<rparr>"

definition fresh_db :: evidence_db where
  "fresh_db = \<lparr> d_rows = [], d_anchors = [((''t'', 1), (None, None))], d_next = 1 \<rparr>"

lemma toy_mac: "c_mac toy_crypto k m \<noteq> [] \<and> CHR ''|'' \<notin> set (c_mac toy_crypto k m)"
  by (auto simp: toy_crypto_def toy_escape_def split: if_splits)

lemma toy_sound: "sound_env toy_crypto ''k'' toy_env"
  by (simp add: sound_env_def toy_env_def)

lemma fresh_inv: "db_wf fresh_db \<and> (\<forall>t i. chain_inv cr key fresh_db t i)"
  by (simp add: db_wf_def fresh_db_def chain_inv_def chain_def)

definition toy_write :: "json \<Rightarrow> evidence_db" where
  "toy_write p = record_all [(toy_env, toy_args p)] fresh_db"

definition toy_rows :: "json \<Rightarrow> evidence_row list" where
  "toy_rows p =
     (let g = (genesis_row toy_env (toy_args p) 7)\<lparr> e_id := 1 \<rparr>
      in [g, (caller_row toy_env (toy_args p) ''prompt'' p 7 (e_signed g))\<lparr> e_id := 2 \<rparr>])"

lemma toy_write_rows:
  assumes "check_payload_size 100 (Some p) = Inr n" "redact_payload Some [] p = p"
  shows "d_rows (toy_write p) = toy_rows p"
    "d_anchors (toy_write p) =
      [((''t'', 1), (Some 2, Some (counter_signature toy_crypto ''k'' ''t'' 1 2)))]"
proof -
  have w: "toy_write p = append_evidence toy_env (toy_args p) ''prompt'' p fresh_db"
    using assms by (simp add: toy_write_def record_all_def record_evidence_def Let_def toy_env_def
        toy_args_def coerce_evidence_kind_def)
  have k: "''prompt'' \<noteq> EVIDENCE_KIND_CHAIN_GENESIS" by (simp add: EVIDENCE_KIND_CHAIN_GENESIS_def)
  have e: "d_rows fresh_db = []" "7 = (case a_occurred (toy_args p) of Some o' \<Rightarrow> o' | None \<Rightarrow> v_now toy_env)"
    by (simp_all add: fresh_db_def toy_args_def toy_env_def)
  show "d_rows (toy_write p) = toy_rows p"
    unfolding w first_write(1) [OF e(1) k e(2) refl] toy_rows_def
    by (simp add: Let_def fresh_db_def)
  show "d_anchors (toy_write p) =
      [((''t'', 1), (Some 2, Some (counter_signature toy_crypto ''k'' ''t'' 1 2)))]"
    unfolding w first_write(2) [OF e(1) k e(2) refl]
    by (simp add: Let_def fresh_db_def bump_counter_and_resign_def toy_env_def toy_args_def)
qed

lemma toy_chain:
  assumes "check_payload_size 100 (Some p) = Inr n" "redact_payload Some [] p = p"
  shows "chain (toy_write p) ''t'' 1 = toy_rows p"
proof -
  have t: "a_tenant (toy_args p) = ''t''" "a_inv (toy_args p) = 1" by (simp_all add: toy_args_def)
  show ?thesis
    by (simp add: chain_def toy_write_rows(1) [OF assms]) (simp add: toy_rows_def Let_def t)
qed

lemma toy_write_inv: "db_wf (toy_write p) \<and> (\<forall>t i. chain_inv toy_crypto ''k'' (toy_write p) t i)"
  unfolding toy_write_def using fresh_inv toy_mac toy_sound by (intro record_all_inv) auto

lemma toy_write_verifies: "r_valid (verify_chain toy_crypto ''k'' AnchorFull (toy_write p) ''t'' 1)"
  using toy_write_inv chain_inv_verifies by blast

lemma toy_five: "check_payload_size 100 (Some (JInt 5)) = Inr 1" "redact_payload Some [] (JInt 5) = JInt 5"
  by code_simp+

abbreviation toy_db :: evidence_db where "toy_db \<equiv> toy_write (JInt 5)"

lemma toy_anchor:
  "map_of (d_anchors toy_db) (''t'', 1) = Some (Some 2, Some (counter_signature toy_crypto ''k'' ''t'' 1 2))"
  by (simp add: toy_write_rows(2) [OF toy_five])

lemma toy_length: "length (chain toy_db ''t'' 1) = 2"
  by (simp add: toy_chain [OF toy_five] toy_rows_def Let_def)

lemma toy_ids: "distinct (map e_id (d_rows toy_db))"
  by (simp add: toy_write_rows(1) [OF toy_five] toy_rows_def Let_def)

lemma toy_payload: "e_payload (last (chain toy_db ''t'' 1)) = JInt 5"
  by (simp add: toy_chain [OF toy_five] toy_rows_def Let_def)

lemma toy_last: "last (chain toy_db ''t'' 1) \<in> set (chain toy_db ''t'' 1)"
  using toy_length by (intro last_in_set) auto

section \<open>Recording\<close>

text \<open>C2. Every history of writes, to any chains, under one key and an installed
schema, from a database without rows, leaves every chain of every tenant
verifiable: \<open>verify_chain\<close> reports it valid and its anchors consistent.\<close>
theorem recorded_chains_verify:
  assumes "\<forall>w\<in>set ws. sound_env cr key (fst w)" "\<forall>m. c_mac cr key m \<noteq> []"
    and "d_rows db = []" "\<forall>k v. map_of (d_anchors db) k = Some v \<longrightarrow> v = (None, None)"
  shows "r_valid (verify_chain cr key AnchorFull (record_all ws db) t i)
     \<and> db_wf (record_all ws db)"
proof -
  have "chain_inv cr key db t i" for t i
    using assms(3) assms(4) [rule_format, of "(t, i)"]
    by (auto simp: chain_inv_def chain_def split: option.split)
  then show ?thesis
    using record_all_inv [OF assms(1,2), of db] assms(3) chain_inv_verifies
    by (simp add: db_wf_def)
qed

theorem recorded_chains_verify_witness:
  "r_valid (verify_chain toy_crypto ''k'' AnchorFull toy_db ''t'' 1)"
  unfolding toy_write_def
  by (rule recorded_chains_verify [THEN conjunct1])
    (use toy_sound toy_mac in \<open>auto simp: fresh_db_def split: if_splits\<close>)

section \<open>Verification\<close>

text \<open>C3. \<open>verify_chain\<close> answers valid exactly when the anchor, if the invocation
has a count, carries a genuine signature, equals the number of rows and the first
row is the genesis; and every row, in id order, stores the hash of its payload,
the code of the row before it (the empty string for the first), and the code of
the two under the key.\<close>
theorem verify_chain_characterised:
  "r_valid (verify_chain cr key sch db t i) \<longleftrightarrow>
     (let rows = chain db t i; (expected, sig) = load_anchor sch (d_anchors db) t i in
        (\<forall>n. expected = Some n \<longrightarrow>
            sig = Some (counter_signature cr key t i n) \<and> n = int (length rows)
            \<and> (rows \<noteq> [] \<longrightarrow> e_kind (hd rows) = EVIDENCE_KIND_CHAIN_GENESIS))
      \<and> (\<forall>j < length rows.
            e_phash (rows ! j) = payload_hash cr (e_payload (rows ! j))
          \<and> or_else (e_prev (rows ! j)) [] = (if j = 0 then [] else e_signed (rows ! (j - 1)))
          \<and> e_signed (rows ! j) =
              hmac_sign cr key (if j = 0 then [] else e_signed (rows ! (j - 1))) (e_phash (rows ! j))))"
proof -
  have "ec.valid cr key [] rows \<longleftrightarrow> (\<forall>j < length rows.
            e_phash (rows ! j) = payload_hash cr (e_payload (rows ! j))
          \<and> or_else (e_prev (rows ! j)) [] = (if j = 0 then [] else e_signed (rows ! (j - 1)))
          \<and> e_signed (rows ! j) =
              hmac_sign cr key (if j = 0 then [] else e_signed (rows ! (j - 1))) (e_phash (rows ! j)))" for rows
    unfolding ec.valid_nth unfolding row_fault_None by (intro all_cong) (simp add: eq_commute conj_ac)
  then show ?thesis
    by (simp add: verify_valid_iff anchor_ok_def Let_def split: prod.split option.split)
qed

theorem verify_chain_characterised_witness:
  "e_phash (chain toy_db ''t'' 1 ! 1) = payload_hash toy_crypto (e_payload (chain toy_db ''t'' 1 ! 1))"
proof -
  have "\<forall>j < length (chain toy_db ''t'' 1). e_phash (chain toy_db ''t'' 1 ! j) =
     payload_hash toy_crypto (e_payload (chain toy_db ''t'' 1 ! j))"
    using toy_write_verifies [of "JInt 5"]
    unfolding verify_chain_characterised by (simp add: Let_def split: prod.splits)
  then show ?thesis by (simp add: toy_length)
qed

text \<open>Two rows whose signed messages differ and have one HMAC, and two rows whose stored
payloads have different canonical texts and one SHA-256 value.\<close>

definition row_message :: "evidence_row \<Rightarrow> string" where
  "row_message r = sign_message (or_else (e_prev r) []) (e_phash r)"

definition same_mac :: "crypto \<Rightarrow> string \<Rightarrow> evidence_row \<Rightarrow> evidence_row \<Rightarrow> bool" where
  "same_mac cr key r r' = (row_message r \<noteq> row_message r' \<and> c_mac cr key (row_message r) = c_mac cr key (row_message r'))"

definition same_digest :: "crypto \<Rightarrow> evidence_row \<Rightarrow> evidence_row \<Rightarrow> bool" where
  "same_digest cr r r' =
     (canonicalize (e_payload r) \<noteq> canonicalize (e_payload r')
      \<and> c_sha cr (canonicalize (e_payload r)) = c_sha cr (canonicalize (e_payload r')))"

text \<open>C6. An auditor who keeps only the last signed hash of a chain has fixed the
whole chain: any two chains that verify under the key and end in the same signed
hash have the same number of rows and the same payloads in the same order, up to
key order inside objects, unless the two chains themselves exhibit a collision: a row
of each, whose signed messages (previous code and payload hash) differ and have one HMAC
under the key, or whose canonical payloads differ and have one SHA-256 value. HMAC values
are taken to be non-empty texts without \<open>|\<close>, as hexadecimal digits are.\<close>
theorem last_hash_fixes_chain:
  assumes "\<forall>m. c_mac cr key m \<noteq> [] \<and> CHR ''|'' \<notin> set (c_mac cr key m)"
    and "r_valid (verify_chain cr key sch db t i)" "r_valid (verify_chain cr key sch' db' t' i')"
    and "prev_hash db t i = prev_hash db' t' i'"
  shows "map (\<lambda>r. sort_keys (canonical_default (e_payload r))) (chain db t i) =
         map (\<lambda>r. sort_keys (canonical_default (e_payload r))) (chain db' t' i')
     \<or> (\<exists>r \<in> set (chain db t i). \<exists>r' \<in> set (chain db' t' i'). same_mac cr key r r' \<or> same_digest cr r r')"
proof -
  have v: "ec.valid cr key [] (chain db t i)" "ec.valid cr key [] (chain db' t' i')"
    using assms(2,3) by (simp_all add: verify_valid_iff)
  have hash: "map e_phash rows = map (\<lambda>r. c_sha cr (canonicalize (e_payload r))) rows"
    if "ec.valid cr key [] rows" for rows
    using that unfolding ec.valid_nth
    by (auto simp: row_fault_None payload_hash_def in_set_conv_nth)
  from ec.tip_fixes_log [OF _ _ v] assms(1,4)
  consider "map e_phash (chain db t i) = map e_phash (chain db' t' i')"
    | "ec.collision cr key [] (chain db t i) (chain db' t' i')"
    by (auto simp: prev_hash_tip)
  then show ?thesis
  proof cases
    case 1
    then have "list_all2 (\<lambda>r r'. c_sha cr (canonicalize (e_payload r)) = c_sha cr (canonicalize (e_payload r')))
        (chain db t i) (chain db' t' i')"
      unfolding hash [OF v(1)] hash [OF v(2)] by (simp add: list.rel_eq [symmetric] list.rel_map)
    then have "list_all2 (\<lambda>r r'. sort_keys (canonical_default (e_payload r)) =
          sort_keys (canonical_default (e_payload r'))) (chain db t i) (chain db' t' i')
        \<or> (\<exists>r \<in> set (chain db t i). \<exists>r' \<in> set (chain db' t' i'). same_digest cr r r')"
      by (rule list_all2_or_pair) (auto simp: same_digest_def dest: canonical_bytes_inject)
    then show ?thesis by (auto simp: list.rel_eq [symmetric] list.rel_map)
  next
    case 2
    then show ?thesis
      unfolding ec.collision_def same_mac_def row_message_def
      using message_row [OF v(1)] message_row [OF v(2)] by blast
  qed
qed

abbreviation swapped_db :: evidence_db where
  "swapped_db \<equiv> toy_write (JObj [(''b'', JInt 1), (''a'', JInt 2)])"

abbreviation ordered_db :: evidence_db where
  "ordered_db \<equiv> toy_write (JObj [(''a'', JInt 2), (''b'', JInt 1)])"

lemma swapped_guards:
  "check_payload_size 100 (Some (JObj [(''b'', JInt 1), (''a'', JInt 2)])) = Inr 13"
  "redact_payload Some [] (JObj [(''b'', JInt 1), (''a'', JInt 2)]) = JObj [(''b'', JInt 1), (''a'', JInt 2)]"
  "check_payload_size 100 (Some (JObj [(''a'', JInt 2), (''b'', JInt 1)])) = Inr 13"
  "redact_payload Some [] (JObj [(''a'', JInt 2), (''b'', JInt 1)]) = JObj [(''a'', JInt 2), (''b'', JInt 1)]"
  by code_simp+

lemma swapped_hash:
  "payload_hash cr (JObj [(''b'', JInt 1), (''a'', JInt 2)]) = payload_hash cr (JObj [(''a'', JInt 2), (''b'', JInt 1)])"
  by (simp add: payload_hash_def canonicalize_def)

lemma swapped_tip: "prev_hash swapped_db ''t'' 1 = prev_hash ordered_db ''t'' 1"
  by (simp add: prev_hash_def toy_chain [OF swapped_guards(1,2)] toy_chain [OF swapped_guards(3,4)]
      toy_rows_def Let_def caller_row_def genesis_row_def toy_env_def toy_args_def swapped_hash)

theorem last_hash_fixes_chain_witness:
  "map (\<lambda>r. sort_keys (canonical_default (e_payload r))) (chain swapped_db ''t'' 1) =
     map (\<lambda>r. sort_keys (canonical_default (e_payload r))) (chain ordered_db ''t'' 1)"
proof -
  have "\<not> same_digest toy_crypto r r'" "\<not> same_mac toy_crypto ''k'' r r'" for r r'
    by (auto simp: same_digest_def same_mac_def toy_crypto_def dest: toy_escape_inject)
  then show ?thesis
    using last_hash_fixes_chain [OF _ toy_write_verifies toy_write_verifies swapped_tip] toy_mac by blast
qed

section \<open>Tampering that is caught\<close>

text \<open>Removing rows of an anchored chain is reported whatever rows are
removed: if the chain verified and its number of rows has changed while the
anchor has not, the result is invalid and names the count, or the wipe.\<close>
theorem deletion_detected:
  assumes "r_valid (verify_chain cr key AnchorFull db t i)"
    and "map_of (d_anchors db) (t, i) = Some (Some n, sig)"
    and "d_anchors db' = d_anchors db" "length (chain db' t i) \<noteq> length (chain db t i)"
  shows "\<not> r_valid (verify_chain cr key AnchorFull db' t i)
     \<and> r_reason (verify_chain cr key AnchorFull db' t i) =
         Some (if chain db' t i = [] then ChainWiped n else CountMismatch n (length (chain db' t i)))"
proof -
  have "sig = Some (counter_signature cr key t i n)" "n = int (length (chain db t i))"
    using assms(1,2) by (auto simp: verify_valid_iff load_anchor_def anchor_ok_def)
  then have "load_anchor AnchorFull (d_anchors db') t i = (Some n, Some (counter_signature cr key t i n))"
    "n \<noteq> int (length (chain db' t i))"
    using assms(2-4) by (simp_all add: load_anchor_def)
  then show ?thesis using verify_reason_count by blast
qed

theorem deletion_detected_witness:
  "r_reason (verify_chain toy_crypto ''k'' AnchorFull (toy_db\<lparr> d_rows := [] \<rparr>) ''t'' 1) = Some (ChainWiped 2)"
proof -
  have gone: "chain (toy_db\<lparr> d_rows := [] \<rparr>) ''t'' 1 = []" by (simp add: chain_def)
  then have "length (chain (toy_db\<lparr> d_rows := [] \<rparr>) ''t'' 1) \<noteq> length (chain toy_db ''t'' 1)"
    by (simp only: toy_length) simp
  from deletion_detected [OF toy_write_verifies toy_anchor _ this] gone show ?thesis by simp
qed

text \<open>The counter's signature cannot be moved: one string that is the genuine
signature of two different (tenant, invocation, count) triples means that the canonical
texts of the two, which differ, have one SHA-256 value, or that the messages signed for
them have one HMAC. Rewriting the count
next to a signature issued for another count is therefore reported.\<close>
theorem counter_signature_binds:
  fixes cr t i n t' i' n'
  defines "x \<equiv> canonicalize (counter_payload t i n)" and "x' \<equiv> canonicalize (counter_payload t' i' n')"
  assumes "counter_signature cr key t i n = counter_signature cr key t' i' n'"
  shows "(t, i, n) = (t', i', n')
     \<or> x \<noteq> x' \<and> c_sha cr x = c_sha cr x'
     \<or> c_sha cr x \<noteq> c_sha cr x' \<and>
       c_mac cr key (sign_message [] (c_sha cr x)) = c_mac cr key (sign_message [] (c_sha cr x'))"
proof (cases "c_sha cr x = c_sha cr x' \<and> x = x'")
  case True
  then have "sort_keys (canonical_default (counter_payload t i n)) =
      sort_keys (canonical_default (counter_payload t' i' n'))"
    unfolding x_def x'_def by (intro canonical_bytes_inject) blast
  then show ?thesis by (simp add: counter_payload_def)
qed (use assms in \<open>auto simp: counter_signature_def hmac_sign_def payload_hash_def\<close>)

theorem counter_signature_binds_witness:
  "(''t'', 1::int, 2::int) = (''t'', 1, 2)
     \<or> canonicalize (counter_payload ''t'' 1 2) \<noteq> canonicalize (counter_payload ''t'' 1 2)"
  using counter_signature_binds [of toy_crypto "''k''" "''t''" 1 2 "''t''" 1 2] by simp

text \<open>Editing what a row attests is caught at that row: replacing the payload
of one row by one with other canonical bytes makes the result invalid, with the
reason that the payload was modified, unless SHA-256 collides on the two.\<close>
theorem payload_edit_detected:
  assumes "db_wf db" "r_valid (verify_chain cr key sch db t i)"
    and "r \<in> set (chain db t i)" "canonicalize q \<noteq> canonicalize (e_payload r)"
    and "distinct (map e_id (d_rows db))"
  shows "let db' = db\<lparr> d_rows := map_where (\<lambda>x. e_id x = e_id r) (\<lambda>x. x\<lparr> e_payload := q \<rparr>) (d_rows db) \<rparr> in
     (\<not> r_valid (verify_chain cr key sch db' t i)
       \<and> r_broken_at (verify_chain cr key sch db' t i) = Some (e_id r)
       \<and> r_reason (verify_chain cr key sch db' t i) = Some PayloadModified)
     \<or> c_sha cr (canonicalize q) = c_sha cr (canonicalize (e_payload r))"
proof -
  let ?ed = "\<lambda>x. if e_id x = e_id r then x\<lparr> e_payload := q \<rparr> else x"
  let ?db = "db\<lparr> d_rows := map ?ed (d_rows db) \<rparr>"
  have ch: "chain ?db t i = map ?ed (chain db t i)"
    by (rule map_rows_chain [OF assms(1)]) simp
  obtain xs ys where split: "chain db t i = xs @ r # ys" using assms(3) by (meson split_list)
  have "distinct (map e_id (chain db t i))"
    using assms(5) chain_wf [OF assms(1)] by (simp add: distinct_map_filter)
  then have same: "map ?ed xs = xs" "map ?ed ys = ys"
    using split by (auto intro!: map_idI) (metis image_eqI)+
  have ch': "chain ?db t i = xs @ r\<lparr> e_payload := q \<rparr> # ys" using ch split same by simp
  have v: "ec.valid cr key [] (xs @ r # ys)" using assms(2) split by (simp add: verify_valid_iff)
  then have xs: "walk_rows cr key [] xs = None" and "row_fault cr key (ec.tip_of [] xs) r = None"
    by (simp_all add: ec.valid_append walk_valid)
  then have r: "payload_hash cr (e_payload r) = e_phash r" by (simp add: row_fault_None)
  show ?thesis
  proof (cases "payload_hash cr q = e_phash r")
    case True
    with r have "c_sha cr (canonicalize q) = c_sha cr (canonicalize (e_payload r))"
      by (simp add: payload_hash_def)
    then show ?thesis by (simp add: Let_def)
  next
    case False
    then have w: "walk_rows cr key [] (chain ?db t i) = Some (r\<lparr> e_payload := q \<rparr>, PayloadModified)"
      by (simp add: ch' walk_append xs row_fault_def)
    have len: "length (chain ?db t i) = length (chain db t i)" using ch by simp
    have hd: "chain db t i \<noteq> [] \<Longrightarrow> e_kind (hd (chain ?db t i)) = e_kind (hd (chain db t i))"
      using ch by (simp add: hd_map)
    obtain ex sig where la: "load_anchor sch (d_anchors db) t i = (ex, sig)" by fastforce
    have ne: "chain db t i \<noteq> []" "chain ?db t i \<noteq> []" using split ch' by auto
    have "anchor_ok cr key t i ex sig (chain db t i)" using assms(2) la by (simp add: verify_valid_iff)
    then have "verify_chain cr key sch ?db t i = \<lparr> r_valid = False, r_broken_at = Some (e_id r),
        r_checked = e_id r, r_reason = Some PayloadModified, r_expected = ex,
        r_signature_ok = (case ex of None \<Rightarrow> None | Some _ \<Rightarrow> Some True) \<rparr>"
      using la w ne len hd
      by (cases ex) (auto simp: verify_chain_def check_counter_signature_def check_count_def anchor_ok_def)
    then show ?thesis by (simp add: Let_def map_where_def)
  qed
qed

theorem payload_edit_detected_witness:
  "let r = last (chain toy_db ''t'' 1); db' = toy_db\<lparr> d_rows := map_where (\<lambda>x. e_id x = e_id r)
         (\<lambda>x. x\<lparr> e_payload := JInt 6 \<rparr>) (d_rows toy_db) \<rparr> in
     r_reason (verify_chain toy_crypto ''k'' AnchorFull db' ''t'' 1) = Some PayloadModified"
proof -
  have ne: "canonicalize (JInt 6) \<noteq> canonicalize (e_payload (last (chain toy_db ''t'' 1)))"
    using canonical_bytes_inject by (fastforce simp: toy_payload)
  then have "c_sha toy_crypto (canonicalize (JInt 6)) \<noteq> c_sha toy_crypto (canonicalize (e_payload (last (chain toy_db ''t'' 1))))"
    by (simp add: toy_crypto_def)
  with ne payload_edit_detected [OF _ toy_write_verifies toy_last ne toy_ids] toy_write_inv
  show ?thesis by (simp only: Let_def) blast
qed

section \<open>Tampering that is not caught\<close>

text \<open>Clearing the count switches every anchor off: on a chain that verifies,
deleting any number of rows from the end and setting the invocation's count and
signature to NULL, with no key, yields a chain that verifies again.\<close>
theorem null_count_hides_truncation:
  assumes "db_wf db" "r_valid (verify_chain cr key sch db t i)"
    and "chain db' t i = take m (chain db t i)" "map_of (d_anchors db') (t, i) = Some (None, None)"
  shows "r_valid (verify_chain cr key AnchorFull db' t i)"
  using assms by (simp add: verify_valid_iff load_anchor_def anchor_ok_def ec.valid_take)

theorem null_count_hides_truncation_witness:
  "r_valid (verify_chain toy_crypto ''k'' AnchorFull
     (toy_db\<lparr> d_rows := [], d_anchors := [((''t'', 1), (None, None))] \<rparr>) ''t'' 1)"
  by (rule null_count_hides_truncation [OF _ toy_write_verifies, where m = 0])
    (use toy_write_inv in \<open>simp_all add: chain_def\<close>)

text \<open>The code of a row covers its payload and its predecessor only: rewriting
kind, role, evaluator, source, times, retention, correlation or key id of rows
after the first changes nothing in the result of verification.\<close>
theorem metadata_not_covered:
  assumes "chain db' t i = map f (chain db t i)" "d_anchors db' = d_anchors db"
    and "\<And>r. e_id (f r) = e_id r \<and> e_payload (f r) = e_payload r \<and> e_phash (f r) = e_phash r
           \<and> e_prev (f r) = e_prev r \<and> e_signed (f r) = e_signed r"
    and "chain db t i \<noteq> [] \<longrightarrow> e_kind (f (hd (chain db t i))) = e_kind (hd (chain db t i))"
  shows "verify_chain cr key sch db' t i = verify_chain cr key sch db t i"
proof -
  have fault: "row_fault cr key h (f r) = row_fault cr key h r" for h r
    using assms(3) by (simp add: row_fault_def)
  have walk: "walk_rows cr key h (map f rs) = map_option (map_prod f id) (walk_rows cr key h rs)" for h rs
    using assms(3) by (induction rs arbitrary: h) (auto simp: fault split: option.split)
  have cnt: "check_count (chain db' t i) ex sg = check_count (chain db t i) ex sg" for ex sg
    using assms(1,3,4) by (cases "chain db t i") (auto simp: check_count_def)
  show ?thesis
    using assms(3)
    by (simp add: verify_chain_def assms(1,2) cnt [unfolded assms(1)] walk split: prod.split sum.split option.split)
qed

theorem metadata_not_covered_witness:
  "verify_chain toy_crypto ''k'' AnchorFull
     (toy_db\<lparr> d_rows := map (\<lambda>r. r\<lparr> e_evaluator := Some ''other'' \<rparr>) (d_rows toy_db) \<rparr>) ''t'' 1 =
   verify_chain toy_crypto ''k'' AnchorFull toy_db ''t'' 1"
  by (rule metadata_not_covered [where f = "\<lambda>r. r\<lparr> e_evaluator := Some ''other'' \<rparr>"])
    (use toy_write_inv in \<open>simp_all add: map_rows_chain\<close>)

text \<open>Verification does not look at what the genesis row says: the rows of a
verified chain of another invocation, or tenant, verify in place of this one's,
if this invocation's signed count happens to equal their number.\<close>
theorem transplant_not_detected:
  assumes "r_valid (verify_chain cr key AnchorFull db t i)"
    and "map_of (d_anchors db) (t, i) = Some (Some n, sig)"
    and "chain db' t' i' = map (\<lambda>r. r\<lparr> e_tenant := t', e_inv := i' \<rparr>) (chain db t i)"
    and "map_of (d_anchors db') (t', i') = Some (Some n, Some (counter_signature cr key t' i' n))"
  shows "r_valid (verify_chain cr key AnchorFull db' t' i')"
proof -
  let ?f = "\<lambda>r. r\<lparr> e_tenant := t', e_inv := i' \<rparr>"
  have v: "ec.valid cr key h (map ?f rs) = ec.valid cr key h rs" for h rs
    by (rule valid_map) (simp_all add: row_fault_def)
  have "ec.valid cr key [] (chain db' t' i')"
    using assms(1) unfolding assms(3) v by (simp add: verify_valid_iff)
  then show ?thesis
    using assms by (auto simp: verify_valid_iff load_anchor_def anchor_ok_def hd_map)
qed

theorem transplant_not_detected_witness:
  "r_valid (verify_chain toy_crypto ''k'' AnchorFull
     \<lparr> d_rows = map (\<lambda>r. r\<lparr> e_tenant := ''other'', e_inv := 9 \<rparr>) (d_rows toy_db),
        d_anchors = [((''other'', 9), (Some 2, Some (counter_signature toy_crypto ''k'' ''other'' 9 2)))],
        d_next = 3 \<rparr> ''other'' 9)"
  by (rule transplant_not_detected [OF toy_write_verifies [of "JInt 5"] toy_anchor])
    (simp_all add: toy_chain [OF toy_five], simp add: chain_def toy_write_rows(1) [OF toy_five] toy_rows_def Let_def)

section \<open>Retention and migration\<close>

lemma prune_chain:
  assumes "db_wf db"
  shows "chain (snd (prune_expired_evidence now who db)) t i =
     filter (\<lambda>r. \<not> expired_row now who r) (chain db t i)"
proof -
  have "db_wf (snd (prune_expired_evidence now who db))"
    using assms by (auto simp: db_wf_def prune_expired_evidence_def list_all_iff sorted_filter)
  from chain_wf [OF this] chain_wf [OF assms] show ?thesis
    by (simp add: prune_expired_evidence_def conj_commute)
qed

text \<open>After the retention sweep removes rows of an anchored chain, verification
reports the chain as tampered by its row count (or as wiped), never as the
break of the previous hash that the module describes as a clean cut; the sweep
removes exactly the rows whose retention has passed, of the tenant asked for.\<close>
theorem prune_reports_tampering:
  assumes "db_wf db" "r_valid (verify_chain cr key AnchorFull db t i)"
    and "map_of (d_anchors db) (t, i) = Some (Some n, sig)"
    and "\<exists>r\<in>set (chain db t i). expired_row now who r"
  shows "let db' = snd (prune_expired_evidence now who db) in
     chain db' t i = filter (\<lambda>r. \<not> expired_row now who r) (chain db t i)
   \<and> \<not> r_valid (verify_chain cr key AnchorFull db' t i)
   \<and> r_reason (verify_chain cr key AnchorFull db' t i) =
       Some (if chain db' t i = [] then ChainWiped n else CountMismatch n (length (chain db' t i)))"
proof -
  let ?db = "snd (prune_expired_evidence now who db)"
  have la: "load_anchor AnchorFull (d_anchors ?db) t i = (Some n, Some (counter_signature cr key t i n))"
    and n: "n = int (length (chain db t i))"
    using assms(2,3) by (auto simp: verify_valid_iff load_anchor_def anchor_ok_def prune_expired_evidence_def)
  have "length (chain ?db t i) < length (chain db t i)"
    using assms(4) length_filter_less [of _ "chain db t i"] by (auto simp: prune_chain [OF assms(1)])
  then have "n \<noteq> int (length (chain ?db t i))" using n by simp
  with verify_reason_count [OF la this] prune_chain [OF assms(1)] show ?thesis by (simp add: Let_def)
qed

definition expiring_db :: evidence_db where
  "expiring_db = toy_db\<lparr> d_rows := map (\<lambda>r. r\<lparr> e_retention := Some 3 \<rparr>) (d_rows toy_db) \<rparr>"

lemma expiring_verifies: "db_wf expiring_db"
  "r_valid (verify_chain toy_crypto ''k'' AnchorFull expiring_db ''t'' 1)"
  "map_of (d_anchors expiring_db) (''t'', 1) = Some (Some 2, Some (counter_signature toy_crypto ''k'' ''t'' 1 2))"
  "chain expiring_db ''t'' 1 = map (\<lambda>r. r\<lparr> e_retention := Some 3 \<rparr>) (toy_rows (JInt 5))"
proof -
  let ?f = "\<lambda>r. r\<lparr> e_retention := Some 3 \<rparr>"
  show "db_wf expiring_db" unfolding expiring_db_def using toy_write_inv by (intro map_rows_wf) auto
  show ch: "chain expiring_db ''t'' 1 = map ?f (toy_rows (JInt 5))"
    unfolding expiring_db_def using toy_write_inv by (subst map_rows_chain) (auto simp: toy_chain [OF toy_five])
  show an: "map_of (d_anchors expiring_db) (''t'', 1) =
      Some (Some 2, Some (counter_signature toy_crypto ''k'' ''t'' 1 2))"
    using toy_anchor by (simp add: expiring_db_def)
  have v: "ec.valid cr key h (map ?f rs) = ec.valid cr key h rs" for cr key h rs
    by (rule valid_map) (simp_all add: row_fault_def)
  show "r_valid (verify_chain toy_crypto ''k'' AnchorFull expiring_db ''t'' 1)"
    using toy_write_verifies [of "JInt 5"] an
    by (simp add: verify_valid_iff load_anchor_def ch toy_chain [OF toy_five] v toy_anchor anchor_ok_def)
      (simp add: toy_rows_def Let_def)
qed

theorem prune_reports_tampering_witness:
  "r_reason (verify_chain toy_crypto ''k'' AnchorFull
      (snd (prune_expired_evidence 5 None expiring_db)) ''t'' 1) = Some (ChainWiped 2)"
proof -
  have old: "\<forall>r\<in>set (chain expiring_db ''t'' 1). expired_row 5 None r"
    by (simp add: expiring_verifies(4) expired_row_def)
  then have "\<exists>r\<in>set (chain expiring_db ''t'' 1). expired_row 5 None r"
    by (simp add: expiring_verifies(4) toy_rows_def Let_def)
  from prune_reports_tampering [OF expiring_verifies(1-3) this]
  have "r_reason (verify_chain toy_crypto ''k'' AnchorFull (snd (prune_expired_evidence 5 None expiring_db)) ''t'' 1)
      = Some (if filter (\<lambda>r. \<not> expired_row 5 None r) (chain expiring_db ''t'' 1) = []
              then ChainWiped 2
              else CountMismatch 2 (length (filter (\<lambda>r. \<not> expired_row 5 None r) (chain expiring_db ''t'' 1))))"
    by (simp add: Let_def)
  moreover have "filter (\<lambda>r. \<not> expired_row 5 None r) (chain expiring_db ''t'' 1) = []"
    using old by simp
  ultimately show ?thesis by simp
qed

text \<open>A chain written before the count column existed is reported as tampered as
soon as it grows: the first write after the migration takes the NULL count for
zero and signs one, while the rows are all there.\<close>
theorem legacy_chain_false_alarm:
  assumes "sound_env cr key v" "\<forall>m. c_mac cr key m \<noteq> []" "db_wf db"
    and "ec.valid cr key [] (chain db (a_tenant a) (a_inv a))" "chain db (a_tenant a) (a_inv a) \<noteq> []"
    and "map_of (d_anchors db) (a_tenant a, a_inv a) = Some (None, None)"
  shows "r_valid (verify_chain cr key AnchorFull db (a_tenant a) (a_inv a))
     \<and> r_reason (verify_chain cr key AnchorFull (append_evidence v a k p db) (a_tenant a) (a_inv a)) =
         Some (CountMismatch 1 (Suc (length (chain db (a_tenant a) (a_inv a)))))"
proof -
  let ?t = "a_tenant a" and ?i = "a_inv a"
  have "prev_hash db ?t ?i \<noteq> []"
    using prev_hash_nonempty [OF assms(2,4)] assms(5) by simp
  then obtain r where r: "append_evidence v a k p db = insert_row r v db" "e_tenant r = ?t" "e_inv r = ?i"
    by (auto simp: append_evidence_def ensure_genesis_def Let_def)
  have ch: "chain (append_evidence v a k p db) ?t ?i = chain db ?t ?i @ [r\<lparr> e_id := d_next db \<rparr>]"
    using assms(3) r by (simp add: insert_row_chain)
  have "map_of (d_anchors (append_evidence v a k p db)) (?t, ?i) =
      Some (Some 1, Some (counter_signature cr key ?t ?i 1))"
    using assms(1,6) r by (simp add: insert_row_def sound_env_def bump_same)
  then have "load_anchor AnchorFull (d_anchors (append_evidence v a k p db)) ?t ?i =
      (Some 1, Some (counter_signature cr key ?t ?i 1))"
    by (simp add: load_anchor_def)
  from verify_reason_count(1) [OF this] ch assms(5)
  have "r_reason (verify_chain cr key AnchorFull (append_evidence v a k p db) ?t ?i) =
         Some (CountMismatch 1 (Suc (length (chain db ?t ?i))))"
    by simp
  moreover have "r_valid (verify_chain cr key AnchorFull db ?t ?i)"
    using assms(4,6) by (simp add: verify_valid_iff load_anchor_def anchor_ok_def)
  ultimately show ?thesis by simp
qed

theorem legacy_chain_false_alarm_witness:
  "r_reason (verify_chain toy_crypto ''k'' AnchorFull
     (append_evidence toy_env (toy_args (JInt 5)) ''prompt'' (JInt 5)
        (toy_db\<lparr> d_anchors := [((''t'', 1), (None, None))] \<rparr>)) ''t'' 1) = Some (CountMismatch 1 3)"
proof -
  let ?db = "toy_db\<lparr> d_anchors := [((''t'', 1), (None, None))] \<rparr>"
  have t: "a_tenant (toy_args (JInt 5)) = ''t''" "a_inv (toy_args (JInt 5)) = 1" by (simp_all add: toy_args_def)
  have ch: "chain ?db ''t'' 1 = chain toy_db ''t'' 1" by (simp add: chain_def)
  have wf: "db_wf ?db" using toy_write_inv by (simp add: db_wf_def)
  have v: "ec.valid toy_crypto ''k'' [] (chain toy_db ''t'' 1)"
    using toy_write_verifies by (simp add: verify_valid_iff)
  have ne: "chain toy_db ''t'' 1 \<noteq> []" using toy_length by auto
  have "r_reason (verify_chain toy_crypto ''k'' AnchorFull
      (append_evidence toy_env (toy_args (JInt 5)) ''prompt'' (JInt 5) ?db) ''t'' 1) =
      Some (CountMismatch 1 (Suc (length (chain toy_db ''t'' 1))))"
    using legacy_chain_false_alarm [OF toy_sound _ wf, where a = "toy_args (JInt 5)"
        and k = "''prompt''" and p = "JInt 5", unfolded t ch, OF _ v ne] toy_mac
    by simp
  then show ?thesis by (simp add: toy_length)
qed

end
