(* ===== verification/Matchers.thy ===== *)
theory Matchers
  imports Json
begin

text \<open>
  Field access and matcher specifications of attack-chain rules
  (\<open>kya/attack_chains/_matchers.py\<close>). Events and specifications are JSON values,
  \<open>None\<close> is \<open>JNull\<close>. Globbing, regular expressions, float literals and the text of
  containers are the parameters of \<open>lang\<close>.
\<close>

section \<open>Integers in text\<close>

fun digits_value :: "int \<Rightarrow> string \<Rightarrow> int option" where
  "digits_value acc [] = Some acc"
| "digits_value acc (c # cs) =
     (if is_digit c then digits_value (10 * acc + int (code_of c - 48)) cs else None)"

text \<open>\<open>int(s)\<close>: blanks around, a sign, digits with single underscores between them.\<close>

definition unsigned_value :: "string \<Rightarrow> int option" where
  "unsigned_value s =
     (let parts = split_on CHR ''_'' s
      in if list_ex (\<lambda>p. p = []) parts then None else digits_value 0 (concat parts))"

definition py_int :: "string \<Rightarrow> int option" where
  "py_int s =
     (case strip s of
        [] \<Rightarrow> None
      | c # cs \<Rightarrow>
          if c = CHR ''-'' then map_option uminus (unsigned_value cs)
          else if c = CHR ''+'' then unsigned_value cs
          else unsigned_value (c # cs))"

section \<open>Field access\<close>

text \<open>The trailing indexers of a path segment: \<open>a[1][2]\<close> is \<open>a\<close> with 1 and 2.\<close>

function indexers :: "string \<Rightarrow> int list \<Rightarrow> (string \<times> int list) option" where
  "indexers seg acc =
     (if seg \<noteq> [] \<and> last seg = CHR '']'' \<and> CHR ''['' \<in> set seg then
        (let body = tl (rev seg)
         in (case py_int (rev (takeWhile (\<lambda>c. c \<noteq> CHR ''['') body)) of
               None \<Rightarrow> None
             | Some i \<Rightarrow> indexers (rev (tl (dropWhile (\<lambda>c. c \<noteq> CHR ''['') body))) (i # acc)))
      else Some (seg, acc))"
  by auto
termination
proof (relation "measure (\<lambda>(seg, acc). length seg)", goal_cases)
  case (2 seg acc body i)
  have "length (dropWhile (\<lambda>c. c \<noteq> CHR ''['') body) \<le> length seg - 1"
    using length_dropWhile_le [of "\<lambda>c. c \<noteq> CHR ''[''" body] 2 by simp
  then show ?case using 2 by (cases seg) auto
qed simp

declare indexers.simps [simp del]

definition member :: "string \<Rightarrow> json \<Rightarrow> json" where
  "member k j =
     (case j of JObj kvs \<Rightarrow> (case map_of kvs k of Some v \<Rightarrow> v | None \<Rightarrow> JNull) | _ \<Rightarrow> JNull)"

fun apply_indexers :: "int list \<Rightarrow> json \<Rightarrow> json" where
  "apply_indexers [] j = j"
| "apply_indexers (i # is) j =
     (case j of
        JList xs \<Rightarrow> if i < 0 \<or> int (length xs) \<le> i then JNull else apply_indexers is (xs ! nat i)
      | _ \<Rightarrow> JNull)"

definition segment_value :: "string \<Rightarrow> json \<Rightarrow> json" where
  "segment_value raw cur =
     (case indexers raw [] of
        None \<Rightarrow> JNull
      | Some (seg, is) \<Rightarrow>
          (let v = (if seg = [] then cur else member seg cur)
           in if v = JNull then JNull else apply_indexers is v))"

definition field_value :: "json \<Rightarrow> string \<Rightarrow> json" where
  "field_value obj path =
     (if path = [] then obj
      else fold (\<lambda>raw cur. if cur = JNull then JNull else segment_value raw cur)
             (split_on CHR ''.'' path) obj)"

section \<open>Matching\<close>

record lang =
  l_glob :: "string \<Rightarrow> string \<Rightarrow> bool"
  l_regex :: "string \<Rightarrow> string \<Rightarrow> bool option"
  l_float :: "string \<Rightarrow> int option option"
  l_repr :: "json \<Rightarrow> string"

text \<open>Python's \<open>==\<close>: booleans equal the integers 0 and 1, key order is irrelevant.\<close>

primrec unbool :: "json \<Rightarrow> json" where
  "unbool JNull = JNull"
| "unbool (JBool b) = JInt (if b then 1 else 0)"
| "unbool (JInt i) = JInt i"
| "unbool (JStr s) = JStr s"
| "unbool (JList xs) = JList (map unbool xs)"
| "unbool (JObj kvs) = JObj (map (map_prod id unbool) kvs)"
| "unbool (JMarked t v) = JMarked t (unbool v)"

definition py_eq :: "json \<Rightarrow> json \<Rightarrow> bool" where
  "py_eq a b = (unbool (sort_keys a) = unbool (sort_keys b))"

definition py_str :: "lang \<Rightarrow> json \<Rightarrow> string" where
  "py_str l j =
     (case j of JNull \<Rightarrow> ''None'' | JBool b \<Rightarrow> (if b then ''True'' else ''False'')
      | JInt i \<Rightarrow> int_text i | JStr s \<Rightarrow> s | _ \<Rightarrow> l_repr l j)"

text \<open>One choice of an \<open>in:\<close> list: text, or a number (a float only if it is whole).\<close>

datatype choice = CText string | CNumber int | COtherFloat

definition quoted :: "char \<Rightarrow> string \<Rightarrow> bool" where
  "quoted q p = (p \<noteq> [] \<and> hd p = q \<and> last p = q)"

definition parse_choice :: "lang \<Rightarrow> string \<Rightarrow> choice" where
  "parse_choice l p =
     (if quoted (CHR 0x22) p \<or> quoted (CHR 0x27) p then CText (butlast (tl p))
      else (case py_int p of
              Some i \<Rightarrow> CNumber i
            | None \<Rightarrow>
                (case l_float l p of
                   Some (Some i) \<Rightarrow> CNumber i | Some None \<Rightarrow> COtherFloat | None \<Rightarrow> CText p)))"

definition parse_in_spec :: "lang \<Rightarrow> string \<Rightarrow> choice list option" where
  "parse_in_spec l body =
     (let s = strip body
      in if \<not> (s \<noteq> [] \<and> hd s = CHR ''['' \<and> last s = CHR '']'') then None
         else (let inner = strip (butlast (tl s))
               in if inner = [] then Some []
                  else Some (map (parse_choice l \<circ> strip) (split_on CHR '','' inner))))"

definition choice_matches :: "json \<Rightarrow> choice \<Rightarrow> bool" where
  "choice_matches actual ch =
     (case ch of CText s \<Rightarrow> actual = JStr s | CNumber i \<Rightarrow> py_eq actual (JInt i) | COtherFloat \<Rightarrow> False)"

primrec spec_size :: "json \<Rightarrow> nat" where
  "spec_size JNull = 0"
| "spec_size (JBool b) = 0"
| "spec_size (JInt i) = 0"
| "spec_size (JStr s) = length s"
| "spec_size (JList xs) = Suc (sum_list (map spec_size xs))"
| "spec_size (JObj kvs) = 0"
| "spec_size (JMarked t v) = 0"

lemma spec_size_member: "x \<in> set xs \<Longrightarrow> spec_size x < Suc (sum_list (map spec_size xs))"
  by (simp add: less_Suc_eq_le member_le_sum_list)

lemma starts_with_length: "starts_with s p \<Longrightarrow> length p \<le> length s"
  by (metis length_take min.cobounded1 starts_with_def)

function match_value :: "lang \<Rightarrow> json \<Rightarrow> json \<Rightarrow> bool" where
  "match_value l actual (JList specs) = list_ex (\<lambda>s. match_value l actual s) specs"
| "match_value l actual (JStr s) =
     (if starts_with s ''not:'' then \<not> match_value l actual (JStr (drop 4 s))
      else if starts_with s ''glob:'' then
        (case actual of JStr a \<Rightarrow> l_glob l a (drop 5 s) | _ \<Rightarrow> False)
      else if starts_with s ''regex:'' then
        (case actual of JStr a \<Rightarrow> l_regex l (drop 6 s) a = Some True | _ \<Rightarrow> False)
      else if starts_with s ''in:'' then
        (case parse_in_spec l (drop 3 s) of
           None \<Rightarrow> False | Some cs \<Rightarrow> list_ex (choice_matches actual) cs)
      else if starts_with s ''literal:'' then actual = JStr (drop 8 s)
      else (case actual of JStr a \<Rightarrow> a = s | _ \<Rightarrow> py_str l actual = s))"
| "match_value l actual JNull = py_eq actual JNull"
| "match_value l actual (JBool b) = py_eq actual (JBool b)"
| "match_value l actual (JInt i) = py_eq actual (JInt i)"
| "match_value l actual (JObj kvs) = py_eq actual (JObj kvs)"
| "match_value l actual (JMarked t v) = py_eq actual (JMarked t v)"
  by pat_completeness auto
termination
proof (relation "measure (\<lambda>(l, a, s). spec_size s)", goal_cases)
  case (2 l actual specs x)
  then show ?case by (simp add: spec_size_member)
next
  case (3 l actual s)
  then show ?case using starts_with_length [of s "''not:''"] by simp
qed simp

declare match_value.simps(2) [simp del]

text \<open>Malformed specifications: an empty any-of list, a broken regex or \<open>in:\<close> list.\<close>

function validate_matcher_spec :: "lang \<Rightarrow> json \<Rightarrow> bool" where
  "validate_matcher_spec l (JList specs) =
     (specs \<noteq> [] \<and> list_all (\<lambda>s. validate_matcher_spec l s) specs)"
| "validate_matcher_spec l (JStr s) =
     (if starts_with s ''not:'' then validate_matcher_spec l (JStr (drop 4 s))
      else if starts_with s ''regex:'' then l_regex l (drop 6 s) [] \<noteq> None
      else if starts_with s ''in:'' then parse_in_spec l (drop 3 s) \<noteq> None
      else True)"
| "validate_matcher_spec l JNull = True"
| "validate_matcher_spec l (JBool b) = True"
| "validate_matcher_spec l (JInt i) = True"
| "validate_matcher_spec l (JObj kvs) = True"
| "validate_matcher_spec l (JMarked t v) = True"
  by pat_completeness auto
termination
proof (relation "measure (\<lambda>(l, s). spec_size s)", goal_cases)
  case (2 l specs x)
  then show ?case by (simp add: spec_size_member)
next
  case (3 l s)
  then show ?case using starts_with_length [of s "''not:''"] by simp
qed simp

declare validate_matcher_spec.simps(2) [simp del]

definition all_match :: "lang \<Rightarrow> json \<Rightarrow> (string \<times> json) list \<Rightarrow> bool" where
  "all_match l actual specs =
     list_all (\<lambda>(path, spec). match_value l (field_value actual path) spec) specs"

section \<open>Facts\<close>

lemma match_not: "match_value l a (JStr (''not:'' @ s)) = (\<not> match_value l a (JStr s))"
  by (subst match_value.simps(2)) (simp add: starts_with_def)

lemma match_literal: "match_value l a (JStr (''literal:'' @ s)) = (a = JStr s)"
  by (subst match_value.simps(2)) (simp add: starts_with_def)

lemma all_match_append: "all_match l a (xs @ ys) = (all_match l a xs \<and> all_match l a ys)"
  by (simp add: all_match_def)

end
