(* ===== verification/ChainEngine.thy ===== *)
theory ChainEngine
  imports Matchers Rbac
begin

text \<open>
  The attack-chain engine (\<open>kya/attack_chains/_engine.py\<close>), its rules
  (\<open>_loader.py\<close>) and its partial-match state (\<open>_state.py\<close>). The engine is written
  against any state store; the in-memory store is the model's instance. Rules
  advance one step per event, linearly or over a graph of prerequisites.
\<close>

section \<open>Rules, events, partial matches\<close>

record step_spec =
  st_id :: string
  st_kind :: string
  st_match :: "(string \<times> json) list"
  st_after :: "string list"
  st_within :: "int option"

record chain_rule =
  ru_id :: string
  ru_severity :: string
  ru_emits :: string
  ru_correlate :: "string list"
  ru_steps :: "step_spec list"
  ru_mode :: string
  ru_window :: "int option"

record event =
  ev_tenant :: ident
  ev_principal :: ident
  ev_pkind :: string
  ev_corr :: "ident option"
  ev_kind :: string
  ev_payload :: json
  ev_id :: "int option"
  ev_occurred :: "instant option"
  ev_mono :: instant

record partial_match =
  pm_rule :: string
  pm_key :: "string list"
  pm_idx :: nat
  pm_ts :: "instant list"
  pm_evidence :: "int list"
  pm_done :: "string list"
  pm_principals :: "ident list"
  pm_updated :: instant

type_synonym slot = "string \<times> string list"

definition slot_of :: "partial_match \<Rightarrow> slot" where
  "slot_of pm = (pm_rule pm, pm_key pm)"

section \<open>State stores\<close>

text \<open>The operations of \<open>StateStore\<close> that the engine calls; an update stamps the clock.\<close>

record 'st store_ops =
  so_get :: "'st \<Rightarrow> slot \<Rightarrow> partial_match option"
  so_update :: "instant \<Rightarrow> 'st \<Rightarrow> partial_match \<Rightarrow> 'st"
  so_delete :: "'st \<Rightarrow> slot \<Rightarrow> 'st"

locale state_store =
  fixes ops :: "'st store_ops"
  assumes get_update: "so_get ops (so_update ops now st pm) s =
      (if s = slot_of pm then Some (pm\<lparr> pm_updated := now \<rparr>) else so_get ops st s)"
    and get_delete: "so_get ops (so_delete ops st s') s = (if s = s' then None else so_get ops st s)"

text \<open>\<open>InMemoryStateStore\<close>: one dict from slots to partial matches.\<close>

type_synonym memory_store = "(slot \<times> partial_match) list"

definition memory_get :: "memory_store \<Rightarrow> slot \<Rightarrow> partial_match option" where
  "memory_get st s = map_of st s"

definition memory_get_or_create :: "instant \<Rightarrow> memory_store \<Rightarrow> slot \<Rightarrow> partial_match \<times> memory_store" where
  "memory_get_or_create now st s =
     (case map_of st s of
        Some pm \<Rightarrow> (pm, st)
      | None \<Rightarrow>
          (let pm = \<lparr> pm_rule = fst s, pm_key = snd s, pm_idx = 0, pm_ts = [], pm_evidence = [],
                      pm_done = [], pm_principals = [], pm_updated = now \<rparr>
           in (pm, AList.update s pm st)))"

definition memory_update :: "instant \<Rightarrow> memory_store \<Rightarrow> partial_match \<Rightarrow> memory_store" where
  "memory_update now st pm = AList.update (slot_of pm) (pm\<lparr> pm_updated := now \<rparr>) st"

definition memory_delete :: "memory_store \<Rightarrow> slot \<Rightarrow> memory_store" where
  "memory_delete st s = AList.delete s st"

definition memory_expire :: "instant \<Rightarrow> instant \<Rightarrow> memory_store \<Rightarrow> nat \<times> memory_store" where
  "memory_expire now max_age st =
     (let cutoff = now - max_age
      in (length (filter (\<lambda>(s, pm). pm_updated pm < cutoff) st),
          filter (\<lambda>(s, pm). \<not> pm_updated pm < cutoff) st))"

definition memory_list_active :: "memory_store \<Rightarrow> string \<Rightarrow> partial_match list" where
  "memory_list_active st rid = map snd (filter (\<lambda>(s, pm). fst s = rid) st)"

definition memory_ops :: "memory_store store_ops" where
  "memory_ops = \<lparr> so_get = memory_get, so_update = memory_update, so_delete = memory_delete \<rparr>"

interpretation mem: state_store memory_ops
  by unfold_locales
    (auto simp: memory_ops_def memory_get_def memory_update_def memory_delete_def
      update_conv delete_conv)

section \<open>Events against steps\<close>

definition now_ts :: "event \<Rightarrow> instant" where
  "now_ts e = (case ev_occurred e of Some t \<Rightarrow> if t = 0 then ev_mono e else t | None \<Rightarrow> ev_mono e)"

definition event_ctx :: "event \<Rightarrow> json" where
  "event_ctx e = JObj
     [(''tenant_id'', JStr (ev_tenant e)), (''principal_id'', JStr (ev_principal e)),
      (''principal_kind'', JStr (ev_pkind e)),
      (''correlation_id'', (case ev_corr e of Some c \<Rightarrow> JStr c | None \<Rightarrow> JNull)),
      (''evidence_kind'', JStr (ev_kind e)), (''payload'', ev_payload e)]"

definition event_matches_step :: "lang \<Rightarrow> event \<Rightarrow> step_spec \<Rightarrow> bool" where
  "event_matches_step l e s = (st_kind s = ev_kind e \<and> all_match l (event_ctx e) (st_match s))"

text \<open>The correlate key, or nothing when a field is missing or blank.\<close>

definition correlate_key :: "lang \<Rightarrow> chain_rule \<Rightarrow> event \<Rightarrow> string list option" where
  "correlate_key l r e =
     (let vs = map (field_value (event_ctx e)) (ru_correlate r)
      in if list_ex (\<lambda>v. v = JNull \<or> v = JStr []) vs then None else Some (map (py_str l) vs))"

section \<open>Emission\<close>

record emission =
  em_tenant :: ident
  em_principal :: ident
  em_signal :: string
  em_trigger :: "int option"
  em_rule :: string
  em_severity :: string
  em_pkind :: string

definition key_values :: "chain_rule \<Rightarrow> string list \<Rightarrow> (string \<times> string) list" where
  "key_values r key = rev (zip (ru_correlate r) key)"

text \<open>Principals in completion order without repetition and without blanks.\<close>

definition attributable :: "(string \<times> string) list \<Rightarrow> event \<Rightarrow> ident list \<Rightarrow> ident list" where
  "attributable kv e participants =
     (case map_of kv ''principal_id'' of
        Some pid \<Rightarrow> if pid = [] then [] else [pid]
      | None \<Rightarrow>
          (let ordered = (if map_of kv ''tenant_id'' \<noteq> None then participants else [])
                         @ (if ev_principal e \<noteq> [] then [ev_principal e] else [])
           in rev (remdups (rev (filter (\<lambda>p. p \<noteq> []) ordered)))))"

definition emit :: "chain_rule \<Rightarrow> string list \<Rightarrow> event \<Rightarrow> ident list \<Rightarrow> emission list" where
  "emit r key e participants =
     (let kv = key_values r key
      in map (\<lambda>pid. \<lparr> em_tenant = (case map_of kv ''tenant_id'' of Some t \<Rightarrow> t | None \<Rightarrow> []),
                em_principal = pid, em_signal = ru_emits r, em_trigger = ev_id e,
                em_rule = ru_id r, em_severity = ru_severity r,
                em_pkind = (if ev_pkind e = [] then ''user'' else ev_pkind e) \<rparr>)
           (attributable kv e participants))"

text \<open>The default emitter: a signal on the principal's trust row, weighted by the
rule's severity unless the kind has a weight of its own.\<close>

definition emission_override :: "emission \<Rightarrow> int option" where
  "emission_override m =
     (if map_of SIGNAL_DELTAS (em_signal m) \<noteq> None then None
      else map_of SEVERITY_DELTAS (em_severity m))"

definition default_signal_emitter ::
    "string list \<Rightarrow> commit list \<Rightarrow> instant \<Rightarrow> string \<Rightarrow> principal_table \<Rightarrow> emission \<Rightarrow> principal_table" where
  "default_signal_emitter reg cs now trigger_text tab m =
     snd (record_principal_signal reg cs tab (em_tenant m, em_pkind m, em_principal m) (em_signal m)
       None [(''attack_chain_rule_id'', em_rule m), (''attack_chain_severity'', em_severity m),
             (''attack_chain_trigger_evidence_id'', trigger_text)] None True (emission_override m) now)"

section \<open>Linear rules\<close>

fun find_index :: "('a \<Rightarrow> bool) \<Rightarrow> 'a list \<Rightarrow> nat option" where
  "find_index P [] = None"
| "find_index P (x # xs) = (if P x then Some 0 else map_option Suc (find_index P xs))"

definition latest :: "instant list \<Rightarrow> instant option" where
  "latest ts = (if ts = [] then None else Some (Max (set ts)))"

text \<open>Completion times of the prerequisites, by position among the rule's steps.\<close>

definition linear_pred_times :: "chain_rule \<Rightarrow> partial_match \<Rightarrow> step_spec \<Rightarrow> instant list" where
  "linear_pred_times r pm s =
     List.map_filter (\<lambda>sid. case find_index (\<lambda>x. st_id x = sid) (ru_steps r) of
        Some i \<Rightarrow> if i < length (pm_ts pm) then Some (pm_ts pm ! i) else None
      | None \<Rightarrow> None) (st_after s)"

definition window_closed :: "step_spec \<Rightarrow> instant list \<Rightarrow> instant \<Rightarrow> bool" where
  "window_closed s ts now =
     (case st_within s of
        None \<Rightarrow> False
      | Some w \<Rightarrow> st_after s \<noteq> [] \<and> w \<noteq> 0 \<and>
          (case latest ts of None \<Rightarrow> False | Some t \<Rightarrow> w < now - t))"

definition global_window_over :: "chain_rule \<Rightarrow> partial_match \<Rightarrow> instant \<Rightarrow> bool" where
  "global_window_over r pm now =
     (case ru_window r of
        None \<Rightarrow> False
      | Some w \<Rightarrow> pm_ts pm \<noteq> [] \<and> w < now - hd (pm_ts pm))"

definition first_match :: "chain_rule \<Rightarrow> string list \<Rightarrow> event \<Rightarrow> string list \<Rightarrow> partial_match" where
  "first_match r key e done_ids =
     \<lparr> pm_rule = ru_id r, pm_key = key, pm_idx = 1, pm_ts = [now_ts e],
       pm_evidence = (case ev_id e of Some i \<Rightarrow> [i] | None \<Rightarrow> []), pm_done = done_ids,
       pm_principals = [ev_principal e], pm_updated = ev_mono e \<rparr>"

definition extend_match :: "partial_match \<Rightarrow> event \<Rightarrow> nat \<Rightarrow> string list \<Rightarrow> partial_match" where
  "extend_match pm e idx done_ids =
     pm\<lparr> pm_idx := idx,
         pm_ts := pm_ts pm @ [now_ts e],
         pm_evidence := pm_evidence pm @ (case ev_id e of Some i \<Rightarrow> [i] | None \<Rightarrow> []),
         pm_done := done_ids,
         pm_principals := pm_principals pm @ [ev_principal e] \<rparr>"

definition advance_linear ::
    "'st store_ops \<Rightarrow> lang \<Rightarrow> chain_rule \<Rightarrow> string list \<Rightarrow> event \<Rightarrow> 'st \<Rightarrow>
     bool \<times> emission list \<times> 'st" where
  "advance_linear ops l r key e st =
     (let slot = (ru_id r, key)
      in (case so_get ops st slot of
            None \<Rightarrow>
              (case ru_steps r of
                 [] \<Rightarrow> (False, [], st)
               | step0 # rest \<Rightarrow>
                   if \<not> event_matches_step l e step0 then (False, [], st)
                   else if rest = [] then (True, emit r key e [ev_principal e], st)
                   else (False, [], so_update ops (ev_mono e) st (first_match r key e [])))
          | Some pm \<Rightarrow>
              if length (ru_steps r) \<le> pm_idx pm then (False, [], so_delete ops st slot)
              else
                (let next = ru_steps r ! pm_idx pm
                 in if \<not> event_matches_step l e next then
                      (False, [], if global_window_over r pm (now_ts e) then so_delete ops st slot else st)
                    else if window_closed next (linear_pred_times r pm next) (now_ts e) then
                      (False, [], so_delete ops st slot)
                    else
                      (let pm' = extend_match pm e (pm_idx pm + 1) (pm_done pm);
                           st' = so_update ops (ev_mono e) st pm'
                       in if length (ru_steps r) \<le> pm_idx pm' then
                            (True, emit r key e (pm_principals pm'), so_delete ops st' slot)
                          else (False, [], st')))))"

section \<open>Rules over a graph\<close>

definition ready_step :: "lang \<Rightarrow> chain_rule \<Rightarrow> string list \<Rightarrow> event \<Rightarrow> step_spec option" where
  "ready_step l r done_ids e =
     List.find (\<lambda>s. st_id s \<notin> set done_ids \<and> list_all (\<lambda>p. p \<in> set done_ids) (st_after s)
        \<and> event_matches_step l e s) (ru_steps r)"

definition dag_pred_times :: "partial_match \<Rightarrow> step_spec \<Rightarrow> instant list" where
  "dag_pred_times pm s = List.map_filter (map_of (rev (zip (pm_done pm) (pm_ts pm)))) (st_after s)"

definition advance_dag ::
    "'st store_ops \<Rightarrow> lang \<Rightarrow> chain_rule \<Rightarrow> string list \<Rightarrow> event \<Rightarrow> 'st \<Rightarrow>
     bool \<times> emission list \<times> 'st" where
  "advance_dag ops l r key e st =
     (let slot = (ru_id r, key);
          existing = so_get ops st slot;
          done_ids = (case existing of Some pm \<Rightarrow> pm_done pm | None \<Rightarrow> [])
      in (case ready_step l r done_ids e of
            None \<Rightarrow>
              (False, [], (case existing of
                 Some pm \<Rightarrow> if global_window_over r pm (now_ts e) then so_delete ops st slot else st
               | None \<Rightarrow> st))
          | Some s \<Rightarrow>
              if (case existing of
                    Some pm \<Rightarrow> window_closed s (dag_pred_times pm s) (now_ts e) | None \<Rightarrow> False)
              then (False, [], so_delete ops st slot)
              else
                (let pm' = (case existing of
                              None \<Rightarrow> first_match r key e [st_id s]
                            | Some pm \<Rightarrow>
                               extend_match pm e (length (pm_done pm) + 1) (pm_done pm @ [st_id s]))
                 in if list_all (\<lambda>x. st_id x \<in> set (pm_done pm')) (ru_steps r) then
                      (True, emit r key e (pm_principals pm'), so_delete ops st slot)
                    else (False, [], so_update ops (ev_mono e) st pm'))))"

section \<open>Processing evidence\<close>

definition advance_rule ::
    "'st store_ops \<Rightarrow> lang \<Rightarrow> chain_rule \<Rightarrow> event \<Rightarrow> 'st \<Rightarrow> bool \<times> emission list \<times> 'st" where
  "advance_rule ops l r e st =
     (case correlate_key l r e of
        None \<Rightarrow> (False, [], st)
      | Some key \<Rightarrow>
          if ru_mode r = ''dag'' then advance_dag ops l r key e st
          else advance_linear ops l r key e st)"

fun process_evidence ::
    "'st store_ops \<Rightarrow> lang \<Rightarrow> chain_rule list \<Rightarrow> event \<Rightarrow> 'st \<Rightarrow>
     string list \<times> emission list \<times> 'st" where
  "process_evidence ops l [] e st = ([], [], st)"
| "process_evidence ops l (r # rs) e st =
     (case advance_rule ops l r e st of
        (hit, ems, st') \<Rightarrow>
          (case process_evidence ops l rs e st' of
             (ids, ems', st'') \<Rightarrow> ((if hit then ru_id r # ids else ids), ems @ ems', st'')))"

fun process_all ::
    "'st store_ops \<Rightarrow> lang \<Rightarrow> chain_rule list \<Rightarrow> event list \<Rightarrow> 'st \<Rightarrow> 'st" where
  "process_all ops l rs [] st = st"
| "process_all ops l rs (e # es) st = process_all ops l rs es (snd (snd (process_evidence ops l rs e st)))"

end
