(* ===== verification/ChainFacts.thy ===== *)
theory ChainFacts
  imports ChainEngine "HOL-Library.Sublist"
begin

text \<open>
  What a match of the attack-chain engine means: on any lawful state store, each
  stored partial match is backed by a subsequence of the events seen, of one
  correlate key, and a full match by a complete one. The lemmas are proved once
  for the interface and read off for the in-memory store.
\<close>

section \<open>Backing of a partial match\<close>

text \<open>Every step's prerequisites are among the steps before it.\<close>

definition prereqs_met :: "step_spec list \<Rightarrow> bool" where
  "prereqs_met ss = (\<forall>j < length ss. set (st_after (ss ! j)) \<subseteq> st_id ` set (take j ss))"

lemma prereqs_met_snoc:
  "prereqs_met (ss @ [s]) \<longleftrightarrow> prereqs_met ss \<and> set (st_after s) \<subseteq> st_id ` set ss"
  by (auto simp: prereqs_met_def nth_append less_Suc_eq)

lemma prereqs_met_simps [simp]: "prereqs_met []" "prereqs_met [s] \<longleftrightarrow> st_after s = []"
  by (auto simp: prereqs_met_def)

definition fits :: "lang \<Rightarrow> chain_rule \<Rightarrow> string list \<Rightarrow> event \<Rightarrow> step_spec \<Rightarrow> bool" where
  "fits l r key e s = (correlate_key l r e = Some key \<and> event_matches_step l e s)"

definition ordered_steps :: "chain_rule \<Rightarrow> step_spec list \<Rightarrow> bool" where
  "ordered_steps r ss =
     (if ru_mode r = ''dag''
      then set ss \<subseteq> set (ru_steps r) \<and> distinct (map st_id ss) \<and> prereqs_met ss
      else ss = take (length ss) (ru_steps r))"

definition complete_steps :: "chain_rule \<Rightarrow> step_spec list \<Rightarrow> bool" where
  "complete_steps r ss =
     (if ru_mode r = ''dag'' then st_id ` set (ru_steps r) \<subseteq> st_id ` set ss else ss = ru_steps r)"

text \<open>The events \<open>ws\<close> took the steps \<open>ss\<close>, in order, on one key.\<close>

definition trail :: "lang \<Rightarrow> chain_rule \<Rightarrow> string list \<Rightarrow> event list \<Rightarrow> step_spec list \<Rightarrow> bool" where
  "trail l r key ws ss = (list_all2 (fits l r key) ws ss \<and> ordered_steps r ss)"

definition backs :: "lang \<Rightarrow> chain_rule \<Rightarrow> string list \<Rightarrow> event list \<Rightarrow> partial_match \<Rightarrow> bool" where
  "backs l r key evs pm =
     (\<exists>ws ss. subseq ws evs \<and> trail l r key ws ss \<and> ws \<noteq> []
        \<and> pm_rule pm = ru_id r \<and> pm_key pm = key \<and> pm_idx pm = length ws
        \<and> pm_ts pm = map now_ts ws \<and> pm_principals pm = map ev_principal ws
        \<and> (if ru_mode r = ''dag'' then pm_done pm = map st_id ss else length ws < length (ru_steps r)))"

definition full_trail :: "lang \<Rightarrow> chain_rule \<Rightarrow> event list \<Rightarrow> event \<Rightarrow> emission list \<Rightarrow> bool" where
  "full_trail l r evs e ems =
     (\<exists>key ws ss. subseq ws evs \<and> trail l r key (ws @ [e]) ss \<and> complete_steps r ss
        \<and> ems = emit r key e (map ev_principal (ws @ [e])))"

lemma subseq_later: "subseq ws evs \<Longrightarrow> subseq ws (evs @ es)"
  using list_emb_append_mono [of "(=)" ws evs "[]" es] by simp

lemma subseq_step: "subseq ws evs \<Longrightarrow> subseq (ws @ [e]) (evs @ [e])"
  by (rule list_emb_append_mono) simp_all

lemma backs_mono: "backs l r key evs pm \<Longrightarrow> backs l r key (evs @ es) pm"
  unfolding backs_def using subseq_later by blast

lemma backs_touch: "backs l r key evs pm \<Longrightarrow> backs l r key evs (pm\<lparr> pm_updated := n \<rparr>)"
  by (simp add: backs_def cong: if_cong split del: if_split)

lemma trail_snoc:
  assumes "list_all2 (fits l r key) ws ss" "fits l r key e s" "ordered_steps r (ss @ [s])"
  shows "trail l r key (ws @ [e]) (ss @ [s])"
  using assms by (simp add: trail_def list_all2_appendI)

lemma ordered_linear_snoc:
  assumes "ru_mode r \<noteq> ''dag''" "ordered_steps r ss" "length ss < length (ru_steps r)"
  shows "ordered_steps r (ss @ [ru_steps r ! length ss])"
  using assms by (simp add: ordered_steps_def take_Suc_conv_app_nth)

lemma ready_step_Some:
  "ready_step l r ds e = Some s \<Longrightarrow> s \<in> set (ru_steps r) \<and> st_id s \<notin> set ds
     \<and> set (st_after s) \<subseteq> set ds \<and> event_matches_step l e s"
  by (auto simp: ready_step_def list_all_iff dest: find_Some_iff_first)

lemma ordered_dag_snoc:
  assumes "ru_mode r = ''dag''" "ordered_steps r ss" "ready_step l r (map st_id ss) e = Some s"
  shows "ordered_steps r (ss @ [s])"
  using assms(1,2) ready_step_Some [OF assms(3)]
  by (auto simp: ordered_steps_def prereqs_met_snoc)

lemma backs_first:
  assumes "correlate_key l r e = Some key" "event_matches_step l e s" "ordered_steps r [s]"
    and "if ru_mode r = ''dag'' then ds = [st_id s] else 1 < length (ru_steps r)"
  shows "backs l r key (evs @ [e]) (first_match r key e ds)"
  unfolding backs_def
  by (rule exI [of _ "[e]"], rule exI [of _ "[s]"])
    (use assms in \<open>auto simp: trail_def fits_def first_match_def split: if_splits\<close>)

lemma extend_match_fields [simp]:
  "pm_idx (extend_match pm e idx ds) = idx" "pm_done (extend_match pm e idx ds) = ds"
  "pm_rule (extend_match pm e idx ds) = pm_rule pm" "pm_key (extend_match pm e idx ds) = pm_key pm"
  "pm_ts (extend_match pm e idx ds) = pm_ts pm @ [now_ts e]"
  "pm_principals (extend_match pm e idx ds) = pm_principals pm @ [ev_principal e]"
  by (simp_all add: extend_match_def)

lemma first_match_fields [simp]:
  "pm_done (first_match r key e ds) = ds" "pm_principals (first_match r key e ds) = [ev_principal e]"
  by (simp_all add: first_match_def)

lemma backs_extend:
  assumes "backs l r key evs pm" "correlate_key l r e = Some key" "event_matches_step l e s"
    and "if ru_mode r = ''dag'' then ready_step l r (pm_done pm) e = Some s \<and> ds = pm_done pm @ [st_id s]
         else s = ru_steps r ! pm_idx pm"
    and "idx = Suc (pm_idx pm)"
  shows "\<exists>ws ss. subseq ws evs \<and> trail l r key (ws @ [e]) (ss @ [s])
     \<and> pm_principals (extend_match pm e idx ds) = map ev_principal (ws @ [e])
     \<and> length ws = pm_idx pm \<and> length ss = pm_idx pm
     \<and> (ru_mode r = ''dag'' \<longrightarrow> ds = map st_id (ss @ [s]))
     \<and> ((ru_mode r \<noteq> ''dag'' \<longrightarrow> idx < length (ru_steps r)) \<longrightarrow>
          backs l r key (evs @ [e]) (extend_match pm e idx ds))"
proof -
  obtain ws ss where b: "subseq ws evs" "trail l r key ws ss" "ws \<noteq> []" "pm_rule pm = ru_id r"
    "pm_key pm = key" "pm_idx pm = length ws" "pm_ts pm = map now_ts ws"
    "pm_principals pm = map ev_principal ws"
    "if ru_mode r = ''dag'' then pm_done pm = map st_id ss else length ws < length (ru_steps r)"
    using assms(1) unfolding backs_def by blast
  have l2: "list_all2 (fits l r key) ws ss" and ord: "ordered_steps r ss"
    using b(2) by (simp_all add: trail_def)
  have len: "length ss = length ws" using l2 by (simp add: list_all2_lengthD)
  have ord': "ordered_steps r (ss @ [s])"
    using assms(4) b(6,9) ord len ordered_linear_snoc [of r ss] ordered_dag_snoc [of r ss l e s]
    by (cases "ru_mode r = ''dag''") auto
  have tr: "trail l r key (ws @ [e]) (ss @ [s])"
    using trail_snoc [OF l2 _ ord'] assms(2,3) by (simp add: fits_def)
  have "backs l r key (evs @ [e]) (extend_match pm e idx ds)"
    if "ru_mode r \<noteq> ''dag'' \<longrightarrow> idx < length (ru_steps r)"
    unfolding backs_def
    by (rule exI [of _ "ws @ [e]"], rule exI [of _ "ss @ [s]"])
      (use tr b assms(4,5) that in \<open>auto simp: subseq_step split: if_splits\<close>)
  with tr b len assms(4) show ?thesis
    by (intro exI [of _ ws] exI [of _ ss]) (auto split: if_splits)
qed

section \<open>One rule, one event\<close>

context state_store
begin

definition rule_inv :: "lang \<Rightarrow> chain_rule \<Rightarrow> event list \<Rightarrow> 'st \<Rightarrow> bool" where
  "rule_inv l r evs st =
     (\<forall>key pm. so_get ops st (ru_id r, key) = Some pm \<longrightarrow> backs l r key evs pm)"

lemma slot_first [simp]: "slot_of (first_match r key e ds) = (ru_id r, key)"
  by (simp add: slot_of_def first_match_def)

lemma slot_extend [simp]: "slot_of (extend_match pm e idx ds) = slot_of pm"
  by (simp add: slot_of_def)

lemma rule_inv_delete: "rule_inv l r evs st \<Longrightarrow> rule_inv l r (evs @ es) (so_delete ops st s)"
  by (auto simp: rule_inv_def get_delete backs_mono)

lemma rule_inv_keep: "rule_inv l r evs st \<Longrightarrow> rule_inv l r (evs @ es) st"
  by (auto simp: rule_inv_def backs_mono)

lemma rule_inv_update:
  assumes "rule_inv l r evs st" "slot_of pm = (ru_id r, key)" "backs l r key (evs @ es) pm"
  shows "rule_inv l r (evs @ es) (so_update ops n st pm)"
  using assms by (auto simp: rule_inv_def get_update backs_mono backs_touch)

lemma get_slot:
  "rule_inv l r evs st \<Longrightarrow> so_get ops st (ru_id r, key) = Some pm \<Longrightarrow>
     slot_of pm = (ru_id r, key) \<and> backs l r key evs pm"
  by (auto simp: rule_inv_def slot_of_def backs_def)

definition sound_result :: "lang \<Rightarrow> chain_rule \<Rightarrow> event list \<Rightarrow> event \<Rightarrow> bool \<times> emission list \<times> 'st \<Rightarrow> bool" where
  "sound_result l r evs e res =
     (case res of (hit, ems, st') \<Rightarrow>
        rule_inv l r (evs @ [e]) st' \<and> (if hit then full_trail l r evs e ems else ems = []))"

lemma sound_quiet:
  assumes "rule_inv l r evs st"
  shows "sound_result l r evs e (False, [], st)"
    "sound_result l r evs e (False, [], so_delete ops st s)"
  using assms by (simp_all add: sound_result_def rule_inv_keep rule_inv_delete)

lemma sound_update:
  assumes "rule_inv l r evs st" "slot_of pm = (ru_id r, key)" "backs l r key (evs @ [e]) pm"
  shows "sound_result l r evs e (False, [], so_update ops n st pm)"
  using rule_inv_update [OF assms] by (simp add: sound_result_def)

lemma sound_hit:
  assumes "rule_inv l r evs st" "subseq ws evs" "trail l r key (ws @ [e]) ss" "complete_steps r ss"
    "ps = map ev_principal (ws @ [e])"
  shows "sound_result l r evs e (True, emit r key e ps, st)"
    "sound_result l r evs e (True, emit r key e ps, so_delete ops st s)"
  using assms rule_inv_keep rule_inv_delete by (auto simp: sound_result_def full_trail_def)

lemma linear_start_sound:
  assumes inv: "rule_inv l r evs st" and key: "correlate_key l r e = Some key"
    and mode: "ru_mode r \<noteq> ''dag''" and none: "so_get ops st (ru_id r, key) = None"
  shows "sound_result l r evs e (advance_linear ops l r key e st)"
proof (cases "ru_steps r")
  case Nil
  with none show ?thesis by (simp add: advance_linear_def Let_def sound_quiet [OF inv])
next
  case (Cons s rest)
  have ord: "ordered_steps r [s]" using mode Cons by (simp add: ordered_steps_def)
  have single: "sound_result l r evs e (True, emit r key e [ev_principal e], st)"
    if "event_matches_step l e s" "rest = []"
    using that Cons mode key ord
    by (intro sound_hit(1) [OF inv, of "[]" key e "[s]"])
      (simp_all add: trail_def fits_def complete_steps_def)
  have start: "sound_result l r evs e (False, [], so_update ops (ev_mono e) st (first_match r key e []))"
    if "event_matches_step l e s" "rest \<noteq> []"
    using that Cons mode key ord
    by (intro sound_update [OF inv slot_first] backs_first) auto
  show ?thesis
    using none Cons single start by (simp add: advance_linear_def Let_def sound_quiet [OF inv])
qed

lemma linear_next_sound:
  assumes inv: "rule_inv l r evs st" and key: "correlate_key l r e = Some key"
    and mode: "ru_mode r \<noteq> ''dag''" and some: "so_get ops st (ru_id r, key) = Some pm"
  shows "sound_result l r evs e (advance_linear ops l r key e st)"
proof -
  have slot: "slot_of pm = (ru_id r, key)" and b: "backs l r key evs pm"
    using get_slot [OF inv some] by auto
  let ?s = "ru_steps r ! pm_idx pm" and ?pm = "extend_match pm e (pm_idx pm + 1) (pm_done pm)"
  have lt: "pm_idx pm < length (ru_steps r)" using b mode by (auto simp: backs_def)
  have go: "sound_result l r evs e
      (if length (ru_steps r) \<le> pm_idx ?pm
       then (True, emit r key e (pm_principals ?pm),
             so_delete ops (so_update ops (ev_mono e) st ?pm) (ru_id r, key))
       else (False, [], so_update ops (ev_mono e) st ?pm))" if m: "event_matches_step l e ?s"
  proof -
    obtain ws ss where w: "subseq ws evs" "trail l r key (ws @ [e]) (ss @ [?s])"
      "pm_principals ?pm = map ev_principal (ws @ [e])" "length ss = pm_idx pm"
      "Suc (pm_idx pm) < length (ru_steps r) \<longrightarrow> backs l r key (evs @ [e]) ?pm"
      using backs_extend [OF b key m, of "pm_done pm" "pm_idx pm + 1"] mode by auto
    have inv': "\<not> Suc (pm_idx pm) < length (ru_steps r) \<Longrightarrow>
        rule_inv l r evs (so_delete ops (so_update ops (ev_mono e) st ?pm) (ru_id r, key))"
      using inv slot by (auto simp: rule_inv_def get_delete get_update split: if_splits)
    show ?thesis
    proof (cases "Suc (pm_idx pm) < length (ru_steps r)")
      case True
      then show ?thesis using w(5) slot sound_update [OF inv, of ?pm key]
        by simp
    next
      case False
      then have "length (ss @ [?s]) = length (ru_steps r)" using w(4) lt by simp
      then have "complete_steps r (ss @ [?s])"
        using w(2) mode by (simp add: trail_def ordered_steps_def complete_steps_def)
      with False sound_hit(1) [OF inv' w(1,2) _ w(3)] show ?thesis
        by simp
    qed
  qed
  show ?thesis
    using some lt go by (auto simp: advance_linear_def Let_def sound_quiet [OF inv])
qed

lemma dag_sound:
  assumes inv: "rule_inv l r evs st" and key: "correlate_key l r e = Some key" and mode: "ru_mode r = ''dag''"
  shows "sound_result l r evs e (advance_dag ops l r key e st)"
proof -
  let ?ex = "so_get ops st (ru_id r, key)"
  let ?ds = "case ?ex of Some pm \<Rightarrow> pm_done pm | None \<Rightarrow> []"
  show ?thesis
  proof (cases "ready_step l r ?ds e")
    case None
    then show ?thesis
      by (auto simp: advance_dag_def Let_def sound_quiet [OF inv] split: option.split)
  next
    case (Some s)
    define pm' where "pm' = (case ?ex of None \<Rightarrow> first_match r key e [st_id s]
        | Some pm \<Rightarrow> extend_match pm e (length (pm_done pm) + 1) (pm_done pm @ [st_id s]))"
    have m: "event_matches_step l e s" using ready_step_Some [OF Some] by simp
    have "\<exists>ws ss. subseq ws evs \<and> trail l r key (ws @ [e]) ss \<and> pm_done pm' = map st_id ss
        \<and> pm_principals pm' = map ev_principal (ws @ [e])
        \<and> backs l r key (evs @ [e]) pm' \<and> slot_of pm' = (ru_id r, key)"
    proof (cases ?ex)
      case none: None
      have ord: "ordered_steps r [s]"
        using ready_step_Some [OF Some] none mode by (simp add: ordered_steps_def)
      have pm: "pm' = first_match r key e [st_id s]" using none by (simp add: pm'_def)
      have b: "backs l r key (evs @ [e]) pm'"
        unfolding pm using mode by (intro backs_first [OF key m ord]) simp
      show ?thesis
        using b ord key m
        by (intro exI [of _ "[]"] exI [of _ "[s]"])
          (simp add: pm trail_def fits_def)
    next
      case some: (Some pm)
      have b: "backs l r key evs pm" and slot: "slot_of pm = (ru_id r, key)"
        using get_slot [OF inv some] by auto
      have "pm_idx pm = length (pm_done pm)"
        using b mode by (auto simp: backs_def trail_def dest: list_all2_lengthD)
      with some have e: "pm' = extend_match pm e (Suc (pm_idx pm)) (pm_done pm @ [st_id s])"
        by (simp add: pm'_def)
      have r: "ready_step l r (pm_done pm) e = Some s" using Some some by simp
      have "\<exists>ws ss. subseq ws evs \<and> trail l r key (ws @ [e]) (ss @ [s])
         \<and> pm_principals pm' = map ev_principal (ws @ [e]) \<and> length ws = pm_idx pm
         \<and> length ss = pm_idx pm
         \<and> (ru_mode r = ''dag'' \<longrightarrow> pm_done pm @ [st_id s] = map st_id (ss @ [s]))
         \<and> ((ru_mode r \<noteq> ''dag'' \<longrightarrow> Suc (pm_idx pm) < length (ru_steps r)) \<longrightarrow>
              backs l r key (evs @ [e]) pm')"
        unfolding e using mode r by (intro backs_extend [OF b key m]) simp_all
      then obtain ws ss where "subseq ws evs" "trail l r key (ws @ [e]) (ss @ [s])"
        "pm_principals pm' = map ev_principal (ws @ [e])"
        "pm_done pm @ [st_id s] = map st_id (ss @ [s])" "backs l r key (evs @ [e]) pm'"
        using mode by blast
      with slot some show ?thesis
        by (intro exI [of _ ws] exI [of _ "ss @ [s]"]) (auto simp: pm'_def)
    qed
    then obtain ws ss where w: "subseq ws evs" "trail l r key (ws @ [e]) ss"
      "pm_done pm' = map st_id ss" "pm_principals pm' = map ev_principal (ws @ [e])"
      "backs l r key (evs @ [e]) pm'" "slot_of pm' = (ru_id r, key)" by blast
    have "list_all (\<lambda>x. st_id x \<in> set (pm_done pm')) (ru_steps r) \<Longrightarrow> complete_steps r ss"
      using mode w(3) by (auto simp: complete_steps_def list_all_iff)
    then show ?thesis
      using Some sound_hit(2) [OF inv w(1,2) _ w(4)] sound_update [OF inv w(6,5)]
      by (auto simp: advance_dag_def Let_def pm'_def [symmetric] sound_quiet [OF inv])
  qed
qed

lemma advance_rule_sound:
  assumes "rule_inv l r evs st"
  shows "sound_result l r evs e (advance_rule ops l r e st)"
  using assms linear_start_sound linear_next_sound dag_sound
  by (auto simp: advance_rule_def sound_quiet split: option.split)
    (metis not_None_eq)

section \<open>All rules, all events\<close>

lemma advance_frame:
  assumes "rule_inv l r evs st" "s \<noteq> (ru_id r, the (correlate_key l r e)) \<or> correlate_key l r e = None"
  shows "so_get ops (snd (snd (advance_rule ops l r e st))) s = so_get ops st s"
proof (cases "correlate_key l r e")
  case (Some key)
  have ne: "s \<noteq> (ru_id r, key)" using assms(2) Some by auto
  have slot: "slot_of pm = (ru_id r, key)" if "so_get ops st (ru_id r, key) = Some pm" for pm
    using get_slot [OF assms(1) that] by simp
  show ?thesis
    using Some ne slot
    by (auto simp: advance_rule_def advance_linear_def advance_dag_def Let_def get_update get_delete
        split: option.split list.split)
qed (simp add: advance_rule_def)

lemma advance_other_rule:
  assumes "rule_inv l r evs st" "fst s \<noteq> ru_id r"
  shows "so_get ops (snd (snd (advance_rule ops l r e st))) s = so_get ops st s"
  using assms by (intro advance_frame) auto

lemma emit_rule: "m \<in> set (emit r key e ps) \<Longrightarrow> em_rule m = ru_id r"
  by (auto simp: emit_def Let_def)

lemma emit_filter: "filter (\<lambda>m. em_rule m = i) (emit r key e ps) = (if i = ru_id r then emit r key e ps else [])"
  using emit_rule by (auto intro!: filter_True filter_False)

lemma sound_filter:
  assumes "sound_result l r evs e (hit, ems, st')"
  shows "filter (\<lambda>m. em_rule m = i) ems = (if i = ru_id r then ems else [])"
  using assms by (auto simp: sound_result_def full_trail_def emit_filter split: if_splits)

definition all_inv :: "lang \<Rightarrow> chain_rule list \<Rightarrow> event list \<Rightarrow> 'st \<Rightarrow> bool" where
  "all_inv l rs evs st = (\<forall>r\<in>set rs. rule_inv l r evs st)"

lemma rule_inv_frame:
  assumes "rule_inv l r' evs st" "\<And>key. so_get ops st' (ru_id r', key) = so_get ops st (ru_id r', key)"
  shows "rule_inv l r' evs st'"
  using assms by (simp add: rule_inv_def)

lemma other_id: "distinct (map ru_id (r # rs)) \<Longrightarrow> r' \<in> set rs \<Longrightarrow> ru_id r' \<noteq> ru_id r"
  by simp (metis image_eqI)

lemma process_frame:
  assumes "all_inv l rs evs st" "distinct (map ru_id rs)" "fst s \<notin> ru_id ` set rs"
  shows "so_get ops (snd (snd (process_evidence ops l rs e st))) s = so_get ops st s"
  using assms
proof (induction rs arbitrary: st)
  case (Cons r rs)
  obtain hit ems st1 where a: "advance_rule ops l r e st = (hit, ems, st1)" by (metis prod_cases3)
  have fr: "so_get ops st1 s' = so_get ops st s'" if "fst s' \<noteq> ru_id r" for s'
    using advance_other_rule [of l r evs st s' e] Cons.prems(1) that a by (simp add: all_inv_def)
  have "all_inv l rs evs st1"
    unfolding all_inv_def
  proof (rule ballI)
    fix r' assume r': "r' \<in> set rs"
    then have ne: "ru_id r' \<noteq> ru_id r" using other_id [OF Cons.prems(2)] by simp
    have "rule_inv l r' evs st" using Cons.prems(1) r' by (simp add: all_inv_def)
    then show "rule_inv l r' evs st1" by (rule rule_inv_frame) (simp add: fr ne)
  qed
  with Cons.IH [of st1] Cons.prems fr [of s] a show ?case by (auto split: prod.split)
qed simp

lemma process_sound:
  assumes "all_inv l rs evs st" "distinct (map ru_id rs)"
    and "process_evidence ops l rs e st = (ids, ems, st')"
  shows "all_inv l rs (evs @ [e]) st'
    \<and> (\<forall>r\<in>set rs. if ru_id r \<in> set ids then full_trail l r evs e (filter (\<lambda>m. em_rule m = ru_id r) ems)
         else filter (\<lambda>m. em_rule m = ru_id r) ems = [])
    \<and> set ids \<subseteq> ru_id ` set rs \<and> em_rule ` set ems \<subseteq> set ids"
  using assms
proof (induction rs arbitrary: st ids ems st')
  case (Cons r rs)
  obtain hit em1 st1 where a: "advance_rule ops l r e st = (hit, em1, st1)" by (metis prod_cases3)
  obtain ids2 em2 st2 where p: "process_evidence ops l rs e st1 = (ids2, em2, st2)" by (metis prod_cases3)
  have out: "ids = (if hit then ru_id r # ids2 else ids2)" "ems = em1 @ em2" "st' = st2"
    using Cons.prems(3) a p by auto
  have inv: "rule_inv l r evs st" "all_inv l rs evs st" using Cons.prems(1) by (simp_all add: all_inv_def)
  have ne: "ru_id r' \<noteq> ru_id r" if "r' \<in> set rs" for r'
    using other_id [OF Cons.prems(2) that] .
  have sr: "sound_result l r evs e (hit, em1, st1)" using advance_rule_sound [OF inv(1), of e] a by simp
  have fr: "so_get ops st1 s = so_get ops st s" if "fst s \<noteq> ru_id r" for s
    using advance_other_rule [OF inv(1) that, of e] a by simp
  have inv1: "all_inv l rs evs st1"
    unfolding all_inv_def
  proof (rule ballI)
    fix r' assume r': "r' \<in> set rs"
    have "rule_inv l r' evs st" using inv(2) r' by (simp add: all_inv_def)
    then show "rule_inv l r' evs st1" by (rule rule_inv_frame) (simp add: fr ne [OF r'])
  qed
  note IH = Cons.IH [OF inv1 _ p]
  have d: "distinct (map ru_id rs)" "ru_id r \<notin> ru_id ` set rs" using Cons.prems(2) by auto
  have r_inv: "rule_inv l r (evs @ [e]) st2"
  proof (rule rule_inv_frame)
    show "rule_inv l r (evs @ [e]) st1" using sr by (simp add: sound_result_def)
    show "so_get ops st2 (ru_id r, key) = so_get ops st1 (ru_id r, key)" for key
      using process_frame [OF inv1 d(1), of "(ru_id r, key)" e] d(2) p by simp
  qed
  have none2: "filter (\<lambda>m. em_rule m = ru_id r) em2 = []" "ru_id r \<notin> set ids2"
    using IH [OF d(1)] d(2) by (auto simp: filter_empty_conv) (metis image_eqI subsetD)
  have head: "if ru_id r \<in> set ids then full_trail l r evs e (filter (\<lambda>m. em_rule m = ru_id r) ems)
       else filter (\<lambda>m. em_rule m = ru_id r) ems = []"
    using sr none2 sound_filter [OF sr, of "ru_id r"] by (auto simp: out sound_result_def split: if_splits)
  have tail: "if ru_id r' \<in> set ids then full_trail l r' evs e (filter (\<lambda>m. em_rule m = ru_id r') ems)
       else filter (\<lambda>m. em_rule m = ru_id r') ems = []" if r': "r' \<in> set rs" for r'
    using IH [OF d(1)] r' ne [OF r'] sound_filter [OF sr, of "ru_id r'"]
    by (auto simp: out split: if_splits)
  have em1: "em_rule ` set em1 \<subseteq> (if hit then {ru_id r} else {})"
    using sr by (auto simp: sound_result_def full_trail_def dest: emit_rule split: if_splits)
  note rest = IH [OF d(1)]
  have c1: "all_inv l (r # rs) (evs @ [e]) st'"
    using rest r_inv by (simp add: out all_inv_def)
  have c2: "\<forall>r\<in>set (r # rs). if ru_id r \<in> set ids then full_trail l r evs e (filter (\<lambda>m. em_rule m = ru_id r) ems)
         else filter (\<lambda>m. em_rule m = ru_id r) ems = []"
    using head tail by simp
  have "set ids2 \<subseteq> ru_id ` set rs" "em_rule ` set em2 \<subseteq> set ids2" using rest by blast+
  then have c3: "set ids \<subseteq> ru_id ` set (r # rs)" "em_rule ` set ems \<subseteq> set ids"
    using em1 by (auto simp: out split: if_splits)
  show ?case using c1 c2 c3 by blast
qed (simp add: all_inv_def)

lemma process_all_inv:
  assumes "\<forall>s. so_get ops st s = None" "distinct (map ru_id rs)"
  shows "all_inv l rs evs (process_all ops l rs evs st)"
proof -
  have "all_inv l rs (pre @ evs) (process_all ops l rs evs st)" if "all_inv l rs pre st" for pre evs st
    using that
  proof (induction evs arbitrary: pre st)
    case (Cons e evs)
    obtain ids ems st' where p: "process_evidence ops l rs e st = (ids, ems, st')" by (metis prod_cases3)
    have "all_inv l rs (pre @ [e]) st'"
      using process_sound [OF Cons.prems assms(2) p] by blast
    from Cons.IH [OF this] p show ?case by simp
  qed simp
  from this [of "[]" st evs] assms(1) show ?thesis by (simp add: all_inv_def rule_inv_def)
qed

lemma advance_inv: "rule_inv l r evs st \<Longrightarrow> rule_inv l r (evs @ [e]) (snd (snd (advance_rule ops l r e st)))"
  using advance_rule_sound [of l r evs st e] by (auto simp: sound_result_def split: prod.splits)

lemma process_isolated:
  assumes "all_inv l rs evs st" "distinct (map ru_id rs)" "r \<in> set rs" "correlate_key l r e \<noteq> Some key"
  shows "so_get ops (snd (snd (process_evidence ops l rs e st))) (ru_id r, key) = so_get ops st (ru_id r, key)"
  using assms
proof (induction rs arbitrary: st)
  case (Cons r' rs)
  obtain hit ems st1 where a: "advance_rule ops l r' e st = (hit, ems, st1)" by (metis prod_cases3)
  have inv: "rule_inv l r' evs st" using Cons.prems(1) by (simp add: all_inv_def)
  have fr: "so_get ops st1 s = so_get ops st s" if "fst s \<noteq> ru_id r'" for s
    using advance_other_rule [OF inv that, of e] a by simp
  have inv1: "all_inv l rs evs st1"
    unfolding all_inv_def
  proof (rule ballI)
    fix q assume q: "q \<in> set rs"
    have "rule_inv l q evs st" using Cons.prems(1) q by (simp add: all_inv_def)
    then show "rule_inv l q evs st1"
      by (rule rule_inv_frame) (simp add: fr other_id [OF Cons.prems(2) q])
  qed
  have d: "distinct (map ru_id rs)" "ru_id r' \<notin> ru_id ` set rs" using Cons.prems(2) by auto
  have out: "snd (snd (process_evidence ops l (r' # rs) e st)) = snd (snd (process_evidence ops l rs e st1))"
    using a by (simp split: prod.split)
  show ?case
  proof (cases "r = r'")
    case True
    have "so_get ops st1 (ru_id r, key) = so_get ops st (ru_id r, key)"
      using advance_frame [OF inv, of "(ru_id r, key)" e] a True Cons.prems(4)
      by (cases "correlate_key l r' e") auto
    with True out process_frame [OF inv1 d(1), of "(ru_id r, key)" e] d(2) show ?thesis by simp
  next
    case False
    then have "r \<in> set rs" using Cons.prems(3) by simp
    with Cons.IH [OF inv1 d(1) _ Cons.prems(4)] fr other_id [OF Cons.prems(2)] out show ?thesis by simp
  qed
qed simp

text \<open>Whatever history leads to it, a rule reported as matched has a complete trail.\<close>

theorem match_backed:
  assumes "\<forall>s. so_get ops st s = None" "distinct (map ru_id rs)"
    and "process_evidence ops l rs e (process_all ops l rs evs st) = (ids, ems, st')"
    and "r \<in> set rs" "ru_id r \<in> set ids"
  shows "full_trail l r evs e (filter (\<lambda>m. em_rule m = ru_id r) ems)"
  using process_sound [OF process_all_inv [OF assms(1,2)] assms(2,3)] assms(4,5) by auto

end

section \<open>Properties\<close>

text \<open>C7. A rule the engine reports as matched has been completed: among the events
seen there is a subsequence ending in the present one, all of one correlate key,
whose events match the rule's steps one by one, in declared order for a linear
rule, and for a graph rule in an order that respects every prerequisite and
covers every step. The signals emitted for it name exactly the principals of
these events, in order and without repetition (or the one pinned by the key).\<close>
theorem chain_match_backed:
  assumes "distinct (map ru_id rs)"
    and "process_evidence memory_ops l rs e (process_all memory_ops l rs evs []) = (ids, ems, st')"
    and "r \<in> set rs" "ru_id r \<in> set ids"
  shows "\<exists>key ws ss. subseq ws evs
     \<and> list_all2 (fits l r key) (ws @ [e]) ss
     \<and> (if ru_mode r = ''dag''
        then st_id ` set (ru_steps r) \<subseteq> st_id ` set ss \<and> prereqs_met ss \<and> distinct (map st_id ss)
        else ss = ru_steps r)
     \<and> filter (\<lambda>m. em_rule m = ru_id r) ems = emit r key e (map ev_principal (ws @ [e]))"
proof -
  have "\<forall>s. so_get memory_ops [] s = None" by (simp add: memory_ops_def memory_get_def)
  from mem.match_backed [OF this assms] show ?thesis
    unfolding full_trail_def trail_def
    by (elim exE, intro exI) (auto simp: complete_steps_def ordered_steps_def split: if_splits)
qed

definition two_step_rule :: chain_rule where
  "two_step_rule = \<lparr> ru_id = ''exfil'', ru_severity = ''high'', ru_emits = ''exfil_chain'',
     ru_correlate = [''tenant_id'', ''correlation_id''],
     ru_steps = [\<lparr> st_id = ''a'', st_kind = ''tool_call'', st_match = [], st_after = [], st_within = None \<rparr>,
                 \<lparr> st_id = ''b'', st_kind = ''response'', st_match = [], st_after = [''a''], st_within = None \<rparr>],
     ru_mode = ''linear'', ru_window = Some 60 \<rparr>"

definition toy_lang :: lang where
  "toy_lang = \<lparr> l_glob = (\<lambda>a p. a = p), l_regex = (\<lambda>p a. Some (a = p)), l_float = (\<lambda>s. None),
     l_repr = (\<lambda>j. ''?'') \<rparr>"

definition toy_event :: "ident \<Rightarrow> string \<Rightarrow> instant \<Rightarrow> event" where
  "toy_event p k t = \<lparr> ev_tenant = ''t'', ev_principal = p, ev_pkind = ''agent'', ev_corr = Some ''c'',
     ev_kind = k, ev_payload = JNull, ev_id = None, ev_occurred = Some t, ev_mono = t \<rparr>"

lemma toy_key: "correlate_key toy_lang two_step_rule (toy_event p k t) = Some [''t'', ''c'']"
proof -
  have ix: "indexers ''tenant_id'' [] = Some (''tenant_id'', [])"
    "indexers ''correlation_id'' [] = Some (''correlation_id'', [])"
    by (subst indexers.simps, simp)+
  show ?thesis
    by (simp add: correlate_key_def two_step_rule_def toy_event_def event_ctx_def field_value_def
        segment_value_def member_def py_str_def ix)
qed

lemma toy_step: "event_matches_step toy_lang (toy_event p k t) s \<longleftrightarrow>
    st_kind s = k \<and> all_match toy_lang (event_ctx (toy_event p k t)) (st_match s)"
  by (simp add: event_matches_step_def toy_event_def)

lemma toy_run:
  "process_evidence memory_ops toy_lang [two_step_rule] (toy_event ''q'' ''response'' 1000)
     (process_all memory_ops toy_lang [two_step_rule] [toy_event ''p'' ''tool_call'' 1] []) =
   ([''exfil''], emit two_step_rule [''t'', ''c''] (toy_event ''q'' ''response'' 1000) [''p'', ''q''], [])"
  by (simp add: advance_rule_def toy_key advance_linear_def Let_def toy_step memory_ops_def memory_get_def
      memory_update_def memory_delete_def slot_of_def first_match_def extend_match_def all_match_def
      global_window_over_def window_closed_def two_step_rule_def [THEN arg_cong [of _ _ ru_mode]]
      two_step_rule_def [THEN arg_cong [of _ _ ru_steps]] two_step_rule_def [THEN arg_cong [of _ _ ru_id]])
    (simp add: toy_event_def)

theorem chain_match_backed_witness:
  "\<exists>key ws ss. subseq ws [toy_event ''p'' ''tool_call'' 1]
     \<and> list_all2 (fits toy_lang two_step_rule key) (ws @ [toy_event ''q'' ''response'' 1000]) ss
     \<and> ss = ru_steps two_step_rule"
proof -
  have "distinct (map ru_id [two_step_rule])" "two_step_rule \<in> set [two_step_rule]"
    "ru_id two_step_rule \<in> set [''exfil'']" "ru_mode two_step_rule \<noteq> ''dag''"
    by (simp_all add: two_step_rule_def)
  with chain_match_backed [OF _ toy_run] show ?thesis by (metis (no_types, lifting))
qed

text \<open>State does not leak between correlation keys: an event changes, for each
rule, only the partial match of the key it computes for itself; an event without
one (a missing or blank field) changes nothing of that rule. So a tenant's events
never touch partial matches kept under another tenant's key.\<close>
theorem chain_state_isolated:
  assumes "distinct (map ru_id rs)"
    and "process_evidence memory_ops l rs e (process_all memory_ops l rs evs []) = (ids, ems, st')"
    and "r \<in> set rs" "correlate_key l r e \<noteq> Some key"
  shows "memory_get st' (ru_id r, key) = memory_get (process_all memory_ops l rs evs []) (ru_id r, key)"
proof -
  have "\<forall>s. so_get memory_ops [] s = None" by (simp add: memory_ops_def memory_get_def)
  from mem.process_all_inv [OF this assms(1)]
  have "mem.all_inv l rs evs (process_all memory_ops l rs evs [])" .
  from mem.process_isolated [OF this assms(1,3,4)] assms(2) show ?thesis
    by (simp add: memory_ops_def)
qed

theorem chain_state_isolated_witness:
  "memory_get [] (''exfil'', [''other'', ''c'']) = None"
  using chain_state_isolated [OF _ toy_run, of two_step_rule "[''other'', ''c'']"] toy_key
  by (simp add: memory_get_def)

text \<open>The global window does not bound a chain: when the event that completes a
linear rule arrives, the rule fires however long after its first step, whatever
\<open>window_seconds\<close> says; the cap is consulted only by events that do not match.\<close>
theorem global_window_not_enforced:
  assumes "memory_get st (ru_id r, key) = Some pm" "Suc (pm_idx pm) = length (ru_steps r)"
    and "event_matches_step l e (last (ru_steps r))" "st_within (last (ru_steps r)) = None"
    and "now_ts e - hd (pm_ts pm) > w" "ru_window r = Some w"
  shows "fst (advance_linear memory_ops l r key e st)"
proof -
  have "ru_steps r \<noteq> []" using assms(2) by auto
  then have "last (ru_steps r) = ru_steps r ! pm_idx pm"
    using assms(2) by (simp add: last_conv_nth assms(2) [symmetric])
  with assms show ?thesis
    by (simp add: advance_linear_def Let_def memory_ops_def window_closed_def)
qed

theorem global_window_not_enforced_witness:
  "fst (advance_linear memory_ops toy_lang two_step_rule [''t'', ''c''] (toy_event ''q'' ''response'' 1000)
     [((''exfil'', [''t'', ''c'']), first_match two_step_rule [''t'', ''c''] (toy_event ''p'' ''tool_call'' 1) [])])"
  by (rule global_window_not_enforced [where w = 60
        and pm = "first_match two_step_rule [''t'', ''c''] (toy_event ''p'' ''tool_call'' 1) []"])
    (simp_all add: memory_get_def two_step_rule_def first_match_def toy_event_def toy_step [unfolded toy_event_def]
      event_matches_step_def all_match_def now_ts_def)

text \<open>The principals charged for a match are distinct and never blank. When the
key pins the tenant but not the principal they are all participants and the one
whose event completed the chain; when it pins neither, only the latter, so a
chain grouped by request id alone cannot charge another tenant's principal.\<close>
theorem attribution_sound:
  "distinct (attributable kv e ps) \<and> [] \<notin> set (attributable kv e ps)
   \<and> (map_of kv ''principal_id'' = None \<longrightarrow> map_of kv ''tenant_id'' \<noteq> None \<longrightarrow>
        set (attributable kv e ps) = (set ps \<union> {ev_principal e}) - {[]})
   \<and> (map_of kv ''principal_id'' = None \<longrightarrow> map_of kv ''tenant_id'' = None \<longrightarrow>
        set (attributable kv e ps) = {ev_principal e} - {[]})"
  by (auto simp: attributable_def Let_def split: option.split)

theorem attribution_sound_witness:
  "set (attributable [(''tenant_id'', ''t'')] (toy_event ''q'' ''response'' 1) [''p'', ''q'', []]) =
     ({''p'', ''q'', []} \<union> {''q''}) - {[]}
   \<and> set (attributable [(''correlation_id'', ''c'')] (toy_event ''q'' ''response'' 1) [''p'']) = {''q''} - {[]}"
  using attribution_sound [of "[(''tenant_id'', ''t'')]" "toy_event ''q'' ''response'' 1" "[''p'', ''q'', []]"]
    attribution_sound [of "[(''correlation_id'', ''c'')]" "toy_event ''q'' ''response'' 1" "[''p'']"]
  by (simp add: toy_event_def)

end
