(* ===== verification/Delegation.thy ===== *)
theory Delegation
  imports Principals
begin

text \<open>
  Delegation between agents: the capability comparison and its enforcement
  (\<open>kya/delegation_policy.py\<close>), the per-scope overrides of the mode
  (\<open>kya/delegation_overrides.py\<close>), the depth of the delegation graph
  (\<open>kya/delegation.py\<close>), the premium for risky delegates
  (\<open>kya/delegation_trust.py\<close>), and the walk that finds a request's correlation id
  (\<open>kya/attack_chains/delegation_correlation.py\<close>). The tool catalog, which the host
  installs, is a parameter.
\<close>

section \<open>Capabilities\<close>

record agent_def =
  ag_key :: "string option"
  ag_access :: "string option"
  ag_classes :: "string list option"
  ag_loop :: "string option"
  ag_tools :: "string list option"
  ag_delegates :: "string list option"

definition ACCESS_RANK :: "(string \<times> nat) list" where
  "ACCESS_RANK = [(''read'', 0), (''write'', 1), (''admin'', 2)]"

definition HUMAN_LOOP_RANK :: "(string \<times> nat) list" where
  "HUMAN_LOOP_RANK =
    [(''none'', 0), (''autonomous'', 0), (''out_of_loop'', 0), (''observed'', 1),
     (''on_the_loop'', 2), (''hybrid'', 2), (''in_the_loop'', 3)]"

definition DELEGATION_POLICY_MODES :: "string list" where
  "DELEGATION_POLICY_MODES = [''observe'', ''flag'', ''block'']"

definition current_mode :: "string option \<Rightarrow> string" where
  "current_mode env =
     (let raw = lower (or_else env ''observe'')
      in if raw \<notin> set DELEGATION_POLICY_MODES then ''observe'' else raw)"

text \<open>A violation: its kind, both values, and what the sub-agent has beyond the parent.\<close>

record violation =
  vi_kind :: string
  vi_parent :: "string list"
  vi_sub :: "string list"
  vi_extra :: "string list"

type_synonym catalog = "(string \<times> string list) list"

definition WRITE_PREFIXES :: "string list" where
  "WRITE_PREFIXES =
    [''create_'', ''delete_'', ''update_'', ''generate_'', ''merge_'', ''override_'', ''revert_'',
     ''ingest_'', ''execute_'', ''compile_'', ''connect_'', ''test_'', ''record_'', ''manage_'',
     ''set_'', ''save_'', ''publish_'', ''ack_'', ''acknowledge_'', ''approve_'', ''reject_'',
     ''deactivate_'', ''suspend_'', ''reactivate_'', ''remove_'']"

definition ADMIN_ROLES :: "string list" where
  "ADMIN_ROLES = [''rule_admin'', ''governance_admin'']"

definition is_write_tool :: "catalog \<Rightarrow> string \<Rightarrow> bool" where
  "is_write_tool cat t =
     (if t = [] then False
      else if map_of cat t \<noteq> None then True
      else list_ex (starts_with t) WRITE_PREFIXES)"

definition is_admin_tool :: "catalog \<Rightarrow> string \<Rightarrow> bool" where
  "is_admin_tool cat t =
     list_ex (\<lambda>r. r \<in> set ADMIN_ROLES) (case map_of cat t of Some rs \<Rightarrow> rs | None \<Rightarrow> [])"

definition check_access_level :: "agent_def \<Rightarrow> agent_def \<Rightarrow> violation option" where
  "check_access_level p s =
     (let pv = lower (or_else (ag_access p) []); sv = lower (or_else (ag_access s) [])
      in if pv = [] \<or> sv = [] then None
         else (case (map_of ACCESS_RANK pv, map_of ACCESS_RANK sv) of
                 (Some pr, Some sr) \<Rightarrow>
                   if pr < sr then Some \<lparr> vi_kind = ''access_escalation'', vi_parent = [pv],
                                         vi_sub = [sv], vi_extra = [] \<rparr>
                   else None
               | _ \<Rightarrow> None))"

definition check_data_classes :: "agent_def \<Rightarrow> agent_def \<Rightarrow> violation option" where
  "check_data_classes p s =
     (case ag_classes p of
        None \<Rightarrow> None
      | Some pc \<Rightarrow>
          (let sc = (case ag_classes s of Some c \<Rightarrow> c | None \<Rightarrow> []);
               extra = filter (\<lambda>c. c \<notin> set pc) sc
           in if extra = [] then None
              else Some \<lparr> vi_kind = ''data_class_widening'', vi_parent = sort (remdups pc),
                     vi_sub = sort (remdups sc), vi_extra = sort (remdups extra) \<rparr>))"

definition check_human_loop :: "agent_def \<Rightarrow> agent_def \<Rightarrow> violation option" where
  "check_human_loop p s =
     (let pv = lower (or_else (ag_loop p) []); sv = lower (or_else (ag_loop s) [])
      in if pv = [] \<or> sv = [] then None
         else (case (map_of HUMAN_LOOP_RANK pv, map_of HUMAN_LOOP_RANK sv) of
                 (Some pr, Some sr) \<Rightarrow>
                   if sr < pr then Some \<lparr> vi_kind = ''human_loop_relax'', vi_parent = [pv],
                                         vi_sub = [sv], vi_extra = [] \<rparr>
                   else None
               | _ \<Rightarrow> None))"

definition admin_or_write_tools :: "catalog \<Rightarrow> string list option \<Rightarrow> string list" where
  "admin_or_write_tools cat ts =
     remdups (filter (\<lambda>t. is_admin_tool cat t \<or> is_write_tool cat t)
       (case ts of Some xs \<Rightarrow> xs | None \<Rightarrow> []))"

definition check_tools :: "catalog \<Rightarrow> agent_def \<Rightarrow> agent_def \<Rightarrow> violation option" where
  "check_tools cat p s =
     (let pt = admin_or_write_tools cat (ag_tools p); st = admin_or_write_tools cat (ag_tools s);
          extra = filter (\<lambda>t. t \<notin> set pt) st
      in if extra = [] then None
         else Some \<lparr> vi_kind = ''tool_widening'', vi_parent = sort pt, vi_sub = sort st,
                     vi_extra = sort extra \<rparr>)"

definition check_delegation :: "catalog \<Rightarrow> agent_def \<Rightarrow> agent_def \<Rightarrow> violation list" where
  "check_delegation cat p s =
     List.map_filter id [check_access_level p s, check_data_classes p s, check_human_loop p s, check_tools cat p s]"

section \<open>Overrides of the mode\<close>

record override_row =
  or_id :: nat
  or_tenant :: ident
  or_parent :: "string option"
  or_sub :: "string option"
  or_kind :: "string option"
  or_mode :: string
  or_reason :: "string option"
  or_by :: "ident option"
  or_effective :: instant
  or_expires :: "instant option"
  or_created :: instant

type_synonym overrides = "override_row list"

definition set_delegation_override ::
    "nat \<Rightarrow> instant \<Rightarrow> overrides \<Rightarrow> ident \<Rightarrow> string option \<Rightarrow> string option \<Rightarrow> string option \<Rightarrow>
     string option \<Rightarrow> string option \<Rightarrow> ident option \<Rightarrow> instant option \<Rightarrow> instant option \<Rightarrow>
     (string + nat) \<times> overrides" where
  "set_delegation_override new_id now db t mode parent sub kind reason changed_by effective expires =
     (let norm = strip (lower (or_else mode []))
      in if t = [] then (Inl ''InvalidOverrideError'', db)
         else if norm \<notin> set DELEGATION_POLICY_MODES then (Inl ''InvalidOverrideError'', db)
         else if (case (expires, effective) of (Some x, Some f) \<Rightarrow> x \<le> f | _ \<Rightarrow> False)
         then (Inl ''InvalidOverrideError'', db)
         else (Inr new_id, db @
           [\<lparr> or_id = new_id, or_tenant = t, or_parent = parent, or_sub = sub, or_kind = kind,
              or_mode = norm, or_reason = reason, or_by = changed_by,
              or_effective = (case effective of Some f \<Rightarrow> f | None \<Rightarrow> now),
              or_expires = expires, or_created = now \<rparr>]))"

definition override_active :: "instant \<Rightarrow> override_row \<Rightarrow> bool" where
  "override_active now r =
     (or_effective r \<le> now \<and> (case or_expires r of None \<Rightarrow> True | Some x \<Rightarrow> now < x))"

text \<open>Soft delete: the row expires one second ago, unless it already has.\<close>

definition delete_delegation_override :: "bool \<Rightarrow> instant \<Rightarrow> overrides \<Rightarrow> nat \<Rightarrow> bool \<times> overrides" where
  "delete_delegation_override db_ok now db i =
     (if \<not> db_ok then (False, db)
      else
        (let marker = now - 1000000;
             db' = map_where (\<lambda>r. or_id r = i \<and> (case or_expires r of None \<Rightarrow> True | Some x \<Rightarrow> marker < x))
                     (\<lambda>r. r\<lparr> or_expires := Some marker \<rparr>) db
         in ((case List.find (\<lambda>r. or_id r = i) db' of None \<Rightarrow> False | Some r \<Rightarrow> or_expires r \<noteq> None), db')))"

definition list_delegation_overrides ::
    "bool \<Rightarrow> instant \<Rightarrow> overrides \<Rightarrow> ident \<Rightarrow> bool \<Rightarrow> string option \<Rightarrow> string option \<Rightarrow> string option \<Rightarrow>
     override_row list" where
  "list_delegation_overrides db_ok now db t include_inactive parent sub kind =
     (if \<not> db_ok then []
      else rev (sort_key or_id (filter (\<lambda>r. or_tenant r = t
             \<and> (include_inactive \<or> override_active now r)
             \<and> (parent \<noteq> None \<longrightarrow> or_parent r = parent)
             \<and> (sub \<noteq> None \<longrightarrow> or_sub r = sub)
             \<and> (kind \<noteq> None \<longrightarrow> or_kind r = kind)) db)))"

definition covers :: "string option \<Rightarrow> string option \<Rightarrow> bool" where
  "covers field arg = (field = None \<or> field = arg)"

definition override_matches ::
    "instant \<Rightarrow> ident \<Rightarrow> string option \<Rightarrow> string option \<Rightarrow> string option \<Rightarrow> override_row \<Rightarrow> bool" where
  "override_matches now t parent sub kind r =
     (or_tenant r = t \<and> override_active now r \<and> covers (or_parent r) parent
      \<and> covers (or_sub r) sub \<and> covers (or_kind r) kind)"

definition specificity :: "override_row \<Rightarrow> nat" where
  "specificity r = length (filter (\<lambda>x. x \<noteq> None) [or_parent r, or_sub r, or_kind r])"

text \<open>The winner: more scope fields first, then the later id.\<close>

definition beats :: "override_row \<Rightarrow> override_row \<Rightarrow> bool" where
  "beats a b = (specificity b < specificity a \<or> (specificity b = specificity a \<and> or_id b < or_id a))"

fun best_override :: "overrides \<Rightarrow> override_row option" where
  "best_override [] = None"
| "best_override (r # rs) =
     (case best_override rs of None \<Rightarrow> Some r | Some b \<Rightarrow> Some (if beats b r then b else r))"

datatype mode_source = GlobalEnvNoTenant | GlobalEnv | Override nat

definition resolve_effective_mode ::
    "bool \<Rightarrow> string option \<Rightarrow> instant \<Rightarrow> overrides \<Rightarrow> ident \<Rightarrow> string option \<Rightarrow> string option \<Rightarrow>
     string option \<Rightarrow> string \<times> mode_source" where
  "resolve_effective_mode db_ok env now db t parent sub kind =
     (if t = [] then (current_mode env, GlobalEnvNoTenant)
      else
        (let rows = (if db_ok then filter (override_matches now t parent sub kind) db else [])
         in (case best_override rows of
               None \<Rightarrow> (current_mode env, GlobalEnv)
             | Some w \<Rightarrow> (or_mode w, Override (or_id w)))))"

section \<open>Enforcement\<close>

record violation_row =
  vr_tenant :: ident
  vr_sub_inv :: int
  vr_parent_inv :: "int option"
  vr_parent :: string
  vr_sub :: string
  vr_violation :: violation
  vr_mode :: string
  vr_blocked :: bool

text \<open>The insert of each row may fail by itself; \<open>ok\<close> tells which succeed.\<close>

definition persist_violations ::
    "(violation_row \<Rightarrow> bool) \<Rightarrow> violation_row list \<Rightarrow> violation_row list \<Rightarrow> violation_row list" where
  "persist_violations ok db rows = db @ filter ok rows"

datatype enforcement = Violations "violation list" | DelegationPolicyError "violation list"

definition violation_mode ::
    "bool \<Rightarrow> string option \<Rightarrow> instant \<Rightarrow> overrides \<Rightarrow> ident \<Rightarrow> string \<Rightarrow> string \<Rightarrow> string option \<Rightarrow>
     violation \<Rightarrow> string" where
  "violation_mode db_ok env now ovr t parent sub force v =
     (case force of Some m \<Rightarrow> m
      | None \<Rightarrow> fst (resolve_effective_mode db_ok env now ovr t (Some parent) (Some sub) (Some (vi_kind v))))"

definition enforce_delegation_policy ::
    "catalog \<Rightarrow> (violation \<Rightarrow> string) \<Rightarrow> (violation_row \<Rightarrow> bool) \<Rightarrow> ident \<Rightarrow> int \<Rightarrow> int option \<Rightarrow>
     string \<Rightarrow> string \<Rightarrow> agent_def option \<Rightarrow> agent_def option \<Rightarrow> violation_row list \<Rightarrow>
     enforcement \<times> violation_row list" where
  "enforce_delegation_policy cat mode_of ok t sub_inv parent_inv parent sub pdef sdef db =
     (case (pdef, sdef) of
        (Some p, Some s) \<Rightarrow>
          (let vs = check_delegation cat p s;
               rows = map (\<lambda>v. \<lparr> vr_tenant = t, vr_sub_inv = sub_inv, vr_parent_inv = parent_inv,
                        vr_parent = parent, vr_sub = sub, vr_violation = v, vr_mode = mode_of v,
                        vr_blocked = (mode_of v = ''block'') \<rparr>) vs
           in if vs = [] then (Violations [], db)
              else ((if list_ex (\<lambda>v. mode_of v = ''block'') vs
                     then DelegationPolicyError (filter (\<lambda>v. mode_of v = ''block'') vs)
                     else Violations vs),
                    persist_violations ok db rows))
      | _ \<Rightarrow> (Violations [], db))"

section \<open>Depth of the graph\<close>

definition MAX_TRAVERSAL_NODES :: nat where "MAX_TRAVERSAL_NODES = 5000"
definition MAX_CHAIN_DEPTH :: nat where "MAX_CHAIN_DEPTH = 50"
definition PER_HOP :: int where "PER_HOP = 6"
definition MAX_DEPTH_CAP :: int where "MAX_DEPTH_CAP = 30"

type_synonym graph = "(string \<times> string list) list"

definition targets :: "graph \<Rightarrow> string \<Rightarrow> string list" where
  "targets g k = (case map_of g k of Some ts \<Rightarrow> ts | None \<Rightarrow> [])"

text \<open>The loop: the queue is popped at its end.\<close>

function depth_loop :: "graph \<Rightarrow> string list \<Rightarrow> nat \<Rightarrow> (string \<times> nat) list \<Rightarrow> nat" where
  "depth_loop g visited best queue =
     (if queue = [] \<or> MAX_TRAVERSAL_NODES \<le> length visited then best
      else
        (case last queue of (k, d) \<Rightarrow>
           if k \<in> set visited \<or> MAX_CHAIN_DEPTH < d then depth_loop g visited best (butlast queue)
           else depth_loop g (k # visited) (max best d)
                  (butlast queue @ map (\<lambda>t. (t, d + 1)) (filter (\<lambda>t. t \<notin> set (k # visited)) (targets g k)))))"
  by auto
termination
  by (relation "(\<lambda>(g, visited, best, queue). MAX_TRAVERSAL_NODES - length visited) <*mlex*>
                measure (\<lambda>(g, visited, best, queue). length queue)")
    (auto simp: mlex_iff wf_mlex)

declare depth_loop.simps [simp del]

definition max_delegation_depth :: "string option \<Rightarrow> string list option \<Rightarrow> graph \<Rightarrow> nat" where
  "max_delegation_depth start direct g =
     (case (truthy start, direct) of
        (True, _) \<Rightarrow> depth_loop g [] 0 [(the start, 0)]
      | (False, Some ts) \<Rightarrow>
          if ts = [] then 0 else depth_loop g [] 0 (map (\<lambda>t. (t, 1)) (filter (\<lambda>t. t \<noteq> []) ts))
      | (False, None) \<Rightarrow> 0)"

definition delegation_weight :: "int \<Rightarrow> int" where
  "delegation_weight depth = (if depth \<le> 0 then 0 else min MAX_DEPTH_CAP (PER_HOP * depth))"

section \<open>Risky delegates\<close>

definition DELEGATION_TRUST_CAP :: int where "DELEGATION_TRUST_CAP = 25"
definition THRESHOLD_RISKY :: int where "THRESHOLD_RISKY = 40"
definition PER_RISKY_DELEGATE :: int where "PER_RISKY_DELEGATE = 4"
definition PER_BLOCKED_DELEGATE :: int where "PER_BLOCKED_DELEGATE = 10"

definition delegate_penalty :: "principal_table \<Rightarrow> ident \<Rightarrow> string \<Rightarrow> int" where
  "delegate_penalty tab t target =
     (let tr = get_principal_trust tab (t, ''agent'', target)
      in if \<not> (pt_counts tr \<noteq> [] \<or> pt_score tr < 50) then 0
         else if pt_score tr < 15 then PER_BLOCKED_DELEGATE
         else if pt_score tr < THRESHOLD_RISKY then PER_RISKY_DELEGATE else 0)"

definition delegation_trust_weight ::
    "principal_table option \<Rightarrow> ident \<Rightarrow> string list option \<Rightarrow> int \<times> (string \<times> int) list" where
  "delegation_trust_weight db t delegates =
     (case (db, delegates) of
        (Some tab, Some ds) \<Rightarrow>
          (let evidence = filter (\<lambda>(d, p). p \<noteq> 0) (map (\<lambda>d. (d, delegate_penalty tab t d)) ds);
               delta = sum_list (map snd evidence)
           in if delta = 0 then (0, []) else (min DELEGATION_TRUST_CAP delta, evidence))
      | _ \<Rightarrow> (0, []))"

section \<open>Finding a request's correlation id\<close>

definition DEFAULT_MAX_HOPS :: int where "DEFAULT_MAX_HOPS = 20"

record inv_link =
  il_tenant :: ident
  il_id :: int
  il_corr :: "string option"
  il_parent :: "int option"

fun correlation_walk :: "nat \<Rightarrow> inv_link list \<Rightarrow> ident \<Rightarrow> int \<Rightarrow> string option" where
  "correlation_walk 0 db t i = None"
| "correlation_walk (Suc n) db t i =
     (case List.find (\<lambda>r. il_tenant r = t \<and> il_id r = i) db of
        None \<Rightarrow> None
      | Some r \<Rightarrow>
          if truthy (il_corr r) then il_corr r
          else (case il_parent r of None \<Rightarrow> None | Some p \<Rightarrow> correlation_walk n db t p))"

definition correlation_id_for_invocation ::
    "bool \<Rightarrow> inv_link list \<Rightarrow> ident \<Rightarrow> int option \<Rightarrow> int \<Rightarrow> string option" where
  "correlation_id_for_invocation db_ok db t inv_id max_hops =
     (case inv_id of
        None \<Rightarrow> None
      | Some i \<Rightarrow>
          if t = [] \<or> i \<le> 0 \<or> max_hops \<le> 0 \<or> \<not> db_ok then None
          else correlation_walk (nat max_hops) db t i)"

end
