(* ===== verification/DelegationFacts.thy ===== *)
theory DelegationFacts
  imports Delegation
begin

text \<open>
  What the delegation rules guarantee: when clean hops compose, which override
  decides the mode, what enforcement records and refuses, and what the depth of
  the delegation graph measures.
\<close>

section \<open>The comparison\<close>

definition rank_le :: "(string \<times> nat) list \<Rightarrow> string option \<Rightarrow> string option \<Rightarrow> bool" where
  "rank_le ranks a b =
     (case (map_of ranks (lower (or_else a [])), map_of ranks (lower (or_else b []))) of
        (Some ra, Some rb) \<Rightarrow> ra \<le> rb | _ \<Rightarrow> True)"

definition class_set :: "string list option \<Rightarrow> string set" where
  "class_set c = set (case c of Some xs \<Rightarrow> xs | None \<Rightarrow> [])"

definition power_tools :: "catalog \<Rightarrow> agent_def \<Rightarrow> string set" where
  "power_tools cat a = set (admin_or_write_tools cat (ag_tools a))"

lemma lower_Nil [simp]: "lower [] = []" "lower s = [] \<longleftrightarrow> s = []"
  by (simp_all add: lower_def)

lemma ranks_not_empty [simp]:
  "map_of ACCESS_RANK [] = None" "map_of HUMAN_LOOP_RANK [] = None"
  by (simp_all add: ACCESS_RANK_def HUMAN_LOOP_RANK_def)

lemma check_access_level_None:
  "check_access_level p s = None \<longleftrightarrow> rank_le ACCESS_RANK (ag_access s) (ag_access p)"
  by (auto simp: check_access_level_def rank_le_def Let_def split: option.splits)

lemma check_human_loop_None:
  "check_human_loop p s = None \<longleftrightarrow> rank_le HUMAN_LOOP_RANK (ag_loop p) (ag_loop s)"
  by (auto simp: check_human_loop_def rank_le_def Let_def split: option.splits)

lemma check_data_classes_None:
  "check_data_classes p s = None \<longleftrightarrow>
     ag_classes p = None \<or> class_set (ag_classes s) \<subseteq> class_set (ag_classes p)"
  by (cases "ag_classes p"; cases "ag_classes s")
    (auto simp: check_data_classes_def class_set_def Let_def filter_empty_conv)

lemma check_tools_None:
  "check_tools cat p s = None \<longleftrightarrow> power_tools cat s \<subseteq> power_tools cat p"
  by (auto simp: check_tools_def power_tools_def Let_def filter_empty_conv)

lemmas dimension_None = check_access_level_None check_human_loop_None check_data_classes_None check_tools_None

lemma clean_iff_dimensions:
  "check_delegation cat p s = [] \<longleftrightarrow>
     check_access_level p s = None \<and> check_data_classes p s = None
     \<and> check_human_loop p s = None \<and> check_tools cat p s = None"
  by (auto simp: check_delegation_def List.map_filter_def filter_empty_conv)

lemma rank_le_trans:
  "rank_le R a b \<Longrightarrow> rank_le R b c \<Longrightarrow> map_of R (lower (or_else b [])) \<noteq> None \<Longrightarrow> rank_le R a c"
  by (auto simp: rank_le_def split: option.splits)

text \<open>C8. A hop is clean exactly when the sub-agent's access rank is not above the
  parent's, its oversight rank not below, its data classes within the parent's
  declared ones, and its write and admin tools among the parent's. Clean hops
  compose: if the middle agent declares a known access level, a known oversight
  level and its data classes, and both hops are clean, then the grandchild is
  within the first agent's capabilities too. Without those declarations they do
  not: an agent that declares none of the three passes below any parent and lets
  any sub-agent with the same tools pass below itself.\<close>

theorem clean_hops_compose:
  "(check_delegation cat p s = [] \<longleftrightarrow>
           rank_le ACCESS_RANK (ag_access s) (ag_access p)
           \<and> (ag_classes p = None \<or> class_set (ag_classes s) \<subseteq> class_set (ag_classes p))
           \<and> rank_le HUMAN_LOOP_RANK (ag_loop p) (ag_loop s)
           \<and> power_tools cat s \<subseteq> power_tools cat p)
   \<and> (check_delegation cat p m = [] \<and> check_delegation cat m s = []
         \<and> map_of ACCESS_RANK (lower (or_else (ag_access m) [])) \<noteq> None
         \<and> map_of HUMAN_LOOP_RANK (lower (or_else (ag_loop m) [])) \<noteq> None
         \<and> ag_classes m \<noteq> None \<longrightarrow> check_delegation cat p s = [])
   \<and> (check_tools cat p s = None
         \<and> ag_access u = None \<and> ag_loop u = None \<and> ag_classes u = None \<and> ag_tools u = ag_tools s \<longrightarrow>
         check_delegation cat p u = [] \<and> check_delegation cat u s = [])"
proof -
  have *: "check_delegation cat p s = [] \<longleftrightarrow>
           rank_le ACCESS_RANK (ag_access s) (ag_access p)
           \<and> (ag_classes p = None \<or> class_set (ag_classes s) \<subseteq> class_set (ag_classes p))
           \<and> rank_le HUMAN_LOOP_RANK (ag_loop p) (ag_loop s)
           \<and> power_tools cat s \<subseteq> power_tools cat p" for p s
    by (simp add: clean_iff_dimensions dimension_None)
  moreover have "check_delegation cat p s = []"
    if "check_delegation cat p m = []" "check_delegation cat m s = []"
      "map_of ACCESS_RANK (lower (or_else (ag_access m) [])) \<noteq> None"
      "map_of HUMAN_LOOP_RANK (lower (or_else (ag_loop m) [])) \<noteq> None" "ag_classes m \<noteq> None"
    using that rank_le_trans [of ACCESS_RANK "ag_access s" "ag_access m" "ag_access p"]
      rank_le_trans [of HUMAN_LOOP_RANK "ag_loop p" "ag_loop m" "ag_loop s"]
    unfolding * by blast
  moreover have "check_delegation cat p u = [] \<and> check_delegation cat u s = []"
    if "check_tools cat p s = None" "ag_access u = None" "ag_loop u = None" "ag_classes u = None"
      "ag_tools u = ag_tools s"
    using that by (simp add: * rank_le_def class_set_def dimension_None)
      (simp add: power_tools_def split: option.splits)
  ultimately show ?thesis by blast
qed

definition reader :: agent_def where
  "reader = \<lparr> ag_key = Some ''r'', ag_access = Some ''read'', ag_classes = Some [''pii''],
     ag_loop = Some ''in_the_loop'', ag_tools = None, ag_delegates = None \<rparr>"

definition admin_agent :: agent_def where
  "admin_agent = \<lparr> ag_key = Some ''a'', ag_access = Some ''admin'', ag_classes = Some [''phi''],
     ag_loop = Some ''none'', ag_tools = None, ag_delegates = None \<rparr>"

definition silent_agent :: agent_def where
  "silent_agent = \<lparr> ag_key = Some ''u'', ag_access = None, ag_classes = None,
     ag_loop = None, ag_tools = None, ag_delegates = None \<rparr>"

lemma lower_samples:
  "lower ''read'' = ''read''" "lower ''admin'' = ''admin''" "lower ''none'' = ''none''"
  "lower ''in_the_loop'' = ''in_the_loop''"
  by (simp_all add: py)

lemma agent_samples:
  "check_delegation [] reader reader = []"
  "map_of ACCESS_RANK (lower (or_else (ag_access reader) [])) \<noteq> None"
  "map_of HUMAN_LOOP_RANK (lower (or_else (ag_loop reader) [])) \<noteq> None"
  "check_access_level reader admin_agent \<noteq> None" "check_tools [] reader admin_agent = None"
  by (simp_all add: clean_iff_dimensions dimension_None rank_le_def power_tools_def reader_def
      admin_agent_def lower_samples ACCESS_RANK_def HUMAN_LOOP_RANK_def admin_or_write_tools_def)

lemma clean_hops_compose_witness:
  "check_delegation [] reader reader = []
   \<and> check_delegation [] reader silent_agent = [] \<and> check_delegation [] silent_agent admin_agent = []
   \<and> check_delegation [] reader admin_agent \<noteq> []"
proof (intro conjI)
  show "check_delegation [] reader reader = []"
    using clean_hops_compose [of "[]" reader reader reader] agent_samples(1-3) by (simp add: reader_def)
  show "check_delegation [] reader silent_agent = []" "check_delegation [] silent_agent admin_agent = []"
    using clean_hops_compose [of "[]" reader admin_agent reader silent_agent] agent_samples(5)
    by (simp_all add: silent_agent_def admin_agent_def)
  show "check_delegation [] reader admin_agent \<noteq> []"
    using agent_samples(4) by (simp add: clean_iff_dimensions)
qed

section \<open>The mode in force\<close>

lemma best_override_None [simp]: "best_override rs = None \<longleftrightarrow> rs = []"
  by (cases rs) (auto split: option.splits)

lemma best_override_maximal:
  "best_override rs = Some w \<Longrightarrow> w \<in> set rs \<and> (\<forall>r\<in>set rs. \<not> beats r w)"
proof (induction rs arbitrary: w)
  case (Cons r rs)
  show ?case
  proof (cases "best_override rs")
    case None
    with Cons.prems show ?thesis by (auto simp: beats_def)
  next
    case (Some b)
    note IH = Cons.IH [OF Some]
    show ?thesis
    proof (cases "beats b r")
      case True
      with Cons.prems Some have "w = b" by simp
      with IH True show ?thesis by (auto simp: beats_def)
    next
      case False
      with Cons.prems Some have "w = r" by simp
      moreover have "\<not> beats x r" if "x \<in> set rs" for x
        using IH that False by (force simp: beats_def)
      ultimately show ?thesis by (auto simp: beats_def)
    qed
  qed
qed simp

text \<open>The mode of a delegation scope is that of one active override row of the
  tenant that covers the scope, chosen so that no other such row names more scope
  fields, nor as many with a later id; only when no row covers the scope (or the
  query fails) does the process-wide environment setting decide. Rows of other
  tenants, expired rows and rows not yet effective never change it.\<close>

theorem mode_most_specific:
  "(resolve_effective_mode True env now db t parent sub kind = (m, Override i) \<longleftrightarrow>
           t \<noteq> [] \<and> (\<exists>w\<in>set db. override_matches now t parent sub kind w \<and> or_mode w = m \<and> or_id w = i
             \<and> best_override (filter (override_matches now t parent sub kind) db) = Some w
             \<and> (\<forall>r\<in>set db. override_matches now t parent sub kind r \<longrightarrow> \<not> beats r w)))
   \<and> (resolve_effective_mode True env now db t parent sub kind = (m, GlobalEnv) \<longleftrightarrow>
           t \<noteq> [] \<and> m = current_mode env \<and> (\<forall>r\<in>set db. \<not> override_matches now t parent sub kind r))
   \<and> ((\<forall>r\<in>set extra. or_tenant r \<noteq> t \<or> \<not> override_active now r) \<longrightarrow>
           resolve_effective_mode True env now (db @ extra) t parent sub kind
           = resolve_effective_mode True env now db t parent sub kind)"
proof -
  let ?rows = "filter (override_matches now t parent sub kind) db"
  have "resolve_effective_mode True env now db t parent sub kind = (m, Override i) \<longleftrightarrow>
           t \<noteq> [] \<and> (\<exists>w\<in>set db. override_matches now t parent sub kind w \<and> or_mode w = m \<and> or_id w = i
             \<and> best_override ?rows = Some w
             \<and> (\<forall>r\<in>set db. override_matches now t parent sub kind r \<longrightarrow> \<not> beats r w))"
    using best_override_maximal [of ?rows]
    by (cases "best_override ?rows") (auto simp: resolve_effective_mode_def Let_def)
  moreover have "resolve_effective_mode True env now db t parent sub kind = (m, GlobalEnv) \<longleftrightarrow>
           t \<noteq> [] \<and> m = current_mode env \<and> (\<forall>r\<in>set db. \<not> override_matches now t parent sub kind r)"
    by (auto simp: resolve_effective_mode_def Let_def filter_empty_conv split: option.splits
        dest!: best_override_maximal)
  moreover have "resolve_effective_mode True env now (db @ extra) t parent sub kind
           = resolve_effective_mode True env now db t parent sub kind"
    if e: "\<forall>r\<in>set extra. or_tenant r \<noteq> t \<or> \<not> override_active now r"
  proof -
    have "filter (override_matches now t parent sub kind) extra = []"
      using e by (auto simp: filter_empty_conv override_matches_def)
    then show ?thesis by (simp add: resolve_effective_mode_def)
  qed
  ultimately show ?thesis by blast
qed

definition sample_override :: "nat \<Rightarrow> ident \<Rightarrow> string option \<Rightarrow> string \<Rightarrow> override_row" where
  "sample_override i t p m = \<lparr> or_id = i, or_tenant = t, or_parent = p, or_sub = None, or_kind = None,
     or_mode = m, or_reason = None, or_by = None, or_effective = 0, or_expires = None, or_created = 0 \<rparr>"

lemma mode_most_specific_witness:
  "resolve_effective_mode True None 5
     ([sample_override 1 ''t'' (Some ''p'') ''block'', sample_override 2 ''t'' None ''observe'']
       @ [sample_override 3 ''u'' (Some ''p'') ''flag'']) ''t'' (Some ''p'') None None
   = (''block'', Override 1)"
  by (subst mode_most_specific [THEN conjunct2, THEN conjunct2, rule_format])
    (simp_all add: sample_override_def resolve_effective_mode_def override_matches_def override_active_def
      covers_def beats_def specificity_def)

section \<open>Enforcement\<close>

text \<open>C19. Enforcement of a hop between two agents with definitions: nothing is
  written and the list is empty when the hop is clean; otherwise, whatever the
  outcome, one row per violation is recorded in order (each carrying the mode
  resolved for its own kind and whether that mode blocked), less the rows whose
  insert fails, and earlier rows are untouched. It refuses exactly when some
  violation resolves to the mode \<open>block\<close>, naming just those; a failing insert
  never turns a refusal into a pass. Without both definitions nothing is checked.\<close>

theorem enforcement_records_then_refuses:
  fixes ok :: "violation_row \<Rightarrow> bool" and cat :: catalog and mode_of :: "violation \<Rightarrow> string"
    and t :: ident and sub_inv :: int and parent_inv :: "int option" and parent sub :: string
  defines "enforce \<equiv> enforce_delegation_policy cat mode_of ok t sub_inv parent_inv parent sub"
  shows "(enforce (Some p) (Some s) db = (out, db') \<longrightarrow>
           (\<exists>rows. db' = db @ filter ok rows \<and> map vr_violation rows = check_delegation cat p s
              \<and> (\<forall>r\<in>set rows. vr_tenant r = t \<and> vr_parent r = parent \<and> vr_sub r = sub \<and> vr_sub_inv r = sub_inv
                   \<and> vr_mode r = mode_of (vr_violation r) \<and> (vr_blocked r \<longleftrightarrow> vr_mode r = ''block'')))
           \<and> (out = Violations (check_delegation cat p s) \<longleftrightarrow>
                (\<forall>v\<in>set (check_delegation cat p s). mode_of v \<noteq> ''block''))
           \<and> (\<forall>vs. out = DelegationPolicyError vs \<longleftrightarrow>
                vs \<noteq> [] \<and> vs = filter (\<lambda>v. mode_of v = ''block'') (check_delegation cat p s)))
         \<and> enforce None sdef db = (Violations [], db) \<and> enforce pdef None db = (Violations [], db)"
proof (rule conjI, rule impI)
  assume run: "enforce (Some p) (Some s) db = (out, db')"
  let ?vs = "check_delegation cat p s"
  let ?row = "\<lambda>v. \<lparr> vr_tenant = t, vr_sub_inv = sub_inv, vr_parent_inv = parent_inv,
                        vr_parent = parent, vr_sub = sub, vr_violation = v, vr_mode = mode_of v,
                        vr_blocked = (mode_of v = ''block'') \<rparr>"
  have db': "db' = db @ filter ok (map ?row ?vs)"
    and out: "out = (if list_ex (\<lambda>v. mode_of v = ''block'') ?vs
       then DelegationPolicyError (filter (\<lambda>v. mode_of v = ''block'') ?vs) else Violations ?vs)"
    using run by (auto simp: enforce_def enforce_delegation_policy_def persist_violations_def Let_def
        split: if_splits)
  have "\<exists>rows. db' = db @ filter ok rows \<and> map vr_violation rows = ?vs
      \<and> (\<forall>r\<in>set rows. vr_tenant r = t \<and> vr_parent r = parent \<and> vr_sub r = sub \<and> vr_sub_inv r = sub_inv
           \<and> vr_mode r = mode_of (vr_violation r) \<and> (vr_blocked r \<longleftrightarrow> vr_mode r = ''block''))"
    by (rule exI [of _ "map ?row ?vs"]) (auto simp: db' comp_def)
  moreover have "out = Violations ?vs \<longleftrightarrow> (\<forall>v\<in>set ?vs. mode_of v \<noteq> ''block'')"
    by (auto simp: out list_ex_iff)
  moreover have "out = DelegationPolicyError vs \<longleftrightarrow> vs \<noteq> [] \<and> vs = filter (\<lambda>v. mode_of v = ''block'') ?vs" for vs
    by (auto simp: out list_ex_iff filter_empty_conv)
  ultimately show "(\<exists>rows. db' = db @ filter ok rows \<and> map vr_violation rows = ?vs
      \<and> (\<forall>r\<in>set rows. vr_tenant r = t \<and> vr_parent r = parent \<and> vr_sub r = sub \<and> vr_sub_inv r = sub_inv
           \<and> vr_mode r = mode_of (vr_violation r) \<and> (vr_blocked r \<longleftrightarrow> vr_mode r = ''block'')))
      \<and> (out = Violations ?vs \<longleftrightarrow> (\<forall>v\<in>set ?vs. mode_of v \<noteq> ''block''))
      \<and> (\<forall>vs. out = DelegationPolicyError vs \<longleftrightarrow>
            vs \<noteq> [] \<and> vs = filter (\<lambda>v. mode_of v = ''block'') ?vs)"
    by blast
qed (simp_all add: enforce_def enforce_delegation_policy_def split: option.splits)

lemma enforcement_records_then_refuses_witness:
  "\<exists>v. check_access_level reader admin_agent = Some v
     \<and> fst (enforce_delegation_policy [] (\<lambda>v. ''block'') (\<lambda>r. False) ''t'' 2 (Some 1) ''r'' ''a''
            (Some reader) (Some admin_agent) []) = DelegationPolicyError (check_delegation [] reader admin_agent)"
proof -
  let ?run = "enforce_delegation_policy [] (\<lambda>v. ''block'') (\<lambda>r. False) ''t'' 2 (Some 1) ''r'' ''a''
            (Some reader) (Some admin_agent) []"
  have "check_delegation [] reader admin_agent \<noteq> []"
    using agent_samples(4) by (simp add: clean_iff_dimensions)
  then have "fst ?run = DelegationPolicyError (check_delegation [] reader admin_agent)"
    using enforcement_records_then_refuses [where out = "fst ?run" and db' = "snd ?run" and cat = "[]"
        and mode_of = "\<lambda>v. ''block''" and ok = "\<lambda>r. False" and p = reader and s = admin_agent and db = "[]"
        and t = "''t''" and sub_inv = 2 and parent_inv = "Some 1" and parent = "''r''" and sub = "''a''"] by simp
  then show ?thesis
    using agent_samples(4) by auto
qed

section \<open>Depth\<close>

text \<open>A simple chain of delegations; \<open>chains g S n k\<close>: one with \<open>n\<close> nodes from \<open>S\<close> to \<open>k\<close>.\<close>

definition simple_chain :: "graph \<Rightarrow> string list \<Rightarrow> bool" where
  "simple_chain g p = (p \<noteq> [] \<and> distinct p \<and> successively (\<lambda>a b. b \<in> set (targets g a)) p)"

definition pending_chain :: "graph \<Rightarrow> string set \<Rightarrow> nat \<Rightarrow> string list \<Rightarrow> string \<times> nat \<Rightarrow> bool" where
  "pending_chain g S c visited e =
     (\<exists>p. simple_chain g p \<and> hd p \<in> S \<and> last p = fst e \<and> length p = snd e + c
        \<and> set (butlast p) \<subseteq> set visited)"

lemma pending_chain_mono:
  "pending_chain g S c v e \<Longrightarrow> set v \<subseteq> set v' \<Longrightarrow> pending_chain g S c v' e"
  unfolding pending_chain_def by blast

lemma pending_chain_step:
  assumes "pending_chain g S c v (k, d)" "t \<in> set (targets g k)" "t \<notin> set (k # v)"
  shows "pending_chain g S c (k # v) (t, d + 1)"
proof -
  obtain p where p: "simple_chain g p" "hd p \<in> S" "last p = k" "length p = d + c" "set (butlast p) \<subseteq> set v"
    using assms(1) by (auto simp: pending_chain_def)
  then have ne: "p \<noteq> []" by (simp add: simple_chain_def)
  have sub: "set p \<subseteq> set (k # v)"
    using p(3,5) ne by (metis append_butlast_last_id insert_subset list.simps(15) rotate1.simps(2)
        set_rotate1 subset_insertI2 subset_refl insertI1)
  have "simple_chain g (p @ [t])"
    using p(1,3) ne sub assms(2,3) by (auto simp: simple_chain_def successively_append_iff)
  then show ?thesis
    unfolding pending_chain_def using p ne sub by (intro exI [of _ "p @ [t]"]) simp
qed

lemma depth_loop_chain:
  assumes "\<forall>e\<in>set queue. pending_chain g S c visited e"
    and "best = 0 \<or> (best \<le> MAX_CHAIN_DEPTH \<and> (\<exists>p. simple_chain g p \<and> hd p \<in> S \<and> length p = best + c))"
  shows "depth_loop g visited best queue = 0 \<or>
    (depth_loop g visited best queue \<le> MAX_CHAIN_DEPTH
     \<and> (\<exists>p. simple_chain g p \<and> hd p \<in> S \<and> length p = depth_loop g visited best queue + c))"
  using assms
proof (induction g visited best queue rule: depth_loop.induct)
  case (1 g visited best queue)
  show ?case
  proof (cases "queue = [] \<or> MAX_TRAVERSAL_NODES \<le> length visited")
    case True
    then have "depth_loop g visited best queue = best"
      by (subst depth_loop.simps) simp
    with "1.prems"(2) show ?thesis by simp
  next
    case False
    obtain k d where kd: "last queue = (k, d)" by fastforce
    have top: "pending_chain g S c visited (k, d)"
      using False kd "1.prems"(1) by (metis last_in_set)
    have rest: "\<forall>e\<in>set (butlast queue). pending_chain g S c visited e"
      using "1.prems"(1) by (auto dest: in_set_butlastD)
    show ?thesis
    proof (cases "k \<in> set visited \<or> MAX_CHAIN_DEPTH < d")
      case True
      have "depth_loop g visited best queue = depth_loop g visited best (butlast queue)"
        using False True by (subst depth_loop.simps) (simp add: kd)
      then show ?thesis
        using "1.IH"(1) [OF False kd [symmetric] True rest "1.prems"(2)] by simp
    next
      case ok: False
      let ?q = "butlast queue @ map (\<lambda>t. (t, d + 1)) (filter (\<lambda>t. t \<notin> set (k # visited)) (targets g k))"
      have eq: "depth_loop g visited best queue = depth_loop g (k # visited) (max best d) ?q"
        using False ok by (subst depth_loop.simps) (simp add: kd)
      have q: "\<forall>e\<in>set ?q. pending_chain g S c (k # visited) e"
        using rest pending_chain_step [OF top] by (auto intro: pending_chain_mono)
      have b: "max best d = 0 \<or> (max best d \<le> MAX_CHAIN_DEPTH
          \<and> (\<exists>p. simple_chain g p \<and> hd p \<in> S \<and> length p = max best d + c))"
        using "1.prems"(2) top ok unfolding max_def pending_chain_def by (auto split: if_splits)
      show ?thesis
        unfolding eq by (rule "1.IH"(2) [OF False kd [symmetric] ok q b])
    qed
  qed
qed

lemma depth_loop_ge: "best \<le> depth_loop g visited best queue"
proof (induction g visited best queue rule: depth_loop.induct)
  case (1 g visited best queue)
  obtain k d where kd: "last queue = (k, d)" by fastforce
  show ?case
    using "1.IH"(1) [OF _ kd [symmetric]] "1.IH"(2) [OF _ kd [symmetric]]
    by (subst depth_loop.simps) (auto simp: kd)
qed

lemma depth_loop_pop:
  assumes "k \<notin> set visited" "length visited < MAX_TRAVERSAL_NODES" "d \<le> MAX_CHAIN_DEPTH"
  shows "depth_loop g visited best (qs @ [(k, d)]) = depth_loop g (k # visited) (max best d)
    (qs @ map (\<lambda>t. (t, d + 1)) (filter (\<lambda>t. t \<notin> set (k # visited)) (targets g k)))"
  using assms by (subst depth_loop.simps) simp

lemma depth_loop_single:
  assumes "t \<in> set (targets g k)" "t \<noteq> k"
  shows "1 \<le> depth_loop g [] 0 [(k, 0)]"
proof -
  have "filter (\<lambda>t. t \<notin> set [k]) (targets g k) \<noteq> []"
    using assms by (auto simp: filter_empty_conv)
  then obtain ts q where q: "filter (\<lambda>t. t \<notin> set [k]) (targets g k) = ts @ [q]"
    by (metis append_butlast_last_id)
  then have "q \<in> set (filter (\<lambda>t. t \<notin> set [k]) (targets g k))" by simp
  then have qk: "q \<notin> set [k]" by simp
  have "depth_loop g [] 0 [(k, 0)] = depth_loop g [k] 0 (map (\<lambda>t. (t, 1)) ts @ [(q, 1)])"
    using depth_loop_pop [of k "[]" 0 g 0 "[]"] q by (simp add: MAX_TRAVERSAL_NODES_def)
  also have "\<dots> \<ge> 1"
    using depth_loop_pop [of q "[k]" 1 g 0] qk depth_loop_ge [of 1 g "[q, k]"]
    by (simp add: MAX_TRAVERSAL_NODES_def MAX_CHAIN_DEPTH_def)
  finally show ?thesis .
qed

text \<open>C36. On every graph, cyclic ones included, the depth computation ends; a
  non-zero answer is the number of hops of an actual delegation chain from the
  agent that visits no agent twice, so a cycle is never counted twice, and it is
  at most 50. It is zero only for an agent that delegates to no other. It is not
  the longest chain, though, as its documentation says: the queue is popped at its
  end and an agent reached by a short path is not visited again by a longer one, so
  the order of the delegate lists changes the answer, and with it the risk score.\<close>

theorem delegation_depth_is_a_chain:
  "(start \<noteq> [] \<longrightarrow> max_delegation_depth (Some start) direct g = 0
           \<or> (max_delegation_depth (Some start) direct g \<le> 50
              \<and> (\<exists>p. simple_chain g p \<and> hd p = start
                   \<and> length p = max_delegation_depth (Some start) direct g + 1)))
   \<and> (start \<noteq> [] \<longrightarrow>
        (max_delegation_depth (Some start) direct g = 0 \<longleftrightarrow> set (targets g start) \<subseteq> {start}))
   \<and> (max_delegation_depth None (Some ts) g = 0
           \<or> (max_delegation_depth None (Some ts) g \<le> 50
              \<and> (\<exists>p. simple_chain g p \<and> hd p \<in> set ts \<and> length p = max_delegation_depth None (Some ts) g)))
   \<and> max_delegation_depth (Some ''a'') None [(''a'', [''b'', ''c'']), (''b'', [''c''])] = 1
   \<and> max_delegation_depth (Some ''a'') None [(''a'', [''c'', ''b'']), (''b'', [''c''])] = 2
   \<and> simple_chain [(''a'', [''b'', ''c'']), (''b'', [''c''])] [''a'', ''b'', ''c'']"
proof -
  have keyed: "max_delegation_depth (Some start) direct g = 0
           \<or> (max_delegation_depth (Some start) direct g \<le> 50
              \<and> (\<exists>p. simple_chain g p \<and> hd p = start
                   \<and> length p = max_delegation_depth (Some start) direct g + 1))" if "start \<noteq> []"
  proof -
    have "pending_chain g {start} 1 [] (start, 0)"
      unfolding pending_chain_def by (rule exI [of _ "[start]"]) (simp add: simple_chain_def)
    then show ?thesis
      using depth_loop_chain [of "[(start, 0)]" g "{start}" 1 "[]" 0] that
      by (simp add: max_delegation_depth_def MAX_CHAIN_DEPTH_def)
  qed
  moreover have "max_delegation_depth (Some start) direct g = 0 \<longleftrightarrow> set (targets g start) \<subseteq> {start}"
    if "start \<noteq> []"
  proof
    assume "max_delegation_depth (Some start) direct g = 0"
    then show "set (targets g start) \<subseteq> {start}"
      using depth_loop_single [of _ g start] that by (fastforce simp: max_delegation_depth_def)
  next
    assume sub: "set (targets g start) \<subseteq> {start}"
    show "max_delegation_depth (Some start) direct g = 0"
    proof (rule ccontr)
      assume n: "max_delegation_depth (Some start) direct g \<noteq> 0"
      then obtain p where p: "simple_chain g p" "hd p = start"
          "length p = max_delegation_depth (Some start) direct g + 1"
        using keyed [OF \<open>start \<noteq> []\<close>] by auto
      then obtain b r where "p = start # b # r"
        using n by (cases p rule: remdups_adj.cases) auto
      with p(1) sub show False by (auto simp: simple_chain_def)
    qed
  qed
  moreover have "max_delegation_depth None (Some ts) g = 0
           \<or> (max_delegation_depth None (Some ts) g \<le> 50
              \<and> (\<exists>p. simple_chain g p \<and> hd p \<in> set ts \<and> length p = max_delegation_depth None (Some ts) g))"
  proof -
    have "pending_chain g (set ts) 0 [] (k, 1)" if "k \<in> set ts" for k
      unfolding pending_chain_def using that by (intro exI [of _ "[k]"]) (simp add: simple_chain_def)
    then show ?thesis
      using depth_loop_chain [of "map (\<lambda>t. (t, 1)) (filter (\<lambda>t. t \<noteq> []) ts)" g "set ts" 0 "[]" 0]
      by (auto simp: max_delegation_depth_def MAX_CHAIN_DEPTH_def)
  qed
  moreover have "max_delegation_depth (Some ''a'') None [(''a'', [''b'', ''c'']), (''b'', [''c''])] = 1"
    "max_delegation_depth (Some ''a'') None [(''a'', [''c'', ''b'']), (''b'', [''c''])] = 2"
    by (simp_all add: max_delegation_depth_def depth_loop.simps targets_def MAX_TRAVERSAL_NODES_def
        MAX_CHAIN_DEPTH_def)
  moreover have "simple_chain [(''a'', [''b'', ''c'']), (''b'', [''c''])] [''a'', ''b'', ''c'']"
    by (simp add: simple_chain_def targets_def)
  ultimately show ?thesis by blast
qed

lemma delegation_depth_is_a_chain_witness:
  "max_delegation_depth (Some ''a'') None [(''a'', [''b'']), (''b'', [''a''])] \<noteq> 0
   \<and> max_delegation_depth (Some ''a'') None [(''a'', [''b'']), (''b'', [''a''])] \<le> 50"
  using delegation_depth_is_a_chain [of "''a''" None "[(''a'', [''b'']), (''b'', [''a''])]", THEN conjunct1]
    delegation_depth_is_a_chain [of "''a''" None "[(''a'', [''b'']), (''b'', [''a''])]", THEN conjunct2, THEN conjunct1]
  by (auto simp: targets_def)

text \<open>The two premiums a delegating agent adds to its risk score.\<close>

lemma delegation_weight_bounds:
  "0 \<le> delegation_weight d \<and> delegation_weight d \<le> 30 \<and> (delegation_weight d = 0 \<longleftrightarrow> d \<le> 0)"
  by (auto simp: delegation_weight_def MAX_DEPTH_CAP_def PER_HOP_def min_def)

end
