(* ===== verification/RateLimit.thy ===== *)
theory RateLimit
  imports Rbac Json Complex_Main
begin

text \<open>
  Rate limiting of requests: the counters kept in the shared store
  (\<open>kya_redteam/runtime.py\<close>) and the per-principal check the gateway runs
  (\<open>kya/rate_limit.py\<close>, with its configuration from \<open>kya_gateway/config.py\<close>).
  The store is a service outside the program: its commands are the fields of a
  record, and \<open>valkey_up\<close> states what its documentation promises of them. Rates
  are rational numbers, instants integer microseconds; a stored time is kept as
  a number, not as its text.
\<close>

section \<open>The store\<close>

record 'st valkey =
  vk_get :: "'st \<Rightarrow> instant \<Rightarrow> string \<Rightarrow> int option option"
  vk_incrby :: "'st \<Rightarrow> instant \<Rightarrow> string \<Rightarrow> int \<Rightarrow> (int \<times> 'st) option"
  vk_expire :: "'st \<Rightarrow> instant \<Rightarrow> string \<Rightarrow> int \<Rightarrow> 'st option"
  vk_set_ex :: "'st \<Rightarrow> instant \<Rightarrow> string \<Rightarrow> int \<Rightarrow> int \<Rightarrow> 'st option"
  vk_hmget :: "'st \<Rightarrow> instant \<Rightarrow> string \<Rightarrow> (rat \<times> rat) option option"
  vk_hmset_ex :: "'st \<Rightarrow> instant \<Rightarrow> string \<Rightarrow> rat \<times> rat \<Rightarrow> int \<Rightarrow> 'st option"

text \<open>A command that raises gives \<open>None\<close>. An entry is a number and the instant it expires.\<close>

type_synonym entry = "int \<times> instant option"

definition second :: int where "second = 1000000"

definition live :: "instant \<Rightarrow> entry option \<Rightarrow> entry option" where
  "live now e =
     (case e of None \<Rightarrow> None
      | Some (v, d) \<Rightarrow> (case d of None \<Rightarrow> Some (v, d) | Some x \<Rightarrow> if now < x then Some (v, d) else None))"

definition bumped :: "instant \<Rightarrow> entry option \<Rightarrow> int \<Rightarrow> entry" where
  "bumped now e n = (case live now e of None \<Rightarrow> (n, None) | Some (v, d) \<Rightarrow> (v + n, d))"

definition valkey_up :: "'st valkey \<Rightarrow> ('st \<Rightarrow> string \<Rightarrow> entry option) \<Rightarrow> bool" where
  "valkey_up vk view \<longleftrightarrow>
     (\<forall>st now k. vk_get vk st now k = Some (map_option fst (live now (view st k)))) \<and>
     (\<forall>st now k n. \<exists>st'. vk_incrby vk st now k n = Some (fst (bumped now (view st k) n), st')
        \<and> view st' = (view st)(k := Some (bumped now (view st k) n))) \<and>
     (\<forall>st now k ttl. \<exists>st'. vk_expire vk st now k ttl = Some st'
        \<and> view st' = (view st)(k := map_option (\<lambda>(v, d). (v, Some (now + ttl * second))) (live now (view st k)))) \<and>
     (\<forall>st now k v ttl. \<exists>st'. vk_set_ex vk st now k v ttl = Some st'
        \<and> view st' = (view st)(k := Some (v, Some (now + ttl * second))))"

section \<open>Tokens\<close>

definition rate_key :: "string \<Rightarrow> int \<Rightarrow> string" where
  "rate_key target now_s = ''kya:redteam:rl:'' @ target @ '':'' @ nat_text (nat now_s)"

definition rate_last_key :: "string \<Rightarrow> string" where
  "rate_last_key target = ''kya:redteam:rl_last:'' @ target"

definition rate_bucket_key :: "string \<Rightarrow> string" where
  "rate_bucket_key target = ''kya:redteam:rl_bucket:'' @ target"

definition secs :: "instant \<Rightarrow> rat" where
  "secs t = of_int t / of_int second"

text \<open>One non-blocking attempt; every failure of the store admits the call.\<close>

definition check_rate_token ::
    "'st valkey option \<Rightarrow> instant \<Rightarrow> string \<Rightarrow> rat \<Rightarrow> 'st \<Rightarrow> bool \<times> 'st" where
  "check_rate_token store now target rps st =
     (if rps \<le> 0 then (True, st)
      else (case store of
        None \<Rightarrow> (True, st)
      | Some vk \<Rightarrow>
          if 1 \<le> rps then
            (let cap = max 1 \<lfloor>rps\<rfloor>; key = rate_key target (now div second)
             in (case vk_incrby vk st now key 1 of
                   None \<Rightarrow> (True, st)
                 | Some (n, st') \<Rightarrow>
                     if n = 1 then
                       (case vk_expire vk st' now key 2 of None \<Rightarrow> (True, st') | Some st'' \<Rightarrow> (n \<le> cap, st''))
                     else (n \<le> cap, st')))
          else
            (case vk_get vk st now (rate_last_key target) of
               None \<Rightarrow> (True, st)
             | Some prev \<Rightarrow>
                 let last_t = (case prev of None \<Rightarrow> 0 | Some t \<Rightarrow> t)
                 in if secs (now - last_t) < 1 / rps then (False, st)
                    else (case vk_set_ex vk st now (rate_last_key target) now 300 of
                            None \<Rightarrow> (True, st) | Some st' \<Rightarrow> (True, st')))))"

text \<open>The script that runs inside the store: refill by elapsed time, then take one.\<close>

definition bucket_step :: "rat \<Rightarrow> rat \<Rightarrow> rat \<Rightarrow> (rat \<times> rat) option \<Rightarrow> bool \<times> rat \<times> rat" where
  "bucket_step rate cap now state =
     (let (tokens, ts) = (case state of None \<Rightarrow> (cap, now) | Some s \<Rightarrow> s);
          elapsed = now - ts;
          filled = (if elapsed > 0 then min cap (tokens + elapsed * rate) else tokens)
      in if 1 \<le> filled then (True, filled - 1, now) else (False, filled, now))"

definition check_rate_token_precise ::
    "'st valkey option \<Rightarrow> instant \<Rightarrow> string \<Rightarrow> rat \<Rightarrow> rat option \<Rightarrow> 'st \<Rightarrow> bool \<times> 'st" where
  "check_rate_token_precise store now target rps capacity st =
     (if rps \<le> 0 then (True, st)
      else (case store of
        None \<Rightarrow> (True, st)
      | Some vk \<Rightarrow>
          (let cap = (case capacity of Some c \<Rightarrow> c | None \<Rightarrow> max 1 rps);
               ttl = max 2 (\<lfloor>cap / rps\<rfloor> + 2);
               key = rate_bucket_key target
           in (case vk_hmget vk st now key of
                 None \<Rightarrow> check_rate_token store now target rps st
               | Some state \<Rightarrow>
                   (case bucket_step rps cap (secs now) state of
                      (allowed, tokens, ts) \<Rightarrow>
                        (case vk_hmset_ex vk st now key (tokens, ts) ttl of
                           None \<Rightarrow> check_rate_token store now target rps st
                         | Some st' \<Rightarrow> (allowed, st')))))))"

section \<open>The gateway's check\<close>

text \<open>The configuration accepts one of two modes.\<close>

record rate_limit_config =
  rl_rpm :: "int option"
  rl_interval :: "rat option"

definition rate_limit_config :: "int option \<Rightarrow> rat option \<Rightarrow> string + rate_limit_config" where
  "rate_limit_config rpm mis =
     (let rpm' = (if rpm = None \<and> mis = None then Some 600 else rpm)
      in if rpm' \<noteq> None \<and> mis \<noteq> None then Inl ''ValueError''
         else (case rpm' of
           Some n \<Rightarrow> if n < 60 then Inl (if n = 0 then ''ZeroDivisionError'' else ''ValueError'')
                     else Inr \<lparr> rl_rpm = rpm', rl_interval = mis \<rparr>
         | None \<Rightarrow> (case mis of
             Some m \<Rightarrow> if m \<le> 0 then Inl ''ValueError'' else Inr \<lparr> rl_rpm = rpm', rl_interval = mis \<rparr>
           | None \<Rightarrow> Inr \<lparr> rl_rpm = rpm', rl_interval = mis \<rparr>)))"

definition MIN_RATE_MULTIPLIER :: rat where
  "MIN_RATE_MULTIPLIER = 1 / 100"

text \<open>The multiplier is the answer of an optional hook; none, or a failing one, is \<open>None\<close>.\<close>

definition apply_rate_multiplier :: "rat option \<Rightarrow> rat \<Rightarrow> rat \<times> bool" where
  "apply_rate_multiplier hook rps =
     (case hook of
        None \<Rightarrow> (rps, False)
      | Some m \<Rightarrow>
          if \<not> (MIN_RATE_MULTIPLIER \<le> m \<and> m \<le> 1) then (rps, False)
          else if m = 1 then (rps, False)
          else (rps * m, True))"

definition bucket_target :: "(string \<Rightarrow> string) \<Rightarrow> ident \<Rightarrow> string \<Rightarrow> ident \<Rightarrow> string" where
  "bucket_target sha t kind pid = ''kya:gw:'' @ take 32 (sha (t @ ''|'' @ kind @ ''|'' @ pid))"

definition configured_rps :: "int option \<Rightarrow> rat option \<Rightarrow> rat option" where
  "configured_rps rpm mis =
     (case rpm of
        Some n \<Rightarrow> if n \<le> 0 then None else Some (of_int n / 60)
      | None \<Rightarrow> (case mis of
          Some m \<Rightarrow> if m \<le> 0 then None else Some (1 / m)
        | None \<Rightarrow> None))"

text \<open>A refusal is also an event on the principal's trust row; its database may fail.\<close>

definition check_rate ::
    "'st valkey option \<Rightarrow> (string \<Rightarrow> string) \<Rightarrow> rat option \<Rightarrow> rbac_env \<Rightarrow> ident \<Rightarrow> string \<Rightarrow> ident \<Rightarrow>
     int option \<Rightarrow> rat option \<Rightarrow> string \<Rightarrow> 'st \<times> principal_table \<Rightarrow> (string + bool) \<times> 'st \<times> principal_table" where
  "check_rate store sha hook e t kind pid rpm mis detail s =
     (if (rpm = None) = (mis = None) then (Inl ''ValueError'', s)
      else (case configured_rps rpm mis of
        None \<Rightarrow> (Inr True, s)
      | Some rps0 \<Rightarrow>
          (let (rps, tightened) = apply_rate_multiplier hook rps0;
               target = bucket_target sha t kind pid;
               (ok, st') = (if tightened then check_rate_token_precise store (re_now e) target rps None (fst s)
                            else check_rate_token store (re_now e) target rps (fst s))
           in if ok then (Inr True, st', snd s)
              else (Inr False, st',
                emit_security_event (re_kinds e) (re_commits e) (snd s) ''rate_limit_exceeded'' t
                  (Some kind) (Some pid) detail True (re_now e)))))"

section \<open>Calls one after another\<close>

fun token_run ::
    "'st valkey option \<Rightarrow> string \<Rightarrow> rat \<Rightarrow> instant list \<Rightarrow> 'st \<Rightarrow> bool list \<times> 'st" where
  "token_run store target rps [] st = ([], st)"
| "token_run store target rps (t # ts) st =
     (case check_rate_token store t target rps st of
        (ok, st') \<Rightarrow> (case token_run store target rps ts st' of (oks, st'') \<Rightarrow> (ok # oks, st'')))"

lemma valkey_get: "valkey_up vk view \<Longrightarrow> vk_get vk st now k = Some (map_option fst (live now (view st k)))"
  by (simp add: valkey_up_def)

lemma valkey_incr:
  assumes "valkey_up vk view"
  obtains st' where "vk_incrby vk st now k n = Some (fst (bumped now (view st k) n), st')"
    "view st' = (view st)(k := Some (bumped now (view st k) n))"
  using assms unfolding valkey_up_def by blast

lemma valkey_expire:
  assumes "valkey_up vk view"
  obtains st' where "vk_expire vk st now k ttl = Some st'"
    "view st' = (view st)(k := map_option (\<lambda>(v, d). (v, Some (now + ttl * second))) (live now (view st k)))"
  using assms unfolding valkey_up_def by blast

lemma valkey_set_ex:
  assumes "valkey_up vk view"
  obtains st' where "vk_set_ex vk st now k v ttl = Some st'"
    "view st' = (view st)(k := Some (v, Some (now + ttl * second)))"
  using assms unfolding valkey_up_def by blast

text \<open>The counter of second \<open>s\<close> stands at \<open>n\<close>.\<close>

definition counted :: "('st \<Rightarrow> string \<Rightarrow> entry option) \<Rightarrow> string \<Rightarrow> int \<Rightarrow> int \<Rightarrow> 'st \<Rightarrow> bool" where
  "counted view target s n st \<longleftrightarrow>
     (if n = 0 then \<forall>now. now div second = s \<longrightarrow> live now (view st (rate_key target s)) = None
      else \<exists>d. view st (rate_key target s) = Some (n, Some d) \<and> (s + 1) * second \<le> d)"

lemma second_end: "now div second = s \<Longrightarrow> now < (s + 1) * second"
  by (auto simp: second_def)

lemma second_start: "now div second = s \<Longrightarrow> s * second \<le> now"
  by (auto simp: second_def)

lemma counted_step:
  assumes up: "valkey_up vk view" and r: "1 \<le> rps" and c: "counted view target s n st" "0 \<le> n"
    and t: "now div second = s"
  shows "\<exists>st'. check_rate_token (Some vk) now target rps st = (n + 1 \<le> max 1 \<lfloor>rps\<rfloor>, st')
      \<and> counted view target s (n + 1) st'"
proof -
  let ?k = "rate_key target s"
  obtain st' where inc: "vk_incrby vk st now ?k 1 = Some (fst (bumped now (view st ?k) 1), st')"
    and v': "view st' = (view st)(?k := Some (bumped now (view st ?k) 1))"
    using valkey_incr [OF up] by blast
  obtain st'' where ex: "vk_expire vk st' now ?k 2 = Some st''"
    and v'': "view st'' = (view st')(?k := map_option (\<lambda>(v, d). (v, Some (now + 2 * second))) (live now (view st' ?k)))"
    using valkey_expire [OF up] by blast
  show ?thesis
  proof (cases "n = 0")
    case True
    then have b: "bumped now (view st ?k) 1 = (1, None)"
      using c t by (simp add: counted_def bumped_def)
    have "view st'' ?k = Some (1, Some (now + 2 * second))"
      by (simp add: v'' v' b live_def)
    then have "counted view target s 1 st''"
      using second_start [OF t] by (auto simp: counted_def algebra_simps second_def)
    then show ?thesis
      using True inc ex b r t by (simp add: check_rate_token_def Let_def)
  next
    case False
    then obtain d where d: "view st ?k = Some (n, Some d)" "(s + 1) * second \<le> d"
      using c by (auto simp: counted_def)
    then have b: "bumped now (view st ?k) 1 = (n + 1, Some d)"
      using second_end [OF t] by (simp add: bumped_def live_def)
    have "counted view target s (n + 1) st'"
      using d(2) c(2) by (auto simp: counted_def v' b)
    then show ?thesis
      using False c(2) inc b r t by (auto simp: check_rate_token_def Let_def)
  qed
qed

lemma token_run_counted:
  assumes up: "valkey_up vk view" and r: "1 \<le> rps"
  shows "\<lbrakk>counted view target s (int n) st; \<forall>t\<in>set ts. t div second = s\<rbrakk>
    \<Longrightarrow> fst (token_run (Some vk) target rps ts st)
        = map (\<lambda>i. int (n + i) + 1 \<le> max 1 \<lfloor>rps\<rfloor>) [0..<length ts]"
proof (induction ts arbitrary: n st)
  case (Cons t ts)
  obtain st' where st': "check_rate_token (Some vk) t target rps st = (int n + 1 \<le> max 1 \<lfloor>rps\<rfloor>, st')"
    and c: "counted view target s (int (Suc n)) st'"
    using counted_step [OF up r, of target s "int n" st t] Cons.prems by (auto simp: algebra_simps)
  have "fst (token_run (Some vk) target rps ts st')
      = map (\<lambda>i. int (Suc n + i) + 1 \<le> max 1 \<lfloor>rps\<rfloor>) [0..<length ts]"
    using Cons.IH [OF c] Cons.prems(2) by simp
  then show ?case
    using st' by (simp add: case_prod_beta upt_conv_Cons map_Suc_upt [symmetric] del: upt_Suc)
qed simp

text \<open>Bursts are capped exactly: of the calls of one principal that fall within
  one second of the clock, with the counter not yet begun, the first \<open>\<lfloor>rps\<rfloor>\<close> (at
  least one) are admitted and all others refused, whatever their number. For
  \<open>requests_per_minute\<close> the rate is rounded down, not up as the configuration
  documents: 90 a minute admits one call a second.\<close>

theorem window_admits_floor:
  assumes "valkey_up vk view" "1 \<le> rps"
    and "\<forall>t\<in>set ts. t div second = s" "\<forall>now. now div second = s \<longrightarrow> live now (view st (rate_key target s)) = None"
  shows "fst (token_run (Some vk) target rps ts st) = map (\<lambda>i. int i < max 1 \<lfloor>rps\<rfloor>) [0..<length ts]
    \<and> \<lfloor>the (configured_rps (Some 90) None)\<rfloor> = 1 \<and> \<lceil>the (configured_rps (Some 90) None)\<rceil> = 2"
proof -
  have "counted view target s (int 0) st"
    using assms(4) by (simp add: counted_def)
  then show ?thesis
    using token_run_counted [OF assms(1,2), of target s 0 st ts] assms(3)
    by (simp add: configured_rps_def add1_zle_eq floor_eq_iff ceiling_eq_iff)
qed

text \<open>A store in memory that behaves as documented, for concrete runs.\<close>

definition sample_valkey :: "(string \<Rightarrow> entry option) valkey" where
  "sample_valkey = \<lparr>
     vk_get = (\<lambda>st now k. Some (map_option fst (live now (st k)))),
     vk_incrby = (\<lambda>st now k n. Some (fst (bumped now (st k) n), st(k := Some (bumped now (st k) n)))),
     vk_expire = (\<lambda>st now k ttl. Some (st(k := map_option (\<lambda>(v, d). (v, Some (now + ttl * second))) (live now (st k))))),
     vk_set_ex = (\<lambda>st now k v ttl. Some (st(k := Some (v, Some (now + ttl * second))))),
     vk_hmget = (\<lambda>st now k. None), vk_hmset_ex = (\<lambda>st now k v ttl. None) \<rparr>"

lemma sample_valkey_up: "valkey_up sample_valkey (\<lambda>st. st)"
  by (simp add: valkey_up_def sample_valkey_def)

lemma window_admits_floor_witness:
  "fst (token_run (Some sample_valkey) ''t'' (3 / 2) [5 * second, 5 * second + 1] (\<lambda>k. None)) = [True, False]"
proof -
  have "\<lfloor>3 / 2 :: rat\<rfloor> = 1" by (simp add: floor_eq_iff)
  then show ?thesis
    using window_admits_floor [OF sample_valkey_up, of "3 / 2" "[5 * second, 5 * second + 1]" 5 "\<lambda>k. None" "''t''"]
    by (simp add: second_def live_def)
qed

text \<open>The cooldown of a principal is exact only up to five minutes. For an interval
  above one second, after an admitted call the next one is admitted exactly when the
  interval has passed or 300 seconds have, whichever comes first: the stored time of
  the last call expires then, so a longer \<open>min_interval_seconds\<close> is not enforced. An
  interval of half a second or less is not a cooldown at all: two calls at the same
  instant are both admitted, although the setting promises to refuse them.\<close>

theorem cooldown_exact:
  assumes "valkey_up vk view"
  shows "(0 < rps \<and> rps < 1 \<and> check_rate_token (Some vk) t1 target rps st = (True, st1)
          \<and> t1 \<le> t2 \<and> 1 / rps \<le> secs t2 \<longrightarrow>
         (fst (check_rate_token (Some vk) t2 target rps st1)
           \<longleftrightarrow> 1 / rps \<le> secs (t2 - t1) \<or> 300 * second \<le> t2 - t1))
    \<and> (0 < m \<and> m \<le> 1 / 2 \<and> configured_rps None (Some m) = Some rps
          \<and> (\<forall>now. now div second = t div second \<longrightarrow> live now (view st (rate_key target (t div second))) = None)
         \<longrightarrow> fst (token_run (Some vk) target rps [t, t] st) = [True, True])"
proof (rule conjI; rule impI; (elim conjE)?)
  assume r: "0 < rps" "rps < 1" and ok: "check_rate_token (Some vk) t1 target rps st = (True, st1)"
    and t: "t1 \<le> t2" "1 / rps \<le> secs t2"
  obtain st' where set: "vk_set_ex vk st t1 (rate_last_key target) t1 300 = Some st'"
    and v: "view st' = (view st)(rate_last_key target := Some (t1, Some (t1 + 300 * second)))"
    using valkey_set_ex [OF assms] by blast
  have "st1 = st'"
    using r ok set valkey_get [OF assms, of st t1 "rate_last_key target"]
    by (auto simp: check_rate_token_def Let_def split: if_splits)
  moreover obtain st2 where "vk_set_ex vk st' t2 (rate_last_key target) t2 300 = Some st2"
    using valkey_set_ex [OF assms] by blast
  ultimately show "fst (check_rate_token (Some vk) t2 target rps st1)
           \<longleftrightarrow> 1 / rps \<le> secs (t2 - t1) \<or> 300 * second \<le> t2 - t1"
    using r t by (auto simp: check_rate_token_def Let_def valkey_get [OF assms] v live_def not_le)
next
  assume m: "0 < m" "m \<le> 1 / 2" "configured_rps None (Some m) = Some rps"
    and fresh: "\<forall>now. now div second = t div second \<longrightarrow> live now (view st (rate_key target (t div second))) = None"
  have r: "2 \<le> rps" using m by (auto simp: configured_rps_def pos_le_divide_eq)
  then have "2 \<le> \<lfloor>rps\<rfloor>" by (simp add: le_floor_iff)
  have c: "counted view target (t div second) (int 0) st"
    unfolding counted_def using fresh by (simp only: of_nat_0 if_True simp_thms)
  have "1 \<le> rps" using r by simp
  note token_run_counted [OF assms this c, of "[t, t]"]
  moreover have "max 1 \<lfloor>rps\<rfloor> = \<lfloor>rps\<rfloor>" using \<open>2 \<le> \<lfloor>rps\<rfloor>\<close> by simp
  ultimately show "fst (token_run (Some vk) target rps [t, t] st) = [True, True]"
    using \<open>2 \<le> \<lfloor>rps\<rfloor>\<close> by (simp del: token_run.simps)
qed

lemma cooldown_exact_witness:
  "fst (check_rate_token (Some sample_valkey) (301 * second) ''t'' (1 / 3600)
     ((\<lambda>k. None)(rate_last_key ''t'' := Some (3600 * second, Some (3900 * second)))))
   = (\<not> True)
   \<and> fst (check_rate_token (Some sample_valkey) (3901 * second) ''t'' (1 / 3600)
     ((\<lambda>k. None)(rate_last_key ''t'' := Some (3600 * second, Some (3900 * second)))))"
proof -
  let ?st = "(\<lambda>k. None)(rate_last_key ''t'' := Some (3600 * second, Some (3900 * second)))"
  have first: "check_rate_token (Some sample_valkey) (3600 * second) ''t'' (1 / 3600) (\<lambda>k. None) = (True, ?st)"
    by (simp add: check_rate_token_def sample_valkey_def live_def secs_def second_def)
  have "fst (check_rate_token (Some sample_valkey) (3901 * second) ''t'' (1 / 3600) ?st)"
    using cooldown_exact [OF sample_valkey_up, of "1 / 3600" "3600 * second" "''t''" "\<lambda>k. None" ?st "3901 * second"] first
    by (simp add: secs_def second_def)
  moreover have "\<not> fst (check_rate_token (Some sample_valkey) (301 * second) ''t'' (1 / 3600) ?st)"
    by (simp add: check_rate_token_def sample_valkey_def live_def secs_def second_def)
  ultimately show ?thesis by simp
qed

section \<open>The fractional bucket\<close>

fun bucket_run :: "rat \<Rightarrow> rat \<Rightarrow> rat list \<Rightarrow> (rat \<times> rat) option \<Rightarrow> bool list" where
  "bucket_run rate cap [] s = []"
| "bucket_run rate cap (t # ts) s =
     (case bucket_step rate cap t s of (ok, s') \<Rightarrow> ok # bucket_run rate cap ts (Some s'))"

definition admitted :: "bool list \<Rightarrow> rat" where
  "admitted oks = of_nat (length (filter (\<lambda>b. b) oks))"

lemma admitted_simps [simp]: "admitted [] = 0" "admitted (b # bs) = (if b then 1 else 0) + admitted bs"
  by (simp_all add: admitted_def)

lemma bucket_run_from:
  "\<lbrakk>0 \<le> rate; 0 \<le> cap; 0 \<le> k; sorted (t0 # ts)\<rbrakk> \<Longrightarrow>
     admitted (bucket_run rate cap ts (Some (k, t0))) \<le> k + rate * (last (t0 # ts) - t0)"
proof (induction ts arbitrary: k t0)
  case (Cons t ts)
  let ?f = "if t - t0 > 0 then min cap (k + (t - t0) * rate) else k"
  let ?ok = "1 \<le> ?f" let ?k = "if ?ok then ?f - 1 else ?f"
  have f: "?f \<le> k + rate * (t - t0)"
    using Cons.prems by (auto simp: algebra_simps)
  have "0 \<le> ?f" using Cons.prems by (auto simp: min_def)
  then have "0 \<le> ?k" by auto
  then have "admitted (bucket_run rate cap ts (Some (?k, t))) \<le> ?k + rate * (last (t # ts) - t)"
    using Cons.IH [OF Cons.prems(1,2)] Cons.prems(4) by simp
  then show ?case
    using f by (auto simp: bucket_step_def Let_def algebra_simps split: if_splits)
qed simp

text \<open>A throttle multiplier can only tighten a limit, by at most a factor of one
  hundred, and the fractional bucket it selects keeps the promised long-run rate:
  whatever the bucket held, of the calls from \<open>t0\<close> to the last one no more are
  admitted than one burst (the capacity, or what the bucket held in excess) plus the
  rate times the time that passed; and a call always passes a bucket holding a token.\<close>

theorem throttle_keeps_rate:
  assumes "0 \<le> rate" "0 \<le> cap" "sorted (t0 # ts)"
  shows "admitted (bucket_run rate cap (t0 # ts) None) \<le> cap + rate * (last (t0 # ts) - t0)
    \<and> (0 \<le> k \<longrightarrow> admitted (bucket_run rate cap ts (Some (k, t0))) \<le> k + rate * (last (t0 # ts) - t0))
    \<and> (1 \<le> k \<and> 1 \<le> cap \<longrightarrow> fst (bucket_step rate cap now (Some (k, t0))))
    \<and> (0 \<le> rps \<and> apply_rate_multiplier hook rps = (rps', tight) \<longrightarrow>
           rps / 100 \<le> rps' \<and> rps' \<le> rps \<and> (tight \<longleftrightarrow> (\<exists>m. hook = Some m \<and> 1 / 100 \<le> m \<and> m < 1)))"
proof -
  have "admitted (bucket_run rate cap (t0 # ts) None) \<le> cap + rate * (last (t0 # ts) - t0)"
  proof (cases "1 \<le> cap")
    case True
    then show ?thesis
      using bucket_run_from [of rate cap "cap - 1" t0 ts] assms by (simp add: bucket_step_def Let_def)
  next
    case False
    then show ?thesis
      using bucket_run_from [of rate cap cap t0 ts] assms by (simp add: bucket_step_def Let_def)
  qed
  moreover have "0 \<le> k \<longrightarrow> admitted (bucket_run rate cap ts (Some (k, t0))) \<le> k + rate * (last (t0 # ts) - t0)"
    using bucket_run_from [OF assms(1,2) _ assms(3)] by (rule impI)
  moreover have "1 \<le> k \<and> 1 \<le> cap \<longrightarrow> fst (bucket_step rate cap now (Some (k, t0)))"
    using assms(1) by (auto simp: bucket_step_def Let_def min_def intro: order_trans)
  moreover have "0 \<le> rps \<and> apply_rate_multiplier hook rps = (rps', tight) \<longrightarrow>
      rps / 100 \<le> rps' \<and> rps' \<le> rps \<and> (tight \<longleftrightarrow> (\<exists>m. hook = Some m \<and> 1 / 100 \<le> m \<and> m < 1))"
  proof (rule impI, elim conjE, cases hook)
    fix m assume r: "0 \<le> rps" and h: "apply_rate_multiplier hook rps = (rps', tight)" and Some: "hook = Some m"
    have "rps / 100 \<le> rps * m \<and> rps * m \<le> rps" if "1 / 100 \<le> m" "m \<le> 1"
      using mult_left_mono [OF that(1) r] mult_left_mono [OF that(2) r] by simp
    then show "rps / 100 \<le> rps' \<and> rps' \<le> rps \<and> (tight \<longleftrightarrow> (\<exists>m. hook = Some m \<and> 1 / 100 \<le> m \<and> m < 1))"
      using h r Some by (auto simp: apply_rate_multiplier_def MIN_RATE_MULTIPLIER_def split: if_splits)
  qed (auto simp: apply_rate_multiplier_def)
  ultimately show ?thesis by (intro conjI)
qed

lemma throttle_keeps_rate_witness:
  "admitted (bucket_run 1 2 [0, 0, 0, 1] None) \<le> 3
   \<and> bucket_run 1 2 [0, 0, 0, 1] None = [True, True, False, True]"
  using throttle_keeps_rate [of 1 2 0 "[0, 0, 1]", THEN conjunct1] by (simp add: bucket_step_def)

end
