(* ===== verification/Layered.thy ===== *)
theory Layered
  imports Prelude "HOL-Library.AList"
begin

text \<open>
  The contract of settings kept in two layers: a platform default and an
  override per tenant that may only be stricter. The weights
  (\<open>kya/tenant_weights.py\<close>) and the cost budgets (\<open>kya/tenant_budget.py\<close>) both
  provide it.
\<close>

locale layered =
  fixes le :: "'v \<Rightarrow> 'v \<Rightarrow> bool"
    and ok :: "'db \<Rightarrow> bool"
    and put :: "'db \<Rightarrow> ident \<Rightarrow> 'k \<Rightarrow> 'v \<Rightarrow> 'db option"
    and platform :: "'db \<Rightarrow> 'k \<Rightarrow> 'v option"
    and effective :: "'db \<Rightarrow> ident \<Rightarrow> 'k \<Rightarrow> 'v option"
  assumes put_ok: "ok db \<Longrightarrow> put db t k v = Some db' \<Longrightarrow> ok db'"
    and put_checked: "ok db \<Longrightarrow> put db t k v = Some db' \<Longrightarrow> platform db k = Some p \<Longrightarrow> le v p"
    and put_platform: "ok db \<Longrightarrow> put db t k v = Some db' \<Longrightarrow> platform db' k' = platform db k'"
    and put_effective: "ok db \<Longrightarrow> put db t k v = Some db' \<Longrightarrow>
      effective db' t' k' = (if t' = t \<and> k' = k then Some v else effective db t' k')"
begin

text \<open>No setting in force is laxer than the platform's.\<close>

definition tight :: "'db \<Rightarrow> bool" where
  "tight db \<longleftrightarrow> ok db \<and> (\<forall>t k p v. platform db k = Some p \<longrightarrow> effective db t k = Some v \<longrightarrow> le v p)"

text \<open>A sequence of tenants' writes; a refused one leaves the table alone.\<close>

primrec writes :: "(ident \<times> 'k \<times> 'v) list \<Rightarrow> 'db \<Rightarrow> 'db" where
  "writes [] db = db"
| "writes (w # ws) db =
     writes ws (case put db (fst w) (fst (snd w)) (snd (snd w)) of None \<Rightarrow> db | Some db' \<Rightarrow> db')"

lemma put_tight:
  assumes "tight db" "put db t k v = Some db'"
  shows "tight db'"
  using assms put_ok put_checked put_platform put_effective
  unfolding tight_def by (metis option.inject)

lemma writes_tight: "tight db \<Longrightarrow> tight (writes ws db)"
proof (induction ws arbitrary: db)
  case (Cons w ws)
  then show ?case
    by (cases "put db (fst w) (fst (snd w)) (snd (snd w))") (auto intro: put_tight)
qed simp

lemma writes_platform: "tight db \<Longrightarrow> platform (writes ws db) k = platform db k"
proof (induction ws arbitrary: db)
  case (Cons w ws)
  show ?case
  proof (cases "put db (fst w) (fst (snd w)) (snd (snd w))")
    case (Some db')
    have "platform db' k = platform db k"
      using put_platform [OF _ Some, of k] Cons.prems by (simp add: tight_def)
    then show ?thesis using Some Cons.IH put_tight [OF Cons.prems Some] by simp
  qed (use Cons in simp)
qed simp

lemma writes_other_tenant:
  "tight db \<Longrightarrow> \<forall>w\<in>set ws. fst w \<noteq> t \<Longrightarrow> effective (writes ws db) t k = effective db t k"
proof (induction ws arbitrary: db)
  case (Cons w ws)
  show ?case
  proof (cases "put db (fst w) (fst (snd w)) (snd (snd w))")
    case (Some db')
    have "effective db' t k = effective db t k"
      using put_effective [OF _ Some, of t k] Cons.prems by (auto simp: tight_def)
    then show ?thesis using Some Cons put_tight [OF Cons.prems(1) Some] by simp
  qed (use Cons in simp)
qed simp

lemma writes_other_key:
  "tight db \<Longrightarrow> \<forall>w\<in>set ws. fst (snd w) \<noteq> k \<Longrightarrow> effective (writes ws db) t k = effective db t k"
proof (induction ws arbitrary: db)
  case (Cons w ws)
  show ?case
  proof (cases "put db (fst w) (fst (snd w)) (snd (snd w))")
    case (Some db')
    have "effective db' t k = effective db t k"
      using put_effective [OF _ Some, of t k] Cons.prems by (auto simp: tight_def)
    then show ?thesis using Some Cons put_tight [OF Cons.prems(1) Some] by simp
  qed (use Cons in simp)
qed simp

end

end
