(* ===== verification/Weights.thy ===== *)
theory Weights
  imports Layered Delegation
begin

text \<open>
  Per-tenant risk weights (\<open>kya/tenant_weights.py\<close>): the registry of scopes with the
  module tables it refers to, the table of overrides with its audit log, and the
  rule that an override may only raise a weight. Rows are kept in the order of
  their ids.
\<close>

section \<open>Scopes\<close>

type_synonym weight_table = "(string \<times> int) list"
type_synonym scope_registry = "(string \<times> weight_table) list"

text \<open>The registry keeps the module tables by reference: an entry names a table, and the
  setters of the factor modules change the table in place. What the readers see is the live
  registry. Replacing a table clears it first.\<close>

type_synonym table_ref = string
type_synonym module_tables = "(table_ref \<times> weight_table) list"
type_synonym registrations = "(string \<times> table_ref) list"

definition register_scope :: "string \<Rightarrow> table_ref \<Rightarrow> registrations \<Rightarrow> registrations" where
  "register_scope scope ref regs = AList.update scope ref regs"

definition module_table :: "module_tables \<Rightarrow> table_ref \<Rightarrow> weight_table" where
  "module_table tbs ref = (case map_of tbs ref of None \<Rightarrow> [] | Some w \<Rightarrow> w)"

definition live_registry :: "module_tables \<Rightarrow> registrations \<Rightarrow> scope_registry" where
  "live_registry tbs regs = map (map_prod id (module_table tbs)) regs"

definition set_table :: "bool \<Rightarrow> (string \<times> 'v) list \<Rightarrow> (string \<times> 'v) list \<Rightarrow> (string \<times> 'v) list" where
  "set_table merge new old = fold (\<lambda>(k, v). AList.update k v) new (if merge then old else [])"

definition set_module_weights :: "bool \<Rightarrow> table_ref \<Rightarrow> weight_table \<Rightarrow> module_tables \<Rightarrow> module_tables" where
  "set_module_weights merge ref new tbs = AList.update ref (set_table merge new (module_table tbs ref)) tbs"

definition known_scopes :: "scope_registry \<Rightarrow> string list" where
  "known_scopes reg = sort (remdups (map fst reg))"

section \<open>The table\<close>

record weight_row =
  wo_tenant :: "ident option"
  wo_scope :: string
  wo_key :: string
  wo_value :: int
  wo_by :: "ident option"
  wo_updated :: instant

record weight_change =
  wc_tenant :: "ident option"
  wc_scope :: string
  wc_key :: string
  wc_old :: "int option"
  wc_new :: "int option"
  wc_action :: string
  wc_by :: "ident option"
  wc_reason :: "string option"
  wc_created :: instant

record weight_db =
  wd_rows :: "weight_row list"
  wd_changes :: "weight_change list"

type_synonym weight_slot = "ident option \<times> string \<times> string"

definition wo_slot :: "weight_row \<Rightarrow> weight_slot" where
  "wo_slot r = (wo_tenant r, wo_scope r, wo_key r)"

abbreviation at_slot :: "weight_slot \<Rightarrow> weight_row \<Rightarrow> bool" where
  "at_slot s \<equiv> (\<lambda>r. wo_slot r = s)"

definition current_value :: "weight_db \<Rightarrow> string \<Rightarrow> string \<Rightarrow> ident option \<Rightarrow> int option" where
  "current_value db scope key t = map_option wo_value (List.find (at_slot (t, scope, key)) (wd_rows db))"

definition layer :: "ident option \<Rightarrow> string \<Rightarrow> weight_db \<Rightarrow> (string \<times> int) list" where
  "layer t scope db =
     map (\<lambda>r. (wo_key r, wo_value r)) (filter (\<lambda>r. wo_tenant r = t \<and> wo_scope r = scope) (wd_rows db))"

definition overlay :: "(string \<times> int) list \<Rightarrow> weight_table \<Rightarrow> weight_table" where
  "overlay kvs w = fold (\<lambda>(k, v). AList.update k v) kvs w"

datatype weight_error = UnknownScope | OverrideLoosens

definition get_effective_weights ::
    "scope_registry \<Rightarrow> weight_db \<Rightarrow> string \<Rightarrow> ident option \<Rightarrow> weight_error + weight_table" where
  "get_effective_weights reg db scope t =
     (case map_of reg scope of
        None \<Rightarrow> Inl UnknownScope
      | Some defaults \<Rightarrow>
          (let w = overlay (layer None scope db) defaults
           in Inr (if truthy t then overlay (layer t scope db) w else w)))"

section \<open>Writes\<close>

definition platform_value :: "scope_registry \<Rightarrow> weight_db \<Rightarrow> string \<Rightarrow> string \<Rightarrow> int" where
  "platform_value reg db scope key =
     (case current_value db scope key None of
        Some v \<Rightarrow> v
      | None \<Rightarrow> (case map_of reg scope of
          None \<Rightarrow> 0
        | Some w \<Rightarrow> (case map_of w key of None \<Rightarrow> 0 | Some v \<Rightarrow> v)))"

definition check_only_tighten ::
    "scope_registry \<Rightarrow> weight_db \<Rightarrow> string \<Rightarrow> string \<Rightarrow> int \<Rightarrow> ident option \<Rightarrow> bool \<Rightarrow> weight_error option" where
  "check_only_tighten reg db scope key new t allow_platform_decrease =
     (if map_of reg scope = None then Some UnknownScope
      else if truthy t then
        (if new < platform_value reg db scope key then Some OverrideLoosens else None)
      else if allow_platform_decrease then None
      else if new < platform_value reg db scope key then Some OverrideLoosens else None)"

definition audit ::
    "string \<Rightarrow> string \<Rightarrow> int option \<Rightarrow> int option \<Rightarrow> string \<Rightarrow> ident option \<Rightarrow> ident option \<Rightarrow>
     string option \<Rightarrow> instant \<Rightarrow> weight_db \<Rightarrow> weight_db" where
  "audit scope key old new act t changed_by reason now db =
     db\<lparr> wd_changes := wd_changes db @
       [\<lparr> wc_tenant = t, wc_scope = scope, wc_key = key, wc_old = old, wc_new = new,
          wc_action = act, wc_by = changed_by, wc_reason = reason, wc_created = now \<rparr>] \<rparr>"

text \<open>
  Both layers update the row of the slot or insert one. A tenant write is an upsert
  on the tenant, scope and key. A platform write looks first; a concurrent writer
  may insert its own row (\<open>race\<close>) before it does, which is then updated instead.
\<close>

definition upsert_row ::
    "instant \<Rightarrow> ident option \<Rightarrow> string \<Rightarrow> string \<Rightarrow> int \<Rightarrow> ident option \<Rightarrow> weight_row list \<Rightarrow> weight_row list" where
  "upsert_row now t scope key v changed_by rows =
     (if list_ex (at_slot (t, scope, key)) rows
      then map_where (at_slot (t, scope, key)) (\<lambda>r. r\<lparr> wo_value := v, wo_updated := now \<rparr>) rows
      else rows @ [\<lparr> wo_tenant = t, wo_scope = scope, wo_key = key, wo_value = v,
                     wo_by = changed_by, wo_updated = now \<rparr>])"

definition write_platform_row ::
    "weight_row option \<Rightarrow> instant \<Rightarrow> string \<Rightarrow> string \<Rightarrow> int \<Rightarrow> ident option \<Rightarrow> weight_row list \<Rightarrow> weight_row list" where
  "write_platform_row race now scope key v changed_by rows =
     upsert_row now None scope key v changed_by
       (case race of
          None \<Rightarrow> rows
        | Some r \<Rightarrow> if list_ex (at_slot (None, scope, key)) rows then rows else rows @ [r])"

definition set_override ::
    "scope_registry \<Rightarrow> weight_row option \<Rightarrow> instant \<Rightarrow> weight_db \<Rightarrow> string \<Rightarrow> string \<Rightarrow> int \<Rightarrow> ident option \<Rightarrow>
     ident option \<Rightarrow> string option \<Rightarrow> bool \<Rightarrow> (weight_error + int option) \<times> weight_db" where
  "set_override reg race now db scope key v t changed_by reason allow =
     (case check_only_tighten reg db scope key v t allow of
        Some e \<Rightarrow> (Inl e, db)
      | None \<Rightarrow>
          (let old = current_value db scope key t;
               rows = (case t of
                  None \<Rightarrow> write_platform_row race now scope key v changed_by (wd_rows db)
                | Some t' \<Rightarrow> upsert_row now (Some t') scope key v changed_by (wd_rows db))
           in (Inr old, audit scope key old (Some v) ''set'' t changed_by reason now (db\<lparr> wd_rows := rows \<rparr>))))"

definition delete_override ::
    "instant \<Rightarrow> weight_db \<Rightarrow> string \<Rightarrow> string \<Rightarrow> ident option \<Rightarrow> ident option \<Rightarrow> string option \<Rightarrow>
     bool \<times> weight_db" where
  "delete_override now db scope key t changed_by reason =
     (case current_value db scope key t of
        None \<Rightarrow> (False, db)
      | Some old \<Rightarrow> (True, audit scope key (Some old) None ''delete'' t changed_by reason now
          (db\<lparr> wd_rows := filter (\<lambda>r. \<not> at_slot (t, scope, key) r) (wd_rows db) \<rparr>)))"

definition list_recent_changes :: "weight_db \<Rightarrow> ident option \<Rightarrow> nat \<Rightarrow> weight_change list" where
  "list_recent_changes db t limit =
     take limit (rev (sort_key wc_created
       (filter (\<lambda>c. t = None \<or> wc_tenant c = t \<or> wc_tenant c = None) (wd_changes db))))"

section \<open>What a weight is\<close>

lemma map_of_overlay:
  "map_of (overlay kvs w) k = (case map_of (rev kvs) k of Some v \<Rightarrow> Some v | None \<Rightarrow> map_of w k)"
proof (induction kvs arbitrary: w)
  case (Cons kv kvs)
  obtain k' v' where kv: "kv = (k', v')" by (cases kv)
  have "map_of (overlay (kv # kvs) w) k
      = (case map_of (rev kvs) k of Some v \<Rightarrow> Some v | None \<Rightarrow> map_of (AList.update k' v' w) k)"
    using Cons.IH by (simp add: overlay_def kv)
  also have "\<dots> = (case map_of (rev (kv # kvs)) k of Some v \<Rightarrow> Some v | None \<Rightarrow> map_of w k)"
    by (simp add: kv update_conv' map_add_def split: option.splits)
  finally show ?case .
qed (simp add: overlay_def)

text \<open>The value in force for a tenant, as the readers of the weights look it up.\<close>

definition effective_weight :: "scope_registry \<Rightarrow> weight_db \<Rightarrow> ident \<Rightarrow> string \<times> string \<Rightarrow> int option" where
  "effective_weight reg db t sk =
     (case get_effective_weights reg db (fst sk) (Some t) of Inl _ \<Rightarrow> None | Inr w \<Rightarrow> map_of w (snd sk))"

text \<open>One row per slot: the unique constraint and the partial index of the table.\<close>

definition slots_unique :: "weight_db \<Rightarrow> bool" where
  "slots_unique db = distinct (map wo_slot (wd_rows db))"

definition tenant_write ::
    "scope_registry \<Rightarrow> instant \<Rightarrow> ident option \<Rightarrow> string option \<Rightarrow> weight_db \<Rightarrow> ident \<Rightarrow> string \<times> string \<Rightarrow> int \<Rightarrow>
     weight_db option" where
  "tenant_write reg now changed_by reason db t sk v =
     (if t = [] then None
      else (case set_override reg None now db (fst sk) (snd sk) v (Some t) changed_by reason False of
        (Inl _, _) \<Rightarrow> None | (Inr _, db') \<Rightarrow> Some db'))"

lemma wo_slot_update [simp]: "wo_slot (r\<lparr> wo_value := v, wo_updated := now \<rparr>) = wo_slot r"
  by (simp add: wo_slot_def)

lemma map_of_layer:
  assumes "slots_unique db"
  shows "map_of (rev (layer t scope db)) key = current_value db scope key t"
proof -
  have "distinct (map wo_slot rows) \<Longrightarrow>
      map_of (rev (map (\<lambda>r. (wo_key r, wo_value r)) (filter (\<lambda>r. wo_tenant r = t \<and> wo_scope r = scope) rows))) key
      = map_option wo_value (List.find (at_slot (t, scope, key)) rows)" for rows
  proof (induction rows)
    case (Cons r rows)
    have none: "List.find (at_slot (t, scope, key)) rows = None" if "wo_slot r = (t, scope, key)"
      unfolding find_None_ball
    proof (intro ballI notI)
      fix x assume "x \<in> set rows" "at_slot (t, scope, key) x"
      then have "wo_slot r \<in> wo_slot ` set rows"
        using that by (force simp: rev_image_eqI)
      with Cons.prems show False by simp
    qed
    have IH: "map_of (rev (map (\<lambda>r. (wo_key r, wo_value r)) (filter (\<lambda>r. wo_tenant r = t \<and> wo_scope r = scope) rows))) key
        = map_option wo_value (List.find (at_slot (t, scope, key)) rows)"
      using Cons by simp
    show ?case
    proof (cases "wo_slot r = (t, scope, key)")
      case True
      then have "wo_tenant r = t" "wo_scope r = scope" "wo_key r = key" by (simp_all add: wo_slot_def)
      then show ?thesis using True IH none by (simp add: map_add_def)
    next
      case False
      then have "\<not> (wo_tenant r = t \<and> wo_scope r = scope \<and> wo_key r = key)" by (simp add: wo_slot_def)
      then show ?thesis using False IH by (auto simp: map_add_def split: option.splits)
    qed
  qed simp
  then show ?thesis
    using assms by (simp add: slots_unique_def layer_def current_value_def)
qed

lemma effective_weight_eq:
  assumes "slots_unique db" "t \<noteq> []"
  shows "effective_weight reg db t (scope, key) =
    (case map_of reg scope of None \<Rightarrow> None
     | Some w \<Rightarrow> (case current_value db scope key (Some t) of Some v \<Rightarrow> Some v
        | None \<Rightarrow> (case current_value db scope key None of Some v \<Rightarrow> Some v | None \<Rightarrow> map_of w key)))"
  using assms by (auto simp: effective_weight_def get_effective_weights_def map_of_overlay map_of_layer Let_def
      split: option.splits)

lemma find_update_slot:
  "map_option wo_value (List.find (at_slot s') (map_where (at_slot s) (\<lambda>r. r\<lparr> wo_value := v, wo_updated := now \<rparr>) rows))
   = (if s' = s then (if list_ex (at_slot s) rows then Some v else None)
      else map_option wo_value (List.find (at_slot s') rows))"
  by (induction rows) (auto simp:)

lemma current_value_put:
  "current_value (audit a b c d e f g h i (db\<lparr> wd_rows := upsert_row now t scope key v by (wd_rows db) \<rparr>)) scope' key' t'
   = (if (t', scope', key') = (t, scope, key) then Some v else current_value db scope' key' t')"
proof (cases "list_ex (at_slot (t, scope, key)) (wd_rows db)")
  case True
  then show ?thesis
    by (simp add: current_value_def audit_def upsert_row_def find_update_slot)
next
  case False
  then have "List.find (at_slot (t, scope, key)) (wd_rows db) = None"
    by (auto simp: find_None_ball list_ex_iff)
  with False show ?thesis
    by (auto simp: current_value_def audit_def upsert_row_def find_append wo_slot_def split: option.splits)
qed

lemma slots_unique_put:
  assumes "slots_unique db"
  shows "slots_unique (audit a b c d e f g h i (db\<lparr> wd_rows := upsert_row now t scope key v by (wd_rows db) \<rparr>))"
proof (cases "list_ex (at_slot (t, scope, key)) (wd_rows db)")
  case True
  have "map wo_slot (map_where P (\<lambda>r. r\<lparr> wo_value := v, wo_updated := now \<rparr>) rows) = map wo_slot rows" for P rows
    by (rule map_map_where) simp
  with True show ?thesis
    using assms by (simp add: slots_unique_def audit_def upsert_row_def)
next
  case False
  then have "(t, scope, key) \<notin> wo_slot ` set (wd_rows db)"
    by (auto simp: list_ex_iff)
  with False show ?thesis
    using assms by (simp add: slots_unique_def audit_def upsert_row_def wo_slot_def)
qed

lemma tenant_write_iff:
  "tenant_write reg now by reason db t sk v = Some db' \<longleftrightarrow>
     t \<noteq> [] \<and> map_of reg (fst sk) \<noteq> None \<and> platform_value reg db (fst sk) (snd sk) \<le> v
     \<and> db' = audit (fst sk) (snd sk) (current_value db (fst sk) (snd sk) (Some t)) (Some v) ''set'' (Some t) by reason now
              (db\<lparr> wd_rows := upsert_row now (Some t) (fst sk) (snd sk) v by (wd_rows db) \<rparr>)"
  by (auto simp: tenant_write_def set_override_def check_only_tighten_def Let_def)

text \<open>The platform's value of a slot, when the scope has one.\<close>

definition platform_weight :: "scope_registry \<Rightarrow> weight_db \<Rightarrow> string \<times> string \<Rightarrow> int option" where
  "platform_weight reg db sk =
     (if map_of reg (fst sk) = None then None else Some (platform_value reg db (fst sk) (snd sk)))"

text \<open>A tenant without an id has no weights of its own.\<close>

definition tenant_weight :: "scope_registry \<Rightarrow> weight_db \<Rightarrow> ident \<Rightarrow> string \<times> string \<Rightarrow> int option" where
  "tenant_weight reg db t sk = (if t = [] then None else effective_weight reg db t sk)"

interpretation weights: layered "\<lambda>a b. b \<le> a" slots_unique "tenant_write reg now by reason"
    "platform_weight reg" "tenant_weight reg"
  for reg now "by" reason
proof unfold_locales
  fix db t sk v db'
  assume ok: "slots_unique db" and put: "tenant_write reg now by reason db t sk v = Some db'"
  note db' = put [unfolded tenant_write_iff]
  show "slots_unique db'" using ok db' slots_unique_put by simp
  show "p \<le> v" if "platform_weight reg db sk = Some p" for p
    using that db' by (simp add: platform_weight_def)
  show "platform_weight reg db' sk' = platform_weight reg db sk'" for sk'
    using db' by (simp add: platform_weight_def platform_value_def current_value_put)
  show "tenant_weight reg db' t' sk' = (if t' = t \<and> sk' = sk then Some v else tenant_weight reg db t' sk')" for t' sk'
  proof (cases "t' = []")
    case False
    obtain s k s' k' where sk: "sk = (s, k)" "sk' = (s', k')" by (cases sk; cases sk') auto
    have u: "slots_unique db'" using ok db' slots_unique_put by simp
    show ?thesis
      using False db' unfolding tenant_weight_def sk effective_weight_eq [OF ok False] effective_weight_eq [OF u False]
      by (auto simp: current_value_put split: option.splits)
  qed (use db' in \<open>auto simp: tenant_weight_def\<close>)
qed

text \<open>Tenants can only tighten: whatever weights tenants write, in any order and
  with any values, no weight in force for a tenant drops below the platform's value
  of the moment, the platform's values do not move, and no tenant's writes reach
  another tenant. The rule is checked at the write only: when the platform later
  raises its own value, an older override stays below it, and that laxer weight is
  the one in force.\<close>

theorem tenants_only_tighten:
  assumes "weights.tight reg db"
  shows "weights.tight reg (weights.writes reg now who reason ws db)
    \<and> platform_weight reg (weights.writes reg now who reason ws db) sk = platform_weight reg db sk
    \<and> ((\<forall>w\<in>set ws. fst w \<noteq> t) \<longrightarrow>
           tenant_weight reg (weights.writes reg now who reason ws db) t sk = tenant_weight reg db t sk)
    \<and> (tenant_write reg now who reason db t (s, k) v = Some dba \<and> v < p
          \<and> set_override reg None now dba s k p None who reason False = (Inr old, dbb) \<longrightarrow>
           platform_weight reg dbb (s, k) = Some p \<and> tenant_weight reg dbb t (s, k) = Some v)"
proof -
  have "weights.tight reg (weights.writes reg now who reason ws db)"
    by (rule weights.writes_tight [OF assms])
  moreover have "platform_weight reg (weights.writes reg now who reason ws db) sk = platform_weight reg db sk"
    by (rule weights.writes_platform [OF assms])
  moreover have "tenant_weight reg (weights.writes reg now who reason ws db) t sk = tenant_weight reg db t sk"
    if "\<forall>w\<in>set ws. fst w \<noteq> t"
    by (rule weights.writes_other_tenant [OF assms that])
  moreover have "platform_weight reg dbb (s, k) = Some p \<and> tenant_weight reg dbb t (s, k) = Some v"
    if w: "tenant_write reg now who reason db t (s, k) v = Some dba" and p: "v < p"
      and up: "set_override reg None now dba s k p None who reason False = (Inr old, dbb)"
  proof -
    note dba = w [unfolded tenant_write_iff]
    have dbb: "dbb = audit s k old (Some p) ''set'' None who reason now (dba\<lparr> wd_rows := upsert_row now None s k p who (wd_rows dba) \<rparr>)"
      and reg: "map_of reg s \<noteq> None"
      using up by (auto simp: set_override_def Let_def check_only_tighten_def write_platform_row_def split: if_splits)
    have "slots_unique dba" "slots_unique dbb"
      using assms dba dbb by (simp_all add: weights.tight_def slots_unique_put)
    then show ?thesis
      using dba reg effective_weight_eq [of dbb t reg s k]
      by (auto simp: platform_weight_def platform_value_def tenant_weight_def dbb current_value_put)
  qed
  ultimately show ?thesis by blast
qed

definition sample_registry :: scope_registry where
  "sample_registry = [(''data_classes'', [(''pii'', 3)])]"

definition empty_weights :: weight_db where
  "empty_weights = \<lparr> wd_rows = [], wd_changes = [] \<rparr>"

lemma empty_weights_tight: "weights.tight sample_registry empty_weights"
  by (auto simp: weights.tight_def slots_unique_def empty_weights_def platform_weight_def platform_value_def
      current_value_def tenant_weight_def effective_weight_def get_effective_weights_def overlay_def layer_def
      split: sum.splits option.splits if_splits)

lemma tenants_only_tighten_witness:
  "\<exists>db1 db2. tenant_write sample_registry 1 None None empty_weights ''t'' (''data_classes'', ''pii'') 5 = Some db1
     \<and> snd (set_override sample_registry None 1 db1 ''data_classes'' ''pii'' 9 None None None False) = db2
     \<and> platform_weight sample_registry db2 (''data_classes'', ''pii'') = Some 9
     \<and> tenant_weight sample_registry db2 ''t'' (''data_classes'', ''pii'') = Some 5"
proof -
  obtain db1 where 1: "tenant_write sample_registry 1 None None empty_weights ''t'' (''data_classes'', ''pii'') 5 = Some db1"
    unfolding tenant_write_iff by (simp add: sample_registry_def platform_value_def current_value_def empty_weights_def)
  then have "platform_value sample_registry db1 ''data_classes'' ''pii'' = 3"
    by (auto simp: tenant_write_iff sample_registry_def platform_value_def current_value_put)
       (simp_all add: current_value_def empty_weights_def)
  then obtain old db2 where 2: "set_override sample_registry None 1 db1 ''data_classes'' ''pii'' 9 None None None False = (Inr old, db2)"
    by (auto simp: set_override_def check_only_tighten_def Let_def sample_registry_def)
  show ?thesis
    using 1 2 tenants_only_tighten [OF empty_weights_tight, where t = "''t''" and s = "''data_classes''" and k = "''pii''"
        and v = 5 and p = 9 and now = 1 and who = None and reason = None and dba = db1 and dbb = db2 and old = old]
    by auto
qed

end
