(* ===== verification/Floats.thy ===== *)
theory Floats
  imports Complex_Main "HOL-Library.Log_Nat" Prelude
begin

text \<open>
  Python's binary64 floats as the rational numbers they denote: \<open>fl x\<close> is the float
  nearest to \<open>x\<close> (53 significant bits, ties to even), and an operation on floats is
  the exact operation followed by \<open>fl\<close>. Overflow and subnormal numbers are outside
  the model; no value of the modelled code comes near either. \<open>py_round\<close> is the
  built-in \<open>round\<close> and \<open>py_trunc\<close> the conversion \<open>int\<close> of a float.
\<close>

named_theorems fl_bounds "order facts of binary64 rounding"

section \<open>Rounding to integers\<close>

text \<open>\<open>round\<close>: to the nearest integer, ties to the even one.\<close>

definition py_round :: "rat \<Rightarrow> int" where
  "py_round x =
     (let f = \<lfloor>x\<rfloor>; d = x - of_int f
      in if d < 1 / 2 then f else if 1 / 2 < d then f + 1 else if even f then f else f + 1)"

text \<open>\<open>int\<close> of a float truncates towards zero.\<close>

definition py_trunc :: "rat \<Rightarrow> int" where
  "py_trunc x = (if 0 \<le> x then \<lfloor>x\<rfloor> else \<lceil>x\<rceil>)"

lemma py_round_cases: "py_round x = \<lfloor>x\<rfloor> \<or> py_round x = \<lfloor>x\<rfloor> + 1"
  by (simp add: py_round_def Let_def)

lemma py_round_int [simp]: "py_round (of_int n) = n"
  by (simp add: py_round_def)

lemma py_round_mono: "x \<le> y \<Longrightarrow> py_round x \<le> py_round y"
proof -
  assume le: "x \<le> y"
  then have fle: "\<lfloor>x\<rfloor> \<le> \<lfloor>y\<rfloor>" by (rule floor_mono)
  show ?thesis
  proof (cases "\<lfloor>x\<rfloor> = \<lfloor>y\<rfloor>")
    case True
    with le show ?thesis by (auto simp: py_round_def Let_def)
  next
    case False
    with fle have "\<lfloor>x\<rfloor> + 1 \<le> \<lfloor>y\<rfloor>" by simp
    with py_round_cases [of x] py_round_cases [of y] show ?thesis by auto
  qed
qed

lemma py_round_ge: "of_int n \<le> x \<Longrightarrow> n \<le> py_round x"
  using py_round_mono [of "of_int n" x] by simp

lemma py_round_le: "x \<le> of_int n \<Longrightarrow> py_round x \<le> n"
  using py_round_mono [of x "of_int n"] by simp

section \<open>Binary64\<close>

text \<open>The exponent of the leading bit.\<close>

definition lead_bit :: "rat \<Rightarrow> int" where
  "lead_bit x =
     (let (p, q) = quotient_of x; k = bitlen p - bitlen q
      in if 2 powi k \<le> x then k else k - 1)"

definition fl :: "rat \<Rightarrow> rat" where
  "fl x =
     (if x = 0 then 0
      else let e = lead_bit \<bar>x\<bar> - 52; m = of_int (py_round (\<bar>x\<bar> / 2 powi e)) * 2 powi e
           in if 0 < x then m else - m)"

definition fadd :: "rat \<Rightarrow> rat \<Rightarrow> rat" where "fadd x y = fl (x + y)"
definition fsub :: "rat \<Rightarrow> rat \<Rightarrow> rat" where "fsub x y = fl (x - y)"
definition fmul :: "rat \<Rightarrow> rat \<Rightarrow> rat" where "fmul x y = fl (x * y)"
definition fdiv :: "rat \<Rightarrow> rat \<Rightarrow> rat" where "fdiv x y = fl (x / y)"

text \<open>Left-to-right sum, as \<open>sum\<close> computes it.\<close>

definition fsum :: "rat list \<Rightarrow> rat" where
  "fsum xs = fold (\<lambda>x acc. fadd acc x) xs 0"

lemma powi_gt0 [simp]: "0 < (2 :: rat) powi k"
  by (simp add: power_int_def)

lemma powi_pos [simp]: "0 \<le> (2 :: rat) powi k"
  by (simp add: power_int_def)

lemma powi_nz [simp]: "(2 :: rat) powi k \<noteq> 0"
  by simp

lemma powi_mono: "j \<le> k \<Longrightarrow> (2 :: rat) powi j \<le> 2 powi k"
  by (rule power_int_increasing) auto

lemma powi_strict: "j < k \<Longrightarrow> (2 :: rat) powi j < 2 powi k"
  by (rule power_int_strict_increasing) auto

lemma powi_step: "(2 :: rat) powi (k + 1) = 2 * 2 powi k"
  by (simp add: power_int_add)

lemma powi_less_iff: "(2 :: rat) powi j < 2 powi k \<longleftrightarrow> j < k"
  using powi_mono powi_strict by (metis linorder_not_less)

lemma lead_bit_bounds:
  assumes "0 < x"
  shows "2 powi lead_bit x \<le> x \<and> x < 2 powi (lead_bit x + 1)"
proof -
  obtain p q where pq: "quotient_of x = (p, q)" by fastforce
  have q0: "0 < q" using pq by (rule quotient_of_denom_pos)
  have x: "x = of_int p / of_int q" using pq by (rule quotient_of_div)
  have p0: "0 < p" using assms x q0 by (simp add: zero_less_divide_iff)
  define a b where "a = bitlen p" and "b = bitlen q"
  have a1: "1 \<le> a" and b1: "1 \<le> b" using p0 q0 by (auto simp: a_def b_def bitlen_alt_def)
  have P: "2 powi (a - 1) \<le> (of_int p :: rat)" "(of_int p :: rat) < 2 powi a"
  proof -
    have "2 ^ nat (a - 1) \<le> p" "p < 2 ^ nat a"
      using bitlen_bounds [OF p0] by (simp_all add: a_def)
    then have "(2 :: rat) ^ nat (a - 1) \<le> of_int p" "(of_int p :: rat) < 2 ^ nat a"
      by (metis of_int_le_iff of_int_numeral of_int_power, metis of_int_less_iff of_int_numeral of_int_power)
    then show "2 powi (a - 1) \<le> (of_int p :: rat)" "(of_int p :: rat) < 2 powi a"
      using a1 by (simp_all add: power_int_def)
  qed
  have Q: "2 powi (b - 1) \<le> (of_int q :: rat)" "(of_int q :: rat) < 2 powi b"
  proof -
    have "2 ^ nat (b - 1) \<le> q" "q < 2 ^ nat b"
      using bitlen_bounds [OF q0] by (simp_all add: b_def)
    then have "(2 :: rat) ^ nat (b - 1) \<le> of_int q" "(of_int q :: rat) < 2 ^ nat b"
      by (metis of_int_le_iff of_int_numeral of_int_power, metis of_int_less_iff of_int_numeral of_int_power)
    then show "2 powi (b - 1) \<le> (of_int q :: rat)" "(of_int q :: rat) < 2 powi b"
      using b1 by (simp_all add: power_int_def)
  qed
  have qr: "0 < (of_int q :: rat)" using q0 by simp
  have low: "2 powi (a - b - 1) \<le> x"
  proof -
    have "(2 :: rat) powi (a - b - 1) * of_int q \<le> 2 powi (a - b - 1) * 2 powi b"
      using Q(2) by (intro mult_left_mono) auto
    also have "\<dots> = 2 powi (a - 1)" by (simp flip: power_int_add)
    also have "\<dots> \<le> of_int p" by (rule P(1))
    finally show ?thesis using qr by (simp add: x pos_le_divide_eq)
  qed
  have high: "x < 2 powi (a - b + 1)"
  proof -
    have "(of_int p :: rat) < 2 powi a" by (rule P(2))
    also have "\<dots> = 2 powi (a - b + 1) * 2 powi (b - 1)" by (simp flip: power_int_add)
    also have "\<dots> \<le> 2 powi (a - b + 1) * of_int q"
      using Q(1) by (intro mult_left_mono) auto
    finally show ?thesis using qr by (simp add: x pos_divide_less_eq)
  qed
  have "lead_bit x = (if 2 powi (a - b) \<le> x then a - b else a - b - 1)"
    by (simp add: lead_bit_def pq a_def b_def Let_def)
  with low high show ?thesis by (auto simp: not_le)
qed

lemma lead_bit_unique:
  assumes "2 powi k \<le> x" and "x < 2 powi (k + 1)"
  shows "lead_bit x = k"
proof -
  have "0 < x" using assms(1) powi_gt0 by (rule less_le_trans [rotated])
  note B = lead_bit_bounds [OF this]
  have "lead_bit x < k + 1" using B assms(2) by (meson le_less_trans powi_less_iff)
  moreover have "k < lead_bit x + 1" using B assms(1) by (meson le_less_trans powi_less_iff)
  ultimately show ?thesis by simp
qed

lemma lead_bit_mono: "0 < x \<Longrightarrow> x \<le> y \<Longrightarrow> lead_bit x \<le> lead_bit y"
proof -
  assume x: "0 < x" and xy: "x \<le> y"
  then have "0 < y" by simp
  have "2 powi lead_bit x \<le> x" using lead_bit_bounds [OF x] by simp
  also have "\<dots> \<le> y" by (rule xy)
  also have "\<dots> < 2 powi (lead_bit y + 1)" using lead_bit_bounds [OF \<open>0 < y\<close>] by simp
  finally show ?thesis by (simp add: powi_less_iff)
qed

section \<open>Facts of the rounding\<close>

lemma fl_zero [simp]: "fl 0 = 0"
  by (simp add: fl_def)

lemma fl_minus: "fl (- x) = - fl x"
  by (simp add: fl_def Let_def)

lemma fl_pos_eq:
  "0 < x \<Longrightarrow> fl x = of_int (py_round (x / 2 powi (lead_bit x - 52))) * 2 powi (lead_bit x - 52)"
  by (simp add: fl_def Let_def)

text \<open>A number with at most 53 significant bits is a float.\<close>

lemma fl_exact_pos:
  assumes "0 < x" and x: "x = of_int m * 2 powi k" and m: "m < 2 ^ 53"
  shows "fl x = x"
proof -
  define e where "e = lead_bit x - 52"
  have "2 powi (e + 52) \<le> x" using lead_bit_bounds [OF assms(1)] by (simp add: e_def)
  also have "x < 2 powi (k + 53)"
  proof -
    have "(of_int m :: rat) < 2 ^ 53"
      using m by (metis of_int_less_iff of_int_numeral of_int_power)
    then have "of_int m * 2 powi k < 2 ^ 53 * (2 :: rat) powi k"
      by (intro mult_strict_right_mono) auto
    also have "(2 :: rat) ^ 53 * 2 powi k = 2 powi (k + 53)"
      by (simp add: power_int_add)
    finally show ?thesis using x by simp
  qed
  finally have "e \<le> k" by (simp add: powi_less_iff)
  then have "(2 :: rat) powi (k - e) = 2 ^ nat (k - e)" by (simp add: power_int_def)
  then have "(2 :: rat) powi k = 2 ^ nat (k - e) * 2 powi e" by (simp add: power_int_diff field_simps)
  then have "x / 2 powi e = of_int (m * 2 ^ nat (k - e))" by (simp add: x)
  then have "of_int (py_round (x / 2 powi e)) = x / 2 powi e" by (simp only: py_round_int)
  then show ?thesis
    using fl_pos_eq [OF assms(1)] by (simp add: e_def)
qed

lemma fl_nat_exact: "0 \<le> n \<Longrightarrow> n < 2 ^ 53 \<Longrightarrow> fl (of_int n) = of_int n"
  using fl_exact_pos [of "of_int n" n 0] by (cases "n = 0") simp_all

lemma fl_pos_bounds:
  assumes "0 < x"
  shows "2 powi lead_bit x \<le> fl x \<and> fl x \<le> 2 powi (lead_bit x + 1)"
proof -
  define e where "e = lead_bit x - 52"
  have l: "lead_bit x = 52 + e" "lead_bit x + 1 = 53 + e" by (simp_all add: e_def)
  have B: "2 powi (52 + e) \<le> x" "x < 2 powi (53 + e)"
    using lead_bit_bounds [OF assms] by (simp_all add: l)
  have split: "(2 :: rat) powi (52 + e) = 2 ^ 52 * 2 powi e" "(2 :: rat) powi (53 + e) = 2 ^ 53 * 2 powi e"
    by (simp_all add: power_int_add)
  have "of_int (2 ^ 52) \<le> x / 2 powi e" "x / 2 powi e \<le> of_int (2 ^ 53)"
    using B by (simp_all add: split pos_le_divide_eq pos_divide_le_eq)
  then have "2 ^ 52 \<le> py_round (x / 2 powi e)" "py_round (x / 2 powi e) \<le> 2 ^ 53"
    by (metis py_round_ge, metis py_round_le)
  then have "(2 :: rat) ^ 52 \<le> of_int (py_round (x / 2 powi e))"
    "of_int (py_round (x / 2 powi e)) \<le> (2 :: rat) ^ 53"
    by (metis of_int_le_iff of_int_numeral of_int_power)+
  then have "2 ^ 52 * 2 powi e \<le> fl x" "fl x \<le> 2 ^ 53 * 2 powi e"
    using fl_pos_eq [OF assms] by (simp_all add: e_def [symmetric])
  then show ?thesis by (simp add: l split)
qed

lemma fl_pos: "0 < x \<Longrightarrow> 0 < fl x"
  using fl_pos_bounds powi_gt0 by (meson less_le_trans)

lemma fl_mono_pos:
  assumes "0 < x" and "x \<le> y"
  shows "fl x \<le> fl y"
proof -
  have y: "0 < y" using assms by simp
  show ?thesis
  proof (cases "lead_bit x = lead_bit y")
    case True
    have "x / 2 powi (lead_bit y - 52) \<le> y / 2 powi (lead_bit y - 52)"
      using assms by (intro divide_right_mono) auto
    then have "py_round (x / 2 powi (lead_bit y - 52)) \<le> py_round (y / 2 powi (lead_bit y - 52))"
      by (rule py_round_mono)
    then show ?thesis
      using fl_pos_eq [OF assms(1)] fl_pos_eq [OF y] True by (simp add: mult_right_mono)
  next
    case False
    with lead_bit_mono [OF assms] have "lead_bit x + 1 \<le> lead_bit y" by simp
    then have "(2 :: rat) powi (lead_bit x + 1) \<le> 2 powi lead_bit y" by (rule powi_mono)
    with fl_pos_bounds [OF assms(1)] fl_pos_bounds [OF y] show ?thesis by linarith
  qed
qed

lemma fl_mono: "x \<le> y \<Longrightarrow> fl x \<le> fl y"
proof -
  assume le: "x \<le> y"
  consider "0 < x" | "x = 0" | "x < 0" by linarith
  then show ?thesis
  proof cases
    case 2
    with le fl_pos [of y] show ?thesis by (cases "y = 0") auto
  next
    case 3
    show ?thesis
    proof (cases "y < 0")
      case True
      with le fl_mono_pos [of "- y" "- x"] show ?thesis by (simp add: fl_minus)
    next
      case False
      have "fl x < 0" using fl_pos [of "- x"] 3 by (simp add: fl_minus)
      moreover have "0 \<le> fl y" using False fl_pos [of y] by (cases "y = 0") auto
      ultimately show ?thesis by simp
    qed
  qed (use le fl_mono_pos in simp)
qed

text \<open>Rounding never crosses an integer a float can hold.\<close>

lemma fl_ge_int [fl_bounds]: "0 \<le> n \<Longrightarrow> n < 2 ^ 53 \<Longrightarrow> of_int n \<le> x \<Longrightarrow> of_int n \<le> fl x"
  using fl_mono fl_nat_exact by metis

lemma fl_le_int [fl_bounds]: "0 \<le> n \<Longrightarrow> n < 2 ^ 53 \<Longrightarrow> x \<le> of_int n \<Longrightarrow> fl x \<le> of_int n"
  using fl_mono fl_nat_exact by metis

lemma fl_ge_1 [fl_bounds]: "1 \<le> x \<Longrightarrow> 1 \<le> fl x"
  using fl_ge_int [of 1 x] by simp

lemma fl_ge_0 [fl_bounds]: "0 \<le> x \<Longrightarrow> 0 \<le> fl x"
  using fl_ge_int [of 0 x] by simp

text \<open>Rounding a float changes nothing.\<close>

lemma fl_idem_pos: "0 < x \<Longrightarrow> fl (fl x) = fl x"
proof -
  assume x: "0 < x"
  define e where "e = lead_bit x - 52"
  define m where "m = py_round (x / 2 powi e)"
  have f: "fl x = of_int m * 2 powi e" using fl_pos_eq [OF x] by (simp add: e_def m_def)
  have "of_int m * 2 powi e \<le> (2 :: rat) powi (lead_bit x + 1)"
    using fl_pos_bounds [OF x] f by simp
  also have "(2 :: rat) powi (lead_bit x + 1) = 2 ^ 53 * 2 powi e"
    by (simp add: e_def flip: power_int_add) (simp add: power_int_add power_int_diff)
  finally have "(of_int m :: rat) \<le> 2 ^ 53"
    by (simp add: mult_le_cancel_right)
  then have m: "m \<le> 2 ^ 53" by (metis of_int_le_iff of_int_numeral of_int_power)
  show ?thesis
  proof (cases "m = 2 ^ 53")
    case True
    have "fl x = of_int (2 ^ 52) * 2 powi (e + 1)" using True by (simp add: f powi_step)
    from fl_exact_pos [OF fl_pos [OF x] this] show ?thesis by simp
  next
    case False
    with m f show ?thesis using fl_exact_pos [OF fl_pos [OF x], of m e] by simp
  qed
qed

lemma fl_idem [simp]: "fl (fl x) = fl x"
  using fl_idem_pos [of x] fl_idem_pos [of "- x"]
  by (cases "x = 0"; cases "0 < x") (auto simp: fl_minus)

text \<open>Evaluation of a rounding from its leading bit.\<close>

lemma fl_value:
  assumes "2 powi k \<le> x" and "x < 2 powi (k + 1)" and "py_round (x / 2 powi (k - 52)) = m"
  shows "fl x = of_int m * 2 powi (k - 52)"
proof -
  have "0 < x" using assms(1) powi_gt0 by (rule less_le_trans [rotated])
  with lead_bit_unique [OF assms(1,2)] assms(3) show ?thesis by (simp add: fl_pos_eq)
qed

end
