(* ===== verification/Budget.thy ===== *)
theory Budget
  imports Layered RateLimit Floats
begin

text \<open>
  Cost budgets of tenants (\<open>kya/tenant_budget.py\<close>): the table of caps with its
  audit log, the spend counters in the shared store, the linear forecaster and the
  decision whether a cost may be incurred. Amounts are rational numbers of dollars;
  the counters hold whole micro-dollars. Rows are kept in insertion order, the
  order in which a query without \<open>ORDER BY\<close> returns them here.
\<close>

section \<open>Vocabulary\<close>

definition PRINCIPAL_KINDS :: "string list" where
  "PRINCIPAL_KINDS = [''tenant'', ''agent'', ''user'', ''service_account'']"

definition BUDGET_SCOPES :: "string list" where
  "BUDGET_SCOPES = PRINCIPAL_KINDS @ [''cost_center'', ''business_unit'']"

definition WINDOW_SECONDS :: "(string \<times> int) list" where
  "WINDOW_SECONDS =
    [(''1m'', 60), (''5m'', 300), (''15m'', 900), (''1h'', 3600), (''24h'', 86400), (''7d'', 604800),
     (''14d'', 1209600), (''30d'', 2592000), (''45d'', 3888000), (''60d'', 5184000), (''90d'', 7776000),
     (''365d'', 31536000)]"

definition BUDGET_WINDOWS :: "string list" where
  "BUDGET_WINDOWS = map fst WINDOW_SECONDS"

definition VALKEY_TTL_SECONDS :: "(string \<times> int) list" where
  "VALKEY_TTL_SECONDS =
    [(''1m'', 90), (''5m'', 360), (''15m'', 1020), (''1h'', 4200), (''24h'', 90000), (''7d'', 608400),
     (''14d'', 1213200), (''30d'', 2595600), (''45d'', 3891600), (''60d'', 5187600), (''90d'', 7779600),
     (''365d'', 31539600)]"

section \<open>The table of caps\<close>

record budget_row =
  bu_tenant :: "ident option"
  bu_scope :: string
  bu_key :: string
  bu_window :: string
  bu_threshold :: rat
  bu_hard :: bool
  bu_horizon :: int
  bu_by :: "ident option"

record budget_change =
  bc_tenant :: "ident option"
  bc_slot :: "string \<times> string \<times> string"
  bc_old :: "rat option"
  bc_new :: "rat option"
  bc_old_hard :: "bool option"
  bc_new_hard :: "bool option"
  bc_action :: string
  bc_by :: "ident option"
  bc_reason :: "string option"

record budget_db =
  bd_rows :: "budget_row list"
  bd_changes :: "budget_change list"

type_synonym budget_slot = "string \<times> string \<times> string"

definition bu_slot :: "budget_row \<Rightarrow> ident option \<times> budget_slot" where
  "bu_slot r = (bu_tenant r, bu_scope r, bu_key r, bu_window r)"

abbreviation at_cap :: "ident option \<times> budget_slot \<Rightarrow> budget_row \<Rightarrow> bool" where
  "at_cap s \<equiv> (\<lambda>r. bu_slot r = s)"

definition platform_default_threshold :: "budget_db \<Rightarrow> budget_slot \<Rightarrow> rat option" where
  "platform_default_threshold db k = map_option bu_threshold (List.find (at_cap (None, k)) (bd_rows db))"

definition get_budget :: "budget_db \<Rightarrow> ident option \<Rightarrow> budget_slot \<Rightarrow> budget_row option" where
  "get_budget db t k =
     (case (if t = None then None else List.find (at_cap (t, k)) (bd_rows db)) of
        Some r \<Rightarrow> Some r
      | None \<Rightarrow> List.find (at_cap (None, k)) (bd_rows db))"

definition list_budgets :: "budget_db \<Rightarrow> ident option \<Rightarrow> budget_row list" where
  "list_budgets db t =
     sort_key (\<lambda>r. (bu_scope r, bu_key r, bu_window r))
       (filter (\<lambda>r. bu_tenant r = None \<or> (t \<noteq> None \<and> bu_tenant r = t)) (bd_rows db))"

text \<open>The insert conflicts on the four columns of the unique constraint; in SQL a NULL
  tenant equals no other, so a platform row never conflicts.\<close>

definition upsert_budget :: "budget_row \<Rightarrow> budget_row list \<Rightarrow> budget_row list" where
  "upsert_budget r rows =
     (if bu_tenant r \<noteq> None \<and> list_ex (at_cap (bu_slot r)) rows
      then map_where (at_cap (bu_slot r))
             (\<lambda>x. x\<lparr> bu_threshold := bu_threshold r, bu_hard := bu_hard r, bu_horizon := bu_horizon r \<rparr>) rows
      else rows @ [r])"

text \<open>The audit entry; a failing insert is logged and loses it (\<open>log_ok\<close>).\<close>

definition log_change :: "bool \<Rightarrow> budget_change \<Rightarrow> budget_db \<Rightarrow> budget_db" where
  "log_change log_ok c db = (if log_ok then db\<lparr> bd_changes := bd_changes db @ [c] \<rparr> else db)"

datatype budget_error = BadScope | BadWindow | BadThreshold | BudgetLoosens

definition check_only_tighten_budget :: "budget_db \<Rightarrow> ident option \<Rightarrow> budget_slot \<Rightarrow> rat \<Rightarrow> budget_error option" where
  "check_only_tighten_budget db t k new =
     (if t = None then None
      else (case platform_default_threshold db k of
        None \<Rightarrow> None
      | Some pd \<Rightarrow> if pd < new then Some BudgetLoosens else None))"

definition set_budget ::
    "bool \<Rightarrow> budget_db \<Rightarrow> ident option \<Rightarrow> budget_slot \<Rightarrow> rat \<Rightarrow> bool \<Rightarrow> int \<Rightarrow> ident option \<Rightarrow> string option \<Rightarrow>
     (budget_error + budget_row) \<times> budget_db" where
  "set_budget log_ok db t k threshold hard horizon created_by reason =
     (if fst k \<notin> set BUDGET_SCOPES then (Inl BadScope, db)
      else if snd (snd k) \<notin> set BUDGET_WINDOWS then (Inl BadWindow, db)
      else if threshold \<le> 0 then (Inl BadThreshold, db)
      else (case check_only_tighten_budget db t k threshold of
        Some e \<Rightarrow> (Inl e, db)
      | None \<Rightarrow>
          (let prior = get_budget db t k;
               r = \<lparr> bu_tenant = t, bu_scope = fst k, bu_key = fst (snd k), bu_window = snd (snd k),
                     bu_threshold = threshold, bu_hard = hard, bu_horizon = horizon, bu_by = created_by \<rparr>
           in (Inr r, log_change log_ok
                \<lparr> bc_tenant = t, bc_slot = k, bc_old = map_option bu_threshold prior, bc_new = Some threshold,
                  bc_old_hard = map_option bu_hard prior, bc_new_hard = Some hard, bc_action = ''set'',
                  bc_by = created_by, bc_reason = reason \<rparr>
                (db\<lparr> bd_rows := upsert_budget r (bd_rows db) \<rparr>)))))"

definition delete_budget ::
    "bool \<Rightarrow> budget_db \<Rightarrow> ident option \<Rightarrow> budget_slot \<Rightarrow> ident option \<Rightarrow> string option \<Rightarrow> bool \<times> budget_db" where
  "delete_budget log_ok db t k deleted_by reason =
     (case get_budget db t k of
        None \<Rightarrow> (False, db)
      | Some prior \<Rightarrow>
          (True, log_change log_ok
             \<lparr> bc_tenant = t, bc_slot = k, bc_old = Some (bu_threshold prior), bc_new = None,
               bc_old_hard = Some (bu_hard prior), bc_new_hard = None, bc_action = ''delete'',
               bc_by = deleted_by, bc_reason = reason \<rparr>
             (db\<lparr> bd_rows := filter (\<lambda>r. bu_slot r \<noteq> (t, k)) (bd_rows db) \<rparr>)))"

definition list_changes :: "budget_db \<Rightarrow> ident option \<Rightarrow> nat \<Rightarrow> budget_change list" where
  "list_changes db t limit =
     take limit (filter (\<lambda>c. bc_tenant c = None \<or> (t \<noteq> None \<and> bc_tenant c = t)) (rev (bd_changes db)))"

section \<open>Spend counters\<close>

definition USD_PRECISION :: int where "USD_PRECISION = 1000000"
definition MAX_SCOPE_KEY_LEN :: nat where "MAX_SCOPE_KEY_LEN = 200"

definition cost_key :: "ident \<Rightarrow> string \<Rightarrow> string \<Rightarrow> string \<Rightarrow> string" where
  "cost_key t scope key window = ''kya:cost:v2:'' @ t @ '':'' @ scope @ '':'' @ key @ '':'' @ window"

text \<open>The commands of the pipeline, in order; one that raises ends it.\<close>

fun bump_windows :: "'st valkey \<Rightarrow> instant \<Rightarrow> (string \<Rightarrow> string) \<Rightarrow> int \<Rightarrow> (string \<times> int) list \<Rightarrow> 'st \<Rightarrow> 'st" where
  "bump_windows vk now key_of micros [] st = st"
| "bump_windows vk now key_of micros ((w, ttl) # ws) st =
     (case vk_incrby vk st now (key_of w) micros of
        None \<Rightarrow> st
      | Some (n, st') \<Rightarrow>
          (case vk_expire vk st' now (key_of w) ttl of
             None \<Rightarrow> st'
           | Some st'' \<Rightarrow> bump_windows vk now key_of micros ws st''))"

definition increment_windows ::
    "'st valkey option \<Rightarrow> instant \<Rightarrow> ident \<Rightarrow> string \<Rightarrow> string \<Rightarrow> rat \<Rightarrow> 'st \<Rightarrow> 'st" where
  "increment_windows store now t scope key usd st =
     (let micros = py_round (usd * of_int USD_PRECISION)
      in if scope \<notin> set BUDGET_SCOPES then st
         else if key = [] \<or> MAX_SCOPE_KEY_LEN < length key then st
         else if usd \<le> 0 then st
         else (case store of
           None \<Rightarrow> st
         | Some vk \<Rightarrow>
             if micros \<le> 0 then st
             else bump_windows vk now (cost_key t scope key) micros VALKEY_TTL_SECONDS st))"

definition current_spend ::
    "'st valkey option \<Rightarrow> instant \<Rightarrow> 'st \<Rightarrow> ident \<Rightarrow> string \<Rightarrow> string \<Rightarrow> string \<Rightarrow> rat" where
  "current_spend store now st t scope key window =
     (if scope \<notin> set BUDGET_SCOPES \<or> window \<notin> set BUDGET_WINDOWS then 0
      else (case store of
        None \<Rightarrow> 0
      | Some vk \<Rightarrow>
          (case vk_get vk st now (cost_key t scope key window) of
             None \<Rightarrow> 0
           | Some None \<Rightarrow> 0
           | Some (Some n) \<Rightarrow> of_int n / of_int USD_PRECISION)))"

definition burn_rate_per_sec :: "'st valkey option \<Rightarrow> instant \<Rightarrow> 'st \<Rightarrow> ident \<Rightarrow> string \<Rightarrow> string \<Rightarrow> rat" where
  "burn_rate_per_sec store now st t scope key = current_spend store now st t scope key ''1h'' / 3600"

text \<open>The counters a cost event moves.\<close>

definition record_cost_counters ::
    "'st valkey option \<Rightarrow> instant \<Rightarrow> ident \<Rightarrow> string \<Rightarrow> rat \<Rightarrow> string \<Rightarrow> ident option \<Rightarrow> string option \<Rightarrow>
     string option \<Rightarrow> 'st \<Rightarrow> 'st" where
  "record_cost_counters store now t agent_key usd pkind pid cost_center business_unit st =
     (if usd \<le> 0 then st
      else
        (let kind = (if pkind \<notin> set PRINCIPAL_KINDS then ''agent'' else pkind);
             who = or_else pid agent_key;
             st1 = increment_windows store now t ''tenant'' ''*'' usd st;
             st2 = increment_windows store now t ''agent'' agent_key usd st1;
             st3 = (if kind \<noteq> ''agent'' then increment_windows store now t kind who usd st2 else st2);
             st4 = (if truthy cost_center then increment_windows store now t ''cost_center'' (the cost_center) usd st3 else st3)
         in if truthy business_unit then increment_windows store now t ''business_unit'' (the business_unit) usd st4
            else st4))"

section \<open>Forecast and decision\<close>

record forecast =
  fc_current :: rat
  fc_projected :: rat
  fc_threshold :: rat
  fc_horizon :: int
  fc_breach :: bool
  fc_breach_in :: "int option"

text \<open>\<open>int\<close> of a non-negative quotient.\<close>

definition linear_forecast :: "rat \<Rightarrow> rat \<Rightarrow> rat \<Rightarrow> int \<Rightarrow> forecast" where
  "linear_forecast current threshold burn horizon =
     (let projected = current + max 0 burn * of_int horizon; breach = (threshold \<le> projected)
      in \<lparr> fc_current = current, fc_projected = projected, fc_threshold = threshold, fc_horizon = horizon,
           fc_breach = breach,
           fc_breach_in = (if breach \<and> 0 < burn then Some \<lfloor>max 0 (threshold - current) / burn\<rfloor> else None) \<rparr>)"

datatype budget_verdict = Allow | Warn | Throttle | Refuse

primrec STRICTNESS :: "budget_verdict \<Rightarrow> nat" where
  "STRICTNESS Allow = 0" | "STRICTNESS Warn = 1" | "STRICTNESS Throttle = 2" | "STRICTNESS Refuse = 3"

datatype budget_reason = NoReason | Exhausted string | ForecastBreach string

record decision =
  de_verdict :: budget_verdict
  de_reason :: budget_reason
  de_current :: rat
  de_threshold :: rat
  de_forecast :: "forecast option"

definition allow_decision :: decision where
  "allow_decision = \<lparr> de_verdict = Allow, de_reason = NoReason, de_current = 0, de_threshold = 0,
     de_forecast = None \<rparr>"

text \<open>One pass over the rows: a platform row never replaces an entry already there.\<close>

definition add_budget :: "budget_row \<Rightarrow> (string \<times> budget_row) list \<Rightarrow> (string \<times> budget_row) list" where
  "add_budget r out =
     (if map_of out (bu_window r) \<noteq> None \<and> bu_tenant r = None then out else AList.update (bu_window r) r out)"

definition get_budgets_for_windows ::
    "bool \<Rightarrow> budget_db \<Rightarrow> ident option \<Rightarrow> string \<Rightarrow> string \<Rightarrow> string list \<Rightarrow> (string \<times> budget_row) list" where
  "get_budgets_for_windows db_ok db t scope key windows =
     (if windows = [] \<or> \<not> db_ok then []
      else fold add_budget
        (filter (\<lambda>r. (bu_tenant r = None \<or> (t \<noteq> None \<and> bu_tenant r = t))
           \<and> bu_scope r = scope \<and> bu_key r = key \<and> bu_window r \<in> set windows) (bd_rows db)) [])"

definition window_decision ::
    "(rat \<Rightarrow> rat \<Rightarrow> rat \<Rightarrow> int \<Rightarrow> forecast) \<Rightarrow> rat \<Rightarrow> rat \<Rightarrow> rat \<Rightarrow> budget_row \<Rightarrow> decision option" where
  "window_decision fcast burn cur cost cfg =
     (let projected = cur + max 0 cost;
          fc = fcast projected (bu_threshold cfg) burn (bu_horizon cfg);
          found = \<lambda>v why. Some \<lparr> de_verdict = v, de_reason = why, de_current = projected,
                               de_threshold = bu_threshold cfg, de_forecast = Some fc \<rparr>
      in if bu_threshold cfg \<le> projected
         then found (if bu_hard cfg then Refuse else Warn) (Exhausted (bu_window cfg))
         else if fc_breach fc
         then found (if bu_hard cfg then Throttle else Warn) (ForecastBreach (bu_window cfg))
         else None)"

definition stricter :: "decision option \<Rightarrow> decision \<Rightarrow> decision" where
  "stricter d best =
     (case d of None \<Rightarrow> best
      | Some d' \<Rightarrow> if STRICTNESS (de_verdict best) < STRICTNESS (de_verdict d') then d' else best)"

definition budget_windows :: "string option \<Rightarrow> string list" where
  "budget_windows window =
     (case window of
        Some w \<Rightarrow> if w \<in> set BUDGET_WINDOWS then [w] else sort BUDGET_WINDOWS
      | None \<Rightarrow> sort BUDGET_WINDOWS)"

definition should_refuse ::
    "(rat \<Rightarrow> rat \<Rightarrow> rat \<Rightarrow> int \<Rightarrow> forecast) \<Rightarrow> 'st valkey option \<Rightarrow> instant \<Rightarrow> bool \<Rightarrow> budget_db \<Rightarrow> 'st \<Rightarrow> ident \<Rightarrow>
     string \<Rightarrow> rat \<Rightarrow> string \<Rightarrow> string option \<Rightarrow> decision" where
  "should_refuse fcast store now db_ok db st t key cost scope window =
     (let windows = budget_windows window;
          configs = get_budgets_for_windows db_ok db (Some t) scope key windows;
          burn = burn_rate_per_sec store now st t scope key
      in if configs = [] then allow_decision
         else fold (\<lambda>w. stricter (case map_of configs w of
                  None \<Rightarrow> None
                | Some cfg \<Rightarrow> window_decision fcast burn (current_spend store now st t scope key w) cost cfg))
              windows allow_decision)"

end
