(* ===== verification/BudgetFacts.thy ===== *)
theory BudgetFacts
  imports Budget
begin

text \<open>
  What the budgets guarantee: tenants' caps only tighten, the decision refuses
  exactly when a hard cap is met, and where the implementation departs from a
  budget per window: platform caps that cannot be changed and counters that do
  not reset under steady traffic.
\<close>

section \<open>Caps\<close>

text \<open>A tenant's write, as an operation on the table.\<close>

definition tenant_cap ::
    "bool \<Rightarrow> bool \<Rightarrow> int \<Rightarrow> ident option \<Rightarrow> string option \<Rightarrow> budget_db \<Rightarrow> ident \<Rightarrow> budget_slot \<Rightarrow> rat \<Rightarrow>
     budget_db option" where
  "tenant_cap log_ok hard horizon by reason db t k v =
     (case set_budget log_ok db (Some t) k v hard horizon by reason of (Inl _, _) \<Rightarrow> None | (Inr _, db') \<Rightarrow> Some db')"

definition effective_cap :: "budget_db \<Rightarrow> ident \<Rightarrow> budget_slot \<Rightarrow> rat option" where
  "effective_cap db t k = map_option bu_threshold (get_budget db (Some t) k)"

lemma bd_rows_log [simp]: "bd_rows (log_change ok c db) = bd_rows db"
  by (simp add: log_change_def)

lemma bu_slot_update [simp]:
  "bu_slot (x\<lparr> bu_threshold := a, bu_hard := b, bu_horizon := c \<rparr>) = bu_slot x"
  by (simp add: bu_slot_def)

lemma find_upsert_budget:
  assumes "bu_tenant r \<noteq> None"
  shows "map_option bu_threshold (List.find (at_cap s) (upsert_budget r rows))
    = (if s = bu_slot r then Some (bu_threshold r) else map_option bu_threshold (List.find (at_cap s) rows))"
proof (cases "list_ex (at_cap (bu_slot r)) rows")
  case True
  have "map_option bu_threshold (List.find (at_cap s) (map_where (at_cap (bu_slot r))
          (\<lambda>x. x\<lparr> bu_threshold := bu_threshold r, bu_hard := bu_hard r, bu_horizon := bu_horizon r \<rparr>) rows))
     = (if s = bu_slot r then (if list_ex (at_cap (bu_slot r)) rows then Some (bu_threshold r) else None)
        else map_option bu_threshold (List.find (at_cap s) rows))" for rows
    by (induction rows) auto
  with True assms show ?thesis by (simp add: upsert_budget_def)
next
  case False
  then have "List.find (at_cap (bu_slot r)) rows = None"
    by (auto simp: find_None_ball list_ex_iff)
  with False assms show ?thesis
    by (auto simp: upsert_budget_def find_append split: option.splits)
qed

lemma tenant_cap_iff:
  "tenant_cap log_ok hard horizon by reason db t k v = Some db' \<longleftrightarrow>
     fst (set_budget log_ok db (Some t) k v hard horizon by reason)
       = Inr \<lparr> bu_tenant = Some t, bu_scope = fst k, bu_key = fst (snd k), bu_window = snd (snd k),
               bu_threshold = v, bu_hard = hard, bu_horizon = horizon, bu_by = by \<rparr>
     \<and> db' = snd (set_budget log_ok db (Some t) k v hard horizon by reason)"
  by (auto simp: tenant_cap_def set_budget_def Let_def split: option.splits)

lemma tenant_cap_rows:
  assumes "tenant_cap log_ok hard horizon by reason db t k v = Some db'"
  shows "bd_rows db' = upsert_budget \<lparr> bu_tenant = Some t, bu_scope = fst k, bu_key = fst (snd k),
      bu_window = snd (snd k), bu_threshold = v, bu_hard = hard, bu_horizon = horizon, bu_by = by \<rparr> (bd_rows db)"
    and "platform_default_threshold db k = Some p \<Longrightarrow> v \<le> p"
  using assms by (auto simp: tenant_cap_def set_budget_def check_only_tighten_budget_def Let_def
      split: option.splits if_splits)

lemma effective_cap_eq:
  "effective_cap db t k = (case map_option bu_threshold (List.find (at_cap (Some t, k)) (bd_rows db)) of
      Some v \<Rightarrow> Some v | None \<Rightarrow> platform_default_threshold db k)"
  by (auto simp: effective_cap_def get_budget_def platform_default_threshold_def split: option.splits)

interpretation budgets: layered "\<lambda>a b. a \<le> b" "\<lambda>db. True" "tenant_cap log_ok hard horizon by reason"
    platform_default_threshold effective_cap
  for log_ok hard horizon "by" reason
proof unfold_locales
  fix db t k v db'
  assume put: "tenant_cap log_ok hard horizon by reason db t k v = Some db'"
  let ?r = "\<lparr> bu_tenant = Some t, bu_scope = fst k, bu_key = fst (snd k),
      bu_window = snd (snd k), bu_threshold = v, bu_hard = hard, bu_horizon = horizon, bu_by = by \<rparr>"
  have rows: "map_option bu_threshold (List.find (at_cap s) (bd_rows db'))
      = (if s = (Some t, k) then Some v else map_option bu_threshold (List.find (at_cap s) (bd_rows db)))" for s
    using find_upsert_budget [of ?r s "bd_rows db"] by (simp add: tenant_cap_rows(1) [OF put] bu_slot_def)
  show "v \<le> p" if "platform_default_threshold db k = Some p" for p
    using tenant_cap_rows(2) [OF put that] .
  show "platform_default_threshold db' k' = platform_default_threshold db k'" for k'
    by (simp add: platform_default_threshold_def rows)
  then show "effective_cap db' t' k' = (if t' = t \<and> k' = k then Some v else effective_cap db t' k')" for t' k'
    by (auto simp: effective_cap_eq rows split: option.splits)
qed simp

text \<open>Whatever caps tenants write, in any order, no cap in force for a tenant
  exceeds the platform's, the platform's caps do not move, and no tenant's writes
  reach another tenant; a tenant without a cap of its own has the platform's.\<close>

theorem tenant_caps_only_tighten:
  assumes "budgets.tight db"
  shows "budgets.tight (budgets.writes log_ok hard horizon by reason ws db)
    \<and> platform_default_threshold (budgets.writes log_ok hard horizon by reason ws db) k = platform_default_threshold db k
    \<and> ((\<forall>w\<in>set ws. fst w \<noteq> t) \<longrightarrow>
         effective_cap (budgets.writes log_ok hard horizon by reason ws db) t k = effective_cap db t k)"
  by (intro conjI impI budgets.writes_tight [OF assms] budgets.writes_platform [OF assms]
      budgets.writes_other_tenant [OF assms])

definition no_budgets :: budget_db where
  "no_budgets = \<lparr> bd_rows = [], bd_changes = [] \<rparr>"

lemma no_budgets_tight: "budgets.tight no_budgets"
  by (simp add: budgets.tight_def platform_default_threshold_def no_budgets_def)

lemma tenant_caps_only_tighten_witness:
  "budgets.tight (budgets.writes True True 3600 None None [(''t'', (''tenant'', ''*'', ''24h''), 5)] no_budgets)
   \<and> effective_cap (budgets.writes True True 3600 None None [(''t'', (''tenant'', ''*'', ''24h''), 5)] no_budgets)
       ''t'' (''tenant'', ''*'', ''24h'') = Some 5"
proof
  show "budgets.tight (budgets.writes True True 3600 None None [(''t'', (''tenant'', ''*'', ''24h''), 5)] no_budgets)"
    using tenant_caps_only_tighten [OF no_budgets_tight] by blast
  show "effective_cap (budgets.writes True True 3600 None None [(''t'', (''tenant'', ''*'', ''24h''), 5)] no_budgets)
       ''t'' (''tenant'', ''*'', ''24h'') = Some 5"
    by (simp add: tenant_cap_def set_budget_def check_only_tighten_budget_def platform_default_threshold_def
        no_budgets_def Let_def BUDGET_SCOPES_def PRINCIPAL_KINDS_def BUDGET_WINDOWS_def WINDOW_SECONDS_def upsert_budget_def
        effective_cap_def get_budget_def bu_slot_def log_change_def)
qed

section \<open>Platform caps\<close>

lemma add_budget_keeps: "map_of out w \<noteq> None \<Longrightarrow> map_of (add_budget r out) w \<noteq> None"
  by (auto simp: add_budget_def update_conv')

lemma fold_add_budget_keeps: "map_of out w \<noteq> None \<Longrightarrow> map_of (fold add_budget rs out) w \<noteq> None"
proof (induction rs arbitrary: out)
  case (Cons r rs)
  then show ?case using Cons.IH [OF add_budget_keeps [OF Cons.prems]] by (simp del: not_None_eq)
qed simp

lemma fold_add_budget_has: "r \<in> set rs \<Longrightarrow> map_of (fold add_budget rs out) (bu_window r) \<noteq> None"
proof (induction rs arbitrary: out)
  case (Cons x rs)
  have "map_of (add_budget x out) (bu_window x) \<noteq> None"
    by (auto simp: add_budget_def update_conv')
  from fold_add_budget_keeps [OF this, of rs] Cons show ?case
    by (cases "r = x") (simp_all del: not_None_eq)
qed simp

text \<open>A platform cap cannot be changed once set: writing a new threshold for a
  slot that has a platform row succeeds and logs the change from old to new, but it
  adds a second row (in SQL a NULL tenant never conflicts), which nothing reads. The
  lookup, the bound that tenants are held to and every decision stay as they were.\<close>

theorem platform_cap_update_ignored:
  assumes "List.find (at_cap (None, k)) (bd_rows db) = Some old"
    and "set_budget True db None k v hard horizon by reason = (Inr r, db')"
  shows "get_budget db' t k' = get_budget db t k'
    \<and> platform_default_threshold db' k' = platform_default_threshold db k'
    \<and> should_refuse fcast store now db_ok db' st t'' key cost scope window
       = should_refuse fcast store now db_ok db st t'' key cost scope window
    \<and> (\<exists>c. bd_changes db' = bd_changes db @ [c] \<and> bc_old c = Some (bu_threshold old) \<and> bc_new c = Some v)
    \<and> length (filter (at_cap (None, k)) (bd_rows db')) = Suc (length (filter (at_cap (None, k)) (bd_rows db)))"
proof -
  let ?r = "\<lparr> bu_tenant = None, bu_scope = fst k, bu_key = fst (snd k), bu_window = snd (snd k),
              bu_threshold = v, bu_hard = hard, bu_horizon = horizon, bu_by = by \<rparr>"
  have rows: "bd_rows db' = bd_rows db @ [?r]"
    using assms(2) by (auto simp: set_budget_def Let_def upsert_budget_def log_change_def split: option.splits if_splits)
  have slot: "bu_slot ?r = (None, k)" by (simp add: bu_slot_def)
  have find: "List.find (at_cap s) (bd_rows db') = List.find (at_cap s) (bd_rows db)" for s
    using assms(1) by (auto simp: rows find_append slot split: option.splits)
  then have read: "get_budget db' t k' = get_budget db t k'"
    "platform_default_threshold db' k' = platform_default_threshold db k'"
    by (auto simp: get_budget_def platform_default_threshold_def split: option.splits)
  have log: "\<exists>c. bd_changes db' = bd_changes db @ [c] \<and> bc_old c = Some (bu_threshold old) \<and> bc_new c = Some v"
    using assms by (auto simp: set_budget_def Let_def log_change_def get_budget_def split: option.splits if_splits)
  have len: "length (filter (at_cap (None, k)) (bd_rows db')) = Suc (length (filter (at_cap (None, k)) (bd_rows db)))"
    by (simp add: rows slot)
  have old: "old \<in> set (bd_rows db)" "bu_slot old = (None, k)"
    using find_Some_iff_first [OF assms(1)] by auto
  have "get_budgets_for_windows db_ok db' (Some t'') scope key ws = get_budgets_for_windows db_ok db (Some t'') scope key ws" for ws
  proof -
    let ?P = "\<lambda>r. (bu_tenant r = None \<or> bu_tenant r = Some t'') \<and> bu_scope r = scope \<and> bu_key r = key \<and> bu_window r \<in> set ws"
    have "add_budget ?r (fold add_budget (filter ?P (bd_rows db)) []) = fold add_budget (filter ?P (bd_rows db)) []" if "?P ?r"
    proof -
      have "?P old" "bu_window old = bu_window ?r" using old(2) that by (auto simp: bu_slot_def)
      then have "map_of (fold add_budget (filter ?P (bd_rows db)) []) (bu_window ?r) \<noteq> None"
        using fold_add_budget_has [of old "filter ?P (bd_rows db)" "[]"] old(1) by simp
      then show ?thesis by (simp add: add_budget_def)
    qed
    then show ?thesis
      by (simp add: get_budgets_for_windows_def rows)
  qed
  then have "should_refuse fcast store now db_ok db' st t'' key cost scope window
       = should_refuse fcast store now db_ok db st t'' key cost scope window"
    by (simp add: should_refuse_def)
  with read log len show ?thesis by (intro conjI)
qed

section \<open>Counters\<close>

lemma cost_key_inject: "cost_key t scope key w = cost_key t scope key w' \<longleftrightarrow> w = w'"
  by (simp add: cost_key_def)

text \<open>What a spend of \<open>n\<close> leaves in the counter of a window.\<close>

definition spent :: "instant \<Rightarrow> entry option \<Rightarrow> int \<Rightarrow> int \<Rightarrow> entry" where
  "spent now e n ttl = (fst (bumped now e n), Some (now + ttl * second))"

lemma bump_windows_view:
  assumes up: "valkey_up vk view" and inj: "\<And>w w'. key_of w = key_of w' \<Longrightarrow> w = w'"
  shows "distinct (map fst ws) \<Longrightarrow>
    view (bump_windows vk now key_of n ws st)
    = (\<lambda>k. case List.find (\<lambda>(w, ttl). key_of w = k) ws of
         None \<Rightarrow> view st k | Some (w, ttl) \<Rightarrow> Some (spent now (view st k) n ttl))"
proof (induction ws arbitrary: st)
  case (Cons wt ws)
  obtain w ttl where wt: "wt = (w, ttl)" by (cases wt)
  let ?k = "key_of w"
  obtain st' where inc: "vk_incrby vk st now ?k n = Some (fst (bumped now (view st ?k) n), st')"
    and v': "view st' = (view st)(?k := Some (bumped now (view st ?k) n))"
    using valkey_incr [OF up] by blast
  obtain st'' where ex: "vk_expire vk st' now ?k ttl = Some st''"
    and v'': "view st'' = (view st')(?k := map_option (\<lambda>(v, d). (v, Some (now + ttl * second))) (live now (view st' ?k)))"
    using valkey_expire [OF up] by blast
  have "live now (Some (bumped now (view st ?k) n)) = Some (bumped now (view st ?k) n)"
    by (auto simp: bumped_def live_def split: option.splits)
  then have view: "view st'' = (view st)(?k := Some (spent now (view st ?k) n ttl))"
    by (auto simp: v'' v' spent_def case_prod_beta)
  have other: "List.find (\<lambda>(w, ttl). key_of w = ?k) ws = None"
    unfolding find_None_ball
  proof (intro ballI notI)
    fix e assume e: "e \<in> set ws" "case e of (w, ttl) \<Rightarrow> key_of w = ?k"
    then have "fst e = w" using inj by (auto simp: case_prod_beta)
    then show False using e(1) Cons.prems by (force simp: wt)
  qed
  show ?case
    using Cons.IH [of st''] Cons.prems inc ex other
    by (auto simp: wt view fun_eq_iff split: option.splits)
qed simp

lemma windows_distinct: "distinct (map fst VALKEY_TTL_SECONDS)" "map fst VALKEY_TTL_SECONDS = BUDGET_WINDOWS"
  by (simp_all add: VALKEY_TTL_SECONDS_def BUDGET_WINDOWS_def WINDOW_SECONDS_def)

definition micros_of :: "rat \<Rightarrow> int" where
  "micros_of usd = py_round (usd * of_int USD_PRECISION)"

lemma increment_windows_view:
  assumes up: "valkey_up vk view" and ok: "scope \<in> set BUDGET_SCOPES" "key \<noteq> []" "length key \<le> MAX_SCOPE_KEY_LEN"
    and usd: "0 < usd" "0 < micros_of usd" and w: "map_of VALKEY_TTL_SECONDS w = Some ttl"
  shows "view (increment_windows (Some vk) now t scope key usd st) (cost_key t scope key w)
    = Some (spent now (view st (cost_key t scope key w)) (micros_of usd) ttl)"
proof -
  have "List.find (\<lambda>(w', ttl). cost_key t scope key w' = cost_key t scope key w) ws = map_option (\<lambda>ttl. (w, ttl)) (map_of ws w)"
    for ws :: "(string \<times> int) list"
    by (induction ws) (auto simp: cost_key_inject)
  then show ?thesis
    using bump_windows_view [OF up _ windows_distinct(1), of "cost_key t scope key" now "micros_of usd" st] ok usd w
    by (simp add: increment_windows_def Let_def micros_of_def [symmetric] cost_key_inject)
qed

text \<open>Costs charged one after another, each within the key's lifetime of the one before.\<close>

fun steady :: "int \<Rightarrow> instant \<Rightarrow> instant list \<Rightarrow> bool" where
  "steady ttl t0 [] = True"
| "steady ttl t0 (t # ts) = (t0 \<le> t \<and> t < t0 + ttl * second \<and> steady ttl t ts)"

definition charges ::
    "'st valkey \<Rightarrow> ident \<Rightarrow> string \<Rightarrow> string \<Rightarrow> (instant \<times> rat) list \<Rightarrow> 'st \<Rightarrow> 'st" where
  "charges vk t scope key cs st = fold (\<lambda>(now, usd). increment_windows (Some vk) now t scope key usd) cs st"

lemma charges_view:
  assumes up: "valkey_up vk view" and ok: "scope \<in> set BUDGET_SCOPES" "key \<noteq> []" "length key \<le> MAX_SCOPE_KEY_LEN"
    and w: "map_of VALKEY_TTL_SECONDS w = Some ttl"
  shows "\<lbrakk>view st (cost_key t scope key w) = Some (n, Some (t0 + ttl * second)); steady ttl t0 (map fst cs);
      \<forall>c\<in>set cs. 0 < snd c \<and> 0 < micros_of (snd c)\<rbrakk> \<Longrightarrow>
    view (charges vk t scope key cs st) (cost_key t scope key w)
      = Some (n + sum_list (map (micros_of \<circ> snd) cs), Some (last (t0 # map fst cs) + ttl * second))"
proof (induction cs arbitrary: st n t0)
  case (Cons c cs)
  obtain now usd where c: "c = (now, usd)" by (cases c)
  let ?st = "increment_windows (Some vk) now t scope key usd st"
  have "view ?st (cost_key t scope key w) = Some (n + micros_of usd, Some (now + ttl * second))"
    using increment_windows_view [OF up ok _ _ w, of usd now t st] Cons.prems
    by (simp add: c spent_def bumped_def live_def)
  then show ?case
    using Cons.IH [of ?st] Cons.prems by (simp add: c charges_def add.assoc)
qed (simp add: charges_def)

text \<open>The counter of a window does not measure the window. Each charge renews the
  key's lifetime, which exceeds the window, so as long as charges keep coming within
  that lifetime the spend reported for the window is the total of all of them since
  the first, over any length of time: after two dollars a minute for an hour the
  one-minute window stands at 120. Only a pause longer than the lifetime resets it.\<close>

theorem window_spend_never_resets:
  assumes "valkey_up vk view" "scope \<in> set BUDGET_SCOPES" "key \<noteq> []" "length key \<le> MAX_SCOPE_KEY_LEN"
    and "map_of VALKEY_TTL_SECONDS w = Some ttl" "live t0 (view st (cost_key t scope key w)) = None"
    and "0 < usd0" "0 < micros_of usd0" "\<forall>c\<in>set cs. 0 < snd c \<and> 0 < micros_of (snd c)"
    and "steady ttl t0 (map fst cs @ [now])"
  shows "current_spend (Some vk) now (charges vk t scope key ((t0, usd0) # cs) st) t scope key w
    = (of_int (micros_of usd0) + of_int (sum_list (map (micros_of \<circ> snd) cs))) / 1000000"
proof -
  let ?st = "increment_windows (Some vk) t0 t scope key usd0 st"
  have split: "steady ttl t0 (xs @ [x]) \<longleftrightarrow> steady ttl t0 xs \<and> last (t0 # xs) \<le> x \<and> x < last (t0 # xs) + ttl * second" for xs x
    by (induction xs arbitrary: t0) auto
  have "view ?st (cost_key t scope key w) = Some (micros_of usd0, Some (t0 + ttl * second))"
    using increment_windows_view [OF assms(1-4,7,8,5)] assms(6) by (simp add: spent_def bumped_def)
  then have "view (charges vk t scope key ((t0, usd0) # cs) st) (cost_key t scope key w)
      = Some (micros_of usd0 + sum_list (map (micros_of \<circ> snd) cs), Some (last (t0 # map fst cs) + ttl * second))"
    using charges_view [OF assms(1-5), of ?st t _ t0 cs] assms(9,10) split
    by (simp add: charges_def)
  moreover have "w \<in> set BUDGET_WINDOWS"
    using assms(5) windows_distinct(2) by (metis fst_conv image_eqI list.set_map map_of_SomeD)
  ultimately show ?thesis
    using assms(2,10) split by (simp add: current_spend_def valkey_get [OF assms(1)] live_def USD_PRECISION_def)
qed

lemma window_spend_never_resets_witness:
  "current_spend (Some sample_valkey) (70 * second)
     (charges sample_valkey ''t'' ''tenant'' ''*'' [(0, 1), (65 * second, 1)] (\<lambda>k. None)) ''t'' ''tenant'' ''*'' ''1m'' = 2"
proof -
  have "micros_of 1 = 1000000"
    by (simp add: micros_of_def py_round_def USD_PRECISION_def Let_def)
  then show ?thesis
    using window_spend_never_resets [OF sample_valkey_up, of "''tenant''" "''*''" "''1m''" 90 0 "\<lambda>k. None" "''t''" 1
        "[(65 * second, 1)]" "70 * second"]
    by (simp add: BUDGET_SCOPES_def PRINCIPAL_KINDS_def MAX_SCOPE_KEY_LEN_def VALKEY_TTL_SECONDS_def live_def second_def)
qed

section \<open>The decision\<close>

lemma strictness_inject: "STRICTNESS a = STRICTNESS b \<longleftrightarrow> a = b"
  by (cases a; cases b) simp_all

lemma strictness_fold:
  "STRICTNESS (de_verdict (fold (\<lambda>w. stricter (f w)) ws d))
   = foldr max (map (\<lambda>w. case f w of None \<Rightarrow> 0 | Some d' \<Rightarrow> STRICTNESS (de_verdict d')) ws) (STRICTNESS (de_verdict d))"
proof (induction ws arbitrary: d)
  case (Cons w ws)
  have "foldr max xs (max a b) = max a (foldr max xs b)" for xs and a b :: nat
    by (induction xs) simp_all
  moreover have "STRICTNESS (de_verdict (stricter (f w) d))
      = max (case f w of None \<Rightarrow> 0 | Some d' \<Rightarrow> STRICTNESS (de_verdict d')) (STRICTNESS (de_verdict d))"
    by (auto simp: stricter_def max_def split: option.splits)
  ultimately show ?case using Cons.IH by simp
qed simp

lemma foldr_max_ge: "n \<le> foldr max xs (0::nat) \<longleftrightarrow> n = 0 \<or> (\<exists>x\<in>set xs. n \<le> x)"
  by (induction xs) (auto simp: le_max_iff_disj)

text \<open>The decision over the caps that apply, one per window.\<close>

definition applicable :: "budget_db \<Rightarrow> ident \<Rightarrow> string \<Rightarrow> string \<Rightarrow> string option \<Rightarrow> string \<Rightarrow> budget_row option" where
  "applicable db t key scope window w =
     (if w \<in> set (budget_windows window)
      then map_of (get_budgets_for_windows True db (Some t) scope key (budget_windows window)) w else None)"

lemma case_option_nest:
  "(case (case m of None \<Rightarrow> None | Some x \<Rightarrow> h x) of None \<Rightarrow> z | Some d \<Rightarrow> s d)
   = (case m of None \<Rightarrow> z | Some x \<Rightarrow> (case h x of None \<Rightarrow> z | Some d \<Rightarrow> s d))"
  by (cases m) simp_all

lemma should_refuse_strictness:
  "STRICTNESS (de_verdict (should_refuse fcast store now True db st t key cost scope window))
   = foldr max (map (\<lambda>w. case applicable db t key scope window w of None \<Rightarrow> 0
       | Some cfg \<Rightarrow> (case window_decision fcast (burn_rate_per_sec store now st t scope key)
             (current_spend store now st t scope key w) cost cfg of None \<Rightarrow> 0 | Some d \<Rightarrow> STRICTNESS (de_verdict d)))
       (budget_windows window)) 0"
proof (cases "get_budgets_for_windows True db (Some t) scope key (budget_windows window) = []")
  case True
  then have "map (\<lambda>w. case applicable db t key scope window w of None \<Rightarrow> 0
       | Some cfg \<Rightarrow> (case window_decision fcast (burn_rate_per_sec store now st t scope key)
             (current_spend store now st t scope key w) cost cfg of None \<Rightarrow> 0 | Some d \<Rightarrow> STRICTNESS (de_verdict d)))
       (budget_windows window) = map (\<lambda>w. 0) (budget_windows window)"
    by (simp add: applicable_def)
  moreover have "foldr max (map (\<lambda>w. 0) ws) 0 = (0::nat)" for ws :: "string list" by (induction ws) simp_all
  ultimately have "foldr max (map (\<lambda>w. case applicable db t key scope window w of None \<Rightarrow> 0
       | Some cfg \<Rightarrow> (case window_decision fcast (burn_rate_per_sec store now st t scope key)
             (current_spend store now st t scope key w) cost cfg of None \<Rightarrow> 0 | Some d \<Rightarrow> STRICTNESS (de_verdict d)))
       (budget_windows window)) 0 = 0"
    by (simp only:)
  then show ?thesis
    using True by (simp add: should_refuse_def allow_decision_def)
next
  case False
  then show ?thesis
    by (simp add: should_refuse_def Let_def strictness_fold allow_decision_def applicable_def case_option_nest
        cong: map_cong)
qed

lemma window_strictness:
  "(case window_decision linear_forecast burn cur cost cfg of None \<Rightarrow> 0 | Some d \<Rightarrow> STRICTNESS (de_verdict d))
   = (if bu_threshold cfg \<le> cur + max 0 cost then (if bu_hard cfg then 3 else 1)
      else if bu_threshold cfg \<le> cur + max 0 cost + max 0 burn * of_int (bu_horizon cfg)
      then (if bu_hard cfg then 2 else 1) else 0)"
  by (auto simp: window_decision_def linear_forecast_def Let_def)

text \<open>C34. The decision is refused exactly when some window with a hard cap is met by
  the spend so far plus the intended cost; it is an allowance exactly when no cap that
  applies is met now or, at the recent burn rate, within its horizon; a higher cost
  never softens it. Only tenant rows and platform rows of that scope and key count,
  and when the caps cannot be read everything is allowed.\<close>

theorem budget_decision_exact:
  fixes store :: "'st valkey option" and now :: instant and db :: budget_db and st :: 'st and t :: ident
    and key scope :: string and window :: "string option"
  defines "decide c \<equiv> de_verdict (should_refuse linear_forecast store now True db st t key c scope window)"
    and "spend w \<equiv> current_spend store now st t scope key w"
    and "cap w \<equiv> applicable db t key scope window w"
  shows "(decide cost = Refuse \<longleftrightarrow>
           (\<exists>w cfg. cap w = Some cfg \<and> bu_hard cfg \<and> bu_threshold cfg \<le> spend w + max 0 cost))
    \<and> (decide cost = Allow \<longleftrightarrow>
           (\<forall>w cfg. cap w = Some cfg \<longrightarrow> spend w + max 0 cost < bu_threshold cfg
              \<and> spend w + max 0 cost + max 0 (burn_rate_per_sec store now st t scope key) * of_int (bu_horizon cfg)
                  < bu_threshold cfg))
    \<and> (cost \<le> cost' \<longrightarrow> STRICTNESS (decide cost) \<le> STRICTNESS (decide cost'))
    \<and> should_refuse linear_forecast store now False db st t key cost scope window = allow_decision"
proof -
  let ?burn = "burn_rate_per_sec store now st t scope key"
  define level where "level c w = (case cap w of None \<Rightarrow> 0
       | Some cfg \<Rightarrow> (if bu_threshold cfg \<le> spend w + max 0 c then (if bu_hard cfg then 3 else 1)
          else if bu_threshold cfg \<le> spend w + max 0 c + max 0 ?burn * of_int (bu_horizon cfg)
          then (if bu_hard cfg then 2 else 1) else (0::nat)))" for c w
  have level: "STRICTNESS (decide c) = foldr max (map (level c) (budget_windows window)) 0" for c
    unfolding decide_def should_refuse_strictness window_strictness level_def cap_def spend_def ..
  have in_windows: "w \<in> set (budget_windows window)" if "cap w = Some cfg" for w cfg
    using that by (simp add: cap_def applicable_def split: if_splits)
  have "decide cost = Refuse \<longleftrightarrow> 3 \<le> STRICTNESS (decide cost)"
    by (cases "decide cost") simp_all
  also have "\<dots> \<longleftrightarrow> (\<exists>w\<in>set (budget_windows window). 3 \<le> level cost w)"
    unfolding level foldr_max_ge by auto
  also have "\<dots> \<longleftrightarrow> (\<exists>w cfg. cap w = Some cfg \<and> bu_hard cfg \<and> bu_threshold cfg \<le> spend w + max 0 cost)"
    using in_windows by (fastforce simp: level_def split: option.splits if_splits)
  finally have refuse: "decide cost = Refuse \<longleftrightarrow>
           (\<exists>w cfg. cap w = Some cfg \<and> bu_hard cfg \<and> bu_threshold cfg \<le> spend w + max 0 cost)" .
  have zero: "decide cost = Allow \<longleftrightarrow> \<not> 1 \<le> STRICTNESS (decide cost)"
    by (cases "decide cost") simp_all
  have "1 \<le> STRICTNESS (decide cost) \<longleftrightarrow> (\<exists>w\<in>set (budget_windows window). 1 \<le> level cost w)"
    unfolding level foldr_max_ge by auto
  moreover have "1 \<le> level cost w \<longleftrightarrow> (\<exists>cfg. cap w = Some cfg \<and> \<not> (spend w + max 0 cost < bu_threshold cfg
              \<and> spend w + max 0 cost + max 0 ?burn * of_int (bu_horizon cfg) < bu_threshold cfg))" for w
    by (cases "cap w") (auto simp: level_def not_less)
  ultimately have allow: "decide cost = Allow \<longleftrightarrow>
           (\<forall>w cfg. cap w = Some cfg \<longrightarrow> spend w + max 0 cost < bu_threshold cfg
              \<and> spend w + max 0 cost + max 0 ?burn * of_int (bu_horizon cfg) < bu_threshold cfg)"
    using in_windows unfolding zero by blast
  have mono: "STRICTNESS (decide cost) \<le> STRICTNESS (decide cost')" if le: "cost \<le> cost'"
  proof -
    have "level cost w \<le> level cost' w" for w
    proof (cases "cap w")
      case (Some cfg)
      have c: "spend w + max 0 cost \<le> spend w + max 0 cost'" using le by (simp add: max_def)
      have "bu_threshold cfg \<le> spend w + max 0 cost \<Longrightarrow> bu_threshold cfg \<le> spend w + max 0 cost'"
        "bu_threshold cfg \<le> spend w + max 0 cost + x \<Longrightarrow> bu_threshold cfg \<le> spend w + max 0 cost' + x" for x
        using c by linarith+
      then show ?thesis by (simp add: level_def Some)
    qed (simp add: level_def)
    then have "foldr max (map (level cost) ws) 0 \<le> foldr max (map (level cost') ws) 0" for ws
      by (induction ws) (simp_all add: max.coboundedI1 max.coboundedI2 max.mono)
    then show ?thesis by (simp only: level)
  qed
  have "should_refuse linear_forecast store now False db st t key cost scope window = allow_decision"
    by (simp add: should_refuse_def get_budgets_for_windows_def)
  with refuse allow mono show ?thesis by (intro conjI impI)
qed

definition hard_cap :: budget_row where
  "hard_cap = \<lparr> bu_tenant = Some ''t'', bu_scope = ''tenant'', bu_key = ''*'', bu_window = ''24h'',
     bu_threshold = 5, bu_hard = True, bu_horizon = 0, bu_by = None \<rparr>"

lemma hard_cap_applies:
  "applicable \<lparr> bd_rows = [hard_cap], bd_changes = [] \<rparr> ''t'' ''*'' ''tenant'' (Some ''24h'') ''24h'' = Some hard_cap"
  by (simp add: applicable_def get_budgets_for_windows_def budget_windows_def BUDGET_WINDOWS_def WINDOW_SECONDS_def
      add_budget_def hard_cap_def)

lemma budget_decision_exact_witness:
  "de_verdict (should_refuse linear_forecast (Some sample_valkey) 0 True \<lparr> bd_rows = [hard_cap], bd_changes = [] \<rparr>
     (\<lambda>k. None) ''t'' ''*'' 5 ''tenant'' (Some ''24h'')) = Refuse
   \<and> 3 \<le> STRICTNESS (de_verdict (should_refuse linear_forecast (Some sample_valkey) 0 True
     \<lparr> bd_rows = [hard_cap], bd_changes = [] \<rparr> (\<lambda>k. None) ''t'' ''*'' 7 ''tenant'' (Some ''24h'')))"
proof -
  let ?d = "\<lambda>c. de_verdict (should_refuse linear_forecast (Some sample_valkey) 0 True
     \<lparr> bd_rows = [hard_cap], bd_changes = [] \<rparr> (\<lambda>k. None) ''t'' ''*'' c ''tenant'' (Some ''24h''))"
  have spend: "current_spend (Some sample_valkey) 0 (\<lambda>k. None) ''t'' ''tenant'' ''*'' ''24h'' = 0"
    by (simp add: current_spend_def sample_valkey_def live_def)
  have "?d 5 = Refuse"
    unfolding budget_decision_exact [THEN conjunct1]
    by (rule exI [of _ "''24h''"], rule exI [of _ hard_cap])
      (simp only: hard_cap_applies spend, simp add: hard_cap_def)
  moreover have "STRICTNESS (?d 5) \<le> STRICTNESS (?d 7)"
    by (rule budget_decision_exact [THEN conjunct2, THEN conjunct2, THEN conjunct1, rule_format]) simp
  ultimately show ?thesis by simp
qed

lemma platform_cap_update_ignored_witness:
  "\<exists>db. set_budget True \<lparr> bd_rows = [hard_cap\<lparr> bu_tenant := None \<rparr>], bd_changes = [] \<rparr> None
      (''tenant'', ''*'', ''24h'') 2 True 0 None None = (Inr (hard_cap\<lparr> bu_tenant := None, bu_threshold := 2 \<rparr>), db)
    \<and> map_option bu_threshold (get_budget db (Some ''t'') (''tenant'', ''*'', ''24h'')) = Some 5"
proof -
  let ?db = "\<lparr> bd_rows = [hard_cap\<lparr> bu_tenant := None \<rparr>], bd_changes = [] \<rparr>"
  have old: "List.find (at_cap (None, (''tenant'', ''*'', ''24h''))) (bd_rows ?db) = Some (hard_cap\<lparr> bu_tenant := None \<rparr>)"
    by (simp add: hard_cap_def bu_slot_def)
  obtain db where db: "set_budget True ?db None (''tenant'', ''*'', ''24h'') 2 True 0 None None
      = (Inr (hard_cap\<lparr> bu_tenant := None, bu_threshold := 2 \<rparr>), db)"
    by (auto simp: set_budget_def check_only_tighten_budget_def Let_def BUDGET_SCOPES_def PRINCIPAL_KINDS_def
        BUDGET_WINDOWS_def WINDOW_SECONDS_def hard_cap_def)
  have "get_budget ?db (Some ''t'') (''tenant'', ''*'', ''24h'') = Some (hard_cap\<lparr> bu_tenant := None \<rparr>)"
    by (simp add: get_budget_def hard_cap_def bu_slot_def)
  then show ?thesis
    using db platform_cap_update_ignored [OF old db, THEN conjunct1, of "Some ''t''" "(''tenant'', ''*'', ''24h'')"]
    by (auto simp: hard_cap_def)
qed

end
