(* ===== verification/Registry.thy ===== *)
theory Registry
  imports Prelude "HOL-Library.AList"
begin

text \<open>
  The contract of a process-wide registry that is replaced as a whole on every
  write: a reader holds one snapshot. The verdict handlers
  (\<open>kya/policy_verdicts.py\<close>) and the policy evaluators
  (\<open>kya/policy_evaluator.py\<close>) are kept in registries of this kind.
\<close>

locale registry =
  fixes nothing :: 's
    and put :: "'k \<Rightarrow> 'h \<Rightarrow> 's \<Rightarrow> 's"
    and drop_key :: "'k \<Rightarrow> 's \<Rightarrow> 's"
    and get :: "'s \<Rightarrow> 'k \<Rightarrow> 'h option"
  assumes get_nothing: "get nothing k = None"
    and get_put: "get (put k h s) k' = (if k' = k then Some h else get s k')"
    and get_drop: "get (drop_key k s) k' = (if k' = k then None else get s k')"
begin

definition put_all :: "('k \<times> 'h) list \<Rightarrow> 's \<Rightarrow> 's" where
  "put_all khs s = fold (\<lambda>(k, h). put k h) khs s"

text \<open>Of several bindings of one key the last one counts.\<close>

lemma get_put_all:
  "get (put_all khs s) k = option_or (map_of (rev khs) k) (get s k)"
proof (induction khs arbitrary: s)
  case (Cons kh khs)
  obtain k' h' where kh: "kh = (k', h')" by (cases kh)
  show ?case using Cons.IH [of "put k' h' s"]
    by (auto simp: put_all_def kh get_put map_add_def option_or_def split: option.splits)
qed (simp add: put_all_def)

lemma get_replaced: "get (put_all khs nothing) k = map_of (rev khs) k"
  by (simp add: get_put_all get_nothing)

lemma put_twice: "get (put k h (put k h' s)) = get (put k h s)"
  by (rule ext) (simp add: get_put)

lemma put_drop: "get (drop_key k (put k h s)) = get (drop_key k s)"
  by (rule ext) (simp add: get_put get_drop)

lemma drop_absent: "get s k = None \<Longrightarrow> get (drop_key k s) = get s"
  by (rule ext) (simp add: get_drop)

end

end
