(* ===== verification/Verdicts.thy ===== *)
theory Verdicts
  imports Registry Json Canonicals
begin

text \<open>
  The registry of verdict handlers (\<open>kya/policy_verdicts.py\<close>): what happens on the
  wire when a policy verdict fires, at the gateway before the call and at the
  action gate after it.
\<close>

section \<open>Contexts and results\<close>

datatype context_layer = Gateway | ActionGate

primrec layer_name :: "context_layer \<Rightarrow> string" where
  "layer_name Gateway = ''gateway''"
| "layer_name ActionGate = ''action_gate''"

record verdict_context =
  vc_verdict :: string
  vc_reasons :: "string list"
  vc_tenant :: ident
  vc_principal_kind :: string
  vc_principal :: ident
  vc_action :: string
  vc_layer :: context_layer
  vc_signal :: "string option"
  vc_upstream_body :: "string option"
  vc_upstream_status :: "int option"
  vc_rich :: jobj

record handler_result =
  hr_forward :: bool
  hr_status :: "int option"
  hr_code :: "int option"
  hr_body :: "jobj option"
  hr_headers :: "(string \<times> string) list"
  hr_mutations :: jobj

definition forwarded :: handler_result where
  "forwarded = \<lparr> hr_forward = True, hr_status = None, hr_code = None, hr_body = None,
     hr_headers = [], hr_mutations = [] \<rparr>"

text \<open>An object offered as a handler. \<open>None\<close> stands for an attribute that is missing or of
the wrong type; \<open>apply\<close> may raise.\<close>

datatype handler_exception = HandlerRaised string

record verdict_handler =
  vh_verdict :: "string option"
  vh_layer :: "string option"
  vh_apply :: "(verdict_context \<Rightarrow> handler_exception + handler_result) option"

section \<open>The registry\<close>

type_synonym handler_key = "string \<times> string"
type_synonym handlers = "(handler_key \<times> verdict_handler) list"

definition VALID_LAYERS :: "string list" where
  "VALID_LAYERS = [''gateway'', ''action_gate'', ''both'']"

datatype handler_type_error = BadVerdict | BadLayer | BadApply

definition validate_handler :: "verdict_handler \<Rightarrow> handler_type_error option" where
  "validate_handler h =
     (if \<not> truthy (vh_verdict h) then Some BadVerdict
      else if case vh_layer h of None \<Rightarrow> True | Some l \<Rightarrow> l \<notin> set VALID_LAYERS then Some BadLayer
      else if vh_apply h = None then Some BadApply
      else None)"

definition handler_key :: "verdict_handler \<Rightarrow> handler_key" where
  "handler_key h = (or_else (vh_verdict h) [], or_else (vh_layer h) [])"

definition register :: "verdict_handler \<Rightarrow> handlers \<Rightarrow> handler_type_error option \<times> handlers" where
  "register h reg =
     (case validate_handler h of
        Some e \<Rightarrow> (Some e, reg)
      | None \<Rightarrow> (None, AList.update (handler_key h) h reg))"

definition unregister :: "string \<Rightarrow> string \<Rightarrow> handlers \<Rightarrow> handlers" where
  "unregister verdict layer reg =
     (if map_of reg (verdict, layer) = None then reg else AList.delete (verdict, layer) reg)"

definition clear_handlers :: "handlers \<Rightarrow> handlers" where
  "clear_handlers reg = []"

definition swap :: "verdict_handler list \<Rightarrow> handlers \<Rightarrow> handler_type_error option \<times> handlers" where
  "swap hs reg =
     (case List.find (\<lambda>h. validate_handler h \<noteq> None) hs of
        Some h \<Rightarrow> (validate_handler h, reg)
      | None \<Rightarrow> (None, fold (\<lambda>h. AList.update (handler_key h) h) hs []))"

definition resolve :: "handlers \<Rightarrow> string \<Rightarrow> context_layer \<Rightarrow> verdict_handler option" where
  "resolve reg verdict layer =
     option_or (map_of reg (verdict, layer_name layer)) (map_of reg (verdict, ''both''))"

definition unknown_verdict :: "verdict_context \<Rightarrow> handler_result" where
  "unknown_verdict ctx =
     (case vc_layer ctx of
        Gateway \<Rightarrow> forwarded\<lparr> hr_forward := False, hr_status := Some 500, hr_code := Some (- 32099),
          hr_body := Some [(''error'', JStr ''unknown_verdict''), (''verdict'', JStr (vc_verdict ctx)),
                           (''reason_codes'', JList (map JStr (vc_reasons ctx)))] \<rparr>
      | ActionGate \<Rightarrow> forwarded)"

definition apply_verdict :: "handlers \<Rightarrow> verdict_context \<Rightarrow> handler_exception + handler_result" where
  "apply_verdict reg ctx =
     (case resolve reg (vc_verdict ctx) (vc_layer ctx) of
        Some h \<Rightarrow> (case vh_apply h of
            Some f \<Rightarrow> f ctx
          | None \<Rightarrow> Inl (HandlerRaised ''not callable''))
      | None \<Rightarrow> Inr (unknown_verdict ctx))"

definition registered_verdicts :: "handlers \<Rightarrow> string option \<Rightarrow> string list" where
  "registered_verdicts reg layer =
     sort (remdups (map (fst \<circ> fst)
       (filter (\<lambda>kh. case layer of None \<Rightarrow> True
                      | Some l \<Rightarrow> snd (fst kh) = l \<or> snd (fst kh) = ''both'') reg)))"

definition is_registered_exact :: "handlers \<Rightarrow> string \<Rightarrow> string \<Rightarrow> bool" where
  "is_registered_exact reg verdict layer = (map_of reg (verdict, layer) \<noteq> None)"

definition resolves :: "handlers \<Rightarrow> string \<Rightarrow> context_layer \<Rightarrow> bool" where
  "resolves reg verdict layer = (resolve reg verdict layer \<noteq> None)"

section \<open>The shipped handlers\<close>

definition CANONICAL_HUMAN_APPROVAL_VERDICT :: string where
  "CANONICAL_HUMAN_APPROVAL_VERDICT = ''flag_for_review''"

definition MUTATION_KEYS :: "string list" where
  "MUTATION_KEYS = [''hitl.needs_pending_row'']"

definition allow_handler :: verdict_handler where
  "allow_handler = \<lparr> vh_verdict = Some ''allow'', vh_layer = Some ''both'',
     vh_apply = Some (\<lambda>ctx. Inr forwarded) \<rparr>"

definition deny_result :: "verdict_context \<Rightarrow> handler_result" where
  "deny_result ctx = forwarded\<lparr> hr_forward := False, hr_status := Some 403, hr_code := Some (- 32001),
     hr_body := Some [(''error'', JStr ''policy_deny''),
       (''reason_codes'', JList (map JStr (vc_reasons ctx))), (''verdict'', JStr ''deny'')] \<rparr>"

definition deny_handler :: verdict_handler where
  "deny_handler = \<lparr> vh_verdict = Some ''deny'', vh_layer = Some ''gateway'',
     vh_apply = Some (\<lambda>ctx. Inr (deny_result ctx)) \<rparr>"

definition review_result :: "verdict_context \<Rightarrow> handler_result" where
  "review_result ctx = forwarded\<lparr> hr_forward := False, hr_status := Some 428, hr_code := Some (- 32007),
     hr_body := Some [(''error'', JStr ''human_approval_required''),
       (''reason_codes'', JList (map JStr (vc_reasons ctx))),
       (''verdict'', JStr CANONICAL_HUMAN_APPROVAL_VERDICT)],
     hr_headers := [(''WWW-Authenticate'', ''KYA-Human-Approval realm=\"kya-gateway\"'')],
     hr_mutations := [(''hitl.needs_pending_row'', JBool True)] \<rparr>"

definition review_handler :: verdict_handler where
  "review_handler = \<lparr> vh_verdict = Some CANONICAL_HUMAN_APPROVAL_VERDICT, vh_layer = Some ''gateway'',
     vh_apply = Some (\<lambda>ctx. Inr (review_result ctx)) \<rparr>"

definition alias_result :: "verdict_context \<Rightarrow> handler_result" where
  "alias_result ctx =
     (let canonical = review_result ctx
      in canonical\<lparr> hr_body := Some (AList.update ''verdict'' (JStr ''require_human'')
           (case hr_body canonical of None \<Rightarrow> [] | Some b \<Rightarrow> b)) \<rparr>)"

definition alias_handler :: verdict_handler where
  "alias_handler = \<lparr> vh_verdict = Some ''require_human'', vh_layer = Some ''gateway'',
     vh_apply = Some (\<lambda>ctx. Inr (alias_result ctx)) \<rparr>"

definition default_handlers :: "verdict_handler list" where
  "default_handlers = [allow_handler, deny_handler, review_handler, alias_handler]"

definition register_default_handlers :: "handlers \<Rightarrow> handlers" where
  "register_default_handlers reg = fold (\<lambda>h r. snd (register h r)) default_handlers reg"

section \<open>Facts\<close>

interpretation handlers: registry "[] :: handlers" AList.update AList.delete map_of
  by unfold_locales (auto simp: update_conv' delete_conv')

lemmas shipped_defs = allow_handler_def deny_handler_def review_handler_def alias_handler_def
  CANONICAL_HUMAN_APPROVAL_VERDICT_def

lemma handler_key_shipped:
  "handler_key allow_handler = (''allow'', ''both'')"
  "handler_key deny_handler = (''deny'', ''gateway'')"
  "handler_key review_handler = (''flag_for_review'', ''gateway'')"
  "handler_key alias_handler = (''require_human'', ''gateway'')"
  by (simp_all add: handler_key_def shipped_defs)

lemma validate_shipped: "h \<in> set default_handlers \<Longrightarrow> validate_handler h = None"
  by (auto simp: default_handlers_def validate_handler_def shipped_defs VALID_LAYERS_def)

lemma register_valid: "validate_handler h = None \<Longrightarrow> snd (register h reg) = AList.update (handler_key h) h reg"
  by (simp add: register_def)

lemma registered_layer:
  "validate_handler h = None \<Longrightarrow> snd (handler_key h) \<in> set VALID_LAYERS \<and> fst (handler_key h) \<noteq> []"
  by (cases "vh_verdict h"; cases "vh_layer h")
     (auto simp: validate_handler_def handler_key_def or_else_def VALID_LAYERS_def split: if_splits)

lemma map_of_default:
  "map_of (register_default_handlers reg) k =
     option_or (map_of [((''require_human'', ''gateway''), alias_handler),
       ((''flag_for_review'', ''gateway''), review_handler), ((''deny'', ''gateway''), deny_handler),
       ((''allow'', ''both''), allow_handler)] k) (map_of reg k)"
proof -
  have "register_default_handlers reg
      = fold (\<lambda>h. AList.update (handler_key h) h) default_handlers reg"
    using validate_shipped
    by (simp add: register_default_handlers_def default_handlers_def register_valid)
  then show ?thesis
    by (simp add: default_handlers_def handler_key_shipped handlers.get_put)
qed

lemma fold_update_put_all:
  "fold (\<lambda>h. AList.update (handler_key h) h) hs reg
     = handlers.put_all (map (\<lambda>h. (handler_key h, h)) hs) reg"
  by (simp add: handlers.put_all_def fold_map comp_def)

lemma map_of_keyed:
  "map_of (rev (map (\<lambda>h. (f h, h)) hs)) k = List.find (\<lambda>h. f h = k) (rev hs)"
  by (induction hs rule: rev_induct) auto

lemma swap_valid:
  assumes "\<forall>h\<in>set hs. validate_handler h = None"
  shows "map_of (snd (swap hs reg)) k = List.find (\<lambda>h. handler_key h = k) (rev hs)"
proof -
  have "List.find (\<lambda>h. validate_handler h \<noteq> None) hs = None"
    using assms by (simp add: find_None_ball)
  then show ?thesis
    by (simp add: swap_def fold_update_put_all handlers.get_replaced map_of_keyed)
qed

lemma swap_invalid:
  "h \<in> set hs \<Longrightarrow> validate_handler h \<noteq> None \<Longrightarrow> snd (swap hs reg) = reg \<and> fst (swap hs reg) \<noteq> None"
  by (auto simp: swap_def find_None_ball dest: find_Some_iff_first split: option.splits)

lemma register_each:
  assumes "\<forall>h\<in>set hs. validate_handler h = None"
  shows "fold (\<lambda>h r. snd (register h r)) hs reg = handlers.put_all (map (\<lambda>h. (handler_key h, h)) hs) reg"
  using assms by (induction hs arbitrary: reg) (auto simp: handlers.put_all_def register_valid)

section \<open>Properties\<close>

text \<open>With the shipped handlers the wire answer is fixed for every verdict: before
the call only \<open>allow\<close> forwards, \<open>deny\<close> answers 403, the two spellings of human approval
428 and every other string 500; at the action gate, where no handler for a refusal is
shipped, every verdict forwards, \<open>deny\<close> included.\<close>

theorem shipped_verdicts_on_the_wire:
  "apply_verdict (register_default_handlers []) ctx = Inr (
     case vc_layer ctx of
       ActionGate \<Rightarrow> forwarded
     | Gateway \<Rightarrow>
         if vc_verdict ctx = ''allow'' then forwarded
         else if vc_verdict ctx = ''deny'' then deny_result ctx
         else if vc_verdict ctx = ''flag_for_review'' then review_result ctx
         else if vc_verdict ctx = ''require_human'' then alias_result ctx
         else unknown_verdict ctx)
   \<and> (case apply_verdict (register_default_handlers []) ctx of Inl e \<Rightarrow> False | Inr r \<Rightarrow> hr_forward r)
        = (vc_layer ctx = ActionGate \<or> vc_verdict ctx = ''allow'')
   \<and> map_of (the (hr_body (alias_result ctx))) ''verdict'' = Some (JStr ''require_human'')
   \<and> alias_result ctx = (review_result ctx)\<lparr> hr_body := hr_body (alias_result ctx) \<rparr>"
proof -
  have "vh_apply allow_handler = Some (\<lambda>ctx. Inr forwarded)"
    and "vh_apply deny_handler = Some (\<lambda>ctx. Inr (deny_result ctx))"
    and "vh_apply review_handler = Some (\<lambda>ctx. Inr (review_result ctx))"
    and "vh_apply alias_handler = Some (\<lambda>ctx. Inr (alias_result ctx))"
    by (simp_all add: shipped_defs)
  note applies = this
  have *: "apply_verdict (register_default_handlers []) ctx = Inr (
     case vc_layer ctx of
       ActionGate \<Rightarrow> forwarded
     | Gateway \<Rightarrow>
         if vc_verdict ctx = ''allow'' then forwarded
         else if vc_verdict ctx = ''deny'' then deny_result ctx
         else if vc_verdict ctx = ''flag_for_review'' then review_result ctx
         else if vc_verdict ctx = ''require_human'' then alias_result ctx
         else unknown_verdict ctx)"
    by (cases "vc_layer ctx")
       (simp_all add: apply_verdict_def resolve_def map_of_default applies unknown_verdict_def)
  have "hr_forward (case vc_layer ctx of
       ActionGate \<Rightarrow> forwarded
     | Gateway \<Rightarrow>
         if vc_verdict ctx = ''allow'' then forwarded
         else if vc_verdict ctx = ''deny'' then deny_result ctx
         else if vc_verdict ctx = ''flag_for_review'' then review_result ctx
         else if vc_verdict ctx = ''require_human'' then alias_result ctx
         else unknown_verdict ctx) \<longleftrightarrow> vc_layer ctx = ActionGate \<or> vc_verdict ctx = ''allow''"
    by (cases "vc_layer ctx")
       (simp_all add: forwarded_def deny_result_def review_result_def alias_result_def unknown_verdict_def)
  moreover have "map_of (the (hr_body (alias_result ctx))) ''verdict'' = Some (JStr ''require_human'')"
    and "alias_result ctx = (review_result ctx)\<lparr> hr_body := hr_body (alias_result ctx) \<rparr>"
    by (simp_all add: alias_result_def Let_def update_conv')
  ultimately show ?thesis
    by (simp only: * sum.case simp_thms)
qed

text \<open>Replacing the registry is all or nothing: one malformed handler leaves every
lookup as it was, otherwise a lookup finds the last handler given for the very layer,
else the last one given for both, exactly as if they had been registered one by one on
an empty registry.\<close>

theorem swap_all_or_nothing:
  "(\<exists>h\<in>set hs. validate_handler h \<noteq> None) = (fst (swap hs reg) \<noteq> None)
   \<and> (fst (swap hs reg) \<noteq> None \<longrightarrow> snd (swap hs reg) = reg)
   \<and> (fst (swap hs reg) = None \<longrightarrow>
        resolve (snd (swap hs reg)) v l =
          option_or (List.find (\<lambda>h. handler_key h = (v, layer_name l)) (rev hs))
            (List.find (\<lambda>h. handler_key h = (v, ''both'')) (rev hs))
        \<and> resolve (fold (\<lambda>h r. snd (register h r)) hs (clear_handlers reg)) v l
            = resolve (snd (swap hs reg)) v l)"
proof (cases "\<exists>h\<in>set hs. validate_handler h \<noteq> None")
  case True
  then show ?thesis using swap_invalid by blast
next
  case False
  then have valid: "\<forall>h\<in>set hs. validate_handler h = None" by blast
  then have "List.find (\<lambda>h. validate_handler h \<noteq> None) hs = None"
    by (simp add: find_None_ball)
  then have "fst (swap hs reg) = None" by (simp add: swap_def)
  with valid False show ?thesis
    by (simp add: resolve_def swap_valid clear_handlers_def register_each handlers.get_replaced
        map_of_keyed)
qed

theorem swap_all_or_nothing_witness:
  "resolve (snd (swap [deny_handler, allow_handler] [])) ''allow'' Gateway = Some allow_handler"
  using swap_all_or_nothing [THEN conjunct2, THEN conjunct2, rule_format, THEN conjunct1,
      of "[deny_handler, allow_handler]" "[]" "''allow''" Gateway]
  by (simp add: handler_key_shipped swap_def validate_shipped default_handlers_def)

end
