(* ===== verification/PolicyHash.thy ===== *)
theory PolicyHash
  imports Weights Json
begin

text \<open>
  The hash of the policy in force (\<open>kya/policy_hash.py\<close>): the canonical bytes of the
  effective weights of every scope, their versioned SHA-256, and the cache in front of
  it that the writers of the overrides invalidate and the setters of the module tables do
  not. The cache is shown to be invisible to every sequential history without such a setter,
  to lag it by less than its lifetime otherwise, and to be stale for at most that time when a
  writer slips in between a reader's computation and its store.
\<close>

section \<open>Canonical bytes\<close>

text \<open>\<open>_normalize_for_hash\<close> turns booleans into integers and normalises text; \<open>nfc\<close> is
\<open>unicodedata.normalize\<close>. A later member of the same normalised key replaces the value.\<close>

primrec normalize_for_hash :: "(string \<Rightarrow> string) \<Rightarrow> json \<Rightarrow> json" where
  "normalize_for_hash nfc JNull = JNull"
| "normalize_for_hash nfc (JBool b) = JInt (if b then 1 else 0)"
| "normalize_for_hash nfc (JInt i) = JInt i"
| "normalize_for_hash nfc (JStr s) = JStr (nfc s)"
| "normalize_for_hash nfc (JList xs) = JList (map (normalize_for_hash nfc) xs)"
| "normalize_for_hash nfc (JObj kvs) =
     JObj (fold (\<lambda>(k, v). AList.update (nfc k) v) (map (map_prod id (normalize_for_hash nfc)) kvs) [])"
| "normalize_for_hash nfc (JMarked t v) = JMarked t v"

text \<open>Without \<open>ensure_ascii\<close> only quotes, backslashes and control characters are escaped;
a string is the list of its UTF-8 bytes.\<close>

definition utf8_char :: "char \<Rightarrow> string" where
  "utf8_char c = (if 32 \<le> code_of c \<and> code_of c \<noteq> 34 \<and> code_of c \<noteq> 92 then [c] else esc_char c)"

definition utf8_text :: "string \<Rightarrow> string" where
  "utf8_text s = CHR 0x22 # concat (map utf8_char s) @ [CHR 0x22]"

primrec utf8_dumps :: "json \<Rightarrow> string" where
  "utf8_dumps JNull = ''null''"
| "utf8_dumps (JBool b) = (if b then ''true'' else ''false'')"
| "utf8_dumps (JInt i) = int_text i"
| "utf8_dumps (JStr s) = utf8_text s"
| "utf8_dumps (JList xs) = CHR ''['' # commas (map utf8_dumps xs) @ '']''"
| "utf8_dumps (JObj kvs) =
     CHR ''{'' # commas (map (\<lambda>m. utf8_text (fst m) @ CHR '':'' # snd m) (map (map_prod id utf8_dumps) kvs)) @ ''}''"
| "utf8_dumps (JMarked t v) = []"

datatype hash_error = NotADict | NotSerialisable | NoScopes | WeightsError weight_error

definition canonicalize_policy :: "(string \<Rightarrow> string) \<Rightarrow> json \<Rightarrow> hash_error + string" where
  "canonicalize_policy nfc policy =
     (case policy of
        JObj kvs \<Rightarrow>
          if serialisable policy then Inr (utf8_dumps (sort_keys (normalize_for_hash nfc policy)))
          else Inl NotSerialisable
      | _ \<Rightarrow> Inl NotADict)"

section \<open>Hashes\<close>

definition POLICY_HASH_VERSION_PREFIX :: string where
  "POLICY_HASH_VERSION_PREFIX = ''policy-hash-sha256-v1:''"

definition hash_policy_hex :: "(string \<Rightarrow> string) \<Rightarrow> (string \<Rightarrow> string) \<Rightarrow> json \<Rightarrow> hash_error + string" where
  "hash_policy_hex sha nfc policy =
     (case canonicalize_policy nfc policy of Inl e \<Rightarrow> Inl e | Inr b \<Rightarrow> Inr (sha b))"

definition hash_policy :: "(string \<Rightarrow> string) \<Rightarrow> (string \<Rightarrow> string) \<Rightarrow> json \<Rightarrow> hash_error + string" where
  "hash_policy sha nfc policy =
     (case hash_policy_hex sha nfc policy of
        Inl e \<Rightarrow> Inl e | Inr h \<Rightarrow> Inr (POLICY_HASH_VERSION_PREFIX @ h))"

definition parse_policy_hash :: "string \<Rightarrow> (string \<times> string) option" where
  "parse_policy_hash stamped =
     (if starts_with stamped POLICY_HASH_VERSION_PREFIX
      then Some (POLICY_HASH_VERSION_PREFIX, drop (length POLICY_HASH_VERSION_PREFIX) stamped)
      else None)"

definition verify_policy_hash ::
    "(string \<Rightarrow> string) \<Rightarrow> (string \<Rightarrow> string) \<Rightarrow> json \<Rightarrow> string \<Rightarrow> hash_error + bool" where
  "verify_policy_hash sha nfc policy stamped =
     (case hash_policy sha nfc policy of Inl e \<Rightarrow> Inl e | Inr h \<Rightarrow> Inr (h = stamped))"

section \<open>The effective policy\<close>

definition weights_json :: "weight_table \<Rightarrow> json" where
  "weights_json w = JObj (map (map_prod id JInt) w)"

fun effective_scopes ::
    "scope_registry \<Rightarrow> weight_db \<Rightarrow> ident option \<Rightarrow> string list \<Rightarrow> hash_error + (string \<times> json) list" where
  "effective_scopes reg db t [] = Inr []"
| "effective_scopes reg db t (s # ss) =
     (case get_effective_weights reg db s t of
        Inl e \<Rightarrow> Inl (WeightsError e)
      | Inr w \<Rightarrow> (case effective_scopes reg db t ss of
          Inl e \<Rightarrow> Inl e | Inr kvs \<Rightarrow> Inr ((s, weights_json w) # kvs)))"

definition get_effective_policy :: "scope_registry \<Rightarrow> weight_db \<Rightarrow> ident option \<Rightarrow> hash_error + json" where
  "get_effective_policy reg db t =
     (if known_scopes reg = [] then Inl NoScopes
      else (case effective_scopes reg db t (known_scopes reg) of
        Inl e \<Rightarrow> Inl e | Inr kvs \<Rightarrow> Inr (JObj kvs)))"

definition compute_effective_policy_hash ::
    "(string \<Rightarrow> string) \<Rightarrow> (string \<Rightarrow> string) \<Rightarrow> scope_registry \<Rightarrow> weight_db \<Rightarrow> ident option \<Rightarrow> hash_error + string" where
  "compute_effective_policy_hash sha nfc reg db t =
     (case get_effective_policy reg db t of Inl e \<Rightarrow> Inl e | Inr p \<Rightarrow> hash_policy sha nfc p)"

section \<open>The cache\<close>

definition POLICY_HASH_CACHE_TTL :: instant where
  "POLICY_HASH_CACHE_TTL = 30 * 1000000"

type_synonym hash_cache = "(ident option \<times> string \<times> instant) list"

record policy_state =
  ps_refs :: registrations
  ps_tables :: module_tables
  ps_weights :: weight_db
  ps_cache :: hash_cache

text \<open>The registry that the readers see.\<close>

definition ps_scopes :: "policy_state \<Rightarrow> scope_registry" where
  "ps_scopes st = live_registry (ps_tables st) (ps_refs st)"

lemma ps_scopes_updates [simp]:
  "ps_scopes (st\<lparr> ps_weights := w \<rparr>) = ps_scopes st" "ps_scopes (st\<lparr> ps_cache := c \<rparr>) = ps_scopes st"
  by (simp_all add: ps_scopes_def)

text \<open>A lookup, the store after a miss, and the whole call; \<open>now'\<close> is the second reading
of the clock.\<close>

definition cached_hash :: "instant \<Rightarrow> hash_cache \<Rightarrow> ident option \<Rightarrow> string option" where
  "cached_hash now c t =
     (case map_of c t of
        Some (h, expires_at) \<Rightarrow> if now < expires_at then Some h else None
      | None \<Rightarrow> None)"

definition store_hash :: "instant \<Rightarrow> ident option \<Rightarrow> string \<Rightarrow> policy_state \<Rightarrow> policy_state" where
  "store_hash now t h st =
     st\<lparr> ps_cache := AList.update t (h, now + POLICY_HASH_CACHE_TTL) (ps_cache st) \<rparr>"

definition get_effective_policy_hash ::
    "(string \<Rightarrow> string) \<Rightarrow> (string \<Rightarrow> string) \<Rightarrow> instant \<Rightarrow> instant \<Rightarrow> ident option \<Rightarrow> policy_state \<Rightarrow>
     (hash_error + string) \<times> policy_state" where
  "get_effective_policy_hash sha nfc now now' t st =
     (case cached_hash now (ps_cache st) t of
        Some h \<Rightarrow> (Inr h, st)
      | None \<Rightarrow>
          (case compute_effective_policy_hash sha nfc (ps_scopes st) (ps_weights st) t of
             Inl e \<Rightarrow> (Inl e, st)
           | Inr h \<Rightarrow> (Inr h, store_hash now' t h st)))"

text \<open>\<open>None\<close> stands for the call without an argument.\<close>

definition invalidate_policy_hash_cache :: "ident option option \<Rightarrow> hash_cache \<Rightarrow> hash_cache" where
  "invalidate_policy_hash_cache which c =
     (case which of None \<Rightarrow> [] | Some t \<Rightarrow> AList.delete t c)"

definition affected :: "ident option \<Rightarrow> ident option option" where
  "affected t = (case t of None \<Rightarrow> None | Some u \<Rightarrow> Some (Some u))"

text \<open>The three writers, with the invalidation they end with.\<close>

datatype policy_write =
    SetOverride instant string string int "ident option" "ident option" "string option" bool
  | DeleteOverride instant string string "ident option" "ident option" "string option"
  | RegisterScope string table_ref

fun write_rows :: "policy_write \<Rightarrow> policy_state \<Rightarrow> bool \<times> policy_state" where
  "write_rows (SetOverride now scope key v t changed_by reason allow) st =
     (case set_override (ps_scopes st) None now (ps_weights st) scope key v t changed_by reason allow of
        (Inl _, db) \<Rightarrow> (False, st)
      | (Inr _, db) \<Rightarrow> (True, st\<lparr> ps_weights := db \<rparr>))"
| "write_rows (DeleteOverride now scope key t changed_by reason) st =
     (case delete_override now (ps_weights st) scope key t changed_by reason of
        (False, _) \<Rightarrow> (False, st)
      | (True, db) \<Rightarrow> (True, st\<lparr> ps_weights := db \<rparr>))"
| "write_rows (RegisterScope scope ref) st =
     (True, st\<lparr> ps_refs := register_scope scope ref (ps_refs st) \<rparr>)"

fun write_target :: "policy_write \<Rightarrow> ident option" where
  "write_target (SetOverride now scope key v t changed_by reason allow) = t"
| "write_target (DeleteOverride now scope key t changed_by reason) = t"
| "write_target (RegisterScope scope ref) = None"

definition write_policy :: "policy_write \<Rightarrow> policy_state \<Rightarrow> policy_state" where
  "write_policy w st =
     (case write_rows w st of
        (False, st') \<Rightarrow> st'
      | (True, st') \<Rightarrow>
          st'\<lparr> ps_cache := invalidate_policy_hash_cache (affected (write_target w)) (ps_cache st') \<rparr>)"

text \<open>A setter of a factor module changes its table and leaves the cache alone.\<close>

definition set_module :: "bool \<Rightarrow> table_ref \<Rightarrow> weight_table \<Rightarrow> policy_state \<Rightarrow> policy_state" where
  "set_module merge ref new st = st\<lparr> ps_tables := set_module_weights merge ref new (ps_tables st) \<rparr>"

section \<open>Specification: no cache\<close>

text \<open>A read has its two clock readings, a setter the instant it is called at.\<close>

datatype policy_call =
    ReadHash instant instant "ident option" | WritePolicy policy_write | SetModule instant bool table_ref weight_table

fun run_call ::
    "(string \<Rightarrow> string) \<Rightarrow> (string \<Rightarrow> string) \<Rightarrow> policy_call \<Rightarrow> policy_state \<Rightarrow>
     (hash_error + string) option \<times> policy_state" where
  "run_call sha nfc (ReadHash now now' t) st = map_prod Some id (get_effective_policy_hash sha nfc now now' t st)"
| "run_call sha nfc (WritePolicy w) st = (None, write_policy w st)"
| "run_call sha nfc (SetModule m merge ref new) st = (None, set_module merge ref new st)"

primrec run_calls ::
    "(string \<Rightarrow> string) \<Rightarrow> (string \<Rightarrow> string) \<Rightarrow> policy_call list \<Rightarrow> policy_state \<Rightarrow>
     (hash_error + string) option list \<times> policy_state" where
  "run_calls sha nfc [] st = ([], st)"
| "run_calls sha nfc (c # cs) st =
     (case run_call sha nfc c st of (r, st') \<Rightarrow> map_prod (Cons r) id (run_calls sha nfc cs st'))"

record plain_policy =
  pp_refs :: registrations
  pp_tables :: module_tables
  pp_weights :: weight_db

definition pp_scopes :: "plain_policy \<Rightarrow> scope_registry" where
  "pp_scopes p = live_registry (pp_tables p) (pp_refs p)"

definition without_cache :: "policy_state \<Rightarrow> plain_policy" where
  "without_cache st = \<lparr> pp_refs = ps_refs st, pp_tables = ps_tables st, pp_weights = ps_weights st \<rparr>"

definition with_empty_cache :: "plain_policy \<Rightarrow> policy_state" where
  "with_empty_cache p = \<lparr> ps_refs = pp_refs p, ps_tables = pp_tables p, ps_weights = pp_weights p, ps_cache = [] \<rparr>"

fun spec_call ::
    "(string \<Rightarrow> string) \<Rightarrow> (string \<Rightarrow> string) \<Rightarrow> policy_call \<Rightarrow> plain_policy \<Rightarrow>
     (hash_error + string) option \<times> plain_policy" where
  "spec_call sha nfc (ReadHash now now' t) p = (Some (compute_effective_policy_hash sha nfc (pp_scopes p) (pp_weights p) t), p)"
| "spec_call sha nfc (WritePolicy w) p = (None, without_cache (snd (write_rows w (with_empty_cache p))))"
| "spec_call sha nfc (SetModule m merge ref new) p =
     (None, p\<lparr> pp_tables := set_module_weights merge ref new (pp_tables p) \<rparr>)"

primrec spec_calls ::
    "(string \<Rightarrow> string) \<Rightarrow> (string \<Rightarrow> string) \<Rightarrow> policy_call list \<Rightarrow> plain_policy \<Rightarrow>
     (hash_error + string) option list \<times> plain_policy" where
  "spec_calls sha nfc [] p = ([], p)"
| "spec_calls sha nfc (c # cs) p =
     (case spec_call sha nfc c p of (r, p') \<Rightarrow> map_prod (Cons r) id (spec_calls sha nfc cs p'))"

definition sets_module :: "policy_call \<Rightarrow> bool" where
  "sets_module c = (case c of SetModule m merge ref new \<Rightarrow> True | _ \<Rightarrow> False)"

text \<open>Every cached hash is the one that would be computed now.\<close>

definition coherent :: "(string \<Rightarrow> string) \<Rightarrow> (string \<Rightarrow> string) \<Rightarrow> policy_state \<Rightarrow> bool" where
  "coherent sha nfc st \<longleftrightarrow>
     (\<forall>t h e. map_of (ps_cache st) t = Some (h, e) \<longrightarrow>
        compute_effective_policy_hash sha nfc (ps_scopes st) (ps_weights st) t = Inr h)"

section \<open>What a write touches\<close>

lemma layer_audit [simp]: "layer u s (audit a b c d e f g h i db) = layer u s db"
  by (simp add: layer_def audit_def)

lemma filter_map_where:
  "(\<And>r. P r \<Longrightarrow> \<not> Q r) \<Longrightarrow> (\<And>r. P r \<Longrightarrow> \<not> Q (f r)) \<Longrightarrow> filter Q (map_where P f rs) = filter Q rs"
  by (induction rs) auto

lemma layer_upsert_other:
  "u \<noteq> t \<Longrightarrow> layer u s (db\<lparr> wd_rows := upsert_row now t scope key v by (wd_rows db) \<rparr>) = layer u s db"
proof (cases "list_ex (at_slot (t, scope, key)) (wd_rows db)")
  case True
  assume "u \<noteq> t"
  then have "filter (\<lambda>r. wo_tenant r = u \<and> wo_scope r = s)
      (map_where (at_slot (t, scope, key)) (\<lambda>r. r\<lparr> wo_value := v, wo_updated := now \<rparr>) (wd_rows db))
    = filter (\<lambda>r. wo_tenant r = u \<and> wo_scope r = s) (wd_rows db)"
    by (intro filter_map_where) (auto simp: wo_slot_def)
  with True show ?thesis by (simp add: layer_def upsert_row_def)
qed (auto simp: layer_def upsert_row_def)

lemma layer_delete_other:
  "u \<noteq> t \<Longrightarrow> layer u s (db\<lparr> wd_rows := filter (\<lambda>r. \<not> at_slot (t, scope, key) r) (wd_rows db) \<rparr>) = layer u s db"
  by (auto simp: layer_def wo_slot_def intro!: arg_cong [where f = "map _"] filter_cong)

lemma write_rows_untouched:
  assumes "write_rows w st = (True, st')" "write_target w = Some t"
  shows "ps_refs st' = ps_refs st \<and> ps_tables st' = ps_tables st \<and> ps_cache st' = ps_cache st
    \<and> (\<forall>u s. u \<noteq> Some t \<longrightarrow> layer u s (ps_weights st') = layer u s (ps_weights st))"
  using assms by (cases w) (auto simp: set_override_def delete_override_def Let_def
      layer_upsert_other layer_delete_other split: option.splits)

lemma write_rows_refused: "write_rows w st = (False, st') \<Longrightarrow> st' = st"
  by (cases w) (auto split: prod.splits sum.splits bool.splits)

lemma write_rows_cache: "write_rows w st = (b, st') \<Longrightarrow> ps_cache st' = ps_cache st"
  by (cases w) (auto split: prod.splits sum.splits bool.splits)

lemma write_rows_plain:
  "write_rows w (with_empty_cache (without_cache st)) =
     (fst (write_rows w st), snd (write_rows w st)\<lparr> ps_cache := [] \<rparr>)"
proof -
  have e: "ps_scopes (with_empty_cache (without_cache st)) = ps_scopes st" "ps_refs (with_empty_cache (without_cache st)) = ps_refs st"
      "ps_weights (with_empty_cache (without_cache st)) = ps_weights st" "with_empty_cache (without_cache st) = st\<lparr> ps_cache := [] \<rparr>"
    by (simp_all add: with_empty_cache_def without_cache_def ps_scopes_def)
  show ?thesis unfolding e(4)
    by (cases w) (simp_all split: prod.split sum.split bool.split)
qed

lemma effective_scopes_cong:
  assumes "\<forall>u s. u \<noteq> Some t \<longrightarrow> layer u s db' = layer u s db" "k \<noteq> Some t"
  shows "effective_scopes reg db' k ss = effective_scopes reg db k ss"
proof -
  have "layer None s db' = layer None s db" "layer k s db' = layer k s db" for s
    using assms by blast+
  then have "get_effective_weights reg db' s k = get_effective_weights reg db s k" for s
    by (simp add: get_effective_weights_def Let_def split: option.split)
  then show ?thesis by (induction ss) (simp_all split: sum.split)
qed

lemma compute_cong:
  assumes "\<forall>u s. u \<noteq> Some t \<longrightarrow> layer u s db' = layer u s db" "k \<noteq> Some t"
  shows "compute_effective_policy_hash sha nfc reg db' k = compute_effective_policy_hash sha nfc reg db k"
  by (simp add: compute_effective_policy_hash_def get_effective_policy_def effective_scopes_cong [OF assms])

section \<open>Coherence\<close>

lemma coherent_empty: "ps_cache st = [] \<Longrightarrow> coherent sha nfc st"
  by (simp add: coherent_def)

lemma coherent_write:
  assumes "coherent sha nfc st"
  shows "coherent sha nfc (write_policy w st)"
proof (cases "write_rows w st")
  case (Pair ok st')
  show ?thesis
  proof (cases ok)
    case False
    with Pair write_rows_refused [of w st st'] show ?thesis using assms by (simp add: write_policy_def)
  next
    case True
    note w = Pair [unfolded True eq_True]
    show ?thesis
    proof (cases "write_target w")
      case None
      with w True show ?thesis
        by (simp add: write_policy_def affected_def invalidate_policy_hash_cache_def coherent_empty)
    next
      case (Some t)
      from w True have "write_rows w st = (True, st')" by simp
      note u = write_rows_untouched [OF this Some]
      from u have "compute_effective_policy_hash sha nfc (ps_scopes st') (ps_weights st') k
          = compute_effective_policy_hash sha nfc (ps_scopes st) (ps_weights st) k" if "k \<noteq> Some t" for k
        using that compute_cong [of t "ps_weights st'" "ps_weights st" k] by (simp add: ps_scopes_def)
      with assms u w True Some show ?thesis
        by (auto simp: write_policy_def affected_def invalidate_policy_hash_cache_def coherent_def delete_conv'
            split: if_splits)
    qed
  qed
qed

lemma coherent_read:
  assumes "coherent sha nfc st" "get_effective_policy_hash sha nfc now now' t st = (r, st')"
  shows "coherent sha nfc st' \<and> without_cache st' = without_cache st
    \<and> r = compute_effective_policy_hash sha nfc (ps_scopes st) (ps_weights st) t"
  using assms
  by (auto simp: get_effective_policy_hash_def cached_hash_def store_hash_def coherent_def update_conv'
      without_cache_def split: option.splits sum.splits if_splits prod.splits)

lemma without_cache_write:
  "without_cache (write_policy w st) = without_cache (snd (write_rows w (with_empty_cache (without_cache st))))"
  by (cases "write_rows w st")
     (simp only: write_rows_plain, simp add: write_policy_def without_cache_def split: bool.splits)

lemma run_call_refines:
  assumes "coherent sha nfc st" "run_call sha nfc c st = (r, st')" "\<not> sets_module c"
  shows "coherent sha nfc st' \<and> spec_call sha nfc c (without_cache st) = (r, without_cache st')"
proof (cases c)
  case (ReadHash now now' t)
  obtain r' st1 where e: "get_effective_policy_hash sha nfc now now' t st = (r', st1)" by (cases "get_effective_policy_hash sha nfc now now' t st")
  from coherent_read [OF assms(1) e] assms(2) e ReadHash show ?thesis
    by (auto simp: without_cache_def ps_scopes_def pp_scopes_def)
next
  case (WritePolicy w)
  then show ?thesis using assms coherent_write without_cache_write by auto
next
  case (SetModule m merge ref new)
  with assms(3) show ?thesis by (simp add: sets_module_def)
qed

lemma run_calls_refine:
  "coherent sha nfc st \<Longrightarrow> \<forall>c\<in>set cs. \<not> sets_module c \<Longrightarrow>
     coherent sha nfc (snd (run_calls sha nfc cs st))
     \<and> spec_calls sha nfc cs (without_cache st)
        = (fst (run_calls sha nfc cs st), without_cache (snd (run_calls sha nfc cs st)))"
proof (induction cs arbitrary: st)
  case (Cons c cs)
  obtain r st' where e: "run_call sha nfc c st = (r, st')" by (cases "run_call sha nfc c st")
  from Cons.prems(2) have "\<not> sets_module c" by simp
  from run_call_refines [OF Cons.prems(1) e this] Cons.IH [of st'] Cons.prems(2) e show ?case by simp
qed simp

section \<open>How far the cache lags\<close>

lemma run_calls_snoc:
  "snd (run_calls sha nfc (cs @ [c]) st) = snd (run_call sha nfc c (snd (run_calls sha nfc cs st)))"
  by (induction cs arbitrary: st) (simp_all split: prod.split)

lemma spec_calls_snoc:
  "snd (spec_calls sha nfc (cs @ [c]) p) = snd (spec_call sha nfc c (snd (spec_calls sha nfc cs p)))"
  by (induction cs arbitrary: p) (simp_all split: prod.split)

lemma read_plain: "without_cache (snd (get_effective_policy_hash sha nfc now now' t st)) = without_cache st"
  by (auto simp: get_effective_policy_hash_def store_hash_def without_cache_def split: option.splits sum.splits)

lemma run_call_plain: "without_cache (snd (run_call sha nfc c st)) = snd (spec_call sha nfc c (without_cache st))"
proof (cases c)
  case (ReadHash now now' t)
  then show ?thesis by (simp add: read_plain)
next
  case (WritePolicy w)
  then show ?thesis by (simp add: without_cache_write)
next
  case (SetModule m merge ref new)
  then show ?thesis by (simp add: set_module_def without_cache_def)
qed

lemma run_calls_plain: "without_cache (snd (run_calls sha nfc cs st)) = snd (spec_calls sha nfc cs (without_cache st))"
  by (induction cs rule: rev_induct) (simp_all add: run_calls_snoc spec_calls_snoc run_call_plain del: run_call.simps spec_call.simps)

text \<open>The clock does not run backwards between a store and a later setter.\<close>

fun clock_order :: "policy_call \<Rightarrow> policy_call \<Rightarrow> bool" where
  "clock_order (ReadHash now now' t) (SetModule m merge ref new) = (now' \<le> m)"
| "clock_order c d = True"

text \<open>A cached hash is the one of the current registrations and overrides and of the module
tables as they were when it was stored or later.\<close>

definition lags ::
    "(string \<Rightarrow> string) \<Rightarrow> (string \<Rightarrow> string) \<Rightarrow> policy_call list \<Rightarrow> policy_state \<Rightarrow> ident option \<Rightarrow> string \<Rightarrow> instant \<Rightarrow> bool" where
  "lags sha nfc cs st k h e \<longleftrightarrow>
     (\<exists>now t. ReadHash now (e - POLICY_HASH_CACHE_TTL) t \<in> set cs) \<and>
     (\<exists>cs1 cs2. cs = cs1 @ cs2 \<and> (\<forall>m merge ref new. SetModule m merge ref new \<in> set cs2 \<longrightarrow> e - POLICY_HASH_CACHE_TTL \<le> m)
        \<and> compute_effective_policy_hash sha nfc
            (live_registry (ps_tables (snd (run_calls sha nfc cs1 st))) (ps_refs (snd (run_calls sha nfc cs st))))
            (ps_weights (snd (run_calls sha nfc cs st))) k = Inr h)"

lemma lags_extend:
  assumes "lags sha nfc cs st k h e" "\<forall>m merge ref new. c = SetModule m merge ref new \<longrightarrow> e - POLICY_HASH_CACHE_TTL \<le> m"
    and "ps_refs (snd (run_calls sha nfc (cs @ [c]) st)) = ps_refs (snd (run_calls sha nfc cs st))"
    and "\<And>reg. compute_effective_policy_hash sha nfc reg (ps_weights (snd (run_calls sha nfc (cs @ [c]) st))) k
        = compute_effective_policy_hash sha nfc reg (ps_weights (snd (run_calls sha nfc cs st))) k"
  shows "lags sha nfc (cs @ [c]) st k h e"
proof -
  obtain now t cs1 cs2 where l: "ReadHash now (e - POLICY_HASH_CACHE_TTL) t \<in> set cs" "cs = cs1 @ cs2"
      "\<forall>m merge ref new. SetModule m merge ref new \<in> set cs2 \<longrightarrow> e - POLICY_HASH_CACHE_TTL \<le> m"
      "compute_effective_policy_hash sha nfc
            (live_registry (ps_tables (snd (run_calls sha nfc cs1 st))) (ps_refs (snd (run_calls sha nfc cs st))))
            (ps_weights (snd (run_calls sha nfc cs st))) k = Inr h"
    using assms(1) unfolding lags_def by blast
  have a: "ReadHash now (e - POLICY_HASH_CACHE_TTL) t \<in> set (cs @ [c])" using l(1) by simp
  have b: "cs @ [c] = cs1 @ (cs2 @ [c])" using l(2) by simp
  have d: "\<forall>m merge ref new. SetModule m merge ref new \<in> set (cs2 @ [c]) \<longrightarrow> e - POLICY_HASH_CACHE_TTL \<le> m"
    using l(3) assms(2) by auto
  show ?thesis unfolding lags_def assms(3,4) using a b d l(4) by blast
qed

lemma cache_lags:
  assumes "ps_cache st = []" "sorted_wrt clock_order cs" "map_of (ps_cache (snd (run_calls sha nfc cs st))) k = Some (h, e)"
  shows "lags sha nfc cs st k h e"
  using assms(2,3)
proof (induction cs arbitrary: k h e rule: rev_induct)
  case Nil
  then show ?case by (simp add: assms(1))
next
  case (snoc c cs)
  let ?st = "snd (run_calls sha nfc cs st)"
  have old: "lags sha nfc cs st k h e" if "map_of (ps_cache ?st) k = Some (h, e)" for k h e
    using snoc that by (simp add: sorted_wrt_append)
  note last = snoc.prems(2) [unfolded run_calls_snoc]
  show ?case
  proof (cases c)
    case (ReadHash now now' t)
    show ?thesis
    proof (cases "map_of (ps_cache ?st) k = Some (h, e)")
      case True
      show ?thesis
        by (rule lags_extend [OF old [OF True]])
           (use read_plain [of sha nfc now now' t ?st] in \<open>simp_all add: ReadHash run_calls_snoc without_cache_def\<close>)
    next
      case False
      then have n: "e = now' + POLICY_HASH_CACHE_TTL"
          "compute_effective_policy_hash sha nfc (ps_scopes ?st) (ps_weights ?st) k = Inr h" "snd (run_call sha nfc c ?st) = store_hash now' k h ?st"
        using last ReadHash
        by (auto simp: get_effective_policy_hash_def store_hash_def update_conv' split: option.splits sum.splits if_splits)
      have "ReadHash now (e - POLICY_HASH_CACHE_TTL) t \<in> set (cs @ [c])" by (simp add: n(1) ReadHash)
      moreover have "compute_effective_policy_hash sha nfc
            (live_registry (ps_tables (snd (run_calls sha nfc (cs @ [c]) st))) (ps_refs (snd (run_calls sha nfc (cs @ [c]) st))))
            (ps_weights (snd (run_calls sha nfc (cs @ [c]) st))) k = Inr h"
        unfolding run_calls_snoc n(3) using n(2) by (simp add: store_hash_def ps_scopes_def)
      ultimately show ?thesis unfolding lags_def by (intro conjI exI [of _ "cs @ [c]"] exI [of _ "[]"]) auto
    qed
  next
    case (WritePolicy w)
    obtain ok st' where w: "write_rows w ?st = (ok, st')" by (cases "write_rows w ?st")
    show ?thesis
    proof (cases ok)
      case False
      with w write_rows_refused have "snd (run_call sha nfc c ?st) = ?st" by (auto simp: WritePolicy write_policy_def)
      with last have "map_of (ps_cache ?st) k = Some (h, e)" "snd (run_call sha nfc (WritePolicy w) ?st) = ?st"
        by (simp_all add: WritePolicy)
      then show ?thesis
        by (intro lags_extend old) (simp_all add: run_calls_snoc WritePolicy del: run_call.simps)
    next
      case True
      have c: "ps_cache st' = ps_cache ?st" using w by (rule write_rows_cache)
      have s: "snd (run_call sha nfc c ?st) = st'\<lparr> ps_cache := invalidate_policy_hash_cache (affected (write_target w)) (ps_cache st') \<rparr>"
        using w True by (simp add: WritePolicy write_policy_def)
      from last s obtain u where u: "write_target w = Some u" "k \<noteq> Some u" "map_of (ps_cache ?st) k = Some (h, e)"
        by (auto simp: affected_def invalidate_policy_hash_cache_def c delete_conv' split: option.splits if_splits)
      from w True have "write_rows w ?st = (True, st')" by simp
      note k = write_rows_untouched [OF this u(1)]
      show ?thesis
        by (rule lags_extend [OF old [OF u(3)]])
           (use k compute_cong [of u "ps_weights st'" "ps_weights ?st" k] u(2) in
             \<open>simp_all add: run_calls_snoc s del: run_call.simps, simp_all add: WritePolicy\<close>)
    qed
  next
    case (SetModule m merge ref new)
    have h: "map_of (ps_cache ?st) k = Some (h, e)" using last by (simp add: SetModule set_module_def)
    from old [OF this] obtain now t where r: "ReadHash now (e - POLICY_HASH_CACHE_TTL) t \<in> set cs" unfolding lags_def by blast
    with snoc.prems(1) have "clock_order (ReadHash now (e - POLICY_HASH_CACHE_TTL) t) c" by (simp add: sorted_wrt_append)
    then show ?thesis
      by (intro lags_extend [OF old [OF h]]) (auto simp: run_calls_snoc SetModule set_module_def)
  qed
qed

section \<open>The race\<close>

text \<open>A reader misses and computes in \<open>st\<close>, other calls run, then it stores what it has
computed.\<close>

definition racing_read ::
    "(string \<Rightarrow> string) \<Rightarrow> (string \<Rightarrow> string) \<Rightarrow> ident option \<Rightarrow> policy_call list \<Rightarrow> instant \<Rightarrow> policy_state \<Rightarrow>
     policy_state" where
  "racing_read sha nfc t cs now st =
     (case compute_effective_policy_hash sha nfc (ps_scopes st) (ps_weights st) t of
        Inl e \<Rightarrow> snd (run_calls sha nfc cs st)
      | Inr h \<Rightarrow> store_hash now t h (snd (run_calls sha nfc cs st)))"

lemma store_other: "k \<noteq> t \<Longrightarrow> map_of (ps_cache (store_hash now t h st)) k = map_of (ps_cache st) k"
  by (simp add: store_hash_def update_conv')

lemma read_answer:
  "fst (get_effective_policy_hash sha nfc now now' t st) =
     (case cached_hash now (ps_cache st) t of
        Some h \<Rightarrow> Inr h
      | None \<Rightarrow> compute_effective_policy_hash sha nfc (ps_scopes st) (ps_weights st) t)"
  by (auto simp: get_effective_policy_hash_def split: option.splits sum.splits)

lemma read_after_store:
  "fst (get_effective_policy_hash sha nfc later later' t (store_hash now t h st)) =
     (if later < now + POLICY_HASH_CACHE_TTL then Inr h
      else compute_effective_policy_hash sha nfc (ps_scopes st) (ps_weights st) t)"
  by (auto simp: get_effective_policy_hash_def cached_hash_def store_hash_def update_conv' split: sum.splits)

section \<open>Properties\<close>

lemma hash_policy_prefixed:
  "hash_policy sha nfc p = Inr s \<Longrightarrow> \<exists>b. canonicalize_policy nfc p = Inr b \<and> s = POLICY_HASH_VERSION_PREFIX @ sha b"
  by (auto simp: hash_policy_def hash_policy_hex_def split: sum.splits)

lemma parse_prefixed:
  "parse_policy_hash (POLICY_HASH_VERSION_PREFIX @ h) = Some (POLICY_HASH_VERSION_PREFIX, h)"
  by (simp add: parse_policy_hash_def starts_with_def)

text \<open>A stamped policy hash splits into the version prefix and the digest of the
canonical bytes, whatever is stamped is split only at that prefix, and it verifies
against a policy exactly when that policy's canonical bytes have the same digest.\<close>

theorem stamped_hash_round_trip:
  assumes "hash_policy sha nfc p = Inr s"
  shows "(\<exists>b. canonicalize_policy nfc p = Inr b \<and> parse_policy_hash s = Some (POLICY_HASH_VERSION_PREFIX, sha b)
      \<and> (\<forall>q c. canonicalize_policy nfc q = Inr c \<longrightarrow>
           verify_policy_hash sha nfc q s = Inr (sha c = sha b)))
    \<and> (\<forall>u v h. parse_policy_hash u = Some (v, h) \<longleftrightarrow> v = POLICY_HASH_VERSION_PREFIX \<and> u = v @ h)"
proof -
  obtain b where b: "canonicalize_policy nfc p = Inr b" "s = POLICY_HASH_VERSION_PREFIX @ sha b"
    using hash_policy_prefixed [OF assms] by blast
  have "verify_policy_hash sha nfc q s = Inr (sha c = sha b)" if "canonicalize_policy nfc q = Inr c" for q c
    using that b by (simp add: verify_policy_hash_def hash_policy_def hash_policy_hex_def)
  moreover have "parse_policy_hash u = Some (v, h) \<longleftrightarrow> v = POLICY_HASH_VERSION_PREFIX \<and> u = v @ h" for u v h
    by (auto simp: parse_policy_hash_def starts_with_def) (metis append_take_drop_id)
  ultimately show ?thesis using b parse_prefixed by blast
qed

definition sample_policy :: json where
  "sample_policy = JObj [(''tools'', JObj [(''b'', JInt 2), (''a'', JBool True)])]"

theorem stamped_hash_round_trip_witness:
  "parse_policy_hash (''policy-hash-sha256-v1:'' @ ''ab'') = Some (POLICY_HASH_VERSION_PREFIX, ''ab'')
   \<and> canonicalize_policy id sample_policy
      = Inr (CHR ''{'' # utf8_text ''tools'' @ '':{'' @ utf8_text ''a'' @ '':1,'' @ utf8_text ''b'' @ '':2}}'')"
proof -
  have "hash_policy (\<lambda>b. ''ab'') id sample_policy = Inr (POLICY_HASH_VERSION_PREFIX @ ''ab'')"
    by (simp add: hash_policy_def hash_policy_hex_def canonicalize_policy_def sample_policy_def)
  from stamped_hash_round_trip [OF this, THEN conjunct2] show ?thesis
    by (simp add: POLICY_HASH_VERSION_PREFIX_def canonicalize_policy_def sample_policy_def int_text_def
        nat_text.simps char_of_def bit_Suc_0_iff)
qed

text \<open>Without a setter of a module table the cache implements the specification exactly.\<close>

theorem cache_exact_without_setters:
  assumes "coherent sha nfc st" "\<forall>c\<in>set cs. \<not> sets_module c"
  shows "spec_calls sha nfc cs (without_cache st)
      = (fst (run_calls sha nfc cs st), without_cache (snd (run_calls sha nfc cs st)))
    \<and> coherent sha nfc (snd (run_calls sha nfc cs st))"
  using run_calls_refine [OF assms] by blast

text \<open>C14. The cache follows the specification without one, up to half a minute of the module
tables. In any history of reads, overrides, deletions, registrations and setters of module
tables, from an empty cache, the registrations, overrides and tables are those of the
specification, and a read answers the hash of the current registrations and overrides and of
the tables as they were at a point after which every setter ran in the 30 seconds before the
read. So the answer is the specification's unless a module table was changed in that time.\<close>

theorem cache_lags_module_tables:
  assumes "ps_cache st = []" "sorted_wrt clock_order cs" "snd (run_calls sha nfc cs st) = st'"
  shows "without_cache st' = snd (spec_calls sha nfc cs (without_cache st))
    \<and> (\<exists>cs1 cs2. cs = cs1 @ cs2
        \<and> (\<forall>m merge ref new. SetModule m merge ref new \<in> set cs2 \<longrightarrow> now - POLICY_HASH_CACHE_TTL < m)
        \<and> fst (get_effective_policy_hash sha nfc now now' t st')
          = compute_effective_policy_hash sha nfc
              (live_registry (pp_tables (snd (spec_calls sha nfc cs1 (without_cache st)))) (ps_refs st')) (ps_weights st') t)"
proof -
  have tables: "pp_tables (snd (spec_calls sha nfc cs1 (without_cache st))) = ps_tables (snd (run_calls sha nfc cs1 st))" for cs1
    using arg_cong [OF run_calls_plain [of sha nfc cs1 st], of pp_tables] by (simp add: without_cache_def)
  have "\<exists>cs1 cs2. cs = cs1 @ cs2
      \<and> (\<forall>m merge ref new. SetModule m merge ref new \<in> set cs2 \<longrightarrow> now - POLICY_HASH_CACHE_TTL < m)
      \<and> fst (get_effective_policy_hash sha nfc now now' t st')
        = compute_effective_policy_hash sha nfc
            (live_registry (ps_tables (snd (run_calls sha nfc cs1 st))) (ps_refs st')) (ps_weights st') t"
  proof (cases "cached_hash now (ps_cache st') t")
    case None
    then have "fst (get_effective_policy_hash sha nfc now now' t st')
        = compute_effective_policy_hash sha nfc (live_registry (ps_tables st') (ps_refs st')) (ps_weights st') t"
      by (simp add: read_answer ps_scopes_def)
    then show ?thesis by (intro exI [of _ cs] exI [of _ "[]"]) (simp add: assms(3))
  next
    case (Some h)
    then obtain e where e: "map_of (ps_cache st') t = Some (h, e)" "now < e"
      by (auto simp: cached_hash_def split: option.splits if_splits)
    from cache_lags [OF assms(1,2) e(1) [folded assms(3)]] obtain cs1 cs2 where l: "cs = cs1 @ cs2"
        "\<forall>m merge ref new. SetModule m merge ref new \<in> set cs2 \<longrightarrow> e - POLICY_HASH_CACHE_TTL \<le> m"
        "compute_effective_policy_hash sha nfc
            (live_registry (ps_tables (snd (run_calls sha nfc cs1 st))) (ps_refs st')) (ps_weights st') t = Inr h"
      unfolding lags_def assms(3) by blast
    have "\<forall>m merge ref new. SetModule m merge ref new \<in> set cs2 \<longrightarrow> now - POLICY_HASH_CACHE_TTL < m"
      using l(2) e(2) by fastforce
    with l(1,3) Some show ?thesis by (intro exI [of _ cs1] exI [of _ cs2]) (simp add: read_answer)
  qed
  then show ?thesis by (simp add: tables run_calls_plain [of sha nfc cs st, unfolded assms(3), symmetric])
qed

definition fresh_policy :: policy_state where
  "fresh_policy = \<lparr> ps_refs = [(''data_classes'', ''data_classes'')], ps_tables = sample_registry,
     ps_weights = empty_weights, ps_cache = [] \<rparr>"

lemma fresh_policy_simps [simp]:
  "ps_scopes fresh_policy = sample_registry" "ps_weights fresh_policy = empty_weights" "ps_cache fresh_policy = []"
  "ps_refs fresh_policy = [(''data_classes'', ''data_classes'')]" "ps_tables fresh_policy = sample_registry"
  by (simp_all add: fresh_policy_def ps_scopes_def live_registry_def module_table_def sample_registry_def)

definition raise_pii :: "policy_call list" where
  "raise_pii = [WritePolicy (SetOverride 0 ''data_classes'' ''pii'' 9 (Some ''t'') None None False)]"

lemma pii_raised:
  "compute_effective_policy_hash id id sample_registry
     (ps_weights (snd (run_calls id id raise_pii fresh_policy))) (Some ''t'')
   = Inr (POLICY_HASH_VERSION_PREFIX @ (CHR ''{'' # utf8_text ''data_classes'' @ '':{'' @ utf8_text ''pii'' @ '':9}}''))
   \<and> compute_effective_policy_hash id id sample_registry empty_weights (Some ''t'')
   = Inr (POLICY_HASH_VERSION_PREFIX @ (CHR ''{'' # utf8_text ''data_classes'' @ '':{'' @ utf8_text ''pii'' @ '':3}}''))"
  by (simp add: raise_pii_def write_policy_def set_override_def check_only_tighten_def
      platform_value_def current_value_def sample_registry_def empty_weights_def audit_def upsert_row_def
      compute_effective_policy_hash_def get_effective_policy_def known_scopes_def get_effective_weights_def
      layer_def overlay_def weights_json_def hash_policy_def hash_policy_hex_def canonicalize_policy_def
      int_text_def nat_text.simps char_of_def bit_Suc_0_iff affected_def invalidate_policy_hash_cache_def Let_def)

theorem cache_exact_without_setters_witness:
  "fst (spec_calls id id raise_pii (without_cache fresh_policy)) = fst (run_calls id id raise_pii fresh_policy)"
  using cache_exact_without_setters [of id id fresh_policy raise_pii, THEN conjunct1]
  by (simp add: coherent_empty raise_pii_def sets_module_def)

text \<open>A hash is read, the module table is changed a second later, and read again.\<close>

definition module_change :: "policy_call list" where
  "module_change = [ReadHash 0 0 None, SetModule 1000000 True ''data_classes'' [(''pii'', 9)]]"

lemma cache_lags_module_tables_witness:
  "fst (get_effective_policy_hash id id 40000000 40000000 None (snd (run_calls id id module_change fresh_policy)))
     = compute_effective_policy_hash id id [(''data_classes'', [(''pii'', 9)])] empty_weights None"
proof -
  let ?st' = "snd (run_calls id id module_change fresh_policy)"
  have "sorted_wrt clock_order module_change" by (simp add: module_change_def)
  from cache_lags_module_tables [OF fresh_policy_simps(3) this refl, where now = 40000000 and now' = 40000000 and t = None and sha = id and nfc = id, THEN conjunct2]
  obtain cs1 cs2 where c: "module_change = cs1 @ cs2"
      "\<forall>m merge ref new. SetModule m merge ref new \<in> set cs2 \<longrightarrow> 40000000 - POLICY_HASH_CACHE_TTL < m"
      "fst (get_effective_policy_hash id id 40000000 40000000 None ?st')
        = compute_effective_policy_hash id id
            (live_registry (pp_tables (snd (spec_calls id id cs1 (without_cache fresh_policy)))) (ps_refs ?st')) (ps_weights ?st') None"
    by blast
  have "cs2 = []"
  proof (rule ccontr)
    assume "cs2 \<noteq> []"
    then have "last cs2 = last module_change" unfolding c(1) by simp
    then have "SetModule 1000000 True ''data_classes'' [(''pii'', 9)] \<in> set cs2"
      using \<open>cs2 \<noteq> []\<close> last_in_set [of cs2] by (simp add: module_change_def)
    with c(2) have "40000000 - POLICY_HASH_CACHE_TTL < 1000000" by blast
    then show False by (simp add: POLICY_HASH_CACHE_TTL_def)
  qed
  then have "cs1 = module_change" using c(1) by simp
  moreover have "without_cache ?st' = \<lparr> pp_refs = [(''data_classes'', ''data_classes'')],
      pp_tables = [(''data_classes'', [(''pii'', 9)])], pp_weights = empty_weights \<rparr>"
    unfolding run_calls_plain
    by (simp add: module_change_def without_cache_def set_module_weights_def set_table_def module_table_def sample_registry_def)
  moreover from this have "ps_refs ?st' = [(''data_classes'', ''data_classes'')]" "ps_weights ?st' = empty_weights"
    by (simp_all add: without_cache_def)
  ultimately show ?thesis
    using c(3) by (simp add: run_calls_plain [symmetric] live_registry_def module_table_def)
qed

text \<open>The setter does not reach a cached hash: nine seconds later the old one is served.\<close>

theorem setter_leaves_stale_hash:
  "fst (get_effective_policy_hash id id 10000000 10000000 None (snd (run_calls id id module_change fresh_policy)))
     = compute_effective_policy_hash id id sample_registry empty_weights None
   \<and> compute_effective_policy_hash id id sample_registry empty_weights None
     \<noteq> compute_effective_policy_hash id id [(''data_classes'', [(''pii'', 9)])] empty_weights None"
proof -
  have h: "compute_effective_policy_hash id id [(''data_classes'', [(''pii'', v)])] empty_weights None
      = Inr (POLICY_HASH_VERSION_PREFIX @ (CHR ''{'' # utf8_text ''data_classes'' @ '':{'' @ utf8_text ''pii'' @ '':'' @ int_text v @ ''}}''))" for v
    by (simp add: compute_effective_policy_hash_def get_effective_policy_def known_scopes_def get_effective_weights_def
      layer_def overlay_def weights_json_def hash_policy_def hash_policy_hex_def canonicalize_policy_def empty_weights_def)
  have "ps_cache (snd (run_calls id id module_change fresh_policy))
      = [(None, POLICY_HASH_VERSION_PREFIX @ (CHR ''{'' # utf8_text ''data_classes'' @ '':{'' @ utf8_text ''pii'' @ '':'' @ int_text 3 @ ''}}''),
          POLICY_HASH_CACHE_TTL)]"
    by (simp add: module_change_def get_effective_policy_hash_def cached_hash_def store_hash_def set_module_def sample_registry_def h)
  then show ?thesis
    by (simp add: get_effective_policy_hash_def cached_hash_def POLICY_HASH_CACHE_TTL_def sample_registry_def h
        int_text_def nat_text.simps char_of_def bit_Suc_0_iff)
qed

text \<open>A writer that slips in between a reader's computation and its store leaves the
old hash in the cache in spite of its invalidation: every read of that tenant within
30 seconds of the store returns it, the first one after that is current again, and the
other tenants are not affected.\<close>

theorem racing_store_stale_for_ttl:
  assumes "coherent sha nfc st"
    and "compute_effective_policy_hash sha nfc (ps_scopes st) (ps_weights st) t = Inr old" "\<forall>c\<in>set cs. \<not> sets_module c"
  shows "fst (get_effective_policy_hash sha nfc later later' u (racing_read sha nfc t cs now st)) =
    (if u = t \<and> later < now + 30000000 then Inr old
     else compute_effective_policy_hash sha nfc (ps_scopes (snd (run_calls sha nfc cs st)))
            (ps_weights (snd (run_calls sha nfc cs st))) u)"
proof (cases "u = t")
  case True
  then show ?thesis using assms(2) by (simp add: racing_read_def read_after_store POLICY_HASH_CACHE_TTL_def)
next
  case False
  let ?st = "snd (run_calls sha nfc cs st)"
  have "coherent sha nfc ?st" using run_calls_refine [OF assms(1,3)] by blast
  then have "fst (get_effective_policy_hash sha nfc later later' u ?st)
      = compute_effective_policy_hash sha nfc (ps_scopes ?st) (ps_weights ?st) u"
    using coherent_read by (metis prod.collapse)
  moreover have "cached_hash later (ps_cache (store_hash now t old ?st)) u = cached_hash later (ps_cache ?st) u"
    using False by (simp add: cached_hash_def store_other)
  moreover have "ps_scopes (store_hash now t old ?st) = ps_scopes ?st"
    and "ps_weights (store_hash now t old ?st) = ps_weights ?st"
    by (simp_all add: store_hash_def)
  ultimately show ?thesis
    using False assms(2)
    by (cases "cached_hash later (ps_cache ?st) u") (simp_all add: racing_read_def read_answer)
qed

theorem racing_store_stale_for_ttl_witness:
  "fst (get_effective_policy_hash id id 29000000 29000000 (Some ''t'')
          (racing_read id id (Some ''t'') raise_pii 0 fresh_policy))
     = compute_effective_policy_hash id id sample_registry empty_weights (Some ''t'')
   \<and> compute_effective_policy_hash id id sample_registry empty_weights (Some ''t'')
     \<noteq> compute_effective_policy_hash id id sample_registry
         (ps_weights (snd (run_calls id id raise_pii fresh_policy))) (Some ''t'')"
  using racing_store_stale_for_ttl [where sha = id and nfc = id and st = fresh_policy and t = "Some ''t''" and u = "Some ''t''"
      and later = 29000000 and later' = 29000000 and cs = raise_pii and now = 0]
    pii_raised by (simp add: coherent_empty raise_pii_def sets_module_def)

end
