(* ===== verification/Evaluator.thy ===== *)
theory Evaluator
  imports Registry PolicyHash Budget
begin

text \<open>
  Policy evaluators (\<open>kya/policy_evaluator.py\<close>) and the one that ships,
  \<open>NativeEvaluator\<close> (\<open>kya/_native_evaluator.py\<close>), which composes the budgets, the
  tenant weights and the policy hash. Its session is present or not (\<open>ne_session\<close>);
  a query that raises is a flag. Importing a module of the package does not fail.
\<close>

section \<open>Inputs and results\<close>

text \<open>Values of the free-form bags: JSON, a finite float, or a budget's reason.\<close>

datatype bag_value = Js json | Num rat | Why budget_reason

type_synonym bag = "(string \<times> bag_value) list"

record evaluation_input =
  ei_tenant :: ident
  ei_kind :: string
  ei_principal :: ident
  ei_action :: string
  ei_attributes :: bag

record verdict_result =
  vr_verdict :: string
  vr_reasons :: "string list"
  vr_payload :: bag
  vr_hash :: string
  vr_evaluator :: string
  vr_signal :: "string option"

section \<open>The native evaluator\<close>

definition HARD_DENY_WEIGHT_THRESHOLD :: int where
  "HARD_DENY_WEIGHT_THRESHOLD = 100"

definition POLICY_HASH_UNAVAILABLE :: string where
  "POLICY_HASH_UNAVAILABLE = ''policy-hash-unavailable''"

record 'st native_env =
  ne_session :: bool
  ne_weights_ok :: bool
  ne_budget_ok :: bool
  ne_budget_rows_ok :: bool
  ne_budgets :: budget_db
  ne_forecaster :: "rat \<Rightarrow> rat \<Rightarrow> rat \<Rightarrow> int \<Rightarrow> forecast"
  ne_store :: "'st valkey option"
  ne_counters :: 'st
  ne_now :: instant
  ne_sha :: "string \<Rightarrow> string"
  ne_nfc :: "string \<Rightarrow> string"
  ne_float_text :: "string \<Rightarrow> rat option"

text \<open>\<open>float(x)\<close>: it raises TypeError or ValueError, or OverflowError on a huge integer.
\<open>ne_float_text\<close> is the library's reading of a text.\<close>

datatype float_result = Float rat | NotAFloat | FloatOverflow

fun to_float :: "(string \<Rightarrow> rat option) \<Rightarrow> bag_value \<Rightarrow> float_result" where
  "to_float ft (Num r) = Float r"
| "to_float ft (Js (JInt i)) = (if 2 ^ 1024 - 2 ^ 970 \<le> \<bar>i\<bar> then FloatOverflow else Float (of_int i))"
| "to_float ft (Js (JBool b)) = Float (if b then 1 else 0)"
| "to_float ft (Js (JStr s)) = (case ft s of None \<Rightarrow> NotAFloat | Some r \<Rightarrow> Float r)"
| "to_float ft _ = NotAFloat"

fun bag_falsy :: "bag_value \<Rightarrow> bool" where
  "bag_falsy (Num r) = (r = 0)"
| "bag_falsy (Js (JInt i)) = (i = 0)"
| "bag_falsy (Js (JBool b)) = (\<not> b)"
| "bag_falsy (Js (JStr s)) = (s = [])"
| "bag_falsy (Js (JList xs)) = (xs = [])"
| "bag_falsy (Js (JObj kvs)) = (kvs = [])"
| "bag_falsy (Js JNull) = True"
| "bag_falsy _ = False"

fun bag_text :: "bag_value \<Rightarrow> string option" where
  "bag_text (Js (JStr s)) = Some s"
| "bag_text _ = None"

definition compute_policy_hash :: "'st native_env \<Rightarrow> ident \<Rightarrow> policy_state \<Rightarrow> string \<times> policy_state" where
  "compute_policy_hash e t ps =
     (let empty_hash = (case hash_policy (ne_sha e) (ne_nfc e) (JObj []) of
                          Inl _ \<Rightarrow> POLICY_HASH_UNAVAILABLE | Inr h \<Rightarrow> h)
      in if ne_session e then
           (case get_effective_policy_hash (ne_sha e) (ne_nfc e) (ne_now e) (ne_now e) (Some t) ps of
              (Inr h, ps') \<Rightarrow> (h, ps')
            | (Inl _, ps') \<Rightarrow> (empty_hash, ps'))
         else (empty_hash, ps))"

definition rule_result :: "string \<Rightarrow> string \<Rightarrow> bag \<Rightarrow> string \<Rightarrow> verdict_result" where
  "rule_result verdict reason payload signal =
     \<lparr> vr_verdict = verdict, vr_reasons = [reason], vr_payload = payload, vr_hash = [],
       vr_evaluator = ''native'', vr_signal = Some signal \<rparr>"

text \<open>The budget rule. A scope or key that is not a text matches no row, or its query
raises; either way the rule does not fire.\<close>

definition budget_rule_scope :: "evaluation_input \<Rightarrow> (string \<times> string) option" where
  "budget_rule_scope inp =
     (let agent = (ei_kind inp = ''agent'');
          given = map_of (ei_attributes inp) ''budget_scope_key'';
          key = (case given of
              Some v \<Rightarrow> if bag_falsy v then Some (if agent then ei_principal inp else ''*'') else bag_text v
            | None \<Rightarrow> Some (if agent then ei_principal inp else ''*''));
          scope = (case map_of (ei_attributes inp) ''budget_scope'' of
              Some v \<Rightarrow> bag_text v
            | None \<Rightarrow> Some (if agent then ''agent'' else ''tenant''))
      in case (scope, key) of (Some s, Some k) \<Rightarrow> Some (s, k) | _ \<Rightarrow> None)"

definition budget_refusal :: "decision \<Rightarrow> verdict_result option" where
  "budget_refusal d =
     (if de_verdict d \<noteq> Refuse then None
      else Some (rule_result ''deny'' ''budget_exceeded''
             [(''budget_reason'', Why (de_reason d)), (''current_usd'', Num (de_current d)),
              (''threshold_usd'', Num (de_threshold d))] ''budget_exceeded''))"

definition check_budget :: "'st native_env \<Rightarrow> evaluation_input \<Rightarrow> string + verdict_result option" where
  "check_budget e inp =
     (case map_of (ei_attributes inp) ''estimated_cost_usd'' of
        None \<Rightarrow> Inr None
      | Some cost \<Rightarrow>
          if cost = Js JNull then Inr None
          else (case to_float (ne_float_text e) cost of
              FloatOverflow \<Rightarrow> Inl ''OverflowError''
            | NotAFloat \<Rightarrow> Inr None
            | Float c \<Rightarrow>
                if c \<le> 0 \<or> \<not> ne_session e \<or> \<not> ne_budget_ok e then Inr None
                else (case budget_rule_scope inp of
                    None \<Rightarrow> Inr None
                  | Some (scope, key) \<Rightarrow>
                      Inr (budget_refusal (should_refuse (ne_forecaster e) (ne_store e) (ne_now e)
                        (ne_budget_rows_ok e) (ne_budgets e) (ne_counters e) (ei_tenant inp) key c scope None)))))"

definition check_tenant_weight :: "'st native_env \<Rightarrow> policy_state \<Rightarrow> evaluation_input \<Rightarrow> verdict_result option" where
  "check_tenant_weight e ps inp =
     (if \<not> ne_session e \<or> ei_action inp \<notin> set (known_scopes (ps_scopes ps)) \<or> \<not> ne_weights_ok e then None
      else (case get_effective_weights (ps_scopes ps) (ps_weights ps) (ei_action inp) (Some (ei_tenant inp)) of
          Inl _ \<Rightarrow> None
        | Inr w \<Rightarrow>
            (case map_of w (ei_kind inp) of
               None \<Rightarrow> None
             | Some v \<Rightarrow>
                 if v < HARD_DENY_WEIGHT_THRESHOLD then None
                 else Some (rule_result ''deny'' ''tenant_scoped_deny''
                   [(''scope'', Js (JStr (ei_action inp))), (''key'', Js (JStr (ei_kind inp))),
                    (''weight_value'', Js (JInt v)),
                    (''hard_deny_threshold'', Js (JInt HARD_DENY_WEIGHT_THRESHOLD))] ''governance_block''))))"

definition check_restricted_data :: "evaluation_input \<Rightarrow> verdict_result option" where
  "check_restricted_data inp =
     (if map_of (ei_attributes inp) ''data_classification'' \<noteq> Some (Js (JStr ''restricted'')) then None
      else if ei_kind inp = ''human'' then None
      else Some (rule_result ''deny'' ''restricted_data_requires_human''
             [(''data_classification'', Js (JStr ''restricted'')), (''principal_kind'', Js (JStr (ei_kind inp)))]
             ''governance_block''))"

definition default_allow :: verdict_result where
  "default_allow = rule_result ''allow'' ''policy_default_allow'' [] ''clean_invocation''"

definition would_short_circuit :: "policy_state \<Rightarrow> evaluation_input \<Rightarrow> bool" where
  "would_short_circuit ps inp =
     (if map_of (ei_attributes inp) ''data_classification'' = Some (Js (JStr ''restricted'')) then False
      else if map_of (ei_attributes inp) ''estimated_cost_usd'' \<notin> {None, Some (Js JNull)} then False
      else ei_action inp \<notin> set (known_scopes (ps_scopes ps)))"

text \<open>The first rule that fires; an exception of a rule is a refusal.\<close>

definition native_rules :: "'st native_env \<Rightarrow> policy_state \<Rightarrow> evaluation_input \<Rightarrow> string + verdict_result" where
  "native_rules e ps inp =
     (case check_budget e inp of
        Inl exc \<Rightarrow> Inl exc
      | Inr fired \<Rightarrow>
          (case option_or fired (option_or (check_tenant_weight e ps inp) (check_restricted_data inp)) of
             Some r \<Rightarrow> Inr r
           | None \<Rightarrow> Inr default_allow))"

definition native_evaluate ::
    "'st native_env \<Rightarrow> evaluation_input \<Rightarrow> policy_state \<Rightarrow> verdict_result \<times> policy_state" where
  "native_evaluate e inp ps =
     (let (h, ps') = compute_policy_hash e (ei_tenant inp) ps
      in ((case native_rules e ps' inp of
             Inr r \<Rightarrow> r\<lparr> vr_hash := h, vr_evaluator := ''native'' \<rparr>
           | Inl exc \<Rightarrow>
               \<lparr> vr_verdict = ''deny'', vr_reasons = [''evaluator_error'', ''int too large to convert to float''],
                 vr_payload = [(''exception_type'', Js (JStr exc))], vr_hash = h,
                 vr_evaluator = ''native'', vr_signal = Some ''governance_block'' \<rparr>), ps'))"

section \<open>The registry of evaluators\<close>

text \<open>An object offered as an evaluator: the native one, or a custom one with its name and
its method, which may raise.\<close>

datatype evaluator =
    Native
  | Custom "string option" "(evaluation_input \<Rightarrow> string + verdict_result) option"

datatype evaluator_error = BadEvaluator | BadName

definition validate_evaluator :: "evaluator \<Rightarrow> evaluator_error option" where
  "validate_evaluator ev =
     (case ev of
        Native \<Rightarrow> None
      | Custom name f \<Rightarrow> if \<not> truthy name \<or> f = None then Some BadEvaluator else None)"

type_synonym evaluators = "(string \<times> evaluator) list"

definition register_evaluator ::
    "string option \<Rightarrow> evaluator \<Rightarrow> evaluators \<Rightarrow> evaluator_error option \<times> evaluators" where
  "register_evaluator name ev reg =
     (case validate_evaluator ev of
        Some e \<Rightarrow> (Some e, reg)
      | None \<Rightarrow> if \<not> truthy name then (Some BadName, reg)
                else (None, AList.update (or_else name []) ev reg))"

definition get_evaluator :: "evaluators \<Rightarrow> string \<Rightarrow> unit + evaluator" where
  "get_evaluator reg name = (case map_of reg name of None \<Rightarrow> Inl () | Some ev \<Rightarrow> Inr ev)"

definition unregister_evaluator :: "string \<Rightarrow> evaluators \<Rightarrow> evaluators" where
  "unregister_evaluator name reg = (if map_of reg name = None then reg else AList.delete name reg)"

definition register_native_default :: "evaluators \<Rightarrow> evaluators" where
  "register_native_default reg = snd (register_evaluator (Some ''native'') Native reg)"

interpretation evaluators: registry "[] :: evaluators" AList.update AList.delete map_of
  by unfold_locales (auto simp: update_conv' delete_conv')

end
