(* ===== verification/Pipeline.thy ===== *)
theory Pipeline
  imports Evaluator Rbac RateLimit Canonicals
begin

text \<open>
  The decision stack of the gateway (\<open>kya_gateway/policy_pipeline.py\<close>): rule list,
  payload cap, rate limit, tenant budget, grants and trust, then the verdict; every
  verdict passes through the configured evaluator. Imports of the package's own
  modules do not fail, and the pipeline always has its session.
\<close>

section \<open>Configuration\<close>

record rbac_rule =
  rr_kind :: string
  rr_actions :: "string list"
  rr_verdict :: string

record rbac_config =
  rc_default :: string
  rc_rules :: "rbac_rule list"

record policy_config =
  pc_min_trust :: int
  pc_rate_limit :: "rate_limit_config option"
  pc_max_bytes :: "int option"
  pc_budget :: "rat option option"
  pc_rbac :: "rbac_config option"
  pc_evaluator :: string

record bound_principal =
  bp_kind :: string
  bp_id :: ident
  bp_method :: string
  bp_subject :: "string option"
  bp_issuer :: "string option"

record gateway_verdict =
  gv_verdict :: string
  gv_reasons :: "string list"
  gv_signal :: string
  gv_rich :: bag

definition verdict :: "string \<Rightarrow> string list \<Rightarrow> string \<Rightarrow> gateway_verdict" where
  "verdict v reasons signal = \<lparr> gv_verdict = v, gv_reasons = reasons, gv_signal = signal, gv_rich = [] \<rparr>"

section \<open>Rules\<close>

definition ends_with :: "string \<Rightarrow> string \<Rightarrow> bool" where
  "ends_with s p = (length p \<le> length s \<and> drop (length s - length p) s = p)"

fun action_matches :: "string \<Rightarrow> string list \<Rightarrow> bool" where
  "action_matches act [] = False"
| "action_matches act (p # ps) =
     (if p = act then True
      else if ends_with p ''.*'' \<and> starts_with act (butlast p) then True
      else if p = ''*'' then True
      else action_matches act ps)"

fun first_rule :: "string \<Rightarrow> string \<Rightarrow> rbac_rule list \<Rightarrow> string option" where
  "first_rule kind act [] = None"
| "first_rule kind act (r # rs) =
     (if rr_kind r \<noteq> kind then first_rule kind act rs
      else if action_matches act (rr_actions r) then Some (rr_verdict r)
      else first_rule kind act rs)"

definition rbac_evaluate :: "rbac_config \<Rightarrow> string \<Rightarrow> string \<Rightarrow> string" where
  "rbac_evaluate rc kind act =
     (case first_rule kind act (rc_rules rc) of Some v \<Rightarrow> v | None \<Rightarrow> rc_default rc)"

definition normalize_legacy_verdict :: "string \<Rightarrow> string" where
  "normalize_legacy_verdict v =
     (case map_of LEGACY_VERDICT_ALIASES v of Some c \<Rightarrow> c | None \<Rightarrow> v)"

section \<open>Dispatch through the evaluator\<close>

record 'st pipeline_env =
  pe_native :: "'st native_env"
  pe_rbac :: rbac_env
  pe_hook :: "rat option"
  pe_evaluators :: evaluators
  pe_store :: "'st valkey option"

record 'st pipeline_state =
  ps_store :: 'st
  ps_principals :: principal_table
  ps_policy :: policy_state

definition resolve_evaluator :: "evaluators \<Rightarrow> string \<Rightarrow> evaluator option" where
  "resolve_evaluator reg name = (case get_evaluator reg name of Inl _ \<Rightarrow> None | Inr ev \<Rightarrow> Some ev)"

definition update_bag :: "bag \<Rightarrow> bag \<Rightarrow> bag" where
  "update_bag new b = fold (\<lambda>(k, v). AList.update k v) new b"

definition tool_inputs :: "jobj \<Rightarrow> bag" where
  "tool_inputs args = map (\<lambda>(k, v). (''tool.input.'' @ k, Js v)) args"

definition build_eval_input ::
    "ident \<Rightarrow> bound_principal \<Rightarrow> string \<Rightarrow> int \<Rightarrow> int option \<Rightarrow> string \<Rightarrow> gateway_verdict \<Rightarrow> bag \<Rightarrow> jobj \<Rightarrow>
     evaluation_input" where
  "build_eval_input t p act payload_bytes iid rule cand extra args =
     (let attrs =
        [(''gateway_rule'', Js (JStr rule)),
         (''gateway_candidate_verdict'', Js (JStr (gv_verdict cand))),
         (''gateway_candidate_reason_codes'', Js (JList (map JStr (gv_reasons cand)))),
         (''gateway_candidate_signal_kind'', Js (JStr (gv_signal cand))),
         (''payload_bytes'', Js (JInt payload_bytes)),
         (''invocation_id'', Js (case iid of None \<Rightarrow> JNull | Some i \<Rightarrow> JInt i))]
      in \<lparr> ei_tenant = t, ei_kind = bp_kind p, ei_principal = bp_id p, ei_action = act,
           ei_attributes =
             update_bag extra (update_bag (tool_inputs args) attrs) \<rparr>)"

definition setdefault :: "string \<Rightarrow> bag_value \<Rightarrow> bag \<Rightarrow> bag" where
  "setdefault k v b = (if map_of b k = None then b @ [(k, v)] else b)"

definition with_text :: "string \<Rightarrow> string \<Rightarrow> bag \<Rightarrow> bag" where
  "with_text k s b = (if s = [] then b else setdefault k (Js (JStr s)) b)"

definition verdict_result_to_gateway_verdict :: "verdict_result \<Rightarrow> gateway_verdict \<Rightarrow> gateway_verdict" where
  "verdict_result_to_gateway_verdict vr fallback =
     (let canonical = normalize_legacy_verdict (vr_verdict vr)
      in if canonical \<notin> set CANONICAL_VERDICTS then fallback
         else \<lparr> gv_verdict = canonical,
                gv_reasons = (if vr_reasons vr = [] then gv_reasons fallback else vr_reasons vr),
                gv_signal = or_else (vr_signal vr) (gv_signal fallback),
                gv_rich = with_text ''evaluator_name'' (vr_evaluator vr)
                            (with_text ''policy_hash'' (vr_hash vr) (vr_payload vr)) \<rparr>)"

definition fallback_with_result_attribution :: "gateway_verdict \<Rightarrow> verdict_result \<Rightarrow> gateway_verdict" where
  "fallback_with_result_attribution fallback vr =
     (if vr_hash vr = [] \<and> vr_evaluator vr = [] then fallback
      else fallback\<lparr> gv_rich := with_text ''evaluator_name'' (vr_evaluator vr)
                                  (with_text ''policy_hash'' (vr_hash vr) (gv_rich fallback)) \<rparr>)"

definition fallback_with_native_attribution ::
    "'st native_env \<Rightarrow> gateway_verdict \<Rightarrow> evaluation_input \<Rightarrow> policy_state \<Rightarrow> gateway_verdict \<times> policy_state" where
  "fallback_with_native_attribution e fallback inp ps =
     (let (answer, ps') = get_effective_policy_hash (ne_sha e) (ne_nfc e) (ne_now e) (ne_now e)
                            (Some (ei_tenant inp)) ps;
          rich = (case answer of
              Inl _ \<Rightarrow> gv_rich fallback
            | Inr h \<Rightarrow> setdefault ''policy_hash'' (Js (JStr h)) (gv_rich fallback))
      in (fallback\<lparr> gv_rich := setdefault ''evaluator_short_circuited'' (Js (JBool True))
             (setdefault ''evaluator_name'' (Js (JStr ''native'')) rich) \<rparr>, ps'))"

definition settle :: "gateway_verdict \<Rightarrow> verdict_result \<Rightarrow> gateway_verdict" where
  "settle fallback vr =
     (if vr_verdict vr = ''allow'' then fallback_with_result_attribution fallback vr
      else verdict_result_to_gateway_verdict vr fallback)"

definition emit_via_evaluator ::
    "'st native_env \<Rightarrow> evaluator option \<Rightarrow> evaluation_input \<Rightarrow> gateway_verdict \<Rightarrow> policy_state \<Rightarrow>
     gateway_verdict \<times> policy_state" where
  "emit_via_evaluator e ev inp fallback ps =
     (case ev of
        None \<Rightarrow> (fallback, ps)
      | Some Native \<Rightarrow>
          if would_short_circuit ps inp then fallback_with_native_attribution e fallback inp ps
          else (let (vr, ps') = native_evaluate e inp ps in (settle fallback vr, ps'))
      | Some (Custom name f) \<Rightarrow>
          (case f of
             None \<Rightarrow> (fallback, ps)
           | Some g \<Rightarrow> (case g inp of Inl _ \<Rightarrow> (fallback, ps) | Inr vr \<Rightarrow> (settle fallback vr, ps))))"

section \<open>The stages\<close>

text \<open>Binding the arguments of a call with keywords only: the first name that is no
parameter, else the required ones left out.\<close>

datatype binding = UnexpectedKeyword string | MissingKeywords "string list"

definition bind_keywords :: "string list \<Rightarrow> string list \<Rightarrow> string list \<Rightarrow> binding option" where
  "bind_keywords params required given =
     (case List.find (\<lambda>k. k \<notin> set params) given of
        Some k \<Rightarrow> Some (UnexpectedKeyword k)
      | None \<Rightarrow>
          let missing = filter (\<lambda>k. k \<notin> set given) required
          in if missing = [] then None else Some (MissingKeywords missing))"

definition SHOULD_REFUSE_PARAMS :: "string list" where
  "SHOULD_REFUSE_PARAMS =
     [''db'', ''tenant_id'', ''scope_key'', ''intended_cost_usd'', ''scope'', ''window'']"

definition SHOULD_REFUSE_REQUIRED :: "string list" where
  "SHOULD_REFUSE_REQUIRED = [''db'', ''tenant_id'', ''scope_key'']"

fun binding_text :: "binding \<Rightarrow> string" where
  "binding_text (UnexpectedKeyword k) =
     ''should_refuse() got an unexpected keyword argument '' @ [CHR 0x27] @ k @ [CHR 0x27]"
| "binding_text (MissingKeywords ks) = ''should_refuse() missing required arguments''"

text \<open>The texts of exceptions serve as attributes only; that of \<open>require_action\<close> is a
placeholder. A stage passes or names the rule, the candidate and the extra attributes it
dispatches; the states it changes are the counters and the principals.\<close>

datatype stage = Pass | Refused string gateway_verdict bag

definition rbac_outcome :: "policy_config \<Rightarrow> bound_principal \<Rightarrow> string \<Rightarrow> string option" where
  "rbac_outcome cfg p act =
     map_option (\<lambda>rc. normalize_legacy_verdict (rbac_evaluate rc (bp_kind p) act)) (pc_rbac cfg)"

definition rbac_stage :: "policy_config \<Rightarrow> bound_principal \<Rightarrow> string \<Rightarrow> stage" where
  "rbac_stage cfg p act =
     (if rbac_outcome cfg p act = Some ''deny''
      then Refused ''rbac'' (verdict ''deny'' [''RBAC_DENY''] ''rbac_refusal'')
             [(''rbac_outcome'', Js (JStr ''deny''))]
      else Pass)"

definition payload_stage :: "policy_config \<Rightarrow> int \<Rightarrow> stage" where
  "payload_stage cfg payload_bytes =
     (case pc_max_bytes cfg of
        None \<Rightarrow> Pass
      | Some m \<Rightarrow>
          if m < payload_bytes
          then Refused ''payload_caps'' (verdict ''deny'' [''PAYLOAD_TOO_LARGE''] ''payload_too_large'')
                 [(''payload_max_bytes'', Js (JInt m))]
          else Pass)"

definition rate_stage ::
    "'st pipeline_env \<Rightarrow> ident \<Rightarrow> bound_principal \<Rightarrow> policy_config \<Rightarrow> 'st pipeline_state \<Rightarrow>
     stage \<times> 'st pipeline_state" where
  "rate_stage e t p cfg s =
     (case pc_rate_limit cfg of
        None \<Rightarrow> (Pass, s)
      | Some rl \<Rightarrow>
          (let (r, st', tab') = check_rate (pe_store e) (ne_sha (pe_native e)) (pe_hook e) (pe_rbac e) t
                 (bp_kind p) (bp_id p) (rl_rpm rl) (rl_interval rl) ''rate_limit''
                 (ps_store s, ps_principals s);
               s' = s\<lparr> ps_store := st', ps_principals := tab' \<rparr>
           in (case r of
                 Inl exc \<Rightarrow> (Refused ''rate_limit_error''
                   (verdict ''deny'' [''RATE_LIMIT_ERROR''] ''rate_limit_exceeded'')
                   [(''primitive_error'', Js (JStr exc))], s')
               | Inr ok \<Rightarrow>
                   if ok then (Pass, s')
                   else (Refused ''rate_limit'' (verdict ''deny'' [''RATE_LIMIT''] ''rate_limit_exceeded'') [], s'))))"

text \<open>The call names a parameter the function does not have, so binding it raises; were it
to bind, its result is a record and never equal to the text \<open>refuse\<close>.\<close>

definition budget_stage :: "policy_config \<Rightarrow> stage" where
  "budget_stage cfg =
     (case pc_budget cfg of
        Some (Some daily_usd) \<Rightarrow>
          (case bind_keywords SHOULD_REFUSE_PARAMS SHOULD_REFUSE_REQUIRED [''db'', ''tenant_id'', ''daily_cap_usd''] of
             Some b \<Rightarrow> Refused ''budget_error'' (verdict ''deny'' [''BUDGET_ERROR''] ''budget_error'')
                         [(''primitive_error'', Js (JStr (binding_text b)))]
           | None \<Rightarrow> Pass)
      | _ \<Rightarrow> Pass)"

definition access_stage ::
    "'st pipeline_env \<Rightarrow> ident \<Rightarrow> bound_principal \<Rightarrow> string \<Rightarrow> policy_config \<Rightarrow> 'st pipeline_state \<Rightarrow>
     stage \<times> 'st pipeline_state" where
  "access_stage e t p act cfg s =
     (let mt = (if pc_min_trust cfg = 0 then NoGate else Gate (pc_min_trust cfg));
          (r, tab') = require_action (pe_rbac e) (ps_principals s) t (bp_kind p) (bp_id p) act None mt;
          s' = s\<lparr> ps_principals := tab' \<rparr>
      in (case r of
            Inr _ \<Rightarrow> (Pass, s')
          | Inl AccessDeniedError \<Rightarrow>
              (Refused ''min_trust''
                 (verdict ''deny'' [''MIN_TRUST_NOT_MET'', ''RBAC_GRANT_DENIED''] ''governance_block'')
                 [(''min_trust'', Js (JInt (pc_min_trust cfg)))], s')
          | Inl err \<Rightarrow>
              (Refused ''min_trust_error''
                 (verdict ''deny'' [''MIN_TRUST_ERROR'', ''RBAC_GRANT_ERROR''] ''governance_block'')
                 [(''primitive_error'', Js (JStr ''require_action raised''))], s')))"

text \<open>The stages in their order; a later one runs only when the earlier ones pass.\<close>

definition run_stages ::
    "'st pipeline_env \<Rightarrow> ident \<Rightarrow> bound_principal \<Rightarrow> string \<Rightarrow> int \<Rightarrow> policy_config \<Rightarrow> 'st pipeline_state \<Rightarrow>
     stage \<times> 'st pipeline_state" where
  "run_stages e t p act payload_bytes cfg s =
     (case rbac_stage cfg p act of
        Refused r v x \<Rightarrow> (Refused r v x, s)
      | Pass \<Rightarrow>
        (case payload_stage cfg payload_bytes of
           Refused r v x \<Rightarrow> (Refused r v x, s)
         | Pass \<Rightarrow>
           (case rate_stage e t p cfg s of
              (Refused r v x, s') \<Rightarrow> (Refused r v x, s')
            | (Pass, s') \<Rightarrow>
              (case budget_stage cfg of
                 Refused r v x \<Rightarrow> (Refused r v x, s')
               | Pass \<Rightarrow> access_stage e t p act cfg s'))))"

definition candidate :: "policy_config \<Rightarrow> bound_principal \<Rightarrow> string \<Rightarrow> stage \<Rightarrow> string \<times> gateway_verdict \<times> bag" where
  "candidate cfg p act outcome =
     (case outcome of
        Refused r v x \<Rightarrow> (r, v, x)
      | Pass \<Rightarrow>
          if rbac_outcome cfg p act = Some ''flag_for_review''
          then (''flag_for_review'', verdict ''flag_for_review'' [''REQUIRES_HUMAN''] ''governance_block'', [])
          else (''default_allow'', verdict ''allow'' [] ''clean_invocation'', []))"

definition evaluate ::
    "'st pipeline_env \<Rightarrow> ident \<Rightarrow> bound_principal \<Rightarrow> string \<Rightarrow> int \<Rightarrow> int option \<Rightarrow> policy_config \<Rightarrow> jobj \<Rightarrow>
     'st pipeline_state \<Rightarrow> gateway_verdict \<times> 'st pipeline_state" where
  "evaluate e t p act payload_bytes iid cfg args s =
     (let (outcome, s') = run_stages e t p act payload_bytes cfg s;
          (rule, cand, extra) = candidate cfg p act outcome;
          inp = build_eval_input t p act payload_bytes iid rule cand extra args;
          (v, pol) = emit_via_evaluator ((pe_native e)\<lparr> ne_counters := ps_store s' \<rparr>)
             (resolve_evaluator (pe_evaluators e) (pc_evaluator cfg)) inp cand (ps_policy s')
      in (v, s'\<lparr> ps_policy := pol \<rparr>))"

end
