(* ===== verification/PipelineFacts.thy ===== *)
theory PipelineFacts
  imports Pipeline
begin

text \<open>
  What the shipped evaluator can and cannot decide, and what the gateway's decision
  stack guarantees with it and with any other evaluator.
\<close>

section \<open>The native evaluator\<close>

lemma known_scopes_set [simp]: "set (known_scopes reg) = fst ` set reg"
  by (simp add: known_scopes_def)

lemma compute_policy_hash_state:
  "ps_scopes (snd (compute_policy_hash e t ps)) = ps_scopes ps \<and> ps_refs (snd (compute_policy_hash e t ps)) = ps_refs ps
   \<and> ps_tables (snd (compute_policy_hash e t ps)) = ps_tables ps \<and> ps_weights (snd (compute_policy_hash e t ps)) = ps_weights ps"
  by (simp add: compute_policy_hash_def get_effective_policy_hash_def store_hash_def Let_def
      split: option.split sum.split prod.split)

lemma rules_same_policy:
  assumes "ps_scopes ps' = ps_scopes ps" "ps_weights ps' = ps_weights ps"
  shows "native_rules e ps' inp = native_rules e ps inp"
proof -
  have "check_tenant_weight e ps' inp = check_tenant_weight e ps inp"
    using assms by (simp add: check_tenant_weight_def)
  then show ?thesis by (simp only: native_rules_def)
qed

lemma native_evaluate_verdict:
  "fst (native_evaluate e inp ps) =
     (case native_rules e ps inp of
        Inr r \<Rightarrow> r\<lparr> vr_hash := fst (compute_policy_hash e (ei_tenant inp) ps), vr_evaluator := ''native'' \<rparr>
      | Inl exc \<Rightarrow>
          \<lparr> vr_verdict = ''deny'', vr_reasons = [''evaluator_error'', ''int too large to convert to float''],
            vr_payload = [(''exception_type'', Js (JStr exc))],
            vr_hash = fst (compute_policy_hash e (ei_tenant inp) ps),
            vr_evaluator = ''native'', vr_signal = Some ''governance_block'' \<rparr>)"
proof -
  obtain h ps' where c: "compute_policy_hash e (ei_tenant inp) ps = (h, ps')"
    by (cases "compute_policy_hash e (ei_tenant inp) ps")
  have "native_rules e ps' inp = native_rules e ps inp"
    using compute_policy_hash_state [of e "ei_tenant inp" ps] c by (intro rules_same_policy) auto
  then show ?thesis by (simp add: native_evaluate_def c split: sum.split)
qed

lemma budget_refusal_deny: "budget_refusal d = Some r \<Longrightarrow> vr_verdict r = ''deny''"
  by (auto simp: budget_refusal_def rule_result_def split: if_splits)

lemma check_budget_deny: "check_budget e inp = Inr (Some r) \<Longrightarrow> vr_verdict r = ''deny''"
  by (auto simp: check_budget_def dest: budget_refusal_deny
      split: option.splits float_result.splits if_splits prod.splits)

lemma check_weight_deny: "check_tenant_weight e ps inp = Some r \<Longrightarrow> vr_verdict r = ''deny''"
  by (auto simp: check_tenant_weight_def rule_result_def split: option.splits sum.splits if_splits)

lemma check_restricted_deny: "check_restricted_data inp = Some r \<Longrightarrow> vr_verdict r = ''deny''"
  by (auto simp: check_restricted_data_def rule_result_def split: if_splits)

lemma native_rules_verdict:
  "native_rules e ps inp = Inr r \<Longrightarrow> vr_verdict r = ''deny'' \<or> r = default_allow"
  by (auto simp: native_rules_def option_or_def
      dest: check_budget_deny check_weight_deny check_restricted_deny split: sum.splits option.splits)

lemma default_allow_verdict [simp]: "vr_verdict default_allow = ''allow''"
  by (simp add: default_allow_def rule_result_def)

lemma native_verdicts: "vr_verdict (fst (native_evaluate e inp ps)) \<in> {''allow'', ''deny''}"
  by (cases "native_rules e ps inp") (auto simp: native_evaluate_verdict dest: native_rules_verdict)

lemma short_circuit_rules:
  "would_short_circuit ps inp \<Longrightarrow> native_rules e ps inp = Inr default_allow"
  by (auto simp: would_short_circuit_def native_rules_def check_budget_def check_tenant_weight_def
      check_restricted_data_def split: if_splits option.splits)

section \<open>The stack\<close>

lemma update_bag_get: "map_of (update_bag new b) k = option_or (map_of (rev new) k) (map_of b k)"
proof (induction new arbitrary: b)
  case (Cons kv new)
  then show ?case
    by (cases kv) (auto simp: update_bag_def update_conv' map_add_def option_or_def split: option.splits)
qed (simp add: update_bag_def)

lemma tool_input_keys:
  "map_of (rev (tool_inputs args)) ''estimated_cost_usd'' = None"
  "map_of (rev (tool_inputs args)) ''data_classification'' = None"
  by (induction args) (auto simp: tool_inputs_def map_add_def)

lemma gateway_attributes:
  assumes "map_of (rev extra) ''estimated_cost_usd'' = None" "map_of (rev extra) ''data_classification'' = None"
  shows "map_of (ei_attributes (build_eval_input t p act n iid rule cand extra args)) ''estimated_cost_usd'' = None"
    and "map_of (ei_attributes (build_eval_input t p act n iid rule cand extra args)) ''data_classification'' = None"
  using assms by (simp_all add: build_eval_input_def Let_def update_bag_get tool_input_keys)

lemma normalize_allow: "normalize_legacy_verdict v = ''allow'' \<longleftrightarrow> v = ''allow''"
  by (simp add: normalize_legacy_verdict_def LEGACY_VERDICT_ALIASES_def)

lemma settle_allow: "gv_verdict (settle fallback vr) = ''allow'' \<Longrightarrow> gv_verdict fallback = ''allow''"
  by (auto simp: settle_def fallback_with_result_attribution_def verdict_result_to_gateway_verdict_def Let_def
      normalize_allow split: if_splits)

lemma settle_cases:
  "vr_verdict vr \<in> {''allow'', ''deny''} \<Longrightarrow>
     gv_verdict (settle fallback vr) = (if vr_verdict vr = ''allow'' then gv_verdict fallback else ''deny'')"
  by (auto simp: settle_def fallback_with_result_attribution_def verdict_result_to_gateway_verdict_def Let_def
      normalize_legacy_verdict_def LEGACY_VERDICT_ALIASES_def CANONICAL_VERDICTS_def)

lemma native_attribution_verdict:
  "gv_verdict (fst (fallback_with_native_attribution e fallback inp ps)) = gv_verdict fallback
   \<and> gv_reasons (fst (fallback_with_native_attribution e fallback inp ps)) = gv_reasons fallback"
  by (simp add: fallback_with_native_attribution_def Let_def split: prod.split)

lemma emit_allow:
  "gv_verdict (fst (emit_via_evaluator e ev inp fallback ps)) = ''allow'' \<Longrightarrow> gv_verdict fallback = ''allow''"
  using native_attribution_verdict [of e fallback inp ps]
  by (auto simp: emit_via_evaluator_def dest: settle_allow
      split: option.splits evaluator.splits if_splits sum.splits prod.splits)

lemma emit_native:
  "gv_verdict (fst (emit_via_evaluator e (Some Native) inp fallback ps)) =
     (if native_rules e ps inp = Inr default_allow then gv_verdict fallback else ''deny'')"
proof (cases "would_short_circuit ps inp")
  case True
  then show ?thesis
    using short_circuit_rules [OF True, of e]
    by (simp add: emit_via_evaluator_def native_attribution_verdict)
next
  case False
  obtain vr ps' where n: "native_evaluate e inp ps = (vr, ps')" by (cases "native_evaluate e inp ps")
  have "vr_verdict vr = (if native_rules e ps inp = Inr default_allow then ''allow'' else ''deny'')"
    using native_evaluate_verdict [of e inp ps] native_rules_verdict [of e ps inp] n
    by (auto split: sum.splits)
  with False n show ?thesis
    by (simp add: emit_via_evaluator_def settle_cases)
qed

lemma access_pass:
  "fst (access_stage e t p act cfg s) = Pass \<longleftrightarrow>
     is_ok (fst (require_action (pe_rbac e) (ps_principals s) t (bp_kind p) (bp_id p) act None
       (if pc_min_trust cfg = 0 then NoGate else Gate (pc_min_trust cfg))))"
  by (simp add: access_stage_def Let_def split: prod.split sum.split rbac_error.split)

lemma budget_pass: "budget_stage cfg = Pass \<longleftrightarrow> (\<forall>d. pc_budget cfg \<noteq> Some (Some d))"
  by (auto simp: budget_stage_def bind_keywords_def SHOULD_REFUSE_PARAMS_def SHOULD_REFUSE_REQUIRED_def Let_def
      split: option.split)

lemma run_stages_pass:
  "fst (run_stages e t p act n cfg s) = Pass \<longleftrightarrow>
     rbac_stage cfg p act = Pass \<and> payload_stage cfg n = Pass \<and> fst (rate_stage e t p cfg s) = Pass
     \<and> budget_stage cfg = Pass \<and> fst (access_stage e t p act cfg (snd (rate_stage e t p cfg s))) = Pass"
  by (simp add: run_stages_def split: stage.split prod.split)

lemmas stage_defs = rbac_stage_def payload_stage_def rate_stage_def budget_stage_def access_stage_def

text \<open>A refusal carries a \<open>deny\<close> and no attribute the native evaluator looks at.\<close>

definition plain_denial :: "stage \<Rightarrow> bool" where
  "plain_denial st =
     (case st of Pass \<Rightarrow> True
      | Refused r v x \<Rightarrow> gv_verdict v = ''deny'' \<and> map_of (rev x) ''estimated_cost_usd'' = None
          \<and> map_of (rev x) ''data_classification'' = None)"

lemma plain_stages:
  "plain_denial (rbac_stage cfg p act)" "plain_denial (payload_stage cfg n)" "plain_denial (budget_stage cfg)"
  "plain_denial (fst (rate_stage e t p cfg s))" "plain_denial (fst (access_stage e t p act cfg s))"
  by (simp_all add: plain_denial_def stage_defs verdict_def Let_def
      split: option.split prod.split sum.split rbac_error.split)

lemma plain_run_stages: "plain_denial (fst (run_stages e t p act n cfg s))"
  using plain_stages(1,2,3)
    plain_stages(4) [of e t p cfg s] plain_stages(5) [of e t p act cfg "snd (rate_stage e t p cfg s)"]
  by (cases "rbac_stage cfg p act"; cases "payload_stage cfg n"; cases "rate_stage e t p cfg s";
      cases "fst (rate_stage e t p cfg s)"; cases "budget_stage cfg")
     (simp_all add: run_stages_def, (metis fst_conv)+)?

lemma refused_shape:
  assumes "fst (run_stages e t p act n cfg s) = Refused r v x"
  shows "gv_verdict v = ''deny'' \<and> map_of (rev x) ''estimated_cost_usd'' = None
    \<and> map_of (rev x) ''data_classification'' = None"
  using plain_run_stages [of e t p act n cfg s] assms by (simp add: plain_denial_def)

lemma candidate_shape:
  assumes "candidate cfg p act (fst (run_stages e t p act n cfg s)) = (rule, cand, extra)"
  shows "map_of (rev extra) ''estimated_cost_usd'' = None \<and> map_of (rev extra) ''data_classification'' = None
    \<and> gv_verdict cand = (case fst (run_stages e t p act n cfg s) of
        Refused r v x \<Rightarrow> ''deny''
      | Pass \<Rightarrow> if rbac_outcome cfg p act = Some ''flag_for_review'' then ''flag_for_review'' else ''allow'')"
  using assms refused_shape [of e t p act n cfg s]
  by (auto simp: candidate_def verdict_def split: stage.splits if_splits)

section \<open>Verdicts of the stack\<close>

lemma evaluate_unfold:
  assumes "candidate cfg p act (fst (run_stages e t p act n cfg s)) = (rule, cand, extra)"
  shows "fst (evaluate e t p act n iid cfg args s) =
    fst (emit_via_evaluator ((pe_native e)\<lparr> ne_counters := ps_store (snd (run_stages e t p act n cfg s)) \<rparr>)
      (resolve_evaluator (pe_evaluators e) (pc_evaluator cfg))
      (build_eval_input t p act n iid rule cand extra args) cand
      (ps_policy (snd (run_stages e t p act n cfg s))))"
  using assms by (auto simp: evaluate_def Let_def split: prod.split)

lemma evaluate_allow:
  assumes "gv_verdict (fst (evaluate e t p act n iid cfg args s)) = ''allow''"
  shows "fst (run_stages e t p act n cfg s) = Pass \<and> rbac_outcome cfg p act \<noteq> Some ''flag_for_review''"
proof -
  obtain rule cand extra
    where c: "candidate cfg p act (fst (run_stages e t p act n cfg s)) = (rule, cand, extra)"
    by (metis prod_cases3)
  have "gv_verdict cand = ''allow''"
    using assms emit_allow by (auto simp: evaluate_unfold [OF c])
  then show ?thesis
    using candidate_shape [OF c] by (auto split: stage.splits if_splits)
qed

lemma stages_keep_policy: "ps_policy (snd (run_stages e t p act n cfg s)) = ps_policy s"
proof -
  have "ps_policy (snd (rate_stage e t p cfg s)) = ps_policy s"
    by (simp add: rate_stage_def Let_def split: option.split prod.split sum.split)
  moreover have "ps_policy (snd (access_stage e t p act cfg s')) = ps_policy s'" for s'
    by (simp add: access_stage_def Let_def split: prod.split sum.split rbac_error.split)
  ultimately show ?thesis
    by (cases "rate_stage e t p cfg s") (simp add: run_stages_def split: stage.split)
qed

definition without_evaluators :: "'st pipeline_env \<Rightarrow> 'st pipeline_env" where
  "without_evaluators e = e\<lparr> pe_evaluators := [] \<rparr>"

lemma run_stages_without: "run_stages (without_evaluators e) t p act n cfg s = run_stages e t p act n cfg s"
proof -
  have same: "pe_store (without_evaluators e) = pe_store e" "pe_native (without_evaluators e) = pe_native e"
    "pe_hook (without_evaluators e) = pe_hook e" "pe_rbac (without_evaluators e) = pe_rbac e"
    by (simp_all add: without_evaluators_def)
  show ?thesis unfolding run_stages_def rate_stage_def access_stage_def same by (rule refl)
qed

lemma evaluate_without:
  assumes "candidate cfg p act (fst (run_stages e t p act n cfg s)) = (rule, cand, extra)"
  shows "fst (evaluate (without_evaluators e) t p act n iid cfg args s) = cand"
proof -
  have "candidate cfg p act (fst (run_stages (without_evaluators e) t p act n cfg s)) = (rule, cand, extra)"
    using assms by (simp add: run_stages_without)
  from evaluate_unfold [OF this] show ?thesis
    by (simp add: emit_via_evaluator_def without_evaluators_def resolve_evaluator_def get_evaluator_def)
qed

text \<open>On a gateway input only the weight rule of the native evaluator can fire.\<close>

lemma gateway_rules:
  fixes iid args
  assumes "candidate cfg p act (fst (run_stages e t p act n cfg s)) = (rule, cand, extra)"
  defines "inp \<equiv> build_eval_input t p act n iid rule cand extra args"
  shows "native_rules e' ps inp =
    (case check_tenant_weight e' ps inp of None \<Rightarrow> Inr default_allow | Some r \<Rightarrow> Inr r)"
    and "would_short_circuit ps inp \<longleftrightarrow> act \<notin> set (known_scopes (ps_scopes ps))"
  using candidate_shape [OF assms(1)] gateway_attributes [of extra t p act n iid rule cand args]
  by (simp_all add: inp_def native_rules_def check_budget_def check_restricted_data_def would_short_circuit_def
      build_eval_input_def Let_def)

section \<open>Patterns\<close>

lemma ends_with_append: "ends_with s p \<longleftrightarrow> (\<exists>q. s = q @ p)"
  by (auto simp: ends_with_def) (metis append_take_drop_id)

lemma starts_with_prefix: "starts_with s p \<longleftrightarrow> prefix p s"
  unfolding starts_with_def prefix_def by (metis append_eq_conv_conj)

lemma wildcard_pattern:
  "ends_with p ''.*'' \<and> starts_with act (butlast p) \<longleftrightarrow> (\<exists>q. p = q @ ''.*'' \<and> prefix (q @ ''.'') act)"
  by (auto simp: ends_with_append starts_with_prefix butlast_append)

lemma action_matches_iff:
  "action_matches act ps \<longleftrightarrow>
     act \<in> set ps \<or> ''*'' \<in> set ps \<or> (\<exists>q. q @ ''.*'' \<in> set ps \<and> prefix (q @ ''.'') act)"
  by (induction ps) (auto simp: wildcard_pattern)

lemma first_rule_find:
  "first_rule kind act rs =
     map_option rr_verdict (List.find (\<lambda>r. rr_kind r = kind \<and> action_matches act (rr_actions r)) rs)"
  by (induction rs) auto

section \<open>A sample gateway\<close>

definition sample_native :: "unit native_env" where
  "sample_native =
     \<lparr> ne_session = True, ne_weights_ok = True, ne_budget_ok = True, ne_budget_rows_ok = True,
       ne_budgets = \<lparr> bd_rows = [], bd_changes = [] \<rparr>, ne_forecaster = linear_forecast, ne_store = None,
       ne_counters = (), ne_now = 0, ne_sha = id, ne_nfc = id, ne_float_text = (\<lambda>s. None) \<rparr>"

definition sample_rbac :: rbac_env where
  "sample_rbac = \<lparr> re_grants = [], re_kinds = [], re_db_ok = True, re_trust_ok = True, re_commits = [],
     re_mode = None, re_now = 0 \<rparr>"

definition sample_pipeline :: "unit pipeline_env" where
  "sample_pipeline = \<lparr> pe_native = sample_native, pe_rbac = sample_rbac, pe_hook = None,
     pe_evaluators = [(''native'', Native)], pe_store = None \<rparr>"

definition sample_stack_state :: "unit pipeline_state" where
  "sample_stack_state = \<lparr> ps_store = (), ps_principals = [], ps_policy = fresh_policy \<rparr>"

definition open_policy :: policy_config where
  "open_policy = \<lparr> pc_min_trust = 0, pc_rate_limit = None, pc_max_bytes = None, pc_budget = None,
     pc_rbac = None, pc_evaluator = ''native'' \<rparr>"

definition sample_principal :: bound_principal where
  "sample_principal = \<lparr> bp_kind = ''agent'', bp_id = ''a1'', bp_method = ''did'', bp_subject = Some ''a1'',
     bp_issuer = None \<rparr>"

lemmas sample_gateway_defs = sample_native_def sample_rbac_def sample_pipeline_def sample_stack_state_def
  open_policy_def sample_principal_def fresh_policy_def sample_registry_def ps_scopes_def live_registry_def module_table_def

lemma sample_action [simp]: "is_valid_action ''mcp.fs.read''"
  by (simp add: is_valid_action_def ACTIONS_def mcp_action_re_def action_segment_def seg_first_def seg_rest_def
      char_class_defs starts_with_def)

lemma sample_access:
  "require_action sample_rbac [] t k i ''mcp.fs.read'' None NoGate = (Inr True, [])"
proof -
  have "active_rbac_mode None = ''off''"
    by (simp add: active_rbac_mode_def DEFAULT_RBAC_MODE_def RBAC_MODES_def Let_def py)
  then show ?thesis
    by (simp add: require_action_def grant_gate_def trust_gate_def sample_rbac_def)
qed

lemma sample_stages:
  "run_stages sample_pipeline ''t'' p ''mcp.fs.read'' n open_policy sample_stack_state
     = (Pass, sample_stack_state)"
  using sample_access
  by (simp add: run_stages_def stage_defs rbac_outcome_def sample_pipeline_def sample_stack_state_def
      open_policy_def)

lemma sample_allowed:
  "gv_verdict (fst (evaluate sample_pipeline ''t'' p ''mcp.fs.read'' n iid open_policy args
     sample_stack_state)) = ''allow''"
proof -
  have c: "candidate open_policy p ''mcp.fs.read''
      (fst (run_stages sample_pipeline ''t'' p ''mcp.fs.read'' n open_policy sample_stack_state))
    = (''default_allow'', verdict ''allow'' [] ''clean_invocation'', [])"
    by (simp add: sample_stages candidate_def rbac_outcome_def) (simp add: open_policy_def)
  have "resolve_evaluator (pe_evaluators sample_pipeline) (pc_evaluator open_policy) = Some Native"
    and "''mcp.fs.read'' \<notin> set (known_scopes (ps_scopes (ps_policy sample_stack_state)))"
    by (simp_all add: sample_gateway_defs resolve_evaluator_def get_evaluator_def)
  then show ?thesis
    using gateway_rules(2) [OF c]
    by (simp add: evaluate_unfold [OF c] emit_via_evaluator_def sample_stages native_attribution_verdict verdict_def)
qed

section \<open>Properties\<close>

lemma allow_earned:
  assumes "gv_verdict (fst (evaluate e t p act n iid cfg args s)) = ''allow''"
  shows "rbac_outcome cfg p act \<notin> {Some ''deny'', Some ''flag_for_review''}
    \<and> (\<forall>m. pc_max_bytes cfg = Some m \<longrightarrow> n \<le> m)
    \<and> fst (rate_stage e t p cfg s) = Pass
    \<and> (\<forall>d. pc_budget cfg \<noteq> Some (Some d))
    \<and> is_valid_action act
    \<and> is_ok (fst (require_action (pe_rbac e) (ps_principals (snd (rate_stage e t p cfg s))) t (bp_kind p)
          (bp_id p) act None (if pc_min_trust cfg = 0 then NoGate else Gate (pc_min_trust cfg))))"
proof -
  from evaluate_allow [OF assms] have r: "fst (run_stages e t p act n cfg s) = Pass"
    and h: "rbac_outcome cfg p act \<noteq> Some ''flag_for_review''" by blast+
  note parts = r [unfolded run_stages_pass access_pass budget_pass]
  have "rbac_outcome cfg p act \<noteq> Some ''deny''"
    using parts by (auto simp: rbac_stage_def split: if_splits)
  moreover have "n \<le> m" if "pc_max_bytes cfg = Some m" for m
    using parts that by (auto simp: payload_stage_def split: if_splits)
  moreover have "is_valid_action act"
    using parts by (auto simp: require_action_def split: if_splits)
  ultimately show ?thesis using parts h by blast
qed

text \<open>Whatever evaluator is configured, the gateway says \<open>allow\<close> only when every
stage has passed: no rule denies or asks for a human, the payload fits, the limiter
admits the call, no daily cap is configured, and the action is well-formed and passes
the grants and the trust gate on the table the limiter leaves.\<close>

theorem gateway_allow_is_earned:
  assumes "gv_verdict (fst (evaluate e t p act n iid cfg args s)) = ''allow''"
  shows "rbac_outcome cfg p act \<notin> {Some ''deny'', Some ''flag_for_review''}
    \<and> (\<forall>m. pc_max_bytes cfg = Some m \<longrightarrow> n \<le> m)
    \<and> fst (rate_stage e t p cfg s) = Pass
    \<and> (\<forall>d. pc_budget cfg \<noteq> Some (Some d))
    \<and> is_valid_action act
    \<and> is_ok (fst (require_action (pe_rbac e) (ps_principals (snd (rate_stage e t p cfg s))) t (bp_kind p)
          (bp_id p) act None (if pc_min_trust cfg = 0 then NoGate else Gate (pc_min_trust cfg))))"
  using assms by (rule allow_earned)

theorem gateway_allow_is_earned_witness:
  "fst (rate_stage sample_pipeline ''t'' sample_principal open_policy sample_stack_state) = Pass
   \<and> is_valid_action ''mcp.fs.read''"
  using gateway_allow_is_earned [OF sample_allowed] by blast

text \<open>A daily cap in the gateway's configuration refuses every call: the stage calls
the budget predicate with a parameter it does not have. The amount and the spend play
no part; when the earlier stages pass, the shipped evaluator leaves the reason as
\<open>BUDGET_ERROR\<close>.\<close>

theorem daily_cap_denies_everything:
  assumes "pc_budget cfg = Some (Some daily_usd)"
  shows "gv_verdict (fst (evaluate e t p act n iid cfg args s)) \<noteq> ''allow''
    \<and> (rbac_stage cfg p act = Pass \<and> payload_stage cfg n = Pass \<and> fst (rate_stage e t p cfg s) = Pass
        \<and> resolve_evaluator (pe_evaluators e) (pc_evaluator cfg) = Some Native
        \<and> act \<notin> set (known_scopes (ps_scopes (ps_policy s)))
      \<longrightarrow> gv_verdict (fst (evaluate e t p act n iid cfg args s)) = ''deny''
        \<and> gv_reasons (fst (evaluate e t p act n iid cfg args s)) = [''BUDGET_ERROR''])"
proof -
  have "\<not> (\<forall>d. pc_budget cfg \<noteq> Some (Some d))" using assms by blast
  then have "gv_verdict (fst (evaluate e t p act n iid cfg args s)) \<noteq> ''allow''"
    using allow_earned by metis
  moreover have "gv_verdict (fst (evaluate e t p act n iid cfg args s)) = ''deny''
      \<and> gv_reasons (fst (evaluate e t p act n iid cfg args s)) = [''BUDGET_ERROR'']"
    if pass: "rbac_stage cfg p act = Pass" "payload_stage cfg n = Pass" "fst (rate_stage e t p cfg s) = Pass"
      and nat: "resolve_evaluator (pe_evaluators e) (pc_evaluator cfg) = Some Native"
      and scope: "act \<notin> set (known_scopes (ps_scopes (ps_policy s)))"
  proof -
    obtain x where "budget_stage cfg = Refused ''budget_error'' (verdict ''deny'' [''BUDGET_ERROR''] ''budget_error'') x"
      using assms by (simp add: budget_stage_def bind_keywords_def SHOULD_REFUSE_PARAMS_def)
    with pass have "fst (run_stages e t p act n cfg s)
        = Refused ''budget_error'' (verdict ''deny'' [''BUDGET_ERROR''] ''budget_error'') x"
      by (cases "rate_stage e t p cfg s") (simp add: run_stages_def)
    then have c: "candidate cfg p act (fst (run_stages e t p act n cfg s))
        = (''budget_error'', verdict ''deny'' [''BUDGET_ERROR''] ''budget_error'', x)"
      by (simp add: candidate_def)
    show ?thesis
      using gateway_rules(2) [OF c] scope
      by (simp add: evaluate_unfold [OF c] nat emit_via_evaluator_def stages_keep_policy native_attribution_verdict)
         (simp add: verdict_def)
  qed
  ultimately show ?thesis by blast
qed

theorem daily_cap_denies_everything_witness:
  "gv_reasons (fst (evaluate sample_pipeline ''t'' sample_principal ''mcp.fs.read'' 10 None
     (open_policy\<lparr> pc_budget := Some (Some 1000000) \<rparr>) [] sample_stack_state)) = [''BUDGET_ERROR'']"
  using daily_cap_denies_everything [of "open_policy\<lparr> pc_budget := Some (Some 1000000) \<rparr>" 1000000
      sample_pipeline "''t''" sample_principal "''mcp.fs.read''" 10 None "[]" sample_stack_state]
  by (simp add: stage_defs rbac_outcome_def sample_gateway_defs resolve_evaluator_def get_evaluator_def)

text \<open>The shipped evaluator only adds refusals, and in the gateway only one of its
rules can: the verdict is the stack's own unless the action is a registered weight
scope in which the principal's kind weighs 100 or more, and then it is \<open>deny\<close>.\<close>

theorem native_evaluator_only_tightens:
  assumes "resolve_evaluator (pe_evaluators e) (pc_evaluator cfg) = Some Native"
    and "get_effective_weights (ps_scopes (ps_policy s)) (ps_weights (ps_policy s)) act (Some t) = r"
  shows "gv_verdict (fst (evaluate e t p act n iid cfg args s)) =
    (if ne_session (pe_native e) \<and> ne_weights_ok (pe_native e)
        \<and> (case r of Inl err \<Rightarrow> False
           | Inr w \<Rightarrow> (case map_of w (bp_kind p) of None \<Rightarrow> False | Some v \<Rightarrow> 100 \<le> v))
     then ''deny''
     else gv_verdict (fst (evaluate (without_evaluators e) t p act n iid cfg args s)))"
proof -
  obtain rule cand extra
    where c: "candidate cfg p act (fst (run_stages e t p act n cfg s)) = (rule, cand, extra)"
    by (metis prod_cases3)
  let ?e = "(pe_native e)\<lparr> ne_counters := ps_store (snd (run_stages e t p act n cfg s)) \<rparr>"
  let ?inp = "build_eval_input t p act n iid rule cand extra args"
  let ?fires = "ne_session (pe_native e) \<and> ne_weights_ok (pe_native e)
        \<and> (case r of Inl err \<Rightarrow> False
           | Inr w \<Rightarrow> (case map_of w (bp_kind p) of None \<Rightarrow> False | Some v \<Rightarrow> 100 \<le> v))"
  have scope: "act \<in> set (known_scopes (ps_scopes (ps_policy s)))" if "r = Inr w" for w
    using assms(2) that
    by (auto simp: get_effective_weights_def split: option.splits dest: map_of_SomeD intro: rev_image_eqI)
  have "check_tenant_weight ?e (ps_policy s) ?inp = None \<longleftrightarrow> \<not> ?fires"
    using assms(2) scope
    by (auto simp: check_tenant_weight_def build_eval_input_def Let_def HARD_DENY_WEIGHT_THRESHOLD_def
        split: sum.splits option.splits)
  then have "native_rules ?e (ps_policy s) ?inp = Inr default_allow \<longleftrightarrow> \<not> ?fires"
    using gateway_rules(1) [OF c, of ?e "ps_policy s" iid args]
      check_weight_deny [of ?e "ps_policy s" ?inp default_allow]
    by (cases "check_tenant_weight ?e (ps_policy s) ?inp") auto
  then show ?thesis
    by (simp add: evaluate_unfold [OF c] evaluate_without [OF c] assms(1) emit_native stages_keep_policy)
qed

theorem native_evaluator_only_tightens_witness:
  "gv_verdict (fst (evaluate sample_pipeline ''t'' sample_principal ''mcp.fs.read'' 10 None open_policy []
      (sample_stack_state\<lparr> ps_policy := fresh_policy\<lparr> ps_refs := [(''mcp.fs.read'', ''m'')], ps_tables := [(''m'', [(''agent'', 100)])] \<rparr> \<rparr>)))
    = ''deny''"
  using native_evaluator_only_tightens [of sample_pipeline open_policy
      "sample_stack_state\<lparr> ps_policy := fresh_policy\<lparr> ps_refs := [(''mcp.fs.read'', ''m'')], ps_tables := [(''m'', [(''agent'', 100)])] \<rparr> \<rparr>"
      "''mcp.fs.read''" "''t''" "Inr [(''agent'', 100)]" sample_principal 10 None "[]"]
  by (simp add: sample_gateway_defs resolve_evaluator_def get_evaluator_def get_effective_weights_def layer_def
      overlay_def empty_weights_def Let_def)

text \<open>Skipping the shipped evaluator is sound: whenever it says that none of its rules
can fire, running it would have allowed with the default reason, in every database
state, and left the policy as it is.\<close>

theorem short_circuit_sound:
  assumes "would_short_circuit ps inp"
  shows "vr_verdict (fst (native_evaluate e inp ps)) = ''allow''
    \<and> vr_reasons (fst (native_evaluate e inp ps)) = [''policy_default_allow'']
    \<and> without_cache (snd (native_evaluate e inp ps)) = without_cache ps"
proof -
  have "without_cache (snd (native_evaluate e inp ps)) = without_cache ps"
    using compute_policy_hash_state [of e "ei_tenant inp" ps]
    by (auto simp: native_evaluate_def without_cache_def split: prod.split)
  then show ?thesis
    using short_circuit_rules [OF assms, of e]
    by (simp add: native_evaluate_verdict default_allow_def rule_result_def)
qed

theorem short_circuit_sound_witness:
  "vr_verdict (fst (native_evaluate sample_native
     \<lparr> ei_tenant = ''t'', ei_kind = ''agent'', ei_principal = ''a1'', ei_action = ''mcp.fs.read'',
       ei_attributes = [] \<rparr> fresh_policy)) = ''allow''"
  using short_circuit_sound [of fresh_policy
     "\<lparr> ei_tenant = ''t'', ei_kind = ''agent'', ei_principal = ''a1'', ei_action = ''mcp.fs.read'',
       ei_attributes = [] \<rparr>" sample_native, THEN conjunct1]
  by (simp add: would_short_circuit_def sample_registry_def)

text \<open>C10. The shipped evaluator refuses exactly in four cases: an estimated cost too large
for a float, a positive cost that the budgets of its scope refuse, a tenant weight of
100 or more for the principal's kind in the action's scope, and restricted data with
a principal whose kind is not \<open>human\<close>; otherwise it allows.\<close>

theorem native_decision:
  "(vr_verdict (fst (native_evaluate e inp ps)) = ''deny'' \<longleftrightarrow>
     (\<exists>cost. map_of (ei_attributes inp) ''estimated_cost_usd'' = Some cost
        \<and> to_float (ne_float_text e) cost = FloatOverflow)
   \<or> (\<exists>cost c scope key. map_of (ei_attributes inp) ''estimated_cost_usd'' = Some cost
        \<and> to_float (ne_float_text e) cost = Float c \<and> 0 < c \<and> ne_session e \<and> ne_budget_ok e
        \<and> budget_rule_scope inp = Some (scope, key)
        \<and> de_verdict (should_refuse (ne_forecaster e) (ne_store e) (ne_now e) (ne_budget_rows_ok e)
             (ne_budgets e) (ne_counters e) (ei_tenant inp) key c scope None) = Refuse)
   \<or> (\<exists>w v. ne_session e \<and> ne_weights_ok e \<and> map_of w (ei_kind inp) = Some v \<and> 100 \<le> v
        \<and> get_effective_weights (ps_scopes ps) (ps_weights ps) (ei_action inp) (Some (ei_tenant inp)) = Inr w)
   \<or> (map_of (ei_attributes inp) ''data_classification'' = Some (Js (JStr ''restricted''))
        \<and> ei_kind inp \<noteq> ''human''))
   \<and> vr_verdict (fst (native_evaluate e inp ps)) \<in> {''allow'', ''deny''}"
proof -
  have budget: "(\<exists>r. check_budget e inp = Inr (Some r)) \<longleftrightarrow>
      (\<exists>cost c scope key. map_of (ei_attributes inp) ''estimated_cost_usd'' = Some cost
        \<and> to_float (ne_float_text e) cost = Float c \<and> 0 < c \<and> ne_session e \<and> ne_budget_ok e
        \<and> budget_rule_scope inp = Some (scope, key)
        \<and> de_verdict (should_refuse (ne_forecaster e) (ne_store e) (ne_now e) (ne_budget_rows_ok e)
             (ne_budgets e) (ne_counters e) (ei_tenant inp) key c scope None) = Refuse)"
    by (auto simp: check_budget_def budget_refusal_def split: option.splits float_result.splits if_splits)
  have overflow: "(\<exists>x. check_budget e inp = Inl x) \<longleftrightarrow>
      (\<exists>cost. map_of (ei_attributes inp) ''estimated_cost_usd'' = Some cost
        \<and> to_float (ne_float_text e) cost = FloatOverflow)"
    by (auto simp: check_budget_def split: option.splits float_result.splits if_splits)
  have weight: "check_tenant_weight e ps inp \<noteq> None \<longleftrightarrow>
      (\<exists>w v. ne_session e \<and> ne_weights_ok e \<and> map_of w (ei_kind inp) = Some v \<and> 100 \<le> v
        \<and> get_effective_weights (ps_scopes ps) (ps_weights ps) (ei_action inp) (Some (ei_tenant inp)) = Inr w)"
    by (auto simp: check_tenant_weight_def HARD_DENY_WEIGHT_THRESHOLD_def get_effective_weights_def
        split: option.splits sum.splits dest: map_of_SomeD intro: rev_image_eqI)
  have restricted: "check_restricted_data inp \<noteq> None \<longleftrightarrow>
      map_of (ei_attributes inp) ''data_classification'' = Some (Js (JStr ''restricted'')) \<and> ei_kind inp \<noteq> ''human''"
    by (simp add: check_restricted_data_def)
  have "vr_verdict (fst (native_evaluate e inp ps)) = ''deny'' \<longleftrightarrow>
      (\<exists>x. check_budget e inp = Inl x) \<or> (\<exists>r. check_budget e inp = Inr (Some r))
      \<or> check_tenant_weight e ps inp \<noteq> None \<or> check_restricted_data inp \<noteq> None"
    by (cases "check_budget e inp")
       (auto simp: native_evaluate_verdict native_rules_def option_or_def
        dest: check_budget_deny check_weight_deny check_restricted_deny split: option.split)
  then show ?thesis
    unfolding budget overflow weight restricted using native_verdicts by blast
qed

definition restricted_input :: "string \<Rightarrow> evaluation_input" where
  "restricted_input kind = \<lparr> ei_tenant = ''t'', ei_kind = kind, ei_principal = ''p'', ei_action = ''read'',
     ei_attributes = [(''data_classification'', Js (JStr ''restricted''))] \<rparr>"

theorem native_decision_witness:
  "vr_verdict (fst (native_evaluate sample_native (restricted_input ''user'') fresh_policy)) = ''deny''"
  using native_decision [of sample_native "restricted_input ''user''" fresh_policy]
  by (simp add: restricted_input_def)

text \<open>No principal of a canonical kind may touch restricted data: the rule asks for the
kind \<open>human\<close>, which the vocabulary does not have, so the persons it means to admit,
recorded as \<open>user\<close>, are refused with the rest.\<close>

theorem restricted_data_refuses_people:
  assumes "ei_kind inp \<in> set CANONICAL_PRINCIPAL_KINDS"
    and "map_of (ei_attributes inp) ''data_classification'' = Some (Js (JStr ''restricted''))"
  shows "vr_verdict (fst (native_evaluate e inp ps)) = ''deny''
    \<and> ''user'' \<in> set CANONICAL_PRINCIPAL_KINDS \<and> ''human'' \<notin> set CANONICAL_PRINCIPAL_KINDS"
proof -
  have "ei_kind inp \<noteq> ''human''" using assms(1) by (auto simp: CANONICAL_PRINCIPAL_KINDS_def)
  then have "check_restricted_data inp \<noteq> None" using assms(2) by (simp add: check_restricted_data_def)
  then have "vr_verdict (fst (native_evaluate e inp ps)) = ''deny''"
    by (cases "check_budget e inp")
       (auto simp: native_evaluate_verdict native_rules_def option_or_def
        dest: check_budget_deny check_weight_deny check_restricted_deny split: option.split)
  then show ?thesis by (simp add: CANONICAL_PRINCIPAL_KINDS_def)
qed

theorem restricted_data_refuses_people_witness:
  "vr_verdict (fst (native_evaluate sample_native (restricted_input ''user'') fresh_policy)) = ''deny''"
  using restricted_data_refuses_people [of "restricted_input ''user''" sample_native fresh_policy, THEN conjunct1]
  by (simp add: restricted_input_def CANONICAL_PRINCIPAL_KINDS_def)

text \<open>The rule list is first match: the verdict is that of the first rule of the
principal's very kind that names the action, a star, or a dotted prefix of it followed
by a star, else the default.\<close>

theorem rbac_first_match:
  "rbac_evaluate rc kind act =
     (case List.find (\<lambda>r. rr_kind r = kind \<and> action_matches act (rr_actions r)) (rc_rules rc) of
        Some r \<Rightarrow> rr_verdict r | None \<Rightarrow> rc_default rc)
   \<and> (action_matches act ps \<longleftrightarrow>
        act \<in> set ps \<or> ''*'' \<in> set ps \<or> (\<exists>q. q @ ''.*'' \<in> set ps \<and> prefix (q @ ''.'') act))"
  by (simp add: rbac_evaluate_def first_rule_find action_matches_iff split: option.split)

end
