(* ===== verification/Invocations.thy ===== *)
theory Invocations
  imports Delegation Canonicals Budget
begin

text \<open>
  Invocation rows (\<open>kya/invocations.py\<close>): recording with delegation enforcement, the
  transition to a terminal outcome, the read views. The opt-in limiter of the writer
  only delays a call, and telemetry feeds nothing back; neither is modelled.
\<close>

section \<open>Rows\<close>

definition VALID_MODES :: "string list" where
  "VALID_MODES = [''none'', ''in_the_loop'', ''hybrid'', ''on_the_loop'', ''autonomous'', ''observed'']"

record invocation =
  iv_id :: int
  iv_tenant :: ident
  iv_agent :: string
  iv_kind :: "string option"
  iv_principal :: "ident option"
  iv_mode :: string
  iv_outcome :: string
  iv_duration :: "int option"
  iv_parent :: "int option"
  iv_corr :: "string option"
  iv_occurred :: instant
  iv_ingested :: instant
  iv_started :: "instant option"
  iv_ended :: "instant option"

record invocation_db =
  id_rows :: "invocation list"
  id_next :: int
  id_violations :: "violation_row list"

record invocation_args =
  ia_tenant :: ident
  ia_agent :: string
  ia_kind :: "string option"
  ia_principal :: "ident option"
  ia_mode :: string
  ia_outcome :: string
  ia_duration :: "int option"
  ia_parent :: "int option"
  ia_corr :: "string option"
  ia_occurred :: "instant option"
  ia_started :: "instant option"
  ia_ended :: "instant option"

text \<open>What the delegation check reads: the tool catalog, the stored definition of an
agent, the mode of a violation, the rows that can be stored, and whether the commit
that marks a blocked row succeeds.\<close>

record invocation_env =
  ie_now :: instant
  ie_ingest :: instant
  ie_catalog :: catalog
  ie_definition :: "string \<Rightarrow> agent_def option"
  ie_mode_of :: "violation \<Rightarrow> string"
  ie_stores :: "violation_row \<Rightarrow> bool"
  ie_mark_ok :: bool

section \<open>Recording\<close>

text \<open>Milliseconds, truncated towards zero.\<close>

definition to_ms :: "instant \<Rightarrow> int" where
  "to_ms us = (if 0 \<le> us then us div 1000 else - ((- us) div 1000))"

definition new_row :: "invocation_env \<Rightarrow> invocation_args \<Rightarrow> int \<Rightarrow> invocation" where
  "new_row e a i =
     (let occurred = (case ia_occurred a of None \<Rightarrow> ie_now e | Some o' \<Rightarrow> o');
          duration = (case (ia_duration a, ia_started a, ia_ended a) of
              (None, Some s, Some d) \<Rightarrow> Some (to_ms (d - s))
            | _ \<Rightarrow> ia_duration a);
          ended = (if ia_outcome a \<noteq> ''in_progress'' \<and> ia_ended a = None then Some occurred else ia_ended a)
      in \<lparr> iv_id = i, iv_tenant = ia_tenant a, iv_agent = ia_agent a, iv_kind = ia_kind a,
           iv_principal = ia_principal a,
           iv_mode = (if ia_mode a \<in> set VALID_MODES then ia_mode a else ''observed''),
           iv_outcome = ia_outcome a, iv_duration = duration, iv_parent = ia_parent a,
           iv_corr = ia_corr a, iv_occurred = occurred, iv_ingested = ie_ingest e,
           iv_started = ia_started a, iv_ended = ended \<rparr>)"

datatype invocation_error = InvalidOutcome | DelegationBlocked "violation list"

definition record_invocation ::
    "invocation_env \<Rightarrow> invocation_args \<Rightarrow> invocation_db \<Rightarrow> (invocation_error + int) \<times> invocation_db" where
  "record_invocation e a db =
     (if ia_outcome a \<notin> set CANONICAL_OUTCOMES then (Inl InvalidOutcome, db)
      else
        (let i = id_next db;
             db1 = db\<lparr> id_rows := id_rows db @ [new_row e a i], id_next := i + 1 \<rparr>
         in if ia_kind a = Some ''agent'' \<and> truthy (ia_principal a) then
              (case enforce_delegation_policy (ie_catalog e) (ie_mode_of e) (ie_stores e) (ia_tenant a) i
                     (ia_parent a) (or_else (ia_principal a) []) (ia_agent a)
                     (ie_definition e (or_else (ia_principal a) [])) (ie_definition e (ia_agent a))
                     (id_violations db1) of
                 (Violations _, vs) \<Rightarrow> (Inr i, db1\<lparr> id_violations := vs \<rparr>)
               | (DelegationPolicyError bs, vs) \<Rightarrow>
                   (Inl (DelegationBlocked bs),
                    db1\<lparr> id_violations := vs,
                         id_rows := (if ie_mark_ok e
                           then map_where (\<lambda>r. iv_id r = i) (\<lambda>r. r\<lparr> iv_outcome := ''blocked'' \<rparr>) (id_rows db1)
                           else id_rows db1) \<rparr>))
            else (Inr i, db1)))"

section \<open>Closing\<close>

abbreviation closable :: "int \<Rightarrow> ident option \<Rightarrow> invocation \<Rightarrow> bool" where
  "closable i t r \<equiv> iv_id r = i \<and> iv_outcome r \<in> set NON_TERMINAL_OUTCOMES \<and> (t = None \<or> t = Some (iv_tenant r))"

definition finalize_invocation_outcome ::
    "int option \<Rightarrow> string \<Rightarrow> ident option \<Rightarrow> invocation_db \<Rightarrow> (string + bool) \<times> invocation_db" where
  "finalize_invocation_outcome i outcome t db =
     (if outcome \<notin> set TERMINAL_OUTCOMES then (Inl ''ValueError'', db)
      else (case i of
          None \<Rightarrow> (Inr False, db)
        | Some n \<Rightarrow>
            (Inr (list_ex (closable n t) (id_rows db)),
             db\<lparr> id_rows := map_where (closable n t) (\<lambda>r. r\<lparr> iv_outcome := outcome \<rparr>) (id_rows db) \<rparr>)))"

section \<open>Views\<close>

definition wanted :: "string option \<Rightarrow> string option \<Rightarrow> bool" where
  "wanted filter_by v = (truthy filter_by \<longrightarrow> v = filter_by)"

definition list_invocations ::
    "invocation_db \<Rightarrow> ident \<Rightarrow> string option \<Rightarrow> ident option \<Rightarrow> string option \<Rightarrow> instant option \<Rightarrow> instant option \<Rightarrow>
     nat \<Rightarrow> invocation list" where
  "list_invocations db t agent pid corr since until limit =
     take limit (sort_key (\<lambda>r. - iv_occurred r)
       (filter (\<lambda>r. iv_tenant r = t \<and> wanted agent (Some (iv_agent r)) \<and> wanted pid (iv_principal r)
          \<and> wanted corr (iv_corr r)
          \<and> (case since of None \<Rightarrow> True | Some s \<Rightarrow> s \<le> iv_occurred r)
          \<and> (case until of None \<Rightarrow> True | Some u \<Rightarrow> iv_occurred r < u)) (id_rows db)))"

definition active_parallel_invocations :: "invocation_db \<Rightarrow> ident \<Rightarrow> invocation list" where
  "active_parallel_invocations db t =
     sort_key iv_occurred (filter (\<lambda>r. iv_tenant r = t \<and> iv_outcome r = ''in_progress'') (id_rows db))"

definition day :: instant where "day = 86400 * 1000000"

record mode_counts =
  mc_total :: nat
  mc_by_mode :: "(string \<times> nat) list"
  mc_share :: "(string \<times> rat) list"

definition mode_distribution :: "instant \<Rightarrow> invocation_db \<Rightarrow> ident \<Rightarrow> string \<Rightarrow> int \<Rightarrow> mode_counts" where
  "mode_distribution now db t agent window_days =
     (let modes = map iv_mode (filter (\<lambda>r. iv_tenant r = t \<and> iv_agent r = agent
                    \<and> now - window_days * day \<le> iv_occurred r) (id_rows db));
          counts = map (\<lambda>m. (m, length (filter ((=) m) modes))) (remdups modes);
          total = sum_list (map snd counts)
      in \<lparr> mc_total = total, mc_by_mode = counts,
           mc_share = map (\<lambda>(m, n). (m, of_int (py_round (of_nat n / of_nat total * 1000)) / 1000)) counts \<rparr>)"

definition ingest_lag_ms :: "invocation \<Rightarrow> int" where
  "ingest_lag_ms r = to_ms (iv_ingested r - iv_occurred r)"

record lag_stats =
  ls_samples :: nat
  ls_p50 :: int
  ls_p95 :: int
  ls_p99 :: int
  ls_max :: int

definition percentile :: "int list \<Rightarrow> rat \<Rightarrow> int" where
  "percentile lags p =
     (let n = length lags; k = py_round (p * of_nat (n - 1))
      in lags ! nat (max 0 (min (int n - 1) k)))"

definition ingest_lag_stats :: "instant \<Rightarrow> invocation_db \<Rightarrow> ident \<Rightarrow> string option \<Rightarrow> int \<Rightarrow> lag_stats" where
  "ingest_lag_stats now db t agent window_days =
     (let lags = sort (map ingest_lag_ms (filter (\<lambda>r. iv_tenant r = t \<and> wanted agent (Some (iv_agent r))
                   \<and> now - window_days * day \<le> iv_occurred r) (id_rows db)))
      in if lags = [] then \<lparr> ls_samples = 0, ls_p50 = 0, ls_p95 = 0, ls_p99 = 0, ls_max = 0 \<rparr>
         else \<lparr> ls_samples = length lags, ls_p50 = percentile lags (1 / 2), ls_p95 = percentile lags (19 / 20),
                ls_p99 = percentile lags (99 / 100), ls_max = last lags \<rparr>)"

end
