(* ===== verification/Lifecycle.thy ===== *)
theory Lifecycle
  imports Invocations
begin

text \<open>
  The life of an invocation row. The specification is a machine on the outcome of each
  id: reserved once with a canonical outcome, moved at most once from a non-terminal
  to a terminal one. Every history of writes to the table is a run of it.
\<close>

section \<open>Histories\<close>

inductive inv_step :: "invocation_db \<Rightarrow> invocation_db \<Rightarrow> bool" where
  recorded: "inv_step db (snd (record_invocation e a db))"
| finalised: "inv_step db (snd (finalize_invocation_outcome i out t db))"

inductive_cases inv_stepE: "inv_step db db'"

definition empty_invocations :: invocation_db where
  "empty_invocations = \<lparr> id_rows = [], id_next = 1, id_violations = [] \<rparr>"

inductive reachable_inv :: "invocation_db \<Rightarrow> bool" where
  start: "reachable_inv empty_invocations"
| step: "reachable_inv db \<Longrightarrow> inv_step db db' \<Longrightarrow> reachable_inv db'"

text \<open>A row is well-typed when its mode and outcome are in their vocabularies; ids are
assigned once.\<close>

definition well_typed :: "invocation \<Rightarrow> bool" where
  "well_typed r = (iv_mode r \<in> set VALID_MODES \<and> iv_outcome r \<in> set CANONICAL_OUTCOMES)"

definition inv_wf :: "invocation_db \<Rightarrow> bool" where
  "inv_wf db = (list_all well_typed (id_rows db) \<and> distinct (map iv_id (id_rows db))
     \<and> list_all (\<lambda>r. iv_id r < id_next db) (id_rows db))"

section \<open>The specification\<close>

type_synonym lives = "int \<Rightarrow> (ident \<times> string) option"

inductive life_step :: "lives \<Rightarrow> lives \<Rightarrow> bool" where
  reserve: "m i = None \<Longrightarrow> out \<in> set CANONICAL_OUTCOMES \<Longrightarrow> life_step m (m(i \<mapsto> (t, out)))"
| close: "m i = Some (t, out) \<Longrightarrow> out \<in> set NON_TERMINAL_OUTCOMES \<Longrightarrow> out' \<in> set TERMINAL_OUTCOMES \<Longrightarrow>
    life_step m (m(i \<mapsto> (t, out')))"
| stay: "life_step m m"

inductive_cases life_stepE: "life_step m m'"

abbreviation life_run :: "lives \<Rightarrow> lives \<Rightarrow> bool" where
  "life_run \<equiv> life_step\<^sup>*\<^sup>*"

definition lives_of :: "invocation_db \<Rightarrow> lives" where
  "lives_of db i = map_option (\<lambda>r. (iv_tenant r, iv_outcome r)) (List.find (\<lambda>r. iv_id r = i) (id_rows db))"

section \<open>Rows and ids\<close>

lemma vocab_blocked [simp]: "''blocked'' \<in> set CANONICAL_OUTCOMES"
  by (simp add: CANONICAL_OUTCOMES_def)

lemma terminal_canonical: "out \<in> set TERMINAL_OUTCOMES \<Longrightarrow> out \<in> set CANONICAL_OUTCOMES"
  by (auto simp: TERMINAL_OUTCOMES_def)

lemma new_row_simps [simp]:
  "iv_id (new_row e a i) = i" "iv_tenant (new_row e a i) = ia_tenant a" "iv_outcome (new_row e a i) = ia_outcome a"
  by (simp_all add: new_row_def Let_def)

lemma new_row_typed: "ia_outcome a \<in> set CANONICAL_OUTCOMES \<Longrightarrow> well_typed (new_row e a i)"
  by (simp add: well_typed_def new_row_def Let_def VALID_MODES_def)

lemma map_where_ids: "map iv_id (map_where P (\<lambda>r. r\<lparr> iv_outcome := out \<rparr>) rows) = map iv_id rows"
  by (rule map_map_where) simp

lemma list_all_map_where:
  "list_all Q rows \<Longrightarrow> (\<And>r. P r \<Longrightarrow> Q r \<Longrightarrow> Q (f r)) \<Longrightarrow> list_all Q (map_where P f rows)"
  by (induction rows) auto

text \<open>The table after a call of the writer, in all its outcomes.\<close>

lemma record_cases:
  obtains "ia_outcome a \<notin> set CANONICAL_OUTCOMES" "record_invocation e a db = (Inl InvalidOutcome, db)"
  | vs r where "ia_outcome a \<in> set CANONICAL_OUTCOMES"
      "record_invocation e a db = (r, db\<lparr> id_rows := id_rows db @ [new_row e a (id_next db)],
         id_next := id_next db + 1, id_violations := vs \<rparr>)"
  | vs bs where "ia_outcome a \<in> set CANONICAL_OUTCOMES"
      "record_invocation e a db = (Inl (DelegationBlocked bs), db\<lparr> id_rows :=
         map_where (\<lambda>r. iv_id r = id_next db) (\<lambda>r. r\<lparr> iv_outcome := ''blocked'' \<rparr>)
           (id_rows db @ [new_row e a (id_next db)]),
         id_next := id_next db + 1, id_violations := vs \<rparr>)"
proof (cases "ia_outcome a \<in> set CANONICAL_OUTCOMES")
  case True
  let ?db1 = "db\<lparr> id_rows := id_rows db @ [new_row e a (id_next db)], id_next := id_next db + 1 \<rparr>"
  show thesis
  proof (cases "ia_kind a = Some ''agent'' \<and> truthy (ia_principal a)")
    case False
    then have "record_invocation e a db = (Inr (id_next db), ?db1\<lparr> id_violations := id_violations db \<rparr>)"
      using True by (auto simp: record_invocation_def Let_def)
    with True that(2) [of "Inr (id_next db)" "id_violations db"] show thesis by simp
  next
    case agent: True
    obtain en vs where en: "enforce_delegation_policy (ie_catalog e) (ie_mode_of e) (ie_stores e) (ia_tenant a)
        (id_next db) (ia_parent a) (or_else (ia_principal a) []) (ia_agent a)
        (ie_definition e (or_else (ia_principal a) [])) (ie_definition e (ia_agent a)) (id_violations ?db1) = (en, vs)"
      by (meson surj_pair)
    show thesis
    proof (cases en)
      case (Violations v)
      with True agent en have "record_invocation e a db = (Inr (id_next db), ?db1\<lparr> id_violations := vs \<rparr>)"
        by (simp add: record_invocation_def Let_def)
      with True that(2) [of "Inr (id_next db)" vs] show thesis by simp
    next
      case (DelegationPolicyError bs)
      show thesis
      proof (cases "ie_mark_ok e")
        case marked: True
        with True agent en DelegationPolicyError that(3) [of bs vs] show thesis
          by (simp add: record_invocation_def Let_def)
      next
        case False
        with True agent en DelegationPolicyError
        have "record_invocation e a db = (Inl (DelegationBlocked bs), ?db1\<lparr> id_violations := vs \<rparr>)"
          by (simp add: record_invocation_def Let_def)
        with True that(2) [of "Inl (DelegationBlocked bs)" vs] show thesis by simp
      qed
    qed
  qed
next
  case False
  then show thesis using that(1) by (simp add: record_invocation_def)
qed

lemma record_invocation_id: "record_invocation e a db = (Inr i, db') \<Longrightarrow> i = id_next db"
  by (auto simp: record_invocation_def Let_def split: if_splits prod.splits enforcement.splits)

lemma inv_wf_append:
  assumes "inv_wf db" "ia_outcome a \<in> set CANONICAL_OUTCOMES"
  shows "inv_wf (db\<lparr> id_rows := id_rows db @ [new_row e a (id_next db)], id_next := id_next db + 1,
    id_violations := vs \<rparr>)"
  using assms by (auto simp: inv_wf_def new_row_typed list_all_iff)

lemma inv_wf_outcome:
  assumes "inv_wf db" "out \<in> set CANONICAL_OUTCOMES"
  shows "inv_wf (db\<lparr> id_rows := map_where P (\<lambda>r. r\<lparr> iv_outcome := out \<rparr>) (id_rows db) \<rparr>)"
proof -
  have "distinct (map iv_id (map_where P (\<lambda>r. r\<lparr> iv_outcome := out \<rparr>) (id_rows db)))"
    using assms(1) by (simp only: map_where_ids inv_wf_def)
  moreover have "list_all well_typed (map_where P (\<lambda>r. r\<lparr> iv_outcome := out \<rparr>) (id_rows db))"
    using assms by (intro list_all_map_where) (auto simp: inv_wf_def well_typed_def)
  moreover have "list_all (\<lambda>r. iv_id r < id_next db) (map_where P (\<lambda>r. r\<lparr> iv_outcome := out \<rparr>) (id_rows db))"
    using assms by (intro list_all_map_where) (auto simp: inv_wf_def)
  ultimately show ?thesis by (simp add: inv_wf_def)
qed

lemma inv_wf_record: "inv_wf db \<Longrightarrow> inv_wf (snd (record_invocation e a db))"
proof (cases rule: record_cases [of a e db])
  case (3 vs bs)
  assume "inv_wf db"
  from inv_wf_outcome [OF inv_wf_append [OF this 3(1), of vs e], of "''blocked''" "\<lambda>r. iv_id r = id_next db"] 3(2)
  show ?thesis by (simp add: inv_wf_def)
qed (auto dest: inv_wf_append)

lemma inv_wf_finalize: "inv_wf db \<Longrightarrow> inv_wf (snd (finalize_invocation_outcome i out t db))"
  using inv_wf_outcome terminal_canonical
  by (simp add: finalize_invocation_outcome_def split: option.split)

lemma inv_wf_step: "inv_step db db' \<Longrightarrow> inv_wf db \<Longrightarrow> inv_wf db'"
  by (erule inv_stepE) (auto simp: inv_wf_record inv_wf_finalize)

lemma reachable_wf: "reachable_inv db \<Longrightarrow> inv_wf db"
proof (induction rule: reachable_inv.induct)
  case start
  show ?case by (simp add: empty_invocations_def inv_wf_def)
qed (rule inv_wf_step)

section \<open>Simulation\<close>

lemma lives_fresh:
  assumes "inv_wf db"
  shows "lives_of db (id_next db) = None"
proof -
  have "\<forall>r\<in>set (id_rows db). iv_id r \<noteq> id_next db"
    using assms by (auto simp: inv_wf_def list_all_iff)
  then show ?thesis by (simp add: lives_of_def find_None_ball)
qed

lemma lives_append:
  assumes "inv_wf db"
  shows "lives_of (db\<lparr> id_rows := id_rows db @ [new_row e a (id_next db)], id_next := n, id_violations := vs \<rparr>)
     = (lives_of db)(id_next db \<mapsto> (ia_tenant a, ia_outcome a))"
  using lives_fresh [OF assms]
  by (auto simp: lives_of_def find_append fun_eq_iff split: option.splits)

lemma lives_outcome_where:
  assumes "distinct (map iv_id rows)"
  shows "map_option (\<lambda>r. (iv_tenant r, iv_outcome r)) (List.find (\<lambda>r. iv_id r = i)
      (map_where P (\<lambda>r. r\<lparr> iv_outcome := out \<rparr>) rows))
   = (case List.find (\<lambda>r. iv_id r = i) rows of None \<Rightarrow> None
      | Some r \<Rightarrow> Some (iv_tenant r, if P r then out else iv_outcome r))"
  using assms by (induction rows) auto

lemma lives_finalize:
  assumes "inv_wf db" "out \<in> set TERMINAL_OUTCOMES"
  shows "lives_of (snd (finalize_invocation_outcome (Some n) out t db)) i =
    (case lives_of db i of
       None \<Rightarrow> None
     | Some (u, old) \<Rightarrow>
         Some (u, if i = n \<and> old \<in> set NON_TERMINAL_OUTCOMES \<and> (t = None \<or> t = Some u) then out else old))"
proof -
  have d: "distinct (map iv_id (id_rows db))" using assms(1) by (simp add: inv_wf_def)
  have "List.find (\<lambda>r. iv_id r = i) (id_rows db) = Some r \<Longrightarrow> iv_id r = i" for r
    by (auto dest: find_Some_iff_first)
  then show ?thesis
    using assms(2) lives_outcome_where [OF d, of i "closable n t" out]
    by (cases "List.find (\<lambda>r. iv_id r = i) (id_rows db)") (auto simp: finalize_invocation_outcome_def lives_of_def)
qed

lemma record_simulated:
  assumes "inv_wf db"
  shows "life_step (lives_of db) (lives_of (snd (record_invocation e a db)))"
proof (cases rule: record_cases [of a e db])
  case 1
  then show ?thesis by (simp add: life_step.stay)
next
  case (2 vs r)
  have "life_step (lives_of db) ((lives_of db)(id_next db \<mapsto> (ia_tenant a, ia_outcome a)))"
    using 2(1) lives_fresh [OF assms] by (intro life_step.reserve)
  then show ?thesis by (simp add: 2(2) lives_append [OF assms])
next
  case (3 vs bs)
  let ?db1 = "db\<lparr> id_rows := id_rows db @ [new_row e a (id_next db)], id_next := id_next db + 1, id_violations := vs \<rparr>"
  have wf: "inv_wf ?db1" using assms 3(1) by (rule inv_wf_append)
  have other: "\<forall>r\<in>set (id_rows db). iv_id r \<noteq> id_next db"
    using assms by (auto simp: inv_wf_def list_all_iff)
  then have "map_where (\<lambda>r. iv_id r = id_next db) (\<lambda>r. r\<lparr> iv_outcome := ''blocked'' \<rparr>)
      (id_rows db @ [new_row e a (id_next db)])
    = id_rows db @ [(new_row e a (id_next db))\<lparr> iv_outcome := ''blocked'' \<rparr>]"
    by (auto simp: map_where_def intro: map_idI)
  then have "lives_of (snd (record_invocation e a db))
      = (lives_of db)(id_next db \<mapsto> (ia_tenant a, ''blocked''))"
    using other lives_fresh [OF assms]
    by (auto simp: 3(2) lives_of_def find_append fun_eq_iff split: option.splits)
  moreover have "life_step (lives_of db) ((lives_of db)(id_next db \<mapsto> (ia_tenant a, ''blocked'')))"
    using lives_fresh [OF assms] by (intro life_step.reserve) auto
  ultimately show ?thesis by simp
qed

lemma finalize_simulated:
  assumes "inv_wf db"
  shows "life_step (lives_of db) (lives_of (snd (finalize_invocation_outcome i out t db)))"
proof (cases "out \<in> set TERMINAL_OUTCOMES \<and> i \<noteq> None")
  case False
  then have "snd (finalize_invocation_outcome i out t db) = db"
    by (auto simp: finalize_invocation_outcome_def)
  then show ?thesis by (simp add: life_step.stay)
next
  case True
  then obtain n where n: "i = Some n" "out \<in> set TERMINAL_OUTCOMES" by auto
  note live = lives_finalize [OF assms n(2), of n t]
  show ?thesis
  proof (cases "\<exists>u old. lives_of db n = Some (u, old) \<and> old \<in> set NON_TERMINAL_OUTCOMES \<and> (t = None \<or> t = Some u)")
    case True
    then obtain u old where m: "lives_of db n = Some (u, old)" "old \<in> set NON_TERMINAL_OUTCOMES"
      "t = None \<or> t = Some u" by auto
    then have "lives_of (snd (finalize_invocation_outcome i out t db)) = (lives_of db)(n \<mapsto> (u, out))"
      by (auto simp: fun_eq_iff n(1) live split: option.splits)
    with life_step.close [of "lives_of db" n u old out, OF m(1,2) n(2)] show ?thesis by simp
  next
    case False
    then have "lives_of (snd (finalize_invocation_outcome i out t db)) = lives_of db"
      by (auto simp: fun_eq_iff n(1) live split: option.splits)
    then show ?thesis by (simp add: life_step.stay)
  qed
qed

lemma step_simulated: "inv_step db db' \<Longrightarrow> inv_wf db \<Longrightarrow> life_step (lives_of db) (lives_of db')"
  by (erule inv_stepE) (auto simp: record_simulated finalize_simulated)

lemma run_simulated:
  "inv_step\<^sup>*\<^sup>* db db' \<Longrightarrow> inv_wf db \<Longrightarrow> inv_wf db' \<and> life_run (lives_of db) (lives_of db')"
proof (induction rule: rtranclp_induct)
  case (step db1 db2)
  then have "inv_wf db1" "life_run (lives_of db) (lives_of db1)" by auto
  with step.hyps(2) show ?case
    using inv_wf_step step_simulated by (meson rtranclp.rtrancl_into_rtrancl)
qed simp

text \<open>In the specification a terminal outcome is final and a tenant keeps its rows.\<close>

lemma life_step_terminal:
  assumes "life_step m m'" "m i = Some (t, out)"
  shows "\<exists>out'. m' i = Some (t, out') \<and> (out \<in> set TERMINAL_OUTCOMES \<longrightarrow> out' = out)"
  using assms(1)
proof cases
  case (reserve j o' u)
  then show ?thesis using assms(2) by (cases "j = i") auto
next
  case (close j u o1 o2)
  then show ?thesis using assms(2) terminal_not_non_terminal by (cases "j = i") auto
next
  case stay
  then show ?thesis using assms(2) by simp
qed

lemma life_run_terminal:
  "life_run m m' \<Longrightarrow> m i = Some (t, out) \<Longrightarrow>
     \<exists>out'. m' i = Some (t, out') \<and> (out \<in> set TERMINAL_OUTCOMES \<longrightarrow> out' = out)"
proof (induction rule: rtranclp_induct)
  case (step m1 m2)
  then obtain o1 where "m1 i = Some (t, o1)" "out \<in> set TERMINAL_OUTCOMES \<longrightarrow> o1 = out" by auto
  with life_step_terminal [OF step.hyps(2)] show ?case by metis
qed simp

section \<open>Properties\<close>

text \<open>C11. The table implements the life-cycle machine: whatever calls are made, from a
reachable table the outcomes make a run of the specification, so that a terminal
outcome is never rewritten, no row changes its tenant, and no id is used twice.\<close>

theorem lifecycle_refinement:
  assumes "reachable_inv db" "inv_step\<^sup>*\<^sup>* db db'"
  shows "life_run (lives_of db) (lives_of db')
    \<and> (\<forall>i t out. lives_of db i = Some (t, out) \<longrightarrow>
         (\<exists>out'. lives_of db' i = Some (t, out') \<and> (out \<in> set TERMINAL_OUTCOMES \<longrightarrow> out' = out)))"
proof -
  have "life_run (lives_of db) (lives_of db')"
    using run_simulated [OF assms(2) reachable_wf [OF assms(1)]] by blast
  then show ?thesis using life_run_terminal by blast
qed

definition sample_inv_env :: invocation_env where
  "sample_inv_env = \<lparr> ie_now = 5, ie_ingest = 7, ie_catalog = [], ie_definition = (\<lambda>k. None),
     ie_mode_of = (\<lambda>v. ''flag''), ie_stores = (\<lambda>r. True), ie_mark_ok = True \<rparr>"

definition sample_inv_args :: invocation_args where
  "sample_inv_args = \<lparr> ia_tenant = ''t'', ia_agent = ''a'', ia_kind = Some ''user'', ia_principal = Some ''u'',
     ia_mode = ''observed'', ia_outcome = ''pending'', ia_duration = None, ia_parent = None, ia_corr = None,
     ia_occurred = None, ia_started = None, ia_ended = None \<rparr>"

lemma sample_record:
  "record_invocation sample_inv_env sample_inv_args empty_invocations
     = (Inr 1, \<lparr> id_rows = [new_row sample_inv_env sample_inv_args 1], id_next = 2, id_violations = [] \<rparr>)"
  by (simp add: record_invocation_def sample_inv_args_def empty_invocations_def CANONICAL_OUTCOMES_def Let_def)

definition one_pending :: invocation_db where
  "one_pending = \<lparr> id_rows = [new_row sample_inv_env sample_inv_args 1], id_next = 2, id_violations = [] \<rparr>"

lemma one_pending_reachable: "reachable_inv one_pending"
  using reachable_inv.step [OF reachable_inv.start inv_step.recorded, of sample_inv_env sample_inv_args]
  by (simp add: sample_record one_pending_def)

theorem lifecycle_refinement_witness:
  "life_run (lives_of one_pending)
     (lives_of (snd (finalize_invocation_outcome (Some 1) ''denied'' None one_pending)))"
  by (rule lifecycle_refinement [THEN conjunct1, OF one_pending_reachable])
     (rule r_into_rtranclp, rule inv_step.finalised)

text \<open>C40. Rows stay well-typed: after any calls every row has a mode and an outcome of
their vocabularies, whatever text the callers passed, and an id below the next one that
no other row has.\<close>

theorem stored_rows_well_typed:
  assumes "reachable_inv db" "r \<in> set (id_rows db)"
  shows "iv_mode r \<in> set VALID_MODES \<and> iv_outcome r \<in> set CANONICAL_OUTCOMES
    \<and> iv_id r < id_next db \<and> List.find (\<lambda>x. iv_id x = iv_id r) (id_rows db) = Some r"
proof -
  have wf: "inv_wf db" using reachable_wf [OF assms(1)] .
  have "distinct (map iv_id rows) \<Longrightarrow> r \<in> set rows \<Longrightarrow> List.find (\<lambda>x. iv_id x = iv_id r) rows = Some r" for rows
    by (induction rows) (auto simp: rev_image_eqI)
  with wf assms(2) show ?thesis by (auto simp: inv_wf_def well_typed_def list_all_iff)
qed

theorem stored_rows_well_typed_witness:
  "iv_mode (new_row sample_inv_env (sample_inv_args\<lparr> ia_mode := ''chaos'' \<rparr>) 1) \<in> set VALID_MODES"
proof -
  let ?a = "sample_inv_args\<lparr> ia_mode := ''chaos'' \<rparr>"
  have "snd (record_invocation sample_inv_env ?a empty_invocations)
      = \<lparr> id_rows = [new_row sample_inv_env ?a 1], id_next = 2, id_violations = [] \<rparr>"
    by (simp add: record_invocation_def sample_inv_args_def empty_invocations_def CANONICAL_OUTCOMES_def Let_def)
  then have "reachable_inv \<lparr> id_rows = [new_row sample_inv_env ?a 1], id_next = 2, id_violations = [] \<rparr>"
    using reachable_inv.step [OF reachable_inv.start inv_step.recorded, of sample_inv_env ?a] by simp
  from stored_rows_well_typed [OF this, THEN conjunct1] show ?thesis by simp
qed

lemma find_new_row:
  assumes "inv_wf db"
  shows "List.find (\<lambda>r. iv_id r = id_next db) (id_rows db @ [new_row e a (id_next db)]) = Some (new_row e a (id_next db))"
proof -
  have "\<forall>r\<in>set (id_rows db). iv_id r \<noteq> id_next db"
    using assms by (auto simp: inv_wf_def list_all_iff)
  then show ?thesis by (auto simp: find_append dest: find_Some_iff_first split: option.split)
qed

lemma finalize_answer:
  assumes "inv_wf db" "out \<in> set TERMINAL_OUTCOMES" "List.find (\<lambda>r. iv_id r = n) (id_rows db) = Some r"
  shows "fst (finalize_invocation_outcome (Some n) out t db) =
    Inr (iv_outcome r \<in> set NON_TERMINAL_OUTCOMES \<and> (t = None \<or> t = Some (iv_tenant r)))"
proof -
  have d: "distinct (map iv_id rows) \<Longrightarrow> List.find (\<lambda>r. iv_id r = n) rows = Some r \<Longrightarrow>
      list_ex (closable n t) rows = closable n t r" for rows
  proof (induction rows)
    case (Cons x xs)
    have "list_ex (closable n t) xs = False" if "iv_id x = n"
    proof -
      have "\<forall>r\<in>set xs. iv_id r \<noteq> n" using Cons.prems(1) that by (metis distinct.simps(2) image_eqI list.simps(9) set_map)
      then show ?thesis by (auto simp: list_ex_iff)
    qed
    then show ?case using Cons by (auto split: if_splits)
  qed simp
  have "iv_id r = n" using assms(3) by (auto dest: find_Some_iff_first)
  then show ?thesis
    using d [of "id_rows db"] assms by (simp add: finalize_invocation_outcome_def inv_wf_def)
qed

lemma finalize_row:
  assumes "out \<in> set TERMINAL_OUTCOMES" "List.find (\<lambda>r. iv_id r = n) (id_rows db) = Some r" "closable n t r"
  shows "List.find (\<lambda>r. iv_id r = n) (id_rows (snd (finalize_invocation_outcome (Some n) out t db)))
    = Some (r\<lparr> iv_outcome := out \<rparr>)"
proof -
  have "List.find (\<lambda>r. iv_id r = n) rows = Some r \<Longrightarrow>
      List.find (\<lambda>r. iv_id r = n) (map_where (closable n t) (\<lambda>r. r\<lparr> iv_outcome := out \<rparr>) rows)
        = Some (r\<lparr> iv_outcome := out \<rparr>)" for rows
    using assms(3) by (induction rows) (auto split: if_splits)
  then show ?thesis using assms(1,2) by (simp add: finalize_invocation_outcome_def)
qed

text \<open>A reserved row is closed exactly once and by its own tenant only: the first
terminal outcome moves it, a second one or another tenant's is answered with false.
The end time is no sign of the close: it is set to the start when the row is reserved,
although the row is pending, and the close leaves it alone.\<close>

theorem reserved_row_closes_once:
  assumes "reachable_inv db" "record_invocation e a db = (Inr i, db1)"
    and "ia_outcome a = ''pending''" "ia_ended a = None"
    and "out \<in> set TERMINAL_OUTCOMES" "out' \<in> set TERMINAL_OUTCOMES" "u \<noteq> ia_tenant a"
    and "finalize_invocation_outcome (Some i) out (Some (ia_tenant a)) db1 = (res, db2)"
  shows "res = Inr True
    \<and> fst (finalize_invocation_outcome (Some i) out' t db2) = Inr False
    \<and> fst (finalize_invocation_outcome (Some i) out (Some u) db1) = Inr False
    \<and> map_option iv_ended (List.find (\<lambda>r. iv_id r = i) (id_rows db1))
        = Some (Some (case ia_occurred a of None \<Rightarrow> ie_now e | Some w \<Rightarrow> w))
    \<and> map_option iv_ended (List.find (\<lambda>r. iv_id r = i) (id_rows db2))
        = map_option iv_ended (List.find (\<lambda>r. iv_id r = i) (id_rows db1))"
proof -
  have wf: "inv_wf db" using reachable_wf [OF assms(1)] .
  have wf1: "inv_wf db1" using inv_wf_record [OF wf, of e a] assms(2) by simp
  have i: "i = id_next db \<and> id_rows db1 = id_rows db @ [new_row e a (id_next db)]"
    using assms(2,3)
    by (cases rule: record_cases [of a e db])
       (auto simp: record_invocation_def Let_def split: if_splits prod.splits enforcement.splits)
  let ?r = "new_row e a i"
  have f: "List.find (\<lambda>r. iv_id r = i) (id_rows db1) = Some ?r"
    using find_new_row [OF wf] i by simp
  have open': "iv_outcome ?r \<in> set NON_TERMINAL_OUTCOMES" using assms(3) by (simp add: NON_TERMINAL_OUTCOMES_def)
  have f2: "List.find (\<lambda>r. iv_id r = i) (id_rows db2) = Some (?r\<lparr> iv_outcome := out \<rparr>)"
    using finalize_row [OF assms(5) f, of "Some (ia_tenant a)"] open' assms(8) by simp
  have wf2: "inv_wf db2" using inv_wf_finalize [OF wf1, of "Some i" out "Some (ia_tenant a)"] assms(8) by simp
  have "res = Inr True" using finalize_answer [OF wf1 assms(5) f, of "Some (ia_tenant a)"] open' assms(8) by simp
  moreover have "fst (finalize_invocation_outcome (Some i) out' t db2) = Inr False"
    using finalize_answer [OF wf2 assms(6) f2] terminal_not_non_terminal [OF assms(5)] by simp
  moreover have "fst (finalize_invocation_outcome (Some i) out (Some u) db1) = Inr False"
    using finalize_answer [OF wf1 assms(5) f] assms(7) by simp
  moreover have "iv_ended ?r = Some (case ia_occurred a of None \<Rightarrow> ie_now e | Some w \<Rightarrow> w)"
    using assms(3,4) by (simp add: new_row_def Let_def)
  ultimately show ?thesis using f f2 by simp
qed

theorem reserved_row_closes_once_witness:
  "fst (finalize_invocation_outcome (Some 1) ''denied'' (Some ''t'') one_pending) = Inr True
   \<and> map_option iv_ended (List.find (\<lambda>r. iv_id r = 1) (id_rows one_pending)) = Some (Some 5)"
  using reserved_row_closes_once [OF reachable_inv.start sample_record, of "''denied''" "''success''" "''x''"
      "fst (finalize_invocation_outcome (Some 1) ''denied'' (Some ''t'') one_pending)"
      "snd (finalize_invocation_outcome (Some 1) ''denied'' (Some ''t'') one_pending)"]
  by (simp add: sample_inv_args_def sample_inv_env_def TERMINAL_OUTCOMES_def CANONICAL_OUTCOMES_def
      NON_TERMINAL_OUTCOMES_def one_pending_def)

end
