(* ===== verification/Pending.thy ===== *)
theory Pending
  imports Json
begin

text \<open>
  Calls waiting for a human (\<open>kya/pending_invocations.py\<close>): the queue's rows, the
  decision, the resume gate and its completion, the sweep. \<open>returning\<close> tells whether
  the dialect has UPDATE ... RETURNING; without it the writers look at the row
  afterwards. JSON columns hold the parsed value.
\<close>

section \<open>Rows\<close>

datatype pending_status = Pending | Approved | Denied | Expired | Resumed

record pending_row =
  pn_id :: string
  pn_tenant :: ident
  pn_agent :: string
  pn_kind :: string
  pn_principal :: ident
  pn_action :: string
  pn_invocation :: "int option"
  pn_body :: string
  pn_headers :: json
  pn_policy :: string
  pn_status :: pending_status
  pn_submitted :: instant
  pn_expires :: instant
  pn_decided_at :: "instant option"
  pn_decided_by :: "string option"
  pn_evidence :: "int option"
  pn_arguments :: "json option"

type_synonym queue = "pending_row list"

definition DEFAULT_TTL :: instant where
  "DEFAULT_TTL = 24 * 3600 * 1000000"

text \<open>The fixed columns of a call.\<close>

record pending_args =
  pa_tenant :: ident
  pa_agent :: string
  pa_kind :: string
  pa_principal :: ident
  pa_action :: string
  pa_invocation :: "int option"
  pa_body :: string
  pa_headers :: "(string \<times> string) list"
  pa_policy :: string
  pa_ttl :: "instant option"
  pa_arguments :: "jobj option"

text \<open>\<open>default=str\<close> replaces an object JSON cannot encode by its text.\<close>

primrec default_str :: "json \<Rightarrow> json" where
  "default_str JNull = JNull"
| "default_str (JBool b) = JBool b"
| "default_str (JInt i) = JInt i"
| "default_str (JStr s) = JStr s"
| "default_str (JList xs) = JList (map default_str xs)"
| "default_str (JObj kvs) = JObj (map (map_prod id default_str) kvs)"
| "default_str (JMarked t v) = (case v of JStr s \<Rightarrow> JStr s | _ \<Rightarrow> JStr (dumps v))"

definition pending_row_of :: "pending_args \<Rightarrow> instant \<Rightarrow> string \<Rightarrow> pending_row" where
  "pending_row_of a now i =
     \<lparr> pn_id = i, pn_tenant = pa_tenant a, pn_agent = pa_agent a, pn_kind = pa_kind a,
       pn_principal = pa_principal a, pn_action = pa_action a, pn_invocation = pa_invocation a,
       pn_body = pa_body a, pn_headers = sort_keys (JObj (map (map_prod id JStr) (pa_headers a))),
       pn_policy = pa_policy a, pn_status = Pending, pn_submitted = now,
       pn_expires = now + (case pa_ttl a of None \<Rightarrow> DEFAULT_TTL | Some d \<Rightarrow> if d = 0 then DEFAULT_TTL else d),
       pn_decided_at = None, pn_decided_by = None, pn_evidence = None,
       pn_arguments = map_option (\<lambda>kvs. sort_keys (default_str (JObj kvs))) (pa_arguments a) \<rparr>"

definition has_id :: "string \<Rightarrow> queue \<Rightarrow> bool" where
  "has_id i q = list_ex (\<lambda>r. pn_id r = i) q"

text \<open>The insert meets the primary key: one retry with a second random id, then the
error is the caller's.\<close>

definition create_pending :: "pending_args \<Rightarrow> instant \<Rightarrow> string \<Rightarrow> string \<Rightarrow> queue \<Rightarrow> (string + string) \<times> queue" where
  "create_pending a now uuid uuid' q =
     (if \<not> has_id uuid q then (Inr uuid, q @ [pending_row_of a now uuid])
      else if \<not> has_id uuid' q then (Inr uuid', q @ [pending_row_of a now uuid'])
      else (Inl ''IntegrityError'', q))"

section \<open>Decision\<close>

definition supports_returning :: "string \<Rightarrow> bool" where
  "supports_returning dialect = (dialect \<in> {''postgresql'', ''sqlite'', ''duckdb''})"

abbreviation decidable :: "string \<Rightarrow> instant \<Rightarrow> ident option \<Rightarrow> pending_row \<Rightarrow> bool" where
  "decidable i now t r \<equiv> pn_id r = i \<and> pn_status r = Pending \<and> now < pn_expires r
     \<and> (t = None \<or> t = Some (pn_tenant r))"

definition decide ::
    "bool \<Rightarrow> string \<Rightarrow> pending_status \<Rightarrow> string \<Rightarrow> instant \<Rightarrow> ident option \<Rightarrow> queue \<Rightarrow> (string + bool) \<times> queue" where
  "decide returning i decision who now t q =
     (if decision \<noteq> Approved \<and> decision \<noteq> Denied then (Inl ''ValueError'', q)
      else
        (let q' = map_where (decidable i now t)
               (\<lambda>r. r\<lparr> pn_status := decision, pn_decided_at := Some now, pn_decided_by := Some who \<rparr>) q
         in (Inr (if returning then list_ex (decidable i now t) q
                  else list_ex (\<lambda>r. pn_id r = i \<and> pn_status r = decision \<and> pn_decided_by r = Some who) q'),
             q')))"

section \<open>Reads\<close>

definition get_by_id :: "queue \<Rightarrow> string \<Rightarrow> pending_row option" where
  "get_by_id q i = List.find (\<lambda>r. pn_id r = i) q"

abbreviation resumable :: "string \<Rightarrow> instant \<Rightarrow> pending_row \<Rightarrow> bool" where
  "resumable i now r \<equiv> pn_id r = i \<and> pn_status r = Approved \<and> now < pn_expires r \<and> pn_evidence r = None"

definition find_ready_to_resume :: "queue \<Rightarrow> string \<Rightarrow> instant \<Rightarrow> pending_row option" where
  "find_ready_to_resume q i now = List.find (resumable i now) q"

definition list_by_tenant :: "queue \<Rightarrow> ident \<Rightarrow> pending_status option \<Rightarrow> int \<Rightarrow> pending_row list" where
  "list_by_tenant q t status limit =
     take (nat (max 1 (min limit 500)))
       (sort_key pn_expires (sort_key pn_submitted (sort_key pn_id
         (filter (\<lambda>r. pn_tenant r = t \<and> (status = None \<or> status = Some (pn_status r))) q))))"

section \<open>Completion and expiry\<close>

abbreviation completable :: "string \<Rightarrow> pending_row \<Rightarrow> bool" where
  "completable i r \<equiv> pn_id r = i \<and> pn_status r = Approved \<and> pn_evidence r = None"

definition mark_resumed :: "bool \<Rightarrow> string \<Rightarrow> int \<Rightarrow> queue \<Rightarrow> bool \<times> queue" where
  "mark_resumed returning i ev q =
     (let q' = map_where (completable i) (\<lambda>r. r\<lparr> pn_status := Resumed, pn_evidence := Some ev \<rparr>) q
      in (if returning then list_ex (completable i) q
          else list_ex (\<lambda>r. pn_id r = i \<and> pn_status r = Resumed \<and> pn_evidence r = Some ev) q',
          q'))"

definition overdue_ids :: "instant \<Rightarrow> int \<Rightarrow> queue \<Rightarrow> string list" where
  "overdue_ids now batch_size q =
     take (nat (max 1 (min batch_size 5000)))
       (map pn_id (filter (\<lambda>r. pn_status r = Pending \<and> pn_expires r \<le> now) q))"

text \<open>The ids go in chunks of 200 in one transaction, so the chunks together touch exactly
the ids found.\<close>

definition sweep_expired :: "instant \<Rightarrow> int \<Rightarrow> queue \<Rightarrow> nat \<times> queue" where
  "sweep_expired now batch_size q =
     (let ids = overdue_ids now batch_size q
      in (length ids,
          map_where (\<lambda>r. pn_id r \<in> set ids \<and> pn_status r = Pending) (\<lambda>r. r\<lparr> pn_status := Expired \<rparr>) q))"

section \<open>Histories\<close>

inductive queue_step :: "queue \<Rightarrow> queue \<Rightarrow> bool" where
  created: "queue_step q (snd (create_pending a now u u' q))"
| decided: "queue_step q (snd (decide ret i d who now t q))"
| resumed: "queue_step q (snd (mark_resumed ret i ev q))"
| swept: "queue_step q (snd (sweep_expired now n q))"

inductive_cases queue_stepE: "queue_step q q'"

inductive reachable_queue :: "queue \<Rightarrow> bool" where
  none: "reachable_queue []"
| more: "reachable_queue q \<Longrightarrow> queue_step q q' \<Longrightarrow> reachable_queue q'"

text \<open>The legal moves of one row.\<close>

definition may_follow :: "pending_status \<Rightarrow> pending_status \<Rightarrow> bool" where
  "may_follow s s' = (s = s' \<or> (s, s') \<in> {(Pending, Approved), (Pending, Denied), (Pending, Expired), (Approved, Resumed)})"

definition row_consistent :: "pending_row \<Rightarrow> bool" where
  "row_consistent r =
     ((pn_decided_at r = None) = (pn_status r \<in> {Pending, Expired})
      \<and> (pn_decided_by r = None) = (pn_decided_at r = None)
      \<and> (case pn_decided_at r of None \<Rightarrow> True | Some d \<Rightarrow> d < pn_expires r)
      \<and> (pn_evidence r = None) = (pn_status r \<noteq> Resumed))"

definition queue_wf :: "queue \<Rightarrow> bool" where
  "queue_wf q = (list_all row_consistent q \<and> distinct (map pn_id q))"

lemma queue_wf_map_where:
  assumes "queue_wf q" "\<And>r. P r \<Longrightarrow> row_consistent r \<Longrightarrow> row_consistent (f r)" "\<And>r. pn_id (f r) = pn_id r"
  shows "queue_wf (map_where P f q)"
proof -
  have "distinct (map pn_id (map_where P f q))"
    using map_map_where [of pn_id f P q] assms(1,3) by (simp add: queue_wf_def)
  moreover have "list_all row_consistent (map_where P f q)"
    using assms(1,2) by (auto simp: queue_wf_def list_all_iff map_where_def)
  ultimately show ?thesis by (simp add: queue_wf_def)
qed

lemma queue_wf_create: "queue_wf q \<Longrightarrow> queue_wf (snd (create_pending a now u u' q))"
  by (auto simp: create_pending_def queue_wf_def has_id_def pending_row_of_def row_consistent_def list_ex_iff)

lemma queue_wf_decide: "queue_wf q \<Longrightarrow> queue_wf (snd (decide ret i d who now t q))"
  by (auto simp: decide_def Let_def row_consistent_def intro!: queue_wf_map_where)

lemma queue_wf_resume: "queue_wf q \<Longrightarrow> queue_wf (snd (mark_resumed ret i ev q))"
  by (auto simp: mark_resumed_def Let_def row_consistent_def intro!: queue_wf_map_where)

lemma queue_wf_sweep: "queue_wf q \<Longrightarrow> queue_wf (snd (sweep_expired now n q))"
  by (auto simp: sweep_expired_def Let_def row_consistent_def intro!: queue_wf_map_where)

lemma queue_wf_step: "queue_step q q' \<Longrightarrow> queue_wf q \<Longrightarrow> queue_wf q'"
  by (erule queue_stepE) (auto simp: queue_wf_create queue_wf_decide queue_wf_resume queue_wf_sweep)

lemma reachable_queue_wf: "reachable_queue q \<Longrightarrow> queue_wf q"
  by (induction rule: reachable_queue.induct) (auto simp: queue_wf_def [of "[]"] queue_wf_step)

lemma get_map_where:
  assumes "\<And>r. pn_id (f r) = pn_id r"
  shows "get_by_id (map_where P f q) i = map_option (\<lambda>r. if P r then f r else r) (get_by_id q i)"
  using assms by (induction q) (auto simp: get_by_id_def)

lemma get_append: "get_by_id (q @ q') i = option_or (get_by_id q i) (get_by_id q' i)"
  by (simp add: get_by_id_def find_append option_or_def)

text \<open>One step changes a row only along a legal move, and never what the approver saw.\<close>

definition same_request :: "pending_row \<Rightarrow> pending_row \<Rightarrow> bool" where
  "same_request r r' =
     (pn_tenant r' = pn_tenant r \<and> pn_action r' = pn_action r \<and> pn_arguments r' = pn_arguments r
      \<and> pn_body r' = pn_body r \<and> pn_expires r' = pn_expires r)"

lemma step_row:
  assumes "queue_step q q'" "get_by_id q i = Some r"
  shows "\<exists>r'. get_by_id q' i = Some r' \<and> may_follow (pn_status r) (pn_status r') \<and> same_request r r'"
  using assms(1)
proof cases
  case (created a now u u')
  then show ?thesis
    using assms(2) by (auto simp: create_pending_def get_append may_follow_def same_request_def)
next
  case (decided ret j d who now t)
  then show ?thesis
    using assms(2)
    by (cases d) (auto simp: decide_def Let_def get_map_where may_follow_def same_request_def)
next
  case (resumed ret j ev)
  then show ?thesis
    using assms(2) by (auto simp: mark_resumed_def Let_def get_map_where may_follow_def same_request_def)
next
  case (swept now n)
  then show ?thesis
    using assms(2) by (auto simp: sweep_expired_def Let_def get_map_where may_follow_def same_request_def)
qed

lemma same_request_trans: "same_request r r1 \<Longrightarrow> same_request r1 r2 \<Longrightarrow> same_request r r2"
  by (simp add: same_request_def)

lemma run_row:
  "queue_step\<^sup>*\<^sup>* q q' \<Longrightarrow> get_by_id q i = Some r \<Longrightarrow>
     \<exists>r'. get_by_id q' i = Some r' \<and> may_follow\<^sup>*\<^sup>* (pn_status r) (pn_status r') \<and> same_request r r'"
proof (induction rule: rtranclp_induct)
  case (step q1 q2)
  then obtain r1 where r1: "get_by_id q1 i = Some r1" "may_follow\<^sup>*\<^sup>* (pn_status r) (pn_status r1)" "same_request r r1"
    by blast
  from step_row [OF step.hyps(2) r1(1)] r1(2,3) same_request_trans show ?case
    by (meson rtranclp.rtrancl_into_rtrancl)
qed (auto simp: same_request_def)

lemma final_status: "may_follow\<^sup>*\<^sup>* s s' \<Longrightarrow> s \<in> {Denied, Expired, Resumed} \<Longrightarrow> s' = s"
  by (induction rule: rtranclp_induct) (auto simp: may_follow_def)

lemma approved_goes: "may_follow\<^sup>*\<^sup>* s s' \<Longrightarrow> s = Approved \<Longrightarrow> s' \<in> {Approved, Resumed}"
  by (induction rule: rtranclp_induct) (auto simp: may_follow_def)

lemma distinct_ids_eq: "distinct (map pn_id q) \<Longrightarrow> x \<in> set q \<Longrightarrow> y \<in> set q \<Longrightarrow> pn_id x = pn_id y \<Longrightarrow> x = y"
  by (auto simp: distinct_map dest: inj_onD)

section \<open>One decision\<close>

text \<open>Several approvers decide on one call, one after another.\<close>

fun decide_all ::
    "bool \<Rightarrow> string \<Rightarrow> (pending_status \<times> string \<times> instant \<times> ident option) list \<Rightarrow> queue \<Rightarrow> bool list \<times> queue" where
  "decide_all returning i [] q = ([], q)"
| "decide_all returning i ((d, who, now, t) # cs) q =
     (case decide returning i d who now t q of
        (ans, q') \<Rightarrow> map_prod (Cons (ans = Inr True)) id (decide_all returning i cs q'))"

lemma decide_answer:
  assumes "get_by_id q i = Some r" "distinct (map pn_id q)"
  shows "fst (decide True i d who now t q) = Inr True \<longleftrightarrow> (d = Approved \<or> d = Denied) \<and> decidable i now t r"
proof -
  have "list_ex (decidable i now t) q = decidable i now t r"
    using assms
  proof (induction q)
    case (Cons x q)
    have "list_ex (decidable i now t) q = False" if "pn_id x = i"
    proof -
      have "\<forall>r\<in>set q. pn_id r \<noteq> i"
        using Cons.prems(2) that by (metis distinct.simps(2) image_eqI list.simps(9) set_map)
      then show ?thesis by (auto simp: list_ex_iff)
    qed
    then show ?case using Cons by (auto simp: get_by_id_def split: if_splits)
  qed (simp add: get_by_id_def)
  then show ?thesis by (auto simp: decide_def Let_def)
qed

lemma decide_row:
  "get_by_id q i = Some r \<Longrightarrow> get_by_id (snd (decide ret i d who now t q)) i =
     Some (if (d = Approved \<or> d = Denied) \<and> decidable i now t r
           then r\<lparr> pn_status := d, pn_decided_at := Some now, pn_decided_by := Some who \<rparr> else r)"
  by (auto simp: decide_def Let_def get_map_where)

lemma decide_ids: "map pn_id (snd (decide ret i d who now t q)) = map pn_id q"
  by (auto simp: decide_def Let_def intro: map_map_where)

lemma no_more_winners:
  "get_by_id q i = Some r \<Longrightarrow> distinct (map pn_id q) \<Longrightarrow> pn_status r \<noteq> Pending \<Longrightarrow>
     True \<notin> set (fst (decide_all True i cs q)) \<and> get_by_id (snd (decide_all True i cs q)) i = Some r"
proof (induction cs arbitrary: q)
  case (Cons c cs)
  obtain d who now t where c: "c = (d, who, now, t)" by (cases c)
  obtain ans q' where e: "decide True i d who now t q = (ans, q')" by (cases "decide True i d who now t q")
  have "ans \<noteq> Inr True" using decide_answer [OF Cons.prems(1,2), of d who now t] e Cons.prems(3) by auto
  moreover have "get_by_id q' i = Some r"
    using decide_row [OF Cons.prems(1), of True d who now t] e Cons.prems(3) by auto
  moreover have "distinct (map pn_id q')" using decide_ids [of True i d who now t q] e Cons.prems(2) by simp
  ultimately show ?case using Cons.IH [of q'] Cons.prems(3) c e by simp
qed simp

lemma winners_at_most_one:
  "get_by_id q i = Some r \<Longrightarrow> distinct (map pn_id q) \<Longrightarrow>
     length (filter id (fst (decide_all True i cs q))) \<le> 1"
proof (induction cs arbitrary: q r)
  case (Cons c cs)
  obtain d who now t where c: "c = (d, who, now, t)" by (cases c)
  obtain ans q' where e: "decide True i d who now t q = (ans, q')" by (cases "decide True i d who now t q")
  have d': "distinct (map pn_id q')" using decide_ids [of True i d who now t q] e Cons.prems(2) by simp
  have r': "get_by_id q' i = Some (if (d = Approved \<or> d = Denied) \<and> decidable i now t r
      then r\<lparr> pn_status := d, pn_decided_at := Some now, pn_decided_by := Some who \<rparr> else r)"
    using decide_row [OF Cons.prems(1), of True d who now t] e by simp
  show ?case
  proof (cases "ans = Inr True")
    case True
    then have won: "(d = Approved \<or> d = Denied) \<and> decidable i now t r"
      using decide_answer [OF Cons.prems(1,2), of d who now t] e by simp
    let ?r = "r\<lparr> pn_status := d, pn_decided_at := Some now, pn_decided_by := Some who \<rparr>"
    have r1: "get_by_id q' i = Some ?r" using r' by (subst (asm) if_P [OF won])
    have "pn_status ?r \<noteq> Pending" using won by auto
    from no_more_winners [OF r1 d' this, of cs]
    have "True \<notin> set (fst (decide_all True i cs q'))" by blast
    then have "filter id (fst (decide_all True i cs q')) = []" by (auto simp: filter_empty_conv)
    with True c e show ?thesis by (simp add: id_def)
  next
    case False
    with Cons.IH [OF r' d'] c e show ?thesis by simp
  qed
qed simp

section \<open>Properties\<close>

definition sample_pending :: pending_args where
  "sample_pending = \<lparr> pa_tenant = ''t'', pa_agent = ''a'', pa_kind = ''agent'', pa_principal = ''a1'',
     pa_action = ''mcp.fs.read'', pa_invocation = None, pa_body = [], pa_headers = [], pa_policy = [],
     pa_ttl = None, pa_arguments = None \<rparr>"

definition sample_queue :: queue where
  "sample_queue = [pending_row_of sample_pending 0 ''p1'']"

lemma sample_queue_reachable: "reachable_queue sample_queue"
  using reachable_queue.more [OF reachable_queue.none queue_step.created, of sample_pending 0 "''p1''" "''p2''"]
  by (simp add: create_pending_def has_id_def sample_queue_def)

lemma sample_queue_get: "get_by_id sample_queue ''p1'' = Some (pending_row_of sample_pending 0 ''p1'')"
  by (simp add: sample_queue_def get_by_id_def pending_row_of_def)

text \<open>C13. In every reachable queue a row carries its decider and the instant of the
decision exactly when it was decided, the decision came before the expiry, and an
evidence id exactly when it was resumed. From there on the row is never lost, what the
approver saw never changes, denied, expired and resumed are final, and only an approved
row is ever resumed.\<close>

theorem queue_state_machine:
  assumes "reachable_queue q" "get_by_id q i = Some r" "queue_step\<^sup>*\<^sup>* q q'"
  shows "row_consistent r
    \<and> (\<exists>r'. get_by_id q' i = Some r' \<and> same_request r r' \<and> row_consistent r'
        \<and> (pn_status r \<in> {Denied, Expired, Resumed} \<longrightarrow> pn_status r' = pn_status r)
        \<and> (pn_status r = Approved \<longrightarrow> pn_status r' \<in> {Approved, Resumed}))"
proof -
  have wf: "queue_wf q" using reachable_queue_wf [OF assms(1)] .
  have "queue_step\<^sup>*\<^sup>* q q' \<Longrightarrow> queue_wf q'"
    by (induction rule: rtranclp_induct) (auto simp: wf queue_wf_step)
  then have wf': "queue_wf q'" using assms(3) .
  have member: "get_by_id p i = Some x \<Longrightarrow> queue_wf p \<Longrightarrow> row_consistent x" for p x
    by (auto simp: get_by_id_def queue_wf_def list_all_iff dest: find_Some_iff_first)
  obtain r' where r': "get_by_id q' i = Some r'" "may_follow\<^sup>*\<^sup>* (pn_status r) (pn_status r')" "same_request r r'"
    using run_row [OF assms(3,2)] by blast
  have "pn_status r \<in> {Denied, Expired, Resumed} \<longrightarrow> pn_status r' = pn_status r"
    using final_status [OF r'(2)] by blast
  moreover have "pn_status r = Approved \<longrightarrow> pn_status r' \<in> {Approved, Resumed}"
    using approved_goes [OF r'(2)] by blast
  ultimately show ?thesis
    using member [OF assms(2) wf] member [OF r'(1) wf'] r' by blast
qed

theorem queue_state_machine_witness:
  "row_consistent (pending_row_of sample_pending 0 ''p1'')"
  using queue_state_machine [OF sample_queue_reachable sample_queue_get rtranclp.rtrancl_refl] by blast

text \<open>With UPDATE ... RETURNING at most one of any sequence of decisions on a call is
told that it won. Without it the second look is at the decision and the decider only:
whoever repeats his own decision is told again that he won, for any tenant and at any
time, although nothing changes.\<close>

theorem one_decision_wins:
  assumes "reachable_queue q" "get_by_id q i = Some r"
  shows "length (filter id (fst (decide_all True i cs q))) \<le> 1
    \<and> (pn_status r \<in> {Approved, Denied} \<and> pn_decided_by r = Some who \<longrightarrow>
         decide False i (pn_status r) who now t q = (Inr True, q))"
proof -
  have d: "distinct (map pn_id q)" using reachable_queue_wf [OF assms(1)] by (simp add: queue_wf_def)
  have "decide False i (pn_status r) who now t q = (Inr True, q)"
    if s: "pn_status r \<in> {Approved, Denied}" "pn_decided_by r = Some who"
  proof -
    have r: "r \<in> set q" "pn_id r = i"
      using assms(2) by (auto simp: get_by_id_def dest: find_Some_iff_first)
    have "\<forall>x\<in>set q. \<not> decidable i now t x"
    proof
      fix x assume "x \<in> set q"
      then have "pn_id x = i \<Longrightarrow> x = r" using distinct_ids_eq [OF d] r by metis
      then show "\<not> decidable i now t x" using s(1) by auto
    qed
    then have same: "map_where (decidable i now t)
        (\<lambda>x. x\<lparr> pn_status := pn_status r, pn_decided_at := Some now, pn_decided_by := Some who \<rparr>) q = q"
      by (rule map_where_id)
    show ?thesis
      using s r by (auto simp: decide_def Let_def same list_ex_iff)
  qed
  then show ?thesis using winners_at_most_one [OF assms(2) d, of cs] by blast
qed

theorem one_decision_wins_witness:
  "length (filter id (fst (decide_all True ''p1''
     [(Approved, ''x'', 1, None), (Denied, ''y'', 2, None)] sample_queue))) \<le> 1"
  using one_decision_wins [OF sample_queue_reachable sample_queue_get, THEN conjunct1] .

text \<open>C27. A resumed call is completed once: after the first completion the gate is shut and
a second completion is told no. Completion does not look at the clock, so it also
succeeds after the expiry. An approved call that nobody resumes in time is refused by
the gate from then on, and the sweep leaves it approved: it never becomes expired.\<close>

theorem resume_once_or_stall:
  assumes "reachable_queue q" "get_by_id q i = Some r" "pn_status r = Approved"
  shows "fst (mark_resumed True i ev q)
    \<and> find_ready_to_resume (snd (mark_resumed ret i ev q)) i later = None
    \<and> \<not> fst (mark_resumed True i ev' (snd (mark_resumed ret i ev q)))
    \<and> (find_ready_to_resume q i now = Some r \<longleftrightarrow> now < pn_expires r)
    \<and> get_by_id (snd (sweep_expired now n q)) i = Some r"
proof -
  have wf: "queue_wf q" using reachable_queue_wf [OF assms(1)] .
  then have d: "distinct (map pn_id q)" by (simp add: queue_wf_def)
  have r: "r \<in> set q" "pn_id r = i"
    using assms(2) by (auto simp: get_by_id_def dest: find_Some_iff_first)
  have ev: "pn_evidence r = None"
    using wf r(1) assms(3) by (auto simp: queue_wf_def list_all_iff row_consistent_def)
  have only: "x = r" if "x \<in> set q" "pn_id x = i" for x
    using that distinct_ids_eq [OF d] r by metis
  have first: "fst (mark_resumed True i ev q)"
    using r ev assms(3) by (auto simp: mark_resumed_def Let_def list_ex_iff)
  have shut: "\<forall>x\<in>set (snd (mark_resumed ret i ev q)). \<not> (pn_id x = i \<and> pn_status x = Approved)"
  proof
    fix x assume "x \<in> set (snd (mark_resumed ret i ev q))"
    then obtain y where y: "y \<in> set q"
      "x = (if completable i y then y\<lparr> pn_status := Resumed, pn_evidence := Some ev \<rparr> else y)"
      by (auto simp: mark_resumed_def Let_def map_where_def)
    show "\<not> (pn_id x = i \<and> pn_status x = Approved)"
    proof (cases "pn_id y = i")
      case True
      with only y(1) have "y = r" by blast
      with y(2) r ev assms(3) show ?thesis by simp
    qed (use y(2) in auto)
  qed
  then have "find_ready_to_resume (snd (mark_resumed ret i ev q)) i later = None"
    by (auto simp: find_ready_to_resume_def find_None_ball)
  moreover have "\<not> fst (mark_resumed True i ev' (snd (mark_resumed ret i ev q)))"
    using shut by (auto simp: mark_resumed_def [of True] Let_def list_ex_iff)
  moreover have "find_ready_to_resume q i now = Some r \<longleftrightarrow> now < pn_expires r"
  proof
    assume "find_ready_to_resume q i now = Some r"
    then show "now < pn_expires r" by (auto simp: find_ready_to_resume_def dest: find_Some_iff_first)
  next
    assume "now < pn_expires r"
    then have "find_ready_to_resume q i now \<noteq> None"
      using r ev assms(3) by (auto simp: find_ready_to_resume_def find_None_ball)
    then obtain x where "find_ready_to_resume q i now = Some x" by blast
    with only show "find_ready_to_resume q i now = Some r"
      by (auto simp: find_ready_to_resume_def dest: find_Some_iff_first)
  qed
  moreover have "get_by_id (snd (sweep_expired now n q)) i = Some r"
    using assms(2,3) by (simp add: sweep_expired_def Let_def get_map_where)
  ultimately show ?thesis using first by blast
qed

definition approved_queue :: queue where
  "approved_queue = snd (decide True ''p1'' Approved ''x'' 1 None sample_queue)"

lemma approved_queue_row:
  "get_by_id approved_queue ''p1'' = Some ((pending_row_of sample_pending 0 ''p1'')
     \<lparr> pn_status := Approved, pn_decided_at := Some 1, pn_decided_by := Some ''x'' \<rparr>)"
  by (simp add: approved_queue_def decide_row [OF sample_queue_get])
     (simp add: pending_row_of_def sample_pending_def DEFAULT_TTL_def)

theorem resume_once_or_stall_witness:
  "fst (mark_resumed True ''p1'' 7 approved_queue)"
proof -
  have "reachable_queue approved_queue"
    unfolding approved_queue_def by (rule reachable_queue.more [OF sample_queue_reachable queue_step.decided])
  from resume_once_or_stall [OF this approved_queue_row] show ?thesis by simp
qed

end
