(* ===== verification/McpProtocol.thy ===== *)
theory McpProtocol
  imports Json "HOL-Library.AList"
begin

text \<open>
  The wire of the gateway: the JSON-RPC envelope and its bounds
  (\<open>kya_gateway/mcp_protocol.py\<close>), tool names (\<open>kya_gateway/forwarder.py\<close>) and the merge
  of a verdict into a backend's answer (\<open>kya_gateway/server.py\<close>). Decoding JSON text is
  the library's; an object keeps its members as written, duplicates included.
\<close>

section \<open>Bounds on parameters\<close>

definition MAX_PARAMS_DEPTH :: nat where "MAX_PARAMS_DEPTH = 8"
definition MAX_KEYS_PER_LEVEL :: nat where "MAX_KEYS_PER_LEVEL = 64"
definition MAX_STRING_LENGTH :: nat where "MAX_STRING_LENGTH = 16384"
definition MAX_ARRAY_LENGTH :: nat where "MAX_ARRAY_LENGTH = 1024"
definition MAX_INT_BIT_LENGTH :: nat where "MAX_INT_BIT_LENGTH = 256"

fun check_params_shape :: "json \<Rightarrow> nat \<Rightarrow> bool" where
  "check_params_shape (JObj kvs) depth =
     (depth \<le> MAX_PARAMS_DEPTH \<and> length kvs \<le> MAX_KEYS_PER_LEVEL
      \<and> list_all (\<lambda>kv. length (fst kv) \<le> MAX_STRING_LENGTH \<and> check_params_shape (snd kv) (depth + 1)) kvs)"
| "check_params_shape (JList xs) depth =
     (depth \<le> MAX_PARAMS_DEPTH \<and> length xs \<le> MAX_ARRAY_LENGTH
      \<and> list_all (\<lambda>x. check_params_shape x (depth + 1)) xs)"
| "check_params_shape (JStr s) depth = (depth \<le> MAX_PARAMS_DEPTH \<and> length s \<le> MAX_STRING_LENGTH)"
| "check_params_shape (JInt i) depth = (depth \<le> MAX_PARAMS_DEPTH \<and> \<bar>i\<bar> < 2 ^ MAX_INT_BIT_LENGTH)"
| "check_params_shape _ depth = (depth \<le> MAX_PARAMS_DEPTH)"

section \<open>The envelope\<close>

definition ALLOWED_ENVELOPE_KEYS :: "string list" where
  "ALLOWED_ENVELOPE_KEYS = [''jsonrpc'', ''id'', ''method'', ''params'']"

definition ALLOWED_METHODS :: "string list" where
  "ALLOWED_METHODS =
     [''initialize'', ''ping'', ''tools/list'', ''tools/call'', ''resources/list'', ''resources/read'',
      ''prompts/list'', ''prompts/get'', ''completion/complete'', ''logging/setLevel'',
      ''notifications/cancelled'', ''notifications/progress'', ''notifications/initialized'',
      ''notifications/message'', ''notifications/resources/list_changed'', ''notifications/resources/updated'',
      ''notifications/tools/list_changed'', ''notifications/prompts/list_changed'']"

text \<open>The first repeated key, objects being completed inside out.\<close>

definition repeated_key :: "string list \<Rightarrow> string option" where
  "repeated_key ks =
     map_option (\<lambda>i. ks ! i) (List.find (\<lambda>i. ks ! i \<in> set (take i ks)) [0..<length ks])"

fun first_repeat :: "json \<Rightarrow> string option" where
  "first_repeat (JObj kvs) =
     (case List.find (\<lambda>r. r \<noteq> None) (map (\<lambda>kv. first_repeat (snd kv)) kvs) of
        Some r \<Rightarrow> r | None \<Rightarrow> repeated_key (map fst kvs))"
| "first_repeat (JList xs) =
     (case List.find (\<lambda>r. r \<noteq> None) (map first_repeat xs) of Some r \<Rightarrow> r | None \<Rightarrow> None)"
| "first_repeat _ = None"

record mcp_request =
  mq_raw :: json
  mq_method :: string
  mq_params :: jobj
  mq_id :: "json option"

definition is_notification :: "mcp_request \<Rightarrow> bool" where
  "is_notification q = (mq_id q = None)"

datatype parse_error =
    MalformedJson | DuplicateKey string | Batch | NotAnObject | UnexpectedKeys "string list"
  | BadVersion "json option" | BadMethod | MethodNotFound string | BadParams | ParamsShape

text \<open>\<open>decoded\<close> is what \<open>json.loads\<close> makes of the body, \<open>None\<close> a decode error.\<close>

definition parse_request :: "json option \<Rightarrow> parse_error + mcp_request" where
  "parse_request decoded =
     (case decoded of
        None \<Rightarrow> Inl MalformedJson
      | Some j \<Rightarrow>
          (case first_repeat j of
             Some k \<Rightarrow> Inl (DuplicateKey k)
           | None \<Rightarrow>
             (case j of
                JList _ \<Rightarrow> Inl Batch
              | JObj kvs \<Rightarrow>
                  (let extra = filter (\<lambda>k. k \<notin> set ALLOWED_ENVELOPE_KEYS) (map fst kvs)
                   in if extra \<noteq> [] then Inl (UnexpectedKeys (sort extra))
                      else if map_of kvs ''jsonrpc'' \<noteq> Some (JStr ''2.0'') then Inl (BadVersion (map_of kvs ''jsonrpc''))
                      else (case map_of kvs ''method'' of
                          Some (JStr m) \<Rightarrow>
                            if m = [] then Inl BadMethod
                            else if m \<notin> set ALLOWED_METHODS then Inl (MethodNotFound m)
                            else (case map_of kvs ''params'' of
                                Some (JObj ps) \<Rightarrow>
                                  if check_params_shape (JObj ps) 0
                                  then Inr \<lparr> mq_raw = j, mq_method = m, mq_params = ps, mq_id = map_of kvs ''id'' \<rparr>
                                  else Inl ParamsShape
                              | p \<Rightarrow>
                                  if p = None \<or> p = Some JNull
                                  then Inr \<lparr> mq_raw = j, mq_method = m, mq_params = [], mq_id = map_of kvs ''id'' \<rparr>
                                  else Inl BadParams)
                        | _ \<Rightarrow> Inl BadMethod))
              | _ \<Rightarrow> Inl NotAnObject)))"

definition tool_name :: "mcp_request \<Rightarrow> json option" where
  "tool_name q = (if mq_method q \<noteq> ''tools/call'' then None else map_of (mq_params q) ''name'')"

fun json_falsy :: "json \<Rightarrow> bool" where
  "json_falsy (JInt i) = (i = 0)"
| "json_falsy (JBool b) = (\<not> b)"
| "json_falsy (JStr s) = (s = [])"
| "json_falsy (JList xs) = (xs = [])"
| "json_falsy (JObj kvs) = (kvs = [])"
| "json_falsy JNull = True"
| "json_falsy _ = False"

definition tool_arguments :: "mcp_request \<Rightarrow> json" where
  "tool_arguments q =
     (if mq_method q \<noteq> ''tools/call'' then JObj []
      else (case map_of (mq_params q) ''arguments'' of
              None \<Rightarrow> JObj [] | Some a \<Rightarrow> if json_falsy a then JObj [] else a))"

definition make_error :: "json \<Rightarrow> int \<Rightarrow> string \<Rightarrow> json option \<Rightarrow> json" where
  "make_error rid code message data =
     JObj [(''jsonrpc'', JStr ''2.0''), (''id'', rid),
           (''error'', JObj ([(''code'', JInt code), (''message'', JStr message)]
              @ (case data of None \<Rightarrow> [] | Some d \<Rightarrow> [(''data'', d)])))]"

definition make_response :: "json \<Rightarrow> json \<Rightarrow> json" where
  "make_response rid result = JObj [(''jsonrpc'', JStr ''2.0''), (''id'', rid), (''result'', result)]"

definition initialize_result :: json where
  "initialize_result = JObj [(''protocolVersion'', JStr ''2024-11-05''),
     (''capabilities'', JObj [(''tools'', JObj [])]),
     (''serverInfo'', JObj [(''name'', JStr ''kya-gateway''), (''version'', JStr ''0.1.0'')])]"

section \<open>Tool names\<close>

definition MAX_TOOL_SEGMENT_BYTES :: nat where "MAX_TOOL_SEGMENT_BYTES = 256"

text \<open>\<open>uni\<close> is NFKC normalisation, case folding and stripping, on UTF-8 text; on ASCII it is
\<open>ascii_canon\<close>. Of what is left every byte must be a visible ASCII character.\<close>

definition ascii_canon :: "string \<Rightarrow> string" where
  "ascii_canon s = strip (lower s)"

definition canonicalize_tool_segment :: "(string \<Rightarrow> string) \<Rightarrow> string \<Rightarrow> string option" where
  "canonicalize_tool_segment uni s =
     (if MAX_TOOL_SEGMENT_BYTES < length s then None
      else (let canon = uni s
            in if canon = [] \<or> \<not> list_all (\<lambda>c. 32 < code_of c \<and> code_of c < 127) canon then None
               else Some canon))"

definition parse_backend_from_tool :: "(string \<Rightarrow> string) \<Rightarrow> json \<Rightarrow> (string \<times> string) option" where
  "parse_backend_from_tool uni name =
     (case name of
        JStr s \<Rightarrow>
          (case split_on CHR ''.'' s of
             [bare] \<Rightarrow> map_option (\<lambda>b. (''default'', b)) (canonicalize_tool_segment uni bare)
           | [backend, bare] \<Rightarrow>
               (case canonicalize_tool_segment uni backend of
                  None \<Rightarrow> None
                | Some b \<Rightarrow> map_option (\<lambda>t. (b, t)) (canonicalize_tool_segment uni bare))
           | _ \<Rightarrow> None)
      | _ \<Rightarrow> None)"

definition action_from_tool_call :: "string \<Rightarrow> string \<Rightarrow> string" where
  "action_from_tool_call backend tool = ''mcp.'' @ backend @ ''.'' @ tool"

section \<open>A verdict in a backend's answer\<close>

type_synonym headers = "(string \<times> string) list"

datatype reply_body = JsonBody json | RawBody string | NoBody

record http_reply =
  rp_status :: int
  rp_headers :: headers
  rp_body :: reply_body

record backend_reply =
  br_status :: int
  br_json_type :: bool
  br_body :: string

fun comma_join :: "string list \<Rightarrow> string" where
  "comma_join [] = []"
| "comma_join [s] = s"
| "comma_join (s # ss) = s @ '','' @ comma_join ss"

text \<open>The members of an answer after \<open>kya_verdict\<close> is merged in.\<close>

definition merge_error :: "json \<Rightarrow> jobj \<Rightarrow> jobj" where
  "merge_error payload err =
     (case map_of err ''data'' of
        Some (JObj d) \<Rightarrow> AList.update ''data'' (JObj (AList.update ''kya_verdict'' payload d)) err
      | data \<Rightarrow>
          if data = None \<or> data = Some JNull then AList.update ''data'' (JObj [(''kya_verdict'', payload)]) err
          else AList.update ''data'' (JObj [(''backend_data'', the data), (''kya_verdict'', payload)]) err)"

definition merge_verdict :: "json \<Rightarrow> jobj \<Rightarrow> jobj" where
  "merge_verdict payload body =
     (if map_of body ''jsonrpc'' \<noteq> Some (JStr ''2.0'') then AList.update ''kya_verdict'' payload body
      else (case map_of body ''result'' of
          Some (JObj r) \<Rightarrow> AList.update ''result'' (JObj (AList.update ''kya_verdict'' payload r)) body
        | Some r \<Rightarrow> AList.update ''result'' (JObj [(''value'', r), (''kya_verdict'', payload)]) body
        | None \<Rightarrow>
            (case map_of body ''error'' of
               Some (JObj err) \<Rightarrow> AList.update ''error'' (JObj (merge_error payload err)) body
             | _ \<Rightarrow> AList.update ''result'' (JObj [(''kya_verdict'', payload)]) body)))"

text \<open>\<open>loads\<close> decodes the body of the backend.\<close>

definition shape_response_with_verdict ::
    "(string \<Rightarrow> json option) \<Rightarrow> backend_reply \<Rightarrow> string \<Rightarrow> string list \<Rightarrow> string \<Rightarrow> http_reply" where
  "shape_response_with_verdict loads br verdict_str reasons mode =
     (let headers = [(''X-KYA-Verdict'', verdict_str), (''X-KYA-Reason-Codes'', comma_join reasons)];
          payload = JObj [(''verdict'', JStr verdict_str), (''reason_codes'', JList (map JStr reasons))];
          raw = \<lparr> rp_status = br_status br, rp_headers = headers, rp_body = RawBody (br_body br) \<rparr>
      in if mode = ''advise'' \<and> br_json_type br then
           (case (if br_body br = [] then Some (JObj []) else loads (br_body br)) of
              Some (JObj body) \<Rightarrow> raw\<lparr> rp_body := JsonBody (JObj (merge_verdict payload body)) \<rparr>
            | _ \<Rightarrow> raw)
         else raw)"

end
