(* ===== verification/Throttle.thy ===== *)
theory Throttle
  imports Prelude "HOL-Library.AList"
begin

text \<open>
  The gateway's own in-memory limiters (\<open>kya_gateway/server.py\<close>): the throttle on evidence
  for unauthenticated calls, the sliding window of the introspection endpoint, and the
  client address they are keyed by. Each holds its lock for the whole call. Times are of the
  monotonic clock, in microseconds.
\<close>

definition seconds :: "int \<Rightarrow> instant" where
  "seconds n = n * 1000000"

section \<open>The client's address\<close>

text \<open>\<open>in_network\<close> is the test of the \<open>ipaddress\<close> module, \<open>None\<close> a range it cannot parse.\<close>

fun trusted_peer :: "(string \<Rightarrow> bool option) \<Rightarrow> string list \<Rightarrow> bool" where
  "trusted_peer in_network [] = False"
| "trusted_peer in_network (c # cs) =
     (if strip c \<noteq> [] \<and> in_network (strip c) = Some True then True else trusted_peer in_network cs)"

definition client_ip ::
    "string option \<Rightarrow> string \<Rightarrow> bool \<Rightarrow> (string \<Rightarrow> bool option) \<Rightarrow> string option \<Rightarrow> string" where
  "client_ip host trusted_raw valid in_network xff =
     (let direct = or_else host ''unknown''
      in if trusted_raw = [] \<or> \<not> valid then direct
         else if trusted_peer in_network (split_on CHR '','' trusted_raw)
         then (let leftmost = strip (hd (split_on CHR '','' (or_else xff [])))
               in if leftmost = [] then direct else leftmost)
         else direct)"

section \<open>Evidence of unauthenticated calls\<close>

type_synonym throttle = "(string \<times> instant \<times> nat) list"

definition UNAUTH_EVIDENCE_MAX_IPS :: nat where "UNAUTH_EVIDENCE_MAX_IPS = 5000"
definition EVICT_BUDGET :: nat where "EVICT_BUDGET = 50"

fun evict_stale :: "nat \<Rightarrow> instant \<Rightarrow> throttle \<Rightarrow> throttle" where
  "evict_stale 0 now xs = xs"
| "evict_stale (Suc n) now [] = []"
| "evict_stale (Suc n) now ((ip, t, c) # xs) =
     (if seconds 5 < now - t then evict_stale n now xs else (ip, t, c) # evict_stale (Suc n) now xs)"

text \<open>The first key whose value is least.\<close>

fun first_least :: "('v \<Rightarrow> instant) \<Rightarrow> (string \<times> 'v) list \<Rightarrow> string option" where
  "first_least f [] = None"
| "first_least f [(k, v)] = Some k"
| "first_least f ((k, v) # (l, w) # xs) =
     (if f v \<le> f w then first_least f ((k, v) # xs) else first_least f ((l, w) # xs))"

definition drop_least :: "('v \<Rightarrow> instant) \<Rightarrow> (string \<times> 'v) list \<Rightarrow> (string \<times> 'v) list" where
  "drop_least f xs = (case first_least f xs of None \<Rightarrow> xs | Some k \<Rightarrow> AList.delete k xs)"

definition make_room :: "instant \<Rightarrow> throttle \<Rightarrow> throttle" where
  "make_room now xs =
     (if length xs < UNAUTH_EVIDENCE_MAX_IPS then xs
      else (let xs' = evict_stale EVICT_BUDGET now xs
            in if length xs' < UNAUTH_EVIDENCE_MAX_IPS then xs' else drop_least fst xs'))"

definition should_record_unauth_evidence :: "nat \<Rightarrow> instant \<Rightarrow> string \<Rightarrow> throttle \<Rightarrow> bool \<times> throttle" where
  "should_record_unauth_evidence rate now ip xs =
     (let xs' = make_room now xs;
          (last, count) = (case map_of xs' ip of None \<Rightarrow> (0, 0) | Some e \<Rightarrow> e)
      in if seconds 1 \<le> now - last then (True, AList.update ip (now, 1) xs')
         else if rate \<le> count then (False, xs')
         else (True, AList.update ip (last, count + 1) xs'))"

section \<open>The sliding window\<close>

type_synonym windows = "(string \<times> instant list) list"

definition ME_RATE_LIMIT_PER_MIN :: nat where "ME_RATE_LIMIT_PER_MIN = 60"
definition ME_RATE_MAX_TRACKED_IPS :: nat where "ME_RATE_MAX_TRACKED_IPS = 10000"

definition last_touch :: "instant list \<Rightarrow> instant" where
  "last_touch win = (if win = [] then 0 else last win)"

definition me_make_room :: "instant \<Rightarrow> windows \<Rightarrow> windows" where
  "me_make_room cutoff ws =
     (if length ws < ME_RATE_MAX_TRACKED_IPS then ws
      else (let ws' = filter (\<lambda>(ip, win). win \<noteq> [] \<and> cutoff \<le> last win) ws
            in if length ws' < ME_RATE_MAX_TRACKED_IPS then ws' else drop_least last_touch ws'))"

definition me_rate_limit_check :: "instant \<Rightarrow> string \<Rightarrow> windows \<Rightarrow> bool \<times> windows" where
  "me_rate_limit_check now ip ws =
     (let cutoff = now - seconds 60;
          ws' = me_make_room cutoff ws;
          win = dropWhile (\<lambda>t. t < cutoff) (case map_of ws' ip of None \<Rightarrow> [] | Some w \<Rightarrow> w)
      in if ME_RATE_LIMIT_PER_MIN \<le> length win then (False, AList.update ip win ws')
         else (True, AList.update ip (win @ [now]) ws'))"

end
