(* ===== verification/Gateway.thy ===== *)
theory Gateway
  imports Pipeline Invocations Pending Evidence McpProtocol Throttle
begin

text \<open>
  The gateway's handlers (\<open>kya_gateway/server.py\<close>): POST /mcp from the body cap to the
  backend's answer, and POST /v1/policy/decide. They compose the decision stack, the
  invocation table, the evidence chain, the trust ledger and the approval queue. The
  backends, the identity resolver and the decoding of JSON text are parameters; a
  database that fails is a flag of its step.
\<close>

section \<open>Configuration and state\<close>

definition ENFORCEMENT_MODES :: "string list" where
  "ENFORCEMENT_MODES = [''audit_only'', ''advise'', ''enforce'']"

definition MAX_HTTP_BODY_BYTES :: int where "MAX_HTTP_BODY_BYTES = 32 * 1024 * 1024"
definition MAX_DECIDE_BODY_BYTES :: int where "MAX_DECIDE_BODY_BYTES = 1000000"

text \<open>What the identity resolver makes of the headers: a principal, or an exception. Of the
exception the gateway reads the names of its class and of the class's bases, the typed code
of a proof of possession, the codes and the text of the answer, and the principal that a
revocation carries.\<close>

record identity_failure =
  xf_class :: string
  xf_bases :: "string list"
  xf_dpop :: "string option"
  xf_jsonrpc :: int
  xf_status :: int
  xf_text :: string
  xf_kind :: "string option"
  xf_id :: "string option"

datatype identity = Bound bound_principal | Unbound identity_failure

record 'st gateway_env =
  ge_tenant :: ident
  ge_mode :: string
  ge_policy :: policy_config
  ge_pipeline :: "'st pipeline_env"
  ge_backends :: "string list"
  ge_backend :: "string \<Rightarrow> json \<Rightarrow> headers \<Rightarrow> backend_reply option"
  ge_loads :: "string \<Rightarrow> json option"
  ge_uni :: "string \<Rightarrow> string"
  ge_sha :: "string \<Rightarrow> string"
  ge_invocations :: invocation_env
  ge_invocation_ok :: bool
  ge_finalise_ok :: bool
  ge_evidence :: evidence_env
  ge_evidence_ok :: bool
  ge_queue_ok :: bool
  ge_production :: bool
  ge_max_pending_body :: int
  ge_redact :: "json \<Rightarrow> json"
  ge_uuids :: "string \<times> string"
  ge_resolve :: "headers \<Rightarrow> identity"
  ge_repr :: "json \<Rightarrow> string"
  ge_monotonic :: instant
  ge_unauth_rate :: nat
  ge_policy_hash :: string
  ge_now :: instant

record 'st gateway_state =
  gs_pipeline :: "'st pipeline_state"
  gs_invocations :: invocation_db
  gs_evidence :: evidence_db
  gs_queue :: queue
  gs_sent :: "(string \<times> json) list"
  gs_throttle :: throttle

section \<open>The invocation row\<close>

definition VERDICT_TO_TERMINAL_OUTCOME :: "(string \<times> string) list" where
  "VERDICT_TO_TERMINAL_OUTCOME =
     [(''allow'', ''success''), (''deny'', ''denied''), (''block'', ''blocked''), (''throttle'', ''throttled''),
      (''redact'', ''partial''), (''anonymize'', ''partial'')]"

definition DELIBERATELY_PENDING_VERDICTS :: "string list" where
  "DELIBERATELY_PENDING_VERDICTS = [''flag_for_review'', ''require_human'']"

definition short_agent_key :: "(string \<Rightarrow> string) \<Rightarrow> ident \<Rightarrow> string" where
  "short_agent_key sha pid = (if pid = [] then ''anon'' else ''kya-'' @ take 28 (sha pid))"

definition record_invocation_pre_policy ::
    "'st gateway_env \<Rightarrow> bound_principal \<Rightarrow> invocation_db \<Rightarrow> int option \<times> invocation_db" where
  "record_invocation_pre_policy g p db =
     (if \<not> ge_invocation_ok g then (None, db)
      else (case record_invocation (ge_invocations g)
              \<lparr> ia_tenant = ge_tenant g, ia_agent = short_agent_key (ge_sha g) (bp_id p), ia_kind = Some (bp_kind p),
                ia_principal = Some (bp_id p), ia_mode = ''observed'', ia_outcome = ''pending'', ia_duration = None,
                ia_parent = None, ia_corr = None, ia_occurred = None, ia_started = None, ia_ended = None \<rparr> db of
            (Inr i, db') \<Rightarrow> (Some i, db')
          | (Inl _, db') \<Rightarrow> (None, db')))"

definition finalise_invocation ::
    "'st gateway_env \<Rightarrow> int option \<Rightarrow> string option \<Rightarrow> string option \<Rightarrow> invocation_db \<Rightarrow> invocation_db" where
  "finalise_invocation g iid verdict_value outcome_override db =
     (if iid = None then db
      else (case option_or (if truthy outcome_override then outcome_override else None)
                   (map_of VERDICT_TO_TERMINAL_OUTCOME (or_else verdict_value [])) of
              None \<Rightarrow> db
            | Some out \<Rightarrow>
                if ge_finalise_ok g then snd (finalize_invocation_outcome iid out (Some (ge_tenant g)) db) else db))"

section \<open>Evidence and trust\<close>

text \<open>The evidence row and the trust signal share one guard: when the row cannot be written
there is no signal either. A row needs an invocation id.\<close>

definition verdict_payload :: "string \<Rightarrow> gateway_verdict \<Rightarrow> bound_principal \<Rightarrow> json \<Rightarrow> json option \<Rightarrow> json" where
  "verdict_payload act v p params args =
     JObj ([(''action'', JStr act), (''verdict'', JStr (gv_verdict v)),
            (''reason_codes'', JList (map JStr (gv_reasons v))), (''tool_call'', params),
            (''method'', JStr (bp_method p)),
            (''external_subject'', (case bp_subject p of None \<Rightarrow> JNull | Some s \<Rightarrow> JStr s))]
           @ (case args of None \<Rightarrow> [] | Some a \<Rightarrow> [(''tool_arguments'', a)]))"

definition evaluator_of :: "gateway_verdict \<Rightarrow> string option" where
  "evaluator_of v = (case map_of (gv_rich v) ''evaluator_name'' of Some (Js (JStr s)) \<Rightarrow> Some s | _ \<Rightarrow> None)"

definition record_verdict_evidence ::
    "'st gateway_env \<Rightarrow> bound_principal \<Rightarrow> string \<Rightarrow> gateway_verdict \<Rightarrow> json \<Rightarrow> int option \<Rightarrow> json option \<Rightarrow>
     'st gateway_state \<Rightarrow> int option \<times> 'st gateway_state" where
  "record_verdict_evidence g p act v params iid args s =
     (case iid of
        None \<Rightarrow> (None, s)
      | Some i \<Rightarrow>
          if \<not> ge_evidence_ok g then (None, s)
          else (case record_evidence (ge_evidence g)
                  \<lparr> a_tenant = ge_tenant g, a_inv = i, a_kind = ''gateway_verdict'',
                    a_payload = verdict_payload act v p params args, a_role = None, a_source = None,
                    a_occurred = None, a_classes = None, a_corr = None, a_parent = None, a_span = None,
                    a_retention = None, a_evaluator = evaluator_of v \<rparr> (gs_evidence s) of
              (Inl _, ev) \<Rightarrow> (None, s\<lparr> gs_evidence := ev \<rparr>)
            | (Inr row, ev) \<Rightarrow>
                (let rb = pe_rbac (ge_pipeline g);
                     (r, tab) = record_principal_signal (re_kinds rb) (re_commits rb)
                       (ps_principals (gs_pipeline s)) (ge_tenant g, bp_kind p, bp_id p) (gv_signal v) None
                       [(''action'', act), (''reason_codes'', comma_join (gv_reasons v))] None True None (ge_now g);
                     s' = s\<lparr> gs_evidence := ev,
                             gs_pipeline := (gs_pipeline s)\<lparr> ps_principals := tab \<rparr> \<rparr>
                 in (case r of Inl _ \<Rightarrow> (None, s') | Inr _ \<Rightarrow> (Some row, s')))))"

section \<open>The policy call\<close>

text \<open>Arguments that are not an object break the assembly of the evaluator's input, after
the stages have run.\<close>

definition run_policy ::
    "'st gateway_env \<Rightarrow> bound_principal \<Rightarrow> string \<Rightarrow> int \<Rightarrow> int option \<Rightarrow> json \<Rightarrow> 'st pipeline_state \<Rightarrow>
     gateway_verdict option \<times> 'st pipeline_state" where
  "run_policy g p act payload_bytes iid args s =
     (case args of
        JObj kvs \<Rightarrow>
          (case evaluate (ge_pipeline g) (ge_tenant g) p act payload_bytes iid (ge_policy g) kvs s of
             (v, s') \<Rightarrow> (Some v, s'))
      | _ \<Rightarrow>
          if json_falsy args
          then (case evaluate (ge_pipeline g) (ge_tenant g) p act payload_bytes iid (ge_policy g) [] s of
                  (v, s') \<Rightarrow> (Some v, s'))
          else (None, snd (run_stages (ge_pipeline g) (ge_tenant g) p act payload_bytes (ge_policy g) s)))"

section \<open>The approval queue\<close>

definition DROPPED_HEADERS :: "string list" where
  "DROPPED_HEADERS = [''authorization'', ''cookie'', ''proxy-authorization'', ''x-api-key'',
     ''x-auth-token'', ''x-access-token'']"

text \<open>\<open>Inl\<close> is an exception that leaves the function: outside production the error of a
failing write is raised again.\<close>

definition create_pending_row ::
    "'st gateway_env \<Rightarrow> bound_principal \<Rightarrow> string \<Rightarrow> string \<Rightarrow> int option \<Rightarrow> headers \<Rightarrow> json option \<Rightarrow> queue \<Rightarrow>
     (string + string option) \<times> queue" where
  "create_pending_row g p act body iid headers args q =
     (let failed = (\<lambda>q'. if ge_production g then (Inr None, q') else (Inl ''raised'', q'))
      in if \<not> ge_queue_ok g then failed q
         else if ge_max_pending_body g < int (length body) then (Inr None, q)
         else (case create_pending
                 \<lparr> pa_tenant = ge_tenant g, pa_agent = short_agent_key (ge_sha g) (bp_id p),
                   pa_kind = bp_kind p, pa_principal = bp_id p, pa_action = act, pa_invocation = iid,
                   pa_body = body,
                   pa_headers = filter (\<lambda>h. lower (fst h) \<notin> set DROPPED_HEADERS) headers,
                   pa_policy = ge_policy_hash g, pa_ttl = None,
                   pa_arguments = (case map_option (ge_redact g) args of Some (JObj kvs) \<Rightarrow> Some kvs | _ \<Rightarrow> None) \<rparr>
                 (ge_now g) (fst (ge_uuids g)) (snd (ge_uuids g)) q of
               (Inr i, q') \<Rightarrow> (Inr (Some i), q')
             | (Inl _, q') \<Rightarrow> failed q'))"

section \<open>Replies\<close>

definition json_reply :: "int \<Rightarrow> headers \<Rightarrow> json \<Rightarrow> http_reply" where
  "json_reply status headers j = \<lparr> rp_status = status, rp_headers = headers, rp_body = JsonBody j \<rparr>"

definition no_content :: http_reply where
  "no_content = \<lparr> rp_status = 204, rp_headers = [], rp_body = NoBody \<rparr>"

definition verdict_headers :: "string \<Rightarrow> string list \<Rightarrow> headers" where
  "verdict_headers v reasons = [(''X-KYA-Verdict'', v), (''X-KYA-Reason-Codes'', comma_join reasons)]"

definition request_id :: "mcp_request \<Rightarrow> json" where
  "request_id q = (case mq_id q of None \<Rightarrow> JNull | Some i \<Rightarrow> i)"

definition server_error :: http_reply where
  "server_error = \<lparr> rp_status = 500, rp_headers = [], rp_body = RawBody ''Internal Server Error'' \<rparr>"

definition reason_text :: "string list \<Rightarrow> string" where
  "reason_text rs = concat (case rs of [] \<Rightarrow> [] | r # rs' \<Rightarrow> r # map (\<lambda>x. '', '' @ x) rs')"

definition deny_reply :: "mcp_request \<Rightarrow> gateway_verdict \<Rightarrow> http_reply" where
  "deny_reply q v =
     json_reply 403 (verdict_headers ''deny'' (gv_reasons v))
       (make_error (request_id q) (- 32001) (''KYA verdict: deny ('' @ reason_text (gv_reasons v) @ '')'')
         (Some (JObj [(''reason_codes'', JList (map JStr (gv_reasons v))), (''verdict'', JStr ''deny'')])))"

definition unsupported_reply :: "mcp_request \<Rightarrow> gateway_verdict \<Rightarrow> http_reply" where
  "unsupported_reply q v =
     json_reply 403 (verdict_headers ''deny'' (gv_reasons v))
       (make_error (request_id q) (- 32001)
         (''KYA verdict: '' @ gv_verdict v @ '' ('' @ reason_text (gv_reasons v) @ '') unsupported verdict, treated as deny'')
         (Some (JObj [(''reason_codes'', JList (map JStr (gv_reasons v))), (''verdict'', JStr ''deny''),
                      (''original_verdict'', JStr (gv_verdict v))])))"

definition review_reply :: "mcp_request \<Rightarrow> gateway_verdict \<Rightarrow> string option \<Rightarrow> http_reply" where
  "review_reply q v pending_id =
     json_reply 428
       ((''WWW-Authenticate'', ''KYA-Human-Approval realm=\"kya-gateway\"'')
        # (if truthy pending_id then [(''X-Kya-Pending-Id'', or_else pending_id [])] else []))
       (make_error (request_id q) (- 32007) ''KYA verdict: flag_for_review''
         (Some (JObj [(''reason_codes'', JList (map JStr (gv_reasons v))), (''verdict'', JStr ''flag_for_review''),
                      (''pending_id'', (case pending_id of None \<Rightarrow> JNull | Some i \<Rightarrow> JStr i))])))"

definition crash_reply :: "mcp_request \<Rightarrow> http_reply" where
  "crash_reply q =
     json_reply 500 (verdict_headers ''deny'' [''POLICY_ENGINE_ERROR''])
       (make_error (request_id q) (- 32603) ''KYA policy pipeline crash (fail-closed deny)''
         (Some (JObj [(''verdict'', JStr ''deny''), (''reason_codes'', JList [JStr ''POLICY_ENGINE_ERROR'']),
                      (''signal_kind'', JStr ''policy_engine_error'')])))"

section \<open>Forwarding\<close>

definition outbound_headers :: "string \<Rightarrow> string \<Rightarrow> string list \<Rightarrow> bound_principal \<Rightarrow> headers" where
  "outbound_headers mode v reasons p =
     (if mode = ''enforce'' then []
      else verdict_headers v reasons @
           [(''X-KYA-Principal-Kind'', bp_kind p), (''X-KYA-Principal-Id'', bp_id p), (''X-KYA-Mode'', mode)])"

text \<open>A call to a backend that is not configured, does not answer or answers with a server
error is answered with 502; only a configured one is asked. The text of the error is a
placeholder.\<close>

definition forward ::
    "'st gateway_env \<Rightarrow> string \<Rightarrow> mcp_request \<Rightarrow> string \<Rightarrow> string list \<Rightarrow> bound_principal \<Rightarrow> 'st gateway_state \<Rightarrow>
     http_reply \<times> 'st gateway_state" where
  "forward g backend q v reasons p s =
     (let unreachable = json_reply 502 [] (make_error (request_id q) (- 32003) ''backend unreachable'' None)
      in if backend \<notin> set (ge_backends g) then (unreachable, s)
         else
           (let s' = s\<lparr> gs_sent := gs_sent s @ [(backend, mq_raw q)] \<rparr>
            in (case ge_backend g backend (mq_raw q) (outbound_headers (ge_mode g) v reasons p) of
                  None \<Rightarrow> (unreachable, s')
                | Some br \<Rightarrow>
                    if 500 \<le> br_status br then (unreachable, s')
                    else if ge_mode g = ''enforce''
                    then (\<lparr> rp_status = br_status br, rp_headers = [], rp_body = RawBody (br_body br) \<rparr>, s')
                    else (shape_response_with_verdict (ge_loads g) br v reasons (ge_mode g), s'))))"

definition proxy_passthrough ::
    "'st gateway_env \<Rightarrow> mcp_request \<Rightarrow> string \<Rightarrow> string list \<Rightarrow> bound_principal \<Rightarrow> 'st gateway_state \<Rightarrow>
     http_reply \<times> 'st gateway_state" where
  "proxy_passthrough g q v reasons p s =
     (case (if ''default'' \<in> set (ge_backends g) then Some ''default''
            else (case ge_backends g of [] \<Rightarrow> None | b # _ \<Rightarrow> Some b)) of
        None \<Rightarrow> (json_reply 500 [] (make_error (request_id q) (- 32603) ''no backends configured'' None), s)
      | Some b \<Rightarrow> forward g b q v reasons p s)"

end
