(* ===== verification/Endpoints.thy ===== *)
theory Endpoints
  imports Gateway
begin

text \<open>
  The handlers of \<open>kya_gateway/server.py\<close>: what a failed identity leaves behind, POST /mcp
  and POST /v1/policy/decide. A handler takes the request and the state and gives the reply
  and the next state. A body that is not UTF-8, or nests past the recursion limit of the
  decoder, is not modelled.
\<close>

section \<open>Identity failures\<close>

definition IDENTITY_FAIL_CODES :: "(string \<times> string) list" where
  "IDENTITY_FAIL_CODES =
     [(''IdentityCredentialInvalid'', ''IDENTITY_CRED_INVALID''), (''IdentityBindingFailed'', ''IDENTITY_MISSING''),
      (''DPoPError'', ''IDENTITY_DPOP_INVALID''), (''RevocationBlocked'', ''IDENTITY_REVOKED'')]"

definition IDENTITY_FAIL_SEC_EVENTS :: "(string \<times> string) list" where
  "IDENTITY_FAIL_SEC_EVENTS = [(''RevocationBlocked'', ''revocation_blocked'')]"

definition DPOP_CODE_TO_EVENT :: "(string \<times> string) list" where
  "DPOP_CODE_TO_EVENT =
     [(''missing'', ''dpop_forge_attempt''), (''malformed'', ''dpop_forge_attempt''),
      (''kid_unknown'', ''dpop_forge_attempt''), (''signature'', ''dpop_forge_attempt''),
      (''iss_mismatch'', ''dpop_forge_attempt''), (''htm_mismatch'', ''dpop_forge_attempt''),
      (''htu_mismatch'', ''dpop_forge_attempt''), (''iat_future'', ''dpop_expired''),
      (''iat_too_old'', ''dpop_expired''), (''iat_invalid'', ''dpop_forge_attempt''), (''replay'', ''dpop_replay'')]"

definition identity_failure_code :: "identity_failure \<Rightarrow> string" where
  "identity_failure_code x =
     (case map_of IDENTITY_FAIL_CODES (xf_class x) of None \<Rightarrow> ''IDENTITY_INVALID'' | Some c \<Rightarrow> c)"

fun inherited_event :: "string list \<Rightarrow> string option" where
  "inherited_event [] = None"
| "inherited_event (c # cs) =
     (case map_of IDENTITY_FAIL_SEC_EVENTS c of None \<Rightarrow> inherited_event cs | Some e \<Rightarrow> Some e)"

definition identity_failure_sec_event :: "identity_failure \<Rightarrow> string option" where
  "identity_failure_sec_event x =
     (case (case xf_dpop x of None \<Rightarrow> None | Some code \<Rightarrow> map_of DPOP_CODE_TO_EVENT code) of
        Some e \<Rightarrow> Some e
      | None \<Rightarrow> inherited_event (xf_class x # xf_bases x))"

definition GATEWAY_SIGNAL_DEBOUNCE_S :: int where "GATEWAY_SIGNAL_DEBOUNCE_S = 60"

text \<open>A read that fails counts as not debounced.\<close>

definition gateway_signal_debounced ::
    "bool \<Rightarrow> principal_table \<Rightarrow> principal_key \<Rightarrow> string \<Rightarrow> int \<Rightarrow> instant \<Rightarrow> bool" where
  "gateway_signal_debounced readable tab k signal_kind window_seconds now =
     (readable \<and>
      (case List.find (principal_at k) tab of
         None \<Rightarrow> False
       | Some r \<Rightarrow>
           (case (p_counts r, p_last_signal r) of
              (Some counts, Some last_at) \<Rightarrow>
                map_of counts signal_kind \<noteq> None \<and> now - seconds window_seconds \<le> last_at
            | _ \<Rightarrow> False)))"

definition emit_identity_failure_event ::
    "'st gateway_env \<Rightarrow> identity_failure \<Rightarrow> 'st gateway_state \<Rightarrow> 'st gateway_state" where
  "emit_identity_failure_event g x s =
     (case identity_failure_sec_event x of
        None \<Rightarrow> s
      | Some kind \<Rightarrow>
          (let rb = pe_rbac (ge_pipeline g);
               ps = gs_pipeline s;
               detail = take 200 (xf_text x);
               tab = emit_security_event (re_kinds rb) (re_commits rb) (ps_principals ps) kind
                       (ge_tenant g) None None detail False (ge_now g);
               k = (ge_tenant g, or_else (xf_kind x) [], or_else (xf_id x) []);
               tab' = (if truthy (xf_kind x) \<and> truthy (xf_id x)
                         \<and> \<not> gateway_signal_debounced (re_trust_ok rb) tab k kind GATEWAY_SIGNAL_DEBOUNCE_S (ge_now g)
                       then snd (record_principal_signal (re_kinds rb) (re_commits rb) tab k kind None
                                   [(''reason'', detail)] None False None (ge_now g))
                       else tab)
           in s\<lparr> gs_pipeline := ps\<lparr> ps_principals := tab' \<rparr> \<rparr>))"

text \<open>Header names are looked up as written; a server that keeps them in lower case finds
the first and the third.\<close>

definition anon_principal_for :: "(string \<Rightarrow> string) \<Rightarrow> headers \<Rightarrow> bound_principal" where
  "anon_principal_for sha hs =
     (let h = (\<lambda>k. or_else (map_of hs k) []);
          cred = (if h ''authorization'' \<noteq> [] then h ''authorization''
                  else if h ''Authorization'' \<noteq> [] then h ''Authorization''
                  else if h ''x-kya-did'' \<noteq> [] then h ''x-kya-did'' else h ''X-KYA-DID'')
      in \<lparr> bp_kind = ''agent'',
           bp_id = ''kya-unauth-'' @ (if cred = [] then ''noauth'' else take 16 (sha cred)),
           bp_method = ''anonymous'', bp_subject = None, bp_issuer = None \<rparr>)"

section \<open>The request\<close>

text \<open>\<open>Some None\<close> is a Content-Length that is no number.\<close>

record http_request =
  hq_length :: "int option option"
  hq_headers :: headers
  hq_body :: string
  hq_ip :: string

definition body_refused :: "int \<Rightarrow> http_request \<Rightarrow> int option" where
  "body_refused cap rq =
     (case hq_length rq of
        Some None \<Rightarrow> Some 400
      | Some (Some n) \<Rightarrow> if cap < n \<or> cap < int (length (hq_body rq)) then Some 413 else None
      | None \<Rightarrow> if cap < int (length (hq_body rq)) then Some 413 else None)"

fun contains_text :: "string \<Rightarrow> string \<Rightarrow> bool" where
  "contains_text pat [] = (pat = [])"
| "contains_text pat (c # cs) = (starts_with (c # cs) pat \<or> contains_text pat cs)"

text \<open>The texts that carry the caller's own text; the others are constants.\<close>

definition parse_error_text :: "(json \<Rightarrow> string) \<Rightarrow> parse_error \<Rightarrow> string" where
  "parse_error_text repr e =
     (case e of
        MalformedJson \<Rightarrow> ''malformed JSON in request body''
      | DuplicateKey k \<Rightarrow> ''duplicate JSON key in request body: '' @ repr (JStr k)
      | Batch \<Rightarrow> ''JSON-RPC batch requests are not supported by KYA Gateway''
      | NotAnObject \<Rightarrow> ''JSON-RPC request must be an object''
      | UnexpectedKeys ks \<Rightarrow> ''JSON-RPC envelope has unexpected top-level keys: '' @ repr (JList (map JStr ks))
      | BadVersion v \<Rightarrow> ''unsupported jsonrpc version '' @ repr (case v of None \<Rightarrow> JNull | Some j \<Rightarrow> j)
      | BadMethod \<Rightarrow> ''JSON-RPC method must be a non-empty string''
      | MethodNotFound m \<Rightarrow> ''method '' @ repr (JStr m) @ '' is not implemented''
      | BadParams \<Rightarrow> ''JSON-RPC params must be an object (MCP uses named params)''
      | ParamsShape \<Rightarrow> ''params out of bounds'')"

definition parse_error_code :: "(json \<Rightarrow> string) \<Rightarrow> parse_error \<Rightarrow> int" where
  "parse_error_code repr e =
     (case e of
        Batch \<Rightarrow> - 32600
      | MethodNotFound m \<Rightarrow> - 32601
      | _ \<Rightarrow> if contains_text ''malformed JSON'' (parse_error_text repr e) then - 32700 else - 32600)"

section \<open>POST /mcp\<close>

abbreviation failure :: "(string \<times> string list) option \<Rightarrow> string \<Rightarrow> string" where
  "failure f v \<equiv> (case f of None \<Rightarrow> v | Some (d, rs) \<Rightarrow> d)"

definition failure_reasons :: "(string \<times> string list) option \<Rightarrow> string list" where
  "failure_reasons f = (case f of None \<Rightarrow> [] | Some (d, rs) \<Rightarrow> rs)"

definition malformed_reply :: "mcp_request \<Rightarrow> http_reply" where
  "malformed_reply q = json_reply 400 []
     (make_error (request_id q) (- 32602) ''malformed params.name''
       (Some (JObj [(''reason_codes'', JList [JStr ''MALFORMED_TOOL_NAME''])])))"

definition HUMAN_APPROVAL_VERDICTS :: "string list" where
  "HUMAN_APPROVAL_VERDICTS = ''flag_for_review'' # map fst LEGACY_VERDICT_ALIASES"

text \<open>Enforcement, or the forward. The stored arguments are those of an object only.\<close>

definition answer_tool_call ::
    "'st gateway_env \<Rightarrow> http_request \<Rightarrow> mcp_request \<Rightarrow> bound_principal \<Rightarrow> (string \<times> string list) option \<Rightarrow>
     string \<Rightarrow> string \<Rightarrow> int option \<Rightarrow> gateway_verdict \<Rightarrow> 'st gateway_state \<Rightarrow> http_reply \<times> 'st gateway_state" where
  "answer_tool_call g rq q p f backend act iid v s =
     (if ge_mode g = ''enforce'' \<and> gv_verdict v = ''deny'' then (deny_reply q v, s)
      else if ge_mode g = ''enforce'' \<and> gv_verdict v \<in> set HUMAN_APPROVAL_VERDICTS
      then (case create_pending_row g p act (hq_body rq) iid (hq_headers rq)
                   (case tool_arguments q of JObj kvs \<Rightarrow> Some (JObj kvs) | _ \<Rightarrow> None) (gs_queue s) of
              (Inl _, q') \<Rightarrow> (server_error, s\<lparr> gs_queue := q' \<rparr>)
            | (Inr pending_id, q') \<Rightarrow> (review_reply q v pending_id, s\<lparr> gs_queue := q' \<rparr>))
      else if ge_mode g = ''enforce'' \<and> gv_verdict v \<noteq> ''allow'' then (unsupported_reply q v, s)
      else forward g backend q (failure f (gv_verdict v)) (gv_reasons v) p s)"

definition after_verdict ::
    "'st gateway_env \<Rightarrow> http_request \<Rightarrow> mcp_request \<Rightarrow> bound_principal \<Rightarrow> (string \<times> string list) option \<Rightarrow>
     string \<Rightarrow> string \<Rightarrow> int option \<Rightarrow> gateway_verdict \<Rightarrow> 'st gateway_state \<Rightarrow> http_reply \<times> 'st gateway_state" where
  "after_verdict g rq q p f backend act iid v s =
     (let (record, thr) = (if f = None then (True, gs_throttle s)
            else should_record_unauth_evidence (ge_unauth_rate g) (ge_monotonic g) (hq_ip rq) (gs_throttle s));
          s1 = s\<lparr> gs_throttle := thr \<rparr>;
          params = (case mq_raw q of JObj kvs \<Rightarrow> (case map_of kvs ''params'' of None \<Rightarrow> JObj [] | Some ps \<Rightarrow> ps)
                    | _ \<Rightarrow> JObj []);
          s2 = (if record then snd (record_verdict_evidence g p act v params iid (Some (tool_arguments q)) s1)
                else s1);
          s3 = s2\<lparr> gs_invocations := finalise_invocation g iid (Some (gv_verdict v)) None (gs_invocations s2) \<rparr>
      in if is_notification q then (no_content, s3)
         else answer_tool_call g rq q p f backend act iid v s3)"

text \<open>A name that is absent is the empty one.\<close>

definition wire_tool_name :: "mcp_request \<Rightarrow> json" where
  "wire_tool_name q = (case tool_name q of None \<Rightarrow> JStr [] | Some n \<Rightarrow> if n = JNull then JStr [] else n)"

definition tools_call ::
    "'st gateway_env \<Rightarrow> http_request \<Rightarrow> mcp_request \<Rightarrow> bound_principal \<Rightarrow> (string \<times> string list) option \<Rightarrow>
     'st gateway_state \<Rightarrow> http_reply \<times> 'st gateway_state" where
  "tools_call g rq q p f s =
     (case parse_backend_from_tool (ge_uni g) (wire_tool_name q) of
           None \<Rightarrow> (malformed_reply q, s)
         | Some (backend, bare) \<Rightarrow>
             (let act = action_from_tool_call backend bare;
                  (iid, db) = record_invocation_pre_policy g p (gs_invocations s);
                  s1 = s\<lparr> gs_invocations := db \<rparr>
              in case f of
                   Some (d, rs) \<Rightarrow> after_verdict g rq q p f backend act iid (verdict ''deny'' rs ''rbac_refusal'') s1
                 | None \<Rightarrow>
                     (case run_policy g p act (int (length (hq_body rq))) iid (tool_arguments q) (gs_pipeline s1) of
                        (Some v, ps) \<Rightarrow> after_verdict g rq q p f backend act iid v (s1\<lparr> gs_pipeline := ps \<rparr>)
                      | (None, ps) \<Rightarrow>
                          (if is_notification q then no_content else crash_reply q,
                           s1\<lparr> gs_pipeline := ps,
                               gs_invocations := finalise_invocation g iid None (Some ''error'') (gs_invocations s1) \<rparr>))))"

definition mcp_dispatch ::
    "'st gateway_env \<Rightarrow> http_request \<Rightarrow> mcp_request \<Rightarrow> bound_principal \<Rightarrow> (string \<times> string list) option \<Rightarrow>
     'st gateway_state \<Rightarrow> http_reply \<times> 'st gateway_state" where
  "mcp_dispatch g rq q p f s =
     (if mq_method q = ''initialize''
      then (if is_notification q then no_content
            else json_reply 200 [] (make_response (request_id q) initialize_result), s)
      else if mq_method q \<in> {''tools/list'', ''resources/list'', ''prompts/list''}
      then (if is_notification q then (no_content, s)
            else proxy_passthrough g q (failure f ''allow'') (failure_reasons f) p s)
      else if mq_method q \<noteq> ''tools/call''
      then (if is_notification q then (no_content, snd (proxy_passthrough g q ''allow'' [] p s))
            else proxy_passthrough g q (failure f ''allow'') (failure_reasons f) p s)
      else tools_call g rq q p f s)"

definition error_body :: "string \<Rightarrow> json" where
  "error_body t = JObj [(''error'', JStr t)]"

definition mcp_endpoint ::
    "'st gateway_env \<Rightarrow> http_request \<Rightarrow> 'st gateway_state \<Rightarrow> http_reply \<times> 'st gateway_state" where
  "mcp_endpoint g rq s =
     (case body_refused MAX_HTTP_BODY_BYTES rq of
        Some status \<Rightarrow>
          (json_reply status []
             (error_body (if status = 413 then ''request body too large'' else ''invalid Content-Length'')), s)
      | None \<Rightarrow>
        (case parse_request (ge_loads g (hq_body rq)) of
           Inl e \<Rightarrow>
             (json_reply 400 []
                (make_error JNull (parse_error_code (ge_repr g) e) (parse_error_text (ge_repr g) e) None), s)
         | Inr q \<Rightarrow>
           (case ge_resolve g (hq_headers rq) of
              Bound p \<Rightarrow> mcp_dispatch g rq q p None s
            | Unbound x \<Rightarrow>
                (let s' = emit_identity_failure_event g x s
                 in if is_notification q then (no_content, s')
                    else if ge_mode g = ''enforce''
                    then (json_reply (xf_status x) []
                            (make_error (request_id q) (xf_jsonrpc x) (xf_text x) None), s')
                    else mcp_dispatch g rq q (anon_principal_for (ge_sha g) (hq_headers rq))
                           (Some (''identity_invalid'', [identity_failure_code x])) s'))))"

section \<open>POST /v1/policy/decide\<close>

definition refusal_body :: "string \<Rightarrow> string \<Rightarrow> json" where
  "refusal_body t code = JObj [(''error'', JStr t), (''reason_codes'', JList [JStr code])]"

text \<open>The checks before the identity; an empty body is an empty object. The answer is the
name of the tool, its input and the context.\<close>

datatype decide_input = Refuse int json | Accept json jobj jobj

definition decide_parse :: "'st gateway_env \<Rightarrow> http_request \<Rightarrow> decide_input" where
  "decide_parse g rq =
     (case body_refused MAX_DECIDE_BODY_BYTES rq of
        Some status \<Rightarrow>
          Refuse status (if status = 413 then refusal_body ''request body too large'' ''PAYLOAD_TOO_LARGE''
                         else error_body ''invalid Content-Length'')
      | None \<Rightarrow>
        (case (if hq_body rq = [] then Some (JObj []) else ge_loads g (hq_body rq)) of
           None \<Rightarrow> Refuse 400 (error_body ''invalid JSON'')
         | Some j \<Rightarrow>
           (case first_repeat j of
              Some k \<Rightarrow> Refuse 400 (refusal_body (''duplicate JSON key: '' @ ge_repr g (JStr k)) ''MALFORMED_BODY'')
            | None \<Rightarrow>
              (case j of
                 JObj kvs \<Rightarrow>
                   (let input = (case map_of kvs ''tool_input'' of
                            None \<Rightarrow> Some [] | Some JNull \<Rightarrow> Some [] | Some (JObj kvs) \<Rightarrow> Some kvs | _ \<Rightarrow> None);
                        context = (case map_of kvs ''context'' of Some (JObj c) \<Rightarrow> c | _ \<Rightarrow> [])
                    in case input of
                         None \<Rightarrow> Refuse 400 (refusal_body ''tool_input must be a JSON object'' ''MALFORMED_BODY'')
                       | Some i \<Rightarrow>
                           (case map_of kvs ''tool_name'' of
                              None \<Rightarrow> Refuse 400 (error_body ''missing required field: tool_name'')
                            | Some n \<Rightarrow> if n = JNull then Refuse 400 (error_body ''missing required field: tool_name'')
                                        else Accept n i context))
               | _ \<Rightarrow> Refuse 400 (error_body ''body must be a JSON object'')))))"

definition rich_text :: "string \<Rightarrow> gateway_verdict \<Rightarrow> json" where
  "rich_text k v = (case map_of (gv_rich v) k of Some (Js j) \<Rightarrow> if json_falsy j then JNull else j | _ \<Rightarrow> JNull)"

definition decide_reply :: "gateway_verdict \<Rightarrow> string option \<Rightarrow> json \<Rightarrow> http_reply" where
  "decide_reply v pending_id evidence_id =
     json_reply 200 []
       (JObj [(''verdict'', JStr (if map_of LEGACY_VERDICT_ALIASES (gv_verdict v) \<noteq> None then ''flag_for_review''
                                  else gv_verdict v)),
              (''reason_codes'', JList (map JStr (gv_reasons v))),
              (''signal_kind'', JStr (gv_signal v)),
              (''pending_id'', (case pending_id of None \<Rightarrow> JNull | Some i \<Rightarrow> JStr i)),
              (''evidence_id'', evidence_id),
              (''evaluator_name'', rich_text ''evaluator_name'' v),
              (''policy_hash'', rich_text ''policy_hash'' v)])"

definition decide_endpoint ::
    "'st gateway_env \<Rightarrow> http_request \<Rightarrow> 'st gateway_state \<Rightarrow> http_reply \<times> 'st gateway_state" where
  "decide_endpoint g rq s =
     (case decide_parse g rq of
        Refuse status body \<Rightarrow> (json_reply status [] body, s)
      | Accept name input context \<Rightarrow>
        (case parse_backend_from_tool (ge_uni g) name of
           None \<Rightarrow> (json_reply 400 [] (refusal_body ''malformed tool_name'' ''MALFORMED_TOOL_NAME''), s)
         | Some (backend, bare) \<Rightarrow>
           (case ge_resolve g (hq_headers rq) of
              Unbound x \<Rightarrow>
                (json_reply 401 [] (refusal_body (xf_text x) (identity_failure_code x)),
                 emit_identity_failure_event g x s)
            | Bound p \<Rightarrow>
                (let act = action_from_tool_call backend bare;
                     params = JObj ([(''name'', name), (''arguments'', JObj input)]
                                    @ (if context = [] then [] else [(''context'', JObj context)]));
                     (iid, db) = record_invocation_pre_policy g p (gs_invocations s);
                     (v, ps) = evaluate (ge_pipeline g) (ge_tenant g) p act (int (length (hq_body rq))) iid
                                 (ge_policy g) input (gs_pipeline s);
                     (pend, q') = (if gv_verdict v \<in> set HUMAN_APPROVAL_VERDICTS
                       then create_pending_row g p act (hq_body rq) iid (hq_headers rq) (Some (JObj input)) (gs_queue s)
                       else (Inr None, gs_queue s));
                     s1 = s\<lparr> gs_pipeline := ps, gs_invocations := db, gs_queue := q' \<rparr>;
                     (eid, s2) = record_verdict_evidence g p act v params iid (Some (JObj input)) s1;
                     s3 = s2\<lparr> gs_invocations :=
                            finalise_invocation g iid (Some (gv_verdict v)) None (gs_invocations s2) \<rparr>
                 in (decide_reply v (case pend of Inr i \<Rightarrow> i | Inl _ \<Rightarrow> None)
                       (case eid of None \<Rightarrow> JNull | Some i \<Rightarrow> JStr (int_text i)), s3)))))"

end
