(* ===== verification/McpFacts.thy ===== *)
theory McpFacts
  imports McpProtocol
begin

text \<open>
  The wire: exactly which envelopes are accepted and as what, what an accepted one is bounded
  by, and that merging a verdict into an answer loses nothing of it.
\<close>

section \<open>Repeated keys\<close>

lemma repeated_key_None: "repeated_key ks = None \<longleftrightarrow> distinct ks"
proof -
  have "(\<forall>i<length ks. ks ! i \<notin> set (take i ks)) \<longleftrightarrow> distinct ks"
  proof (induction ks rule: rev_induct)
    case (snoc k ks)
    have "(\<forall>i<length (ks @ [k]). (ks @ [k]) ! i \<notin> set (take i (ks @ [k]))) \<longleftrightarrow>
        (\<forall>i<length ks. ks ! i \<notin> set (take i ks)) \<and> k \<notin> set ks"
      by (auto simp: nth_append less_Suc_eq)
    with snoc show ?case by auto
  qed simp
  then show ?thesis by (auto simp: repeated_key_def find_None_ball)
qed

lemma first_repeat_find: "List.find (\<lambda>r. r \<noteq> None) rs = None \<longleftrightarrow> (\<forall>r\<in>set rs. r = None)"
  by (auto simp: find_None_ball)

lemma first_repeat_None_simps [simp]:
  "first_repeat (JObj kvs) = None \<longleftrightarrow> (\<forall>kv\<in>set kvs. first_repeat (snd kv) = None) \<and> distinct (map fst kvs)"
  "first_repeat (JList xs) = None \<longleftrightarrow> (\<forall>x\<in>set xs. first_repeat x = None)"
proof -
  show "first_repeat (JList xs) = None \<longleftrightarrow> (\<forall>x\<in>set xs. first_repeat x = None)"
    using first_repeat_find [of "map first_repeat xs"]
    by (auto split: option.split dest: find_Some_iff_first)
  show "first_repeat (JObj kvs) = None \<longleftrightarrow> (\<forall>kv\<in>set kvs. first_repeat (snd kv) = None) \<and> distinct (map fst kvs)"
    using first_repeat_find [of "map (\<lambda>kv. first_repeat (snd kv)) kvs"]
    by (auto simp: repeated_key_None split: option.split dest: find_Some_iff_first)
qed

declare first_repeat.simps(1,2) [simp del]

section \<open>Envelopes\<close>

lemma method_nonempty: "m \<in> set ALLOWED_METHODS \<Longrightarrow> m \<noteq> []"
  by (auto simp: ALLOWED_METHODS_def)

lemma parse_object:
  assumes "first_repeat (JObj kvs) = None" "fst ` set kvs \<subseteq> set ALLOWED_ENVELOPE_KEYS"
    and "map_of kvs ''jsonrpc'' = Some (JStr ''2.0'')" "map_of kvs ''method'' = Some (JStr m)"
    and "m \<in> set ALLOWED_METHODS" "map_of kvs ''params'' = Some (JObj ps)" "check_params_shape (JObj ps) 0"
  shows "parse_request (Some (JObj kvs)) =
    Inr \<lparr> mq_raw = JObj kvs, mq_method = m, mq_params = ps, mq_id = map_of kvs ''id'' \<rparr>"
proof -
  have "filter (\<lambda>k. k \<notin> set ALLOWED_ENVELOPE_KEYS) (map fst kvs) = []"
    using assms(2) by (auto simp: filter_empty_conv)
  then show ?thesis
    using assms(3-) method_nonempty [OF assms(5)]
    by (simp add: parse_request_def assms(1) Let_def del: first_repeat_None_simps check_params_shape.simps)
qed

text \<open>Every value inside a value, itself included, with its depth.\<close>

fun json_nodes :: "nat \<Rightarrow> json \<Rightarrow> (nat \<times> json) list" where
  "json_nodes d (JObj kvs) = (d, JObj kvs) # concat (map (\<lambda>kv. json_nodes (Suc d) (snd kv)) kvs)"
| "json_nodes d (JList xs) = (d, JList xs) # concat (map (json_nodes (Suc d)) xs)"
| "json_nodes d j = [(d, j)]"

text \<open>What the protocol asks of one value: nesting, members per object, items per list, the
length of texts and keys, and the size of integers.\<close>

definition node_in_bounds :: "nat \<times> json \<Rightarrow> bool" where
  "node_in_bounds n =
     (case n of (d, j) \<Rightarrow> d \<le> 8 \<and>
        (case j of
           JObj kvs \<Rightarrow> length kvs \<le> 64 \<and> (\<forall>k \<in> fst ` set kvs. length k \<le> 16384)
         | JList xs \<Rightarrow> length xs \<le> 1024
         | JStr t \<Rightarrow> length t \<le> 16384
         | JInt i \<Rightarrow> \<bar>i\<bar> < 2 ^ 256
         | _ \<Rightarrow> True))"

definition node_keys_distinct :: "nat \<times> json \<Rightarrow> bool" where
  "node_keys_distinct n = (case snd n of JObj kvs \<Rightarrow> distinct (map fst kvs) | _ \<Rightarrow> True)"

lemma shape_nodes: "check_params_shape j d \<longleftrightarrow> (\<forall>n \<in> set (json_nodes d j). node_in_bounds n)"
proof (induction d j rule: json_nodes.induct)
  case (1 d kvs)
  then have "list_all (\<lambda>kv. check_params_shape (snd kv) (Suc d)) kvs \<longleftrightarrow>
      (\<forall>kv \<in> set kvs. \<forall>n \<in> set (json_nodes (Suc d) (snd kv)). node_in_bounds n)"
    by (simp add: list_all_iff)
  then show ?case
    by (auto simp: node_in_bounds_def MAX_PARAMS_DEPTH_def MAX_KEYS_PER_LEVEL_def MAX_STRING_LENGTH_def list_all_iff)
next
  case (2 d xs)
  then have "list_all (\<lambda>x. check_params_shape x (Suc d)) xs \<longleftrightarrow>
      (\<forall>x \<in> set xs. \<forall>n \<in> set (json_nodes (Suc d) x). node_in_bounds n)"
    by (simp add: list_all_iff)
  then show ?case
    by (auto simp: node_in_bounds_def MAX_PARAMS_DEPTH_def MAX_ARRAY_LENGTH_def)
qed (simp_all add: node_in_bounds_def MAX_PARAMS_DEPTH_def MAX_STRING_LENGTH_def MAX_INT_BIT_LENGTH_def)

lemma repeat_nodes: "first_repeat j = None \<longleftrightarrow> (\<forall>n \<in> set (json_nodes d j). node_keys_distinct n)"
proof (induction d j rule: json_nodes.induct)
  case (1 d kvs)
  then show ?case by (auto simp: node_keys_distinct_def)
next
  case (2 d xs)
  then show ?case by (auto simp: node_keys_distinct_def)
qed (simp_all add: node_keys_distinct_def)

lemma params_accepted:
  "(case p of
      Some (JObj ps) \<Rightarrow>
        if check_params_shape (JObj ps) 0
        then Inr \<lparr> mq_raw = j, mq_method = m, mq_params = ps, mq_id = i \<rparr> else Inl ParamsShape
    | p \<Rightarrow>
        if p = None \<or> p = Some JNull
        then Inr \<lparr> mq_raw = j, mq_method = m, mq_params = [], mq_id = i \<rparr> else Inl BadParams) = Inr q \<longleftrightarrow>
   (p \<in> {None, Some JNull} \<and> mq_params q = []
      \<or> p = Some (JObj (mq_params q)) \<and> check_params_shape (JObj (mq_params q)) 0)
   \<and> mq_raw q = j \<and> mq_method q = m \<and> mq_id q = i"
proof (cases p)
  case (Some v)
  then show ?thesis by (cases q; cases v) (auto simp del: check_params_shape.simps)
qed (cases q; auto)

lemma object_accepted:
  "parse_request (Some (JObj kvs)) = Inr q \<longleftrightarrow>
      mq_raw q = JObj kvs \<and> first_repeat (JObj kvs) = None \<and> filter (\<lambda>k. k \<notin> set ALLOWED_ENVELOPE_KEYS) (map fst kvs) = []
      \<and> map_of kvs ''jsonrpc'' = Some (JStr ''2.0'')
      \<and> map_of kvs ''method'' = Some (JStr (mq_method q)) \<and> mq_method q \<in> set ALLOWED_METHODS
      \<and> (map_of kvs ''params'' \<in> {None, Some JNull} \<and> mq_params q = []
         \<or> map_of kvs ''params'' = Some (JObj (mq_params q)) \<and> check_params_shape (JObj (mq_params q)) 0)
      \<and> mq_id q = map_of kvs ''id''"
proof (cases "first_repeat (JObj kvs) = None \<and> filter (\<lambda>k. k \<notin> set ALLOWED_ENVELOPE_KEYS) (map fst kvs) = []
    \<and> map_of kvs ''jsonrpc'' = Some (JStr ''2.0'') \<and> (\<exists>m \<in> set ALLOWED_METHODS. map_of kvs ''method'' = Some (JStr m))")
  case True
  then obtain m where m: "map_of kvs ''method'' = Some (JStr m)" "m \<in> set ALLOWED_METHODS" by blast
  note ok = True [THEN conjunct1] True [THEN conjunct2, THEN conjunct1] True [THEN conjunct2, THEN conjunct2, THEN conjunct1]
  have "parse_request (Some (JObj kvs)) = Inr q \<longleftrightarrow>
      (map_of kvs ''params'' \<in> {None, Some JNull} \<and> mq_params q = []
        \<or> map_of kvs ''params'' = Some (JObj (mq_params q)) \<and> check_params_shape (JObj (mq_params q)) 0)
      \<and> mq_raw q = JObj kvs \<and> mq_method q = m \<and> mq_id q = map_of kvs ''id''"
    unfolding params_accepted [symmetric]
    unfolding parse_request_def option.case ok json.case Let_def m(1)
    using method_nonempty [OF m(2)] m(2) by simp
  then show ?thesis using ok m by auto
next
  case False
  have "parse_request (Some (JObj kvs)) \<noteq> Inr q"
  proof
    assume acc: "parse_request (Some (JObj kvs)) = Inr q"
    then have r: "first_repeat (JObj kvs) = None"
      by (cases "first_repeat (JObj kvs)") (simp_all add: parse_request_def del: first_repeat_None_simps)
    from acc have e: "filter (\<lambda>k. k \<notin> set ALLOWED_ENVELOPE_KEYS) (map fst kvs) = []"
      "map_of kvs ''jsonrpc'' = Some (JStr ''2.0'')"
      unfolding parse_request_def option.case r json.case Let_def by (simp_all split: if_splits)
    from acc have "\<exists>m \<in> set ALLOWED_METHODS. map_of kvs ''method'' = Some (JStr m)"
      unfolding parse_request_def option.case r json.case Let_def e
      by (cases "map_of kvs ''method''"; cases "the (map_of kvs ''method'')") (auto split: if_splits)
    with r e False show False by blast
  qed
  then show ?thesis using False by blast
qed

text \<open>C39. Exactly which requests the gateway accepts, and as what. A body is accepted when it
decodes to an object in which no object anywhere repeats a key, with no member besides the four of the
protocol, version \<open>2.0\<close>, one of the eighteen methods, and parameters that are missing,
null, or an object all of whose values are within the bounds (nested at most eight deep, 64
members, 1024 items, texts and keys of 16384 characters, integers of 256 bits). The call is then the one
written: that method, those parameters, that id; it is a notification exactly when the object has no
member \<open>id\<close>, so a null id asks for an answer. Everything else is rejected.\<close>

theorem request_accepted_exactly:
  "parse_request decoded = Inr q \<longleftrightarrow>
     (\<exists>kvs. decoded = Some (JObj kvs) \<and> mq_raw q = JObj kvs
        \<and> (\<forall>n \<in> set (json_nodes 0 (JObj kvs)). node_keys_distinct n)
        \<and> fst ` set kvs \<subseteq> {''jsonrpc'', ''id'', ''method'', ''params''}
        \<and> map_of kvs ''jsonrpc'' = Some (JStr ''2.0'')
        \<and> map_of kvs ''method'' = Some (JStr (mq_method q)) \<and> mq_method q \<in> set ALLOWED_METHODS
        \<and> (map_of kvs ''params'' \<in> {None, Some JNull} \<and> mq_params q = []
           \<or> map_of kvs ''params'' = Some (JObj (mq_params q))
             \<and> (\<forall>n \<in> set (json_nodes 0 (JObj (mq_params q))). node_in_bounds n))
        \<and> mq_id q = map_of kvs ''id'' \<and> (is_notification q \<longleftrightarrow> ''id'' \<notin> fst ` set kvs))"
proof -
  have keys: "filter (\<lambda>k. k \<notin> set ALLOWED_ENVELOPE_KEYS) (map fst kvs) = [] \<longleftrightarrow>
      fst ` set kvs \<subseteq> {''jsonrpc'', ''id'', ''method'', ''params''}" for kvs :: jobj
    by (auto simp: filter_empty_conv ALLOWED_ENVELOPE_KEYS_def)
  have notif: "mq_id q = map_of kvs ''id'' \<Longrightarrow> is_notification q \<longleftrightarrow> ''id'' \<notin> fst ` set kvs" for kvs
    by (simp add: is_notification_def map_of_eq_None_iff)
  show ?thesis
  proof (cases "\<exists>kvs. decoded = Some (JObj kvs)")
    case True
    then obtain kvs where d: "decoded = Some (JObj kvs)" by blast
    show ?thesis
      unfolding d object_accepted keys repeat_nodes [of _ 0] shape_nodes
      by (simp only: option.inject json.inject simp_thms notif cong: conj_cong)
  next
    case False
    then have "parse_request decoded \<noteq> Inr q"
      by (auto simp: parse_request_def split: option.splits json.splits)
    with False show ?thesis by blast
  qed
qed

definition sample_ping :: json where
  "sample_ping = JObj [(''jsonrpc'', JStr ''2.0''), (''method'', JStr ''ping''), (''id'', JNull)]"

lemma sample_ping_parsed:
  "parse_request (Some sample_ping) = Inr
     \<lparr> mq_raw = sample_ping, mq_method = ''ping'', mq_params = [], mq_id = Some JNull \<rparr>"
  unfolding sample_ping_def object_accepted by (simp add: ALLOWED_ENVELOPE_KEYS_def ALLOWED_METHODS_def)

theorem request_accepted_exactly_witness:
  "\<not> is_notification \<lparr> mq_raw = sample_ping, mq_method = ''ping'', mq_params = [], mq_id = Some JNull \<rparr>"
  using request_accepted_exactly [THEN iffD1, OF sample_ping_parsed] by (auto simp: sample_ping_def)

section \<open>Bounds\<close>

fun json_depth :: "json \<Rightarrow> nat" where
  "json_depth (JObj kvs) = Suc (fold max (map (\<lambda>kv. json_depth (snd kv)) kvs) 0)"
| "json_depth (JList xs) = Suc (fold max (map json_depth xs) 0)"
| "json_depth _ = 0"

fun json_strings :: "json \<Rightarrow> string list" where
  "json_strings (JObj kvs) = concat (map (\<lambda>kv. fst kv # json_strings (snd kv)) kvs)"
| "json_strings (JList xs) = concat (map json_strings xs)"
| "json_strings (JStr s) = [s]"
| "json_strings _ = []"

lemma fold_max_le: "fold max xs (a::nat) \<le> b \<longleftrightarrow> a \<le> b \<and> (\<forall>x\<in>set xs. x \<le> b)"
  by (induction xs arbitrary: a) auto

lemma shape_depth: "check_params_shape j d \<Longrightarrow> json_depth j + d \<le> Suc MAX_PARAMS_DEPTH"
proof (induction j arbitrary: d rule: json_depth.induct)
  case (1 kvs)
  have "json_depth (snd kv) + Suc d \<le> Suc MAX_PARAMS_DEPTH" if "kv \<in> set kvs" for kv
    using 1(1) [OF that, of "Suc d"] 1(2) that by (auto simp: list_all_iff)
  then have "\<forall>kv\<in>set kvs. json_depth (snd kv) \<le> MAX_PARAMS_DEPTH - d" by fastforce
  then have "fold max (map (\<lambda>kv. json_depth (snd kv)) kvs) 0 \<le> MAX_PARAMS_DEPTH - d"
    by (simp add: fold_max_le)
  moreover have "d \<le> MAX_PARAMS_DEPTH" using 1(2) by simp
  ultimately show ?case by simp
next
  case (2 xs)
  have "json_depth x + Suc d \<le> Suc MAX_PARAMS_DEPTH" if "x \<in> set xs" for x
    using 2(1) [OF that, of "Suc d"] 2(2) that by (auto simp: list_all_iff)
  then have "\<forall>x\<in>set xs. json_depth x \<le> MAX_PARAMS_DEPTH - d" by fastforce
  then have "fold max (map json_depth xs) 0 \<le> MAX_PARAMS_DEPTH - d" by (simp add: fold_max_le)
  moreover have "d \<le> MAX_PARAMS_DEPTH" using 2(2) by simp
  ultimately show ?case by simp
qed simp_all

lemma shape_strings: "check_params_shape j d \<Longrightarrow> s \<in> set (json_strings j) \<Longrightarrow> length s \<le> MAX_STRING_LENGTH"
proof (induction j arbitrary: d rule: json_strings.induct)
  case (1 kvs)
  then obtain kv where kv: "kv \<in> set kvs" "s = fst kv \<or> s \<in> set (json_strings (snd kv))" by auto
  then have "length (fst kv) \<le> MAX_STRING_LENGTH" "check_params_shape (snd kv) (d + 1)"
    using 1(2) by (auto simp: list_all_iff)
  with 1(1) kv show ?case by blast
next
  case (2 xs)
  then obtain x where x: "x \<in> set xs" "s \<in> set (json_strings x)" by auto
  then have "check_params_shape x (d + 1)" using 2(2) by (auto simp: list_all_iff)
  with 2(1) x show ?case by blast
qed simp_all

text \<open>Whatever a request that is accepted carries in its parameters, the tool's name
and arguments included, is nested at most nine deep and has no text, key or value, of more
than 16384 characters; the method is on the list and the members are the protocol's.\<close>

theorem accepted_request_bounded:
  assumes "parse_request decoded = Inr q"
  shows "json_depth (JObj (mq_params q)) \<le> 9
    \<and> (\<forall>s\<in>set (json_strings (JObj (mq_params q))). length s \<le> 16384)
    \<and> mq_method q \<in> set ALLOWED_METHODS
    \<and> (\<exists>kvs. mq_raw q = JObj kvs \<and> decoded = Some (JObj kvs) \<and> distinct (map fst kvs)
          \<and> fst ` set kvs \<subseteq> set ALLOWED_ENVELOPE_KEYS)"
proof -
  obtain kvs where d: "decoded = Some (JObj kvs)" "first_repeat (JObj kvs) = None"
    using assms by (auto simp: parse_request_def split: option.splits json.splits)
  have extra: "filter (\<lambda>k. k \<notin> set ALLOWED_ENVELOPE_KEYS) (map fst kvs) = []"
    using assms d by (auto simp: parse_request_def Let_def split: if_splits)
  then have r: "mq_raw q = JObj kvs \<and> mq_method q \<in> set ALLOWED_METHODS \<and> check_params_shape (JObj (mq_params q)) 0"
    using assms d
    by (auto simp: parse_request_def Let_def MAX_PARAMS_DEPTH_def simp del: check_params_shape.simps
        split: if_splits option.splits json.splits) (auto simp: MAX_PARAMS_DEPTH_def)
  have "fst ` set kvs \<subseteq> set ALLOWED_ENVELOPE_KEYS" using extra by (auto simp: filter_empty_conv)
  moreover have "distinct (map fst kvs)" using d(2) by simp
  moreover have "json_depth (JObj (mq_params q)) \<le> 9"
    using shape_depth [of "JObj (mq_params q)" 0] r by (simp add: MAX_PARAMS_DEPTH_def)
  moreover have "\<forall>s\<in>set (json_strings (JObj (mq_params q))). length s \<le> 16384"
    using shape_strings r by (metis MAX_STRING_LENGTH_def)
  ultimately show ?thesis using r d by blast
qed

theorem accepted_request_bounded_witness:
  "json_depth (JObj (mq_params \<lparr> mq_raw = sample_ping, mq_method = ''ping'', mq_params = [],
     mq_id = Some JNull \<rparr>)) \<le> 9"
  by (rule accepted_request_bounded [OF sample_ping_parsed, THEN conjunct1])

section \<open>Merging a verdict\<close>

text \<open>Where a customer finds the verdict in an answer.\<close>

definition answer_verdict :: "jobj \<Rightarrow> json option" where
  "answer_verdict body =
     (if map_of body ''jsonrpc'' \<noteq> Some (JStr ''2.0'') then map_of body ''kya_verdict''
      else (case map_of body ''result'' of
          Some (JObj r) \<Rightarrow> map_of r ''kya_verdict''
        | _ \<Rightarrow>
            (case map_of body ''error'' of
               Some (JObj err) \<Rightarrow> (case map_of err ''data'' of Some (JObj d) \<Rightarrow> map_of d ''kya_verdict'' | _ \<Rightarrow> None)
             | _ \<Rightarrow> None)))"

abbreviation extends :: "jobj \<Rightarrow> jobj \<Rightarrow> string list \<Rightarrow> bool" where
  "extends new old ks \<equiv> \<forall>k. k \<notin> set ks \<longrightarrow> map_of new k = map_of old k"

lemma update_get [simp]: "map_of (AList.update k v xs) j = (if j = k then Some v else map_of xs j)"
  by (simp add: update_conv')

lemma merge_error_facts:
  "map_of (merge_error payload err) ''data'' = Some d \<Longrightarrow> \<exists>kvs. d = JObj kvs \<and> map_of kvs ''kya_verdict'' = Some payload"
  "extends (merge_error payload err) err [''data'']"
  "map_of err ''data'' = Some (JObj d0) \<Longrightarrow>
     \<exists>d. map_of (merge_error payload err) ''data'' = Some (JObj d) \<and> extends d d0 [''kya_verdict'']"
  "map_of (merge_error payload err) ''data'' \<noteq> None"
  by (auto simp: merge_error_def split: option.splits json.splits)

text \<open>In advise mode a verdict is merged into the answer without losing any of it: the
customer finds it at the place the protocol leaves for it, an object result keeps every
member of its own, any other result is under \<open>value\<close>, an error keeps its code, its
message and the members of its data, and the rest of the envelope, its id included, stays
as the backend wrote it.\<close>

theorem merge_loses_nothing:
  fixes payload body
  defines "new \<equiv> merge_verdict payload body"
  shows "answer_verdict new = Some payload
    \<and> extends new body [''result'', ''error'', ''kya_verdict'']
    \<and> (map_of body ''jsonrpc'' = Some (JStr ''2.0'') \<longrightarrow> map_of new ''kya_verdict'' = map_of body ''kya_verdict''
        \<and> (\<forall>r. map_of body ''result'' = Some (JObj r) \<longrightarrow>
             (\<exists>r'. map_of new ''result'' = Some (JObj r') \<and> extends r' r [''kya_verdict'']))
        \<and> (\<forall>v. map_of body ''result'' = Some v \<and> (\<forall>r. v \<noteq> JObj r) \<longrightarrow>
             (\<exists>r'. map_of new ''result'' = Some (JObj r') \<and> map_of r' ''value'' = Some v))
        \<and> (\<forall>err. map_of body ''result'' = None \<and> map_of body ''error'' = Some (JObj err) \<longrightarrow>
             (\<exists>err'. map_of new ''error'' = Some (JObj err') \<and> extends err' err [''data'']
                \<and> map_of new ''result'' = None)))"
proof (cases "map_of body ''jsonrpc'' = Some (JStr ''2.0'')")
  case False
  then show ?thesis by (simp add: new_def merge_verdict_def answer_verdict_def)
next
  case rpc: True
  show ?thesis
  proof (cases "map_of body ''result''")
    case (Some v)
    with rpc show ?thesis by (cases v) (simp_all add: new_def merge_verdict_def answer_verdict_def)
  next
    case None
    show ?thesis
    proof (cases "\<exists>err. map_of body ''error'' = Some (JObj err)")
      case True
      then obtain err where err: "map_of body ''error'' = Some (JObj err)" by blast
      obtain d where d: "map_of (merge_error payload err) ''data'' = Some d" using merge_error_facts(4) by blast
      obtain kvs where "d = JObj kvs" "map_of kvs ''kya_verdict'' = Some payload"
        using merge_error_facts(1) [OF d] by blast
      with d rpc None err merge_error_facts(2) [of payload err] show ?thesis
        by (simp add: new_def merge_verdict_def answer_verdict_def)
    next
      case False
      then have "new = AList.update ''result'' (JObj [(''kya_verdict'', payload)]) body"
        using rpc None by (auto simp: new_def merge_verdict_def split: option.splits json.splits)
      with rpc None False show ?thesis by (simp add: answer_verdict_def)
    qed
  qed
qed

theorem merge_loses_nothing_witness:
  "answer_verdict (merge_verdict (JStr ''deny'') [(''jsonrpc'', JStr ''2.0''), (''id'', JInt 1), (''result'', JInt 5)])
     = Some (JStr ''deny'')"
  using merge_loses_nothing by blast

end
