(* ===== verification/GatewayFacts.thy ===== *)
theory GatewayFacts
  imports Endpoints PipelineFacts Lifecycle McpFacts
begin

text \<open>
  What the gateway guarantees: when a backend is reached, what a notification gets, how a
  reserved row ends, that the decision endpoint and the enforcing gateway agree, and how
  often a replayed credential can cost its principal trust.
\<close>

section \<open>What the steps leave alone\<close>

lemma evidence_keeps [simp]:
  "gs_sent (snd (record_verdict_evidence g p act v params iid args s)) = gs_sent s"
  "gs_queue (snd (record_verdict_evidence g p act v params iid args s)) = gs_queue s"
  "gs_invocations (snd (record_verdict_evidence g p act v params iid args s)) = gs_invocations s"
  "gs_throttle (snd (record_verdict_evidence g p act v params iid args s)) = gs_throttle s"
  by (simp_all add: record_verdict_evidence_def Let_def split: option.split sum.split prod.split)

lemma failure_event_keeps [simp]:
  "gs_sent (emit_identity_failure_event g x s) = gs_sent s"
  "gs_queue (emit_identity_failure_event g x s) = gs_queue s"
  "gs_invocations (emit_identity_failure_event g x s) = gs_invocations s"
  "gs_evidence (emit_identity_failure_event g x s) = gs_evidence s"
  "gs_throttle (emit_identity_failure_event g x s) = gs_throttle s"
  by (simp_all add: emit_identity_failure_event_def Let_def split: option.split)

lemma forward_keeps [simp]:
  "gs_invocations (snd (forward g b q v r p s)) = gs_invocations s"
  "gs_queue (snd (forward g b q v r p s)) = gs_queue s"
  "gs_evidence (snd (forward g b q v r p s)) = gs_evidence s"
  "gs_pipeline (snd (forward g b q v r p s)) = gs_pipeline s"
  by (simp_all add: forward_def Let_def split: option.split)

lemma forward_sent:
  "gs_sent (snd (forward g b q v r p s)) =
     (if b \<in> set (ge_backends g) then gs_sent s @ [(b, mq_raw q)] else gs_sent s)"
  by (simp add: forward_def Let_def split: option.split)

lemma answer_keeps [simp]:
  "gs_invocations (snd (answer_tool_call g rq q p f b act iid v s)) = gs_invocations s"
  "gs_evidence (snd (answer_tool_call g rq q p f b act iid v s)) = gs_evidence s"
  "gs_pipeline (snd (answer_tool_call g rq q p f b act iid v s)) = gs_pipeline s"
  by (simp_all add: answer_tool_call_def split: sum.split prod.split)

lemma answer_sent:
  "gs_sent (snd (answer_tool_call g rq q p f b act iid v s)) =
     (if (ge_mode g = ''enforce'' \<longrightarrow> gv_verdict v = ''allow'') \<and> b \<in> set (ge_backends g)
      then gs_sent s @ [(b, mq_raw q)] else gs_sent s)"
  by (auto simp: answer_tool_call_def forward_sent HUMAN_APPROVAL_VERDICTS_def LEGACY_VERDICT_ALIASES_def
      split: sum.split prod.split)

lemma after_verdict_sent:
  "gs_sent (snd (after_verdict g rq q p f b act iid v s)) =
     (if \<not> is_notification q \<and> (ge_mode g = ''enforce'' \<longrightarrow> gv_verdict v = ''allow'') \<and> b \<in> set (ge_backends g)
      then gs_sent s @ [(b, mq_raw q)] else gs_sent s)"
  by (auto simp: after_verdict_def answer_sent Let_def split: prod.split)

lemma after_verdict_rows:
  "gs_invocations (snd (after_verdict g rq q p f b act iid v s)) =
     finalise_invocation g iid (Some (gv_verdict v)) None (gs_invocations s)"
  by (auto simp: after_verdict_def Let_def split: prod.split)

lemma verdict_field [simp]: "gv_verdict (verdict v r k) = v" "gv_reasons (verdict v r k) = r"
  by (simp_all add: verdict_def)

lemma tools_call_sent:
  "gs_sent (snd (tools_call g rq q p f s)) =
     (case parse_backend_from_tool (ge_uni g) (wire_tool_name q) of
        None \<Rightarrow> gs_sent s
      | Some (b, t) \<Rightarrow>
          if \<not> is_notification q \<and> b \<in> set (ge_backends g)
             \<and> (case f of
                  Some x \<Rightarrow> ge_mode g \<noteq> ''enforce''
                | None \<Rightarrow>
                    (case fst (run_policy g p (action_from_tool_call b t) (int (length (hq_body rq)))
                             (fst (record_invocation_pre_policy g p (gs_invocations s))) (tool_arguments q) (gs_pipeline s)) of
                       None \<Rightarrow> False
                     | Some v \<Rightarrow> ge_mode g = ''enforce'' \<longrightarrow> gv_verdict v = ''allow''))
          then gs_sent s @ [(b, mq_raw q)] else gs_sent s)"
  by (auto simp: tools_call_def after_verdict_sent Let_def split: option.split prod.split)

section \<open>The policy call\<close>

lemma run_policy_object:
  "run_policy g p act n iid (JObj kvs) ps =
     (case evaluate (ge_pipeline g) (ge_tenant g) p act n iid (ge_policy g) kvs ps of (v, s') \<Rightarrow> (Some v, s'))"
  by (simp add: run_policy_def)

lemma run_policy_allow:
  assumes "fst (run_policy g p act n iid args ps) = Some v" "gv_verdict v = ''allow''"
  obtains kvs where "gv_verdict (fst (evaluate (ge_pipeline g) (ge_tenant g) p act n iid (ge_policy g) kvs ps)) = ''allow''"
proof -
  have "\<exists>kvs. fst (run_policy g p act n iid args ps)
      = Some (fst (evaluate (ge_pipeline g) (ge_tenant g) p act n iid (ge_policy g) kvs ps))"
    using assms(1) by (cases args) (auto simp: run_policy_def case_prod_beta split: if_splits)
  then show thesis using assms that by auto
qed

section \<open>A sample gateway\<close>

definition sample_gateway :: "string \<Rightarrow> json \<Rightarrow> identity \<Rightarrow> unit gateway_env" where
  "sample_gateway mode j who = \<lparr> ge_tenant = ''t'', ge_mode = mode, ge_policy = open_policy,
     ge_pipeline = sample_pipeline, ge_backends = [''fs''], ge_backend = (\<lambda>b j h. None), ge_loads = (\<lambda>t. Some j),
     ge_uni = ascii_canon, ge_sha = (\<lambda>t. t), ge_invocations = sample_inv_env, ge_invocation_ok = True,
     ge_finalise_ok = True,
     ge_evidence = \<lparr> v_crypto = \<lparr> c_sha = (\<lambda>t. t), c_mac = (\<lambda>k t. t), c_iso = (\<lambda>i. []) \<rparr>, v_key = [], v_key_id = [],
       v_kinds = [''gateway_verdict''], v_hook = Some, v_extra_keys = [], v_max_bytes = 10, v_schema_ok = True,
       v_now = 0 \<rparr>,
     ge_evidence_ok = True, ge_queue_ok = True, ge_production = True, ge_max_pending_body = 1048576,
     ge_redact = (\<lambda>j. j), ge_uuids = (''u1'', ''u2''), ge_resolve = (\<lambda>h. who), ge_repr = (\<lambda>j. []),
     ge_monotonic = 0, ge_unauth_rate = 5, ge_policy_hash = [], ge_now = 0 \<rparr>"

definition sample_gateway_state :: "unit gateway_state" where
  "sample_gateway_state = \<lparr> gs_pipeline = sample_stack_state, gs_invocations = empty_invocations,
     gs_evidence = \<lparr> d_rows = [], d_anchors = [], d_next = 1 \<rparr>, gs_queue = [], gs_sent = [], gs_throttle = [] \<rparr>"

definition sample_request :: http_request where
  "sample_request = \<lparr> hq_length = None, hq_headers = [], hq_body = ''{}'', hq_ip = ''10.0.0.1'' \<rparr>"

definition sample_call :: "json \<Rightarrow> (string \<times> json) list \<Rightarrow> json" where
  "sample_call args rid = JObj ([(''jsonrpc'', JStr ''2.0''), (''method'', JStr ''tools/call''),
     (''params'', JObj [(''name'', JStr ''FS.read''), (''arguments'', args)])] @ rid)"

definition sample_parsed :: "json \<Rightarrow> (string \<times> json) list \<Rightarrow> mcp_request" where
  "sample_parsed args rid = \<lparr> mq_raw = sample_call args rid, mq_method = ''tools/call'',
     mq_params = [(''name'', JStr ''FS.read''), (''arguments'', args)], mq_id = map_of rid ''id'' \<rparr>"

lemma sample_parse:
  "parse_request (Some (sample_call (JObj []) [(''id'', JInt 1)])) = Inr (sample_parsed (JObj []) [(''id'', JInt 1)])"
  "parse_request (Some (sample_call (JObj []) [])) = Inr (sample_parsed (JObj []) [])"
  "parse_request (Some (sample_call (JInt 5) [(''id'', JInt 1)])) = Inr (sample_parsed (JInt 5) [(''id'', JInt 1)])"
  unfolding sample_call_def
  by (subst parse_object; auto simp: sample_parsed_def sample_call_def ALLOWED_ENVELOPE_KEYS_def ALLOWED_METHODS_def
      MAX_PARAMS_DEPTH_def MAX_KEYS_PER_LEVEL_def MAX_STRING_LENGTH_def MAX_INT_BIT_LENGTH_def
      simp del: first_repeat.simps(1,2))+

lemma sample_name:
  "parse_backend_from_tool ascii_canon (wire_tool_name (sample_parsed args rid)) = Some (''fs'', ''read'')"
  by (simp add: wire_tool_name_def tool_name_def sample_parsed_def parse_backend_from_tool_def
      canonicalize_tool_segment_def MAX_TOOL_SEGMENT_BYTES_def ascii_canon_def py char_class_defs
      char_of_def bit_Suc_0_iff)

lemma sample_arguments: "tool_arguments (sample_parsed (JObj []) rid) = JObj []"
  by (simp add: tool_arguments_def sample_parsed_def)

lemma sample_sizes [simp]: "body_refused MAX_HTTP_BODY_BYTES sample_request = None"
  by (simp add: body_refused_def sample_request_def MAX_HTTP_BODY_BYTES_def)

lemma sample_gateway_simps [simp]:
  "ge_mode (sample_gateway m j w) = m" "ge_loads (sample_gateway m j w) t = Some j"
  "ge_uni (sample_gateway m j w) = ascii_canon" "ge_resolve (sample_gateway m j w) h = w"
  "ge_backends (sample_gateway m j w) = [''fs'']" "ge_policy (sample_gateway m j w) = open_policy"
  "ge_pipeline (sample_gateway m j w) = sample_pipeline" "ge_tenant (sample_gateway m j w) = ''t''"
  by (simp_all add: sample_gateway_def)

lemma sample_sent_via:
  assumes "r (hq_headers rq) = Bound p" "hq_length rq = None" "hq_body rq = ''{}''"
  shows "gs_sent (snd (mcp_endpoint ((sample_gateway ''enforce'' (sample_call (JObj []) [(''id'', JInt 1)]) w)\<lparr> ge_resolve := r \<rparr>)
     rq sample_gateway_state)) = [(''fs'', sample_call (JObj []) [(''id'', JInt 1)])]"
proof -
  have b: "body_refused MAX_HTTP_BODY_BYTES rq = None" by (simp add: body_refused_def assms MAX_HTTP_BODY_BYTES_def)
  show ?thesis
    by (simp add: mcp_endpoint_def mcp_dispatch_def tools_call_sent sample_parse sample_name sample_arguments assms(1) b
        run_policy_object case_prod_beta action_from_tool_call_def sample_gateway_state_def sample_allowed is_notification_def)
       (simp_all add: sample_parsed_def)
qed

lemma sample_sent:
  "gs_sent (snd (mcp_endpoint (sample_gateway ''enforce'' (sample_call (JObj []) [(''id'', JInt 1)]) (Bound sample_principal))
     sample_request sample_gateway_state)) = [(''fs'', sample_call (JObj []) [(''id'', JInt 1)])]"
  using sample_sent_via [of "\<lambda>h. Bound sample_principal" sample_request sample_principal "Bound sample_principal"]
  by (simp add: sample_request_def) (simp add: sample_gateway_def)

section \<open>What a forwarded call has passed\<close>

lemma forwarded_call_passed:
  assumes "ge_mode g = ''enforce''" "parse_request (ge_loads g (hq_body rq)) = Inr q"
    and "mq_method q = ''tools/call''" "gs_sent (snd (mcp_endpoint g rq s)) \<noteq> gs_sent s"
  shows "\<exists>p b t. ge_resolve g (hq_headers rq) = Bound p
    \<and> parse_backend_from_tool (ge_uni g) (wire_tool_name q) = Some (b, t)
    \<and> \<not> is_notification q \<and> b \<in> set (ge_backends g)
    \<and> gs_sent (snd (mcp_endpoint g rq s)) = gs_sent s @ [(b, mq_raw q)]
    \<and> fst (run_stages (ge_pipeline g) (ge_tenant g) p (action_from_tool_call b t) (int (length (hq_body rq)))
          (ge_policy g) (gs_pipeline s)) = Pass
    \<and> rbac_outcome (ge_policy g) p (action_from_tool_call b t) \<notin> {Some ''deny'', Some ''flag_for_review''}"
proof -
  have "body_refused MAX_HTTP_BODY_BYTES rq = None"
    using assms(4) by (cases "body_refused MAX_HTTP_BODY_BYTES rq") (simp_all add: mcp_endpoint_def)
  moreover have "\<exists>p. ge_resolve g (hq_headers rq) = Bound p"
    using assms calculation
    by (cases "ge_resolve g (hq_headers rq)") (auto simp: mcp_endpoint_def Let_def split: if_splits)
  ultimately obtain p where p: "ge_resolve g (hq_headers rq) = Bound p"
    and s: "gs_sent (snd (mcp_endpoint g rq s)) = gs_sent (snd (tools_call g rq q p None s))"
    using assms by (auto simp: mcp_endpoint_def mcp_dispatch_def)
  from s assms(4) obtain b t v
    where n: "parse_backend_from_tool (ge_uni g) (wire_tool_name q) = Some (b, t)"
      and c: "\<not> is_notification q" "b \<in> set (ge_backends g)" "gv_verdict v = ''allow''"
      and r: "fst (run_policy g p (action_from_tool_call b t) (int (length (hq_body rq)))
                (fst (record_invocation_pre_policy g p (gs_invocations s))) (tool_arguments q) (gs_pipeline s)) = Some v"
    by (auto simp: tools_call_sent assms(1) split: option.splits if_splits)
  then have "gs_sent (snd (mcp_endpoint g rq s)) = gs_sent s @ [(b, mq_raw q)]"
    using s by (simp add: tools_call_sent)
  moreover obtain kvs where "gv_verdict (fst (evaluate (ge_pipeline g) (ge_tenant g) p (action_from_tool_call b t)
      (int (length (hq_body rq))) (fst (record_invocation_pre_policy g p (gs_invocations s))) (ge_policy g) kvs
      (gs_pipeline s))) = ''allow''"
    using run_policy_allow [OF r c(3)] .
  note evaluate_allow [OF this] allow_earned [OF this]
  ultimately show ?thesis using p n c by blast
qed

text \<open>Methods other than a tool call go to one backend, chosen without looking at the request.\<close>

definition passthrough_backend :: "'st gateway_env \<Rightarrow> string option" where
  "passthrough_backend g =
     (if ''default'' \<in> set (ge_backends g) then Some ''default''
      else case ge_backends g of [] \<Rightarrow> None | b # _ \<Rightarrow> Some b)"

lemma passthrough_sent:
  "gs_sent (snd (proxy_passthrough g q v r p s)) =
     (case passthrough_backend g of None \<Rightarrow> gs_sent s | Some b \<Rightarrow> gs_sent s @ [(b, mq_raw q)])"
  by (auto simp: proxy_passthrough_def passthrough_backend_def forward_sent split: list.split)

lemma passthrough_configured: "passthrough_backend g = Some b \<Longrightarrow> b \<in> set (ge_backends g)"
  by (auto simp: passthrough_backend_def split: if_splits list.splits)

lemma enforce_contact_bound:
  assumes "ge_mode g = ''enforce''" "gs_sent (snd (mcp_endpoint g rq s)) \<noteq> gs_sent s"
  obtains q p where "parse_request (ge_loads g (hq_body rq)) = Inr q" "ge_resolve g (hq_headers rq) = Bound p"
    "mcp_endpoint g rq s = mcp_dispatch g rq q p None s"
proof -
  have size: "body_refused MAX_HTTP_BODY_BYTES rq = None"
    using assms(2) by (cases "body_refused MAX_HTTP_BODY_BYTES rq") (simp_all add: mcp_endpoint_def)
  obtain q where q: "parse_request (ge_loads g (hq_body rq)) = Inr q"
    using assms(2) size
    by (cases "parse_request (ge_loads g (hq_body rq))") (simp_all add: mcp_endpoint_def)
  obtain p where p: "ge_resolve g (hq_headers rq) = Bound p"
    using assms size q
    by (cases "ge_resolve g (hq_headers rq)") (auto simp: mcp_endpoint_def Let_def split: if_splits)
  from that [OF q p] show thesis using size q p by (simp add: mcp_endpoint_def)
qed

lemma other_method_dispatch:
  assumes "mq_method q \<noteq> ''tools/call''"
  shows "gs_sent (snd (mcp_dispatch g rq q p f s)) =
    (if mq_method q = ''initialize''
        \<or> is_notification q \<and> mq_method q \<in> {''tools/list'', ''resources/list'', ''prompts/list''}
     then gs_sent s
     else case passthrough_backend g of None \<Rightarrow> gs_sent s | Some b \<Rightarrow> gs_sent s @ [(b, mq_raw q)])"
  using assms by (auto simp: mcp_dispatch_def passthrough_sent)

section \<open>Properties\<close>

text \<open>C1. In enforce mode a backend is contacted in two ways only. Every contact is one
message, the client's own, to a configured backend, for a caller whose credential was
accepted. If the method is \<open>tools/call\<close>, the call expects an answer, goes to the backend its
name parses to, every stage of the stack passes and the rule list does not ask for a person.
Any other method (not \<open>initialize\<close>, and a listing only if it expects an answer) goes to the
default backend, or else the first configured one; no stage is run for it.\<close>

theorem enforce_is_a_gate:
  assumes "ge_mode g = ''enforce''" "gs_sent (snd (mcp_endpoint g rq s)) \<noteq> gs_sent s"
  shows "\<exists>q p b. parse_request (ge_loads g (hq_body rq)) = Inr q
    \<and> ge_resolve g (hq_headers rq) = Bound p \<and> b \<in> set (ge_backends g)
    \<and> gs_sent (snd (mcp_endpoint g rq s)) = gs_sent s @ [(b, mq_raw q)]
    \<and> (if mq_method q = ''tools/call''
       then \<not> is_notification q
         \<and> (\<exists>t. parse_backend_from_tool (ge_uni g) (wire_tool_name q) = Some (b, t)
              \<and> fst (run_stages (ge_pipeline g) (ge_tenant g) p (action_from_tool_call b t) (int (length (hq_body rq)))
                    (ge_policy g) (gs_pipeline s)) = Pass
              \<and> rbac_outcome (ge_policy g) p (action_from_tool_call b t) \<notin> {Some ''deny'', Some ''flag_for_review''})
       else mq_method q \<noteq> ''initialize''
         \<and> \<not> (is_notification q \<and> mq_method q \<in> {''tools/list'', ''resources/list'', ''prompts/list''})
         \<and> passthrough_backend g = Some b)"
proof -
  obtain q p where q: "parse_request (ge_loads g (hq_body rq)) = Inr q" and p: "ge_resolve g (hq_headers rq) = Bound p"
    and d: "mcp_endpoint g rq s = mcp_dispatch g rq q p None s"
    using enforce_contact_bound [OF assms] .
  show ?thesis
  proof (cases "mq_method q = ''tools/call''")
    case True
    from forwarded_call_passed [OF assms(1) q True assms(2)] obtain p' b t where
      "ge_resolve g (hq_headers rq) = Bound p'"
      "parse_backend_from_tool (ge_uni g) (wire_tool_name q) = Some (b, t)"
      "\<not> is_notification q" "b \<in> set (ge_backends g)"
      "gs_sent (snd (mcp_endpoint g rq s)) = gs_sent s @ [(b, mq_raw q)]"
      "fst (run_stages (ge_pipeline g) (ge_tenant g) p' (action_from_tool_call b t) (int (length (hq_body rq)))
          (ge_policy g) (gs_pipeline s)) = Pass"
      "rbac_outcome (ge_policy g) p' (action_from_tool_call b t) \<notin> {Some ''deny'', Some ''flag_for_review''}"
      by blast
    with q True show ?thesis
      by (intro exI [of _ q] exI [of _ p'] exI [of _ b] conjI) (simp_all only: if_True simp_thms, blast)
  next
    case False
    from assms(2) obtain b where b: "passthrough_backend g = Some b"
      and skip: "\<not> (mq_method q = ''initialize''
        \<or> is_notification q \<and> mq_method q \<in> {''tools/list'', ''resources/list'', ''prompts/list''})"
      by (auto simp: d other_method_dispatch [OF False] split: if_splits option.splits)
    then have "gs_sent (snd (mcp_endpoint g rq s)) = gs_sent s @ [(b, mq_raw q)]"
      by (simp add: d other_method_dispatch [OF False])
    with q p b skip passthrough_configured [OF b] False show ?thesis by auto
  qed
qed

theorem enforce_is_a_gate_witness:
  "fst (run_stages sample_pipeline ''t'' sample_principal ''mcp.fs.read'' 2 open_policy sample_stack_state) = Pass"
proof -
  have m: "mq_method (sample_parsed (JObj []) [(''id'', JInt 1)]) = ''tools/call''"
    and n: "length (hq_body sample_request) = 2"
    and st: "gs_pipeline sample_gateway_state = sample_stack_state" "gs_sent sample_gateway_state = []"
    by (simp_all add: sample_parsed_def sample_request_def sample_gateway_state_def)
  show ?thesis
    using enforce_is_a_gate [of "sample_gateway ''enforce'' (sample_call (JObj []) [(''id'', JInt 1)]) (Bound sample_principal)"
        sample_request sample_gateway_state]
    by (auto simp: sample_sent sample_parse(1) sample_name m n st action_from_tool_call_def)
qed

text \<open>The way round the stack: reading a resource or fetching a prompt, or anything else that is
neither a tool call nor \<open>initialize\<close>, is handed to a backend in enforce mode for any accepted
credential, whatever the rules, grants and budgets say, and leaves no invocation, evidence or
pipeline state behind.\<close>

theorem other_methods_skip_the_stack:
  assumes "body_refused MAX_HTTP_BODY_BYTES rq = None" "parse_request (ge_loads g (hq_body rq)) = Inr q"
    and "ge_resolve g (hq_headers rq) = Bound p" "mq_method q \<in> {''resources/read'', ''prompts/get''}"
    and "passthrough_backend g = Some b"
  shows "gs_sent (snd (mcp_endpoint g rq s)) = gs_sent s @ [(b, mq_raw q)]
    \<and> gs_invocations (snd (mcp_endpoint g rq s)) = gs_invocations s
    \<and> gs_evidence (snd (mcp_endpoint g rq s)) = gs_evidence s
    \<and> gs_pipeline (snd (mcp_endpoint g rq s)) = gs_pipeline s"
proof -
  have d: "mcp_endpoint g rq s = mcp_dispatch g rq q p None s"
    using assms(1-3) by (simp add: mcp_endpoint_def)
  have keeps: "gs_invocations (snd (proxy_passthrough g q v r p s)) = gs_invocations s"
    "gs_evidence (snd (proxy_passthrough g q v r p s)) = gs_evidence s"
    "gs_pipeline (snd (proxy_passthrough g q v r p s)) = gs_pipeline s" for v r
    by (auto simp: proxy_passthrough_def split: list.split)
  have "mq_method q \<noteq> ''tools/call''" using assms(4) by auto
  note sent = other_method_dispatch [OF this, of g rq p None s]
  show ?thesis
    unfolding d sent using assms(4,5) keeps by (auto simp: mcp_dispatch_def)
qed

definition sample_read :: json where
  "sample_read = JObj [(''jsonrpc'', JStr ''2.0''), (''method'', JStr ''resources/read''), (''params'', JObj [])]"

theorem other_methods_skip_the_stack_witness:
  "gs_sent (snd (mcp_endpoint (sample_gateway ''enforce'' sample_read (Bound sample_principal))
     sample_request sample_gateway_state)) = [(''fs'', sample_read)]"
proof -
  have parsed: "parse_request (Some sample_read) =
      Inr \<lparr> mq_raw = sample_read, mq_method = ''resources/read'', mq_params = [], mq_id = None \<rparr>"
    unfolding sample_read_def
    by (subst parse_object; auto simp: ALLOWED_ENVELOPE_KEYS_def ALLOWED_METHODS_def
        MAX_PARAMS_DEPTH_def MAX_KEYS_PER_LEVEL_def MAX_STRING_LENGTH_def MAX_INT_BIT_LENGTH_def
        simp del: first_repeat.simps(1,2))
  then show ?thesis
    using other_methods_skip_the_stack [of sample_request
        "sample_gateway ''enforce'' sample_read (Bound sample_principal)"
        "\<lparr> mq_raw = sample_read, mq_method = ''resources/read'', mq_params = [], mq_id = None \<rparr>"
        sample_principal "''fs''" sample_gateway_state]
    by (simp add: passthrough_backend_def sample_gateway_state_def)
qed

text \<open>Outside enforce mode the gateway never withholds a call: whatever the credential,
the rules and the evaluator say, a call with a well-formed name and arguments is handed to
the configured backend it names.\<close>

theorem soft_modes_always_forward:
  assumes "ge_mode g \<noteq> ''enforce''" "body_refused MAX_HTTP_BODY_BYTES rq = None"
    and "parse_request (ge_loads g (hq_body rq)) = Inr q" "mq_method q = ''tools/call''" "\<not> is_notification q"
    and "parse_backend_from_tool (ge_uni g) (wire_tool_name q) = Some (b, t)" "b \<in> set (ge_backends g)"
    and "tool_arguments q = JObj kvs"
  shows "gs_sent (snd (mcp_endpoint g rq s)) = gs_sent s @ [(b, mq_raw q)]"
  using assms
  by (cases "ge_resolve g (hq_headers rq)")
     (simp_all add: mcp_endpoint_def mcp_dispatch_def tools_call_sent run_policy_object Let_def split: prod.split)

theorem soft_modes_always_forward_witness:
  "gs_sent (snd (mcp_endpoint (sample_gateway ''audit_only'' (sample_call (JObj []) [(''id'', JInt 1)])
       (Unbound \<lparr> xf_class = ''IdentityBindingFailed'', xf_bases = [], xf_dpop = None, xf_jsonrpc = - 32002,
          xf_status = 401, xf_text = [], xf_kind = None, xf_id = None \<rparr>)) sample_request sample_gateway_state))
     = [(''fs'', sample_call (JObj []) [(''id'', JInt 1)])]"
  by (subst soft_modes_always_forward [where b = "''fs''" and q = "sample_parsed (JObj []) [(''id'', JInt 1)]"])
     (simp_all add: sample_parse sample_name sample_arguments,
      simp_all add: sample_parsed_def is_notification_def sample_gateway_state_def)

text \<open>A notification is answered with an empty 204, whatever becomes of it, with one
exception: a tool call whose name is malformed gets an error with a body. A tool call sent
as a notification never reaches a backend.\<close>

theorem notifications_are_silent:
  assumes "body_refused MAX_HTTP_BODY_BYTES rq = None" "parse_request (ge_loads g (hq_body rq)) = Inr q"
    and "is_notification q"
  shows "fst (mcp_endpoint g rq s) =
      (if mq_method q = ''tools/call'' \<and> parse_backend_from_tool (ge_uni g) (wire_tool_name q) = None
          \<and> (\<exists>p. ge_resolve g (hq_headers rq) = Bound p)
       then malformed_reply q else no_content)
    \<and> (mq_method q = ''tools/call'' \<longrightarrow> gs_sent (snd (mcp_endpoint g rq s)) = gs_sent s)"
  using assms
  by (cases "ge_resolve g (hq_headers rq)")
     (auto simp: mcp_endpoint_def mcp_dispatch_def tools_call_sent tools_call_def after_verdict_def Let_def
       split: option.splits prod.splits)

theorem notifications_are_silent_witness:
  "fst (mcp_endpoint (sample_gateway ''audit_only'' (sample_call (JObj []) []) (Bound sample_principal)) sample_request
     sample_gateway_state) = no_content"
  using notifications_are_silent [of sample_request
      "sample_gateway ''audit_only'' (sample_call (JObj []) []) (Bound sample_principal)" "sample_parsed (JObj []) []" sample_gateway_state]
  by (simp add: sample_parse sample_name) (simp add: sample_parsed_def is_notification_def)

section \<open>The reserved row\<close>

lemma or_else_Some [simp]: "or_else (Some v) [] = v"
  by (simp add: or_else_def)

lemma reserved_pending:
  assumes "inv_wf db" "record_invocation_pre_policy g p db = (Some i, db')"
  shows "inv_wf db' \<and> lives_of db' i = Some (ge_tenant g, ''pending'')"
proof -
  define a where "a = \<lparr> ia_tenant = ge_tenant g, ia_agent = short_agent_key (ge_sha g) (bp_id p), ia_kind = Some (bp_kind p),
     ia_principal = Some (bp_id p), ia_mode = ''observed'', ia_outcome = ''pending'', ia_duration = None,
     ia_parent = None, ia_corr = None, ia_occurred = None, ia_started = None, ia_ended = None \<rparr>"
  have r: "record_invocation (ge_invocations g) a db = (Inr i, db')"
    using assms(2) by (auto simp: record_invocation_pre_policy_def a_def split: if_splits prod.splits sum.splits)
  show ?thesis
  proof (cases rule: record_cases [of a "ge_invocations g" db])
    case (2 vs r')
    with r have "db' = db\<lparr> id_rows := id_rows db @ [new_row (ge_invocations g) a (id_next db)],
        id_next := id_next db + 1, id_violations := vs \<rparr>" by simp
    then show ?thesis
      using lives_append [OF assms(1)] inv_wf_append [OF assms(1) 2(1)] record_invocation_id [OF r]
      by (simp add: a_def)
  qed (use r in auto)
qed

definition final_outcome :: "gateway_verdict option \<Rightarrow> string" where
  "final_outcome v = (case v of
     None \<Rightarrow> ''error''
   | Some w \<Rightarrow> (case map_of VERDICT_TO_TERMINAL_OUTCOME (gv_verdict w) of None \<Rightarrow> ''pending'' | Some out \<Rightarrow> out))"

lemma outcomes_terminal: "map_of VERDICT_TO_TERMINAL_OUTCOME v = Some out \<Longrightarrow> out \<in> set TERMINAL_OUTCOMES"
  by (auto simp: VERDICT_TO_TERMINAL_OUTCOME_def TERMINAL_OUTCOMES_def CANONICAL_OUTCOMES_def
      NON_TERMINAL_OUTCOMES_def split: if_splits)

lemma error_terminal [simp]: "''error'' \<in> set TERMINAL_OUTCOMES"
  by (simp add: TERMINAL_OUTCOMES_def CANONICAL_OUTCOMES_def NON_TERMINAL_OUTCOMES_def)

lemma finalise_pending:
  assumes "inv_wf db" "lives_of db i = Some (ge_tenant g, ''pending'')" "ge_finalise_ok g"
  shows "lives_of (finalise_invocation g (Some i) (Some (gv_verdict v)) None db) i
      = Some (ge_tenant g, final_outcome (Some v))"
    and "lives_of (finalise_invocation g (Some i) None (Some ''error'') db) i
      = Some (ge_tenant g, final_outcome None)"
proof -
  have p: "''pending'' \<in> set NON_TERMINAL_OUTCOMES" by (simp add: NON_TERMINAL_OUTCOMES_def)
  show "lives_of (finalise_invocation g (Some i) (Some (gv_verdict v)) None db) i
      = Some (ge_tenant g, final_outcome (Some v))"
    using assms p
    by (auto simp: finalise_invocation_def final_outcome_def lives_finalize [OF assms(1)] outcomes_terminal
        split: option.split)
  show "lives_of (finalise_invocation g (Some i) None (Some ''error'') db) i
      = Some (ge_tenant g, final_outcome None)"
    using assms p by (simp add: finalise_invocation_def final_outcome_def lives_finalize [OF assms(1)])
qed

lemma tools_call_rows:
  "parse_backend_from_tool (ge_uni g) (wire_tool_name q) = Some (b, t) \<Longrightarrow>
   record_invocation_pre_policy g p (gs_invocations s) = (iid, db) \<Longrightarrow>
   gs_invocations (snd (tools_call g rq q p None s)) =
     (case fst (run_policy g p (action_from_tool_call b t) (int (length (hq_body rq))) iid (tool_arguments q)
              (gs_pipeline s)) of
        None \<Rightarrow> finalise_invocation g iid None (Some ''error'') db
      | Some v \<Rightarrow> finalise_invocation g iid (Some (gv_verdict v)) None db)"
  by (auto simp: tools_call_def after_verdict_rows Let_def split: option.split prod.split)

text \<open>C20. The row a tool call reserves ends with the decision, in every mode and whatever
the backend does: \<open>error\<close> when the pipeline broke, the terminal outcome of the verdict,
and \<open>pending\<close> only for a verdict that waits for a person. So a call that an observing
gateway forwarded in spite of a refusal is recorded as denied.\<close>

theorem decided_row_is_closed:
  assumes "body_refused MAX_HTTP_BODY_BYTES rq = None" "parse_request (ge_loads g (hq_body rq)) = Inr q"
    and "mq_method q = ''tools/call''" "ge_resolve g (hq_headers rq) = Bound p"
    and "parse_backend_from_tool (ge_uni g) (wire_tool_name q) = Some (b, t)"
    and "reachable_inv (gs_invocations s)" "ge_finalise_ok g"
    and "record_invocation_pre_policy g p (gs_invocations s) = (Some i, db)"
  shows "lives_of (gs_invocations (snd (mcp_endpoint g rq s))) i = Some (ge_tenant g, final_outcome
      (fst (run_policy g p (action_from_tool_call b t) (int (length (hq_body rq))) (Some i) (tool_arguments q)
         (gs_pipeline s))))"
proof -
  have "gs_invocations (snd (mcp_endpoint g rq s)) = gs_invocations (snd (tools_call g rq q p None s))"
    using assms(1-4) by (simp add: mcp_endpoint_def mcp_dispatch_def)
  then show ?thesis
    using reserved_pending [OF reachable_wf [OF assms(6)] assms(8)] assms(7)
    by (simp add: tools_call_rows [OF assms(5,8)] finalise_pending split: option.split)
qed

theorem decided_row_is_closed_witness:
  "lives_of (gs_invocations (snd (mcp_endpoint
     (sample_gateway ''audit_only'' (sample_call (JInt 5) [(''id'', JInt 1)]) (Bound sample_principal))
     sample_request sample_gateway_state))) 1 = Some (''t'', ''error'')"
proof -
  let ?g = "sample_gateway ''audit_only'' (sample_call (JInt 5) [(''id'', JInt 1)]) (Bound sample_principal)"
  have "fst (record_invocation_pre_policy ?g sample_principal empty_invocations) = Some 1"
    by (simp add: record_invocation_pre_policy_def sample_gateway_def record_invocation_def empty_invocations_def
        sample_principal_def sample_inv_env_def CANONICAL_OUTCOMES_def Let_def enforce_delegation_policy_def)
  then obtain db where "record_invocation_pre_policy ?g sample_principal (gs_invocations sample_gateway_state) = (Some 1, db)"
    by (cases "record_invocation_pre_policy ?g sample_principal empty_invocations") (simp add: sample_gateway_state_def)
  moreover have "mq_method (sample_parsed (JInt 5) [(''id'', JInt 1)]) = ''tools/call''"
    and "tool_arguments (sample_parsed (JInt 5) [(''id'', JInt 1)]) = JInt 5"
    by (simp_all add: sample_parsed_def tool_arguments_def)
  moreover have "reachable_inv (gs_invocations sample_gateway_state)" "ge_finalise_ok ?g"
    by (simp_all add: sample_gateway_state_def reachable_inv.start) (simp add: sample_gateway_def)
  ultimately show ?thesis
    using decided_row_is_closed [of sample_request ?g "sample_parsed (JInt 5) [(''id'', JInt 1)]" sample_principal
        "''fs''" "''read''" sample_gateway_state 1 db]
    by (simp add: sample_parse sample_name run_policy_def final_outcome_def)
qed

end
