(* ===== verification/GatewayProps.thy ===== *)
theory GatewayProps
  imports GatewayFacts
begin

text \<open>
  More of the gateway's guarantees: tool names and the actions they stand for, the decision
  endpoint against the enforcing gateway, evidence and trust together, replayed credentials.
\<close>

section \<open>Tool names\<close>

lemma lower_char_dot [simp]: "lower_char c = CHR ''.'' \<longleftrightarrow> c = CHR ''.''"
proof -
  have "of_char (lower_char c) = (46::nat) \<longleftrightarrow> of_char c = (46::nat)"
    by (simp add: lower_char_def is_upper_def code_of_def)
  moreover have "(46::nat) = of_char CHR ''.''" by simp
  ultimately show ?thesis by (metis of_char_eq_iff)
qed

lemma split_lower: "split_on CHR ''.'' (lower s) = map lower (split_on CHR ''.'' s)"
  by (induction s) (auto simp: lower_def split: list.splits)

lemma lower_length [simp]: "length (lower s) = length s"
  by (simp add: lower_def)

lemma canon_lower: "canonicalize_tool_segment ascii_canon s = canonicalize_tool_segment strip (lower s)"
  by (simp add: canonicalize_tool_segment_def ascii_canon_def)

lemma parse_lower:
  "parse_backend_from_tool ascii_canon (JStr s) = parse_backend_from_tool strip (JStr (lower s))"
  by (auto simp: parse_backend_from_tool_def split_lower canon_lower split: list.split option.split)

lemma strip_subset: "set (strip s) \<subseteq> set s"
  unfolding strip_def by (auto dest!: set_dropWhileD)

lemma canon_no_dot:
  assumes "canonicalize_tool_segment ascii_canon s = Some b" "CHR ''.'' \<notin> set s"
  shows "CHR ''.'' \<notin> set b"
proof -
  have "b = strip (lower s)"
    using assms(1) by (auto simp: canonicalize_tool_segment_def ascii_canon_def Let_def split: if_splits)
  moreover have "CHR ''.'' \<notin> set (lower s)"
    using assms(2) lower_char_dot by (auto simp: lower_def) (metis lower_char_dot)
  ultimately show ?thesis using strip_subset by blast
qed

lemma parse_no_dot:
  assumes "parse_backend_from_tool ascii_canon n = Some (b, t)"
  shows "CHR ''.'' \<notin> set b \<and> CHR ''.'' \<notin> set t"
proof -
  obtain s where s: "n = JStr s" using assms by (cases n) (simp_all add: parse_backend_from_tool_def)
  have d: "\<forall>p\<in>set (split_on CHR ''.'' s). CHR ''.'' \<notin> set p" using split_on_parts by blast
  show ?thesis
    using assms d
    by (auto simp: s parse_backend_from_tool_def split: list.splits option.splits dest: canon_no_dot)
qed

lemma action_split:
  "split_on CHR ''.'' (action_from_tool_call b t) = ''mcp'' # split_on CHR ''.'' b @ split_on CHR ''.'' t"
  using split_on_append_sep [of "CHR ''.''" "''mcp''" "b @ CHR ''.'' # t"]
    split_on_append_sep [of "CHR ''.''" b t]
  by (simp add: action_from_tool_call_def)

text \<open>On ASCII names the action is a name of the call: spellings that differ in case
only give the same action, and calls that differ in the backend or the tool give
different ones, so that a rule about one never decides the other.\<close>

theorem action_names_the_call:
  assumes "parse_backend_from_tool ascii_canon (JStr n) = Some (b, t)"
    and "parse_backend_from_tool ascii_canon (JStr n') = Some (b', t')"
  shows "(lower n = lower n' \<longrightarrow> action_from_tool_call b t = action_from_tool_call b' t')
    \<and> (action_from_tool_call b t = action_from_tool_call b' t' \<longrightarrow> (b, t) = (b', t'))"
proof -
  have sp: "split_on CHR ''.'' (action_from_tool_call b t) = [''mcp'', b, t]"
      "split_on CHR ''.'' (action_from_tool_call b' t') = [''mcp'', b', t']"
    using parse_no_dot [OF assms(1)] parse_no_dot [OF assms(2)]
    by (simp_all add: action_split split_on_no_sep)
  have "(b, t) = (b', t')" if "action_from_tool_call b t = action_from_tool_call b' t'"
    using sp(1) sp(2) unfolding that by simp
  moreover have "(b, t) = (b', t')" if same: "lower n = lower n'"
  proof -
    have "Some (b, t) = parse_backend_from_tool strip (JStr (lower n))"
      by (rule trans [OF assms(1) [symmetric] parse_lower])
    also have "\<dots> = parse_backend_from_tool strip (JStr (lower n'))" by (simp only: same)
    also have "\<dots> = Some (b', t')" by (rule trans [OF parse_lower [symmetric] assms(2)])
    finally show ?thesis by simp
  qed
  ultimately show ?thesis by blast
qed

theorem action_names_the_call_witness:
  "action_from_tool_call ''fs'' ''read'' \<noteq> action_from_tool_call ''fs'' ''write''"
proof -
  have "parse_backend_from_tool ascii_canon (JStr ''FS.read'') = Some (''fs'', ''read'')"
    using sample_name by (simp add: wire_tool_name_def tool_name_def sample_parsed_def)
  moreover have "parse_backend_from_tool ascii_canon (JStr ''fs.write'') = Some (''fs'', ''write'')"
    by (simp add: parse_backend_from_tool_def canonicalize_tool_segment_def MAX_TOOL_SEGMENT_BYTES_def
        ascii_canon_def py char_class_defs)
  ultimately show ?thesis using action_names_the_call by blast
qed

lemma split_single: "split_on c s = [p] \<Longrightarrow> p = s"
  by (metis join_split join_with.simps(2))

lemma action_valid_iff:
  "is_valid_action (action_from_tool_call b t) \<longleftrightarrow> action_segment b \<and> action_segment t"
proof -
  have "action_from_tool_call b t \<notin> set ACTIONS"
    by (cases b; cases t) (auto simp: ACTIONS_def action_from_tool_call_def)
  moreover have "mcp_action_re (action_from_tool_call b t) \<longleftrightarrow> action_segment b \<and> action_segment t"
  proof
    assume "mcp_action_re (action_from_tool_call b t)"
    then obtain b' t' where "split_on CHR ''.'' b @ split_on CHR ''.'' t = [b', t']"
      and seg: "action_segment b'" "action_segment t'"
      by (auto simp: mcp_action_re_def action_split split: list.splits)
    then have "split_on CHR ''.'' b = [b']" "split_on CHR ''.'' t = [t']"
      by (auto simp: append_eq_Cons_conv)
    with split_single seg show "action_segment b \<and> action_segment t" by metis
  next
    assume "action_segment b \<and> action_segment t"
    then show "mcp_action_re (action_from_tool_call b t)"
      by (auto simp: mcp_action_re_iff action_from_tool_call_def)
  qed
  ultimately show ?thesis by (simp add: is_valid_action_iff)
qed

text \<open>The wire accepts more names than the action vocabulary: every tool whose name has a
character beyond \<open>[a-z0-9_-]\<close> is refused, whatever the rules, grants and evaluator say.
The refusal also covers what Unicode normalisation lets through: a segment in which it
leaves a dot, which the wire's own count of dots did not see.\<close>

theorem names_beyond_the_vocabulary:
  assumes "parse_backend_from_tool uni n = Some (b, t)" "\<not> action_segment b \<or> \<not> action_segment t"
  shows "gv_verdict (fst (evaluate e tn p (action_from_tool_call b t) k iid cfg args s)) \<noteq> ''allow''
    \<and> (CHR ''.'' \<in> set b \<union> set t \<longrightarrow> 3 < length (split_on CHR ''.'' (action_from_tool_call b t)))"
proof -
  have "\<not> is_valid_action (action_from_tool_call b t)" using assms(2) action_valid_iff by blast
  then have "gv_verdict (fst (evaluate e tn p (action_from_tool_call b t) k iid cfg args s)) \<noteq> ''allow''"
    using allow_earned by blast
  moreover have len: "1 \<le> length (split_on c xs)" for c xs
    using split_on_not_Nil [of c xs] by (cases "split_on c xs") simp_all
  have "2 \<le> length (split_on CHR ''.'' xs)" if "CHR ''.'' \<in> set xs" for xs
  proof -
    from that obtain ys zs where "xs = ys @ CHR ''.'' # zs" by (meson split_list)
    then show ?thesis
      using len [of "CHR ''.''" ys] len [of "CHR ''.''" zs] by (simp add: split_on_append_sep)
  qed
  then have "CHR ''.'' \<in> set b \<union> set t \<Longrightarrow> 3 < length (split_on CHR ''.'' (action_from_tool_call b t))"
    using len [of "CHR ''.''" b] len [of "CHR ''.''" t] by (force simp: action_split)
  ultimately show ?thesis by blast
qed

text \<open>The full-width full stop (U+FF0E, three bytes of UTF-8) is normalised to a dot.\<close>

fun fold_fullwidth_dot :: "string \<Rightarrow> string" where
  "fold_fullwidth_dot (c1 # c2 # c3 # cs) =
     (if code_of c1 = 0xEF \<and> code_of c2 = 0xBC \<and> code_of c3 = 0x8E then CHR ''.'' # fold_fullwidth_dot cs
      else c1 # fold_fullwidth_dot (c2 # c3 # cs))"
| "fold_fullwidth_dot cs = cs"

theorem names_beyond_the_vocabulary_witness:
  "3 < length (split_on CHR ''.'' (action_from_tool_call ''fs'' ''rm.x''))"
proof -
  have "parse_backend_from_tool (\<lambda>s. ascii_canon (fold_fullwidth_dot s))
      (JStr (''fs.rm'' @ [CHR 0xEF, CHR 0xBC, CHR 0x8E] @ ''x'')) = Some (''fs'', ''rm.x'')"
    by code_simp
  moreover have "\<not> action_segment ''rm.x''"
    by (simp add: action_segment_def seg_rest_def char_class_defs)
  ultimately show ?thesis using names_beyond_the_vocabulary [THEN conjunct2] by auto
qed

section \<open>The decision endpoint\<close>

definition reply_verdict :: "http_reply \<Rightarrow> json option" where
  "reply_verdict r = (case rp_body r of JsonBody (JObj kvs) \<Rightarrow> map_of kvs ''verdict'' | _ \<Rightarrow> None)"

lemma decide_reply_verdict:
  "rp_status (decide_reply v i e) = 200"
  "reply_verdict (decide_reply v i e) = Some (JStr ''allow'') \<longleftrightarrow> gv_verdict v = ''allow''"
  by (auto simp: decide_reply_def json_reply_def reply_verdict_def LEGACY_VERDICT_ALIASES_def)

lemma decide_answer_of:
  assumes "decide_parse g rq = Accept name input ctx" "parse_backend_from_tool (ge_uni g) name = Some (b, t)"
    and "ge_resolve g (hq_headers rq) = Bound p"
  shows "\<exists>i e. fst (decide_endpoint g rq s) = decide_reply (fst (evaluate (ge_pipeline g) (ge_tenant g) p
      (action_from_tool_call b t) (int (length (hq_body rq))) (fst (record_invocation_pre_policy g p (gs_invocations s)))
      (ge_policy g) input (gs_pipeline s))) i e"
    and "gs_sent (snd (decide_endpoint g rq s)) = gs_sent s"
proof -
  obtain iid db where r: "record_invocation_pre_policy g p (gs_invocations s) = (iid, db)"
    by (cases "record_invocation_pre_policy g p (gs_invocations s)")
  obtain v ps where e: "evaluate (ge_pipeline g) (ge_tenant g) p (action_from_tool_call b t) (int (length (hq_body rq)))
      iid (ge_policy g) input (gs_pipeline s) = (v, ps)" by (meson surj_pair)
  show "\<exists>i e. fst (decide_endpoint g rq s) = decide_reply (fst (evaluate (ge_pipeline g) (ge_tenant g) p
      (action_from_tool_call b t) (int (length (hq_body rq))) (fst (record_invocation_pre_policy g p (gs_invocations s)))
      (ge_policy g) input (gs_pipeline s))) i e"
    unfolding decide_endpoint_def by (simp add: assms r e Let_def case_prod_beta) blast
  show "gs_sent (snd (decide_endpoint g rq s)) = gs_sent s"
    unfolding decide_endpoint_def by (simp add: assms r e Let_def case_prod_beta)
qed

text \<open>C9. The decision endpoint foretells the enforcing gateway: asked about the same call by
the same principal in the same state, it answers 200 with \<open>allow\<close> exactly when POST /mcp
hands the call to its backend. It never hands on anything itself.\<close>

theorem decide_foretells_enforce:
  assumes "ge_mode g = ''enforce''" "body_refused MAX_HTTP_BODY_BYTES rq = None"
    and "parse_request (ge_loads g (hq_body rq)) = Inr q" "mq_method q = ''tools/call''" "\<not> is_notification q"
    and "tool_arguments q = JObj input" "parse_backend_from_tool (ge_uni g) (wire_tool_name q) = Some (b, t)"
    and "b \<in> set (ge_backends g)" "ge_resolve g (hq_headers rq) = Bound p"
    and "decide_parse g rq' = Accept (wire_tool_name q) input ctx" "ge_resolve g (hq_headers rq') = Bound p"
    and "length (hq_body rq') = length (hq_body rq)"
  shows "gs_sent (snd (decide_endpoint g rq' s)) = gs_sent s
    \<and> rp_status (fst (decide_endpoint g rq' s)) = 200
    \<and> (reply_verdict (fst (decide_endpoint g rq' s)) = Some (JStr ''allow'') \<longleftrightarrow>
         gs_sent (snd (mcp_endpoint g rq s)) = gs_sent s @ [(b, mq_raw q)])"
proof -
  let ?v = "fst (evaluate (ge_pipeline g) (ge_tenant g) p (action_from_tool_call b t) (int (length (hq_body rq)))
      (fst (record_invocation_pre_policy g p (gs_invocations s))) (ge_policy g) input (gs_pipeline s))"
  obtain i e where "fst (decide_endpoint g rq' s) = decide_reply ?v i e"
    using decide_answer_of(1) [OF assms(10,7,11), of s] assms(12) by auto
  moreover have "gs_sent (snd (mcp_endpoint g rq s)) = gs_sent (snd (tools_call g rq q p None s))"
    using assms(2-4,9) by (simp add: mcp_endpoint_def mcp_dispatch_def)
  then have "gs_sent (snd (mcp_endpoint g rq s)) =
      (if gv_verdict ?v = ''allow'' then gs_sent s @ [(b, mq_raw q)] else gs_sent s)"
    using assms(1,5-8) by (simp add: tools_call_sent run_policy_object case_prod_beta)
  ultimately show ?thesis
    using decide_answer_of(2) [OF assms(10,7,11), of s] by (simp add: decide_reply_verdict)
qed

definition two_bodies :: "unit gateway_env" where
  "two_bodies = (sample_gateway ''enforce'' JNull (Bound sample_principal))
     \<lparr> ge_loads := (\<lambda>t. if t = ''{}'' then Some (sample_call (JObj []) [(''id'', JInt 1)])
                     else Some (JObj [(''tool_name'', JStr ''FS.read'')])) \<rparr>"

theorem decide_foretells_enforce_witness:
  "reply_verdict (fst (decide_endpoint two_bodies (sample_request\<lparr> hq_body := ''[]'' \<rparr>) sample_gateway_state))
     = Some (JStr ''allow'')"
proof -
  let ?q = "sample_parsed (JObj []) [(''id'', JInt 1)]"
  let ?rq = "sample_request\<lparr> hq_body := ''[]'' \<rparr>"
  have name: "wire_tool_name ?q = JStr ''FS.read''"
    by (simp add: wire_tool_name_def tool_name_def sample_parsed_def)
  have fr: "first_repeat (JObj [(''tool_name'', JStr ''FS.read'')]) = None"
    by (simp del: first_repeat.simps(1))
  have d: "decide_parse two_bodies ?rq = Accept (wire_tool_name ?q) [] []"
    unfolding name by (simp add: decide_parse_def two_bodies_def sample_request_def body_refused_def
        MAX_DECIDE_BODY_BYTES_def fr del: first_repeat.simps first_repeat_None_simps)
  have sent: "gs_sent (snd (mcp_endpoint two_bodies sample_request sample_gateway_state))
      = gs_sent sample_gateway_state @ [(''fs'', mq_raw ?q)]"
    using sample_name
    by (simp add: mcp_endpoint_def mcp_dispatch_def tools_call_sent sample_parse sample_name sample_arguments
      run_policy_object case_prod_beta action_from_tool_call_def sample_gateway_state_def sample_allowed
      is_notification_def two_bodies_def sample_request_def body_refused_def MAX_HTTP_BODY_BYTES_def)
     (simp_all add: sample_parsed_def)
  have h: "mq_method ?q = ''tools/call''" "\<not> is_notification ?q" "tool_arguments ?q = JObj []"
    "ge_mode two_bodies = ''enforce''" "body_refused MAX_HTTP_BODY_BYTES sample_request = None"
    "parse_request (ge_loads two_bodies (hq_body sample_request)) = Inr ?q"
    "parse_backend_from_tool (ge_uni two_bodies) (wire_tool_name ?q) = Some (''fs'', ''read'')"
    "''fs'' \<in> set (ge_backends two_bodies)" "ge_resolve two_bodies hd = Bound sample_principal"
    "length (hq_body ?rq) = length (hq_body sample_request)" for hd
    using sample_name
    by (simp_all add: two_bodies_def sample_parse sample_request_def sample_arguments)
       (simp_all add: sample_parsed_def is_notification_def body_refused_def MAX_HTTP_BODY_BYTES_def)
  from decide_foretells_enforce [OF h(4-6) h(1-3) h(7-9) d h(9,10), of sample_gateway_state] sent
  show ?thesis by blast
qed

section \<open>Evidence and trust\<close>

lemma signal_committed [simp]: "\<exists>n. fst (signal_loop 0 [] tab k a now) = Inr n"
  by (subst signal_loop.simps) (simp split: option.split)

text \<open>A decision debits trust only when its evidence is stored: when the row cannot be
written, because there is no invocation id, the write fails or the payload is over the
evidence cap, nothing at all is recorded; otherwise the signal of the verdict goes to the
principal's row.\<close>

theorem no_evidence_no_signal:
  assumes "re_commits (pe_rbac (ge_pipeline g)) = []"
  shows "(iid = None \<longrightarrow> fst (record_verdict_evidence g p act v params iid args s) = None)
    \<and> (fst (record_verdict_evidence g p act v params iid args s) = None \<longrightarrow>
         snd (record_verdict_evidence g p act v params iid args s) = s)
    \<and> (fst (record_verdict_evidence g p act v params iid args s) \<noteq> None \<longrightarrow>
         ps_principals (gs_pipeline (snd (record_verdict_evidence g p act v params iid args s))) =
           snd (record_principal_signal (re_kinds (pe_rbac (ge_pipeline g))) [] (ps_principals (gs_pipeline s))
             (ge_tenant g, bp_kind p, bp_id p) (gv_signal v) None
             [(''action'', act), (''reason_codes'', comma_join (gv_reasons v))] None True None (ge_now g)))"
proof (cases iid)
  case None
  then show ?thesis by (simp add: record_verdict_evidence_def)
next
  case (Some i)
  define a where "a = \<lparr> a_tenant = ge_tenant g, a_inv = i, a_kind = ''gateway_verdict'',
                    a_payload = verdict_payload act v p params args, a_role = None, a_source = None,
                    a_occurred = None, a_classes = None, a_corr = None, a_parent = None, a_span = None,
                    a_retention = None, a_evaluator = evaluator_of v \<rparr>"
  have rej: "db = gs_evidence s" if "record_evidence (ge_evidence g) a (gs_evidence s) = (Inl err, db)" for err db
    using that by (auto simp: record_evidence_def Let_def split: sum.splits)
  obtain r tab where sig: "record_principal_signal (re_kinds (pe_rbac (ge_pipeline g))) [] (ps_principals (gs_pipeline s))
      (ge_tenant g, bp_kind p, bp_id p) (gv_signal v) None
      [(''action'', act), (''reason_codes'', comma_join (gv_reasons v))] None True None (ge_now g) = (r, tab)"
    by (meson surj_pair)
  then obtain n where "r = Inr n"
    unfolding record_principal_signal_def prod.case using signal_committed by (metis fst_conv)
  with sig rej show ?thesis
    by (cases "record_evidence (ge_evidence g) a (gs_evidence s)"; cases "fst (record_evidence (ge_evidence g) a (gs_evidence s))")
       (auto simp: record_verdict_evidence_def Some assms a_def [symmetric])
qed

theorem no_evidence_no_signal_witness:
  "snd (record_verdict_evidence (sample_gateway ''enforce'' JNull (Bound sample_principal)) sample_principal
     ''mcp.fs.rm'' (verdict ''deny'' [''RBAC_DENY''] ''rbac_refusal'') JNull None None sample_gateway_state)
   = sample_gateway_state"
  by (rule no_evidence_no_signal [THEN conjunct2, THEN conjunct1, THEN mp])
     (simp_all add: sample_pipeline_def sample_rbac_def record_verdict_evidence_def)

section \<open>Replayed credentials\<close>

lemma signal_committed_table:
  "snd (signal_loop 0 [] tab k a now) = (case signal_pass tab k a now of None \<Rightarrow> tab | Some (n, tab') \<Rightarrow> tab')"
  by (subst signal_loop.simps) (simp split: option.split)

lemma signal_existing:
  assumes "\<not> sa_allow_create a"
  shows "snd (signal_loop 0 [] tab k a now) =
    (if List.find (principal_at k) tab = None then tab else map_where (principal_at k) (merged_row a now) tab)"
  using assms by (simp add: signal_committed_table signal_pass_def split: option.split)

definition row_key :: "principal_row \<Rightarrow> principal_key" where
  "row_key r = (p_tenant r, p_kind r, p_id r)"

lemma merged_keys: "map row_key (map_where P (merged_row a now) tab) = map row_key tab"
  by (rule map_map_where) (simp add: row_key_def merged_row_def)

lemma failure_event_table:
  fixes s
  assumes "re_commits (pe_rbac (ge_pipeline g)) = []" "identity_failure_sec_event x = Some kind"
    and "is_valid_principal_kind (re_kinds (pe_rbac (ge_pipeline g))) pk"
    and "xf_kind x = Some pk" "xf_id x = Some pid" "pk \<noteq> []" "pid \<noteq> []"
  defines "k \<equiv> (ge_tenant g, pk, pid)" and "tab \<equiv> ps_principals (gs_pipeline s)"
  shows "emit_identity_failure_event g x s = s\<lparr> gs_pipeline := (gs_pipeline s)\<lparr> ps_principals :=
      (if gateway_signal_debounced (re_trust_ok (pe_rbac (ge_pipeline g))) tab k kind GATEWAY_SIGNAL_DEBOUNCE_S (ge_now g)
          \<or> List.find (principal_at k) tab = None then tab
       else map_where (principal_at k) (merged_row (signal_call kind None [(''reason'', take 200 (xf_text x))] None False
              None (ge_now g)) (ge_now g)) tab) \<rparr> \<rparr>"
proof -
  have "emit_security_event r c t kind tn None None d False n = t" for r c t tn d n
    by (simp add: emit_security_event_def)
  then show ?thesis
    using assms(1-7)
    by (simp add: emit_identity_failure_event_def Let_def k_def tab_def record_principal_signal_def coerce_kind_def
        signal_existing signal_call_def or_else_def)
qed

text \<open>Replaying a revoked credential costs its principal at most one debit a minute: once
an emission has changed anything, further ones within 60 seconds change nothing. None ever
adds a row, so a credential issued for another tenant leaves no trace in this one.\<close>

theorem replayed_credential_costs_once:
  assumes "re_commits (pe_rbac (ge_pipeline g)) = []" "re_trust_ok (pe_rbac (ge_pipeline g))"
    and "identity_failure_sec_event x = Some kind"
    and "is_valid_principal_kind (re_kinds (pe_rbac (ge_pipeline g))) pk"
    and "xf_kind x = Some pk" "xf_id x = Some pid" "pk \<noteq> []" "pid \<noteq> []"
    and "later \<le> ge_now g + seconds 60"
  shows "(emit_identity_failure_event g x s \<noteq> s \<longrightarrow>
      emit_identity_failure_event (g\<lparr> ge_now := later \<rparr>) x (emit_identity_failure_event g x s)
        = emit_identity_failure_event g x s)
    \<and> map row_key (ps_principals (gs_pipeline (emit_identity_failure_event g x s)))
        = map row_key (ps_principals (gs_pipeline s))"
proof -
  let ?k = "(ge_tenant g, pk, pid)"
  let ?a = "signal_call kind None [(''reason'', take 200 (xf_text x))] None False None (ge_now g)"
  let ?tab = "ps_principals (gs_pipeline s)"
  let ?new = "map_where (principal_at ?k) (merged_row ?a (ge_now g)) ?tab"
  note table = failure_event_table [OF assms(1,3-8)]
  have later: "emit_identity_failure_event (g\<lparr> ge_now := later \<rparr>) x s' = s'"
    if "gateway_signal_debounced True (ps_principals (gs_pipeline s')) ?k kind GATEWAY_SIGNAL_DEBOUNCE_S later" for s'
    using failure_event_table [of "g\<lparr> ge_now := later \<rparr>" x kind pk pid s'] assms that by simp
  show ?thesis
  proof (cases "emit_identity_failure_event g x s = s")
    case False
    then have found: "List.find (principal_at ?k) ?tab \<noteq> None"
      and e: "emit_identity_failure_event g x s = s\<lparr> gs_pipeline := (gs_pipeline s)\<lparr> ps_principals := ?new \<rparr> \<rparr>"
      by (auto simp: table split: if_splits)
    then obtain r where "List.find (principal_at ?k) ?tab = Some r" by blast
    then have "List.find (principal_at ?k) ?new = Some (merged_row ?a (ge_now g) r)"
      by (simp add: find_map_where_same)
    moreover have "p_last_signal (merged_row ?a (ge_now g) r) = Some (ge_now g)"
      and "\<exists>c. p_counts (merged_row ?a (ge_now g) r) = Some c \<and> map_of c kind \<noteq> None"
      by (simp_all add: merged_row_def signal_call_def incr_count_def)
    ultimately have "gateway_signal_debounced True ?new ?k kind GATEWAY_SIGNAL_DEBOUNCE_S later"
      using assms(9) by (auto simp: gateway_signal_debounced_def GATEWAY_SIGNAL_DEBOUNCE_S_def seconds_def)
    then show ?thesis using later [of "s\<lparr> gs_pipeline := (gs_pipeline s)\<lparr> ps_principals := ?new \<rparr> \<rparr>"] e merged_keys
      by simp
  qed simp
qed

definition revoked :: identity_failure where
  "revoked = \<lparr> xf_class = ''RevocationBlocked'', xf_bases = [], xf_dpop = None, xf_jsonrpc = - 32002, xf_status = 401,
     xf_text = ''revoked'', xf_kind = Some ''agent'', xf_id = Some ''a1'' \<rparr>"

theorem replayed_credential_costs_once_witness:
  "map row_key (ps_principals (gs_pipeline (emit_identity_failure_event
     ((sample_gateway ''enforce'' JNull (Unbound revoked))
        \<lparr> ge_pipeline := sample_pipeline\<lparr> pe_rbac := sample_rbac\<lparr> re_kinds := [''agent''] \<rparr> \<rparr> \<rparr>)
     revoked sample_gateway_state))) = []"
proof -
  let ?g = "(sample_gateway ''enforce'' JNull (Unbound revoked))
        \<lparr> ge_pipeline := sample_pipeline\<lparr> pe_rbac := sample_rbac\<lparr> re_kinds := [''agent''] \<rparr> \<rparr> \<rparr>"
  have "identity_failure_sec_event revoked = Some ''revocation_blocked''"
    by (simp add: identity_failure_sec_event_def revoked_def IDENTITY_FAIL_SEC_EVENTS_def)
  then show ?thesis
    using replayed_credential_costs_once [of ?g revoked "''revocation_blocked''" "''agent''" "''a1''" 0 sample_gateway_state]
    by (simp add: sample_rbac_def is_valid_principal_kind_def sample_gateway_def seconds_def)
       (simp add: revoked_def sample_gateway_state_def sample_stack_state_def)
qed

end
