(* ===== verification/ThrottleFacts.thy ===== *)
theory ThrottleFacts
  imports Throttle
begin

text \<open>
  The in-memory limiters: their tables stay within their caps, and the sliding window
  decides as its definition over the whole history does.
\<close>

section \<open>Caps\<close>

lemma first_least_mem: "xs \<noteq> [] \<Longrightarrow> \<exists>k. first_least f xs = Some k \<and> k \<in> fst ` set xs"
proof (induction f xs rule: first_least.induct)
  case (3 f k v l w xs)
  then show ?case by (cases "f v \<le> f w") auto
qed simp_all

lemma drop_least_shorter: "xs \<noteq> [] \<Longrightarrow> length (drop_least f xs) < length xs"
proof -
  assume "xs \<noteq> []"
  then obtain k where k: "first_least f xs = Some k" "k \<in> fst ` set xs" using first_least_mem by blast
  then obtain v where "(k, v) \<in> set xs" by auto
  then have "length (filter (\<lambda>(k', _). k \<noteq> k') xs) < length xs"
    by (intro length_filter_less) auto
  then show ?thesis using k by (simp add: drop_least_def AList.delete_eq)
qed

lemma evict_length: "length (evict_stale n now xs) \<le> length xs"
  by (induction n now xs rule: evict_stale.induct) auto

lemma make_room_length:
  "length xs \<le> UNAUTH_EVIDENCE_MAX_IPS \<Longrightarrow> length (make_room now xs) < UNAUTH_EVIDENCE_MAX_IPS"
proof -
  assume len: "length xs \<le> UNAUTH_EVIDENCE_MAX_IPS"
  let ?ys = "evict_stale EVICT_BUDGET now xs"
  have "length (drop_least fst ?ys) < length ?ys" if "\<not> length ?ys < UNAUTH_EVIDENCE_MAX_IPS"
    using that by (intro drop_least_shorter) (auto simp: UNAUTH_EVIDENCE_MAX_IPS_def)
  then show ?thesis using len evict_length [of EVICT_BUDGET now xs] by (auto simp: make_room_def Let_def)
qed

lemma me_make_room_length:
  "length ws \<le> ME_RATE_MAX_TRACKED_IPS \<Longrightarrow> length (me_make_room c ws) < ME_RATE_MAX_TRACKED_IPS"
proof -
  assume len: "length ws \<le> ME_RATE_MAX_TRACKED_IPS"
  let ?ys = "filter (\<lambda>(ip, win). win \<noteq> [] \<and> c \<le> last win) ws"
  have "length (drop_least last_touch ?ys) < length ?ys" if "\<not> length ?ys < ME_RATE_MAX_TRACKED_IPS"
    using that by (intro drop_least_shorter) (auto simp: ME_RATE_MAX_TRACKED_IPS_def)
  moreover have "length ?ys \<le> ME_RATE_MAX_TRACKED_IPS" using len length_filter_le order_trans by blast
  ultimately have "length (if length ?ys < ME_RATE_MAX_TRACKED_IPS then ?ys else drop_least last_touch ?ys)
      < ME_RATE_MAX_TRACKED_IPS" by simp
  then show ?thesis by (simp add: me_make_room_def Let_def)
qed

lemma update_length: "length (AList.update k v xs) \<le> Suc (length xs)"
  by (induction xs) auto

lemma update_entries: "(k', v') \<in> set (AList.update k v xs) \<Longrightarrow> (k', v') = (k, v) \<or> (k', v') \<in> set xs"
  by (induction xs) (auto split: if_splits)

definition short_windows :: "windows \<Rightarrow> bool" where
  "short_windows ws = (length ws \<le> ME_RATE_MAX_TRACKED_IPS \<and> (\<forall>(ip, win)\<in>set ws. length win \<le> ME_RATE_LIMIT_PER_MIN))"

lemma drop_least_subset: "set (drop_least f xs) \<subseteq> set xs"
  by (auto simp: drop_least_def AList.delete_eq split: option.splits)

lemma me_make_room_subset: "set (me_make_room c ws) \<subseteq> set ws"
proof -
  let ?ys = "filter (\<lambda>(ip, win). win \<noteq> [] \<and> c \<le> last win) ws"
  have "set (drop_least last_touch ?ys) \<subseteq> set ws" using drop_least_subset [of last_touch ?ys] by auto
  then show ?thesis by (auto simp: me_make_room_def Let_def)
qed

lemma me_check_short:
  assumes "short_windows ws"
  shows "short_windows (snd (me_rate_limit_check now ip ws))"
proof -
  let ?ws = "me_make_room (now - seconds 60) ws"
  have room: "length ?ws < ME_RATE_MAX_TRACKED_IPS"
    using assms me_make_room_length by (simp add: short_windows_def)
  have old: "\<forall>(ip, win)\<in>set ?ws. length win \<le> ME_RATE_LIMIT_PER_MIN"
    using assms me_make_room_subset [of "now - seconds 60" ws] by (auto simp: short_windows_def)
  define win where "win = dropWhile (\<lambda>t. t < now - seconds 60) (case map_of ?ws ip of None \<Rightarrow> [] | Some w \<Rightarrow> w)"
  have "length win \<le> ME_RATE_LIMIT_PER_MIN"
  proof (cases "map_of ?ws ip")
    case (Some w)
    then have "length w \<le> ME_RATE_LIMIT_PER_MIN" using old by (auto dest: map_of_SomeD)
    moreover have "length win \<le> length w" by (simp add: win_def Some length_dropWhile_le)
    ultimately show ?thesis by simp
  qed (simp add: win_def)
  moreover have "short_windows (AList.update ip w ?ws)" if "length w \<le> ME_RATE_LIMIT_PER_MIN" for w
    using that room old update_length [of ip w ?ws] by (auto simp: short_windows_def dest!: update_entries)
  ultimately show ?thesis by (simp add: me_rate_limit_check_def Let_def win_def [symmetric])
qed

lemma throttle_step_length:
  "length xs \<le> UNAUTH_EVIDENCE_MAX_IPS \<Longrightarrow>
     length (snd (should_record_unauth_evidence rate now ip xs)) \<le> UNAUTH_EVIDENCE_MAX_IPS"
  using make_room_length [of xs now] update_length [of ip _ "make_room now xs"]
  by (auto simp: should_record_unauth_evidence_def Let_def split: prod.split option.split)
     (metis Suc_leI le_trans)+

section \<open>The sliding window\<close>

fun me_run :: "(instant \<times> string) list \<Rightarrow> windows \<Rightarrow> bool list \<times> windows" where
  "me_run [] ws = ([], ws)"
| "me_run ((t, ip) # es) ws =
     (case me_rate_limit_check t ip ws of (ok, ws') \<Rightarrow> map_prod (Cons ok) id (me_run es ws'))"

text \<open>The specification keeps every call that was let through and counts.\<close>

fun within_limit :: "(instant \<times> string) list \<Rightarrow> (instant \<times> string) list \<Rightarrow> bool list" where
  "within_limit [] served = []"
| "within_limit ((t, ip) # es) served =
     (let ok = length (filter (\<lambda>(u, i). i = ip \<and> t - seconds 60 \<le> u) served) < ME_RATE_LIMIT_PER_MIN
      in ok # within_limit es (if ok then served @ [(t, ip)] else served))"

definition times_of :: "(instant \<times> string) list \<Rightarrow> string \<Rightarrow> instant list" where
  "times_of served ip = map fst (filter (\<lambda>(u, i). i = ip) served)"

definition stored :: "windows \<Rightarrow> string \<Rightarrow> instant list" where
  "stored ws ip = (case map_of ws ip of None \<Rightarrow> [] | Some w \<Rightarrow> w)"

definition represents :: "windows \<Rightarrow> (instant \<times> string) list \<Rightarrow> instant \<Rightarrow> bool" where
  "represents ws served now =
     (\<forall>ip. sorted (stored ws ip) \<and> (\<forall>u\<in>set (stored ws ip). u \<le> now)
       \<and> (\<forall>c\<ge>now - seconds 60. filter ((\<le>) c) (stored ws ip) = filter ((\<le>) c) (times_of served ip)))"

lemma dropWhile_sorted: "sorted xs \<Longrightarrow> dropWhile (\<lambda>t. t < (c::int)) xs = filter ((\<le>) c) xs"
proof (induction xs)
  case (Cons x xs)
  then have "c \<le> x \<Longrightarrow> filter ((\<le>) c) xs = xs" by (auto intro!: filter_True)
  with Cons show ?case by auto
qed simp

lemma times_append: "times_of (served @ [(t, i)]) ip = times_of served ip @ (if i = ip then [t] else [])"
  by (simp add: times_of_def)

lemma stored_update: "stored (AList.update i w ws) ip = (if ip = i then w else stored ws ip)"
  by (simp add: stored_def update_conv')

lemma represents_step:
  assumes "represents ws served now" "now \<le> t" "length ws < ME_RATE_MAX_TRACKED_IPS"
    and "me_rate_limit_check t ip ws = (ok, ws')"
  shows "ok \<longleftrightarrow> length (filter (\<lambda>(u, i). i = ip \<and> t - seconds 60 \<le> u) served) < ME_RATE_LIMIT_PER_MIN"
    and "represents ws' (if ok then served @ [(t, ip)] else served) t"
    and "fst ` set ws' = insert ip (fst ` set ws)" "distinct (map fst ws) \<Longrightarrow> distinct (map fst ws')"
proof -
  let ?c = "t - seconds 60"
  define win where "win = filter ((\<le>) ?c) (times_of served ip)"
  have "now - seconds 60 \<le> ?c" using assms(2) by simp
  then have "dropWhile (\<lambda>u. u < ?c) (stored ws ip) = win"
    using assms(1) dropWhile_sorted unfolding represents_def win_def by metis
  then have chk: "me_rate_limit_check t ip ws =
      (if ME_RATE_LIMIT_PER_MIN \<le> length win then (False, AList.update ip win ws)
       else (True, AList.update ip (win @ [t]) ws))"
    using assms(3) by (simp add: me_rate_limit_check_def me_make_room_def stored_def Let_def)
  have "length win = length (filter (\<lambda>(u, i). i = ip \<and> t - seconds 60 \<le> u) served)"
    by (auto simp: win_def times_of_def filter_map o_def intro!: arg_cong [where f = length] filter_cong)
  then show ok: "ok \<longleftrightarrow> length (filter (\<lambda>(u, i). i = ip \<and> t - seconds 60 \<le> u) served) < ME_RATE_LIMIT_PER_MIN"
    using assms(4) chk by (auto split: if_splits)
  have win_old: "win = filter ((\<le>) ?c) (stored ws ip)"
    using assms(1,2) by (simp add: represents_def win_def)
  have "sorted (stored ws ip)" "\<forall>u\<in>set (stored ws ip). u \<le> t"
    using assms(1,2) unfolding represents_def by (blast, meson order_trans)
  then have srt: "sorted win" "\<forall>u\<in>set win. u \<le> t"
    unfolding win_old by (auto simp: sorted_filter [of id, simplified])
  have fil: "filter ((\<le>) c) win = filter ((\<le>) c) (times_of served ip)" if "?c \<le> c" for c
    using that by (auto simp: win_def intro: filter_cong)
  have ws': "ws' = AList.update ip (if ok then win @ [t] else win) ws"
    using assms(4) chk by (auto split: if_splits)
  show "represents ws' (if ok then served @ [(t, ip)] else served) t"
    unfolding represents_def ws'
  proof (intro allI conjI ballI impI)
    fix j
    show "sorted (stored (AList.update ip (if ok then win @ [t] else win) ws) j)"
      using assms(1) srt by (auto simp: stored_update represents_def sorted_append)
    show "u \<le> t" if "u \<in> set (stored (AList.update ip (if ok then win @ [t] else win) ws) j)" for u
      using that assms(1,2) srt by (fastforce simp: stored_update represents_def split: if_splits)
    show "filter ((\<le>) c) (stored (AList.update ip (if ok then win @ [t] else win) ws) j) =
        filter ((\<le>) c) (times_of (if ok then served @ [(t, ip)] else served) j)" if "?c \<le> c" for c
      using that assms(1,2) fil by (auto simp: stored_update times_append represents_def)
  qed
  show "fst ` set ws' = insert ip (fst ` set ws)"
    unfolding ws' by (induction ws) auto
  show "distinct (map fst ws) \<Longrightarrow> distinct (map fst ws')"
    unfolding ws' by (rule distinct_update)
qed

lemma me_run_spec:
  "represents ws served now \<Longrightarrow> sorted (now # map fst es) \<Longrightarrow> distinct (map fst ws) \<Longrightarrow>
     card (fst ` set ws \<union> snd ` set es) < ME_RATE_MAX_TRACKED_IPS \<Longrightarrow>
     fst (me_run es ws) = within_limit es served"
proof (induction es arbitrary: ws served now)
  case (Cons e es)
  obtain t ip where e: "e = (t, ip)" by (cases e)
  obtain ok ws' where s: "me_rate_limit_check t ip ws = (ok, ws')" by (cases "me_rate_limit_check t ip ws")
  have "length ws = card (fst ` set ws)" using Cons.prems(3) distinct_card [of "map fst ws"] by simp
  also have "\<dots> \<le> card (fst ` set ws \<union> snd ` set (e # es))" by (intro card_mono) auto
  finally have len: "length ws < ME_RATE_MAX_TRACKED_IPS" using Cons.prems(4) by simp
  have le: "now \<le> t" using Cons.prems(2) e by simp
  note step = represents_step [OF Cons.prems(1) le len s]
  have "fst ` set ws' \<union> snd ` set es = fst ` set ws \<union> snd ` set (e # es)"
    unfolding step(3) by (auto simp: e)
  then have "fst (me_run es ws') = within_limit es (if ok then served @ [(t, ip)] else served)"
    using Cons.IH [OF step(2)] Cons.prems step(4) e by simp
  then show ?case using step(1) by (simp add: e s Let_def)
qed simp

text \<open>C38. The window of the introspection endpoint is exact: as long as fewer than 10,000
addresses have called, a call is let through exactly when fewer than 60 calls of its own
address were let through in the 60 seconds before it. And whatever calls, in whatever
order of times, the tables never outgrow their caps.\<close>

theorem sliding_window_exact:
  assumes "sorted (map fst es)" "card (snd ` set es) < ME_RATE_MAX_TRACKED_IPS"
  shows "fst (me_run es []) = within_limit es []
    \<and> short_windows (foldl (\<lambda>ws (t, ip). snd (me_rate_limit_check t ip ws)) [] calls)
    \<and> length (foldl (\<lambda>xs (t, ip). snd (should_record_unauth_evidence rate t ip xs)) [] calls)
        \<le> UNAUTH_EVIDENCE_MAX_IPS"
proof -
  have "fst (me_run es []) = within_limit es []"
  proof (cases es)
    case (Cons e es')
    have "represents [] [] (fst e)" by (simp add: represents_def stored_def times_of_def)
    then show ?thesis using me_run_spec [of "[]" "[]" "fst e" es] assms Cons by auto
  qed simp
  moreover have "short_windows (foldl (\<lambda>ws (t, ip). snd (me_rate_limit_check t ip ws)) [] calls)"
    by (induction calls rule: rev_induct) (auto simp: me_check_short short_windows_def [of "[]"] split: prod.split)
  moreover have "length (foldl (\<lambda>xs (t, ip). snd (should_record_unauth_evidence rate t ip xs)) [] calls)
        \<le> UNAUTH_EVIDENCE_MAX_IPS"
    by (induction calls rule: rev_induct) (auto simp: throttle_step_length split: prod.split)
  ultimately show ?thesis by blast
qed

theorem sliding_window_exact_witness:
  "fst (me_run [(0, ''a''), (5, ''b'')] []) = [True, True]"
  using sliding_window_exact [of "[(0, ''a''), (5, ''b'')]", THEN conjunct1]
  by (simp add: ME_RATE_MAX_TRACKED_IPS_def ME_RATE_LIMIT_PER_MIN_def seconds_def card_insert_if Let_def)

end
