(* ===== verification/RiskFactors.thy ===== *)
theory RiskFactors
  imports Weights Floats
begin

text \<open>
  The factors of an agent's static risk score: the declared fields of an agent
  (\<open>risk_agent\<close>), the in-process tables the scorers read (\<open>risk_env\<close>), and one
  definition per factor module: data classes, security capabilities, skills, input
  sources, deployment, ownership and review (\<open>kya/lifecycle.py\<close>), blast radius,
  supply chain, cost burn and external audits. Texts (labels, reasons) are left
  out; every number they are printed beside is kept. Floats are those of \<open>Floats\<close>;
  \<open>sum\<close> adds from left to right, as before Python 3.12.
\<close>

section \<open>Declared fields\<close>

text \<open>
  A field that should hold a number: absent, an empty value, a number, a text with
  what \<open>int\<close> and \<open>float\<close> read in it, or any other value.
\<close>

datatype num_field = NoNum | EmptyText | Num rat | Text "int option" "rat option" | OtherValue

text \<open>A field that should hold a date: absent, unreadable, or an instant.\<close>

datatype date_field = NoDate | BadDate | Date instant

text \<open>The \<open>tools\<close> field: a list whose items are strings or something else
  (\<open>None\<close>), a single string, or a value that cannot be iterated.\<close>

datatype tools_field = ToolList "string option list" | OneTool string | NotIterable

record skill =
  sk_name :: "string option"
  sk_tools :: "string list"
  sk_classes :: "string list"
  sk_caps :: "string list"

datatype dep_item = DepDict "string option" "string option" "string option" | DepName string | DepOther

record risk_agent =
  ra_key :: "string option"
  ra_id :: "string option"
  ra_tools :: tools_field
  ra_skills :: "skill option list"
  ra_loop :: "string option"
  ra_override :: bool
  ra_revert :: bool
  ra_access :: "string option"
  ra_classes :: "string list option"
  ra_caps :: "string list option"
  ra_provenance :: "string option"
  ra_model_trust :: "string option"
  ra_delegates :: "string list"
  ra_sources :: "string list"
  ra_environment :: "string option"
  ra_deployment_env :: "string option"
  ra_owner_user :: "string option"
  ra_owner_team :: "string option"
  ra_on_call :: "string option"
  ra_escalation :: "string list"
  ra_review :: "string option"
  ra_review_expires :: date_field
  ra_first_deployed :: date_field
  ra_created :: date_field
  ra_changes :: num_field
  ra_rate_limit :: num_field
  ra_cost_ceiling :: num_field
  ra_user_base :: num_field
  ra_multi_tenant :: bool
  ra_geography :: "string option"
  ra_dependencies :: "dep_item list option"
  ra_mcp_servers :: "string list"
  ra_apis :: "string list"
  ra_plugins :: "string list"
  ra_monthly_budget :: num_field
  ra_cost_24h :: num_field
  ra_cost_1h :: num_field
  ra_budget_left :: num_field
  ra_anomaly :: num_field
  ra_cites :: "bool option"
  ra_citation :: num_field
  ra_reproducibility :: "string option"
  ra_red_team :: num_field
  ra_bias :: num_field
  ra_fairness :: num_field
  ra_last_audit :: date_field
  ra_no_interactions :: bool

text \<open>\<open>int(x or 0)\<close> and \<open>float(x or d)\<close>, which may raise, and \<open>_safe_int\<close>.\<close>

definition int_or_0 :: "num_field \<Rightarrow> int option" where
  "int_or_0 x = (case x of NoNum \<Rightarrow> Some 0 | EmptyText \<Rightarrow> Some 0 | Num r \<Rightarrow> Some (py_trunc r)
     | Text i _ \<Rightarrow> i | OtherValue \<Rightarrow> None)"

definition float_or :: "rat \<Rightarrow> num_field \<Rightarrow> rat option" where
  "float_or d x = (case x of NoNum \<Rightarrow> Some d | EmptyText \<Rightarrow> Some d
     | Num r \<Rightarrow> Some (if r = 0 then d else fl r)
     | Text _ f \<Rightarrow> map_option fl f | OtherValue \<Rightarrow> None)"

definition safe_int :: "num_field \<Rightarrow> int" where
  "safe_int x = (case x of Num r \<Rightarrow> py_trunc r | Text (Some i) _ \<Rightarrow> i | _ \<Rightarrow> 0)"

definition number :: "num_field \<Rightarrow> rat option" where
  "number x = (case x of Num r \<Rightarrow> Some r | _ \<Rightarrow> None)"

text \<open>\<open>(x or d).strip().lower()\<close>.\<close>

definition norm :: "string option \<Rightarrow> string \<Rightarrow> string" where
  "norm x d = lower (strip (or_else x d))"

text \<open>Whole days between an instant and now, rounded down.\<close>

definition age_days :: "instant \<Rightarrow> instant \<Rightarrow> int" where
  "age_days now d = (now - d) div 86400000000"

definition date_or :: "date_field \<Rightarrow> date_field \<Rightarrow> date_field" where
  "date_or a b = (if a = NoDate then b else a)"

section \<open>The tables\<close>

record risk_factor =
  rf_name :: string
  rf_delta :: int

record interaction =
  ix_code :: string
  ix_condition :: "risk_agent \<Rightarrow> risk_factor list \<Rightarrow> bool option"
  ix_multiplier :: rat
  ix_severity :: string

text \<open>\<open>re_order\<close> is the order in which Python walks a set built by inserting the
  given elements: it differs from process to process.\<close>

record risk_env =
  re_catalog :: catalog
  re_class_weights :: weight_table
  re_cap_weights :: weight_table
  re_source_weights :: weight_table
  re_deploy_weights :: weight_table
  re_tool_classes :: "(string \<times> string list) list"
  re_tool_caps :: "(string \<times> string list) list"
  re_skill_catalog :: "(string \<times> (string list \<times> string list)) list"
  re_interactions :: "interaction list"
  re_order :: "string list \<Rightarrow> string list"

definition weight_in :: "weight_table \<Rightarrow> string \<Rightarrow> int" where
  "weight_in w k = (case map_of w k of Some v \<Rightarrow> v | None \<Rightarrow> 0)"

definition DATA_CLASSES :: "string list" where
  "DATA_CLASSES =
    [''public'', ''internal'', ''confidential'', ''pii'', ''financial'', ''phi'', ''secret'',
     ''cui'', ''cdi'', ''itar'', ''ear'', ''classified'', ''us_confidential'', ''us_secret'',
     ''us_top_secret'', ''nato_restricted'', ''nato_confidential'', ''nato_secret'',
     ''restreint_ue'', ''confidentiel_ue'', ''secret_ue'']"

definition CLASS_WEIGHTS :: weight_table where
  "CLASS_WEIGHTS =
    [(''public'', 0), (''internal'', 8), (''confidential'', 15), (''pii'', 20), (''financial'', 25),
     (''phi'', 30), (''secret'', 40), (''cui'', 35), (''cdi'', 40), (''ear'', 40), (''itar'', 50),
     (''classified'', 50), (''us_confidential'', 45), (''us_secret'', 55), (''us_top_secret'', 60),
     (''nato_restricted'', 35), (''nato_confidential'', 45), (''nato_secret'', 55),
     (''restreint_ue'', 35), (''confidentiel_ue'', 45), (''secret_ue'', 55)]"

definition SENSITIVITY_CAP :: int where "SENSITIVITY_CAP = 60"

definition DEFAULT_TOOL_CLASSIFICATIONS :: "(string \<times> string list) list" where
  "DEFAULT_TOOL_CLASSIFICATIONS =
    [(''search_documents'', [''confidential'']), (''search_lightrag'', [''confidential'']),
     (''list_rules'', [''internal'']), (''create_rule'', [''internal'']),
     (''delete_rules'', [''internal'']), (''override_decision'', [''internal'']),
     (''revert_decision'', [''internal'']), (''manage_relationships'', [''confidential'']),
     (''merge_entities'', [''confidential'']), (''connect_database'', [''confidential'']),
     (''test_database_connection'', [''confidential'']),
     (''manage_schema_knowledge'', [''confidential'']),
     (''connect_email'', [''pii'', ''confidential'']), (''connect_slack'', [''pii'', ''confidential'']),
     (''get_traces'', [''internal'']), (''list_governance_events'', [''internal''])]"

definition SECURITY_CAPS :: "string list" where
  "SECURITY_CAPS = [''fs_read'', ''fs_write'', ''network_egress'', ''prod_database'',
     ''secret_access'', ''code_execution'', ''shell_access'', ''container_exec'']"

definition CAPABILITY_WEIGHTS :: weight_table where
  "CAPABILITY_WEIGHTS =
    [(''fs_read'', 5), (''fs_write'', 15), (''network_egress'', 15), (''prod_database'', 25),
     (''secret_access'', 20), (''code_execution'', 30), (''shell_access'', 35), (''container_exec'', 40)]"

definition CAPABILITY_CAP :: int where "CAPABILITY_CAP = 60"

definition DEFAULT_TOOL_CAPABILITIES :: "(string \<times> string list) list" where
  "DEFAULT_TOOL_CAPABILITIES =
    [(''connect_database'', [''network_egress'', ''prod_database'']),
     (''test_database_connection'', [''network_egress'']),
     (''execute_sql'', [''network_egress'', ''prod_database'']),
     (''manage_schema_knowledge'', [''prod_database'']), (''connect_email'', [''network_egress'']),
     (''connect_slack'', [''network_egress'']), (''connect_nifi'', [''network_egress'']),
     (''search_documents'', []), (''search_lightrag'', []), (''fetch_url'', [''network_egress'']),
     (''web_search'', [''network_egress'']), (''execute_python'', [''code_execution'']),
     (''run_code'', [''code_execution'']), (''code_interpreter'', [''code_execution'']),
     (''shell'', [''shell_access'']), (''bash'', [''shell_access'']), (''run_command'', [''shell_access''])]"

definition DEFAULT_SKILL_CLASSIFICATIONS :: "(string \<times> (string list \<times> string list)) list" where
  "DEFAULT_SKILL_CLASSIFICATIONS =
    [(''knowledge_search'', ([''confidential''], [])), (''decision_workflow'', ([''internal''], [])),
     (''schema_inspection'', ([''confidential''], [''prod_database''])),
     (''rule_authoring'', ([''internal''], [])),
     (''data_ingestion'', ([''confidential''], [''network_egress'', ''prod_database''])),
     (''customer_lookup'', ([''pii''], [''prod_database''])),
     (''billing_operations'', ([''financial'', ''pii''], [''prod_database'', ''network_egress''])),
     (''code_interpreter'', ([], [''code_execution''])), (''shell_runner'', ([], [''shell_access''])),
     (''web_research'', ([], [''network_egress''])), (''phi_handler'', ([''phi''], [''prod_database''])),
     (''itar_doc_access'', ([''itar'', ''cui''], [''prod_database''])),
     (''classified_research'', ([''classified''], []))]"

definition SOURCE_WEIGHTS :: weight_table where
  "SOURCE_WEIGHTS =
    [(''internal_database'', 0), (''trusted_api'', 0), (''streaming_event_bus'', 2),
     (''user_prompt'', 5), (''public_dataset'', 8), (''external_api'', 8), (''web_fetch'', 15),
     (''user_upload'', 15), (''unknown'', 10)]"

definition SOURCE_CAP :: int where "SOURCE_CAP = 25"

definition DEPLOYMENT_WEIGHTS :: weight_table where
  "DEPLOYMENT_WEIGHTS =
    [(''dev'', 0), (''test'', 0), (''staging'', 5), (''qa'', 5), (''preprod'', 8), (''prod'', 15),
     (''enclave'', 25), (''unknown'', 15)]"

text \<open>The runtime overrides. \<open>d.update(w)\<close> is \<open>overlay\<close>; replacing clears first.\<close>

definition set_tool_catalog :: "catalog \<Rightarrow> risk_env \<Rightarrow> risk_env" where
  "set_tool_catalog c e = e\<lparr> re_catalog := set_table False c (re_catalog e) \<rparr>"

definition set_class_weights :: "weight_table \<Rightarrow> bool \<Rightarrow> risk_env \<Rightarrow> risk_env" where
  "set_class_weights w merge e = e\<lparr> re_class_weights := set_table merge w (re_class_weights e) \<rparr>"

definition set_tool_classifications :: "(string \<times> string list) list \<Rightarrow> bool \<Rightarrow> risk_env \<Rightarrow> risk_env" where
  "set_tool_classifications c merge e = e\<lparr> re_tool_classes := set_table merge c (re_tool_classes e) \<rparr>"

definition set_capability_weights :: "weight_table \<Rightarrow> risk_env \<Rightarrow> risk_env" where
  "set_capability_weights w e = e\<lparr> re_cap_weights := set_table False w (re_cap_weights e) \<rparr>"

definition set_tool_capabilities :: "(string \<times> string list) list \<Rightarrow> risk_env \<Rightarrow> risk_env" where
  "set_tool_capabilities c e = e\<lparr> re_tool_caps := set_table False c (re_tool_caps e) \<rparr>"

definition set_skill_classifications ::
    "(string \<times> (string list \<times> string list)) list \<Rightarrow> bool \<Rightarrow> risk_env \<Rightarrow> risk_env" where
  "set_skill_classifications c merge e = e\<lparr> re_skill_catalog := set_table merge c (re_skill_catalog e) \<rparr>"

definition set_source_weights :: "weight_table \<Rightarrow> bool \<Rightarrow> risk_env \<Rightarrow> risk_env" where
  "set_source_weights w merge e = e\<lparr> re_source_weights := set_table merge w (re_source_weights e) \<rparr>"

definition set_deployment_weights :: "weight_table \<Rightarrow> bool \<Rightarrow> risk_env \<Rightarrow> risk_env" where
  "set_deployment_weights w merge e = e\<lparr> re_deploy_weights := set_table merge w (re_deploy_weights e) \<rparr>"

section \<open>Data classes, capabilities, skills\<close>

definition items_of :: "(string \<times> string list) list \<Rightarrow> string \<Rightarrow> string list" where
  "items_of c k = (case map_of c k of Some xs \<Rightarrow> xs | None \<Rightarrow> [])"

definition classify_tool :: "risk_env \<Rightarrow> string \<Rightarrow> string list" where
  "classify_tool e t = items_of (re_tool_classes e) t"

text \<open>\<open>sorted(s, key=lambda c: -w.get(c, 0))\<close>: stable on the order of the set.\<close>

definition heaviest_first :: "risk_env \<Rightarrow> weight_table \<Rightarrow> string list \<Rightarrow> string list" where
  "heaviest_first e w cs = sort_key (\<lambda>c. - weight_in w c) (re_order e cs)"

definition infer_data_classes :: "risk_env \<Rightarrow> string list \<Rightarrow> string list" where
  "infer_data_classes e ts =
     heaviest_first e (re_class_weights e)
       (filter (\<lambda>c. c \<in> set DATA_CLASSES) (concat (map (classify_tool e) ts)))"

definition sensitivity_weight :: "risk_env \<Rightarrow> weight_table option \<Rightarrow> string list \<Rightarrow> int" where
  "sensitivity_weight e w cs =
     (if cs = [] then 0
      else let t = (case w of Some t \<Rightarrow> t | None \<Rightarrow> re_class_weights e)
           in min SENSITIVITY_CAP (Max (set (map (weight_in t) cs))))"

definition classify_tool_capabilities :: "risk_env \<Rightarrow> string \<Rightarrow> string list" where
  "classify_tool_capabilities e t = items_of (re_tool_caps e) t"

definition infer_capabilities :: "risk_env \<Rightarrow> string list \<Rightarrow> string list" where
  "infer_capabilities e ts =
     heaviest_first e (re_cap_weights e)
       (filter (\<lambda>c. c \<in> set SECURITY_CAPS) (concat (map (classify_tool_capabilities e) ts)))"

definition capability_weight :: "risk_env \<Rightarrow> weight_table option \<Rightarrow> string list \<Rightarrow> int" where
  "capability_weight e w cs =
     (if cs = [] then 0
      else let t = (case w of Some t \<Rightarrow> t | None \<Rightarrow> re_cap_weights e)
           in min CAPABILITY_CAP (sum_list (map (weight_in t) (remdups cs))))"

definition classify_skill :: "risk_env \<Rightarrow> string \<Rightarrow> string list \<times> string list" where
  "classify_skill e n = (case map_of (re_skill_catalog e) n of Some cc \<Rightarrow> cc | None \<Rightarrow> ([], []))"

definition skill_marks :: "risk_env \<Rightarrow> skill option \<Rightarrow> string list \<times> string list" where
  "skill_marks e s =
     (case s of
        None \<Rightarrow> ([], [])
      | Some k \<Rightarrow>
          (let (cs, ps) = (if truthy (sk_name k) then classify_skill e (the (sk_name k)) else ([], []))
           in (sk_classes k @ cs, sk_caps k @ ps)))"

definition infer_skill_classifications ::
    "risk_env \<Rightarrow> skill option list \<Rightarrow> string list \<times> string list" where
  "infer_skill_classifications e ss =
     (heaviest_first e (re_class_weights e) (concat (map (\<lambda>s. fst (skill_marks e s)) ss)),
      heaviest_first e (re_cap_weights e) (concat (map (\<lambda>s. snd (skill_marks e s)) ss)))"

text \<open>The union of the tools the bundles name, in order of first mention.\<close>

definition flatten_to_tools :: "skill option list \<Rightarrow> string list" where
  "flatten_to_tools ss =
     fold (\<lambda>t out. if t \<in> set out then out else out @ [t])
       (concat (map (\<lambda>s. case s of None \<Rightarrow> [] | Some k \<Rightarrow> sk_tools k) ss)) []"

section \<open>Sources and deployment\<close>

text \<open>
  \<open>w.get(k, w.get('unknown', DEFAULT['unknown']))\<close>: the innermost default is evaluated
  first, so a module table without an \<open>unknown\<close> entry raises (\<open>None\<close>) whatever \<open>k\<close> is.
\<close>

definition get_or_unknown :: "weight_table \<Rightarrow> weight_table \<Rightarrow> string \<Rightarrow> int option" where
  "get_or_unknown w dflt k =
     (case map_of dflt ''unknown'' of
        None \<Rightarrow> None
      | Some u \<Rightarrow> Some (case map_of w k of Some v \<Rightarrow> v
          | None \<Rightarrow> (case map_of w ''unknown'' of Some v \<Rightarrow> v | None \<Rightarrow> u)))"

definition or_unknown :: "weight_table \<Rightarrow> string \<Rightarrow> int" where
  "or_unknown w k = (case map_of w k of Some v \<Rightarrow> v | None \<Rightarrow> weight_in w ''unknown'')"

definition source_premium :: "int list \<Rightarrow> int" where
  "source_premium ws = max 0 ((int (length (filter (\<lambda>v. 5 \<le> v) ws)) - 1) * 2)"

definition input_source_weight :: "risk_env \<Rightarrow> weight_table option \<Rightarrow> string list \<Rightarrow> int option" where
  "input_source_weight e w ss =
     (let t = (case w of Some t \<Rightarrow> t | None \<Rightarrow> re_source_weights e)
      in if ss = [] then get_or_unknown t (re_source_weights e) ''unknown''
         else map_option (\<lambda>ws. min SOURCE_CAP (Max (set ws) + source_premium ws))
           (those (map (get_or_unknown t (re_source_weights e)) ss)))"

definition deployment_weight :: "risk_env \<Rightarrow> weight_table option \<Rightarrow> risk_agent \<Rightarrow> int option" where
  "deployment_weight e w a =
     (let env = norm (if truthy (ra_environment a) then ra_environment a else ra_deployment_env a) ''unknown'';
          t = (case w of Some t \<Rightarrow> t | None \<Rightarrow> re_deploy_weights e)
      in get_or_unknown t (re_deploy_weights e) env)"

section \<open>Ownership, review, age\<close>

definition has_owner :: "risk_agent \<Rightarrow> bool" where
  "has_owner a = (truthy (ra_owner_user a) \<or> truthy (ra_owner_team a) \<or> truthy (ra_on_call a)
     \<or> ra_escalation a \<noteq> [])"

definition ownership_weight :: "risk_agent \<Rightarrow> int" where
  "ownership_weight a = (if has_owner a then 0 else 15)"

definition APPROVAL_WEIGHTS :: weight_table where
  "APPROVAL_WEIGHTS =
    [(''approved'', 0), (''pending'', 10), (''rejected'', 30), (''expired'', 20), (''unknown'', 15)]"

definition review_status :: "instant \<Rightarrow> risk_agent \<Rightarrow> string" where
  "review_status now a =
     (let s = norm (ra_review a) ''unknown''
      in if s = ''approved''
         then (case ra_review_expires a of Date d \<Rightarrow> if d < now then ''expired'' else s | _ \<Rightarrow> s)
         else s)"

definition approval_weight :: "instant \<Rightarrow> risk_agent \<Rightarrow> int" where
  "approval_weight now a = or_unknown APPROVAL_WEIGHTS (review_status now a)"

text \<open>A malformed change count raises, after the age has been read: nothing is returned.\<close>

definition lifecycle_weight :: "instant \<Rightarrow> risk_agent \<Rightarrow> int option" where
  "lifecycle_weight now a =
     (let age = (case date_or (ra_first_deployed a) (ra_created a) of
                   Date d \<Rightarrow> if age_days now d < 7 then 8 else if age_days now d < 30 then 3 else 0
                 | _ \<Rightarrow> 0)
      in map_option (\<lambda>n. age + (if 20 \<le> n then 10 else if 10 \<le> n then 5 else 0)) (int_or_0 (ra_changes a)))"

section \<open>Blast radius\<close>

type_synonym thresholds = "(int \<times> int) list"

definition RATE_THRESHOLDS :: thresholds where
  "RATE_THRESHOLDS = [(10000, 10), (1000, 6), (100, 3)]"

definition COST_THRESHOLDS :: thresholds where
  "COST_THRESHOLDS = [(50000, 8), (10000, 5), (1000, 3)]"

definition USERBASE_THRESHOLDS :: thresholds where
  "USERBASE_THRESHOLDS = [(10000, 8), (1000, 5), (50, 3)]"

definition BR_CAP :: int where "BR_CAP = 30"

fun bucket_delta :: "int \<Rightarrow> thresholds \<Rightarrow> int" where
  "bucket_delta v [] = 0"
| "bucket_delta v ((t, d) # ts) = (if t \<le> v then d else bucket_delta v ts)"

record blast_radius =
  br_score :: int
  br_components :: "risk_factor list"

definition blast_radius_breakdown :: "risk_agent \<Rightarrow> blast_radius" where
  "blast_radius_breakdown a =
     (let geo = or_else (ra_geography a) ''single_region'';
          parts =
            filter (\<lambda>f. 0 < rf_delta f)
              [\<lparr> rf_name = ''rate_limit'', rf_delta = bucket_delta (safe_int (ra_rate_limit a)) RATE_THRESHOLDS \<rparr>,
               \<lparr> rf_name = ''cost_ceiling'', rf_delta = bucket_delta (safe_int (ra_cost_ceiling a)) COST_THRESHOLDS \<rparr>,
               \<lparr> rf_name = ''user_base'', rf_delta = bucket_delta (safe_int (ra_user_base a)) USERBASE_THRESHOLDS \<rparr>]
            @ (if ra_multi_tenant a then [\<lparr> rf_name = ''multi_tenant'', rf_delta = 5 \<rparr>] else [])
            @ (if geo = ''global'' then [\<lparr> rf_name = ''geographic_scope'', rf_delta = 4 \<rparr>]
               else if geo = ''multi_region'' then [\<lparr> rf_name = ''geographic_scope'', rf_delta = 2 \<rparr>] else [])
      in \<lparr> br_score = min BR_CAP (sum_list (map rf_delta parts)), br_components = parts \<rparr>)"

section \<open>Supply chain\<close>

definition PUBLISHER_WEIGHTS :: weight_table where
  "PUBLISHER_WEIGHTS =
    [(''first_party'', 0), (''vendor_contracted'', 2), (''open_source'', 4), (''marketplace'', 5),
     (''third_party'', 8), (''self_hosted_ext'', 10), (''unknown'', 6)]"

definition SUPPLY_CHAIN_CAP :: int where "SUPPLY_CHAIN_CAP = 35"

record dependency =
  de_name :: string
  de_kind :: string
  de_publisher :: string

definition some_or :: "string option \<Rightarrow> string \<Rightarrow> string" where
  "some_or x d = (case x of Some s \<Rightarrow> s | None \<Rightarrow> d)"

definition named_deps :: "string \<Rightarrow> string list \<Rightarrow> dependency list" where
  "named_deps kind ns = map (\<lambda>n. \<lparr> de_name = n, de_kind = kind, de_publisher = ''unknown'' \<rparr>) ns"

definition parse_dependencies :: "risk_agent \<Rightarrow> dependency list" where
  "parse_dependencies a =
     (case ra_dependencies a of
        Some items \<Rightarrow>
          List.map_filter (\<lambda>d. case d of
             DepDict n k p \<Rightarrow> Some \<lparr> de_name = some_or n ''unknown'', de_kind = some_or k ''unknown'',
                                de_publisher = lower (or_else p ''unknown'') \<rparr>
           | DepName n \<Rightarrow> Some \<lparr> de_name = n, de_kind = ''unknown'', de_publisher = ''unknown'' \<rparr>
           | DepOther \<Rightarrow> None) items
      | None \<Rightarrow> named_deps ''mcp'' (ra_mcp_servers a) @ named_deps ''api'' (ra_apis a)
          @ named_deps ''plugin'' (ra_plugins a))"

definition supply_chain_weight :: "risk_agent \<Rightarrow> int" where
  "supply_chain_weight a =
     (let deps = parse_dependencies a
      in if deps = [] then 0
         else min SUPPLY_CHAIN_CAP
           (sum_list (map (\<lambda>d. or_unknown PUBLISHER_WEIGHTS (de_publisher d)) deps)
            + max 0 (int (length deps) - 5)))"

section \<open>Cost burn\<close>

definition COST_CAP :: int where "COST_CAP = 15"

definition cost_burn_weight :: "risk_agent \<Rightarrow> int option" where
  "cost_burn_weight a =
     (case (float_or 0 (ra_monthly_budget a), float_or 0 (ra_cost_24h a), float_or 0 (ra_cost_1h a),
            float_or 1 (ra_anomaly a)) of
        (Some budget, Some day, Some hour, Some anomaly) \<Rightarrow>
          (let hourly = fdiv budget 720;
               burst = (if 0 < budget \<and> 0 < hour \<and> 0 < hourly \<and> fmul 5 hourly < hour then 10 else 0);
               left = (case number (ra_budget_left a) of Some r \<Rightarrow> if r < fl (1 / 10) then 6 else 0 | None \<Rightarrow> 0);
               odd_cost = (if 10 \<le> anomaly then 12 else if 3 \<le> anomaly then 5 else 0);
               spend = (if 10000 \<le> day then 8 else 0)
           in Some (min COST_CAP (burst + left + odd_cost + spend)))
      | _ \<Rightarrow> None)"

section \<open>External audits\<close>

definition citation_weight :: "risk_agent \<Rightarrow> int" where
  "citation_weight a =
     (if ra_cites a = Some True \<or> (case number (ra_citation a) of Some r \<Rightarrow> fl (8 / 10) \<le> r | None \<Rightarrow> False)
      then - 3
      else if norm (ra_reproducibility a) [] = ''deterministic'' then - 2
      else if ra_cites a = Some False then 5 else 0)"

definition AUDIT_STALE_DAYS :: int where "AUDIT_STALE_DAYS = 180"

definition audit_freshness_factor :: "instant \<Rightarrow> risk_agent \<Rightarrow> rat" where
  "audit_freshness_factor now a =
     (case ra_last_audit a of
        Date d \<Rightarrow> if age_days now d \<le> AUDIT_STALE_DAYS then 1 else 1 / 2
      | _ \<Rightarrow> 0)"

definition trust_score_weight :: "instant \<Rightarrow> risk_agent \<Rightarrow> int" where
  "trust_score_weight now a =
     (let scores = List.map_filter number [ra_red_team a, ra_bias a, ra_fairness a]
      in if scores = [] then 8
         else let worst = Min (set scores); avg = fdiv (fsum scores) (of_nat (length scores))
              in if worst < 1 / 2 then py_trunc (fmul 10 (fsub 1 worst))
                 else if worst < fl (7 / 10) then 5
                 else if fl (8 / 10) \<le> avg
                 then (let reduction = py_trunc (fmul 6 (audit_freshness_factor now a))
                       in if reduction = 0 then 4 else - reduction)
                 else 0)"

end
