(* ===== verification/RiskScore.thy ===== *)
theory RiskScore
  imports RiskFactors
begin

text \<open>
  The static risk score (\<open>kya/risk.py\<close>) and the interaction multipliers
  (\<open>kya/interactions.py\<close>): the ten built-in interactions with the raw fields they
  read, the capped product of those that fire, and \<open>score_agent\<close>, which carries a
  running score and the list of factors through the sections of the code.
\<close>

section \<open>Interactions\<close>

definition MAX_MULTIPLIER :: rat where "MAX_MULTIPLIER = 2"

text \<open>\<open>a and b\<close> with a \<open>b\<close> that may raise.\<close>

definition and_then :: "bool \<Rightarrow> bool option \<Rightarrow> bool option" where
  "and_then a b = (if a then b else Some False)"

definition has_factor :: "risk_factor list \<Rightarrow> string \<Rightarrow> bool" where
  "has_factor fs n = list_ex (\<lambda>f. rf_name f = n) fs"

definition has_any :: "string list \<Rightarrow> string list \<Rightarrow> bool" where
  "has_any names xs = list_ex (\<lambda>n. n \<in> set xs) names"

definition has_security_cap :: "risk_agent \<Rightarrow> string list \<Rightarrow> bool" where
  "has_security_cap a names = has_any names (case ra_caps a of Some cs \<Rightarrow> cs | None \<Rightarrow> [])"

definition has_data_class :: "risk_agent \<Rightarrow> string list \<Rightarrow> bool" where
  "has_data_class a names = has_any names (case ra_classes a of Some cs \<Rightarrow> cs | None \<Rightarrow> [])"

definition has_input_source :: "risk_agent \<Rightarrow> string list \<Rightarrow> bool" where
  "has_input_source a names = has_any names (ra_sources a)"

definition CLASSIFIED_CLASSES :: "string list" where
  "CLASSIFIED_CLASSES =
    [''itar'', ''ear'', ''cdi'', ''cui'', ''classified'', ''us_confidential'', ''us_secret'',
     ''us_top_secret'', ''nato_restricted'', ''nato_confidential'', ''nato_secret'',
     ''restreint_ue'', ''confidentiel_ue'', ''secret_ue'']"

definition BULK_PREFIXES :: "string list" where
  "BULK_PREFIXES = [''create_'', ''update_'', ''delete_'', ''override_'']"

definition bulk_write :: "string \<Rightarrow> bool" where
  "bulk_write t = list_ex (starts_with t) BULK_PREFIXES"

text \<open>The items of the raw \<open>tools\<close> field: a string is walked character by character;
  \<open>None\<close> when walking it raises.\<close>

definition raw_items :: "tools_field \<Rightarrow> string option list option" where
  "raw_items t = (case t of ToolList xs \<Rightarrow> Some xs | OneTool s \<Rightarrow> Some (map (\<lambda>c. Some [c]) s)
     | NotIterable \<Rightarrow> None)"

text \<open>How many items are bulk writes; an item that is not a string raises.\<close>

fun count_bulk :: "string option list \<Rightarrow> nat option" where
  "count_bulk [] = Some 0"
| "count_bulk (None # xs) = None"
| "count_bulk (Some t # xs) = map_option (\<lambda>n. if bulk_write t then Suc n else n) (count_bulk xs)"

text \<open>Whether some item is one; the walk stops at the first.\<close>

fun any_bulk :: "string option list \<Rightarrow> bool option" where
  "any_bulk [] = Some False"
| "any_bulk (None # xs) = None"
| "any_bulk (Some t # xs) = (if bulk_write t then Some True else any_bulk xs)"

definition raw_lower :: "string option \<Rightarrow> string" where
  "raw_lower x = lower (or_else x [])"

definition in_prod :: "risk_agent \<Rightarrow> bool" where
  "in_prod a = (raw_lower (ra_environment a) = ''prod'')"

definition autonomous :: "risk_agent \<Rightarrow> bool" where
  "autonomous a = (raw_lower (ra_loop a) = ''none'')"

definition any_bulk_tool :: "risk_agent \<Rightarrow> bool option" where
  "any_bulk_tool a = Option.bind (raw_items (ra_tools a)) any_bulk"

definition autonomous_writer_in_prod :: "risk_agent \<Rightarrow> risk_factor list \<Rightarrow> bool option" where
  "autonomous_writer_in_prod a fs =
     and_then (autonomous a)
       (map_option (\<lambda>n. 3 \<le> n \<and> in_prod a) (Option.bind (raw_items (ra_tools a)) count_bulk))"

definition code_exec_with_user_input :: "risk_agent \<Rightarrow> risk_factor list \<Rightarrow> bool option" where
  "code_exec_with_user_input a fs =
     Some (has_security_cap a [''code_execution'', ''shell_access'', ''container_exec'']
       \<and> has_input_source a [''user_upload'', ''web_fetch'', ''user_prompt''])"

definition classified_autonomous :: "risk_agent \<Rightarrow> risk_factor list \<Rightarrow> bool option" where
  "classified_autonomous a fs = Some (has_data_class a CLASSIFIED_CLASSES \<and> autonomous a)"

definition untrusted_chain :: "risk_agent \<Rightarrow> risk_factor list \<Rightarrow> bool option" where
  "untrusted_chain a fs =
     Some (raw_lower (ra_provenance a) \<in> set [''marketplace'', ''third_party'', ''imported'']
       \<and> 3 \<le> length (ra_delegates a))"

definition unowned_high_risk :: "risk_agent \<Rightarrow> risk_factor list \<Rightarrow> bool option" where
  "unowned_high_risk a fs = Some (\<not> has_owner a \<and> has_factor fs ''ownership'')"

definition unaudited_classified :: "risk_agent \<Rightarrow> risk_factor list \<Rightarrow> bool option" where
  "unaudited_classified a fs =
     Some (has_data_class a CLASSIFIED_CLASSES
       \<and> \<not> list_all (\<lambda>x. number x \<noteq> None) [ra_red_team a, ra_bias a, ra_fairness a])"

definition prod_marketplace_writer :: "risk_agent \<Rightarrow> risk_factor list \<Rightarrow> bool option" where
  "prod_marketplace_writer a fs =
     and_then (raw_lower (ra_provenance a) = ''marketplace'')
       (map_option (\<lambda>w. w \<and> in_prod a) (any_bulk_tool a))"

definition self_hosted_with_pii :: "risk_agent \<Rightarrow> risk_factor list \<Rightarrow> bool option" where
  "self_hosted_with_pii a fs =
     Some (raw_lower (ra_model_trust a) = ''self_hosted''
       \<and> has_data_class a [''pii'', ''phi'', ''financial''])"

definition rejected_in_prod :: "risk_agent \<Rightarrow> risk_factor list \<Rightarrow> bool option" where
  "rejected_in_prod a fs = Some (raw_lower (ra_review a) = ''rejected'' \<and> in_prod a)"

definition orphan_writer_in_prod :: "risk_agent \<Rightarrow> risk_factor list \<Rightarrow> bool option" where
  "orphan_writer_in_prod a fs =
     and_then (\<not> has_owner a) (map_option (\<lambda>w. w \<and> in_prod a) (any_bulk_tool a))"

definition INTERACTIONS :: "interaction list" where
  "INTERACTIONS =
    [\<lparr> ix_code = ''autonomous_writer_in_prod'', ix_condition = autonomous_writer_in_prod,
       ix_multiplier = fl (13 / 10), ix_severity = ''critical'' \<rparr>,
     \<lparr> ix_code = ''code_exec_with_user_input'', ix_condition = code_exec_with_user_input,
       ix_multiplier = fl (15 / 10), ix_severity = ''critical'' \<rparr>,
     \<lparr> ix_code = ''classified_autonomous'', ix_condition = classified_autonomous,
       ix_multiplier = fl (14 / 10), ix_severity = ''critical'' \<rparr>,
     \<lparr> ix_code = ''untrusted_chain'', ix_condition = untrusted_chain,
       ix_multiplier = fl (12 / 10), ix_severity = ''warning'' \<rparr>,
     \<lparr> ix_code = ''unowned_high_risk'', ix_condition = unowned_high_risk,
       ix_multiplier = fl (115 / 100), ix_severity = ''warning'' \<rparr>,
     \<lparr> ix_code = ''unaudited_classified'', ix_condition = unaudited_classified,
       ix_multiplier = fl (125 / 100), ix_severity = ''critical'' \<rparr>,
     \<lparr> ix_code = ''prod_marketplace_writer'', ix_condition = prod_marketplace_writer,
       ix_multiplier = fl (12 / 10), ix_severity = ''warning'' \<rparr>,
     \<lparr> ix_code = ''self_hosted_with_pii'', ix_condition = self_hosted_with_pii,
       ix_multiplier = fl (12 / 10), ix_severity = ''warning'' \<rparr>,
     \<lparr> ix_code = ''rejected_in_prod'', ix_condition = rejected_in_prod,
       ix_multiplier = fl (14 / 10), ix_severity = ''critical'' \<rparr>,
     \<lparr> ix_code = ''orphan_writer_in_prod'', ix_condition = orphan_writer_in_prod,
       ix_multiplier = fl (12 / 10), ix_severity = ''warning'' \<rparr>]"

text \<open>Only multipliers of at least one are accepted; \<open>None\<close> is the \<open>ValueError\<close>.\<close>

definition register_interaction :: "interaction \<Rightarrow> risk_env \<Rightarrow> risk_env option" where
  "register_interaction i e =
     (if ix_multiplier i < 1 then None else Some (e\<lparr> re_interactions := re_interactions e @ [i] \<rparr>))"

definition list_interactions :: "risk_env \<Rightarrow> (string \<times> rat \<times> string) list" where
  "list_interactions e = map (\<lambda>i. (ix_code i, ix_multiplier i, ix_severity i)) (re_interactions e)"

text \<open>A condition that raises does not fire.\<close>

definition detect_interactions :: "risk_env \<Rightarrow> risk_agent \<Rightarrow> risk_factor list \<Rightarrow> interaction list" where
  "detect_interactions e a fs = filter (\<lambda>i. ix_condition i a fs = Some True) (re_interactions e)"

definition float_product :: "interaction list \<Rightarrow> rat" where
  "float_product is = fold (\<lambda>i p. fmul p (ix_multiplier i)) is 1"

definition interaction_multiplier ::
    "risk_env \<Rightarrow> risk_agent \<Rightarrow> risk_factor list \<Rightarrow> rat \<times> interaction list" where
  "interaction_multiplier e a fs =
     (let fired = detect_interactions e a fs
      in if fired = [] then (1, []) else (min MAX_MULTIPLIER (float_product fired), fired))"

section \<open>Constants of the additive score\<close>

definition PROVENANCE_WEIGHTS :: weight_table where
  "PROVENANCE_WEIGHTS = [(''builtin'', 0), (''custom'', 5), (''imported'', 10), (''marketplace'', 15),
     (''third_party'', 20), (''unknown'', 10)]"

definition MODEL_TRUST_WEIGHTS :: weight_table where
  "MODEL_TRUST_WEIGHTS = [(''enterprise'', 0), (''frontier'', 3), (''open'', 8), (''self_hosted'', 10),
     (''unknown'', 10)]"

definition RISK_BASE :: int where "RISK_BASE = 5"
definition PER_WRITE_TOOL :: int where "PER_WRITE_TOOL = 4"
definition PER_ADMIN_TOOL :: int where "PER_ADMIN_TOOL = 8"

definition HUMAN_LOOP_WEIGHTS :: weight_table where
  "HUMAN_LOOP_WEIGHTS = [(''none'', 30), (''on_the_loop'', 15), (''hybrid'', 10), (''in_the_loop'', 0)]"

definition CAN_OVERRIDE :: int where "CAN_OVERRIDE = 12"
definition CAN_REVERT :: int where "CAN_REVERT = 8"
definition ACCESS_WRITE :: int where "ACCESS_WRITE = 6"

definition bucket_for :: "int \<Rightarrow> string" where
  "bucket_for s = (if 85 \<le> s then ''critical'' else if 60 \<le> s then ''high''
     else if 30 \<le> s then ''medium'' else ''low'')"

section \<open>Inputs\<close>

text \<open>The names of the tools; anything else in the field is dropped.\<close>

definition tool_names :: "tools_field \<Rightarrow> string list" where
  "tool_names t = (case t of ToolList xs \<Rightarrow> List.map_filter id xs
     | OneTool s \<Rightarrow> if s = [] then [] else [s] | NotIterable \<Rightarrow> [])"

definition write_count :: "risk_env \<Rightarrow> risk_agent \<Rightarrow> nat" where
  "write_count e a = length (filter (is_write_tool (re_catalog e)) (tool_names (ra_tools a)))"

definition admin_count :: "risk_env \<Rightarrow> risk_agent \<Rightarrow> nat" where
  "admin_count e a = length (filter (is_admin_tool (re_catalog e)) (tool_names (ra_tools a)))"

text \<open>What is declared wins over what the tools and skills suggest, also when empty.\<close>

definition agent_classes :: "risk_env \<Rightarrow> risk_agent \<Rightarrow> string list" where
  "agent_classes e a =
     (case ra_classes a of
        Some cs \<Rightarrow> cs
      | None \<Rightarrow> heaviest_first e (re_class_weights e)
          (infer_data_classes e (tool_names (ra_tools a)) @ fst (infer_skill_classifications e (ra_skills a))))"

definition agent_caps :: "risk_env \<Rightarrow> risk_agent \<Rightarrow> string list" where
  "agent_caps e a =
     (case ra_caps a of
        Some cs \<Rightarrow> cs
      | None \<Rightarrow> heaviest_first e (re_cap_weights e)
          (infer_capabilities e (tool_names (ra_tools a)) @ snd (infer_skill_classifications e (ra_skills a))))"

text \<open>
  The database as the scorer sees it: the weight overrides, whether the read of each
  scope succeeds, and the principal rows.
\<close>

record risk_db =
  rd_weights :: weight_db
  rd_readable :: "string \<Rightarrow> bool"
  rd_principals :: principal_table

definition risk_scopes :: "risk_env \<Rightarrow> scope_registry" where
  "risk_scopes e =
    [(''class_weights'', re_class_weights e), (''capability_weights'', re_cap_weights e),
     (''source_weights'', re_source_weights e), (''deployment_weights'', re_deploy_weights e)]"

definition read_scope :: "risk_env \<Rightarrow> risk_db \<Rightarrow> ident option \<Rightarrow> string \<Rightarrow> weight_table option" where
  "read_scope e db t scope =
     (if rd_readable db scope
      then (case get_effective_weights (risk_scopes e) (rd_weights db) scope t of Inr w \<Rightarrow> Some w | Inl _ \<Rightarrow> None)
      else None)"

text \<open>The four reads stop at the first that raises; the later tables stay unset.\<close>

fun read_scopes :: "risk_env \<Rightarrow> risk_db option \<Rightarrow> ident option \<Rightarrow> string list \<Rightarrow> (string \<times> weight_table) list" where
  "read_scopes e None t scopes = []"
| "read_scopes e (Some db) t [] = []"
| "read_scopes e (Some db) t (s # ss) =
     (case read_scope e db t s of None \<Rightarrow> [] | Some w \<Rightarrow> (s, w) # read_scopes e (Some db) t ss)"

definition resolved :: "risk_env \<Rightarrow> risk_db option \<Rightarrow> ident option \<Rightarrow> string \<Rightarrow> weight_table option" where
  "resolved e db t scope =
     map_of (read_scopes e db t
       [''class_weights'', ''capability_weights'', ''source_weights'', ''deployment_weights'']) scope"

definition agent_depth :: "graph option \<Rightarrow> risk_agent \<Rightarrow> nat" where
  "agent_depth g a =
     (case g of
        Some agents \<Rightarrow> max_delegation_depth (if truthy (ra_key a) then ra_key a else ra_id a)
                         (Some (ra_delegates a)) agents
      | None \<Rightarrow> length (ra_delegates a))"

section \<open>The score\<close>

type_synonym tally = "int \<times> risk_factor list"

definition add_factor :: "string \<Rightarrow> int \<Rightarrow> tally \<Rightarrow> tally" where
  "add_factor n d st = (case st of (s, fs) \<Rightarrow> (s + d, fs @ [\<lparr> rf_name = n, rf_delta = d \<rparr>]))"

definition add_when :: "bool \<Rightarrow> string \<Rightarrow> int \<Rightarrow> tally \<Rightarrow> tally" where
  "add_when b n d st = (if b then add_factor n d st else st)"

definition loop_weight :: "risk_agent \<Rightarrow> int" where
  "loop_weight a =
     (case map_of HUMAN_LOOP_WEIGHTS (norm (ra_loop a) ''none'') of
        Some v \<Rightarrow> v | None \<Rightarrow> weight_in HUMAN_LOOP_WEIGHTS ''none'')"

text \<open>Tools, governance, authority and access.\<close>

definition score_permissions :: "risk_env \<Rightarrow> risk_agent \<Rightarrow> tally \<Rightarrow> tally" where
  "score_permissions e a st0 =
     (let st1 = add_factor ''base'' RISK_BASE st0;
          st2 = add_when (write_count e a \<noteq> 0) ''write_tools'' (int (write_count e a) * PER_WRITE_TOOL) st1;
          st3 = add_when (admin_count e a \<noteq> 0) ''admin_tools'' (int (admin_count e a) * PER_ADMIN_TOOL) st2;
          st4 = add_factor ''governance_mode'' (loop_weight a) st3;
          st5 = add_when (ra_override a) ''can_override'' CAN_OVERRIDE st4;
          st6 = add_when (ra_revert a) ''can_revert'' CAN_REVERT st5
      in add_when (norm (ra_access a) ''write'' = ''write'') ''access_write'' ACCESS_WRITE st6)"

text \<open>Data, capabilities, origin, delegation and reach. A positive contribution is a factor.\<close>

definition add_positive :: "string \<Rightarrow> int \<Rightarrow> tally \<Rightarrow> tally" where
  "add_positive n d st = add_when (0 < d) n d st"

definition prov_weight :: "risk_agent \<Rightarrow> int" where
  "prov_weight a = or_unknown PROVENANCE_WEIGHTS (norm (ra_provenance a) ''unknown'')"

definition model_weight :: "risk_agent \<Rightarrow> int" where
  "model_weight a = or_unknown MODEL_TRUST_WEIGHTS (norm (ra_model_trust a) ''unknown'')"

definition score_exposure ::
    "risk_env \<Rightarrow> graph option \<Rightarrow> risk_db option \<Rightarrow> ident option \<Rightarrow> risk_agent \<Rightarrow> tally \<Rightarrow> tally" where
  "score_exposure e g db t a st0 =
     (let st1 = add_positive ''data_sensitivity''
                  (sensitivity_weight e (resolved e db t ''class_weights'') (agent_classes e a)) st0;
          st2 = add_positive ''security_caps''
                  (capability_weight e (resolved e db t ''capability_weights'') (agent_caps e a)) st1;
          st3 = add_positive ''provenance'' (prov_weight a) st2;
          st4 = add_positive ''model_trust'' (model_weight a) st3;
          st5 = add_positive ''delegation_depth'' (delegation_weight (int (agent_depth g a))) st4
      in add_positive ''blast_radius'' (br_score (blast_radius_breakdown a)) st5)"

text \<open>Input sources: a \<open>KeyError\<close> of the lookup is not caught.\<close>

definition source_delta ::
    "risk_env \<Rightarrow> risk_db option \<Rightarrow> ident option \<Rightarrow> risk_agent \<Rightarrow> int option" where
  "source_delta e db t a =
     (if ra_sources a = [] then Some 0
      else input_source_weight e (resolved e db t ''source_weights'') (ra_sources a))"

text \<open>The last group: trust of the delegates, then the helpers, each of which may raise.\<close>

definition add_nonzero :: "string \<Rightarrow> int option \<Rightarrow> tally \<Rightarrow> tally" where
  "add_nonzero n r st = (case r of None \<Rightarrow> st | Some d \<Rightarrow> add_when (d \<noteq> 0) n d st)"

definition score_operations ::
    "instant \<Rightarrow> risk_env \<Rightarrow> risk_db option \<Rightarrow> ident option \<Rightarrow> risk_agent \<Rightarrow> tally \<Rightarrow> tally" where
  "score_operations now e db t a st0 =
     (let st1 = add_positive ''delegation_trust''
                  (fst (delegation_trust_weight (map_option rd_principals db) (some_or t []) (Some (ra_delegates a)))) st0;
          st2 = add_nonzero ''deployment'' (deployment_weight e (resolved e db t ''deployment_weights'') a) st1;
          st3 = add_nonzero ''ownership'' (Some (ownership_weight a)) st2;
          st4 = add_nonzero ''approval'' (Some (approval_weight now a)) st3;
          st5 = add_nonzero ''lifecycle'' (lifecycle_weight now a) st4;
          st6 = add_nonzero ''supply_chain'' (Some (supply_chain_weight a)) st5;
          st7 = add_nonzero ''cost_burn'' (cost_burn_weight a) st6;
          st8 = add_nonzero ''citation'' (Some (citation_weight a)) st7
      in add_nonzero ''trust_audits'' (Some (trust_score_weight now a)) st8)"

definition clamp100 :: "int \<Rightarrow> int" where
  "clamp100 s = max 0 (min 100 s)"

record agent_score =
  as_score :: int
  as_bucket :: string
  as_factors :: "risk_factor list"
  as_write_tools :: nat
  as_admin_tools :: nat
  as_classes :: "string list"
  as_max_sensitivity :: string
  as_caps :: "string list"
  as_provenance :: string
  as_model_trust :: string
  as_depth :: nat
  as_additive :: int
  as_multiplier :: rat
  as_interactions :: "interaction list"
  as_trust_evidence :: "(string \<times> int) list"
  as_concentration :: rat
  as_overrun :: int

definition finish_score ::
    "risk_env \<Rightarrow> graph option \<Rightarrow> risk_db option \<Rightarrow> ident option \<Rightarrow> risk_agent \<Rightarrow> tally \<Rightarrow> agent_score" where
  "finish_score e g db t a st =
     (case st of (score, fs) \<Rightarrow>
        let additive = clamp100 score;
            (mult, fired) = (if ra_no_interactions a then (1, []) else interaction_multiplier e a fs);
            raw = py_round (fmul (of_int additive) mult);
            final = clamp100 raw;
            classes = agent_classes e a
        in \<lparr> as_score = final, as_bucket = bucket_for final, as_factors = fs,
             as_write_tools = write_count e a, as_admin_tools = admin_count e a, as_classes = classes,
             as_max_sensitivity = (case classes of [] \<Rightarrow> ''public'' | c # cs \<Rightarrow> c),
             as_caps = agent_caps e a, as_provenance = norm (ra_provenance a) ''unknown'',
             as_model_trust = norm (ra_model_trust a) ''unknown'', as_depth = agent_depth g a,
             as_additive = additive, as_multiplier = mult, as_interactions = fired,
             as_trust_evidence =
               snd (delegation_trust_weight (map_option rd_principals db) (some_or t []) (Some (ra_delegates a))),
             as_concentration = mult, as_overrun = max 0 (raw - 100) \<rparr>)"

definition tally_of ::
    "instant \<Rightarrow> risk_env \<Rightarrow> graph option \<Rightarrow> risk_db option \<Rightarrow> ident option \<Rightarrow> risk_agent \<Rightarrow> tally option" where
  "tally_of now e g db t a =
     (case source_delta e db t a of
        None \<Rightarrow> None
      | Some d \<Rightarrow> Some (score_operations now e db t a
          (add_positive ''input_sources'' d (score_exposure e g db t a (score_permissions e a (0, []))))))"

definition score_agent ::
    "instant \<Rightarrow> risk_env \<Rightarrow> graph option \<Rightarrow> risk_db option \<Rightarrow> ident option \<Rightarrow> risk_agent \<Rightarrow> agent_score option" where
  "score_agent now e g db t a = map_option (finish_score e g db t a) (tally_of now e g db t a)"

text \<open>The tables as they are shipped.\<close>

definition shipped_env :: "catalog \<Rightarrow> (string list \<Rightarrow> string list) \<Rightarrow> risk_env" where
  "shipped_env cat order =
     \<lparr> re_catalog = cat, re_class_weights = CLASS_WEIGHTS, re_cap_weights = CAPABILITY_WEIGHTS,
        re_source_weights = SOURCE_WEIGHTS, re_deploy_weights = DEPLOYMENT_WEIGHTS,
        re_tool_classes = DEFAULT_TOOL_CLASSIFICATIONS, re_tool_caps = DEFAULT_TOOL_CAPABILITIES,
        re_skill_catalog = DEFAULT_SKILL_CLASSIFICATIONS, re_interactions = INTERACTIONS,
        re_order = order \<rparr>"

text \<open>An agent that declares nothing.\<close>

definition bare_agent :: risk_agent where
  "bare_agent =
     \<lparr> ra_key = None, ra_id = None, ra_tools = ToolList [], ra_skills = [], ra_loop = None,
        ra_override = False, ra_revert = False, ra_access = None, ra_classes = None, ra_caps = None,
        ra_provenance = None, ra_model_trust = None, ra_delegates = [], ra_sources = [],
        ra_environment = None, ra_deployment_env = None, ra_owner_user = None, ra_owner_team = None,
        ra_on_call = None, ra_escalation = [], ra_review = None, ra_review_expires = NoDate,
        ra_first_deployed = NoDate, ra_created = NoDate, ra_changes = NoNum, ra_rate_limit = NoNum,
        ra_cost_ceiling = NoNum, ra_user_base = NoNum, ra_multi_tenant = False, ra_geography = None,
        ra_dependencies = None, ra_mcp_servers = [], ra_apis = [], ra_plugins = [],
        ra_monthly_budget = NoNum, ra_cost_24h = NoNum, ra_cost_1h = NoNum, ra_budget_left = NoNum,
        ra_anomaly = NoNum, ra_cites = None, ra_citation = NoNum, ra_reproducibility = None,
        ra_red_team = NoNum, ra_bias = NoNum, ra_fairness = NoNum, ra_last_audit = NoDate,
        ra_no_interactions = False \<rparr>"

end
