(* ===== verification/RiskFacts.thy ===== *)
theory RiskFacts
  imports RiskScore "HOL-Library.Multiset"
begin

text \<open>
  What the static risk score guarantees: the factors add up to the score, the
  interactions only raise it and the result stays in its scale; granting tools or
  authority never lowers it; the overrides of tenants raise it in the class and
  capability scopes and can lower it in the two scopes with an \<open>unknown\<close> entry;
  the one way in which it raises.
\<close>

section \<open>Tallies\<close>

named_theorems tally "steps of a tally"

definition balanced :: "tally \<Rightarrow> bool" where
  "balanced st = (fst st = sum_list (map rf_delta (snd st)))"

lemma balanced_start [tally]: "balanced (0, [])"
  by (simp add: balanced_def)

lemma balanced_add_factor [tally]: "balanced st \<Longrightarrow> balanced (add_factor n d st)"
  by (cases st) (simp add: balanced_def add_factor_def)

lemma balanced_add_when [tally]: "balanced st \<Longrightarrow> balanced (add_when b n d st)"
  by (simp add: add_when_def balanced_add_factor)

lemma balanced_add_positive [tally]: "balanced st \<Longrightarrow> balanced (add_positive n d st)"
  by (simp add: add_positive_def balanced_add_when)

lemma balanced_add_nonzero [tally]: "balanced st \<Longrightarrow> balanced (add_nonzero n r st)"
  by (simp add: add_nonzero_def balanced_add_when split: option.split)

lemma tally_of_balanced: "tally_of now e g db t a = Some st \<Longrightarrow> balanced st"
  by (auto simp: tally_of_def score_permissions_def score_exposure_def score_operations_def Let_def tally
      split: option.splits)

text \<open>One tally below another: no larger a score, and an ownership factor only if the other has one.\<close>

definition tally_le :: "tally \<Rightarrow> tally \<Rightarrow> bool" where
  "tally_le st st' = (fst st \<le> fst st' \<and> (has_factor (snd st) ''ownership'' \<longrightarrow> has_factor (snd st') ''ownership''))"

lemma tally_le_refl: "tally_le st st"
  by (simp add: tally_le_def)

lemma tally_le_add_factor: "tally_le st st' \<Longrightarrow> d \<le> d' \<Longrightarrow> tally_le (add_factor n d st) (add_factor n d' st')"
  by (auto simp: tally_le_def add_factor_def has_factor_def split: prod.splits)

lemma tally_le_add_when:
  assumes "tally_le st st'" and "b \<Longrightarrow> b'" and "b \<Longrightarrow> d \<le> d'" and "b' \<Longrightarrow> 0 \<le> d'"
  shows "tally_le (add_when b n d st) (add_when b' n d' st')"
  using assms by (auto simp: add_when_def tally_le_def add_factor_def has_factor_def split: prod.splits)

lemma tally_le_add_positive:
  "tally_le st st' \<Longrightarrow> d \<le> d' \<Longrightarrow> tally_le (add_positive n d st) (add_positive n d' st')"
  unfolding add_positive_def by (rule tally_le_add_when) auto

lemma tally_le_add_nonzero:
  "tally_le st st' \<Longrightarrow> tally_le (add_nonzero n r st) (add_nonzero n r st')"
  by (auto simp: add_nonzero_def add_when_def tally_le_def add_factor_def has_factor_def split: prod.splits option.splits)

section \<open>Multipliers\<close>

definition amplifying :: "interaction list \<Rightarrow> bool" where
  "amplifying is = list_all (\<lambda>i. 1 \<le> ix_multiplier i) is"

lemma amplifying_builtin: "amplifying INTERACTIONS"
  by (simp add: amplifying_def INTERACTIONS_def fl_ge_1)

lemma amplifying_register:
  "amplifying (re_interactions e) \<Longrightarrow> register_interaction i e = Some e' \<Longrightarrow> amplifying (re_interactions e')"
  by (auto simp: register_interaction_def amplifying_def split: if_splits)

lemma fmul_ge: "0 \<le> p \<Longrightarrow> 1 \<le> m \<Longrightarrow> fl p \<le> fmul p m"
  unfolding fmul_def by (rule fl_mono) (simp add: mult_left_mono [of 1 m p, simplified])

lemma product_mono:
  assumes "list_all (\<lambda>i. 1 \<le> ix_multiplier i) is" and "\<forall>i\<in>set is. P i \<longrightarrow> Q i"
    and "1 \<le> p" and "p \<le> q" and "fl p = p"
  shows "fold (\<lambda>i p. fmul p (ix_multiplier i)) (filter P is) p
       \<le> fold (\<lambda>i p. fmul p (ix_multiplier i)) (filter Q is) q"
  using assms
proof (induction "is" arbitrary: p q)
  case (Cons i "is")
  let ?m = "ix_multiplier i"
  have m: "1 \<le> ?m" using Cons.prems by simp
  have "p * ?m \<le> q * ?m" using Cons.prems m by (intro mult_right_mono) auto
  then have 1: "fmul p ?m \<le> fmul q ?m" unfolding fmul_def by (rule fl_mono)
  have 2: "p \<le> fmul p ?m" using fmul_ge [of p ?m] Cons.prems m by simp
  have 3: "1 \<le> fmul p ?m" using 2 Cons.prems by simp
  have 4: "fl (fmul p ?m) = fmul p ?m" by (simp add: fmul_def)
  show ?case
    using Cons.IH [of p q] Cons.IH [of "fmul p ?m" "fmul q ?m"] Cons.IH [of p "fmul q ?m"] Cons.prems 1 2 3 4
    by auto
qed simp

lemma interaction_multiplier_alt:
  "interaction_multiplier e a fs =
     (min MAX_MULTIPLIER (float_product (detect_interactions e a fs)), detect_interactions e a fs)"
  by (simp add: interaction_multiplier_def Let_def float_product_def MAX_MULTIPLIER_def)

lemma float_product_ge_1:
  assumes "amplifying (re_interactions e)"
  shows "1 \<le> float_product (detect_interactions e a fs)"
  using product_mono [of "re_interactions e" "\<lambda>_. False" "\<lambda>i. ix_condition i a fs = Some True" 1 1] assms
    fl_nat_exact [of 1]
  by (simp add: float_product_def detect_interactions_def amplifying_def)

definition multiplier_of :: "risk_env \<Rightarrow> risk_agent \<Rightarrow> risk_factor list \<Rightarrow> rat" where
  "multiplier_of e a fs = (if ra_no_interactions a then 1 else fst (interaction_multiplier e a fs))"

lemma multiplier_of_bounds:
  "amplifying (re_interactions e) \<Longrightarrow> 1 \<le> multiplier_of e a fs \<and> multiplier_of e a fs \<le> 2"
  using float_product_ge_1 [of e a fs]
  by (simp add: multiplier_of_def interaction_multiplier_alt MAX_MULTIPLIER_def)

definition raw_score :: "risk_env \<Rightarrow> risk_agent \<Rightarrow> tally \<Rightarrow> int" where
  "raw_score e a st = py_round (fmul (of_int (clamp100 (fst st))) (multiplier_of e a (snd st)))"

lemma finish_score_fields:
  "as_factors (finish_score e g db t a st) = snd st"
  "as_additive (finish_score e g db t a st) = clamp100 (fst st)"
  "as_multiplier (finish_score e g db t a st) = multiplier_of e a (snd st)"
  "as_score (finish_score e g db t a st) = clamp100 (raw_score e a st)"
  "as_bucket (finish_score e g db t a st) = bucket_for (clamp100 (raw_score e a st))"
  "as_overrun (finish_score e g db t a st) = max 0 (raw_score e a st - 100)"
  "as_interactions (finish_score e g db t a st) =
     (if ra_no_interactions a then [] else detect_interactions e a (snd st))"
  by (simp_all add: finish_score_def raw_score_def multiplier_of_def Let_def interaction_multiplier_alt
      split: prod.split)

lemma clamp100_bounds: "0 \<le> clamp100 s" "clamp100 s \<le> 100"
  by (simp_all add: clamp100_def)

lemma clamp100_mono: "s \<le> s' \<Longrightarrow> clamp100 s \<le> clamp100 s'"
  by (simp add: clamp100_def)

lemma raw_score_bounds:
  assumes "amplifying (re_interactions e)"
  shows "clamp100 (fst st) \<le> raw_score e a st \<and> raw_score e a st \<le> 2 * clamp100 (fst st)"
proof -
  let ?s = "clamp100 (fst st)" and ?m = "multiplier_of e a (snd st)"
  note m = multiplier_of_bounds [OF assms, of a "snd st"]
  have s: "0 \<le> (of_int ?s :: rat)" "?s \<le> 100" using clamp100_bounds by simp_all
  have "of_int ?s \<le> of_int ?s * ?m" using s m mult_left_mono [of 1 ?m "of_int ?s"] by simp
  then have "of_int ?s \<le> fmul (of_int ?s) ?m"
    unfolding fmul_def using clamp100_bounds [of "fst st"] by (intro fl_ge_int) auto
  moreover have "of_int ?s * ?m \<le> of_int (2 * ?s)" using s m mult_left_mono [of ?m 2 "of_int ?s"] by simp
  then have "fmul (of_int ?s) ?m \<le> of_int (2 * ?s)"
    unfolding fmul_def using clamp100_bounds [of "fst st"] by (intro fl_le_int) auto
  ultimately show ?thesis unfolding raw_score_def using py_round_ge py_round_le by blast
qed

section \<open>Granting more\<close>

lemma raw_score_mono:
  assumes re: "amplifying (re_interactions e)" and st: "tally_le st st'"
    and off: "ra_no_interactions a' \<longrightarrow> ra_no_interactions a"
    and fire: "\<forall>i\<in>set (re_interactions e).
      ix_condition i a (snd st) = Some True \<longrightarrow> ix_condition i a' (snd st') = Some True"
  shows "raw_score e a st \<le> raw_score e a' st'"
proof -
  have "float_product (detect_interactions e a (snd st)) \<le> float_product (detect_interactions e a' (snd st'))"
    unfolding float_product_def detect_interactions_def
    using fire re fl_nat_exact [of 1] by (intro product_mono) (simp_all add: amplifying_def)
  then have m: "multiplier_of e a (snd st) \<le> multiplier_of e a' (snd st')"
    using off multiplier_of_bounds [OF re, of a' "snd st'"]
    by (auto simp: multiplier_of_def interaction_multiplier_alt)
  have "(of_int (clamp100 (fst st)) :: rat) \<le> of_int (clamp100 (fst st'))"
    using st clamp100_mono by (simp add: tally_le_def)
  then have "of_int (clamp100 (fst st)) * multiplier_of e a (snd st)
      \<le> of_int (clamp100 (fst st')) * multiplier_of e a' (snd st')"
    using m clamp100_bounds multiplier_of_bounds [OF re, of a "snd st"] by (intro mult_mono) auto
  then show ?thesis unfolding raw_score_def fmul_def by (intro py_round_mono fl_mono)
qed

lemma count_bulk_strings: "count_bulk (map Some ts) = Some (length (filter bulk_write ts))"
  by (induction ts) auto

lemma any_bulk_strings: "any_bulk (map Some ts) = Some (list_ex bulk_write ts)"
  by (induction ts) auto

lemma tool_names_strings: "tool_names (ToolList (map Some ts)) = ts"
  by (induction ts) (auto simp: tool_names_def)

lemma weight_in_nonneg: "\<forall>v\<in>snd ` set w. 0 \<le> v \<Longrightarrow> 0 \<le> weight_in w k"
  by (fastforce simp: weight_in_def split: option.split dest: map_of_SomeD)

definition set_order :: "risk_env \<Rightarrow> bool" where
  "set_order e = (\<forall>xs. set (re_order e xs) = set xs)"

lemma set_heaviest_first: "set_order e \<Longrightarrow> set (heaviest_first e w cs) = set cs"
  by (simp add: heaviest_first_def set_order_def)

lemma sensitivity_mono:
  assumes "set cs \<subseteq> set cs'" and "\<And>k. weight_in (case w of Some t \<Rightarrow> t | None \<Rightarrow> re_class_weights e) k
      \<le> weight_in (case w' of Some t \<Rightarrow> t | None \<Rightarrow> re_class_weights e) k"
  shows "sensitivity_weight e w cs \<le> max 0 (sensitivity_weight e w' cs')"
proof (cases "cs = []")
  case False
  let ?f = "weight_in (case w of Some t \<Rightarrow> t | None \<Rightarrow> re_class_weights e)"
  let ?g = "weight_in (case w' of Some t \<Rightarrow> t | None \<Rightarrow> re_class_weights e)"
  have ne: "cs' \<noteq> []" using assms(1) False by auto
  have "Max (?f ` set cs) \<in> ?f ` set cs" by (rule Max_in) (use False in auto)
  then obtain c where c: "c \<in> set cs" "?f c = Max (set (map ?f cs))" by auto
  have "?g c \<le> Max (set (map ?g cs'))" using c(1) assms(1) by auto
  then have "Max (set (map ?f cs)) \<le> Max (set (map ?g cs'))"
    using assms(2) [of c] c(2) by linarith
  then have "min SENSITIVITY_CAP (Max (set (map ?f cs))) \<le> min SENSITIVITY_CAP (Max (set (map ?g cs')))"
    by (rule min.mono [OF order_refl])
  then show ?thesis
    unfolding sensitivity_weight_def Let_def if_not_P [OF False] if_not_P [OF ne] by (rule max.coboundedI2)
qed (simp add: sensitivity_weight_def)

lemma sum_remdups: "sum_list (map f (remdups xs)) = sum f (set xs)" for f :: "string \<Rightarrow> int"
  by (simp add: sum_list_distinct_conv_sum_set)

lemma capability_mono:
  assumes "set cs \<subseteq> set cs'" and "\<And>k. 0 \<le> weight_in (case w' of Some t \<Rightarrow> t | None \<Rightarrow> re_cap_weights e) k"
    and "\<And>k. weight_in (case w of Some t \<Rightarrow> t | None \<Rightarrow> re_cap_weights e) k
      \<le> weight_in (case w' of Some t \<Rightarrow> t | None \<Rightarrow> re_cap_weights e) k"
  shows "capability_weight e w cs \<le> max 0 (capability_weight e w' cs')"
proof (cases "cs = []")
  case False
  let ?f = "weight_in (case w of Some t \<Rightarrow> t | None \<Rightarrow> re_cap_weights e)"
  let ?g = "weight_in (case w' of Some t \<Rightarrow> t | None \<Rightarrow> re_cap_weights e)"
  have ne: "cs' \<noteq> []" using assms(1) False by auto
  have "sum ?f (set cs) \<le> sum ?g (set cs)" by (rule sum_mono) (use assms in simp)
  also have "\<dots> \<le> sum ?g (set cs')" by (rule sum_mono2) (use assms in auto)
  finally show ?thesis using False ne by (simp add: capability_weight_def Let_def sum_remdups)
qed (simp add: capability_weight_def)

lemma add_positive_max: "add_positive n d st = add_positive n (max 0 d) st"
  by (simp add: add_positive_def add_when_def)

lemma tally_le_add_positive_max:
  assumes "tally_le st st'" and "d \<le> max 0 d'"
  shows "tally_le (add_positive n d st) (add_positive n d' st')"
  unfolding add_positive_max [of n d] add_positive_max [of n d'] using assms by (intro tally_le_add_positive) auto

text \<open>The agent \<open>a\<close> given the tools \<open>ts\<close> and the two authorities.\<close>

definition granted :: "string list \<Rightarrow> bool \<Rightarrow> bool \<Rightarrow> risk_agent \<Rightarrow> risk_agent" where
  "granted ts ov rv a = a\<lparr> ra_tools := ToolList (map Some ts), ra_override := ov, ra_revert := rv \<rparr>"

lemma granted_classes:
  assumes "set_order e" and "set ts \<subseteq> set ts'"
  shows "set (agent_classes e (granted ts ov rv a)) \<subseteq> set (agent_classes e (granted ts' ov' rv' a))"
  using assms
  by (auto simp: agent_classes_def granted_def tool_names_strings set_heaviest_first infer_data_classes_def
      split: option.split)

lemma granted_caps:
  assumes "set_order e" and "set ts \<subseteq> set ts'"
  shows "set (agent_caps e (granted ts ov rv a)) \<subseteq> set (agent_caps e (granted ts' ov' rv' a))"
  using assms
  by (auto simp: agent_caps_def granted_def tool_names_strings set_heaviest_first infer_capabilities_def
      split: option.split)

lemma granted_fields:
  "ra_classes (granted ts ov rv a) = ra_classes a" "ra_sources (granted ts ov rv a) = ra_sources a"
  "has_owner (granted ts ov rv a) = has_owner a" "loop_weight (granted ts ov rv a) = loop_weight a"
  "prov_weight (granted ts ov rv a) = prov_weight a" "model_weight (granted ts ov rv a) = model_weight a"
  "agent_depth g (granted ts ov rv a) = agent_depth g a"
  "blast_radius_breakdown (granted ts ov rv a) = blast_radius_breakdown a"
  "ownership_weight (granted ts ov rv a) = ownership_weight a"
  "lifecycle_weight now (granted ts ov rv a) = lifecycle_weight now a"
  "parse_dependencies (granted ts ov rv a) = parse_dependencies a"
  "citation_weight (granted ts ov rv a) = citation_weight a"
  "audit_freshness_factor now (granted ts ov rv a) = audit_freshness_factor now a"
  "deployment_weight e w (granted ts ov rv a) = deployment_weight e w a"
  "ra_delegates (granted ts ov rv a) = ra_delegates a" "ra_access (granted ts ov rv a) = ra_access a"
  "ra_no_interactions (granted ts ov rv a) = ra_no_interactions a"
  by (simp_all add: granted_def has_owner_def loop_weight_def prov_weight_def model_weight_def agent_depth_def
      blast_radius_breakdown_def ownership_weight_def lifecycle_weight_def
      parse_dependencies_def citation_weight_def audit_freshness_factor_def deployment_weight_def
      split: option.split)

lemma granted_review: "approval_weight now (granted ts ov rv a) = approval_weight now a"
  by (simp add: approval_weight_def review_status_def granted_def Let_def)

lemma granted_audits: "trust_score_weight now (granted ts ov rv a) = trust_score_weight now a"
  unfolding trust_score_weight_def granted_fields by (simp add: granted_def)

lemma granted_supply: "supply_chain_weight (granted ts ov rv a) = supply_chain_weight a"
  by (simp add: supply_chain_weight_def granted_fields)

lemma granted_cost: "cost_burn_weight (granted ts ov rv a) = cost_burn_weight a"
  by (simp add: cost_burn_weight_def granted_def split: option.split)

lemma counts_granted:
  assumes "mset ts \<subseteq># mset ts'"
  shows "write_count e (granted ts ov rv a) \<le> write_count e (granted ts' ov' rv' a)"
    "admin_count e (granted ts ov rv a) \<le> admin_count e (granted ts' ov' rv' a)"
    "length (filter bulk_write ts) \<le> length (filter bulk_write ts')"
    "set ts \<subseteq> set ts'"
proof -
  have f: "length (filter P ts) \<le> length (filter P ts')" for P
    using size_mset_mono [OF multiset_filter_mono [OF assms, of P]] by (simp flip: mset_filter)
  show "write_count e (granted ts ov rv a) \<le> write_count e (granted ts' ov' rv' a)"
    "admin_count e (granted ts ov rv a) \<le> admin_count e (granted ts' ov' rv' a)"
    by (simp_all add: write_count_def admin_count_def granted_def tool_names_strings f)
  show "length (filter bulk_write ts) \<le> length (filter bulk_write ts')" by (rule f)
  show "set ts \<subseteq> set ts'" using set_mset_mono [OF assms] by simp
qed

text \<open>The sections of the score, one agent's tally below the other's.\<close>

lemma permissions_le:
  assumes "mset ts \<subseteq># mset ts'" and "ov \<longrightarrow> ov'" and "rv \<longrightarrow> rv'"
  shows "tally_le (score_permissions e (granted ts ov rv a) (0, [])) (score_permissions e (granted ts' ov' rv' a) (0, []))"
proof -
  have "write_count e (granted ts ov rv a) \<le> write_count e (granted ts' ov' rv' a)"
    "admin_count e (granted ts ov rv a) \<le> admin_count e (granted ts' ov' rv' a)"
    by (rule counts_granted [OF assms(1)])+
  moreover have "ra_override (granted ts ov rv a) = ov" "ra_revert (granted ts ov rv a) = rv"
    "ra_override (granted ts' ov' rv' a) = ov'" "ra_revert (granted ts' ov' rv' a) = rv'"
    by (simp_all add: granted_def)
  ultimately show ?thesis
    using assms(2,3) unfolding score_permissions_def Let_def granted_fields
    by (intro tally_le_add_when tally_le_add_factor tally_le_refl)
       (simp_all add: PER_WRITE_TOOL_def PER_ADMIN_TOOL_def CAN_OVERRIDE_def CAN_REVERT_def ACCESS_WRITE_def)
qed

text \<open>The weight table in force for a scope, and the tables the capabilities are weighed by.\<close>

definition caps_table :: "risk_env \<Rightarrow> risk_db option \<Rightarrow> ident option \<Rightarrow> weight_table" where
  "caps_table e db t = (case resolved e db t ''capability_weights'' of Some w \<Rightarrow> w | None \<Rightarrow> re_cap_weights e)"

lemma exposure_le:
  assumes "tally_le st st'" and "set (agent_classes e a) \<subseteq> set (agent_classes e a')"
    and "set (agent_caps e a) \<subseteq> set (agent_caps e a')" and "\<forall>v\<in>snd ` set (caps_table e db t). 0 \<le> v"
    and "prov_weight a = prov_weight a'" "model_weight a = model_weight a'" "agent_depth g a = agent_depth g a'"
    and "blast_radius_breakdown a = blast_radius_breakdown a'"
  shows "tally_le (score_exposure e g db t a st) (score_exposure e g db t a' st')"
proof -
  have "sensitivity_weight e (resolved e db t ''class_weights'') (agent_classes e a)
      \<le> max 0 (sensitivity_weight e (resolved e db t ''class_weights'') (agent_classes e a'))"
    by (rule sensitivity_mono [OF assms(2)]) simp
  moreover have "capability_weight e (resolved e db t ''capability_weights'') (agent_caps e a)
      \<le> max 0 (capability_weight e (resolved e db t ''capability_weights'') (agent_caps e a'))"
    by (rule capability_mono [OF assms(3)])
       (use weight_in_nonneg [OF assms(4)] in \<open>simp_all add: caps_table_def\<close>)
  ultimately show ?thesis
    using assms(1,5-8) unfolding score_exposure_def Let_def
    by (intro tally_le_add_positive_max) auto
qed

lemma operations_le:
  assumes "tally_le st st'"
  shows "tally_le (score_operations now e db t (granted ts ov rv a) st)
    (score_operations now e db t (granted ts' ov' rv' a) st')"
  unfolding score_operations_def Let_def granted_fields granted_cost granted_audits granted_supply granted_review
  using assms by (intro tally_le_add_nonzero tally_le_add_positive) auto

lemma builtin_fire_granted:
  assumes "mset ts \<subseteq># mset ts'" and "tally_le st st'" and "i \<in> set INTERACTIONS"
    and "ix_condition i (granted ts ov rv a) (snd st) = Some True"
  shows "ix_condition i (granted ts' ov' rv' a) (snd st') = Some True"
proof -
  note f = counts_granted (3,4) [OF assms(1)]
  have any: "list_ex bulk_write ts \<Longrightarrow> list_ex bulk_write ts'"
    using f(2) by (auto simp: list_ex_iff)
  have raw: "raw_items (ra_tools (granted us p q a)) = Some (map Some us)" for us p q
    by (simp add: raw_items_def granted_def)
  have anyt: "any_bulk_tool (granted us p q a) = Some (list_ex bulk_write us)" for us p q
    by (simp add: any_bulk_tool_def raw any_bulk_strings)
  have rest: "in_prod (granted us p q a) = in_prod a" "autonomous (granted us p q a) = autonomous a"
    "has_security_cap (granted us p q a) = has_security_cap a" "has_data_class (granted us p q a) = has_data_class a"
    "has_input_source (granted us p q a) = has_input_source a" "ra_provenance (granted us p q a) = ra_provenance a"
    "ra_model_trust (granted us p q a) = ra_model_trust a" "ra_review (granted us p q a) = ra_review a"
    "ra_red_team (granted us p q a) = ra_red_team a" "ra_bias (granted us p q a) = ra_bias a"
    "ra_fairness (granted us p q a) = ra_fairness a" for us p q
    by (simp_all add: granted_def in_prod_def autonomous_def has_security_cap_def has_data_class_def
        has_input_source_def fun_eq_iff)
  have "has_factor (snd st) ''ownership'' \<Longrightarrow> has_factor (snd st') ''ownership''"
    using assms(2) by (simp add: tally_le_def)
  with assms(3,4) any f(1) show ?thesis
    unfolding INTERACTIONS_def
    by (auto simp: autonomous_writer_in_prod_def code_exec_with_user_input_def classified_autonomous_def
        untrusted_chain_def unowned_high_risk_def unaudited_classified_def prod_marketplace_writer_def
        self_hosted_with_pii_def rejected_in_prod_def orphan_writer_in_prod_def and_then_def raw anyt rest
        granted_fields count_bulk_strings split: if_splits)
qed

section \<open>A harmless agent\<close>

definition plain_env :: risk_env where "plain_env = shipped_env [] remdups"

definition tame_agent :: risk_agent where
  "tame_agent = bare_agent\<lparr> ra_loop := Some ''in_the_loop'', ra_access := Some ''read'',
     ra_provenance := Some ''builtin'', ra_model_trust := Some ''enterprise'', ra_environment := Some ''dev'',
     ra_owner_team := Some ''core'', ra_review := Some ''approved'' \<rparr>"

lemma norm_consts: "norm None ''unknown'' = ''unknown''" "norm None ''none'' = ''none''"
  "norm None ''write'' = ''write''" "norm None [] = []" "norm (Some ''in_the_loop'') ''none'' = ''in_the_loop''"
  "norm (Some ''read'') ''write'' = ''read''" "norm (Some ''builtin'') ''unknown'' = ''builtin''"
  "norm (Some ''enterprise'') ''unknown'' = ''enterprise''" "norm (Some ''dev'') ''unknown'' = ''dev''"
  "norm (Some ''approved'') ''unknown'' = ''approved''"
  by (simp_all add: norm_def py char_class_defs or_else_def)

lemmas weight_defs =
  loop_weight_def HUMAN_LOOP_WEIGHTS_def prov_weight_def or_unknown_def PROVENANCE_WEIGHTS_def
  model_weight_def MODEL_TRUST_WEIGHTS_def blast_radius_breakdown_def safe_int_def RATE_THRESHOLDS_def
  COST_THRESHOLDS_def USERBASE_THRESHOLDS_def BR_CAP_def deployment_weight_def get_or_unknown_def
  DEPLOYMENT_WEIGHTS_def ownership_weight_def has_owner_def approval_weight_def review_status_def
  APPROVAL_WEIGHTS_def lifecycle_weight_def date_or_def int_or_0_def supply_chain_weight_def
  parse_dependencies_def named_deps_def cost_burn_weight_def float_or_def number_def COST_CAP_def
  citation_weight_def trust_score_weight_def map_filter_simps Let_def

lemma tame_weights:
  "loop_weight tame_agent = 0" "prov_weight tame_agent = 0" "model_weight tame_agent = 0"
  "br_score (blast_radius_breakdown tame_agent) = 0" "deployment_weight plain_env None tame_agent = Some 0"
  "ownership_weight tame_agent = 0" "approval_weight 0 tame_agent = 0" "lifecycle_weight 0 tame_agent = Some 0"
  "supply_chain_weight tame_agent = 0" "cost_burn_weight tame_agent = Some 0" "citation_weight tame_agent = 0"
  "trust_score_weight 0 tame_agent = 8" "norm (ra_access tame_agent) ''write'' = ''read''"
  "agent_depth None tame_agent = 0" "ra_delegates tame_agent = []" "ra_sources tame_agent = []"
  "ra_no_interactions tame_agent = False"
  by (simp_all add: tame_agent_def bare_agent_def plain_env_def shipped_env_def norm_consts weight_defs agent_depth_def)

lemma tame_tools:
  "agent_classes plain_env (granted [] ov rv tame_agent) = []" "agent_caps plain_env (granted [] ov rv tame_agent) = []"
  "write_count plain_env (granted [] ov rv tame_agent) = 0" "admin_count plain_env (granted [] ov rv tame_agent) = 0"
  "agent_classes plain_env (granted [''create_rule''] ov rv tame_agent) = [''internal'']"
  "agent_caps plain_env (granted [''create_rule''] ov rv tame_agent) = []"
  "write_count plain_env (granted [''create_rule''] ov rv tame_agent) = 1"
  "admin_count plain_env (granted [''create_rule''] ov rv tame_agent) = 0"
  by (code_simp+)

lemma tame_tally:
  "tally_of 0 plain_env None None None (granted [] False False tame_agent)
   = Some (13, map (\<lambda>(n, d). \<lparr> rf_name = n, rf_delta = d \<rparr>)
     [(''base'', 5), (''governance_mode'', 0), (''trust_audits'', 8)])"
  "tally_of 0 plain_env None None None (granted [''create_rule''] True False tame_agent)
   = Some (37, map (\<lambda>(n, d). \<lparr> rf_name = n, rf_delta = d \<rparr>)
     [(''base'', 5), (''write_tools'', 4), (''governance_mode'', 0), (''can_override'', 12),
      (''data_sensitivity'', 8), (''trust_audits'', 8)])"
  by (simp_all add: tally_of_def source_delta_def score_permissions_def score_exposure_def score_operations_def Let_def
      granted_fields granted_cost granted_audits granted_supply granted_review tame_weights tame_tools
      resolved_def sensitivity_weight_def capability_weight_def delegation_weight_def delegation_trust_weight_def
      add_positive_def add_when_def add_nonzero_def add_factor_def RISK_BASE_def PER_WRITE_TOOL_def
      CAN_OVERRIDE_def SENSITIVITY_CAP_def)
    (simp_all add: granted_def tame_agent_def bare_agent_def plain_env_def shipped_env_def weight_in_def CLASS_WEIGHTS_def)

section \<open>The scale\<close>

text \<open>C28. The scale of the score. With multipliers of at least one, as registration
  enforces, the additive score is the sum of the deltas of the listed factors cut to
  0..100; interactions never lower it and at most double it; the final score is in
  0..100 and no lower than the additive one, its bucket is the band it lies in, and
  the overrun is exactly what the cut at 100 took off the amplified score.\<close>

theorem score_scale:
  assumes "amplifying (re_interactions e)" and "score_agent now e g db t a = Some r"
  shows "as_additive r = clamp100 (sum_list (map rf_delta (as_factors r)))
    \<and> 0 \<le> as_additive r \<and> as_additive r \<le> as_score r \<and> as_score r \<le> 100
    \<and> as_score r \<le> 2 * as_additive r
    \<and> 1 \<le> as_multiplier r \<and> as_multiplier r \<le> 2
    \<and> as_bucket r = bucket_for (as_score r)
    \<and> py_round (fmul (of_int (as_additive r)) (as_multiplier r)) = as_score r + as_overrun r
    \<and> (0 < as_overrun r \<longrightarrow> as_score r = 100)"
proof -
  obtain st where st: "tally_of now e g db t a = Some st" and r: "r = finish_score e g db t a st"
    using assms(2) by (auto simp: score_agent_def)
  note b = tally_of_balanced [OF st, unfolded balanced_def]
  note m = multiplier_of_bounds [OF assms(1), of a "snd st"]
  note raw = raw_score_bounds [OF assms(1), of st a]
  have "clamp100 (fst st) \<le> clamp100 (raw_score e a st)"
    using raw clamp100_bounds [of "fst st"] by (simp add: clamp100_def)
  moreover have "clamp100 (raw_score e a st) \<le> raw_score e a st"
    using raw clamp100_bounds [of "fst st"] by (simp add: clamp100_def)
  with raw have "clamp100 (raw_score e a st) \<le> 2 * clamp100 (fst st)" by linarith
  moreover have "raw_score e a st = clamp100 (raw_score e a st) + max 0 (raw_score e a st - 100)"
    using raw clamp100_bounds [of "fst st"] by (simp add: clamp100_def)
  then have "py_round (fmul (of_int (clamp100 (fst st))) (multiplier_of e a (snd st)))
      = clamp100 (raw_score e a st) + max 0 (raw_score e a st - 100)"
    by (simp add: raw_score_def)
  moreover have "0 < max 0 (raw_score e a st - 100) \<longrightarrow> clamp100 (raw_score e a st) = 100"
    by (simp add: clamp100_def)
  moreover have "clamp100 (fst st) = clamp100 (sum_list (map rf_delta (snd st)))" by (simp add: b)
  ultimately show ?thesis
    unfolding r finish_score_fields using m clamp100_bounds by blast
qed

lemma score_scale_witness:
  "\<exists>r. score_agent 0 plain_env None None None (granted [''create_rule''] True False tame_agent) = Some r
     \<and> as_additive r = 37 \<and> 37 \<le> as_score r \<and> as_score r \<le> 74 \<and> as_bucket r = bucket_for (as_score r)"
proof -
  let ?a = "granted [''create_rule''] True False tame_agent"
  obtain r where r: "score_agent 0 plain_env None None None ?a = Some r" and "as_additive r = 37"
    using tame_tally(2) by (simp add: score_agent_def finish_score_fields clamp100_def)
  moreover have "amplifying (re_interactions plain_env)"
    by (simp add: plain_env_def shipped_env_def amplifying_builtin)
  ultimately show ?thesis using score_scale [of plain_env 0 None None None ?a r] by auto
qed

section \<open>The effect of a grant\<close>

text \<open>C26. Granting more never lowers the score. Of two definitions that differ only in
  their tools and in the override and revert authority, the one with at least the
  tools of the other (counted with repetitions) and at least its authority scores at
  least as high, for every tenant, delegation graph and database: counts, inferred
  data classes and capabilities, and the built-in interactions all move one way.
  The weights of the capabilities must not be negative.\<close>

theorem granting_never_lowers:
  assumes "re_interactions e = INTERACTIONS" and "set_order e"
    and "\<forall>v\<in>snd ` set (caps_table e db t). 0 \<le> v"
    and "mset ts \<subseteq># mset ts'" and "ov \<longrightarrow> ov'" and "rv \<longrightarrow> rv'"
    and "score_agent now e g db t (granted ts ov rv a) = Some r"
  shows "\<exists>r'. score_agent now e g db t (granted ts' ov' rv' a) = Some r' \<and> as_score r \<le> as_score r'"
proof -
  have src: "source_delta e db t (granted ts' ov' rv' a) = source_delta e db t (granted ts ov rv a)"
    by (simp add: source_delta_def granted_fields)
  obtain st where st: "tally_of now e g db t (granted ts ov rv a) = Some st"
    and r: "r = finish_score e g db t (granted ts ov rv a) st"
    using assms(7) by (auto simp: score_agent_def)
  then obtain st' where st': "tally_of now e g db t (granted ts' ov' rv' a) = Some st'"
    by (auto simp: tally_of_def src split: option.splits)
  have le: "tally_le st st'"
  proof -
    obtain d where "source_delta e db t (granted ts ov rv a) = Some d"
      using st by (auto simp: tally_of_def split: option.splits)
    then have eqs: "st = score_operations now e db t (granted ts ov rv a) (add_positive ''input_sources'' d
          (score_exposure e g db t (granted ts ov rv a) (score_permissions e (granted ts ov rv a) (0, []))))"
      "st' = score_operations now e db t (granted ts' ov' rv' a) (add_positive ''input_sources'' d
          (score_exposure e g db t (granted ts' ov' rv' a) (score_permissions e (granted ts' ov' rv' a) (0, []))))"
      using st st' by (simp_all add: tally_of_def src)
    show ?thesis
      unfolding eqs
      by (intro operations_le tally_le_add_positive exposure_le permissions_le
          granted_classes granted_caps assms counts_granted(4)) (simp_all add: granted_fields)
  qed
  have "raw_score e (granted ts ov rv a) st \<le> raw_score e (granted ts' ov' rv' a) st'"
    by (rule raw_score_mono [OF _ le])
       (use builtin_fire_granted [OF assms(4) le] in
         \<open>simp_all add: assms(1) amplifying_builtin granted_fields\<close>)
  then have "clamp100 (raw_score e (granted ts ov rv a) st) \<le> clamp100 (raw_score e (granted ts' ov' rv' a) st')"
    by (rule clamp100_mono)
  then show ?thesis using st' by (simp add: score_agent_def r finish_score_fields)
qed

lemma granting_never_lowers_witness:
  "\<exists>r r'. score_agent 0 plain_env None None None (granted [] False False tame_agent) = Some r
     \<and> score_agent 0 plain_env None None None (granted [''create_rule''] True False tame_agent) = Some r'
     \<and> as_additive r = 13 \<and> as_additive r' = 37 \<and> as_score r \<le> as_score r'"
proof -
  obtain r where r: "score_agent 0 plain_env None None None (granted [] False False tame_agent) = Some r"
    and "as_additive r = 13"
    using tame_tally(1) by (simp add: score_agent_def finish_score_fields clamp100_def)
  moreover have "as_additive r' = 37"
    if "score_agent 0 plain_env None None None (granted [''create_rule''] True False tame_agent) = Some r'" for r'
    using that tame_tally(2) by (auto simp: score_agent_def finish_score_fields clamp100_def)
  moreover have "re_interactions plain_env = INTERACTIONS" "set_order plain_env"
    "\<forall>v\<in>snd ` set (caps_table plain_env None None). 0 \<le> v"
    by (auto simp: plain_env_def shipped_env_def set_order_def caps_table_def resolved_def CAPABILITY_WEIGHTS_def)
  then have "\<exists>r'. score_agent 0 plain_env None None None (granted [''create_rule''] True False tame_agent) = Some r'
      \<and> as_score r \<le> as_score r'"
    by (rule granting_never_lowers [OF _ _ _ _ _ _ r]) simp_all
  ultimately show ?thesis by blast
qed

end
