(* ===== verification/RiskTenants.thy ===== *)
theory RiskTenants
  imports RiskFacts
begin

text \<open>
  The risk score under the weight overrides of a tenant, and the inputs for which it
  is surprising: what scoring raises on, what a definition that leaves fields out
  scores.
\<close>

section \<open>The tables in force\<close>

definition scope_table :: "risk_env \<Rightarrow> weight_db \<Rightarrow> ident option \<Rightarrow> string \<Rightarrow> weight_table" where
  "scope_table e db t scope =
     (case get_effective_weights (risk_scopes e) db scope t of Inr w \<Rightarrow> w | Inl _ \<Rightarrow> [])"

definition scope_names :: "string list" where
  "scope_names = [''class_weights'', ''capability_weights'', ''source_weights'', ''deployment_weights'']"

text \<open>A table is resolved when its read and all the earlier ones succeed.\<close>

definition reads_reach :: "(string \<Rightarrow> bool) \<Rightarrow> string \<Rightarrow> bool" where
  "reads_reach ok s = list_all ok (takeWhile (\<lambda>x. x \<noteq> s) scope_names @ [s])"

lemma resolved_eq:
  "s \<in> set scope_names \<Longrightarrow>
   resolved e (Some db) t s = (if reads_reach (rd_readable db) s then Some (scope_table e (rd_weights db) t s) else None)"
  by (auto simp: resolved_def scope_names_def reads_reach_def read_scope_def scope_table_def get_effective_weights_def
      risk_scopes_def Let_def)

lemma scope_weight:
  "s \<in> set scope_names \<Longrightarrow> t \<noteq> [] \<Longrightarrow> map_of (scope_table e db (Some t) s) k = tenant_weight (risk_scopes e) db t (s, k)"
  by (auto simp: scope_table_def tenant_weight_def effective_weight_def scope_names_def risk_scopes_def
      get_effective_weights_def Let_def)

lemma get_or_unknown_cong:
  assumes "map_of w = map_of w'"
  shows "get_or_unknown w d k = get_or_unknown w' d k"
  unfolding get_or_unknown_def assms by (rule refl)

section \<open>Overrides that tighten\<close>

definition no_tenant_rows :: "weight_db \<Rightarrow> bool" where
  "no_tenant_rows db = list_all (\<lambda>r. wo_tenant r = None) (wd_rows db)"

lemma no_tenant_value: "no_tenant_rows db \<Longrightarrow> current_value db s k (Some t) = None"
  by (auto simp: no_tenant_rows_def current_value_def list_all_iff find_None_ball wo_slot_def)

lemma scope_known: "s \<in> set scope_names \<Longrightarrow> \<exists>w. map_of (risk_scopes e) s = Some w"
  by (auto simp: scope_names_def risk_scopes_def)

text \<open>What a tenant's table holds, by the layers.\<close>

lemma table_layers:
  assumes "slots_unique db" "t \<noteq> []" "map_of (risk_scopes e) s = Some w"
  shows "tenant_weight (risk_scopes e) db t (s, k) =
    (case current_value db s k (Some t) of Some v \<Rightarrow> Some v
     | None \<Rightarrow> (case current_value db s k None of Some v \<Rightarrow> Some v | None \<Rightarrow> map_of w k))"
  using effective_weight_eq [OF assms(1,2), of "risk_scopes e" s k] assms(2,3) by (simp add: tenant_weight_def)

lemma platform_value_layers:
  "map_of (risk_scopes e) s = Some w \<Longrightarrow> platform_value (risk_scopes e) db s k =
    (case current_value db s k None of Some v \<Rightarrow> v | None \<Rightarrow> weight_in w k)"
  by (simp add: platform_value_def weight_in_def split: option.split)

lemma platform_value_table:
  assumes "slots_unique db" "no_tenant_rows db" "t \<noteq> []" "s \<in> set scope_names"
  shows "weight_in (scope_table e db (Some t) s) k = platform_value (risk_scopes e) db s k"
proof -
  obtain w where w: "map_of (risk_scopes e) s = Some w" using scope_known [OF assms(4)] by blast
  have "map_of (scope_table e db (Some t) s) k
      = (case current_value db s k None of Some v \<Rightarrow> Some v | None \<Rightarrow> map_of w k)"
    using table_layers [OF assms(1,3) w, of k] no_tenant_value [OF assms(2)] assms(3,4) by (simp add: scope_weight)
  then show ?thesis
    by (simp add: weight_in_def platform_value_layers [OF w] split: option.split)
qed

text \<open>Weights of a tight table are at least the platform's.\<close>

lemma tight_table:
  assumes "weights.tight (risk_scopes e) db" "t \<noteq> []" "s \<in> set scope_names"
  shows "platform_value (risk_scopes e) db s k \<le> weight_in (scope_table e db (Some t) s) k"
proof -
  obtain w where w: "map_of (risk_scopes e) s = Some w" using scope_known [OF assms(3)] by blast
  have u: "slots_unique db" using assms(1) by (simp add: weights.tight_def)
  show ?thesis
  proof (cases "tenant_weight (risk_scopes e) db t (s, k)")
    case None
    then have "current_value db s k None = None" "map_of w k = None"
      using table_layers [OF u assms(2) w, of k] by (simp_all split: option.splits)
    with None show ?thesis
      using assms(2,3) by (simp add: weight_in_def scope_weight platform_value_layers [OF w])
  next
    case (Some v)
    moreover have "platform_weight (risk_scopes e) db (s, k) = Some (platform_value (risk_scopes e) db s k)"
      by (simp add: platform_weight_def w)
    ultimately have "platform_value (risk_scopes e) db s k \<le> v"
      using assms(1) unfolding weights.tight_def by blast
    with Some show ?thesis using assms(2,3) by (simp add: weight_in_def scope_weight)
  qed
qed

lemma table_raised:
  assumes "weights.tight (risk_scopes e) wdb" "no_tenant_rows wdb" "t \<noteq> []" "s \<in> set scope_names"
  shows "weight_in (scope_table e wdb (Some t) s) k
    \<le> weight_in (scope_table e (weights.writes (risk_scopes e) now who reason ws wdb) (Some t) s) k"
proof -
  let ?db = "weights.writes (risk_scopes e) now who reason ws wdb"
  have "platform_weight (risk_scopes e) ?db (s, k) = platform_weight (risk_scopes e) wdb (s, k)"
    by (rule weights.writes_platform [OF assms(1)])
  then have "platform_value (risk_scopes e) ?db s k = platform_value (risk_scopes e) wdb s k"
    using scope_known [OF assms(4), of e] by (auto simp: platform_weight_def)
  moreover have "weights.tight (risk_scopes e) ?db"
    by (rule weights.writes_tight [OF assms(1)])
  moreover have "slots_unique wdb" using assms(1) by (simp add: weights.tight_def)
  ultimately show ?thesis
    using platform_value_table [OF _ assms(2-4), of e k] tight_table [OF _ assms(3,4), of e ?db k] by simp
qed

lemma table_kept:
  assumes "weights.tight (risk_scopes e) wdb" "t \<noteq> []" "s \<in> set scope_names"
    and "\<forall>w\<in>set ws. fst (fst (snd w)) \<noteq> s"
  shows "map_of (scope_table e (weights.writes (risk_scopes e) now who reason ws wdb) (Some t) s)
    = map_of (scope_table e wdb (Some t) s)"
proof
  fix k
  let ?db = "weights.writes (risk_scopes e) now who reason ws wdb"
  have "\<forall>w\<in>set ws. fst (snd w) \<noteq> (s, k)" using assms(4) by fastforce
  then have "tenant_weight (risk_scopes e) ?db t (s, k) = tenant_weight (risk_scopes e) wdb t (s, k)"
    by (rule weights.writes_other_key [OF assms(1)])
  then show "map_of (scope_table e ?db (Some t) s) k = map_of (scope_table e wdb (Some t) s) k"
    using assms(2,3) by (simp add: scope_weight)
qed

text \<open>The score of an agent after other overrides were written.\<close>

definition with_weights :: "risk_db \<Rightarrow> weight_db \<Rightarrow> risk_db" where
  "with_weights db w = db\<lparr> rd_weights := w \<rparr>"

lemma with_weights_fields:
  "rd_weights (with_weights db w) = w" "rd_readable (with_weights db w) = rd_readable db"
  "rd_principals (with_weights db w) = rd_principals db"
  by (simp_all add: with_weights_def)

lemma resolved_same_reads:
  assumes "s \<in> set scope_names"
  shows "resolved e (Some (with_weights db w)) t s =
    (if resolved e (Some db) t s = None then None else Some (scope_table e w t s))"
  by (simp add: resolved_eq [OF assms] with_weights_fields)

lemma kept_deltas:
  assumes "map_of (scope_table e w (Some t) ''source_weights'')
      = map_of (scope_table e (rd_weights db) (Some t) ''source_weights'')"
    and "map_of (scope_table e w (Some t) ''deployment_weights'')
      = map_of (scope_table e (rd_weights db) (Some t) ''deployment_weights'')"
  shows "source_delta e (Some (with_weights db w)) (Some t) a = source_delta e (Some db) (Some t) a"
    "deployment_weight e (resolved e (Some (with_weights db w)) (Some t) ''deployment_weights'') a
      = deployment_weight e (resolved e (Some db) (Some t) ''deployment_weights'') a"
proof -
  have names: "''source_weights'' \<in> set scope_names" "''deployment_weights'' \<in> set scope_names"
    by (simp_all add: scope_names_def)
  have "get_or_unknown (scope_table e w (Some t) ''source_weights'')
      = get_or_unknown (scope_table e (rd_weights db) (Some t) ''source_weights'')"
    by (intro ext get_or_unknown_cong assms)
  then show "source_delta e (Some (with_weights db w)) (Some t) a = source_delta e (Some db) (Some t) a"
    by (simp add: source_delta_def input_source_weight_def resolved_same_reads [OF names(1)]
        resolved_eq [OF names(1)] with_weights_fields Let_def)
  have "get_or_unknown (scope_table e w (Some t) ''deployment_weights'')
      = get_or_unknown (scope_table e (rd_weights db) (Some t) ''deployment_weights'')"
    by (intro ext get_or_unknown_cong assms)
  then show "deployment_weight e (resolved e (Some (with_weights db w)) (Some t) ''deployment_weights'') a
      = deployment_weight e (resolved e (Some db) (Some t) ''deployment_weights'') a"
    by (simp add: deployment_weight_def resolved_same_reads [OF names(2)]
        resolved_eq [OF names(2)] with_weights_fields Let_def)
qed

lemma raised_deltas:
  assumes up: "\<And>s k. s \<in> set scope_names \<Longrightarrow>
      weight_in (scope_table e (rd_weights db) (Some t) s) k \<le> weight_in (scope_table e w (Some t) s) k"
    and nonneg: "\<forall>v\<in>snd ` set (caps_table e (Some db) (Some t)). 0 \<le> v"
  shows "sensitivity_weight e (resolved e (Some db) (Some t) ''class_weights'') cs
      \<le> max 0 (sensitivity_weight e (resolved e (Some (with_weights db w)) (Some t) ''class_weights'') cs)"
    "capability_weight e (resolved e (Some db) (Some t) ''capability_weights'') cs
      \<le> max 0 (capability_weight e (resolved e (Some (with_weights db w)) (Some t) ''capability_weights'') cs)"
proof -
  have names: "''class_weights'' \<in> set scope_names" "''capability_weights'' \<in> set scope_names"
    by (simp_all add: scope_names_def)
  show "sensitivity_weight e (resolved e (Some db) (Some t) ''class_weights'') cs
      \<le> max 0 (sensitivity_weight e (resolved e (Some (with_weights db w)) (Some t) ''class_weights'') cs)"
    by (rule sensitivity_mono)
       (use up [OF names(1)] in \<open>simp_all add: resolved_eq [OF names(1)] with_weights_fields\<close>)
  have "0 \<le> weight_in (case resolved e (Some (with_weights db w)) (Some t) ''capability_weights'' of
      Some w \<Rightarrow> w | None \<Rightarrow> re_cap_weights e) k" for k
    using weight_in_nonneg [OF nonneg, of k] up [OF names(2), of k]
    by (auto simp: caps_table_def resolved_same_reads [OF names(2)] resolved_eq [OF names(2)] with_weights_fields
        split: if_splits)
  then show "capability_weight e (resolved e (Some db) (Some t) ''capability_weights'') cs
      \<le> max 0 (capability_weight e (resolved e (Some (with_weights db w)) (Some t) ''capability_weights'') cs)"
    by (intro capability_mono)
       (use up [OF names(2)] in \<open>simp_all add: resolved_eq [OF names(2)] with_weights_fields\<close>)
qed

lemma builtin_fire_same:
  assumes "tally_le st st'" and "i \<in> set INTERACTIONS" and "ix_condition i a (snd st) = Some True"
  shows "ix_condition i a (snd st') = Some True"
  using assms unfolding INTERACTIONS_def tally_le_def
  by (auto simp: autonomous_writer_in_prod_def code_exec_with_user_input_def classified_autonomous_def
      untrusted_chain_def unowned_high_risk_def unaudited_classified_def prod_marketplace_writer_def
      self_hosted_with_pii_def rejected_in_prod_def orphan_writer_in_prod_def)

definition no_failures :: "weight_db \<Rightarrow> risk_db" where
  "no_failures w = \<lparr> rd_weights = w, rd_readable = (\<lambda>s. True), rd_principals = [] \<rparr>"

lemma no_failures_fields [simp]:
  "rd_weights (no_failures w) = w" "rd_readable (no_failures w) = (\<lambda>s. True)" "rd_principals (no_failures w) = []"
  by (simp_all add: no_failures_def)

lemma empty_weights_plain: "no_tenant_rows empty_weights" "slots_unique empty_weights"
  by (simp_all add: no_tenant_rows_def empty_weights_def slots_unique_def)

lemma empty_table:
  "s \<in> set scope_names \<Longrightarrow> scope_table e empty_weights t s = the (map_of (risk_scopes e) s)"
  by (auto simp: scope_table_def scope_names_def risk_scopes_def get_effective_weights_def empty_weights_def
      layer_def overlay_def Let_def)

lemma empty_weights_tight_for: "weights.tight (risk_scopes e) empty_weights"
proof -
  have "tenant_weight (risk_scopes e) empty_weights t sk = Some v \<Longrightarrow>
      platform_weight (risk_scopes e) empty_weights sk = Some p \<Longrightarrow> p \<le> v" for t sk p v
    by (cases sk) (auto simp: tenant_weight_def effective_weight_def get_effective_weights_def platform_weight_def
        platform_value_def current_value_def layer_def overlay_def empty_weights_def Let_def
        split: if_splits option.splits)
  then show ?thesis by (auto simp: weights.tight_def empty_weights_plain)
qed

lemma default_tables:
  "s \<in> set scope_names \<Longrightarrow>
   resolved e (Some (no_failures empty_weights)) t s = Some (the (map_of (risk_scopes e) s))"
  by (simp add: resolved_eq empty_table reads_reach_def list_all_iff)

text \<open>Without overrides and delegates the database changes nothing.\<close>

lemma score_without_overrides:
  assumes "ra_delegates a = []"
  shows "tally_of now e g (Some (no_failures empty_weights)) t a = tally_of now e g None None a"
proof -
  have names: "''class_weights'' \<in> set scope_names" "''capability_weights'' \<in> set scope_names"
    "''source_weights'' \<in> set scope_names" "''deployment_weights'' \<in> set scope_names"
    by (simp_all add: scope_names_def)
  note tab = names [THEN default_tables, of e t]
  have "resolved e None None s = None" for s by (simp add: resolved_def)
  then show ?thesis
    by (simp add: tally_of_def source_delta_def input_source_weight_def score_exposure_def score_operations_def
        sensitivity_weight_def capability_weight_def deployment_weight_def tab risk_scopes_def assms
        delegation_trust_weight_def Let_def split: option.split)
qed

text \<open>Tenants can only raise a risk score through the scopes that are maxima and sums.
  Start from a table without tenants' overrides. Whatever sequence of overrides tenants
  write for data classes and capabilities, the weight API accepting or refusing each,
  no agent's score for any tenant drops: the only-tighten rule of the weights carries
  over to the scores.\<close>

theorem class_overrides_only_raise:
  assumes "re_interactions e = INTERACTIONS" and "weights.tight (risk_scopes e) (rd_weights db)"
    and "no_tenant_rows (rd_weights db)" and "t \<noteq> []"
    and "\<forall>w\<in>set ws. fst (fst (snd w)) \<in> {''class_weights'', ''capability_weights''}"
    and "\<forall>v\<in>snd ` set (caps_table e (Some db) (Some t)). 0 \<le> v"
    and "score_agent now e g (Some db) (Some t) a = Some r"
  shows "\<exists>r'. score_agent now e g
      (Some (with_weights db (weights.writes (risk_scopes e) now0 who reason ws (rd_weights db)))) (Some t) a = Some r'
    \<and> as_score r \<le> as_score r'"
proof -
  define wdb' where "wdb' = weights.writes (risk_scopes e) now0 who reason ws (rd_weights db)"
  let ?db = "with_weights db wdb'"
  have up: "weight_in (scope_table e (rd_weights db) (Some t) s) k \<le> weight_in (scope_table e wdb' (Some t) s) k"
    if "s \<in> set scope_names" for s k
    unfolding wdb'_def by (rule table_raised [OF assms(2-4) that])
  have same: "map_of (scope_table e wdb' (Some t) s) = map_of (scope_table e (rd_weights db) (Some t) s)"
    if "s = ''source_weights'' \<or> s = ''deployment_weights''" for s
    unfolding wdb'_def
    by (rule table_kept [OF assms(2,4)]) (use assms(5) that in \<open>auto simp: scope_names_def\<close>)
  have kept: "source_delta e (Some ?db) (Some t) a = source_delta e (Some db) (Some t) a"
    "deployment_weight e (resolved e (Some ?db) (Some t) ''deployment_weights'') a
      = deployment_weight e (resolved e (Some db) (Some t) ''deployment_weights'') a"
    by (rule kept_deltas; simp add: same)+
  obtain st d where d: "source_delta e (Some db) (Some t) a = Some d"
    and st: "st = score_operations now e (Some db) (Some t) a (add_positive ''input_sources'' d
          (score_exposure e g (Some db) (Some t) a (score_permissions e a (0, []))))"
    and r: "r = finish_score e g (Some db) (Some t) a st"
    using assms(7) by (auto simp: score_agent_def tally_of_def split: option.splits)
  define st' where "st' = score_operations now e (Some ?db) (Some t) a (add_positive ''input_sources'' d
          (score_exposure e g (Some ?db) (Some t) a (score_permissions e a (0, []))))"
  have "tally_le (score_exposure e g (Some db) (Some t) a (score_permissions e a (0, [])))
      (score_exposure e g (Some ?db) (Some t) a (score_permissions e a (0, [])))"
    unfolding score_exposure_def Let_def
    by (intro tally_le_add_positive_max tally_le_refl raised_deltas up assms(6)) simp_all
  then have le: "tally_le st st'"
    unfolding st st'_def score_operations_def Let_def kept option.map with_weights_fields
    by (intro tally_le_add_nonzero tally_le_add_positive) simp_all
  have "raw_score e a st \<le> raw_score e a st'"
    by (rule raw_score_mono [OF _ le])
       (use builtin_fire_same [OF le] in \<open>simp_all add: assms(1) amplifying_builtin\<close>)
  then have "as_score r \<le> clamp100 (raw_score e a st')"
    unfolding r finish_score_fields by (rule clamp100_mono)
  then show ?thesis
    unfolding wdb'_def [symmetric]
    by (simp add: score_agent_def tally_of_def kept d finish_score_fields flip: st'_def)
qed

lemma class_overrides_only_raise_witness:
  "\<exists>r'. score_agent 0 plain_env None (Some (with_weights (no_failures empty_weights)
        (weights.writes (risk_scopes plain_env) 1 None None
          [(''t'', (''class_weights'', ''internal''), 33)] empty_weights))) (Some ''t'')
        (granted [''create_rule''] True False tame_agent) = Some r'
     \<and> 37 \<le> as_score r'"
proof -
  let ?a = "granted [''create_rule''] True False tame_agent" and ?db = "no_failures empty_weights"
  have "resolved plain_env (Some ?db) (Some ''t'') ''capability_weights'' = Some CAPABILITY_WEIGHTS"
    by (subst default_tables) (simp_all add: scope_names_def risk_scopes_def plain_env_def shipped_env_def)
  then have caps: "\<forall>v\<in>snd ` set (caps_table plain_env (Some ?db) (Some ''t'')). 0 \<le> v"
    by (auto simp: caps_table_def CAPABILITY_WEIGHTS_def)
  have env: "re_interactions plain_env = INTERACTIONS" by (simp add: plain_env_def shipped_env_def)
  obtain st where st: "tally_of 0 plain_env None (Some ?db) (Some ''t'') ?a = Some st" "fst st = 37"
    using tame_tally(2) score_without_overrides [of ?a 0 plain_env None "Some ''t''"]
    by (simp add: granted_fields tame_weights)
  define r where "r = finish_score plain_env None (Some ?db) (Some ''t'') ?a st"
  have "as_score r = clamp100 (raw_score plain_env ?a st)" by (simp add: r_def finish_score_fields)
  then have "37 \<le> as_score r"
    using raw_score_bounds [of plain_env st ?a] st(2) amplifying_builtin env by (simp add: clamp100_def)
  moreover have "score_agent 0 plain_env None (Some ?db) (Some ''t'') ?a = Some r"
    by (simp add: score_agent_def st r_def)
  ultimately show ?thesis
    using class_overrides_only_raise [OF env, of ?db "''t''"
        "[(''t'', (''class_weights'', ''internal''), 33)]" 0 None ?a r 1 None None]
      caps empty_weights_plain empty_weights_tight_for by fastforce
qed

section \<open>Overrides that loosen\<close>

lemma written_table:
  assumes "slots_unique db" "t \<noteq> []" "s \<in> set scope_names"
    and "tenant_write (risk_scopes e) now who reason db t sk v = Some db'"
  shows "map_of (scope_table e db' (Some t) s) k =
    (if sk = (s, k) then Some v else map_of (scope_table e db (Some t) s) k)"
  using weights.put_effective [OF assms(1,4), of t "(s, k)"] assms(2,3) by (simp add: scope_weight)

lemma fresh_key_writable:
  assumes "s \<in> set scope_names" "t \<noteq> []" "map_of (the (map_of (risk_scopes e) s)) k = None"
    and "current_value db s k None = None"
  shows "\<exists>db'. tenant_write (risk_scopes e) now who reason db t (s, k) 0 = Some db'"
proof -
  obtain w where "map_of (risk_scopes e) s = Some w" using scope_known [OF assms(1)] by blast
  then show ?thesis using assms by (simp add: tenant_write_iff platform_value_def)
qed

text \<open>The only-tighten rule can be turned around where a table has an \<open>unknown\<close>
  entry. A key that no table mentions has platform value 0 for the rule but weighs as
  much as \<open>unknown\<close> when scored, so a tenant may write the weight 0 for it: the rule
  accepts, and an agent that ingests from such a source falls from 10 to 0 in that
  factor, one that runs in such an environment from 15 to 0.\<close>

theorem fresh_overrides_loosen:
  assumes "map_of SOURCE_WEIGHTS n = None" "map_of DEPLOYMENT_WEIGHTS m = None" "t \<noteq> []"
    and "ra_sources a = [n]"
    and "norm (if truthy (ra_environment a) then ra_environment a else ra_deployment_env a) ''unknown'' = m"
  shows "\<exists>w1 w2. tenant_write (risk_scopes (shipped_env cat order)) now who reason empty_weights t
        (''source_weights'', n) 0 = Some w1
    \<and> tenant_write (risk_scopes (shipped_env cat order)) now who reason w1 t (''deployment_weights'', m) 0 = Some w2
    \<and> source_delta (shipped_env cat order) (Some (no_failures empty_weights)) (Some t) a = Some 10
    \<and> source_delta (shipped_env cat order) (Some (no_failures w2)) (Some t) a = Some 0
    \<and> deployment_weight (shipped_env cat order)
        (resolved (shipped_env cat order) (Some (no_failures empty_weights)) (Some t) ''deployment_weights'') a = Some 15
    \<and> deployment_weight (shipped_env cat order)
        (resolved (shipped_env cat order) (Some (no_failures w2)) (Some t) ''deployment_weights'') a = Some 0"
proof -
  let ?e = "shipped_env cat order"
  have names: "''source_weights'' \<in> set scope_names" "''deployment_weights'' \<in> set scope_names"
    by (simp_all add: scope_names_def)
  have reg: "the (map_of (risk_scopes ?e) ''source_weights'') = SOURCE_WEIGHTS"
    "the (map_of (risk_scopes ?e) ''deployment_weights'') = DEPLOYMENT_WEIGHTS"
    by (simp_all add: risk_scopes_def shipped_env_def)
  have no_value: "current_value empty_weights s k t' = None" for s k t'
    by (simp add: current_value_def empty_weights_def)
  obtain w1 where w1: "tenant_write (risk_scopes ?e) now who reason empty_weights t (''source_weights'', n) 0 = Some w1"
    using fresh_key_writable [OF names(1) assms(3), of ?e n empty_weights now who reason] assms(1)
    by (auto simp: reg no_value)
  then have u1: "slots_unique w1" using weights.put_ok empty_weights_plain(2) by blast
  have "current_value w1 ''deployment_weights'' m None = None"
    using w1 unfolding tenant_write_iff
    by (auto simp: current_value_put no_value)
  then obtain w2 where w2: "tenant_write (risk_scopes ?e) now who reason w1 t (''deployment_weights'', m) 0 = Some w2"
    using fresh_key_writable [OF names(2) assms(3), of ?e m w1 now who reason] assms(2) by (auto simp: reg)
  have tab: "map_of (scope_table ?e w2 (Some t) ''source_weights'') n = Some 0"
    "map_of (scope_table ?e w2 (Some t) ''deployment_weights'') m = Some 0"
    using written_table [OF u1 assms(3) _ w2] written_table [OF empty_weights_plain(2) assms(3) _ w1] names by simp_all
  have res: "resolved ?e (Some (no_failures w2)) (Some t) s = Some (scope_table ?e w2 (Some t) s)"
    if "s \<in> set scope_names" for s
    using that by (simp add: resolved_eq reads_reach_def list_all_iff)
  have unk: "map_of SOURCE_WEIGHTS ''unknown'' = Some 10" "map_of DEPLOYMENT_WEIGHTS ''unknown'' = Some 15"
    by (simp_all add: SOURCE_WEIGHTS_def DEPLOYMENT_WEIGHTS_def)
  have tables: "re_source_weights ?e = SOURCE_WEIGHTS" "re_deploy_weights ?e = DEPLOYMENT_WEIGHTS"
    by (simp_all add: shipped_env_def)
  have "source_delta ?e (Some (no_failures empty_weights)) (Some t) a = Some 10"
    using assms(1,4) unk
    by (simp add: source_delta_def input_source_weight_def default_tables [OF names(1)] reg get_or_unknown_def
        tables source_premium_def SOURCE_CAP_def)
  moreover have "source_delta ?e (Some (no_failures w2)) (Some t) a = Some 0"
    using assms(4) unk
    by (simp add: source_delta_def input_source_weight_def res [OF names(1)] get_or_unknown_def tab
        tables source_premium_def SOURCE_CAP_def)
  moreover have "deployment_weight ?e (resolved ?e (Some (no_failures empty_weights)) (Some t) ''deployment_weights'') a = Some 15"
    unfolding deployment_weight_def Let_def assms(5)
    using assms(2) unk by (simp add: default_tables [OF names(2)] reg get_or_unknown_def tables)
  moreover have "deployment_weight ?e (resolved ?e (Some (no_failures w2)) (Some t) ''deployment_weights'') a = Some 0"
    unfolding deployment_weight_def Let_def assms(5)
    using unk by (simp add: res [OF names(2)] get_or_unknown_def tab tables)
  ultimately show ?thesis using w1 w2 by blast
qed

lemma fresh_overrides_loosen_witness:
  "\<exists>w1 w2. tenant_write (risk_scopes plain_env) 0 None None empty_weights ''acme'' (''source_weights'', ''feed'') 0 = Some w1
    \<and> tenant_write (risk_scopes plain_env) 0 None None w1 ''acme'' (''deployment_weights'', ''edge'') 0 = Some w2
    \<and> source_delta plain_env (Some (no_failures w2)) (Some ''acme'')
        (bare_agent\<lparr> ra_sources := [''feed''], ra_environment := Some ''edge'' \<rparr>) = Some 0"
proof -
  have "norm (Some ''edge'') ''unknown'' = ''edge''" by (simp add: norm_def py char_class_defs or_else_def)
  then show ?thesis
    using fresh_overrides_loosen [of "''feed''" "''edge''" "''acme''"
        "bare_agent\<lparr> ra_sources := [''feed''], ra_environment := Some ''edge'' \<rparr>" "[]" remdups 0 None None]
    unfolding plain_env_def [symmetric] by (auto simp: SOURCE_WEIGHTS_def DEPLOYMENT_WEIGHTS_def)
qed

section \<open>What scoring raises on\<close>

text \<open>Scoring an agent raises in one case only: it declares an input source and the
  module's source table was replaced by one without an \<open>unknown\<close> entry, whatever the
  tenant's own table holds. Every other failure, of the database, of the delegation
  trust lookup or of a malformed number in a helper, leaves a score (a text field that
  holds another type of value is outside the model).\<close>

theorem score_agent_raises_iff:
  "score_agent now e g db t a = None \<longleftrightarrow>
     ra_sources a \<noteq> [] \<and> map_of (re_source_weights e) ''unknown'' = None"
proof -
  have one: "get_or_unknown w (re_source_weights e) k = None \<longleftrightarrow> map_of (re_source_weights e) ''unknown'' = None" for w k
    by (simp add: get_or_unknown_def split: option.split)
  have "those (map (get_or_unknown w (re_source_weights e)) ss) = None \<longleftrightarrow>
      ss \<noteq> [] \<and> map_of (re_source_weights e) ''unknown'' = None" for w ss
    using one [of w] by (induction ss) (auto split: option.splits)
  then have "source_delta e db t a = None \<longleftrightarrow>
      ra_sources a \<noteq> [] \<and> map_of (re_source_weights e) ''unknown'' = None"
    by (simp add: source_delta_def input_source_weight_def Let_def)
  then show ?thesis by (auto simp: score_agent_def tally_of_def split: option.splits)
qed

section \<open>Definitions that leave fields out\<close>

text \<open>A missing governance mode weighs as much as full autonomy, and fires none of the
  interactions that ask for autonomy.\<close>

lemma missing_loop:
  assumes "ra_loop a = None"
  shows "loop_weight a = loop_weight (a\<lparr> ra_loop := Some ''none'' \<rparr>)"
    and "autonomous_writer_in_prod a fs = Some False" and "classified_autonomous a fs = Some False"
  using assms
  by (simp_all add: loop_weight_def norm_def or_else_def autonomous_writer_in_prod_def classified_autonomous_def
      autonomous_def raw_lower_def and_then_def lower_def)

text \<open>The agent the comments call typical: five reading tools, hybrid governance, nothing else declared.\<close>

definition typical_agent :: risk_agent where
  "typical_agent = granted [''get_a'', ''get_b'', ''list_c'', ''list_d'', ''find_e''] False False
     (bare_agent\<lparr> ra_loop := Some ''hybrid'' \<rparr>)"

lemma typical_weights:
  "loop_weight typical_agent = 10" "prov_weight typical_agent = 10" "model_weight typical_agent = 10"
  "br_score (blast_radius_breakdown typical_agent) = 0" "deployment_weight plain_env None typical_agent = Some 15"
  "ownership_weight typical_agent = 15" "approval_weight 0 typical_agent = 15"
  "lifecycle_weight 0 typical_agent = Some 0" "supply_chain_weight typical_agent = 0"
  "cost_burn_weight typical_agent = Some 0" "citation_weight typical_agent = 0"
  "trust_score_weight 0 typical_agent = 8" "norm (ra_access typical_agent) ''write'' = ''write''"
  "agent_depth None typical_agent = 0" "ra_delegates typical_agent = []" "ra_sources typical_agent = []"
  "ra_override typical_agent = False" "ra_revert typical_agent = False"
proof -
  have "norm (Some ''hybrid'') ''none'' = ''hybrid''" by (simp add: norm_def py char_class_defs or_else_def)
  then show "loop_weight typical_agent = 10" "prov_weight typical_agent = 10" "model_weight typical_agent = 10"
    "br_score (blast_radius_breakdown typical_agent) = 0" "deployment_weight plain_env None typical_agent = Some 15"
    "ownership_weight typical_agent = 15" "approval_weight 0 typical_agent = 15"
    "lifecycle_weight 0 typical_agent = Some 0" "supply_chain_weight typical_agent = 0"
    "cost_burn_weight typical_agent = Some 0" "citation_weight typical_agent = 0"
    "trust_score_weight 0 typical_agent = 8" "norm (ra_access typical_agent) ''write'' = ''write''"
    "agent_depth None typical_agent = 0" "ra_delegates typical_agent = []" "ra_sources typical_agent = []"
    "ra_override typical_agent = False" "ra_revert typical_agent = False"
    by (simp_all add: typical_agent_def granted_def bare_agent_def plain_env_def shipped_env_def norm_consts
        weight_defs agent_depth_def)
qed

lemma typical_tools:
  "agent_classes plain_env typical_agent = []" "agent_caps plain_env typical_agent = []"
  "write_count plain_env typical_agent = 0" "admin_count plain_env typical_agent = 0"
  by code_simp+

lemma typical_agent_critical:
  "\<exists>r. score_agent 0 plain_env None None None typical_agent = Some r \<and> as_additive r = 94
     \<and> as_bucket r = ''critical''"
proof -
  obtain st where st: "tally_of 0 plain_env None None None typical_agent = Some st" "fst st = 94"
    by (simp add: tally_of_def source_delta_def score_permissions_def score_exposure_def score_operations_def
        Let_def typical_weights typical_tools resolved_def sensitivity_weight_def capability_weight_def
        delegation_weight_def delegation_trust_weight_def add_positive_def add_when_def add_nonzero_def
        add_factor_def RISK_BASE_def ACCESS_WRITE_def)
  have "amplifying (re_interactions plain_env)" by (simp add: plain_env_def shipped_env_def amplifying_builtin)
  then have "94 \<le> raw_score plain_env typical_agent st"
    using raw_score_bounds [of plain_env st typical_agent] st(2) by (simp add: clamp100_def)
  then show ?thesis using st by (simp add: score_agent_def finish_score_fields bucket_for_def clamp100_def)
qed

end
