(* ===== verification/Replay.thy ===== *)
theory Replay
  imports RateLimit
begin

text \<open>
  Replay protection (\<open>kya/replay_protection.py\<close>): the nonce check of the write APIs,
  its settings, and what it guarantees over a run of requests. The store is a service
  outside the program, given by its one command \<open>SET key 1 NX EX ttl\<close>; \<open>nx_store\<close> states
  what its documentation promises. The parse of a timestamp is given by its outcome; its
  difference to the clock is a float of seconds in the code, exact to the microsecond
  below 270 years.
\<close>

section \<open>Settings\<close>

definition DEFAULT_MAX_AGE_SECONDS :: int where "DEFAULT_MAX_AGE_SECONDS = 300"
definition MAX_NONCE_LEN :: nat where "MAX_NONCE_LEN = 256"
definition MIN_NONCE_LEN :: nat where "MIN_NONCE_LEN = 8"

definition sanitize_env_segment :: "string \<Rightarrow> string" where
  "sanitize_env_segment s =
     upper (map (\<lambda>c. if is_upper c \<or> is_lower c \<or> is_digit c \<or> c = CHR ''_'' then c else CHR ''_'') s)"

text \<open>The environment: the on/off variable and the numeric ones by name.\<close>

record replay_env =
  ry_flag :: "string option"
  ry_int :: "string \<Rightarrow> env_int"

definition at_least_one :: "env_int \<Rightarrow> int option" where
  "at_least_one v = (case v of Numeric i \<Rightarrow> Some (max 1 i) | _ \<Rightarrow> None)"

definition resolve_max_age :: "replay_env \<Rightarrow> ident \<Rightarrow> int" where
  "resolve_max_age env t =
     (case option_or (if t \<noteq> [] then at_least_one (ry_int env (''KYA_REPLAY_MAX_AGE_SECONDS_'' @ sanitize_env_segment t))
                      else None)
                     (at_least_one (ry_int env ''KYA_REPLAY_MAX_AGE_SECONDS'')) of
        Some n \<Rightarrow> n | None \<Rightarrow> DEFAULT_MAX_AGE_SECONDS)"

definition resolve_enabled :: "replay_env \<Rightarrow> bool" where
  "resolve_enabled env =
     (strip (lower (case ry_flag env of Some v \<Rightarrow> v | None \<Rightarrow> []))
      \<in> set [''on'', ''1'', ''true'', ''yes'', ''enabled''])"

definition is_valid_nonce :: "string \<Rightarrow> bool" where
  "is_valid_nonce n = (MIN_NONCE_LEN \<le> length n \<and> length n \<le> MAX_NONCE_LEN \<and> \<not> list_ex is_space n)"

section \<open>The check\<close>

datatype replay_reason =
    MalformedNonce
  | MalformedTimestamp
  | TimestampSkew instant int
  | NonceAlreadySeen

text \<open>The error carries the nonce cut to 32 characters.\<close>

datatype replay_result =
    Answer bool
  | ReplayDetectedError ident ident string replay_reason
  | MissingArgument string

definition shown_nonce :: "string \<Rightarrow> string" where
  "shown_nonce n = (if 32 < length n then take 32 n @ ''...'' else n)"

text \<open>
  A request: \<open>nr_stamp\<close> is \<open>None\<close> when no timestamp is supplied and \<open>Some None\<close> when
  it does not parse.
\<close>

record nonce_request =
  nr_tenant :: ident
  nr_principal :: ident
  nr_nonce :: string
  nr_stamp :: "instant option option"
  nr_max_age :: "int option"
  nr_hard :: bool
  nr_kind :: string
  nr_db :: bool

definition window :: "replay_env \<Rightarrow> nonce_request \<Rightarrow> int" where
  "window env r = (case nr_max_age r of Some m \<Rightarrow> m | None \<Rightarrow> resolve_max_age env (nr_tenant r))"

definition nonce_key :: "ident \<Rightarrow> ident \<Rightarrow> string \<Rightarrow> string" where
  "nonce_key t p n =
     ''kya:nonce:'' @ nat_text (length t) @ '':'' @ t @ '':'' @ nat_text (length p) @ '':'' @ p @ '':'' @ n"

definition replay_refusal :: "nonce_request \<Rightarrow> string \<Rightarrow> replay_reason \<Rightarrow> replay_result" where
  "replay_refusal r n why =
     (if nr_hard r then ReplayDetectedError (nr_tenant r) (nr_principal r) (shown_nonce n) why else Answer False)"

definition stamp_refusal :: "replay_env \<Rightarrow> nonce_request \<Rightarrow> instant \<Rightarrow> replay_reason option" where
  "stamp_refusal env r now =
     (case nr_stamp r of
        None \<Rightarrow> None
      | Some None \<Rightarrow> Some MalformedTimestamp
      | Some (Some ts) \<Rightarrow>
          if window env r * second < \<bar>now - ts\<bar> then Some (TimestampSkew \<bar>now - ts\<bar> (window env r)) else None)"

text \<open>
  The command answers whether the key was created; \<open>None\<close> is an exception of it. No
  store, or a failing one, accepts the request. The timestamp is compared with the clock at
  \<open>now\<close>; the store is contacted after that and runs the command at \<open>asked\<close>, which is also when the
  time to live starts.
\<close>

type_synonym 'st set_nx = "'st \<Rightarrow> instant \<Rightarrow> string \<Rightarrow> int \<Rightarrow> (bool \<times> 'st) option"

definition verify_request_nonce ::
    "replay_env \<Rightarrow> string list \<Rightarrow> commit list \<Rightarrow> 'st set_nx option \<Rightarrow> instant \<Rightarrow> instant \<Rightarrow> nonce_request \<Rightarrow>
     'st \<Rightarrow> principal_table \<Rightarrow> replay_result \<times> 'st \<times> principal_table" where
  "verify_request_nonce env reg cs store now asked r st tab =
     (if \<not> resolve_enabled env then (Answer True, st, tab)
      else if nr_tenant r = [] then (MissingArgument ''tenant_id'', st, tab)
      else if nr_principal r = [] then (MissingArgument ''principal_id'', st, tab)
      else if \<not> is_valid_nonce (nr_nonce r) then
        (replay_refusal r (or_else (Some (nr_nonce r)) ''<empty>'') MalformedNonce, st, tab)
      else (case stamp_refusal env r now of
        Some why \<Rightarrow> (replay_refusal r (nr_nonce r) why, st, tab)
      | None \<Rightarrow>
          (case store of
             None \<Rightarrow> (Answer True, st, tab)
           | Some set_nx \<Rightarrow>
               (case set_nx st asked (nonce_key (nr_tenant r) (nr_principal r) (nr_nonce r)) (window env r) of
                  None \<Rightarrow> (Answer True, st, tab)
                | Some (True, st') \<Rightarrow> (Answer True, st', tab)
                | Some (False, st') \<Rightarrow>
                    (replay_refusal r (nr_nonce r) NonceAlreadySeen, st',
                     emit_security_event reg cs tab ''replay_detected'' (nr_tenant r) (Some (nr_kind r))
                       (Some (nr_principal r)) ''nonce_already_seen_within_window'' (nr_db r) asked)))))"

section \<open>What the store promises\<close>

text \<open>The key is set iff no live entry has it, with the given time to live; a time to live below one is refused.\<close>

definition nx_store :: "'st set_nx \<Rightarrow> ('st \<Rightarrow> string \<Rightarrow> entry option) \<Rightarrow> bool" where
  "nx_store set_nx view \<longleftrightarrow>
     (\<forall>st now k ttl. ttl \<le> 0 \<longrightarrow> set_nx st now k ttl = None) \<and>
     (\<forall>st now k ttl. 0 < ttl \<longrightarrow> (\<exists>st'. set_nx st now k ttl = Some (live now (view st k) = None, st')
        \<and> view st' = (if live now (view st k) = None then (view st)(k := Some (1, Some (now + ttl * second)))
                      else view st)))"

definition map_nx :: "(string \<Rightarrow> entry option) set_nx" where
  "map_nx st now k ttl =
     (if ttl \<le> 0 then None
      else Some (live now (st k) = None, if live now (st k) = None then st(k := Some (1, Some (now + ttl * second))) else st))"

lemma map_nx_store: "nx_store map_nx id"
  unfolding nx_store_def map_nx_def by (simp del: not_None_eq)

section \<open>Keys\<close>

lemma nat_text_colon:
  assumes "nat_text n @ CHR '':'' # r = nat_text m @ CHR '':'' # r'"
  shows "n = m \<and> r = r'"
proof -
  have t: "takeWhile is_digit (nat_text k @ CHR '':'' # q) = nat_text k" for k q
    using nat_text_digits [of k] by (auto simp: takeWhile_append list_all_iff is_digit_def code_of_def)
  have "nat_text n = nat_text m"
    using arg_cong [OF assms, of "takeWhile is_digit"] by (simp add: t)
  with assms nat_text_inject show ?thesis by auto
qed

lemma sized_segment:
  assumes "nat_text (length s) @ CHR '':'' # s @ CHR '':'' # r = nat_text (length s') @ CHR '':'' # s' @ CHR '':'' # r'"
  shows "s = s' \<and> r = r'"
  using nat_text_colon [OF assms] by auto

text \<open>The nonce key separates identities: two keys agree only for the same tenant,
  principal and nonce, whatever characters these contain, so no identity can use up
  another's nonces.\<close>

theorem nonce_key_inject:
  "nonce_key t p n = nonce_key t' p' n' \<longleftrightarrow> t = t' \<and> p = p' \<and> n = n'"
proof
  assume "nonce_key t p n = nonce_key t' p' n'"
  then have "nat_text (length t) @ CHR '':'' # t @ CHR '':'' # (nat_text (length p) @ CHR '':'' # p @ CHR '':'' # n)
      = nat_text (length t') @ CHR '':'' # t' @ CHR '':'' # (nat_text (length p') @ CHR '':'' # p' @ CHR '':'' # n')"
    by (simp add: nonce_key_def)
  then show "t = t' \<and> p = p' \<and> n = n'"
    using sized_segment by blast
qed simp

section \<open>Runs of requests\<close>

text \<open>The requests of a run in the order in which the store runs their commands, each with
  its reading of the clock and the instant of its command.\<close>

fun run_requests ::
    "replay_env \<Rightarrow> string list \<Rightarrow> 'st set_nx \<Rightarrow> (instant \<times> instant \<times> nonce_request) list \<Rightarrow> 'st \<Rightarrow>
     principal_table \<Rightarrow> replay_result list" where
  "run_requests env reg nx [] st tab = []"
| "run_requests env reg nx ((now, asked, r) # rs) st tab =
     (case verify_request_nonce env reg [] (Some nx) now asked r st tab of
        (a, st', tab') \<Rightarrow> a # run_requests env reg nx rs st' tab')"

definition command_times :: "(instant \<times> instant \<times> nonce_request) list \<Rightarrow> instant list" where
  "command_times rs = map (fst \<circ> snd) rs"

lemma command_times_simps [simp]:
  "command_times [] = []" "command_times (x # rs) = fst (snd x) # command_times rs"
  by (simp_all add: command_times_def)

lemma command_times_nth: "j < length rs \<Longrightarrow> fst (snd (rs ! j)) \<in> set (command_times rs)"
  by (simp add: command_times_def)

lemma length_run_requests [simp]: "length (run_requests env reg nx rs st tab) = length rs"
  by (induction env reg nx rs st tab rule: run_requests.induct) (auto split: prod.splits)

definition request_key :: "nonce_request \<Rightarrow> string" where
  "request_key r = nonce_key (nr_tenant r) (nr_principal r) (nr_nonce r)"

text \<open>A key is held until an instant when its entry lives that long.\<close>

definition held_until :: "(string \<Rightarrow> entry option) \<Rightarrow> string \<Rightarrow> instant \<Rightarrow> bool" where
  "held_until v k x = (\<exists>n. v k = Some (n, Some x))"

lemma live_held: "held_until v k x \<Longrightarrow> now < x \<Longrightarrow> live now (v k) \<noteq> None"
  by (auto simp: held_until_def live_def)

lemma refusal_not_true [simp]: "replay_refusal r n why \<noteq> Answer True"
  by (simp add: replay_refusal_def)

lemma nx_cases:
  assumes "nx_store nx view"
  obtains "ttl \<le> 0" "nx st now k ttl = None"
  | st' where "0 < ttl" "live now (view st k) = None" "nx st now k ttl = Some (True, st')"
      "view st' = (view st)(k := Some (1, Some (now + ttl * second)))"
  | st' where "0 < ttl" "live now (view st k) \<noteq> None" "nx st now k ttl = Some (False, st')" "view st' = view st"
proof (cases "ttl \<le> 0")
  case False
  then obtain st' where st': "nx st now k ttl = Some (live now (view st k) = None, st')"
      "view st' = (if live now (view st k) = None then (view st)(k := Some (1, Some (now + ttl * second))) else view st)"
    using assms unfolding nx_store_def by (meson not_le)
  with False that(2,3) show ?thesis
    by (cases "live now (view st k) = None") auto
qed (use assms that(1) in \<open>simp add: nx_store_def\<close>)

lemma step_view:
  assumes "nx_store nx view" "verify_request_nonce env reg cs (Some nx) now asked r st tab = (a, st', tab')"
  shows "view st' = view st \<or>
    (live asked (view st (request_key r)) = None \<and>
     view st' = (view st)(request_key r := Some (1, Some (asked + window env r * second))))"
  using assms(2)
  by (rule_tac nx_cases [OF assms(1), of "window env r" st asked "request_key r"])
     (auto simp: verify_request_nonce_def request_key_def split: if_splits option.splits)

lemma step_accepts:
  assumes "nx_store nx view" "resolve_enabled env" "1 \<le> window env r"
    and "verify_request_nonce env reg cs (Some nx) now asked r st tab = (Answer True, st', tab')"
  shows "held_until (view st') (request_key r) (asked + window env r * second)"
    and "live asked (view st (request_key r)) = None"
    and "stamp_refusal env r now = None"
  using assms(2-4)
  by (rule_tac [!] nx_cases [OF assms(1), of "window env r" st asked "request_key r"])
     (auto simp: verify_request_nonce_def request_key_def held_until_def split: if_splits option.splits)

lemma step_keeps_held:
  assumes "nx_store nx view" "verify_request_nonce env reg cs (Some nx) now asked r st tab = (a, st', tab')"
    and "held_until (view st) k x" "asked < x"
  shows "held_until (view st') k x"
  using step_view [OF assms(1,2)] assms(3,4) live_held [OF assms(3), of asked] by (auto simp: held_until_def)

text \<open>While a key is held, no request with it is accepted.\<close>

lemma held_blocks:
  assumes "nx_store nx view" "resolve_enabled env" "1 \<le> window env r" "held_until (view st) (request_key r) x" "asked < x"
  shows "fst (verify_request_nonce env reg cs (Some nx) now asked r st tab) \<noteq> Answer True"
proof
  assume "fst (verify_request_nonce env reg cs (Some nx) now asked r st tab) = Answer True"
  then obtain st' tab' where "verify_request_nonce env reg cs (Some nx) now asked r st tab = (Answer True, st', tab')"
    by (metis prod.collapse)
  from step_accepts(2) [OF assms(1-3) this] live_held [OF assms(4,5)] show False by simp
qed

lemma run_held:
  assumes "nx_store nx view" "resolve_enabled env"
    and "held_until (view st) k x" "sorted (command_times rs)" "j < length rs"
    and "rs ! j = (now, asked, r)" "asked < x" "request_key r = k" "1 \<le> window env r"
  shows "run_requests env reg nx rs st tab ! j \<noteq> Answer True"
  using assms(3-6)
proof (induction j arbitrary: rs st tab)
  case 0
  obtain rs' where rs: "rs = (now, asked, r) # rs'" using 0 by (cases rs) auto
  obtain a st' tab' where v: "verify_request_nonce env reg [] (Some nx) now asked r st tab = (a, st', tab')"
    by (metis prod_cases3)
  with held_blocks [OF assms(1,2), of r st x asked reg "[]" now tab] 0 assms(7-9) rs show ?case by simp
next
  case (Suc j)
  obtain now0 at0 r0 rs' where rs: "rs = (now0, at0, r0) # rs'" using Suc.prems by (cases rs) auto
  obtain a st' tab' where v: "verify_request_nonce env reg [] (Some nx) now0 at0 r0 st tab = (a, st', tab')"
    by (metis prod_cases3)
  have "asked \<in> set (command_times rs')" using Suc.prems rs command_times_nth [of j rs'] by simp
  then have "at0 < x" using Suc.prems(2) rs assms(7) by fastforce
  from step_keeps_held [OF assms(1) v Suc.prems(1) this] Suc.IH [of st' rs' tab'] Suc.prems rs v
  show ?case by simp
qed

lemma run_stale:
  assumes "nx_store nx view" "resolve_enabled env" "1 \<le> window env r" "stamp_refusal env r now \<noteq> None"
    and "j < length rs" "rs ! j = (now, asked, r)"
  shows "run_requests env reg nx rs st tab ! j \<noteq> Answer True"
  using assms(5,6)
proof (induction j arbitrary: rs st tab)
  case 0
  then obtain rs' where rs: "rs = (now, asked, r) # rs'" by (cases rs) auto
  have "fst (verify_request_nonce env reg [] (Some nx) now asked r st tab) \<noteq> Answer True"
    using step_accepts(3) [OF assms(1-3)] assms(4) by (metis prod.collapse)
  then show ?case by (auto simp: rs split: prod.split)
next
  case (Suc k)
  then obtain x rs' where "rs = x # rs'" by (cases rs) auto
  with Suc show ?case by (cases x) (auto split: prod.split)
qed

text \<open>With the protection off, which it is unless the environment switches it on, every
  request is accepted, any number of times.\<close>

lemma off_accepts:
  assumes "\<not> resolve_enabled env" "j < length rs"
  shows "run_requests env reg nx rs st tab ! j = Answer True"
  using assms(2)
proof (induction j arbitrary: rs st tab)
  case 0
  then obtain x rs' where "rs = x # rs'" by (cases rs) auto
  then show ?case using assms(1) by (cases x) (simp add: verify_request_nonce_def)
next
  case (Suc k)
  then obtain x rs' where "rs = x # rs'" by (cases rs) auto
  with Suc show ?case by (cases x) (auto split: prod.split)
qed

lemma off_by_default: "ry_flag env = None \<Longrightarrow> \<not> resolve_enabled env"
  by (simp add: resolve_enabled_def strip_def lower_def)

lemma accepted_once_on:
  assumes "nx_store nx view" and "resolve_enabled env" and "sorted (command_times rs)"
    and "i < j" and "j < length rs"
    and "rs ! i = (now, asked, r)" and "rs ! j = (now', asked', r')"
    and "request_key r' = request_key r" and "1 \<le> window env r'" and "window env r' \<le> window env r"
    and "nr_stamp r' = Some (Some ts)" and "ts + (asked' - now') < asked"
    and "run_requests env reg nx rs st tab ! i = Answer True"
  shows "run_requests env reg nx rs st tab ! j \<noteq> Answer True"
  using assms(3-7,13)
proof (induction i arbitrary: rs j st tab)
  case 0
  obtain rs' where rs: "rs = (now, asked, r) # rs'" using 0 by (cases rs) auto
  obtain j' where j: "j = Suc j'" using 0 by (cases j) auto
  obtain a st' tab' where v: "verify_request_nonce env reg [] (Some nx) now asked r st tab = (a, st', tab')"
    by (metis prod_cases3)
  have a: "a = Answer True" using 0 rs v by simp
  have win: "1 \<le> window env r" using assms(9,10) by linarith
  have held: "held_until (view st') (request_key r) (asked + window env r * second)"
    using step_accepts(1) [OF assms(1,2) win v [unfolded a]] .
  have jlen: "j' < length rs'" and rj: "rs' ! j' = (now', asked', r')" and srt: "sorted (command_times rs')"
    using 0 rs j by auto
  have "run_requests env reg nx rs' st' tab' ! j' \<noteq> Answer True"
  proof (cases "asked' < asked + window env r * second")
    case True
    then show ?thesis by (rule run_held [OF assms(1,2) held srt jlen rj _ assms(8,9)])
  next
    case False
    have "window env r' * second \<le> window env r * second" using assms(10) by (simp add: second_def)
    then have "window env r' * second < \<bar>now' - ts\<bar>" using False assms(12) by linarith
    then have "stamp_refusal env r' now' \<noteq> None" using assms(11) by (simp add: stamp_refusal_def)
    then show ?thesis by (rule run_stale [OF assms(1,2,9) _ jlen rj])
  qed
  then show ?case using rs j v by simp
next
  case (Suc i)
  obtain now0 at0 r0 rs' where rs: "rs = (now0, at0, r0) # rs'" using Suc.prems by (cases rs) auto
  obtain j' where j: "j = Suc j'" using Suc.prems by (cases j) auto
  obtain a st' tab' where v: "verify_request_nonce env reg [] (Some nx) now0 at0 r0 st tab = (a, st', tab')"
    by (metis prod_cases3)
  show ?case using Suc.IH [of rs' j' st' tab'] Suc.prems rs j v by simp
qed

text \<open>C30. When a request is accepted a second time. In a run against a store that answers, let the
  \<open>i\<close>-th request be accepted, and let a later one of the same tenant and principal carry the
  same nonce, be checked with a window of at least a second and no longer than the first one's,
  and be stamped before the first one's reservation by more than the time that passes between
  its own reading of the clock and its command on the store. Then it is accepted exactly when
  the protection is not switched on, however much time has passed; and without the
  environment variable it is not.\<close>

theorem accepted_once:
  assumes "nx_store nx view" and "sorted (command_times rs)" and "i < j" and "j < length rs"
    and "rs ! i = (now, asked, r)" and "rs ! j = (now', asked', r')"
    and "nr_tenant r' = nr_tenant r" and "nr_principal r' = nr_principal r" and "nr_nonce r' = nr_nonce r"
    and "1 \<le> window env r'" and "window env r' \<le> window env r"
    and "nr_stamp r' = Some (Some ts)" and "ts + (asked' - now') < asked"
    and "run_requests env reg nx rs st tab ! i = Answer True"
  shows "(run_requests env reg nx rs st tab ! j = Answer True \<longleftrightarrow> \<not> resolve_enabled env)
    \<and> (ry_flag env = None \<longrightarrow> \<not> resolve_enabled env)"
proof -
  have "request_key r' = request_key r" using assms(7-9) by (simp add: request_key_def)
  then have "resolve_enabled env \<Longrightarrow> run_requests env reg nx rs st tab ! j \<noteq> Answer True"
    using accepted_once_on [OF assms(1) _ assms(2-6) _ assms(10-14)] by blast
  then show ?thesis using off_accepts [OF _ assms(4)] off_by_default [of env] by (cases "resolve_enabled env") auto
qed

definition guarded_env :: replay_env where
  "guarded_env = \<lparr> ry_flag = Some ''On '', ry_int = (\<lambda>v. if v = ''KYA_REPLAY_MAX_AGE_SECONDS_ACME_1'' then Numeric 60 else Unset) \<rparr>"

lemma guarded_env_on: "resolve_enabled guarded_env"
  by code_simp

definition sample_request :: "instant \<Rightarrow> nonce_request" where
  "sample_request ts = \<lparr> nr_tenant = ''acme-1'', nr_principal = ''spiffe:x'', nr_nonce = ''0123456789'',
     nr_stamp = Some (Some ts), nr_max_age = None, nr_hard = False, nr_kind = ''user'', nr_db = False \<rparr>"

lemma sample_window: "window guarded_env (sample_request ts) = 60"
proof -
  have "resolve_max_age guarded_env ''acme-1'' = 60" by code_simp
  then show ?thesis by (simp add: window_def sample_request_def)
qed

lemma sample_first:
  assumes "\<bar>now - ts\<bar> \<le> 60 * second" "live asked (st (request_key (sample_request ts))) = None"
  shows "verify_request_nonce guarded_env reg cs (Some map_nx) now asked (sample_request ts) st tab =
    (Answer True, st(request_key (sample_request ts) := Some (1, Some (asked + 60 * second))), tab)"
proof -
  have "is_valid_nonce ''0123456789''"
    by (simp add: is_valid_nonce_def MIN_NONCE_LEN_def MAX_NONCE_LEN_def is_space_def code_of_def)
  with assms show ?thesis
    using guarded_env_on sample_window [of ts]
    by (simp add: verify_request_nonce_def stamp_refusal_def map_nx_def request_key_def sample_request_def)
qed

definition sample_run :: "(instant \<times> instant \<times> nonce_request) list" where
  "sample_run = [(5, 6, sample_request 3), (9, 11, sample_request 3)]"

lemma accepted_once_witness:
  "run_requests guarded_env [''user''] map_nx sample_run Map.empty [] ! 0 = Answer True
   \<and> run_requests guarded_env [''user''] map_nx sample_run Map.empty [] ! 1 \<noteq> Answer True"
proof -
  have first: "run_requests guarded_env [''user''] map_nx sample_run Map.empty [] ! 0 = Answer True"
    by (simp add: sample_run_def sample_first live_def second_def)
  then show ?thesis
    using accepted_once [OF map_nx_store, of sample_run 0 1 5 6 "sample_request 3" 9 11 "sample_request 3" guarded_env 3]
      sample_window [of 3] guarded_env_on
    by (simp add: sample_run_def) (simp add: sample_request_def)
qed

text \<open>Who gets through twice. The reservation of a nonce lasts a window from its command on
  the store; the same request is accepted again, unchanged, whenever the clock is read while
  its stamp is still within the window and the command runs after the reservation has ended.\<close>

lemma accepted_again:
  assumes "nx_store nx view" and "resolve_enabled env"
    and "nr_tenant r \<noteq> []" and "nr_principal r \<noteq> []" and "is_valid_nonce (nr_nonce r)"
    and "1 \<le> window env r" and "nr_stamp r = Some (Some ts)"
    and "\<bar>now - ts\<bar> \<le> window env r * second" and "\<bar>now' - ts\<bar> \<le> window env r * second"
    and "asked + window env r * second \<le> asked'"
    and "live asked (view st (request_key r)) = None"
  shows "run_requests env reg nx [(now, asked, r), (now', asked', r)] st tab = [Answer True, Answer True]"
proof -
  have fresh: "stamp_refusal env r now = None" "stamp_refusal env r now' = None"
    using assms(7-9) by (simp_all add: stamp_refusal_def)
  have ok: "live n (view s (request_key r)) = None \<Longrightarrow> stamp_refusal env r c = None \<Longrightarrow>
      \<exists>s'. verify_request_nonce env reg [] (Some nx) c n r s tab = (Answer True, s', tab)
        \<and> view s' = (view s)(request_key r := Some (1, Some (n + window env r * second)))" for c n s
    using assms(2-6)
    by (rule_tac nx_cases [OF assms(1), of "window env r" s n "request_key r"])
       (auto simp: verify_request_nonce_def request_key_def)
  obtain s1 where s1: "verify_request_nonce env reg [] (Some nx) now asked r st tab = (Answer True, s1, tab)"
      "view s1 = (view st)(request_key r := Some (1, Some (asked + window env r * second)))"
    using ok [OF assms(11) fresh(1)] by blast
  have "live asked' (view s1 (request_key r)) = None"
    using assms(10) by (simp add: s1(2) live_def)
  from ok [OF this fresh(2)] s1(1) show ?thesis by auto
qed

text \<open>A request stamped in the future is such a request: the window reaches as far into the
  future as into the past, so one stamped up to a window after its first acceptance outlives
  its reservation, with no delay at all.\<close>

theorem future_stamp_accepted_twice:
  assumes "nx_store nx view" and "resolve_enabled env"
    and "nr_tenant r \<noteq> []" and "nr_principal r \<noteq> []" and "is_valid_nonce (nr_nonce r)"
    and "1 \<le> window env r" and "nr_stamp r = Some (Some ts)"
    and "now < ts" and "ts \<le> now + window env r * second"
    and "now + window env r * second \<le> now'" and "now' \<le> ts + window env r * second"
    and "live now (view st (request_key r)) = None"
  shows "run_requests env reg nx [(now, now, r), (now', now', r)] st tab = [Answer True, Answer True]"
  by (rule accepted_again [OF assms(1-7) _ _ assms(10,12)])
    (use assms(6,8-11) in \<open>auto simp: abs_if second_def\<close>)

lemma future_stamp_accepted_twice_witness:
  "run_requests guarded_env [''user''] map_nx
     [(0, 0, sample_request 30000000), (60000000, 60000000, sample_request 30000000)] Map.empty [] = [Answer True, Answer True]"
proof (rule future_stamp_accepted_twice [OF map_nx_store guarded_env_on])
  show "is_valid_nonce (nr_nonce (sample_request 30000000))"
    by (simp add: sample_request_def is_valid_nonce_def MIN_NONCE_LEN_def MAX_NONCE_LEN_def is_space_def code_of_def)
  show "nr_stamp (sample_request 30000000) = Some (Some 30000000)" by (simp add: sample_request_def)
qed (simp_all add: sample_window second_def live_def, simp_all add: sample_request_def)

text \<open>So is a request that waits for the store: stamped and first accepted at one instant,
  read again while the stamp is within the window, its command reaching the store when the reservation is over.\<close>

theorem late_command_accepted_twice:
  assumes "nx_store nx view" and "resolve_enabled env"
    and "nr_tenant r \<noteq> []" and "nr_principal r \<noteq> []" and "is_valid_nonce (nr_nonce r)"
    and "1 \<le> window env r" and "nr_stamp r = Some (Some now)"
    and "now \<le> now'" and "now' \<le> now + window env r * second" and "now + window env r * second \<le> asked'"
    and "live now (view st (request_key r)) = None"
  shows "run_requests env reg nx [(now, now, r), (now', asked', r)] st tab = [Answer True, Answer True]"
  by (rule accepted_again [OF assms(1-7) _ _ assms(10,11)]) (use assms(6,8,9) in \<open>auto simp: second_def\<close>)

lemma late_command_accepted_twice_witness:
  "run_requests guarded_env [''user''] map_nx
     [(0, 0, sample_request 0), (59999999, 60000000, sample_request 0)] Map.empty [] = [Answer True, Answer True]"
proof (rule late_command_accepted_twice [OF map_nx_store guarded_env_on])
  show "is_valid_nonce (nr_nonce (sample_request 0))"
    by (simp add: sample_request_def is_valid_nonce_def MIN_NONCE_LEN_def MAX_NONCE_LEN_def is_space_def code_of_def)
  show "nr_stamp (sample_request 0) = Some (Some 0)" by (simp add: sample_request_def)
qed (simp_all add: sample_window second_def live_def, simp_all add: sample_request_def)

text \<open>A window below one second, given explicitly, switches the uniqueness check off.\<close>

lemma empty_window_accepts:
  assumes "nx_store nx view" "resolve_enabled env" "nr_tenant r \<noteq> []" "nr_principal r \<noteq> []"
    "is_valid_nonce (nr_nonce r)" "nr_stamp r = None" "window env r \<le> 0"
  shows "verify_request_nonce env reg cs (Some nx) now asked r st tab = (Answer True, st, tab)"
  using assms by (simp add: verify_request_nonce_def stamp_refusal_def nx_store_def)

end
