(* ===== verification/Rogue.thy ===== *)
theory Rogue
  imports Principals Floats
begin

text \<open>
  Rogue-agent signals (\<open>kya/rogue.py\<close>): the four recorders, each of which mirrors an
  event onto the trust rows of the subject agent, the invoking user and the calling
  agent and bumps a process counter; the report read back for an agent, its score, and
  the anomalies shown for it. Tracing, realtime windows and logging are left out.
\<close>

section \<open>State\<close>

text \<open>A Prometheus counter: its samples by label values, in order of creation.\<close>

type_synonym samples = "(string list \<times> int) list"

definition inc_sample :: "string list \<Rightarrow> samples \<Rightarrow> samples" where
  "inc_sample ls c = AList.update ls ((case map_of c ls of Some n \<Rightarrow> n | None \<Rightarrow> 0) + 1) c"

text \<open>The counters of the process; the refusals and the governance gate are bumped elsewhere.\<close>

record counters =
  ct_refusals :: samples
  ct_oos :: samples
  ct_leak :: samples
  ct_gate :: samples
  ct_xtenant :: samples
  ct_violation :: samples

record rogue_world =
  rw_principals :: principal_table
  rw_users :: user_table
  rw_counters :: "counters option"

text \<open>
  What the environment does to one event: whether a session factory is configured,
  whether the legacy user table accepts the write, and how the database answers the
  commits of each of the three mirrors.
\<close>

record mirror_io =
  mi_session :: bool
  mi_legacy_ok :: bool
  mi_agent :: "commit list"
  mi_user :: "commit list"
  mi_actor :: "commit list"

section \<open>Mirrors\<close>

definition persist_principal_signal ::
    "string list \<Rightarrow> bool \<Rightarrow> commit list \<Rightarrow> instant \<Rightarrow> ident \<Rightarrow> string \<Rightarrow> ident option \<Rightarrow> string \<Rightarrow>
     principal_table \<Rightarrow> principal_table" where
  "persist_principal_signal reg session cs now t kind pid sk tab =
     (if \<not> truthy pid \<or> \<not> session then tab
      else snd (record_principal_signal reg cs tab (t, kind, the pid) sk None [] None True None now))"

definition emit_agent_signal ::
    "string list \<Rightarrow> mirror_io \<Rightarrow> instant \<Rightarrow> ident \<Rightarrow> ident option \<Rightarrow> string \<Rightarrow> rogue_world \<Rightarrow> rogue_world" where
  "emit_agent_signal reg io now t agent sk w =
     w\<lparr> rw_principals :=
       persist_principal_signal reg (mi_session io) (mi_agent io) now t ''agent'' agent sk (rw_principals w) \<rparr>"

text \<open>The user's event goes to the legacy table, whose failure is swallowed, and to the principal table.\<close>

definition emit_user_signal ::
    "string list \<Rightarrow> mirror_io \<Rightarrow> instant \<Rightarrow> ident \<Rightarrow> ident option \<Rightarrow> string \<Rightarrow> rogue_world \<Rightarrow> rogue_world" where
  "emit_user_signal reg io now t user sk w =
     (if \<not> truthy user \<or> \<not> mi_session io then w
      else w\<lparr> rw_users := (if mi_legacy_ok io then snd (record_user_signal (rw_users w) t (the user) sk now)
                            else rw_users w),
              rw_principals :=
                snd (record_principal_signal reg (mi_user io) (rw_principals w) (t, ''user'', the user) sk
                      None [] None True None now) \<rparr>)"

text \<open>The subject and the actor are one principal when their keys agree up to blanks.\<close>

definition same_agent :: "ident option \<Rightarrow> ident option \<Rightarrow> bool" where
  "same_agent subject actor =
     (case (subject, actor) of (Some s, Some a) \<Rightarrow> strip a = strip s | _ \<Rightarrow> False)"

definition emit_actor_agent_signal ::
    "string list \<Rightarrow> mirror_io \<Rightarrow> instant \<Rightarrow> ident \<Rightarrow> ident option \<Rightarrow> ident option \<Rightarrow> string \<Rightarrow>
     rogue_world \<Rightarrow> rogue_world" where
  "emit_actor_agent_signal reg io now t actor subject sk w =
     (if same_agent subject actor then w
      else w\<lparr> rw_principals :=
        persist_principal_signal reg (mi_session io) (mi_actor io) now t ''agent'' actor sk (rw_principals w) \<rparr>)"

definition mirror_event ::
    "string list \<Rightarrow> mirror_io \<Rightarrow> instant \<Rightarrow> ident \<Rightarrow> string \<Rightarrow> ident option \<Rightarrow> ident option \<Rightarrow> ident option \<Rightarrow>
     rogue_world \<Rightarrow> rogue_world" where
  "mirror_event reg io now t sk agent user actor w =
     emit_actor_agent_signal reg io now t actor agent sk
       (emit_user_signal reg io now t user sk (emit_agent_signal reg io now t agent sk w))"

section \<open>Recorders\<close>

definition bump_counter :: "(counters \<Rightarrow> counters) \<Rightarrow> rogue_world \<Rightarrow> rogue_world" where
  "bump_counter f w = w\<lparr> rw_counters := map_option f (rw_counters w) \<rparr>"

definition record_data_leak ::
    "string list \<Rightarrow> mirror_io \<Rightarrow> instant \<Rightarrow> ident option \<Rightarrow> string option \<Rightarrow> ident \<Rightarrow> ident option \<Rightarrow>
     ident option \<Rightarrow> rogue_world \<Rightarrow> rogue_world" where
  "record_data_leak reg io now agent data_class t user actor w =
     bump_counter (\<lambda>c. c\<lparr> ct_leak := inc_sample
         [or_else agent ''unknown'', or_else data_class ''unknown'', or_else (Some t) ''unknown''] (ct_leak c) \<rparr>)
       (mirror_event reg io now t ''data_leak'' agent user actor w)"

definition record_oos_tool_attempt ::
    "string list \<Rightarrow> mirror_io \<Rightarrow> instant \<Rightarrow> ident option \<Rightarrow> string option \<Rightarrow> ident \<Rightarrow> ident option \<Rightarrow>
     ident option \<Rightarrow> rogue_world \<Rightarrow> rogue_world" where
  "record_oos_tool_attempt reg io now agent tool t user actor w =
     bump_counter (\<lambda>c. c\<lparr> ct_oos := inc_sample
         [or_else agent ''unknown'', or_else tool ''unknown'', or_else (Some t) ''unknown''] (ct_oos c) \<rparr>)
       (mirror_event reg io now t ''oos_tool'' agent user actor w)"

text \<open>A cross-tenant attempt is charged in the agent's own (expected) tenant.\<close>

definition record_cross_tenant_attempt ::
    "string list \<Rightarrow> mirror_io \<Rightarrow> instant \<Rightarrow> ident option \<Rightarrow> ident \<Rightarrow> ident \<Rightarrow> ident option \<Rightarrow>
     ident option \<Rightarrow> rogue_world \<Rightarrow> rogue_world" where
  "record_cross_tenant_attempt reg io now agent expected actual user actor w =
     bump_counter (\<lambda>c. c\<lparr> ct_xtenant := inc_sample
         [or_else agent ''unknown'', or_else (Some expected) ''unknown'', or_else (Some actual) ''unknown'']
         (ct_xtenant c) \<rparr>)
       (mirror_event reg io now expected ''cross_tenant'' agent user actor w)"

definition VALID_PV_SEVERITIES :: "string list" where
  "VALID_PV_SEVERITIES = [''low'', ''medium'', ''high'', ''critical'']"

definition record_policy_violation ::
    "string list \<Rightarrow> mirror_io \<Rightarrow> instant \<Rightarrow> ident option \<Rightarrow> string option \<Rightarrow> ident \<Rightarrow> string \<Rightarrow> ident option \<Rightarrow>
     ident option \<Rightarrow> string option \<Rightarrow> rogue_world \<Rightarrow> rogue_world" where
  "record_policy_violation reg io now agent vkind t severity user actor source w =
     (let sev = (if severity \<in> set VALID_PV_SEVERITIES then severity else ''medium'')
      in bump_counter (\<lambda>c. c\<lparr> ct_violation := inc_sample
             [or_else agent ''unknown'', or_else vkind ''unknown'', sev, or_else source ''observed'',
              or_else (Some t) ''unknown''] (ct_violation c) \<rparr>)
           (mirror_event reg io now t ''policy_violation'' agent user actor w))"

section \<open>The report\<close>

record rogue_report =
  rr_refusals :: int
  rr_oos :: int
  rr_blocks :: int
  rr_xtenant :: int
  rr_leaks :: int
  rr_violations :: int
  rr_top_tools :: "(string \<times> int) list"
  rr_classes :: "(string \<times> int) list"
  rr_kinds :: "(string \<times> int) list"

definition empty_report :: rogue_report where
  "empty_report = \<lparr> rr_refusals = 0, rr_oos = 0, rr_blocks = 0, rr_xtenant = 0, rr_leaks = 0, rr_violations = 0,
     rr_top_tools = [], rr_classes = [], rr_kinds = [] \<rparr>"

definition report_total :: "rogue_report \<Rightarrow> int" where
  "report_total r = rr_refusals r + rr_oos r + rr_blocks r + rr_xtenant r + rr_leaks r + rr_violations r"

definition is_rogue :: "rogue_report \<Rightarrow> bool" where
  "is_rogue r = (0 < report_total r)"

text \<open>\<open>counts.get(a, 0) or counts.get(b, 0)\<close>: the older plural name is read only when the new one has no count.\<close>

definition count_or :: "counts \<Rightarrow> string \<Rightarrow> string \<Rightarrow> int" where
  "count_or cs a b = (if count_of cs a \<noteq> 0 then count_of cs a else count_of cs b)"

definition report_of_counts :: "counts \<Rightarrow> rogue_report \<Rightarrow> rogue_report" where
  "report_of_counts cs r =
     (if cs = [] then r
      else r\<lparr> rr_refusals := count_or cs ''rbac_refusal'' ''rbac_refusals'',
              rr_oos := count_or cs ''oos_tool'' ''oos_tool_attempts'',
              rr_blocks := count_or cs ''governance_block'' ''governance_blocks'',
              rr_xtenant := count_or cs ''cross_tenant'' ''cross_tenant_attempts'',
              rr_leaks := count_or cs ''data_leak'' ''data_leaks'',
              rr_violations := count_or cs ''policy_violation'' ''policy_violations'' \<rparr>)"

text \<open>The samples of an agent, as pairs of the second label and the value.\<close>

definition agent_samples :: "string \<Rightarrow> samples \<Rightarrow> (string \<times> int) list" where
  "agent_samples agent c = map (\<lambda>(ls, n). (ls ! 1, n)) (filter (\<lambda>(ls, n). ls ! 0 = agent) c)"

definition tally_samples :: "(string \<times> int) list \<Rightarrow> (string \<times> int) list \<Rightarrow> (string \<times> int) list" where
  "tally_samples ss acc =
     fold (\<lambda>(k, v) d. AList.update k ((case map_of d k of Some n \<Rightarrow> n | None \<Rightarrow> 0) + v) d) ss acc"

text \<open>Without a database the totals come from the counters too (\<open>live\<close>).\<close>

definition scrape :: "string \<Rightarrow> bool \<Rightarrow> counters \<Rightarrow> rogue_report \<Rightarrow> rogue_report" where
  "scrape agent live c r =
     (let refusals = agent_samples agent (ct_refusals c); oos = agent_samples agent (ct_oos c);
          leaks = agent_samples agent (ct_leak c); kinds = agent_samples agent (ct_violation c);
          blocks = filter (\<lambda>(v, n). v = ''block'') (agent_samples agent (ct_gate c));
          xt = agent_samples agent (ct_xtenant c);
          total = (\<lambda>ss. if live then sum_list (map snd ss) else 0);
          tools = tally_samples oos (tally_samples refusals [])
      in r\<lparr> rr_refusals := rr_refusals r + total refusals, rr_oos := rr_oos r + total oos,
            rr_blocks := rr_blocks r + total blocks, rr_xtenant := rr_xtenant r + total xt,
            rr_leaks := rr_leaks r + total leaks, rr_violations := rr_violations r + total kinds,
            rr_classes := tally_samples leaks [], rr_kinds := tally_samples kinds [],
            rr_top_tools := take 5 (sort_key (\<lambda>x. - snd x) (filter (\<lambda>x. 0 < snd x) tools)) \<rparr>)"

text \<open>The read of the row is authoritative when a database and a tenant are given; it may fail.\<close>

definition get_rogue_signals ::
    "string \<Rightarrow> (bool \<times> principal_table) option \<Rightarrow> ident option \<Rightarrow> counters option \<Rightarrow> rogue_report" where
  "get_rogue_signals agent db t counters =
     (let report = (case db of
            Some (True, tab) \<Rightarrow>
              if truthy t then report_of_counts (pt_counts (get_principal_trust tab (the t, ''agent'', agent))) empty_report
              else empty_report
          | _ \<Rightarrow> empty_report);
          live = (db = None \<or> \<not> truthy t)
      in (case counters of None \<Rightarrow> report | Some c \<Rightarrow> scrape agent live c report))"

section \<open>Score and anomalies\<close>

definition PER_RBAC_REFUSAL :: int where "PER_RBAC_REFUSAL = 2"
definition PER_OOS_ATTEMPT :: int where "PER_OOS_ATTEMPT = 3"
definition PER_GOV_BLOCK :: int where "PER_GOV_BLOCK = 1"
definition PER_XTENANT :: int where "PER_XTENANT = 15"
definition PER_DATA_LEAK :: int where "PER_DATA_LEAK = 10"
definition PER_POLICY_VIOLATION :: int where "PER_POLICY_VIOLATION = 8"
definition ROGUE_CAP :: int where "ROGUE_CAP = 50"

definition rogue_score :: "rogue_report \<Rightarrow> int" where
  "rogue_score r =
     min ROGUE_CAP (PER_RBAC_REFUSAL * rr_refusals r + PER_OOS_ATTEMPT * rr_oos r + PER_GOV_BLOCK * rr_blocks r
       + PER_XTENANT * rr_xtenant r + PER_DATA_LEAK * rr_leaks r + PER_POLICY_VIOLATION * rr_violations r)"

record anomaly =
  an_severity :: string
  an_code :: string
  an_count :: int

definition rate :: "int \<Rightarrow> int \<Rightarrow> rat" where
  "rate n calls = (if 0 < calls then fdiv (of_int n) (of_int calls) else 0)"

definition when_anomaly :: "bool \<Rightarrow> string \<Rightarrow> string \<Rightarrow> int \<Rightarrow> anomaly list" where
  "when_anomaly b sev code n = (if b then [\<lparr> an_severity = sev, an_code = code, an_count = n \<rparr>] else [])"

definition get_anomalies :: "rogue_report \<Rightarrow> int \<Rightarrow> int \<Rightarrow> int option \<Rightarrow> anomaly list" where
  "get_anomalies r calls errors incidents =
     when_anomaly (0 < rr_xtenant r) ''critical'' ''cross_tenant_attempt'' (rr_xtenant r)
     @ when_anomaly (0 < rr_leaks r) ''critical'' ''data_leak'' (rr_leaks r)
     @ when_anomaly (0 < rr_oos r) ''warning'' ''out_of_scope_tools'' (rr_oos r)
     @ when_anomaly (10 \<le> calls \<and> fl (1 / 10) < rate (rr_refusals r) calls) ''warning'' ''high_refusal_rate'' (rr_refusals r)
     @ when_anomaly (10 \<le> calls \<and> fl (2 / 10) < rate errors calls) ''warning'' ''high_error_rate'' errors
     @ when_anomaly (5 \<le> rr_blocks r) ''warning'' ''governance_block_burst'' (rr_blocks r)
     @ (case incidents of Some n \<Rightarrow> when_anomaly (0 < n) ''critical'' ''tenant_critical_incident'' n | None \<Rightarrow> [])"

end
