(* ===== verification/RogueFacts.thy ===== *)
theory RogueFacts
  imports Rogue
begin

text \<open>
  What a recorded event does to trust and what the report reads back: every principal
  an event is attributed to moves exactly once, the report of an agent counts its
  history, and counts kept under the older names vanish at the first new event.
\<close>

section \<open>One event\<close>

text \<open>An environment without failures, and the kinds the mirrors write.\<close>

definition calm :: mirror_io where
  "calm = \<lparr> mi_session = True, mi_legacy_ok = True, mi_agent = [], mi_user = [], mi_actor = [] \<rparr>"

definition mirror_kinds :: "string list \<Rightarrow> bool" where
  "mirror_kinds reg = (is_valid_principal_kind reg ''agent'' \<and> is_valid_principal_kind reg ''user'')"

definition attributed :: "ident \<Rightarrow> ident option \<Rightarrow> ident option \<Rightarrow> ident option \<Rightarrow> principal_key list" where
  "attributed t agent user actor =
     (if truthy agent then [(t, ''agent'', the agent)] else [])
     @ (if truthy user then [(t, ''user'', the user)] else [])
     @ (if truthy actor \<and> \<not> same_agent agent actor then [(t, ''agent'', the actor)] else [])"

lemma attributed_distinct: "distinct (attributed t agent user actor)"
  by (cases agent; cases actor) (auto simp: attributed_def same_agent_def)

definition add_count :: "principal_key list \<Rightarrow> string \<Rightarrow> principal_key \<Rightarrow> string \<Rightarrow> int" where
  "add_count ks sk k c = (if k \<in> set ks \<and> c = sk then 1 else 0)"

lemma signal_counts:
  assumes "is_valid_principal_kind reg kind"
  shows "principal_count (snd (record_principal_signal reg [] tab (t, kind, pid) sk actor ats occ True ovr now)) k c
      = principal_count tab k c + add_count [(t, kind, pid)] sk k c"
    and "principal_score (snd (record_principal_signal reg [] tab (t, kind, pid) sk actor ats occ True None now)) k
      = (if k = (t, kind, pid) then apply_delta (principal_score tab k) (signal_delta sk) else principal_score tab k)"
proof -
  have step: "principal_count (snd (record_principal_signal reg [] tab (t, kind, pid) sk actor ats occ True ov now)) k c
      = principal_count tab k c + add_count [(t, kind, pid)] sk k c
    \<and> principal_score (snd (record_principal_signal reg [] tab (t, kind, pid) sk actor ats occ True ov now)) k
      = (if k = (t, kind, pid) then apply_delta (principal_score tab k) (principal_delta sk ov) else principal_score tab k)" for ov
  proof -
    let ?a = "signal_call sk actor ats occ True ov now"
    obtain s tab' where p: "signal_pass tab (t, kind, pid) ?a now = Some (s, tab')"
      using signal_pass_None [of tab "(t, kind, pid)" ?a now] by fastforce
    then have "snd (record_principal_signal reg [] tab (t, kind, pid) sk actor ats occ True ov now) = tab'"
      using assms by (simp add: record_principal_signal_def signal_loop.simps coerce_kind_def)
    then show ?thesis
      using signal_pass_score [OF p] signal_pass_other [OF p, of k]
      by (auto simp: add_count_def principal_count_find principal_score_find)
  qed
  show "principal_count (snd (record_principal_signal reg [] tab (t, kind, pid) sk actor ats occ True ovr now)) k c
      = principal_count tab k c + add_count [(t, kind, pid)] sk k c"
    using step by blast
  show "principal_score (snd (record_principal_signal reg [] tab (t, kind, pid) sk actor ats occ True None now)) k
      = (if k = (t, kind, pid) then apply_delta (principal_score tab k) (signal_delta sk) else principal_score tab k)"
    using step [of None] by (simp add: principal_delta_def)
qed

definition signalled :: "principal_table \<Rightarrow> principal_table \<Rightarrow> principal_key list \<Rightarrow> string \<Rightarrow> bool" where
  "signalled tab tab' ks sk =
     (\<forall>k. (\<forall>c. principal_count tab' k c = principal_count tab k c + add_count ks sk k c)
        \<and> principal_score tab' k =
            (if k \<in> set ks then apply_delta (principal_score tab k) (signal_delta sk) else principal_score tab k))"

lemma signalled_nil: "signalled tab tab [] sk"
  by (simp add: signalled_def add_count_def)

lemma signalled_append:
  assumes "signalled tab tab1 ks sk" "signalled tab1 tab2 ls sk" "set ks \<inter> set ls = {}"
  shows "signalled tab tab2 (ks @ ls) sk"
  using assms by (auto simp: signalled_def add_count_def)

lemma persist_signalled:
  assumes "is_valid_principal_kind reg kind"
  shows "signalled tab (persist_principal_signal reg True [] now t kind pid sk tab)
    (if truthy pid then [(t, kind, the pid)] else []) sk"
  using signal_counts [OF assms]
  by (auto simp: persist_principal_signal_def signalled_nil) (auto simp: signalled_def)

lemma mirror_principals:
  "rw_principals (mirror_event reg calm now t sk agent user actor w) =
     (let p1 = persist_principal_signal reg True [] now t ''agent'' agent sk (rw_principals w);
          p2 = persist_principal_signal reg True [] now t ''user'' user sk p1
      in if same_agent agent actor then p2
         else persist_principal_signal reg True [] now t ''agent'' actor sk p2)"
  by (simp add: mirror_event_def emit_agent_signal_def emit_user_signal_def emit_actor_agent_signal_def
      persist_principal_signal_def calm_def Let_def)

lemma mirror_signalled:
  assumes "mirror_kinds reg"
  shows "signalled (rw_principals w) (rw_principals (mirror_event reg calm now t sk agent user actor w))
    (attributed t agent user actor) sk"
proof -
  note k = assms [unfolded mirror_kinds_def]
  define p1 where "p1 = persist_principal_signal reg True [] now t ''agent'' agent sk (rw_principals w)"
  define p2 where "p2 = persist_principal_signal reg True [] now t ''user'' user sk p1"
  let ?a = "if truthy agent then [(t, ''agent'', the agent)] else []"
  let ?u = "if truthy user then [(t, ''user'', the user)] else []"
  have 1: "signalled (rw_principals w) p1 ?a sk" unfolding p1_def by (rule persist_signalled) (use k in simp)
  have 2: "signalled p1 p2 ?u sk" unfolding p2_def by (rule persist_signalled) (use k in simp)
  have 12: "signalled (rw_principals w) p2 (?a @ ?u) sk" by (rule signalled_append [OF 1 2]) auto
  show ?thesis
  proof (cases "same_agent agent actor")
    case True
    with 12 show ?thesis by (simp add: mirror_principals attributed_def Let_def flip: p1_def p2_def)
  next
    case False
    let ?x = "if truthy actor then [(t, ''agent'', the actor)] else []"
    have 3: "signalled p2 (persist_principal_signal reg True [] now t ''agent'' actor sk p2) ?x sk"
      by (rule persist_signalled) (use k in simp)
    have "set (?a @ ?u) \<inter> set ?x = {}"
      using False by (cases agent; cases actor) (auto simp: same_agent_def)
    then have "signalled (rw_principals w) (persist_principal_signal reg True [] now t ''agent'' actor sk p2)
        ((?a @ ?u) @ ?x) sk"
      by (rule signalled_append [OF 12 3])
    with False show ?thesis by (simp add: mirror_principals attributed_def Let_def flip: p1_def p2_def)
  qed
qed

section \<open>Histories\<close>

datatype rogue_event =
    Leak "ident option" "string option" ident "ident option" "ident option"
  | OosTool "ident option" "string option" ident "ident option" "ident option"
  | CrossTenant "ident option" ident ident "ident option" "ident option"
  | Violation "ident option" "string option" ident string "ident option" "ident option" "string option"

definition run_event :: "string list \<Rightarrow> instant \<Rightarrow> rogue_event \<Rightarrow> rogue_world \<Rightarrow> rogue_world" where
  "run_event reg now ev w =
     (case ev of
        Leak a c t u x \<Rightarrow> record_data_leak reg calm now a c t u x w
      | OosTool a c t u x \<Rightarrow> record_oos_tool_attempt reg calm now a c t u x w
      | CrossTenant a t t' u x \<Rightarrow> record_cross_tenant_attempt reg calm now a t t' u x w
      | Violation a v t sev u x src \<Rightarrow> record_policy_violation reg calm now a v t sev u x src w)"

definition run_rogue :: "string list \<Rightarrow> (instant \<times> rogue_event) list \<Rightarrow> rogue_world \<Rightarrow> rogue_world" where
  "run_rogue reg evs w = fold (\<lambda>(now, ev). run_event reg now ev) evs w"

definition event_kind :: "rogue_event \<Rightarrow> string" where
  "event_kind ev = (case ev of Leak _ _ _ _ _ \<Rightarrow> ''data_leak'' | OosTool _ _ _ _ _ \<Rightarrow> ''oos_tool''
     | CrossTenant _ _ _ _ _ \<Rightarrow> ''cross_tenant'' | Violation _ _ _ _ _ _ _ \<Rightarrow> ''policy_violation'')"

definition event_targets :: "rogue_event \<Rightarrow> principal_key list" where
  "event_targets ev = (case ev of Leak a _ t u x \<Rightarrow> attributed t a u x | OosTool a _ t u x \<Rightarrow> attributed t a u x
     | CrossTenant a t _ u x \<Rightarrow> attributed t a u x | Violation a _ t _ u x _ \<Rightarrow> attributed t a u x)"

text \<open>How many events of a kind were attributed to a principal.\<close>

definition events_on :: "principal_key \<Rightarrow> string \<Rightarrow> (instant \<times> rogue_event) list \<Rightarrow> int" where
  "events_on k sk evs = int (length (filter (\<lambda>(_, ev). event_kind ev = sk \<and> k \<in> set (event_targets ev)) evs))"

lemma run_event_signalled:
  assumes "mirror_kinds reg"
  shows "signalled (rw_principals w) (rw_principals (run_event reg now ev w)) (event_targets ev) (event_kind ev)"
  using mirror_signalled [OF assms]
  by (cases ev)
     (simp_all add: run_event_def event_targets_def event_kind_def record_data_leak_def record_oos_tool_attempt_def
       record_cross_tenant_attempt_def record_policy_violation_def bump_counter_def Let_def)

lemma run_rogue_counts:
  assumes "mirror_kinds reg"
  shows "principal_count (rw_principals (run_rogue reg evs w)) k c
    = principal_count (rw_principals w) k c + events_on k c evs"
proof (induction evs arbitrary: w)
  case Nil
  show ?case by (simp add: run_rogue_def events_on_def)
next
  case (Cons e evs)
  obtain now ev where e: "e = (now, ev)" by (cases e)
  have "principal_count (rw_principals (run_event reg now ev w)) k c
      = principal_count (rw_principals w) k c + add_count (event_targets ev) (event_kind ev) k c"
    using run_event_signalled [OF assms, of w now ev] unfolding signalled_def by blast
  with Cons.IH [of "run_event reg now ev w"] show ?case
    by (simp add: run_rogue_def e events_on_def add_count_def)
qed

lemma kind_names:
  "event_kind ev \<in> {''data_leak'', ''oos_tool'', ''cross_tenant'', ''policy_violation''}"
  by (cases ev) (simp_all add: event_kind_def)

lemma events_on_other: "sk \<notin> {''data_leak'', ''oos_tool'', ''cross_tenant'', ''policy_violation''} \<Longrightarrow> events_on k sk evs = 0"
  using kind_names by (force simp: events_on_def filter_empty_conv)

lemma events_on_nonneg: "0 \<le> events_on k sk evs"
  by (simp add: events_on_def)

lemma sum4_pos:
  "0 \<le> x1 \<Longrightarrow> 0 \<le> x2 \<Longrightarrow> 0 \<le> x3 \<Longrightarrow> 0 \<le> x4 \<Longrightarrow>
   (0 < x1 + x2 + x3 + x4) = (0 < x1 \<or> 0 < x2 \<or> 0 < x3 \<or> (0 :: int) < x4)"
  by linarith

section \<open>The report\<close>

lemma report_counts:
  assumes "t \<noteq> []"
  shows "get_rogue_signals a (Some (True, tab)) (Some t) None =
     empty_report\<lparr>
       rr_refusals := count_or (pt_counts (get_principal_trust tab (t, ''agent'', a))) ''rbac_refusal'' ''rbac_refusals'',
       rr_oos := count_or (pt_counts (get_principal_trust tab (t, ''agent'', a))) ''oos_tool'' ''oos_tool_attempts'',
       rr_blocks := count_or (pt_counts (get_principal_trust tab (t, ''agent'', a))) ''governance_block'' ''governance_blocks'',
       rr_xtenant := count_or (pt_counts (get_principal_trust tab (t, ''agent'', a))) ''cross_tenant'' ''cross_tenant_attempts'',
       rr_leaks := count_or (pt_counts (get_principal_trust tab (t, ''agent'', a))) ''data_leak'' ''data_leaks'',
       rr_violations := count_or (pt_counts (get_principal_trust tab (t, ''agent'', a))) ''policy_violation'' ''policy_violations'' \<rparr>"
  using assms by (simp add: get_rogue_signals_def report_of_counts_def empty_report_def count_or_def count_of_def)

lemma count_or_principal:
  "count_or (pt_counts (get_principal_trust tab k)) x y =
     (if principal_count tab k x \<noteq> 0 then principal_count tab k x else principal_count tab k y)"
  by (simp add: count_or_def principal_count_def)

definition unseen :: "principal_table \<Rightarrow> principal_key \<Rightarrow> bool" where
  "unseen tab k = (\<forall>c. principal_count tab k c = 0)"

text \<open>C31. The report counts the history. Start with an agent that has no counts and let
  any events be recorded, by any agents, users and tenants, in any order and without
  write failures: the report read from the database has, for each of the four kinds,
  exactly the events attributed to that agent, as their subject or as a different
  calling agent, and nothing for the two kinds recorded elsewhere; its score is the
  weighted sum cut at 50, and the agent is rogue iff some event was attributed to it.\<close>

theorem report_counts_history:
  assumes "mirror_kinds reg" and "t \<noteq> []" and "unseen (rw_principals w) (t, ''agent'', a)"
    and "r = get_rogue_signals a (Some (True, rw_principals (run_rogue reg evs w))) (Some t) None"
  shows "rr_leaks r = events_on (t, ''agent'', a) ''data_leak'' evs
    \<and> rr_oos r = events_on (t, ''agent'', a) ''oos_tool'' evs
    \<and> rr_xtenant r = events_on (t, ''agent'', a) ''cross_tenant'' evs
    \<and> rr_violations r = events_on (t, ''agent'', a) ''policy_violation'' evs
    \<and> rr_refusals r = 0 \<and> rr_blocks r = 0
    \<and> rogue_score r = min 50 (3 * rr_oos r + 15 * rr_xtenant r + 10 * rr_leaks r + 8 * rr_violations r)
    \<and> 0 \<le> rogue_score r
    \<and> (is_rogue r \<longleftrightarrow> (\<exists>e\<in>set evs. (t, ''agent'', a) \<in> set (event_targets (snd e))))"
proof -
  let ?k = "(t, ''agent'', a)" and ?tab = "rw_principals (run_rogue reg evs w)"
  have c: "principal_count ?tab ?k c = events_on ?k c evs" for c
    using run_rogue_counts [OF assms(1), of evs w ?k c] assms(3) by (simp add: unseen_def)
  have fields: "rr_leaks r = events_on ?k ''data_leak'' evs" "rr_oos r = events_on ?k ''oos_tool'' evs"
    "rr_xtenant r = events_on ?k ''cross_tenant'' evs" "rr_violations r = events_on ?k ''policy_violation'' evs"
    "rr_refusals r = 0" "rr_blocks r = 0"
    unfolding assms(4) report_counts [OF assms(2)] by (simp_all add: count_or_principal c events_on_other)
  have total: "report_total r = events_on ?k ''data_leak'' evs + events_on ?k ''oos_tool'' evs
      + events_on ?k ''cross_tenant'' evs + events_on ?k ''policy_violation'' evs"
    by (simp add: report_total_def fields)
  have pos: "0 < events_on ?k sk evs \<longleftrightarrow> (\<exists>e\<in>set evs. event_kind (snd e) = sk \<and> ?k \<in> set (event_targets (snd e)))" for sk
    by (auto simp: events_on_def filter_empty_conv case_prod_beta)
  have "is_rogue r \<longleftrightarrow> (\<exists>sk\<in>{''data_leak'', ''oos_tool'', ''cross_tenant'', ''policy_violation''}. 0 < events_on ?k sk evs)"
    unfolding is_rogue_def total by (simp add: sum4_pos events_on_nonneg)
  also have "\<dots> \<longleftrightarrow> (\<exists>e\<in>set evs. ?k \<in> set (event_targets (snd e)))"
    unfolding pos using kind_names by blast
  finally show ?thesis
    using fields events_on_nonneg
    by (simp add: rogue_score_def ROGUE_CAP_def PER_RBAC_REFUSAL_def PER_OOS_ATTEMPT_def PER_GOV_BLOCK_def
        PER_XTENANT_def PER_DATA_LEAK_def PER_POLICY_VIOLATION_def)
qed

definition quiet_world :: rogue_world where
  "quiet_world = \<lparr> rw_principals = [], rw_users = [], rw_counters = None \<rparr>"

definition sample_events :: "(instant \<times> rogue_event) list" where
  "sample_events =
    [(1, Leak (Some ''bot'') None ''t'' (Some ''ann'') (Some ''bot '')),
     (2, OosTool (Some ''bot'') (Some ''rm'') ''t'' None (Some ''chief'')),
     (3, Leak (Some ''helper'') None ''t'' None (Some ''bot''))]"

lemma report_counts_history_witness:
  "let r = get_rogue_signals ''bot'' (Some (True, rw_principals
         (run_rogue [''agent'', ''user''] sample_events quiet_world))) (Some ''t'') None
   in rr_leaks r = 2 \<and> rr_oos r = 1 \<and> rogue_score r = 23 \<and> is_rogue r"
proof -
  let ?k = "(''t'', ''agent'', ''bot'')"
  have "mirror_kinds [''agent'', ''user'']" by (simp add: mirror_kinds_def is_valid_principal_kind_def)
  moreover have "unseen (rw_principals quiet_world) ?k"
    by (simp add: unseen_def quiet_world_def principal_count_def get_principal_trust_def count_of_def)
  moreover have "events_on ?k ''data_leak'' sample_events = 2" "events_on ?k ''oos_tool'' sample_events = 1"
    "events_on ?k ''cross_tenant'' sample_events = 0" "events_on ?k ''policy_violation'' sample_events = 0"
    by (simp_all add: events_on_def sample_events_def event_kind_def event_targets_def attributed_def
        same_agent_def py char_class_defs)
  moreover have "\<exists>e\<in>set sample_events. ?k \<in> set (event_targets (snd e))"
    by (simp add: sample_events_def event_targets_def attributed_def)
  ultimately show ?thesis
    using report_counts_history [of "[''agent'', ''user'']" "''t''" quiet_world "''bot''" _ sample_events]
    unfolding Let_def by simp
qed

text \<open>Counts under the older plural names disappear at the first new event. An agent
  whose row holds only a count of \<open>n\<close> leaks under \<open>data_leaks\<close> is reported with \<open>n\<close>
  leaks; after one more leak it is reported with one, whatever \<open>n\<close> was, so the new
  misbehaviour can take it from the cap of the rogue score to 10 points.\<close>

theorem new_event_hides_older_counts:
  assumes "mirror_kinds reg" and "t \<noteq> []" and "truthy (Some a)"
    and "principal_count (rw_principals w) (t, ''agent'', a) ''data_leak'' = 0"
    and "principal_count (rw_principals w) (t, ''agent'', a) ''data_leaks'' = n"
  shows "rr_leaks (get_rogue_signals a (Some (True, rw_principals w)) (Some t) None) = n
    \<and> rr_leaks (get_rogue_signals a
        (Some (True, rw_principals (record_data_leak reg calm now (Some a) cls t u x w))) (Some t) None) = 1"
proof -
  let ?w = "record_data_leak reg calm now (Some a) cls t u x w"
  have "signalled (rw_principals w) (rw_principals ?w) (attributed t (Some a) u x) ''data_leak''"
    using run_event_signalled [OF assms(1), of w now "Leak (Some a) cls t u x"]
    by (simp add: run_event_def event_targets_def event_kind_def)
  then have "principal_count (rw_principals ?w) (t, ''agent'', a) ''data_leak''
      = 0 + add_count (attributed t (Some a) u x) ''data_leak'' (t, ''agent'', a) ''data_leak''"
    using assms(4) unfolding signalled_def by metis
  moreover have "(t, ''agent'', a) \<in> set (attributed t (Some a) u x)"
    using assms(3) by (simp add: attributed_def)
  ultimately show ?thesis
    unfolding report_counts [OF assms(2)] using assms(4,5) by (simp add: count_or_principal add_count_def)
qed

definition migrated_world :: rogue_world where
  "migrated_world = quiet_world\<lparr> rw_principals :=
     [\<lparr> p_tenant = ''t'', p_kind = ''agent'', p_id = ''bot'', p_score = 10, p_counts = Some [(''data_leaks'', 40)],
        p_actor = None, p_attrs = None, p_last_signal = None, p_last_clean = None, p_updated = 0 \<rparr>] \<rparr>"

lemma new_event_hides_older_counts_witness:
  "rr_leaks (get_rogue_signals ''bot'' (Some (True, rw_principals migrated_world)) (Some ''t'') None) = 40
   \<and> rr_leaks (get_rogue_signals ''bot''
        (Some (True, rw_principals (record_data_leak [''agent'', ''user''] calm 5 (Some ''bot'') None ''t'' None None
           migrated_world))) (Some ''t'') None) = 1"
  by (rule new_event_hides_older_counts)
     (simp_all add: mirror_kinds_def is_valid_principal_kind_def migrated_world_def principal_count_def
       get_principal_trust_def principal_at_def count_of_def)

text \<open>Every principal of one event moves exactly once, also when the actor is the subject
  under another spelling of its key.\<close>

lemma event_moves_each_once:
  assumes "mirror_kinds reg"
  shows "principal_score (rw_principals (mirror_event reg calm now t sk agent user actor w)) k
    = (if k \<in> set (attributed t agent user actor) then apply_delta (principal_score (rw_principals w) k) (signal_delta sk)
       else principal_score (rw_principals w) k)"
  using mirror_signalled [OF assms, of w now t sk agent user actor] unfolding signalled_def by blast

end
