(* ===== verification/Scoring.thy ===== *)
theory Scoring
  imports Consensus Evidence
begin

text \<open>
  The composed trust score (\<open>kya/scoring.py\<close>): the closed vocabulary of findings with
  their stable codes, the findings of the primitive checks, and the score and verdict
  they give.
\<close>

section \<open>Vocabulary\<close>

definition WHY_CODE_TO_STRING :: "(string \<times> string) list" where
  "WHY_CODE_TO_STRING = [
     (''EVIDENCE_VERIFIED'', ''signed evidence chain verified''),
     (''DELEGATION_VERIFIED'', ''delegation chain verified''),
     (''AUTHORITY_APPROVED'', ''authority scope approved''),
     (''INPUT_SAFETY_OK'', ''no input-safety threats detected''),
     (''RESPONSE_SAFETY_OK'', ''agent response passed safety checks''),
     (''FAITHFULNESS_OK'', ''agent grounded in context''),
     (''EVIDENCE_TAMPERED'', ''signed evidence chain tampered''),
     (''DELEGATION_BROKEN'', ''delegation chain broken''),
     (''AUTHORITY_MISSING'', ''authority scope missing''),
     (''INPUT_SAFETY_BREACH'', ''input-safety threat detected''),
     (''RESPONSE_SAFETY_BREACH'', ''agent response failed safety checks''),
     (''FAITHFULNESS_BREACH'', ''agent hallucination detected''),
     (''INPUT_SAFETY_UNCLEAR'', ''input-safety check inconclusive''),
     (''RESPONSE_SAFETY_UNCLEAR'', ''agent response safety check inconclusive''),
     (''FAITHFULNESS_UNCLEAR'', ''agent faithfulness check inconclusive''),
     (''INPUT_SAFETY_SPLIT'', ''input-safety judges disagreed''),
     (''RESPONSE_SAFETY_SPLIT'', ''agent response safety judges disagreed''),
     (''FAITHFULNESS_SPLIT'', ''agent faithfulness judges disagreed''),
     (''INPUT_SAFETY_ERROR'', ''input-safety check errored''),
     (''RESPONSE_SAFETY_ERROR'', ''agent response safety check errored''),
     (''FAITHFULNESS_ERROR'', ''agent faithfulness check errored'')]"

text \<open>The sentence of a code; each \<open>WHY_<code>\<close> constant of the source is one of these.\<close>

definition why_of :: "string \<Rightarrow> string" where
  "why_of c = (case map_of WHY_CODE_TO_STRING c of Some w \<Rightarrow> w | None \<Rightarrow> [])"

definition POSITIVE_WHY :: "string list" where
  "POSITIVE_WHY = map why_of [''EVIDENCE_VERIFIED'', ''DELEGATION_VERIFIED'', ''AUTHORITY_APPROVED'',
     ''INPUT_SAFETY_OK'', ''RESPONSE_SAFETY_OK'', ''FAITHFULNESS_OK'']"

definition NEGATIVE_WHY :: "string list" where
  "NEGATIVE_WHY = map why_of [''EVIDENCE_TAMPERED'', ''DELEGATION_BROKEN'', ''AUTHORITY_MISSING'',
     ''INPUT_SAFETY_BREACH'', ''RESPONSE_SAFETY_BREACH'', ''FAITHFULNESS_BREACH'']"

definition INDETERMINATE_WHY :: "string list" where
  "INDETERMINATE_WHY = map why_of [''INPUT_SAFETY_UNCLEAR'', ''RESPONSE_SAFETY_UNCLEAR'', ''FAITHFULNESS_UNCLEAR'',
     ''INPUT_SAFETY_SPLIT'', ''RESPONSE_SAFETY_SPLIT'', ''FAITHFULNESS_SPLIT'']"

definition ERROR_WHY :: "string list" where
  "ERROR_WHY = map why_of [''INPUT_SAFETY_ERROR'', ''RESPONSE_SAFETY_ERROR'', ''FAITHFULNESS_ERROR'']"

definition WHY_VOCABULARY :: "string list" where
  "WHY_VOCABULARY = POSITIVE_WHY @ NEGATIVE_WHY @ INDETERMINATE_WHY @ ERROR_WHY"

definition WHY_ORDER :: "string list" where
  "WHY_ORDER = map why_of [''EVIDENCE_VERIFIED'', ''EVIDENCE_TAMPERED'', ''DELEGATION_VERIFIED'', ''DELEGATION_BROKEN'',
     ''AUTHORITY_APPROVED'', ''AUTHORITY_MISSING'', ''INPUT_SAFETY_OK'', ''INPUT_SAFETY_BREACH'',
     ''INPUT_SAFETY_UNCLEAR'', ''INPUT_SAFETY_SPLIT'', ''INPUT_SAFETY_ERROR'', ''RESPONSE_SAFETY_OK'',
     ''RESPONSE_SAFETY_BREACH'', ''RESPONSE_SAFETY_UNCLEAR'', ''RESPONSE_SAFETY_SPLIT'', ''RESPONSE_SAFETY_ERROR'',
     ''FAITHFULNESS_OK'', ''FAITHFULNESS_BREACH'', ''FAITHFULNESS_UNCLEAR'', ''FAITHFULNESS_SPLIT'',
     ''FAITHFULNESS_ERROR'']"

definition WHY_STRING_TO_CODE :: "(string \<times> string) list" where
  "WHY_STRING_TO_CODE = map (\<lambda>(k, v). (v, k)) WHY_CODE_TO_STRING"

definition BASELINE_SCORE :: int where "BASELINE_SCORE = 100"
definition NEGATIVE_PENALTY :: int where "NEGATIVE_PENALTY = 20"
definition INDETERMINATE_PENALTY :: int where "INDETERMINATE_PENALTY = 5"
definition ERROR_PENALTY :: int where "ERROR_PENALTY = 3"
definition VERDICT_OK_THRESHOLD :: int where "VERDICT_OK_THRESHOLD = 80"
definition VERDICT_SPLIT_THRESHOLD :: int where "VERDICT_SPLIT_THRESHOLD = 50"

section \<open>Findings\<close>

text \<open>
  The optional status arguments; \<open>valid\<close> is \<open>None\<close> when the key is missing or no boolean.
  Row identifiers are given as the text they print as.
\<close>

record chain_status =
  cs_valid :: "bool option"
  cs_ids :: "string list"
  cs_broken :: "string option"

record delegation_status =
  ds_valid :: "bool option"
  ds_edges :: "string list"

definition chain_findings :: "chain_status \<Rightarrow> string list" where
  "chain_findings c = (case cs_valid c of Some True \<Rightarrow> [why_of ''EVIDENCE_VERIFIED'']
     | Some False \<Rightarrow> [why_of ''EVIDENCE_TAMPERED''] | None \<Rightarrow> [])"

definition chain_links :: "chain_status \<Rightarrow> string list" where
  "chain_links c =
     (case cs_valid c of
        Some True \<Rightarrow> map (\<lambda>i. ''evidence_id='' @ i) (cs_ids c)
      | Some False \<Rightarrow> (case cs_broken c of Some b \<Rightarrow> [''evidence_id='' @ b] | None \<Rightarrow> [])
      | None \<Rightarrow> [])"

definition delegation_findings :: "delegation_status \<Rightarrow> string list" where
  "delegation_findings d = (case ds_valid d of Some True \<Rightarrow> [why_of ''DELEGATION_VERIFIED'']
     | Some False \<Rightarrow> [why_of ''DELEGATION_BROKEN''] | None \<Rightarrow> [])"

definition delegation_links :: "delegation_status \<Rightarrow> string list" where
  "delegation_links d = (if ds_valid d = Some True then map (\<lambda>i. ''edge_id='' @ i) (ds_edges d) else [])"

text \<open>The authority status is given by its field \<open>approved\<close>.\<close>

definition authority_findings :: "bool option \<Rightarrow> string list" where
  "authority_findings a = (case a of Some True \<Rightarrow> [why_of ''AUTHORITY_APPROVED'']
     | Some False \<Rightarrow> [why_of ''AUTHORITY_MISSING''] | None \<Rightarrow> [])"

text \<open>The table of the three dimensions: each maps a consensus to the code with its prefix.\<close>

definition CONSENSUS_WORDS :: "string list" where
  "CONSENSUS_WORDS = [''OK'', ''BREACH'', ''UNCLEAR'', ''SPLIT'', ''ERROR'']"

definition WHY_TABLE :: "(string \<times> string) list" where
  "WHY_TABLE = [(''input_safety'', ''INPUT_SAFETY''), (''safety'', ''RESPONSE_SAFETY''), (''faithfulness'', ''FAITHFULNESS'')]"

definition consensus_why_entries :: "(string \<times> dimension_consensus) list \<Rightarrow> string list" where
  "consensus_why_entries pd =
     concat (map (\<lambda>(area, code).
         case map_of pd area of
           None \<Rightarrow> []
         | Some dc \<Rightarrow> if dc_consensus dc \<in> set CONSENSUS_WORDS then [why_of (code @ ''_'' @ dc_consensus dc)] else [])
       WHY_TABLE)"

section \<open>Score\<close>

fun position :: "string list \<Rightarrow> string \<Rightarrow> nat" where
  "position [] w = 0"
| "position (x # xs) w = (if x = w then 0 else Suc (position xs w))"

fun first_seen :: "string list \<Rightarrow> string list \<Rightarrow> string list" where
  "first_seen seen [] = []"
| "first_seen seen (e # es) = (if e \<in> set seen then first_seen seen es else e # first_seen (e # seen) es)"

definition sort_why :: "string list \<Rightarrow> string list" where
  "sort_why entries = sort_key (position WHY_ORDER) (first_seen [] entries)"

definition penalty :: "string \<Rightarrow> int" where
  "penalty w =
     (if w \<in> set NEGATIVE_WHY then NEGATIVE_PENALTY
      else if w \<in> set INDETERMINATE_WHY then INDETERMINATE_PENALTY
      else if w \<in> set ERROR_WHY then ERROR_PENALTY
      else 0)"

definition score_of_why :: "string list \<Rightarrow> int" where
  "score_of_why ws = max 0 (min 100 (fold (\<lambda>w s. s - penalty w) ws BASELINE_SCORE))"

definition verdict_of_score :: "int \<Rightarrow> string" where
  "verdict_of_score s =
     (if VERDICT_OK_THRESHOLD \<le> s then ''OK'' else if VERDICT_SPLIT_THRESHOLD \<le> s then ''SPLIT'' else ''BREACH'')"

record score_with_why =
  sw_score :: int
  sw_verdict :: string
  sw_why :: "string list"
  sw_codes :: "string list"
  sw_links :: "string list"
  sw_consumed :: "string list"

definition opt_list :: "('a \<Rightarrow> 'b list) \<Rightarrow> 'a option \<Rightarrow> 'b list" where
  "opt_list f x = (case x of None \<Rightarrow> [] | Some y \<Rightarrow> f y)"

definition score_with_why ::
    "consensus_result option \<Rightarrow> chain_status option \<Rightarrow> delegation_status option \<Rightarrow> bool option option \<Rightarrow>
     score_with_why" where
  "score_with_why consensus ev deleg auth =
     (let why = opt_list chain_findings ev @ opt_list delegation_findings deleg @ opt_list authority_findings auth
            @ opt_list (\<lambda>c. consensus_why_entries (co_dimensions c)) consensus;
          links = opt_list chain_links ev @ opt_list delegation_links deleg;
          consumed = opt_list (\<lambda>_. [''chain_status'']) ev @ opt_list (\<lambda>_. [''delegation_status'']) deleg
            @ opt_list (\<lambda>_. [''authority_status'']) auth @ opt_list (\<lambda>_. [''consensus'']) consensus;
          ordered = sort_why why; score = score_of_why ordered
      in \<lparr> sw_score = score, sw_verdict = verdict_of_score score, sw_why = ordered,
           sw_codes = map (\<lambda>w. the (map_of WHY_STRING_TO_CODE w)) ordered,
           sw_links = sort (remdups links), sw_consumed = sort consumed \<rparr>)"

text \<open>What \<open>verify_chain\<close> hands to it.\<close>

definition status_of_verify :: "verify_result \<Rightarrow> chain_status" where
  "status_of_verify v =
     \<lparr> cs_valid = Some (r_valid v), cs_ids = [], cs_broken = map_option int_text (r_broken_at v) \<rparr>"

end
