(* ===== verification/ScoringFacts.thy ===== *)
theory ScoringFacts
  imports Scoring Registry
begin

text \<open>
  What the composed score says: it is explained by its findings, whatever order the
  judges finish in; a panel whose judges all fail counts against every dimension; and
  the registration of judges is a registry of handlers.
\<close>

section \<open>The vocabulary\<close>

definition PENALISED :: "string list" where
  "PENALISED = NEGATIVE_WHY @ INDETERMINATE_WHY @ ERROR_WHY"

lemma penalised_distinct: "distinct PENALISED" by code_simp

lemma penalty_split:
  "penalty w = (if w \<in> set NEGATIVE_WHY then 20 else 0) + (if w \<in> set INDETERMINATE_WHY then 5 else 0)
     + (if w \<in> set ERROR_WHY then 3 else 0)"
proof -
  have "set NEGATIVE_WHY \<inter> set INDETERMINATE_WHY = {}" "set NEGATIVE_WHY \<inter> set ERROR_WHY = {}"
    "set INDETERMINATE_WHY \<inter> set ERROR_WHY = {}"
    using penalised_distinct unfolding PENALISED_def distinct_append set_append by blast+
  then show ?thesis
    by (auto simp: penalty_def NEGATIVE_PENALTY_def INDETERMINATE_PENALTY_def ERROR_PENALTY_def)
qed

definition findings_in :: "string list \<Rightarrow> string list \<Rightarrow> int" where
  "findings_in bucket ws = int (length (filter (\<lambda>w. w \<in> set bucket) ws))"

lemma findings_in_nonneg: "0 \<le> findings_in b ws" by (simp add: findings_in_def)

definition points_lost :: "string list \<Rightarrow> int" where
  "points_lost ws = 20 * findings_in NEGATIVE_WHY ws + 5 * findings_in INDETERMINATE_WHY ws + 3 * findings_in ERROR_WHY ws"

lemma total_penalty:
  "fold (\<lambda>w s. s - penalty w) ws b
    = b - (20 * findings_in NEGATIVE_WHY ws + 5 * findings_in INDETERMINATE_WHY ws + 3 * findings_in ERROR_WHY ws)"
  by (induction ws arbitrary: b) (simp_all add: findings_in_def penalty_split)

lemma score_of_why_counts:
  "score_of_why ws = max 0 (100 - (20 * findings_in NEGATIVE_WHY ws + 5 * findings_in INDETERMINATE_WHY ws
     + 3 * findings_in ERROR_WHY ws))"
  using findings_in_nonneg [of NEGATIVE_WHY ws] findings_in_nonneg [of INDETERMINATE_WHY ws]
    findings_in_nonneg [of ERROR_WHY ws]
  by (simp add: score_of_why_def total_penalty BASELINE_SCORE_def)

lemma set_first_seen: "set (first_seen seen es) = set es - set seen"
  by (induction seen es rule: first_seen.induct) auto

lemma distinct_first_seen: "distinct (first_seen seen es)"
  by (induction seen es rule: first_seen.induct) (auto simp: set_first_seen)

lemma sort_why_facts:
  "set (sort_why es) = set es" "distinct (sort_why es)" "sorted (map (position WHY_ORDER) (sort_why es))"
  by (simp_all add: sort_why_def set_first_seen distinct_first_seen)

text \<open>Each code of the vocabulary is found again from its sentence.\<close>

lemma codes_round_trip:
  assumes "w \<in> set WHY_VOCABULARY"
  shows "why_of (the (map_of WHY_STRING_TO_CODE w)) = w"
proof -
  have "list_all (\<lambda>w. why_of (the (map_of WHY_STRING_TO_CODE w)) = w) WHY_VOCABULARY" by code_simp
  with assms show ?thesis by (simp only: list_all_iff)
qed

lemma code_words_in_vocabulary:
  assumes "code \<in> set [''INPUT_SAFETY'', ''RESPONSE_SAFETY'', ''FAITHFULNESS'']" "v \<in> set CONSENSUS_WORDS"
  shows "why_of (code @ ''_'' @ v) \<in> set WHY_VOCABULARY"
proof -
  have "list_all (\<lambda>c. list_all (\<lambda>v. why_of (c @ ''_'' @ v) \<in> set WHY_VOCABULARY) CONSENSUS_WORDS)
      [''INPUT_SAFETY'', ''RESPONSE_SAFETY'', ''FAITHFULNESS'']" by code_simp
  with assms show ?thesis unfolding list_all_iff by blast
qed

lemma status_words_in_vocabulary:
  "c \<in> set [''EVIDENCE_VERIFIED'', ''EVIDENCE_TAMPERED'', ''DELEGATION_VERIFIED'', ''DELEGATION_BROKEN'',
     ''AUTHORITY_APPROVED'', ''AUTHORITY_MISSING''] \<Longrightarrow> why_of c \<in> set WHY_VOCABULARY"
  by (simp add: WHY_VOCABULARY_def POSITIVE_WHY_def NEGATIVE_WHY_def) blast

section \<open>The score explained\<close>

lemma all_findings_in_vocabulary:
  "set (opt_list chain_findings ch @ opt_list delegation_findings d @ opt_list authority_findings a
     @ opt_list (\<lambda>c. consensus_why_entries (co_dimensions c)) c) \<subseteq> set WHY_VOCABULARY"
proof -
  have "set (consensus_why_entries pd) \<subseteq> set WHY_VOCABULARY" for pd
    using code_words_in_vocabulary
    by (fastforce simp: consensus_why_entries_def WHY_TABLE_def split: option.splits if_splits)
  then show ?thesis
    using status_words_in_vocabulary
    by (auto simp: opt_list_def chain_findings_def delegation_findings_def authority_findings_def
        split: option.splits bool.splits)
qed

text \<open>C22. The score is explained by its findings. Whatever checks are handed in, the
  findings are distinct, come in the reading order and from the closed vocabulary, and
  every code stands for the finding beside it; the score is 100 less 20 for each negative,
  5 for each inconclusive and 3 for each errored finding, never below 0; the verdict is OK
  iff at most 20 points are lost, which one tampered chain or one breach may do.\<close>

theorem score_explained:
  "let r = score_with_why c ch d a; lost = points_lost (sw_why r)
   in set (sw_why r) \<subseteq> set WHY_VOCABULARY \<and> distinct (sw_why r)
    \<and> sorted (map (position WHY_ORDER) (sw_why r))
    \<and> map why_of (sw_codes r) = sw_why r
    \<and> sw_score r = max 0 (100 - lost)
    \<and> (sw_verdict r = ''OK'' \<longleftrightarrow> lost \<le> 20)
    \<and> (sw_verdict r = ''BREACH'' \<longleftrightarrow> 50 < lost)"
proof -
  define r where "r = score_with_why c ch d a"
  define lost where "lost = points_lost (sw_why r)"
  let ?es = "opt_list chain_findings ch @ opt_list delegation_findings d @ opt_list authority_findings a
    @ opt_list (\<lambda>c. consensus_why_entries (co_dimensions c)) c"
  have why: "sw_why r = sort_why ?es" "sw_codes r = map (\<lambda>w. the (map_of WHY_STRING_TO_CODE w)) (sort_why ?es)"
    "sw_score r = score_of_why (sort_why ?es)" "sw_verdict r = verdict_of_score (score_of_why (sort_why ?es))"
    by (simp_all add: r_def score_with_why_def Let_def)
  have vocab: "set (sw_why r) \<subseteq> set WHY_VOCABULARY"
    unfolding why(1) sort_why_facts(1) by (rule all_findings_in_vocabulary)
  have score: "sw_score r = max 0 (100 - lost)"
    unfolding lost_def points_lost_def why(3) score_of_why_counts why(1) by simp
  have "map why_of (sw_codes r) = sw_why r"
    unfolding why(2) map_map using vocab codes_round_trip unfolding why(1)
    by (intro map_idI) auto
  moreover have "sw_verdict r = verdict_of_score (max 0 (100 - lost))"
    using score why(3,4) by simp
  ultimately show ?thesis
    unfolding r_def [symmetric] Let_def lost_def [symmetric]
    using vocab score sort_why_facts(2,3) unfolding why(1)
    by (auto simp: verdict_of_score_def VERDICT_OK_THRESHOLD_def VERDICT_SPLIT_THRESHOLD_def)
qed

section \<open>Consensus\<close>

lemma votes_mset: "mset rs = mset rs' \<Longrightarrow> votes v rs = votes v rs'"
  unfolding votes_def by (metis mset_filter size_mset)

lemma pool_mset: "mset rs = mset rs' \<Longrightarrow> mset (dimension_pool area rs) = mset (dimension_pool area rs')"
  by (simp add: dimension_pool_def)

lemma pool_consensus_mset:
  assumes "mset rs = mset rs'"
  shows "pool_consensus area rs = pool_consensus area rs'"
proof -
  have "sort (map jr_name rs) = sort (map jr_name rs')"
    using assms by (metis mset_map properties_for_sort sorted_sort mset_sort)
  with votes_mset [OF assms] show ?thesis by (simp add: pool_consensus_def)
qed

lemma per_dimension_mset:
  assumes "mset rs = mset rs'"
  shows "per_dimension rs = per_dimension rs'"
proof -
  have "dimension_pool area rs = [] \<longleftrightarrow> dimension_pool area rs' = []" for area
    using pool_mset [OF assms, of area] by (metis mset_zero_iff)
  with pool_consensus_mset [OF pool_mset [OF assms]] show ?thesis
    unfolding per_dimension_def by (intro arg_cong [where f = concat] map_cong refl) simp
qed

lemma aggregate_mset:
  assumes "mset rs = mset rs'" "distinct (map jr_name rs)"
  shows "aggregate rs ms = aggregate rs' ms"
  using votes_mset [OF assms(1)] per_dimension_mset [OF assms(1)] sort_key_perm [OF assms]
  by (simp add: aggregate_def)

lemma map_of_per_dimension:
  "map_of (per_dimension rs) area = (if area \<in> set DIMENSIONS \<and> dimension_pool area rs \<noteq> []
     then Some (pool_consensus area (dimension_pool area rs)) else None)"
  by (auto simp: per_dimension_def DIMENSIONS_def)

lemma per_dimension_set:
  "set (per_dimension rs) = {(area, pool_consensus area (dimension_pool area rs)) | area.
     area \<in> set DIMENSIONS \<and> dimension_pool area rs \<noteq> []}"
  by (auto simp: per_dimension_def)

lemma consensus_words: "dc_consensus (pool_consensus area rs) \<in> set [''UNCLEAR'', ''BREACH'', ''OK'', ''SPLIT'']"
  by (simp add: pool_consensus_def Let_def)

lemma overall_breach: "overall vs = ''BREACH'' \<longleftrightarrow> ''BREACH'' \<in> set vs"
  by (simp add: overall_def)

lemma overall_ok: "overall vs = ''OK'' \<longleftrightarrow> ''OK'' \<in> set vs \<and> ''BREACH'' \<notin> set vs \<and> ''SPLIT'' \<notin> set vs"
  by (simp add: overall_def)

lemma pool_words:
  "dc_consensus (pool_consensus area rs) = ''BREACH'' \<longleftrightarrow> votes ''OK'' rs < votes ''BREACH'' rs"
  "dc_consensus (pool_consensus area rs) = ''SPLIT'' \<longleftrightarrow> votes ''OK'' rs = votes ''BREACH'' rs \<and> votes ''OK'' rs \<noteq> 0"
  "dc_consensus (pool_consensus area rs) = ''OK'' \<longleftrightarrow> votes ''BREACH'' rs < votes ''OK'' rs"
  by (auto simp: pool_consensus_def Let_def votes_def)

text \<open>The results of a round, in the order of submission.\<close>

definition round_results ::
    "judges \<Rightarrow> string option \<Rightarrow> string option \<Rightarrow> string option \<Rightarrow> string list \<Rightarrow> judge_result list" where
  "round_results js inp resp ctx names = concat (map (run_judge js inp resp ctx) names)"

definition in_any_order :: "(judge_result list \<Rightarrow> judge_result list) \<Rightarrow> bool" where
  "in_any_order arrive = (\<forall>rs. mset (arrive rs) = mset rs)"

lemma in_any_order_set: "in_any_order arrive \<Longrightarrow> set (arrive rs) = set rs"
  unfolding in_any_order_def by (metis mset_eq_setD)

text \<open>C23. The consensus is a function of the votes. Let the results of a round carry
  different judge names; then whatever order the judges finish in, the answer is the
  same. It is BREACH iff some dimension has more BREACH than OK votes in its pool, so one
  judge decides when all others abstain or fail; OK iff no dimension has as many BREACH as
  OK votes, a positive number, or more, and some has more OK votes.\<close>

theorem consensus_of_votes:
  assumes "in_any_order arrive" and "names \<noteq> []" and "rs = round_results js inp resp ctx names"
    and "distinct (map jr_name rs)"
  shows "\<exists>c. check_consensus js arrive ms inp resp ctx (Some names) None = Inr c
    \<and> check_consensus js id ms inp resp ctx (Some names) None = Inr c
    \<and> (co_consensus c = ''BREACH'' \<longleftrightarrow> (\<exists>area\<in>set DIMENSIONS.
          votes ''OK'' (dimension_pool area rs) < votes ''BREACH'' (dimension_pool area rs)))
    \<and> (co_consensus c = ''OK'' \<longleftrightarrow>
          (\<forall>area\<in>set DIMENSIONS. votes ''BREACH'' (dimension_pool area rs) < votes ''OK'' (dimension_pool area rs)
             \<or> votes ''BREACH'' (dimension_pool area rs) + votes ''OK'' (dimension_pool area rs) = 0)
          \<and> (\<exists>area\<in>set DIMENSIONS. votes ''BREACH'' (dimension_pool area rs) < votes ''OK'' (dimension_pool area rs)))"
proof -
  define c where "c = aggregate rs ms"
  have run: "check_consensus js f ms inp resp ctx (Some names) None = Inr (aggregate (f rs) ms)" for f
    using assms(2,3) by (simp add: check_consensus_def round_results_def)
  have same: "aggregate (arrive rs) ms = c"
    unfolding c_def using aggregate_mset [of rs "arrive rs"] assms(1,4) by (simp add: in_any_order_def)
  let ?b = "\<lambda>area. votes ''BREACH'' (dimension_pool area rs)" and ?k = "\<lambda>area. votes ''OK'' (dimension_pool area rs)"
  have empty: "dimension_pool area rs = [] \<Longrightarrow> ?b area = 0 \<and> ?k area = 0" for area by (simp add: votes_def)
  have cons: "co_consensus c = overall (map (dc_consensus \<circ> snd) (per_dimension rs))"
    by (simp add: c_def aggregate_def Let_def)
  have words: "v \<in> set (map (dc_consensus \<circ> snd) (per_dimension rs)) \<longleftrightarrow>
      (\<exists>area\<in>set DIMENSIONS. dimension_pool area rs \<noteq> [] \<and> dc_consensus (pool_consensus area (dimension_pool area rs)) = v)" for v
    by (auto simp: per_dimension_set image_iff)
  have breach: "''BREACH'' \<in> set (map (dc_consensus \<circ> snd) (per_dimension rs)) \<longleftrightarrow> (\<exists>area\<in>set DIMENSIONS. ?k area < ?b area)"
    unfolding words pool_words using empty by fastforce
  have split: "''SPLIT'' \<in> set (map (dc_consensus \<circ> snd) (per_dimension rs)) \<longleftrightarrow>
      (\<exists>area\<in>set DIMENSIONS. ?k area = ?b area \<and> ?k area \<noteq> 0)"
    unfolding words pool_words using empty by fastforce
  have ok: "''OK'' \<in> set (map (dc_consensus \<circ> snd) (per_dimension rs)) \<longleftrightarrow> (\<exists>area\<in>set DIMENSIONS. ?b area < ?k area)"
    unfolding words pool_words using empty by fastforce
  have nonneg: "0 \<le> ?b area \<and> 0 \<le> ?k area" for area by (simp add: votes_def)
  have none: "(\<forall>area\<in>set DIMENSIONS. ?b area < ?k area \<or> ?b area + ?k area = 0) \<longleftrightarrow>
      \<not> (\<exists>area\<in>set DIMENSIONS. ?k area < ?b area) \<and> \<not> (\<exists>area\<in>set DIMENSIONS. ?k area = ?b area \<and> ?k area \<noteq> 0)"
  proof -
    have "(?b area < ?k area \<or> ?b area + ?k area = 0) \<longleftrightarrow> \<not> ?k area < ?b area \<and> \<not> (?k area = ?b area \<and> ?k area \<noteq> 0)" for area
      using nonneg [of area] by linarith
    then show ?thesis by blast
  qed
  have "co_consensus c = ''BREACH'' \<longleftrightarrow> (\<exists>area\<in>set DIMENSIONS. ?k area < ?b area)"
    unfolding cons overall_breach breach ..
  moreover have "co_consensus c = ''OK'' \<longleftrightarrow> (\<forall>area\<in>set DIMENSIONS. ?b area < ?k area \<or> ?b area + ?k area = 0)
      \<and> (\<exists>area\<in>set DIMENSIONS. ?b area < ?k area)"
    unfolding cons overall_ok breach split ok none by blast
  ultimately show ?thesis
    using run [of arrive] run [of id] same unfolding c_def by auto
qed

definition sample_panel :: judges where
  "sample_panel = [
     (''guard'', \<lambda>inp resp ctx. Inr (plain_result ''guard'' ''BREACH'' 4 None ''safety'')),
     (''llm'', \<lambda>inp resp ctx. Inl ''timeout'')]"

lemma sample_round:
  "round_results sample_panel inp resp ctx [''guard'', ''llm''] =
     [plain_result ''guard'' ''BREACH'' 4 None ''safety'', plain_result ''llm'' ''ERROR'' 0 (Some ''timeout'') ''any'']"
  by (simp add: round_results_def run_judge_def sample_panel_def)

lemma consensus_of_votes_witness:
  "\<exists>c. check_consensus sample_panel rev 9 None (Some ''text'') None (Some [''guard'', ''llm'']) None = Inr c
     \<and> co_consensus c = ''BREACH''"
proof -
  let ?rs = "round_results sample_panel None (Some ''text'') None [''guard'', ''llm'']"
  have "in_any_order rev" by (simp add: in_any_order_def)
  moreover have "distinct (map jr_name ?rs)" by (simp add: sample_round plain_result_def)
  moreover have "\<exists>area\<in>set DIMENSIONS. votes ''OK'' (dimension_pool area ?rs) < votes ''BREACH'' (dimension_pool area ?rs)"
    by (rule bexI [of _ "''safety''"]) (simp_all add: sample_round votes_def dimension_pool_def plain_result_def DIMENSIONS_def)
  ultimately show ?thesis
    using consensus_of_votes [of rev "[''guard'', ''llm'']" ?rs sample_panel None "Some ''text''" None 9] by blast
qed

lemma why_of_errors:
  assumes "code \<in> set [''INPUT_SAFETY'', ''RESPONSE_SAFETY'', ''FAITHFULNESS'']" "v \<in> set [''UNCLEAR'', ''BREACH'', ''OK'', ''SPLIT'']"
  shows "why_of (code @ ''_'' @ v) \<notin> set ERROR_WHY"
proof -
  have "list_all (\<lambda>c. list_all (\<lambda>v. why_of (c @ ''_'' @ v) \<notin> set ERROR_WHY) [''UNCLEAR'', ''BREACH'', ''OK'', ''SPLIT''])
      [''INPUT_SAFETY'', ''RESPONSE_SAFETY'', ''FAITHFULNESS'']" by code_simp
  with assms show ?thesis unfolding list_all_iff by blast
qed

lemma status_not_error:
  assumes "c \<in> set [''EVIDENCE_VERIFIED'', ''EVIDENCE_TAMPERED'', ''DELEGATION_VERIFIED'', ''DELEGATION_BROKEN'',
     ''AUTHORITY_APPROVED'', ''AUTHORITY_MISSING'']"
  shows "why_of c \<notin> set ERROR_WHY"
proof -
  have "list_all (\<lambda>c. why_of c \<notin> set ERROR_WHY) [''EVIDENCE_VERIFIED'', ''EVIDENCE_TAMPERED'', ''DELEGATION_VERIFIED'',
      ''DELEGATION_BROKEN'', ''AUTHORITY_APPROVED'', ''AUTHORITY_MISSING'']" by code_simp
  with assms show ?thesis unfolding list_all_iff by blast
qed

lemma per_dimension_no_error:
  "set (consensus_why_entries (per_dimension rs)) \<inter> set ERROR_WHY = {}"
proof (rule ccontr)
  assume "\<not> ?thesis"
  then obtain w where w: "w \<in> set (consensus_why_entries (per_dimension rs))" "w \<in> set ERROR_WHY" by blast
  then obtain area code where t: "(area, code) \<in> set WHY_TABLE"
      and e: "w \<in> set (case map_of (per_dimension rs) area of None \<Rightarrow> []
        | Some dc \<Rightarrow> if dc_consensus dc \<in> set CONSENSUS_WORDS then [why_of (code @ ''_'' @ dc_consensus dc)] else [])"
    unfolding consensus_why_entries_def by auto
  have "w = why_of (code @ ''_'' @ dc_consensus (pool_consensus area (dimension_pool area rs)))"
    using e by (auto simp: map_of_per_dimension split: if_splits)
  moreover have "code \<in> set [''INPUT_SAFETY'', ''RESPONSE_SAFETY'', ''FAITHFULNESS'']"
    using t by (auto simp: WHY_TABLE_def)
  ultimately have "w \<notin> set ERROR_WHY"
    using why_of_errors consensus_words [of area "dimension_pool area rs"] by blast
  with w(2) show False by contradiction
qed

lemma round_dimensions:
  assumes "check_consensus js arrive ms inp resp ctx chosen mw = Inr c"
  shows "\<exists>rs. co_dimensions c = per_dimension rs \<and> co_judges c = sort_key jr_name rs"
proof -
  consider "co_dimensions c = [] \<and> co_judges c = []" | rs where "c = aggregate rs ms"
    using assms by (auto simp: check_consensus_def Let_def split: if_splits option.splits)
  then show ?thesis
  proof cases
    case 1
    then show ?thesis
      by (intro exI [of _ "[]"]) (simp add: per_dimension_def dimension_pool_def DIMENSIONS_def)
  qed (auto simp: aggregate_def Let_def)
qed

lemma unclear_codes:
  "map_of WHY_STRING_TO_CODE (why_of ''INPUT_SAFETY_UNCLEAR'') = Some ''INPUT_SAFETY_UNCLEAR''"
  "map_of WHY_STRING_TO_CODE (why_of ''RESPONSE_SAFETY_UNCLEAR'') = Some ''RESPONSE_SAFETY_UNCLEAR''"
  "map_of WHY_STRING_TO_CODE (why_of ''FAITHFULNESS_UNCLEAR'') = Some ''FAITHFULNESS_UNCLEAR''"
  "sort_why [why_of ''INPUT_SAFETY_UNCLEAR'', why_of ''RESPONSE_SAFETY_UNCLEAR'', why_of ''FAITHFULNESS_UNCLEAR''] =
     [why_of ''INPUT_SAFETY_UNCLEAR'', why_of ''RESPONSE_SAFETY_UNCLEAR'', why_of ''FAITHFULNESS_UNCLEAR'']"
  "score_of_why [why_of ''INPUT_SAFETY_UNCLEAR'', why_of ''RESPONSE_SAFETY_UNCLEAR'', why_of ''FAITHFULNESS_UNCLEAR''] = 85"
  by code_simp+

text \<open>C37. Errors of judges are never scored as errors. No finding of a composed score is an
  errored one, whatever the judges of the panel did. And in a round in which no judge at all
  votes \<open>BREACH\<close> or \<open>OK\<close>, one judge without a dimension of its own (every judge that raises is
  recorded so) is enough for all three dimensions to be found inconclusive, also those
  nobody checked: 15 points are lost instead of 3.\<close>

theorem errors_read_as_inconclusive:
  assumes "check_consensus js arrive ms inp resp ctx chosen mw = Inr c"
  shows "findings_in ERROR_WHY (sw_why (score_with_why (Some c) ch d a)) = 0
    \<and> ((\<exists>r\<in>set (co_judges c). jr_dimension r = ''any'')
        \<and> votes ''BREACH'' (co_judges c) = 0 \<and> votes ''OK'' (co_judges c) = 0
      \<longrightarrow> sw_codes (score_with_why (Some c) None None None) =
            [''INPUT_SAFETY_UNCLEAR'', ''RESPONSE_SAFETY_UNCLEAR'', ''FAITHFULNESS_UNCLEAR'']
          \<and> sw_score (score_with_why (Some c) None None None) = 85)"
proof -
  obtain rs where rs: "co_dimensions c = per_dimension rs" "co_judges c = sort_key jr_name rs"
    using round_dimensions [OF assms] by blast
  have "set (opt_list chain_findings ch @ opt_list delegation_findings d @ opt_list authority_findings a
      @ opt_list (\<lambda>c. consensus_why_entries (co_dimensions c)) (Some c)) \<inter> set ERROR_WHY = {}"
    using per_dimension_no_error [of rs] status_not_error
    by (auto simp: opt_list_def chain_findings_def delegation_findings_def authority_findings_def rs(1)
        split: option.splits bool.splits)
  then have "set (sw_why (score_with_why (Some c) ch d a)) \<inter> set ERROR_WHY = {}"
    unfolding score_with_why_def Let_def by (simp only: sort_why_facts score_with_why.select_convs)
  then have "findings_in ERROR_WHY (sw_why (score_with_why (Some c) ch d a)) = 0"
    unfolding findings_in_def by (simp add: filter_empty_conv disjoint_iff)
  moreover have "sw_codes (score_with_why (Some c) None None None) =
            [''INPUT_SAFETY_UNCLEAR'', ''RESPONSE_SAFETY_UNCLEAR'', ''FAITHFULNESS_UNCLEAR'']
          \<and> sw_score (score_with_why (Some c) None None None) = 85"
    if any: "\<exists>r\<in>set (co_judges c). jr_dimension r = ''any''"
      and none: "votes ''BREACH'' (co_judges c) = 0" "votes ''OK'' (co_judges c) = 0"
  proof -
    have pool: "dimension_pool area rs \<noteq> []" for area
      using any by (auto simp: rs(2) dimension_pool_def filter_empty_conv)
    have zero: "votes ''BREACH'' (dimension_pool area rs) = 0" "votes ''OK'' (dimension_pool area rs) = 0" for area
      using none by (auto simp: rs(2) votes_def dimension_pool_def filter_empty_conv)
    have "dc_consensus (pool_consensus area (dimension_pool area rs)) = ''UNCLEAR''" for area
      by (simp add: pool_consensus_def zero)
    then have "consensus_why_entries (co_dimensions c) =
        [why_of ''INPUT_SAFETY_UNCLEAR'', why_of ''RESPONSE_SAFETY_UNCLEAR'', why_of ''FAITHFULNESS_UNCLEAR'']"
      by (simp add: rs(1) consensus_why_entries_def WHY_TABLE_def map_of_per_dimension pool DIMENSIONS_def CONSENSUS_WORDS_def)
    then show ?thesis
      by (simp add: score_with_why_def opt_list_def unclear_codes)
  qed
  ultimately show ?thesis by blast
qed

lemma errors_read_as_inconclusive_witness:
  "\<exists>c. check_consensus sample_panel id 9 None (Some ''text'') None (Some [''llm'']) None = Inr c
     \<and> sw_score (score_with_why (Some c) None None None) = 85"
proof -
  let ?c = "aggregate [plain_result ''llm'' ''ERROR'' 0 (Some ''timeout'') ''any''] 9"
  have run: "check_consensus sample_panel id 9 None (Some ''text'') None (Some [''llm'']) None = Inr ?c"
    by (simp add: check_consensus_def run_judge_def sample_panel_def)
  have "co_judges ?c = [plain_result ''llm'' ''ERROR'' 0 (Some ''timeout'') ''any'']"
    by (simp add: aggregate_def Let_def)
  with errors_read_as_inconclusive [OF run] run show ?thesis
    by (simp add: votes_def plain_result_def)
qed

section \<open>The registry of judges\<close>

interpretation jreg: registry "[]" register_judge AList.delete map_of
  by unfold_locales (simp_all add: register_judge_def update_conv' delete_conv')

text \<open>Registering an ensemble binds each name to the last model that maps to it.\<close>

lemma ensemble_registered:
  "map_of (snd (register_multi_llm_judge_adapter env llm ms models area pre js)) name =
     option_or (map_of (rev (map (\<lambda>m. (llm_judge_name pre m, judge_llm llm ms m (llm_judge_name pre m) area))
        (multi_llm_models env models))) name) (map_of js name)"
  using jreg.get_put_all [of "map (\<lambda>m. (llm_judge_name pre m, judge_llm llm ms m (llm_judge_name pre m) area))
      (multi_llm_models env models)" js name]
  by (simp add: register_multi_llm_judge_adapter_def Let_def jreg.put_all_def fold_map comp_def)

text \<open>Two models whose names differ only in punctuation share one judge, though both are reported.\<close>

lemma ensemble_collision:
  "fst (register_multi_llm_judge_adapter env llm ms (Some [''a/b'', ''a-b'']) area ''j'' []) = [''j::a_b'', ''j::a_b'']
   \<and> length (snd (register_multi_llm_judge_adapter env llm ms (Some [''a/b'', ''a-b'']) area ''j'' [])) = 1"
proof -
  have "sanitize_judge_suffix ''a/b'' = ''a_b''" "sanitize_judge_suffix ''a-b'' = ''a_b''" by code_simp+
  then show ?thesis
    by (simp add: register_multi_llm_judge_adapter_def multi_llm_models_def llm_judge_name_def register_judge_def Let_def)
qed

text \<open>A one-letter input is taken for the probe it begins, by one of the two matchers only.\<close>

lemma short_input_matched:
  assumes "pb_prompt p = c # cs"
  shows "matched_probe [p] (Some [c]) = Some p"
    and "cs \<noteq> [] \<Longrightarrow> detect_garak_probe_family [p] [c] = None"
  using assms
  by (auto simp: matched_probe_def leading_match_def starts_with_def option_or_def PREFIX_MIN_LEN_def)

text \<open>Registering the opt-in judges reports each once, whatever their registrars do, and
  never calls the registrar of an excluded one.\<close>

lemma register_all_statuses:
  "fst (register_all env registrar excluded False es js) = None \<and>
   map fst (fst (snd (register_all env registrar excluded False es js))) = map fst es"
proof (induction es arbitrary: js)
  case (Cons e es)
  obtain st js' where e: "register_one env registrar excluded e js = (st, js')" by fastforce
  obtain err rest js'' where r: "register_all env registrar excluded False es js' = (err, rest, js'')"
    by (metis prod_cases3)
  with Cons.IH [of js'] e show ?case by simp
qed simp

lemma register_all_excluded:
  assumes "\<And>n js. n \<notin> excluded \<Longrightarrow> registrar n js = registrar' n js"
  shows "register_all env registrar excluded loud es js = register_all env registrar' excluded loud es js"
proof (induction es arbitrary: js)
  case (Cons e es)
  have one: "register_one env registrar excluded e js = register_one env registrar' excluded e js" for js
    using assms by (cases e) (simp add: register_one_def)
  show ?case unfolding register_all.simps one Cons.IH ..
qed simp

end
