(* ===== verification/Integrity.thy ===== *)
theory Integrity
  imports Json "HOL-Library.AList"
begin

text \<open>
  The fingerprint of a principal's definition (\<open>kya/integrity.py\<close>): the identity fields
  per kind and their registry, the hash of their canonical JSON, drift detection, and
  the lineage of forked agents. SHA-256 is an argument. A definition is a JSON object
  with distinct keys; a date or time in it is \<open>JMarked\<close> with its ISO text in UTC.
\<close>

section \<open>Identity fields\<close>

definition HASHED_FIELDS :: "string list" where
  "HASHED_FIELDS = [''agent_key'', ''name'', ''description'', ''system_prompt'', ''model'', ''tools'',
     ''denied_tools'', ''human_loop'', ''access_level'', ''can_override'', ''can_revert'', ''can_delegate_to'',
     ''required_roles'', ''extends'', ''data_classes'', ''security_caps'', ''provenance'', ''model_trust'',
     ''compliance_scope'']"

definition AUTONOMY_ASSET_FIELDS :: "string list" where
  "AUTONOMY_ASSET_FIELDS = [''firmware_version'', ''firmware_hash'', ''airframe'', ''platform'', ''model'',
     ''sensor_set'', ''actuator_set'', ''kinematic_envelope'', ''parameter_set_hash'', ''geofence_id'',
     ''mission_profile'', ''approved_modes'', ''data_classes'', ''compliance_scope'']"

definition PLC_FIELDS :: "string list" where
  "PLC_FIELDS = [''firmware_version'', ''firmware_hash'', ''model'', ''platform'', ''program_hash'', ''io_map_hash'',
     ''approved_modes'', ''compliance_scope'']"

definition SCADA_FIELDS :: "string list" where
  "SCADA_FIELDS = [''platform'', ''version'', ''operator_console_id'', ''historian_endpoint'', ''tag_database_hash'',
     ''supervised_plcs'', ''approved_protocols'', ''compliance_scope'']"

definition MACHINE_IDENTITY_FIELDS :: "string list" where
  "MACHINE_IDENTITY_FIELDS = [''client_id'', ''issuer'', ''scopes'', ''approved_audiences'', ''compliance_scope'']"

definition AUTONOMOUS_SYSTEM_FIELDS :: "string list" where
  "AUTONOMOUS_SYSTEM_FIELDS = [''name'', ''description'', ''mission_profile'', ''approved_members'', ''compliance_scope'']"

definition OWNERSHIP_FIELDS :: "string list" where
  "OWNERSHIP_FIELDS = [''owner'', ''on_call'', ''escalation'', ''review_status'']"

type_synonym field_registry = "(string \<times> string list) list"

definition HASHED_FIELDS_BY_KIND :: field_registry where
  "HASHED_FIELDS_BY_KIND = [
     (''agent'', HASHED_FIELDS), (''user'', HASHED_FIELDS),
     (''service_account'', MACHINE_IDENTITY_FIELDS), (''machine_identity'', MACHINE_IDENTITY_FIELDS),
     (''drone'', AUTONOMY_ASSET_FIELDS), (''robot'', AUTONOMY_ASSET_FIELDS), (''vehicle'', AUTONOMY_ASSET_FIELDS),
     (''controller'', AUTONOMY_ASSET_FIELDS), (''sensor'', AUTONOMY_ASSET_FIELDS),
     (''actuator'', AUTONOMY_ASSET_FIELDS), (''plc'', PLC_FIELDS), (''scada'', SCADA_FIELDS),
     (''lakehouse_job'', HASHED_FIELDS), (''autonomous_system'', AUTONOMOUS_SYSTEM_FIELDS)]"

text \<open>The two environment variables.\<close>

record hash_env =
  he_strict :: "string option"
  he_owner :: "string option"

definition env_flag :: "string option \<Rightarrow> bool" where
  "env_flag v = (lower (strip (or_else v [])) \<in> set [''1'', ''true'', ''yes'', ''on''])"

definition hashed_fields_for :: "hash_env \<Rightarrow> field_registry \<Rightarrow> string option \<Rightarrow> string + string list" where
  "hashed_fields_for env reg kind =
     (if \<not> truthy kind then Inr HASHED_FIELDS
      else (case map_of reg (the kind) of
        Some fds \<Rightarrow> Inr fds
      | None \<Rightarrow> if env_flag (he_strict env) then Inl ''KeyError'' else Inr HASHED_FIELDS))"

definition register_hashed_fields :: "string \<Rightarrow> string list \<Rightarrow> field_registry \<Rightarrow> string + field_registry" where
  "register_hashed_fields kind fds reg =
     (if [] \<in> set fds then Inl ''ValueError'' else Inr (AList.update kind fds reg))"

definition ownership_enabled :: "hash_env \<Rightarrow> bool option \<Rightarrow> bool" where
  "ownership_enabled env explicit = (case explicit of Some b \<Rightarrow> b | None \<Rightarrow> env_flag (he_owner env))"

section \<open>The fingerprint\<close>

text \<open>Dates become their text; any other object that JSON cannot encode stays as it is.\<close>

primrec canonicalise_for_hash :: "json \<Rightarrow> json" where
  "canonicalise_for_hash JNull = JNull"
| "canonicalise_for_hash (JBool b) = JBool b"
| "canonicalise_for_hash (JInt i) = JInt i"
| "canonicalise_for_hash (JStr s) = JStr s"
| "canonicalise_for_hash (JList xs) = JList (map canonicalise_for_hash xs)"
| "canonicalise_for_hash (JObj kvs) = JObj (map (map_prod id canonicalise_for_hash) kvs)"
| "canonicalise_for_hash (JMarked t v) = (if t \<in> set [''datetime'', ''date''] then v else JMarked t v)"

definition projection :: "string list \<Rightarrow> jobj \<Rightarrow> jobj" where
  "projection fds d =
     concat (map (\<lambda>k. case map_of d k of Some v \<Rightarrow> [(k, v)] | None \<Rightarrow> []) (remdups fds))"

definition canonical_hash ::
    "(string \<Rightarrow> string) \<Rightarrow> hash_env \<Rightarrow> field_registry \<Rightarrow> jobj \<Rightarrow> bool option \<Rightarrow> string option \<Rightarrow> string + string" where
  "canonical_hash sha env reg d include_ownership kind =
     (case hashed_fields_for env reg kind of
        Inl e \<Rightarrow> Inl e
      | Inr fds \<Rightarrow>
          (let fs = (if ownership_enabled env include_ownership then fds @ OWNERSHIP_FIELDS else fds);
               snapshot = canonicalise_for_hash (JObj (projection fs d))
           in if serialisable snapshot then Inr (sha (dumps (sort_keys snapshot))) else Inl ''TypeError''))"

definition detect_drift ::
    "(string \<Rightarrow> string) \<Rightarrow> hash_env \<Rightarrow> field_registry \<Rightarrow> string option \<Rightarrow> jobj \<Rightarrow> bool option \<Rightarrow> string option \<Rightarrow>
     string + bool" where
  "detect_drift sha env reg declared d include_ownership kind =
     (if \<not> truthy declared then Inr False
      else (case canonical_hash sha env reg d include_ownership kind of
        Inl e \<Rightarrow> Inl e | Inr h \<Rightarrow> Inr (h \<noteq> the declared)))"

section \<open>Lineage\<close>

text \<open>The fields of a definition that the lineage reads, as text.\<close>

record lineage_fields =
  lf_key :: "string option"
  lf_parent :: "string option"
  lf_lineage :: "string list"

definition lineage_chain :: "lineage_fields \<Rightarrow> string list" where
  "lineage_chain a =
     (if lf_lineage a \<noteq> [] then lf_lineage a
      else if truthy (lf_parent a) then [case lf_key a of Some k \<Rightarrow> k | None \<Rightarrow> ''self'', the (lf_parent a)]
      else if truthy (lf_key a) then [the (lf_key a)] else [])"

definition inheritance_per_gen :: "int \<Rightarrow> int" where
  "inheritance_per_gen g =
     (case map_of [(0, 0), (1, 8), (2, 4), (3, 2 :: int)] g of Some v \<Rightarrow> v | None \<Rightarrow> 1)"

definition lineage_risk_inheritance :: "int \<Rightarrow> int \<Rightarrow> int" where
  "lineage_risk_inheritance parent_score generation =
     (if parent_score \<le> 0 \<or> generation \<le> 0 then 0
      else if 85 \<le> parent_score then inheritance_per_gen generation
      else if 60 \<le> parent_score then max 1 (inheritance_per_gen generation div 2)
      else 0)"

text \<open>The report on a publisher's signature: present, its algorithm; nothing is verified.\<close>

definition verify_signature :: "jobj \<Rightarrow> bool \<times> json option" where
  "verify_signature d =
     (case map_of d ''signature'' of
        Some (JObj (kv # kvs)) \<Rightarrow>
          (True, Some (case map_of (kv # kvs) ''algorithm'' of Some a \<Rightarrow> a | None \<Rightarrow> JStr ''unknown''))
      | _ \<Rightarrow> (False, None))"

section \<open>Drift is a change of an identity field\<close>

definition identity_fields :: "hash_env \<Rightarrow> field_registry \<Rightarrow> bool option \<Rightarrow> string option \<Rightarrow> string set" where
  "identity_fields env reg own kind =
     (case hashed_fields_for env reg kind of
        Inl e \<Rightarrow> {} | Inr fs \<Rightarrow> set fs \<union> (if ownership_enabled env own then set OWNERSHIP_FIELDS else {}))"

definition def_field :: "jobj \<Rightarrow> string \<Rightarrow> json option" where
  "def_field d k = map_option (\<lambda>v. sort_keys (canonicalise_for_hash v)) (map_of d k)"

definition normal_object :: "string list \<Rightarrow> jobj \<Rightarrow> jobj" where
  "normal_object fs d = map (\<lambda>(k, v). (k, sort_keys (canonicalise_for_hash v))) (projection fs d)"

lemma projection_keys: "map fst (projection fs d) = filter (\<lambda>k. map_of d k \<noteq> None) (remdups fs)"
proof -
  have "map fst (concat (map (\<lambda>k. case map_of d k of Some v \<Rightarrow> [(k, v)] | None \<Rightarrow> []) ks))
      = filter (\<lambda>k. map_of d k \<noteq> None) ks" for ks
    by (induction ks) (auto split: option.splits)
  then show ?thesis by (simp add: projection_def)
qed

lemma map_of_projection: "map_of (projection fs d) k = (if k \<in> set fs then map_of d k else None)"
proof -
  have "map_of (concat (map (\<lambda>k. case map_of d k of Some v \<Rightarrow> [(k, v)] | None \<Rightarrow> []) ks)) k
      = (if k \<in> set ks then map_of d k else None)" for ks
    by (induction ks) (auto split: option.splits)
  from this [of "remdups fs"] show ?thesis by (simp add: projection_def)
qed

lemma normal_object_map: "map_of (normal_object fs d) k = (if k \<in> set fs then def_field d k else None)"
  by (simp add: normal_object_def map_of_map [of "\<lambda>v. sort_keys (canonicalise_for_hash v)"] map_of_projection def_field_def)

lemma normal_object_keys: "distinct (map fst (normal_object fs d))"
proof -
  have "map fst (normal_object fs d) = map fst (projection fs d)"
    by (simp add: normal_object_def comp_def case_prod_beta)
  then show ?thesis by (simp add: projection_keys)
qed

lemma snapshot_sorted:
  "sort_keys (canonicalise_for_hash (JObj (projection fs d))) = JObj (sort_key fst (normal_object fs d))"
proof -
  have "map (map_prod id sort_keys) (map (map_prod id canonicalise_for_hash) xs)
      = map (\<lambda>(k, v). (k, sort_keys (canonicalise_for_hash v))) xs" for xs :: jobj
    by (induction xs) auto
  then show ?thesis unfolding normal_object_def canonicalise_for_hash.simps sort_keys.simps by (simp only:)
qed

lemma distinct_sorted_inject:
  assumes "distinct (map fst xs)" "distinct (map fst ys)"
  shows "sort_key fst xs = sort_key fst ys \<longleftrightarrow> map_of xs = map_of ys"
proof
  assume eq: "sort_key fst xs = sort_key fst ys"
  then have "set xs = set ys" by (metis set_sort)
  then show "map_of xs = map_of ys" using assms map_of_inject_set by blast
next
  assume "map_of xs = map_of ys"
  then have "set xs = set ys" using assms map_of_inject_set by blast
  then have "mset xs = mset ys"
    using assms by (metis distinct_map set_eq_iff_mset_eq_distinct)
  then show "sort_key fst xs = sort_key fst ys"
    using assms by (intro sort_key_inj_key_eq) (simp_all add: distinct_map)
qed

lemma same_snapshot:
  "sort_keys (canonicalise_for_hash (JObj (projection fs d))) = sort_keys (canonicalise_for_hash (JObj (projection fs d')))
   \<longleftrightarrow> (\<forall>k\<in>set fs. def_field d k = def_field d' k)"
  unfolding snapshot_sorted json.inject distinct_sorted_inject [OF normal_object_keys normal_object_keys]
  by (auto simp: fun_eq_iff normal_object_map)

definition hashed_text :: "hash_env \<Rightarrow> field_registry \<Rightarrow> bool option \<Rightarrow> string option \<Rightarrow> jobj \<Rightarrow> string" where
  "hashed_text env reg own kind d =
     (case hashed_fields_for env reg kind of
        Inl e \<Rightarrow> []
      | Inr fds \<Rightarrow> dumps (sort_keys (canonicalise_for_hash (JObj (projection
          (if ownership_enabled env own then fds @ OWNERSHIP_FIELDS else fds) d)))))"

text \<open>C29. Drift is a change of an identity field. Let the hash of a definition be declared
  and another one be hashable: drift is reported iff some identity field of the kind
  differs, after key order and the representation of dates are normalised, or is present
  in only one of the two, unless two different texts are exhibited that SHA-256 does not
  tell apart. A change of any other field, ownership included unless it is opted in, is
  not drift.\<close>

theorem drift_exact:
  assumes "canonical_hash sha env reg d own kind = Inr h" and "h \<noteq> []"
    and "canonical_hash sha env reg d' own kind = Inr h'"
  shows "detect_drift sha env reg (Some h) d' own kind
      = Inr (\<exists>k\<in>identity_fields env reg own kind. def_field d k \<noteq> def_field d' k)
    \<or> (hashed_text env reg own kind d \<noteq> hashed_text env reg own kind d'
       \<and> sha (hashed_text env reg own kind d) = sha (hashed_text env reg own kind d'))"
proof -
  obtain fds where f: "hashed_fields_for env reg kind = Inr fds"
    using assms(1) by (auto simp: canonical_hash_def split: sum.splits)
  define fs where "fs = (if ownership_enabled env own then fds @ OWNERSHIP_FIELDS else fds)"
  let ?s = "\<lambda>d. canonicalise_for_hash (JObj (projection fs d))"
  have ids: "identity_fields env reg own kind = set fs"
    by (simp add: identity_fields_def f fs_def)
  have ht: "hashed_text env reg own kind d = dumps (sort_keys (?s d))" for d
    by (simp add: hashed_text_def f fs_def)
  have hash: "canonical_hash sha env reg d own kind =
      (if serialisable (?s d) then Inr (sha (dumps (sort_keys (?s d)))) else Inl ''TypeError'')" for d
    unfolding canonical_hash_def f Let_def sum.case fs_def ..
  have h: "serialisable (?s d)" "h = sha (dumps (sort_keys (?s d)))"
    using assms(1) unfolding hash by (simp_all split: if_splits del: canonicalise_for_hash.simps)
  have h': "serialisable (?s d')" "h' = sha (dumps (sort_keys (?s d')))"
    using assms(3) unfolding hash by (simp_all split: if_splits del: canonicalise_for_hash.simps)
  have "dumps (sort_keys (?s d)) = dumps (sort_keys (?s d')) \<longleftrightarrow> sort_keys (?s d) = sort_keys (?s d')"
    using dumps_inject [OF serialisable_sort [OF h(1)] serialisable_sort [OF h'(1)], of "[]" "[]"]
    by (auto simp: delim_def)
  also have "\<dots> \<longleftrightarrow> (\<forall>k\<in>set fs. def_field d k = def_field d' k)" by (rule same_snapshot)
  finally have same: "dumps (sort_keys (?s d)) = dumps (sort_keys (?s d')) \<longleftrightarrow> (\<forall>k\<in>set fs. def_field d k = def_field d' k)" .
  have "detect_drift sha env reg (Some h) d' own kind = Inr (h' \<noteq> h)"
    using assms(2) by (simp add: detect_drift_def assms(3))
  then show ?thesis
    unfolding ht ids using same h(2) h'(2) by auto
qed

definition plain_hash_env :: hash_env where
  "plain_hash_env = \<lparr> he_strict = None, he_owner = Some '' Yes'' \<rparr>"

lemma drift_exact_witness:
  "detect_drift id plain_hash_env HASHED_FIELDS_BY_KIND
     (Some (dumps (JObj [(''firmware_hash'', JStr ''f1''), (''owner'', JStr ''ann'')])))
     [(''firmware_hash'', JStr ''f1''), (''owner'', JStr ''bob''), (''hours'', JInt 7)] None (Some ''drone'') = Inr True"
proof -
  let ?d = "[(''owner'', JStr ''ann''), (''firmware_hash'', JStr ''f1'')]"
  let ?d' = "[(''firmware_hash'', JStr ''f1''), (''owner'', JStr ''bob''), (''hours'', JInt 7)]"
  have 1: "canonical_hash id plain_hash_env HASHED_FIELDS_BY_KIND ?d None (Some ''drone'')
      = Inr (dumps (JObj [(''firmware_hash'', JStr ''f1''), (''owner'', JStr ''ann'')]))" by code_simp
  have 2: "canonical_hash id plain_hash_env HASHED_FIELDS_BY_KIND ?d' None (Some ''drone'')
      = Inr (dumps (JObj [(''firmware_hash'', JStr ''f1''), (''owner'', JStr ''bob'')]))" by code_simp
  have fields: "hashed_fields_for plain_hash_env HASHED_FIELDS_BY_KIND (Some ''drone'') = Inr AUTONOMY_ASSET_FIELDS"
    by (simp add: hashed_fields_for_def HASHED_FIELDS_BY_KIND_def)
  have "ownership_enabled plain_hash_env None" by code_simp
  then have "''owner'' \<in> identity_fields plain_hash_env HASHED_FIELDS_BY_KIND None (Some ''drone'')"
    by (simp add: identity_fields_def fields OWNERSHIP_FIELDS_def)
  moreover have "def_field ?d ''owner'' \<noteq> def_field ?d' ''owner''"
    by (simp add: def_field_def)
  ultimately have "\<exists>k\<in>identity_fields plain_hash_env HASHED_FIELDS_BY_KIND None (Some ''drone'').
      def_field ?d k \<noteq> def_field ?d' k" by blast
  then show ?thesis
    using drift_exact [OF 1 _ 2] by simp
qed

text \<open>Without the opt-in a change of owner is no drift.\<close>

lemma owner_change_unseen:
  assumes "canonical_hash sha env reg d own kind = Inr h" "hashed_fields_for env reg kind = Inr fds"
    "set fds \<inter> {''owner''} = {}" "\<not> ownership_enabled env own"
  shows "canonical_hash sha env reg ((''owner'', v) # d) own kind = Inr h"
proof -
  have "projection fds ((''owner'', v) # d) = projection fds d"
    using assms(3) unfolding projection_def by (intro arg_cong [where f = concat] map_cong) auto
  with assms(1,2,4) show ?thesis unfolding canonical_hash_def by (simp del: canonicalise_for_hash.simps)
qed

end
