(* ===== verification/Versions.thy ===== *)
theory Versions
  imports Integrity RiskScore Delegation
begin

text \<open>
  The version history of definitions (\<open>kya/versioning.py\<close>): the append-only table of
  snapshots with its retry under rival writers, the keys of other principals in it, the
  idempotent snapshot on first sight with the policy override it may set, and rollback.
  Telemetry, realtime signals and logging are left out; a JSON column gives back what was
  stored.
\<close>

section \<open>The table\<close>

record version_row =
  av_tenant :: ident
  av_agent :: string
  av_no :: int
  av_def :: jobj
  av_note :: "string option"
  av_by :: "ident option"
  av_occurred :: "instant option"
  av_created :: instant

type_synonym version_table = "version_row list"

definition history :: "version_table \<Rightarrow> ident \<Rightarrow> string \<Rightarrow> version_table" where
  "history db t a = filter (\<lambda>r. av_tenant r = t \<and> av_agent r = a) db"

definition next_version_no :: "version_table \<Rightarrow> ident \<Rightarrow> string \<Rightarrow> int" where
  "next_version_no db t a = fold (\<lambda>r m. max m (av_no r)) (history db t a) 0 + 1"

section \<open>Keys\<close>

definition AGENT_KEY_LEN :: nat where "AGENT_KEY_LEN = 512"

definition compose_principal_key :: "string \<Rightarrow> ident \<Rightarrow> string + string" where
  "compose_principal_key kind pid =
     (if kind = ''agent'' then (if CHR '':'' \<in> set pid then Inl ''ValueError'' else Inr pid)
      else if CHR '':'' \<in> set pid then Inl ''ValueError''
      else if AGENT_KEY_LEN < length kind + 1 + length pid then Inl ''ValueError''
      else Inr (kind @ '':'' @ pid))"

section \<open>Snapshots\<close>

text \<open>
  A commit is accepted, or fails on the primary key; then the rollback leaves the table
  that the other writers committed.
\<close>

datatype version_commit = VersionStored | VersionTaken version_table

fun snapshot_loop ::
    "nat \<Rightarrow> version_commit list \<Rightarrow> version_table \<Rightarrow> (int \<Rightarrow> version_row) \<Rightarrow> ident \<Rightarrow> string \<Rightarrow>
     (string + int) \<times> version_table" where
  "snapshot_loop attempt (VersionTaken rival # cs) db row t a =
     (if attempt = 29 then (Inl ''IntegrityError'', rival) else snapshot_loop (Suc attempt) cs rival row t a)"
| "snapshot_loop attempt cs db row t a = (Inr (next_version_no db t a), db @ [row (next_version_no db t a)])"

definition snapshot_agent ::
    "version_commit list \<Rightarrow> instant \<Rightarrow> version_table \<Rightarrow> ident \<Rightarrow> string \<Rightarrow> jobj \<Rightarrow> ident option \<Rightarrow>
     string option \<Rightarrow> instant option \<Rightarrow> (string + int) \<times> version_table" where
  "snapshot_agent cs now db t a d by note occurred =
     snapshot_loop 0 cs db (\<lambda>n. \<lparr> av_tenant = t, av_agent = a, av_no = n, av_def = d, av_note = note, av_by = by,
       av_occurred = occurred, av_created = now \<rparr>) t a"

definition snapshot_principal ::
    "version_commit list \<Rightarrow> instant \<Rightarrow> version_table \<Rightarrow> ident \<Rightarrow> string \<Rightarrow> ident \<Rightarrow> jobj \<Rightarrow> ident option \<Rightarrow>
     string option \<Rightarrow> instant option \<Rightarrow> (string + int) \<times> version_table" where
  "snapshot_principal cs now db t kind pid d by note occurred =
     (case compose_principal_key kind pid of
        Inl e \<Rightarrow> (Inl e, db) | Inr k \<Rightarrow> snapshot_agent cs now db t k d by note occurred)"

section \<open>Reading\<close>

text \<open>The lag in milliseconds: seconds as a float, times 1000, cut to an integer.\<close>

definition lag_ms :: "instant option \<Rightarrow> instant option \<Rightarrow> int option" where
  "lag_ms occurred ingested =
     (case (occurred, ingested) of
        (Some x, Some y) \<Rightarrow> Some (py_trunc (fmul (fdiv (of_int (y - x)) 1000000) 1000))
      | _ \<Rightarrow> None)"

record version_meta =
  vm_no :: int
  vm_note :: "string option"
  vm_by :: "ident option"
  vm_occurred :: "instant option"
  vm_ingested :: instant
  vm_lag :: "int option"

definition author :: "ident option \<Rightarrow> ident option" where
  "author by = (if truthy by then by else None)"

definition meta_of :: "version_row \<Rightarrow> version_meta" where
  "meta_of r = \<lparr> vm_no = av_no r, vm_note = av_note r, vm_by = author (av_by r), vm_occurred = av_occurred r,
     vm_ingested = av_created r, vm_lag = lag_ms (av_occurred r) (Some (av_created r)) \<rparr>"

definition list_versions :: "version_table \<Rightarrow> ident \<Rightarrow> string \<Rightarrow> nat \<Rightarrow> version_meta list" where
  "list_versions db t a limit =
     map meta_of (take limit (rev (sort_key av_no (history db t a))))"

definition get_version :: "version_table \<Rightarrow> ident \<Rightarrow> string \<Rightarrow> int \<Rightarrow> version_row option" where
  "get_version db t a n = List.find (\<lambda>r. av_no r = n) (history db t a)"

definition list_principal_versions ::
    "version_table \<Rightarrow> ident \<Rightarrow> string \<Rightarrow> ident \<Rightarrow> nat \<Rightarrow> string + version_meta list" where
  "list_principal_versions db t kind pid limit =
     (case compose_principal_key kind pid of Inl e \<Rightarrow> Inl e | Inr k \<Rightarrow> Inr (list_versions db t k limit))"

definition get_principal_version ::
    "version_table \<Rightarrow> ident \<Rightarrow> string \<Rightarrow> ident \<Rightarrow> int \<Rightarrow> string + version_row option" where
  "get_principal_version db t kind pid n =
     (case compose_principal_key kind pid of Inl e \<Rightarrow> Inl e | Inr k \<Rightarrow> Inr (get_version db t k n))"

text \<open>Rollback appends a copy of an older version.\<close>

definition rollback_to ::
    "version_commit list \<Rightarrow> instant \<Rightarrow> version_table \<Rightarrow> ident \<Rightarrow> string \<Rightarrow> int \<Rightarrow> ident option \<Rightarrow>
     (string + int \<times> jobj \<times> string) \<times> version_table" where
  "rollback_to cs now db t a n by =
     (case get_version db t a n of
        None \<Rightarrow> (Inl ''ValueError'', db)
      | Some r \<Rightarrow>
          (let note = ''rolled back from v'' @ int_text n
           in (case snapshot_agent cs now db t a (av_def r) by (Some note) None of
                 (Inl e, db') \<Rightarrow> (Inl e, db')
               | (Inr m, db') \<Rightarrow> (Inr (m, av_def r, note), db'))))"

section \<open>First sight\<close>

text \<open>
  What the automatic policy uses: the switch, the clock and tables of the score with how
  a definition reads as an agent, the override table's next id, and whether its queries
  succeed.
\<close>

record sight_env =
  se_sha :: "string \<Rightarrow> string"
  se_hash :: hash_env
  se_fields :: field_registry
  se_auto :: "string option"
  se_risk :: risk_env
  se_read :: "jobj \<Rightarrow> risk_agent"
  se_db_ok :: bool
  se_new_id :: nat

definition RISK_TIER_DEFAULT_MODE :: "(string \<times> string option) list" where
  "RISK_TIER_DEFAULT_MODE = [(''critical'', Some ''flag''), (''high'', None), (''medium'', None), (''low'', None)]"

definition auto_defaults_on :: "sight_env \<Rightarrow> bool" where
  "auto_defaults_on e =
     (lower (case se_auto e of Some v \<Rightarrow> v | None \<Rightarrow> ''1'') \<notin> set [''0'', ''false'', ''no'', ''off''])"

definition definition_score :: "sight_env \<Rightarrow> instant \<Rightarrow> jobj \<Rightarrow> int option" where
  "definition_score e now d = map_option as_score (score_agent now (se_risk e) None None None (se_read e d))"

definition maybe_apply_risk_tier_default ::
    "sight_env \<Rightarrow> instant \<Rightarrow> ident \<Rightarrow> string \<Rightarrow> jobj \<Rightarrow> ident option \<Rightarrow> overrides \<Rightarrow> overrides" where
  "maybe_apply_risk_tier_default e now t a d by ovr =
     (if \<not> auto_defaults_on e then ovr
      else (case definition_score e now d of
        None \<Rightarrow> ovr
      | Some s \<Rightarrow>
          (case map_of RISK_TIER_DEFAULT_MODE (bucket_for s) of
             Some (Some mode) \<Rightarrow>
               (let specific = list_delegation_overrides (se_db_ok e) now ovr t False (Some a) None None;
                    wide = filter (\<lambda>r. or_parent r = None)
                      (list_delegation_overrides (se_db_ok e) now ovr t False None None None)
                in if specific \<noteq> [] \<or> wide \<noteq> [] then ovr
                   else snd (set_delegation_override (se_new_id e) now ovr t (Some mode) (Some a) None None
                     (Some (''auto-default: risk_bucket='' @ bucket_for s @ '' (score='' @ int_text s @ '')''))
                     by None None))
           | _ \<Rightarrow> ovr)))"

definition snapshot_on_first_sight ::
    "sight_env \<Rightarrow> version_commit list \<Rightarrow> instant \<Rightarrow> ident \<Rightarrow> string \<Rightarrow> jobj \<Rightarrow> ident option \<Rightarrow> string option \<Rightarrow>
     version_table \<Rightarrow> overrides \<Rightarrow> (string + int \<times> bool) \<times> version_table \<times> overrides" where
  "snapshot_on_first_sight e cs now t a d by note db ovr =
     (case canonical_hash (se_sha e) (se_hash e) (se_fields e) d None None of
        Inl err \<Rightarrow> (Inl err, db, ovr)
      | Inr new_hash \<Rightarrow>
          (let recent = list_versions db t a 1;
               latest = (case recent of [] \<Rightarrow> None | m # _ \<Rightarrow> get_version db t a (vm_no m));
               latest_hash = map_option (\<lambda>r. canonical_hash (se_sha e) (se_hash e) (se_fields e) (av_def r) None None) latest
           in (case latest_hash of
                 Some (Inl err) \<Rightarrow> (Inl err, db, ovr)
               | _ \<Rightarrow>
                   if latest_hash = Some (Inr new_hash) then (Inr (vm_no (hd recent), False), db, ovr)
                   else (case snapshot_agent cs now db t a d by note None of
                     (Inl err, db') \<Rightarrow> (Inl err, db', ovr)
                   | (Inr n, db') \<Rightarrow>
                       (Inr (n, True), db',
                        if recent = [] then maybe_apply_risk_tier_default e now t a d by ovr else ovr)))))"

section \<open>The history is append-only\<close>

definition numbered :: "version_table \<Rightarrow> bool" where
  "numbered db = (\<forall>t a. map av_no (history db t a) = [1..int (length (history db t a))])"

lemma history_append: "history (db @ [r]) t a = history db t a @ (if av_tenant r = t \<and> av_agent r = a then [r] else [])"
  by (simp add: history_def)

lemma fold_max_upto: "fold (\<lambda>r m. max m (av_no r)) rs b = fold max (map av_no rs) b"
  by (induction rs arbitrary: b) (simp_all add: max.commute)

lemma fold_max_numbers: "fold max [1..int n] 0 = int n"
proof (induction n)
  case (Suc n)
  have "[1..int (Suc n)] = [1..int n] @ [int (Suc n)]" using upto_rec2 [of 1 "int (Suc n)"] by simp
  with Suc show ?case by simp
qed simp

lemma next_numbered:
  assumes "numbered db"
  shows "next_version_no db t a = int (length (history db t a)) + 1"
proof -
  have "map av_no (history db t a) = [1..int (length (history db t a))]"
    using assms unfolding numbered_def by blast
  then have "fold (\<lambda>r m. max m (av_no r)) (history db t a) 0 = int (length (history db t a))"
    unfolding fold_max_upto using fold_max_numbers by metis
  then show ?thesis by (simp add: next_version_no_def)
qed

text \<open>One snapshot that no rival disturbs.\<close>

inductive version_step :: "version_table \<Rightarrow> version_table \<Rightarrow> bool" where
  stored: "snapshot_agent [] now db t a d by note occurred = (Inr n, db') \<Longrightarrow> version_step db db'"

inductive_simps version_step_iff: "version_step db db'"

lemma snapshot_uncontended:
  "snapshot_agent [] now db t a d by note occurred =
     (Inr (next_version_no db t a), db @ [\<lparr> av_tenant = t, av_agent = a, av_no = next_version_no db t a, av_def = d,
        av_note = note, av_by = by, av_occurred = occurred, av_created = now \<rparr>])"
  by (simp add: snapshot_agent_def)

lemma step_numbered:
  assumes "version_step db db'" "numbered db"
  shows "numbered db' \<and> prefix db db'"
proof -
  obtain t a r where db': "db' = db @ [r]" "av_tenant r = t" "av_agent r = a" "av_no r = next_version_no db t a"
    using assms(1) by (auto simp: version_step_iff snapshot_uncontended)
  have "map av_no (history db' t' a') = [1..int (length (history db' t' a'))]" for t' a'
  proof (cases "t' = t \<and> a' = a")
    case True
    have "map av_no (history db t a) = [1..int (length (history db t a))]"
      using assms(2) unfolding numbered_def by blast
    with True db' next_numbered [OF assms(2), of t a] show ?thesis
      using upto_rec2 [of 1 "int (length (history db t a)) + 1"] by (simp add: history_append add.commute)
  next
    case False
    then show ?thesis using assms(2) db' unfolding numbered_def by (auto simp: history_append)
  qed
  then show ?thesis using db' by (simp add: numbered_def)
qed

lemma steps_numbered:
  assumes "version_step\<^sup>*\<^sup>* db db'" "numbered db"
  shows "numbered db' \<and> prefix db db'"
  using assms
proof (induction rule: rtranclp_induct)
  case (step db1 db2)
  from step_numbered [OF step(2)] step(3) [OF step(4)] show ?case by (meson prefix_order.trans)
qed simp

text \<open>Each rival table comes about by further snapshots of the one before.\<close>

fun rivals_snapshot :: "version_table \<Rightarrow> version_commit list \<Rightarrow> bool" where
  "rivals_snapshot db (VersionTaken rival # cs) = (version_step\<^sup>*\<^sup>* db rival \<and> rivals_snapshot rival cs)"
| "rivals_snapshot db (VersionStored # cs) = True"
| "rivals_snapshot db [] = True"

lemma loop_result:
  assumes "rivals_snapshot db cs"
    "snapshot_loop attempt cs db row t a = (res, db')" "attempt \<le> 29"
  shows "\<exists>base. version_step\<^sup>*\<^sup>* db base \<and>
    ((res = Inl ''IntegrityError'' \<and> db' = base \<and> 30 \<le> attempt + length cs) \<or>
     (res = Inr (next_version_no base t a) \<and> db' = base @ [row (next_version_no base t a)]))"
  using assms
proof (induction attempt cs db row t a rule: snapshot_loop.induct)
  case (1 attempt rival cs db row t a)
  show ?case
  proof (cases "attempt = 29")
    case True
    with 1 show ?thesis by auto
  next
    case False
    with 1 obtain base where "version_step\<^sup>*\<^sup>* rival base" and
      b: "(res = Inl ''IntegrityError'' \<and> db' = base \<and> 30 \<le> Suc attempt + length cs) \<or>
       (res = Inr (next_version_no base t a) \<and> db' = base @ [row (next_version_no base t a)])"
      by auto
    moreover have "version_step\<^sup>*\<^sup>* db rival" using 1 by simp
    ultimately show ?thesis by (intro exI [of _ base]) (auto intro: rtranclp_trans)
  qed
qed auto

lemma get_version_numbered:
  assumes "numbered db" "1 \<le> n" "n \<le> int (length (history db t a))"
  shows "get_version db t a n = Some (history db t a ! (nat n - 1))"
proof -
  let ?h = "history db t a"
  have nos: "map av_no ?h = [1..int (length ?h)]" using assms(1) unfolding numbered_def by blast
  have no: "av_no (?h ! i) = int i + 1" if "i < length ?h" for i
  proof -
    have "av_no (?h ! i) = map av_no ?h ! i" using that by simp
    then show ?thesis unfolding nos using that by (simp add: nth_upto)
  qed
  have i: "nat n - 1 < length ?h" using assms(2,3) by linarith
  have "av_no (?h ! (nat n - 1)) = n" using no [OF i] assms(2) by simp
  moreover have "av_no (?h ! j) \<noteq> n" if "j < nat n - 1" for j
    using no [of j] that i assms(2) by auto
  ultimately show ?thesis
    unfolding get_version_def find_Some_iff using i by (intro exI [of _ "nat n - 1"]) auto
qed

lemma get_version_prefix:
  assumes "prefix db db'" "get_version db t a n = Some r"
  shows "get_version db' t a n = Some r"
  using assms by (auto simp: prefix_def get_version_def history_def find_append)

lemma snapshot_facts:
  assumes "numbered db" "rivals_snapshot db cs" "snapshot_agent cs now db t a d by note occurred = (res, db')"
  shows "version_step\<^sup>*\<^sup>* db db' \<and> numbered db' \<and> prefix db db'
    \<and> (case res of
         Inl e \<Rightarrow> 30 \<le> length cs
       | Inr n \<Rightarrow> n = int (length (history db' t a)) \<and> map_option av_def (get_version db' t a n) = Some d)"
proof -
  let ?row = "\<lambda>n. \<lparr> av_tenant = t, av_agent = a, av_no = n, av_def = d, av_note = note, av_by = by,
       av_occurred = occurred, av_created = now \<rparr>"
  obtain base where base: "version_step\<^sup>*\<^sup>* db base"
      and r: "(res = Inl ''IntegrityError'' \<and> db' = base \<and> 30 \<le> length cs) \<or>
        (res = Inr (next_version_no base t a) \<and> db' = base @ [?row (next_version_no base t a)])"
    using loop_result [OF assms(2) assms(3) [unfolded snapshot_agent_def]] by auto
  have nb: "numbered base" using steps_numbered [OF base assms(1)] by simp
  have reach: "version_step\<^sup>*\<^sup>* db db'"
  proof (cases "db' = base")
    case False
    with r have "snapshot_agent [] now base t a d by note occurred = (Inr (next_version_no base t a), db')"
      by (auto simp: snapshot_uncontended)
    then show ?thesis using base by (auto intro: rtranclp.rtrancl_into_rtrancl version_step.stored)
  qed (use base in simp)
  have n': "numbered db'" and p: "prefix db db'" using steps_numbered [OF reach assms(1)] by auto
  have "case res of Inl e \<Rightarrow> 30 \<le> length cs
       | Inr n \<Rightarrow> n = int (length (history db' t a)) \<and> map_option av_def (get_version db' t a n) = Some d"
  proof (cases res)
    case (Inr n)
    with r have n: "n = next_version_no base t a" "db' = base @ [?row n]" by auto
    then have len: "n = int (length (history db' t a))"
      using next_numbered [OF nb, of t a] by (simp add: history_append)
    have "history db' t a = history base t a @ [?row n]" using n by (simp add: history_append)
    moreover have "nat n - 1 = length (history base t a)" using n(1) next_numbered [OF nb, of t a] by simp
    ultimately have "history db' t a ! (nat n - 1) = ?row n" by simp
    moreover have "1 \<le> n" using n(1) next_numbered [OF nb, of t a] by simp
    ultimately show ?thesis
      using get_version_numbered [OF n', of n t a] len Inr by simp
  qed (use r in auto)
  then show ?thesis using reach n' p by blast
qed

text \<open>C21. The history of definitions is append-only and gap-free under contention. Start
  with a table whose versions of every agent are numbered 1, 2, 3 and so on, and let rival
  writers take the number of up to 29 attempts with any number of snapshots of their own:
  the call ends with its definition stored under the next number of its agent, and only
  after 30 lost races with an error. Either way the table has come about by snapshots
  nobody disturbed, is numbered again, and holds every earlier version unchanged.\<close>

theorem snapshot_linearises:
  assumes "numbered db" and "rivals_snapshot db cs"
    and "snapshot_agent cs now db t a d by note occurred = (res, db')"
  shows "version_step\<^sup>*\<^sup>* db db' \<and> numbered db' \<and> prefix db db'
    \<and> (\<forall>t' a' n r. get_version db t' a' n = Some r \<longrightarrow> get_version db' t' a' n = Some r)
    \<and> (case res of
         Inl e \<Rightarrow> 30 \<le> length cs
       | Inr n \<Rightarrow> n = int (length (history db' t a)) \<and> map_option av_def (get_version db' t a n) = Some d)"
  using snapshot_facts [OF assms] get_version_prefix by blast

definition first_row :: version_row where
  "first_row = \<lparr> av_tenant = ''t'', av_agent = ''bot'', av_no = 1, av_def = [(''name'', JStr ''b1'')], av_note = None,
     av_by = None, av_occurred = None, av_created = 3 \<rparr>"

lemma numbered_Nil: "numbered []" by (simp add: numbered_def history_def)

lemma first_row_step: "version_step [] [first_row]"
proof -
  have "snapshot_agent [] 3 [] ''t'' ''bot'' [(''name'', JStr ''b1'')] None None None = (Inr 1, [first_row])"
    by (simp add: snapshot_uncontended first_row_def next_version_no_def history_def)
  then show ?thesis by (rule version_step.stored)
qed

lemma snapshot_linearises_witness:
  "fst (snapshot_agent [VersionTaken [first_row]] 5 [] ''t'' ''bot'' [(''name'', JStr ''b2'')] None None None) = Inr 2
   \<and> get_version (snd (snapshot_agent [VersionTaken [first_row]] 5 [first_row] ''t'' ''bot'' [(''name'', JStr ''b2'')] None None None))
       ''t'' ''bot'' 1 = Some first_row"
proof -
  have run: "snapshot_agent [VersionTaken [first_row]] 5 db ''t'' ''bot'' [(''name'', JStr ''b2'')] None None None =
      (Inr 2, [first_row] @ [\<lparr> av_tenant = ''t'', av_agent = ''bot'', av_no = 2, av_def = [(''name'', JStr ''b2'')],
         av_note = None, av_by = None, av_occurred = None, av_created = 5 \<rparr>])" for db
    by (simp add: snapshot_agent_def next_version_no_def history_def first_row_def)
  have n: "numbered [first_row]" using step_numbered [OF first_row_step numbered_Nil] by simp
  have rs: "rivals_snapshot [first_row] [VersionTaken [first_row]]" by simp
  have "get_version [first_row] ''t'' ''bot'' 1 = Some first_row"
    by (simp add: get_version_def history_def first_row_def)
  with snapshot_linearises [OF n rs run] show ?thesis
    by (simp only: run fst_conv snd_conv)
qed

section \<open>First sight settles\<close>

lemma latest_version:
  assumes "numbered db"
  shows "list_versions db t a 1 = (if history db t a = [] then [] else [meta_of (last (history db t a))])"
    and "history db t a \<noteq> [] \<Longrightarrow> get_version db t a (av_no (last (history db t a))) = Some (last (history db t a))"
proof -
  let ?h = "history db t a"
  have nos: "map av_no ?h = [1..int (length ?h)]" using assms unfolding numbered_def by blast
  then have "sorted (map av_no ?h)" by simp
  then have sorted: "sort_key av_no ?h = ?h" by (rule sort_key_id_if_sorted)
  show "list_versions db t a 1 = (if ?h = [] then [] else [meta_of (last ?h)])"
    unfolding list_versions_def sorted by (cases ?h rule: rev_cases) simp_all
  assume ne: "?h \<noteq> []"
  have "av_no (last ?h) = last (map av_no ?h)" using ne by (simp add: last_map)
  also have "\<dots> = int (length ?h)"
    unfolding nos using ne upto_rec2 [of 1 "int (length ?h)"] by (cases "length ?h") simp_all
  finally have no: "av_no (last ?h) = int (length ?h)" .
  have "get_version db t a (int (length ?h)) = Some (?h ! (nat (int (length ?h)) - 1))"
    using ne by (intro get_version_numbered [OF assms]) (simp_all add: Suc_le_eq)
  then show "get_version db t a (av_no (last ?h)) = Some (last ?h)"
    using ne no by (simp add: last_conv_nth)
qed

definition last_hash :: "sight_env \<Rightarrow> version_table \<Rightarrow> ident \<Rightarrow> string \<Rightarrow> (string + string) option" where
  "last_hash e db t a =
     (if history db t a = [] then None
      else Some (canonical_hash (se_sha e) (se_hash e) (se_fields e) (av_def (last (history db t a))) None None))"

lemma first_sight_numbered:
  assumes "numbered db" "canonical_hash (se_sha e) (se_hash e) (se_fields e) d None None = Inr h"
  shows "snapshot_on_first_sight e cs now t a d by note db ovr =
    (case last_hash e db t a of
       Some (Inl err) \<Rightarrow> (Inl err, db, ovr)
     | _ \<Rightarrow>
       if last_hash e db t a = Some (Inr h) then (Inr (av_no (last (history db t a)), False), db, ovr)
       else (case snapshot_agent cs now db t a d by note None of
               (Inl err, db') \<Rightarrow> (Inl err, db', ovr)
             | (Inr n, db') \<Rightarrow> (Inr (n, True), db',
                 if history db t a = [] then maybe_apply_risk_tier_default e now t a d by ovr else ovr)))"
  using latest_version [OF assms(1), of t a]
  by (cases "history db t a = []")
     (simp_all add: snapshot_on_first_sight_def assms(2) Let_def last_hash_def meta_of_def)

text \<open>First sight settles. Once a call has returned a version number for a definition,
  calling again with it, or with any definition of the same hash, returns that number and
  writes neither a version nor an override, however the first call raced with others.\<close>

theorem first_sight_settles:
  assumes "numbered db" and "rivals_snapshot db cs"
    and "snapshot_on_first_sight e cs now t a d by note db ovr = (Inr (n, b), db', ovr')"
    and "canonical_hash (se_sha e) (se_hash e) (se_fields e) d' None None =
         canonical_hash (se_sha e) (se_hash e) (se_fields e) d None None"
  shows "snapshot_on_first_sight e cs' now' t a d' by' note' db' ovr' = (Inr (n, False), db', ovr')"
proof -
  obtain h where h: "canonical_hash (se_sha e) (se_hash e) (se_fields e) d None None = Inr h"
    using assms(3) by (auto simp: snapshot_on_first_sight_def split: sum.splits)
  have h': "canonical_hash (se_sha e) (se_hash e) (se_fields e) d' None None = Inr h" using assms(4) h by simp
  note run = assms(3) [unfolded first_sight_numbered [OF assms(1) h]]
  show ?thesis
  proof (cases "last_hash e db t a = Some (Inr h)")
    case True
    with run have "n = av_no (last (history db t a))" "db' = db" by auto
    with True first_sight_numbered [OF assms(1) h', of cs' now' t a by' note' ovr'] show ?thesis by simp
  next
    case False
    with run obtain n1 db1 where s: "snapshot_agent cs now db t a d by note None = (Inr n1, db1)" "n = n1" "db' = db1"
      by (auto split: option.splits sum.splits prod.splits)
    have s': "snapshot_agent cs now db t a d by note None = (Inr n, db')" using s by simp
    have n': "numbered db'" and len: "n = int (length (history db' t a))"
        and def: "map_option av_def (get_version db' t a n) = Some d"
      using snapshot_facts [OF assms(1,2) s'] by auto
    then have ne: "history db' t a \<noteq> []"
      by (auto simp: get_version_def)
    have "last (history db' t a) = history db' t a ! (nat n - 1)"
      using ne len by (simp add: last_conv_nth)
    then have "av_def (last (history db' t a)) = d"
      using def get_version_numbered [OF n', of n t a] len ne by (simp add: Suc_le_eq)
    then have "last_hash e db' t a = Some (Inr h)" using ne h by (simp add: last_hash_def)
    moreover have "av_no (last (history db' t a)) = n"
    proof -
      have "get_version db' t a n = Some (last (history db' t a))"
        using get_version_numbered [OF n', of n t a] len ne \<open>last (history db' t a) = _\<close> by (simp add: Suc_le_eq)
      then show ?thesis by (auto simp: get_version_def find_Some_iff)
    qed
    ultimately show ?thesis
      using first_sight_numbered [OF n' h', of cs' now' t a by' note' ovr'] by simp
  qed
qed

end
