(* ===== verification/Faults.thy ===== *)
theory Faults
  imports Invocations Rogue
begin

text \<open>
  Two readings of an agent's record: the divergence rate over its invocations
  (\<open>kya/fault_attribution.py\<close>) and the quality counters with the points they add
  (\<open>kya/quality.py\<close>). Arithmetic on floats is rounded as the machine does it.
  Interpretation texts are left out.
\<close>

section \<open>Divergence\<close>

record divergence_report =
  dv_total :: int
  dv_refused :: int
  dv_blocked :: int
  dv_error :: int
  dv_score :: rat
  dv_class :: string

definition no_divergence :: divergence_report where
  "no_divergence = \<lparr> dv_total = 0, dv_refused = 0, dv_blocked = 0, dv_error = 0, dv_score = 0,
     dv_class = ''insufficient_data'' \<rparr>"

definition MIN_SAMPLE_SIZE :: int where "MIN_SAMPLE_SIZE = 10"
definition T_LOW :: rat where "T_LOW = fl (10 / 100)"
definition T_MID :: rat where "T_MID = fl (30 / 100)"

definition classify_divergence :: "rat \<Rightarrow> int \<Rightarrow> string" where
  "classify_divergence score calls =
     (if calls < MIN_SAMPLE_SIZE then ''insufficient_data''
      else if score < T_LOW then ''intentional''
      else if score < T_MID then ''mixed''
      else ''agent_misbehavior'')"

text \<open>The rows of an agent in the window, by start time where there is one.\<close>

definition window_invocations :: "invocation_db \<Rightarrow> ident \<Rightarrow> string \<Rightarrow> int \<Rightarrow> instant \<Rightarrow> invocation list" where
  "window_invocations db t agent days now =
     filter (\<lambda>r. iv_tenant r = t \<and> iv_agent r = agent
        \<and> now - days * day \<le> (case iv_started r of Some s \<Rightarrow> s | None \<Rightarrow> iv_occurred r)) (id_rows db)"

definition outcome_count :: "string \<Rightarrow> invocation list \<Rightarrow> int" where
  "outcome_count oc rs = int (length (filter (\<lambda>r. iv_outcome r = oc) rs))"

definition divergence_rate :: "int \<Rightarrow> int \<Rightarrow> int \<Rightarrow> int \<Rightarrow> rat" where
  "divergence_rate calls refused blocked errored =
     (let part = (\<lambda>n w. fmul (fdiv (of_int n) (of_int calls)) w)
      in min 1 (fadd (fadd (fadd 0 (part refused (15 / 10))) (part blocked (15 / 10))) (part errored (5 / 10))))"

definition agent_divergence_score ::
    "bool \<Rightarrow> invocation_db \<Rightarrow> ident \<Rightarrow> string \<Rightarrow> int \<Rightarrow> instant \<Rightarrow> divergence_report" where
  "agent_divergence_score db_ok db t agent days now =
     (if \<not> db_ok then no_divergence
      else
        (let rs = window_invocations db t agent days now; calls = int (length rs);
             refused = outcome_count ''refused'' rs; blocked = outcome_count ''blocked'' rs;
             errored = outcome_count ''error'' rs;
             counted = no_divergence\<lparr> dv_total := calls, dv_refused := refused, dv_blocked := blocked, dv_error := errored \<rparr>
         in if calls = 0 then counted
            else (let s = divergence_rate calls refused blocked errored
                  in counted\<lparr> dv_score := s, dv_class := classify_divergence s calls \<rparr>)))"

section \<open>Quality\<close>

text \<open>The counters of the process; a hallucination adds its weight, a float.\<close>

type_synonym weighted = "(string list \<times> rat) list"

record quality_counters =
  qc_hallucination :: weighted
  qc_irrelevance :: weighted
  qc_injection :: weighted
  qc_requests :: weighted

definition add_weight :: "string list \<Rightarrow> rat \<Rightarrow> weighted \<Rightarrow> weighted" where
  "add_weight ls x c = AList.update ls (fadd (case map_of c ls of Some n \<Rightarrow> n | None \<Rightarrow> 0) x) c"

text \<open>A counter refuses a negative amount; the failure is swallowed.\<close>

definition record_hallucination ::
    "string option \<Rightarrow> string option \<Rightarrow> rat \<Rightarrow> quality_counters option \<Rightarrow> quality_counters option" where
  "record_hallucination agent t score qc =
     (if score < 0 then qc
      else map_option (\<lambda>c. c\<lparr> qc_hallucination :=
        add_weight [or_else agent ''unknown'', or_else t ''unknown''] score (qc_hallucination c) \<rparr>) qc)"

definition record_qa_irrelevance ::
    "string option \<Rightarrow> string option \<Rightarrow> rat \<Rightarrow> quality_counters option \<Rightarrow> quality_counters option" where
  "record_qa_irrelevance agent t score qc =
     (if score < 0 then qc
      else map_option (\<lambda>c. c\<lparr> qc_irrelevance :=
        add_weight [or_else agent ''unknown'', or_else t ''unknown''] score (qc_irrelevance c) \<rparr>) qc)"

definition record_injection_attempt ::
    "string option \<Rightarrow> string option \<Rightarrow> string option \<Rightarrow> quality_counters option \<Rightarrow> quality_counters option" where
  "record_injection_attempt agent t technique qc =
     map_option (\<lambda>c. c\<lparr> qc_injection :=
        add_weight [or_else agent ''unknown'', or_else t ''unknown'', or_else technique ''unknown''] 1 (qc_injection c) \<rparr>) qc"

record quality_report =
  qr_hallucinations :: int
  qr_irrelevant :: int
  qr_injections :: int
  qr_calls :: int
  qr_hall_rate :: rat
  qr_qa_rate :: rat

definition scraped :: "string \<Rightarrow> weighted \<Rightarrow> int" where
  "scraped agent c = sum_list (map (\<lambda>(ls, x). py_trunc x) (filter (\<lambda>(ls, x). ls ! 0 = agent) c))"

definition get_quality_signals :: "string \<Rightarrow> quality_counters option \<Rightarrow> quality_report" where
  "get_quality_signals agent qc =
     (let n = (\<lambda>f. case qc of Some c \<Rightarrow> scraped agent (f c) | None \<Rightarrow> 0);
          h = n qc_hallucination; i = n qc_irrelevance; calls = n qc_requests;
          rate_of = (\<lambda>k. if 0 < calls then fdiv (of_int k) (of_int calls) else 0)
      in \<lparr> qr_hallucinations = h, qr_irrelevant = i, qr_injections = n qc_injection, qr_calls = calls,
           qr_hall_rate = rate_of h, qr_qa_rate = rate_of i \<rparr>)"

definition QUALITY_CAP :: int where "QUALITY_CAP = 30"

definition rate_points :: "rat \<Rightarrow> int \<Rightarrow> int \<Rightarrow> int" where
  "rate_points r high low = (if fl (25 / 100) < r then high else if fl (10 / 100) < r then low else 0)"

definition quality_score :: "quality_report \<Rightarrow> int" where
  "quality_score r =
     (let rates = (if 20 \<le> qr_calls r then rate_points (qr_hall_rate r) 20 10 + rate_points (qr_qa_rate r) 10 5 else 0);
          inj = (if 0 < qr_injections r then min 15 (3 + qr_injections r div 2) else 0)
      in min QUALITY_CAP (rates + inj))"

section \<open>Facts\<close>

lemma quality_score_bounds:
  assumes "0 \<le> qr_injections r"
  shows "0 \<le> quality_score r \<and> quality_score r \<le> 30"
  using assms by (auto simp: quality_score_def rate_points_def QUALITY_CAP_def Let_def)

text \<open>A partial hallucination of weight one half, once per session, is never reported.\<close>

lemma half_hallucinations_vanish:
  "qr_hallucinations (get_quality_signals ''bot''
     (record_hallucination (Some ''bot'') (Some ''u'') (1 / 2)
       (record_hallucination (Some ''bot'') (Some ''t'') (1 / 2)
         (Some \<lparr> qc_hallucination = [], qc_irrelevance = [], qc_injection = [], qc_requests = [] \<rparr>)))) = 0"
  by code_simp

text \<open>The thresholds of the documentation: below ten calls nothing is concluded, and being
  blocked on more than a fifth of the calls is already misbehaviour.\<close>

lemma few_calls_inconclusive:
  "dv_total (agent_divergence_score ok db t agent days now) < 10 \<Longrightarrow>
   dv_class (agent_divergence_score ok db t agent days now) = ''insufficient_data''"
  by (auto simp: agent_divergence_score_def classify_divergence_def no_divergence_def MIN_SAMPLE_SIZE_def Let_def
      split: if_splits)

lemma fifth_blocked_misbehaves: "classify_divergence (divergence_rate 10 0 2 0) 10 = ''agent_misbehavior''"
  by code_simp

end
