(* ===== verification/Compliance.thy ===== *)
theory Compliance
  imports RiskScore
begin

text \<open>
  Compliance scope (\<open>kya/compliance.py\<close>): the regimes with their retention, the screening
  tier of the EU AI Act, the controls a scope requires, and the block shown for an agent.
  A control is its id with the name of the field that records its evidence.
\<close>

section \<open>Tables\<close>

definition REGIMES :: "string list" where
  "REGIMES = [''gdpr'', ''eu_ai_act'', ''hipaa'', ''sox'', ''pci'', ''ccpa'', ''glba'', ''ferpa'', ''iso_27001'', ''soc2'',
     ''itar'', ''ear'', ''cmmc'', ''fedramp'', ''dfars_252_204_7012'', ''nist_800_171'', ''nist_800_53'', ''fips_140_2'',
     ''fips_140_3'', ''irap'', ''cccs'', ''c5'', ''esquema_nacional'', ''il5'', ''il6'', ''nydfs_500'', ''dora'', ''sr_11_7'',
     ''iso_42001'', ''eo_14110'', ''ai_bor'']"

definition REGIME_RETENTION :: "(string \<times> int) list" where
  "REGIME_RETENTION = map (\<lambda>(r, y). (r, 365 * y)) [
     (''gdpr'', 6), (''eu_ai_act'', 10), (''hipaa'', 6), (''sox'', 7), (''pci'', 1), (''ccpa'', 2), (''glba'', 5),
     (''ferpa'', 5), (''iso_27001'', 3), (''soc2'', 3), (''itar'', 5), (''ear'', 5), (''cmmc'', 6), (''fedramp'', 3),
     (''dfars_252_204_7012'', 6), (''nist_800_171'', 6), (''nist_800_53'', 6), (''fips_140_2'', 3), (''fips_140_3'', 3),
     (''irap'', 7), (''cccs'', 7), (''c5'', 6), (''esquema_nacional'', 6), (''il5'', 6), (''il6'', 25), (''nydfs_500'', 5),
     (''dora'', 5), (''sr_11_7'', 7), (''iso_42001'', 3), (''eo_14110'', 7), (''ai_bor'', 5)]"

text \<open>Hours to notify, and the format of the notice.\<close>

definition REGIME_BREACH_NOTIFY :: "(string \<times> int \<times> string) list" where
  "REGIME_BREACH_NOTIFY = [(''gdpr'', 72, ''edpb_breach''), (''nydfs_500'', 72, ''nydfs_breach''),
     (''dora'', 24, ''esma_dora''), (''hipaa'', 24 * 60, ''hhs_breach'')]"

section \<open>Tier and controls\<close>

definition eu_ai_act_tier :: "int \<Rightarrow> bool \<Rightarrow> string list \<Rightarrow> string" where
  "eu_ai_act_tier risk can_override classes =
     (if 85 \<le> risk then ''high''
      else if can_override \<and> list_ex (\<lambda>c. c \<in> set [''phi'', ''financial'', ''secret'', ''pii'']) classes then ''high''
      else if 60 \<le> risk then ''limited''
      else ''minimal'')"

type_synonym control = "string \<times> string"

definition EU_HIGH_CONTROLS :: "control list" where
  "EU_HIGH_CONTROLS = [(''eu_ai_act_art_9'', ''risk_mgmt_documented_at''),
     (''eu_ai_act_art_10'', ''data_governance_documented_at''), (''eu_ai_act_art_12'', ''logging_enabled''),
     (''eu_ai_act_art_13'', ''transparency_disclosed''), (''eu_ai_act_art_14'', ''human_oversight_mode''),
     (''eu_ai_act_art_15'', ''robustness_tested_at'')]"

definition REGIME_CONTROLS :: "(string \<times> control list) list" where
  "REGIME_CONTROLS = [
     (''gdpr'', [(''gdpr_art_30'', ''ropa_id''), (''gdpr_art_32'', ''tom_documented''), (''gdpr_art_33'', ''breach_notification_sla'')]),
     (''hipaa'', [(''hipaa_164_312'', ''hipaa_audit_enabled''), (''hipaa_164_530'', ''hipaa_retention_days'')]),
     (''sox'', [(''sox_404'', ''icfr_tested_at'')]),
     (''nydfs_500'', [(''nydfs_500_02'', ''cyber_program_documented_at''), (''nydfs_500_06'', ''audit_trail_designed''),
        (''nydfs_500_17'', ''breach_notification_sla_72h'')]),
     (''dora'', [(''dora_art_5'', ''ict_risk_framework_approved_at''), (''dora_art_17'', ''incident_mgmt_process''),
        (''dora_art_19'', ''breach_notification_sla_24h''), (''dora_art_24'', ''tlpt_last_run_at'')]),
     (''sr_11_7'', [(''sr_11_7_dev'', ''model_card_exported_at''), (''sr_11_7_val'', ''model_validation_completed_at''),
        (''sr_11_7_gov'', ''model_inventory_id'')]),
     (''iso_42001'', [(''iso_42001_6_1'', ''ai_risk_register_id''), (''iso_42001_7_5'', ''aims_export_id''),
        (''iso_42001_8_2'', ''ai_impact_assessment_id''), (''iso_42001_9_1'', ''monitoring_program_id'')]),
     (''eo_14110'', [(''nist_ai_600_1_gv'', ''attestation_chain_verified_at'')]),
     (''ai_bor'', [(''ai_bor_safe'', ''discrimination_incidents_reviewed_at'')])]"

definition required_controls :: "string list \<Rightarrow> string \<Rightarrow> control list" where
  "required_controls scope tier =
     (let names = map lower scope
      in (if ''eu_ai_act'' \<in> set names \<and> tier = ''high'' then EU_HIGH_CONTROLS else [])
         @ concat (map (\<lambda>(r, cs). if r \<in> set names then cs else []) REGIME_CONTROLS))"

definition elevated_severity :: "string \<Rightarrow> string list \<Rightarrow> string" where
  "elevated_severity base scope =
     (if scope = [] then base
      else if base = ''info'' then ''warning'' else if base = ''warning'' then ''critical'' else base)"

definition retention_of :: "string \<Rightarrow> int" where
  "retention_of r = (case map_of REGIME_RETENTION (lower r) of Some d \<Rightarrow> d | None \<Rightarrow> 0)"

definition max_retention_days :: "string list \<Rightarrow> int" where
  "max_retention_days scope = (if scope = [] then 0 else fold max (map retention_of (tl scope)) (retention_of (hd scope)))"

record compliance_block =
  cb_scope :: "string list"
  cb_tier :: string
  cb_controls :: "control list"
  cb_retention :: int

text \<open>The fields of an agent: its scope, its classes and whether it may override.\<close>

definition compliance_summary :: "string list \<Rightarrow> string list \<Rightarrow> bool \<Rightarrow> int \<Rightarrow> compliance_block" where
  "compliance_summary scope classes can_override risk =
     (let tier = eu_ai_act_tier risk can_override classes
      in \<lparr> cb_scope = scope, cb_tier = tier, cb_controls = required_controls scope tier,
           cb_retention = max_retention_days scope \<rparr>)"

section \<open>Facts\<close>

lemma retention_covers: "r \<in> set scope \<Longrightarrow> retention_of r \<le> max_retention_days scope"
proof -
  have "x \<in> set xs \<or> x \<le> b \<Longrightarrow> x \<le> fold max xs b" for x b :: int and xs
    by (induction xs arbitrary: b) (auto simp: max_def)
  then show "r \<in> set scope \<Longrightarrow> retention_of r \<le> max_retention_days scope"
    by (cases scope) (auto simp: max_retention_days_def)
qed

text \<open>Every regime has a retention, but only ten of them any control.\<close>

lemma regimes_covered:
  "list_all (\<lambda>r. 0 < retention_of r) REGIMES"
  "length (filter (\<lambda>r. required_controls [r] ''high'' = []) REGIMES) = 21"
  by code_simp+

lemma severity_elevated_twice: "elevated_severity (elevated_severity s sc) sc = (if sc = [] then s else
    if s \<in> {''info'', ''warning''} then ''critical'' else s)"
  by (simp add: elevated_severity_def)

end
