(* ===== verification/DelegationReport.thy ===== *)
theory DelegationReport
  imports Delegation Floats Json "HOL-Library.AList"
begin

text \<open>
  The readiness report over recorded delegation violations
  (\<open>kya/delegation_analytics.py\<close>): grouping by parent, sub-agent and kind, the five
  deterministic rules in their priority order, and the attention list with its summary.
  Rationale texts are left out; a stored violation is a row with the time it was created.
\<close>

section \<open>Items and rules\<close>

type_synonym stored_violation = "instant \<times> violation_row"
type_synonym group_key = "string \<times> string \<times> string"

definition DEFAULT_STABLE_DAYS_TO_PROMOTE :: int where "DEFAULT_STABLE_DAYS_TO_PROMOTE = 30"
definition DEFAULT_SPIKE_THRESHOLD :: int where "DEFAULT_SPIKE_THRESHOLD = 100"

text \<open>\<open>round(x, 2)\<close> of a float: the nearest hundredth, as a float again.\<close>

definition round2 :: "rat \<Rightarrow> rat" where
  "round2 x = fl (of_int (py_round (x * 100)) / 100)"

record report_item =
  ri_key :: group_key
  ri_count :: int
  ri_blocked :: int
  ri_first :: "instant option"
  ri_last :: instant
  ri_days :: rat
  ri_mode :: string

record rule_match =
  rm_rule :: string
  rm_recommendation :: string

definition rule_spike :: "int \<Rightarrow> report_item \<Rightarrow> rule_match option" where
  "rule_spike spike i =
     (if spike < ri_count i
      then Some \<lparr> rm_rule = ''spike_threshold_exceeded'', rm_recommendation = ''investigate_spike'' \<rparr> else None)"

definition rule_active_violations_hold :: "report_item \<Rightarrow> rule_match option" where
  "rule_active_violations_hold i =
     (if 0 < ri_count i \<and> ri_mode i \<in> set [''observe'', ''flag'']
      then Some \<lparr> rm_rule = ''active_violations_block_promotion'', rm_recommendation = ''hold'' \<rparr> else None)"

definition rule_stable_promote_observe_to_flag :: "int \<Rightarrow> report_item \<Rightarrow> rule_match option" where
  "rule_stable_promote_observe_to_flag quiet i =
     (if ri_count i = 0 \<and> ri_mode i = ''observe'' \<and> of_int quiet \<le> ri_days i
      then Some \<lparr> rm_rule = ''stable_promote_observe_to_flag'', rm_recommendation = ''promote_to_flag'' \<rparr> else None)"

definition rule_stable_promote_flag_to_block :: "int \<Rightarrow> report_item \<Rightarrow> rule_match option" where
  "rule_stable_promote_flag_to_block quiet i =
     (if ri_count i = 0 \<and> ri_mode i = ''flag'' \<and> of_int quiet \<le> ri_days i
      then Some \<lparr> rm_rule = ''stable_promote_flag_to_block'', rm_recommendation = ''promote_to_block'' \<rparr> else None)"

definition rule_spike_in_block_mode_rollback :: "int \<Rightarrow> report_item \<Rightarrow> rule_match option" where
  "rule_spike_in_block_mode_rollback spike i =
     (if spike < ri_count i \<and> ri_mode i = ''block''
      then Some \<lparr> rm_rule = ''block_mode_spike_rollback'', rm_recommendation = ''rollback_to_observe'' \<rparr> else None)"

text \<open>The first rule that fires, in the order of the table.\<close>

fun first_firing :: "('a \<Rightarrow> 'b option) list \<Rightarrow> 'a \<Rightarrow> 'b option" where
  "first_firing [] i = None"
| "first_firing (r # rs) i = (case r i of Some m \<Rightarrow> Some m | None \<Rightarrow> first_firing rs i)"

definition evaluate_rules :: "int \<Rightarrow> int \<Rightarrow> report_item \<Rightarrow> rule_match option" where
  "evaluate_rules quiet spike =
     first_firing [rule_spike_in_block_mode_rollback spike, rule_spike spike, rule_active_violations_hold,
       rule_stable_promote_flag_to_block quiet, rule_stable_promote_observe_to_flag quiet]"

section \<open>The report\<close>

text \<open>What a report is about: filters, thresholds, the mode resolver's inputs, and the clock.\<close>

record report_query =
  rq_tenant :: ident
  rq_window :: int
  rq_stable :: int
  rq_spike :: int
  rq_parent :: "string option"
  rq_sub :: "string option"
  rq_kind :: "string option"
  rq_overrides :: overrides
  rq_overrides_ok :: bool
  rq_mode_env :: "string option"
  rq_now :: instant

definition violation_key :: "violation_row \<Rightarrow> group_key" where
  "violation_key v = (vr_parent v, vr_sub v, vi_kind (vr_violation v))"

definition narrowed :: "string option \<Rightarrow> string \<Rightarrow> bool" where
  "narrowed filt x = (\<not> truthy filt \<or> filt = Some x)"

definition selected :: "report_query \<Rightarrow> stored_violation \<Rightarrow> bool" where
  "selected q sv =
     (case sv of (ats, v) \<Rightarrow> vr_tenant v = rq_tenant q \<and> narrowed (rq_parent q) (vr_parent v)
        \<and> narrowed (rq_sub q) (vr_sub v) \<and> narrowed (rq_kind q) (vi_kind (vr_violation v)))"

definition day_us :: int where "day_us = 86400 * 1000000"

definition group_rows :: "report_query \<Rightarrow> stored_violation list \<Rightarrow> group_key \<Rightarrow> stored_violation list" where
  "group_rows q db k = filter (\<lambda>sv. selected q sv \<and> violation_key (snd sv) = k) db"

definition window_rows :: "report_query \<Rightarrow> stored_violation list \<Rightarrow> group_key \<Rightarrow> stored_violation list" where
  "window_rows q db k = filter (\<lambda>sv. rq_now q - rq_window q * day_us \<le> fst sv) (group_rows q db k)"

definition last_seen :: "instant list \<Rightarrow> instant" where "last_seen ts = Max (set ts)"
definition earliest :: "instant list \<Rightarrow> instant option" where
  "earliest ts = (if ts = [] then None else Some (Min (set ts)))"

definition days_since :: "instant \<Rightarrow> instant \<Rightarrow> rat" where
  "days_since now seen = max 0 (fdiv (fdiv (of_int (now - seen)) 1000000) 86400)"

definition report_item_of :: "report_query \<Rightarrow> stored_violation list \<Rightarrow> group_key \<Rightarrow> report_item" where
  "report_item_of q db k =
     (let inw = window_rows q db k; seen = last_seen (map fst (group_rows q db k))
      in \<lparr> ri_key = k, ri_count = int (length inw), ri_blocked = int (length (filter (vr_blocked \<circ> snd) inw)),
           ri_first = earliest (map fst inw), ri_last = seen, ri_days = round2 (days_since (rq_now q) seen),
           ri_mode = (case k of (p, s, vk) \<Rightarrow>
             fst (resolve_effective_mode (rq_overrides_ok q) (rq_mode_env q) (rq_now q) (rq_overrides q) (rq_tenant q)
               (Some p) (Some s) (Some vk))) \<rparr>)"

record readiness_report =
  rp_total :: int
  rp_pairs :: int
  rp_kinds :: "(string \<times> int) list"
  rp_parents :: "(string \<times> int) list"
  rp_stable :: int
  rp_attention :: "(report_item \<times> rule_match) list"

definition tally_counts :: "(string \<times> int) list \<Rightarrow> (string \<times> int) list" where
  "tally_counts ns = sort_key fst
     (fold (\<lambda>(k, n) d. AList.update k ((case map_of d k of Some m \<Rightarrow> m | None \<Rightarrow> 0) + n) d) ns [])"

text \<open>The position of an entry: its recommendation, then parent, sub-agent and kind.\<close>

definition entry_order :: "report_item \<times> rule_match \<Rightarrow> string list" where
  "entry_order e = (case e of (i, m) \<Rightarrow> (case ri_key i of (p, s, k) \<Rightarrow> [rm_recommendation m, p, s, k]))"

definition group_keys :: "report_query \<Rightarrow> stored_violation list \<Rightarrow> group_key list" where
  "group_keys q db = remdups (map (violation_key \<circ> snd) (filter (selected q) db))"

definition delegation_readiness_report ::
    "bool \<Rightarrow> report_query \<Rightarrow> stored_violation list \<Rightarrow> string + readiness_report" where
  "delegation_readiness_report db_ok q table =
     (if rq_tenant q = [] then Inl ''ValueError''
      else if rq_stable q < rq_window q then Inl ''ValueError''
      else
        (let db = (if db_ok then table else []);
             items = map (report_item_of q db) (group_keys q db);
             active = filter (\<lambda>i. 0 < ri_count i) items;
             matches = List.map_filter (\<lambda>i. map_option (Pair i) (evaluate_rules (rq_stable q) (rq_spike q) i)) items
         in Inr \<lparr> rp_total = sum_list (map ri_count items), rp_pairs = int (length active),
              rp_kinds = tally_counts (map (\<lambda>i. (snd (snd (ri_key i)), ri_count i)) active),
              rp_parents = tally_counts (map (\<lambda>i. (fst (ri_key i), ri_count i)) active),
              rp_stable = int (length (filter (\<lambda>i. evaluate_rules (rq_stable q) (rq_spike q) i = None \<and> ri_count i = 0
                \<and> of_int (rq_stable q) \<le> days_since (rq_now q) (ri_last i)) items)),
              rp_attention = sort_key entry_order matches \<rparr>))"

section \<open>Order of the rows\<close>

lemma group_rows_mset: "mset db = mset db' \<Longrightarrow> mset (group_rows q db k) = mset (group_rows q db' k)"
  by (simp add: group_rows_def)

lemma report_item_mset:
  assumes "mset db = mset db'"
  shows "report_item_of q db k = report_item_of q db' k"
proof -
  have g: "mset (group_rows q db k) = mset (group_rows q db' k)" by (rule group_rows_mset [OF assms])
  have w: "mset (window_rows q db k) = mset (window_rows q db' k)" using g by (simp add: window_rows_def)
  have "last_seen (map fst (group_rows q db k)) = last_seen (map fst (group_rows q db' k))"
    using g unfolding last_seen_def by (metis mset_map set_mset_mset)
  moreover have "earliest (map fst (window_rows q db k)) = earliest (map fst (window_rows q db' k))"
    using w unfolding earliest_def by (metis mset_map set_mset_mset mset_zero_iff)
  moreover have "length (window_rows q db k) = length (window_rows q db' k)" using w by (metis size_mset)
  moreover have "length (filter (vr_blocked \<circ> snd) (window_rows q db k)) = length (filter (vr_blocked \<circ> snd) (window_rows q db' k))"
    by (rule mset_eq_length) (simp add: w)
  ultimately show ?thesis unfolding report_item_of_def Let_def by (simp only:)
qed

lemma group_keys_mset:
  assumes "mset db = mset db'"
  shows "mset (group_keys q db) = mset (group_keys q db')"
proof -
  have "set (group_keys q db) = set (group_keys q db')"
    using assms unfolding group_keys_def set_remdups by (metis mset_filter mset_map set_mset_mset)
  moreover have "distinct (group_keys q x)" for x by (simp add: group_keys_def)
  ultimately show ?thesis using set_eq_iff_mset_eq_distinct by blast
qed

definition bump_count :: "string \<times> int \<Rightarrow> (string \<times> int) list \<Rightarrow> (string \<times> int) list" where
  "bump_count = (\<lambda>(k, n) d. AList.update k ((case map_of d k of Some m \<Rightarrow> m | None \<Rightarrow> 0) + n) d)"

lemma bump_distinct: "distinct (map fst d) \<Longrightarrow> distinct (map fst (fold bump_count ns d))"
  by (induction ns arbitrary: d) (auto simp: bump_count_def distinct_update)

definition count_at :: "(string \<times> int) list \<Rightarrow> string \<Rightarrow> int" where
  "count_at d k = (case map_of d k of Some m \<Rightarrow> m | None \<Rightarrow> 0)"

lemma bump_at: "map_of (bump_count x d) k = (if k = fst x then Some (count_at d k + snd x) else map_of d k)"
  by (cases x) (simp add: bump_count_def update_conv' count_at_def)

lemma bump_map_of:
  "map_of (fold bump_count ns d) k =
     (if k \<in> fst ` set ns then Some (count_at d k + sum_list (map snd (filter (\<lambda>x. fst x = k) ns))) else map_of d k)"
proof (induction ns arbitrary: d)
  case (Cons x ns)
  have none: "k \<notin> fst ` set ns \<Longrightarrow> sum_list (map snd (filter (\<lambda>x. fst x = k) ns)) = 0"
  proof -
    assume "k \<notin> fst ` set ns"
    then have "filter (\<lambda>x. fst x = k) ns = []" by (auto simp: filter_empty_conv)
    then show ?thesis by simp
  qed
  show ?case
  proof (cases "k = fst x")
    case True
    then have "count_at (bump_count x d) k = count_at d k + snd x" by (simp add: count_at_def [of "bump_count x d"] bump_at)
    with True none show ?thesis using Cons.IH [of "bump_count x d"] by (cases "k \<in> fst ` set ns") (simp_all add: bump_at)
  next
    case False
    then have "count_at (bump_count x d) k = count_at d k" by (simp add: count_at_def bump_at)
    with False show ?thesis using Cons.IH [of "bump_count x d"] by (cases "k \<in> fst ` set ns") (simp_all add: bump_at)
  qed
qed simp

lemma sum_mset_list:
  assumes "mset xs = mset ys"
  shows "sum_list (map f (filter P xs)) = (sum_list (map f (filter P ys)) :: int)"
proof -
  have "sum_mset (mset (map f (filter P xs))) = sum_mset (mset (map f (filter P ys)))" using assms by simp
  then show ?thesis by (simp only: sum_mset_sum_list)
qed

lemma length_mset_filter: "mset xs = mset ys \<Longrightarrow> length (filter P xs) = length (filter P ys)"
  by (rule mset_eq_length) simp

lemma tally_mset:
  assumes "mset ns = mset ns'"
  shows "tally_counts ns = tally_counts ns'"
proof -
  have dist: "distinct (map fst (fold bump_count xs []))" for xs by (rule bump_distinct) simp
  have "sum_list (map snd (filter (\<lambda>x. fst x = k) ns)) = sum_list (map snd (filter (\<lambda>x. fst x = k) ns'))" for k
    by (rule sum_mset_list [OF assms])
  moreover have "set ns = set ns'" using assms by (metis set_mset_mset)
  ultimately have "map_of (fold bump_count ns []) = map_of (fold bump_count ns' [])"
    by (simp add: fun_eq_iff bump_map_of)
  then have "set (fold bump_count ns []) = set (fold bump_count ns' [])"
    using dist map_of_inject_set by blast
  then have "mset (fold bump_count ns []) = mset (fold bump_count ns' [])"
    using dist by (metis distinct_map set_eq_iff_mset_eq_distinct)
  then show ?thesis
    unfolding tally_counts_def bump_count_def [symmetric] using dist by (rule sort_key_perm)
qed

lemma mset_map_filter: "mset xs = mset ys \<Longrightarrow> mset (List.map_filter f xs) = mset (List.map_filter f ys)"
  unfolding List.map_filter_def by simp

text \<open>The report does not depend on the order in which the database returns the
  violations, which no query fixes for the groups: any two tables with the same rows
  give the same report, its attention list in the same order.\<close>

theorem report_order_free:
  assumes "mset db = mset db'"
  shows "delegation_readiness_report ok q db = delegation_readiness_report ok q db'"
proof (cases ok)
  case True
  have items: "map (report_item_of q db) (group_keys q d) = map (report_item_of q db') (group_keys q d)" for d
    using report_item_mset [OF assms] by simp
  let ?xs = "map (report_item_of q db') (group_keys q db)" and ?ys = "map (report_item_of q db') (group_keys q db')"
  have m: "mset ?xs = mset ?ys" using group_keys_mset [OF assms, of q] by simp
  let ?f = "\<lambda>i. map_option (Pair i) (evaluate_rules (rq_stable q) (rq_spike q) i)"
  have keys: "map ri_key (map (report_item_of q db') ks) = ks" for ks
    by (induction ks) (simp_all add: report_item_of_def Let_def)
  have "distinct (map entry_order (List.map_filter ?f ?xs))"
  proof -
    have sub: "map (ri_key \<circ> fst) (List.map_filter ?f xs) = map ri_key (filter (\<lambda>i. evaluate_rules (rq_stable q) (rq_spike q) i \<noteq> None) xs)" for xs
      by (induction xs) (auto simp: List.map_filter_simps split: option.splits)
    have "distinct (map (ri_key \<circ> fst) (List.map_filter ?f ?xs))"
    proof -
      have "distinct (map ri_key ?xs)" unfolding keys by (simp add: group_keys_def)
      then show ?thesis unfolding sub by (rule distinct_map_filter)
    qed
    then have "inj_on (ri_key \<circ> fst) (set (List.map_filter ?f ?xs))" "distinct (List.map_filter ?f ?xs)"
      by (simp_all add: distinct_map)
    moreover have "entry_order x = entry_order y \<Longrightarrow> (ri_key \<circ> fst) x = (ri_key \<circ> fst) y" for x y
      by (auto simp: entry_order_def split: prod.splits)
    ultimately show ?thesis unfolding distinct_map inj_on_def by blast
  qed
  then have att: "sort_key entry_order (List.map_filter ?f ?xs) = sort_key entry_order (List.map_filter ?f ?ys)"
    by (rule sort_key_perm [OF mset_map_filter [OF m]])
  have tal: "tally_counts (map g (filter P ?xs)) = tally_counts (map g (filter P ?ys))" for g P
  proof (rule tally_mset)
    have "mset (filter P ?xs) = mset (filter P ?ys)" using m by (simp only: mset_filter)
    then show "mset (map g (filter P ?xs)) = mset (map g (filter P ?ys))" by (simp only: mset_map)
  qed
  have tot: "sum_list (map ri_count ?xs) = sum_list (map ri_count ?ys)"
    using sum_mset_list [OF m, of ri_count "\<lambda>_. True"] by simp
  have len: "length (filter P ?xs) = length (filter P ?ys)" for P
    by (rule length_mset_filter [OF m])
  have on: "(if ok then x else []) = x" for x :: "stored_violation list" using True by simp
  show ?thesis
    unfolding delegation_readiness_report_def Let_def on items att tal tot len ..
qed (simp add: delegation_readiness_report_def)

definition sample_violation :: "string \<Rightarrow> instant \<Rightarrow> stored_violation" where
  "sample_violation s ats = (ats, \<lparr> vr_tenant = ''t'', vr_sub_inv = 1, vr_parent_inv = None, vr_parent = ''chief'', vr_sub = s,
     vr_violation = \<lparr> vi_kind = ''tool_widening'', vi_parent = [], vi_sub = [], vi_extra = [] \<rparr>, vr_mode = ''observe'',
     vr_blocked = False \<rparr>)"

definition sample_query :: report_query where
  "sample_query = \<lparr> rq_tenant = ''t'', rq_window = 7, rq_stable = 30, rq_spike = 100, rq_parent = None, rq_sub = None,
     rq_kind = None, rq_overrides = [], rq_overrides_ok = True, rq_mode_env = None, rq_now = 100 * day_us \<rparr>"

lemma report_order_free_witness:
  "delegation_readiness_report True sample_query [sample_violation ''b'' 3, sample_violation ''a'' 5] =
   delegation_readiness_report True sample_query [sample_violation ''a'' 5, sample_violation ''b'' 3]"
  by (rule report_order_free) simp

text \<open>An item is promoted only when its window is empty; to block only from flag, and a
  spike is never answered by a promotion.\<close>

lemma promotion_needs_silence:
  assumes "evaluate_rules quiet spike i = Some m" "rm_recommendation m \<in> set [''promote_to_flag'', ''promote_to_block'']"
  shows "ri_count i = 0 \<and> of_int quiet \<le> ri_days i
    \<and> ri_mode i = (if rm_recommendation m = ''promote_to_block'' then ''flag'' else ''observe'')"
  using assms
  by (auto simp: evaluate_rules_def rule_spike_def rule_active_violations_hold_def rule_stable_promote_observe_to_flag_def
      rule_stable_promote_flag_to_block_def rule_spike_in_block_mode_rollback_def split: if_splits option.splits)

text \<open>The silence is measured after rounding: 29.995 days count as 30.\<close>

lemma promoted_early:
  "round2 (days_since (29995 * 86400000) 0) = 30"
  by code_simp

end
