(* ===== verification/Assessment.thy ===== *)
theory Assessment
  imports Versions Faults Compliance DelegationReport Rbac Evidence
begin

text \<open>
  The trust assessment (\<open>kya/assessment.py\<close>): its five pillars over the tables of the
  other components, and the report with its headline. A finding is its pillar, its
  severity and its topic; detail and recommendation texts are left out, except where
  building one raises.
\<close>

section \<open>Findings\<close>

datatype topic =
    NoSnapshot string
  | StaticRisk string int string
  | EuTier string string
  | TrustLow string int
  | NoGrants string
  | AdminGrants string "string list"
  | PlainGrants string nat
  | DelegationAdvice group_key string
  | Divergence string string rat
  | BaselineOnly string
  | DefinitionDrift string nat
  | NoDrift string nat
  | NoChains
  | BrokenChains "int list" nat nat
  | ChainsVerified nat
  | ExportAttached
  | ExportFailed

record finding =
  fg_pillar :: string
  fg_severity :: string
  fg_topic :: topic

definition PILLAR_TRUST :: string where "PILLAR_TRUST = ''trust_scoring''"
definition PILLAR_AUTHORITY :: string where "PILLAR_AUTHORITY = ''authority_mapping''"
definition PILLAR_DELEGATION :: string where "PILLAR_DELEGATION = ''delegation_analysis''"
definition PILLAR_PROVENANCE :: string where "PILLAR_PROVENANCE = ''provenance_assessment''"
definition PILLAR_EVIDENCE :: string where "PILLAR_EVIDENCE = ''evidence_chain_review''"

definition severity_rank :: "string \<Rightarrow> int" where
  "severity_rank s =
     (case map_of [(''informational'', 0), (''low'', 1), (''medium'', 2), (''high'', 3), (''critical'', 4)] s of
        Some n \<Rightarrow> n | None \<Rightarrow> 0)"

definition TRUST_FLOOR :: int where "TRUST_FLOOR = 40"

section \<open>What an assessment reads\<close>

text \<open>
  The tables of the tenant with whether the queries on them succeed, how a definition
  reads as an agent and its compliance scope, the signing key of the evidence (\<open>None\<close>:
  verification raises), and whether a signed export is asked for and works.
\<close>

record assess_env =
  ax_tenant :: ident
  ax_now :: instant
  ax_window :: int
  ax_versions :: version_table
  ax_versions_ok :: bool
  ax_risk :: risk_env
  ax_read :: "jobj \<Rightarrow> risk_agent"
  ax_scope :: "jobj \<Rightarrow> string list"
  ax_sha :: "string \<Rightarrow> string"
  ax_hash :: hash_env
  ax_fields :: field_registry
  ax_principals :: principal_table
  ax_trust_ok :: bool
  ax_grants :: "grant_row list"
  ax_grants_ok :: bool
  ax_violations :: "stored_violation list"
  ax_violations_ok :: bool
  ax_overrides :: overrides
  ax_overrides_ok :: bool
  ax_mode_env :: "string option"
  ax_invocations :: invocation_db
  ax_outcomes_ok :: bool
  ax_invocations_ok :: bool
  ax_crypto :: crypto
  ax_key :: "string option"
  ax_schema :: anchor_schema
  ax_evidence :: evidence_db
  ax_sign :: bool
  ax_export_ok :: bool

section \<open>Pillar 1: trust\<close>

definition latest_definition :: "assess_env \<Rightarrow> string \<Rightarrow> jobj option" where
  "latest_definition e agent =
     (case list_versions (ax_versions e) (ax_tenant e) agent 50 of
        [] \<Rightarrow> None
      | m # _ \<Rightarrow> map_option av_def (get_version (ax_versions e) (ax_tenant e) agent (vm_no m)))"

text \<open>
  The recommendation joins the controls as if they were strings; a control is a
  dictionary, so a non-empty list raises and the finding is lost.
\<close>

definition tier_findings :: "assess_env \<Rightarrow> string \<Rightarrow> jobj \<Rightarrow> int \<Rightarrow> finding list" where
  "tier_findings e agent d risk =
     (let a = ax_read e d;
          cs = compliance_summary (ax_scope e d) (case ra_classes a of Some c \<Rightarrow> c | None \<Rightarrow> []) (ra_override a) risk
      in if cb_tier cs \<in> set [''unacceptable'', ''high''] \<and> cb_controls cs = [] then
           [\<lparr> fg_pillar = PILLAR_TRUST, fg_severity = (if cb_tier cs = ''unacceptable'' then ''critical'' else ''high''),
              fg_topic = EuTier agent (cb_tier cs) \<rparr>]
         else [])"

definition risk_findings :: "assess_env \<Rightarrow> string \<Rightarrow> jobj \<Rightarrow> finding list" where
  "risk_findings e agent d =
     (case score_agent (ax_now e) (ax_risk e) None None None (ax_read e d) of
        None \<Rightarrow> []
      | Some r \<Rightarrow>
          \<lparr> fg_pillar = PILLAR_TRUST,
             fg_severity = (if as_bucket r \<in> set [''critical'', ''high'', ''medium'', ''low''] then as_bucket r
                            else ''informational''),
             fg_topic = StaticRisk agent (as_score r) (as_bucket r) \<rparr>
          # tier_findings e agent d (as_score r))"

definition runtime_findings :: "assess_env \<Rightarrow> string \<Rightarrow> finding list" where
  "runtime_findings e agent =
     (if \<not> ax_trust_ok e then []
      else (let ts = pt_score (get_principal_trust (ax_principals e) (ax_tenant e, ''agent'', agent))
            in if ts < TRUST_FLOOR
               then [\<lparr> fg_pillar = PILLAR_TRUST, fg_severity = ''high'', fg_topic = TrustLow agent ts \<rparr>] else []))"

definition pillar_trust_scoring :: "assess_env \<Rightarrow> string list \<Rightarrow> finding list" where
  "pillar_trust_scoring e agents =
     concat (map (\<lambda>agent.
         (if \<not> ax_versions_ok e then []
          else if list_versions (ax_versions e) (ax_tenant e) agent 50 = [] then
            [\<lparr> fg_pillar = PILLAR_TRUST, fg_severity = ''medium'', fg_topic = NoSnapshot agent \<rparr>]
          else (case latest_definition e agent of
              Some (kv # kvs) \<Rightarrow> risk_findings e agent (kv # kvs)
            | _ \<Rightarrow> []))
         @ runtime_findings e agent) agents)"

section \<open>Pillar 2: authority\<close>

definition is_admin_action :: "string \<Rightarrow> bool" where
  "is_admin_action a =
     (let s = lower a
      in sublist ''admin'' s \<or> sublist ''override'' s \<or> sublist ''rollback'' s \<or> s = ''kya.*'' \<or> suffix ''.*'' s)"

definition authority_findings_of :: "assess_env \<Rightarrow> string \<Rightarrow> finding list" where
  "authority_findings_of e agent =
     (case list_grants (ax_grants_ok e) (ax_grants e) (ax_tenant e) (Some ''agent'') (Some agent) False (ax_now e) of
        Inl _ \<Rightarrow> []
      | Inr grants \<Rightarrow>
          (let admin = filter is_admin_action (map g_action grants)
           in if grants = [] then
                [\<lparr> fg_pillar = PILLAR_AUTHORITY, fg_severity = ''medium'', fg_topic = NoGrants agent \<rparr>]
              else if admin \<noteq> [] then
                [\<lparr> fg_pillar = PILLAR_AUTHORITY, fg_severity = ''high'', fg_topic = AdminGrants agent admin \<rparr>]
              else [\<lparr> fg_pillar = PILLAR_AUTHORITY, fg_severity = ''informational'',
                      fg_topic = PlainGrants agent (length grants) \<rparr>]))"

definition pillar_authority_mapping :: "assess_env \<Rightarrow> string list \<Rightarrow> finding list" where
  "pillar_authority_mapping e agents = concat (map (authority_findings_of e) agents)"

section \<open>Pillar 3: delegation\<close>

definition assessment_query :: "assess_env \<Rightarrow> report_query" where
  "assessment_query e =
     \<lparr> rq_tenant = ax_tenant e, rq_window = ax_window e, rq_stable = DEFAULT_STABLE_DAYS_TO_PROMOTE,
       rq_spike = DEFAULT_SPIKE_THRESHOLD, rq_parent = None, rq_sub = None, rq_kind = None,
       rq_overrides = ax_overrides e, rq_overrides_ok = ax_overrides_ok e, rq_mode_env = ax_mode_env e,
       rq_now = ax_now e \<rparr>"

definition advice_severity :: "string \<Rightarrow> string" where
  "advice_severity rec =
     (if sublist ''block'' (lower rec) then ''high''
      else if sublist ''investigate'' (lower rec) \<or> sublist ''spike'' (lower rec) then ''medium''
      else ''low'')"

definition divergence_findings :: "assess_env \<Rightarrow> string \<Rightarrow> finding list" where
  "divergence_findings e agent =
     (let d = agent_divergence_score (ax_outcomes_ok e) (ax_invocations e) (ax_tenant e) agent (ax_window e) (ax_now e)
      in if dv_class d \<in> set [''insufficient_data'', ''intentional''] then []
         else [\<lparr> fg_pillar = PILLAR_DELEGATION,
                 fg_severity = (if dv_class d = ''agent_misbehavior'' then ''high'' else if dv_class d = ''mixed'' then ''medium'' else ''low''),
                 fg_topic = Divergence agent (dv_class d) (dv_score d) \<rparr>])"

definition pillar_delegation_analysis :: "assess_env \<Rightarrow> string list \<Rightarrow> finding list" where
  "pillar_delegation_analysis e agents =
     (case delegation_readiness_report (ax_violations_ok e) (assessment_query e) (ax_violations e) of
        Inl _ \<Rightarrow> []
      | Inr r \<Rightarrow> map (\<lambda>(i, m). \<lparr> fg_pillar = PILLAR_DELEGATION, fg_severity = advice_severity (rm_recommendation m),
                     fg_topic = DelegationAdvice (ri_key i) (rm_recommendation m) \<rparr>) (rp_attention r))
     @ concat (map (divergence_findings e) agents)"

section \<open>Pillar 4: provenance\<close>

definition provenance_findings :: "assess_env \<Rightarrow> string \<Rightarrow> finding list" where
  "provenance_findings e agent =
     (if \<not> ax_versions_ok e then []
      else (case list_versions (ax_versions e) (ax_tenant e) agent 50 of
          [] \<Rightarrow> []
        | [m] \<Rightarrow> [\<lparr> fg_pillar = PILLAR_PROVENANCE, fg_severity = ''informational'', fg_topic = BaselineOnly agent \<rparr>]
        | m # m' # ms \<Rightarrow>
            (let n = length (m # m' # ms);
                 def = (\<lambda>x. case get_version (ax_versions e) (ax_tenant e) agent (vm_no x) of Some r \<Rightarrow> av_def r | None \<Rightarrow> []);
                 hash = (\<lambda>x. canonical_hash (ax_sha e) (ax_hash e) (ax_fields e) (def x) None None);
                 drift = \<lparr> fg_pillar = PILLAR_PROVENANCE, fg_severity = ''medium'', fg_topic = DefinitionDrift agent n \<rparr>;
                 same = \<lparr> fg_pillar = PILLAR_PROVENANCE, fg_severity = ''informational'', fg_topic = NoDrift agent n \<rparr>
             in if def m = [] \<or> def m' = [] then [same]
                else (case (hash m, hash m') of
                  (Inr h, Inr h') \<Rightarrow> if h \<noteq> h' then [drift] else [same]
                | _ \<Rightarrow> []))))"

definition pillar_provenance_assessment :: "assess_env \<Rightarrow> string list \<Rightarrow> finding list" where
  "pillar_provenance_assessment e agents = concat (map (provenance_findings e) agents)"

section \<open>Pillar 5: evidence\<close>

text \<open>
  The call with a start time names a parameter that \<open>list_invocations\<close> does not have, so
  it raises \<open>TypeError\<close> and the fallback without a window is taken.
\<close>

definition reviewed :: "assess_env \<Rightarrow> string \<Rightarrow> invocation list" where
  "reviewed e agent =
     (if ax_invocations_ok e then list_invocations (ax_invocations e) (ax_tenant e) (Some agent) None None None None 500
      else [])"

definition chain_broken :: "assess_env \<Rightarrow> string \<Rightarrow> int \<Rightarrow> bool" where
  "chain_broken e key i =
     (let r = verify_chain (ax_crypto e) key (ax_schema e) (ax_evidence e) (ax_tenant e) i
      in \<not> r_valid r \<or> (r_expected r \<noteq> None \<and> Some (r_checked r) \<noteq> r_expected r))"

definition checked_chains :: "assess_env \<Rightarrow> string list \<Rightarrow> int list" where
  "checked_chains e agents =
     (case ax_key e of None \<Rightarrow> [] | Some _ \<Rightarrow> concat (map (\<lambda>agent. map iv_id (reviewed e agent)) agents))"

definition broken_chains :: "assess_env \<Rightarrow> string list \<Rightarrow> int list" where
  "broken_chains e agents =
     (case ax_key e of None \<Rightarrow> [] | Some key \<Rightarrow> filter (chain_broken e key) (checked_chains e agents))"

definition pillar_evidence_chain_review :: "assess_env \<Rightarrow> string list \<Rightarrow> finding list \<times> bool" where
  "pillar_evidence_chain_review e agents =
     (let checked = checked_chains e agents; broken = broken_chains e agents; signed = (ax_sign e \<and> checked \<noteq> []);
          verdict =
            (if checked = [] then
               \<lparr> fg_pillar = PILLAR_EVIDENCE, fg_severity = ''informational'', fg_topic = NoChains \<rparr>
             else if broken \<noteq> [] then
               \<lparr> fg_pillar = PILLAR_EVIDENCE, fg_severity = ''critical'', fg_topic = BrokenChains (take 20 broken) (length broken) (length checked) \<rparr>
             else \<lparr> fg_pillar = PILLAR_EVIDENCE, fg_severity = ''informational'', fg_topic = ChainsVerified (length checked) \<rparr>)
      in (verdict # (if \<not> signed then []
            else if ax_export_ok e then
              [\<lparr> fg_pillar = PILLAR_EVIDENCE, fg_severity = ''informational'', fg_topic = ExportAttached \<rparr>]
            else [\<lparr> fg_pillar = PILLAR_EVIDENCE, fg_severity = ''low'', fg_topic = ExportFailed \<rparr>]),
          signed \<and> ax_export_ok e))"

section \<open>The report\<close>

record assessment_report =
  ar_trust :: "finding list"
  ar_authority :: "finding list"
  ar_delegation :: "finding list"
  ar_provenance :: "finding list"
  ar_evidence :: "finding list"
  ar_headline :: string
  ar_signed :: bool

text \<open>The first finding of the highest rank.\<close>

fun max_finding :: "finding \<Rightarrow> finding list \<Rightarrow> finding" where
  "max_finding b [] = b"
| "max_finding b (f # fs) =
     max_finding (if severity_rank (fg_severity b) < severity_rank (fg_severity f) then f else b) fs"

definition max_severity :: "finding list \<Rightarrow> string" where
  "max_severity fs = (case fs of [] \<Rightarrow> ''informational'' | f # fs' \<Rightarrow> fg_severity (max_finding f fs'))"

definition report_findings :: "assessment_report \<Rightarrow> finding list" where
  "report_findings r = ar_trust r @ ar_authority r @ ar_delegation r @ ar_provenance r @ ar_evidence r"

definition run_assessment :: "assess_env \<Rightarrow> string list \<Rightarrow> assessment_report" where
  "run_assessment e agents =
     (case pillar_evidence_chain_review e agents of
        (evidence, signed) \<Rightarrow>
          (let r = \<lparr> ar_trust = pillar_trust_scoring e agents, ar_authority = pillar_authority_mapping e agents,
                     ar_delegation = pillar_delegation_analysis e agents,
                     ar_provenance = pillar_provenance_assessment e agents, ar_evidence = evidence,
                     ar_headline = [], ar_signed = signed \<rparr>
           in r\<lparr> ar_headline := max_severity (report_findings r) \<rparr>))"

end
