(* ===== verification/VersionFacts.thy ===== *)
theory VersionFacts
  imports Versions RiskFacts
begin

text \<open>
  More on versions: rollback, the keys of other principals, the automatic policy
  override, and what racing callers and the float arithmetic of the lag do.
\<close>

definition quiet_sight :: sight_env where
  "quiet_sight = \<lparr> se_sha = id, se_hash = plain_hash_env, se_fields = HASHED_FIELDS_BY_KIND, se_auto = Some ''OFF'',
     se_risk = plain_env, se_read = (\<lambda>d. bare_agent), se_db_ok = True, se_new_id = 7 \<rparr>"

definition bot_def :: jobj where
  "bot_def = [(''name'', JStr ''b2''), (''uptime'', JInt 3)]"

lemma bot_hash:
  "canonical_hash id plain_hash_env HASHED_FIELDS_BY_KIND bot_def None None = Inr (dumps (JObj [(''name'', JStr ''b2'')]))"
  "canonical_hash id plain_hash_env HASHED_FIELDS_BY_KIND [(''name'', JStr ''b2'')] None None
     = Inr (dumps (JObj [(''name'', JStr ''b2'')]))"
  "canonical_hash id plain_hash_env HASHED_FIELDS_BY_KIND [(''name'', JStr ''b1'')] None None
     = Inr (dumps (JObj [(''name'', JStr ''b1'')]))"
  by code_simp+

lemma numbered_first_row: "numbered [first_row]"
  using step_numbered [OF first_row_step numbered_Nil] by simp

lemma first_sight_settles_witness:
  "\<exists>db'. snapshot_on_first_sight quiet_sight [] 8 ''t'' ''bot'' bot_def None None [first_row] [] = (Inr (2, True), db', [])
     \<and> snapshot_on_first_sight quiet_sight [] 9 ''t'' ''bot'' [(''name'', JStr ''b2'')] None None db' []
         = (Inr (2, False), db', [])"
proof -
  have h: "canonical_hash (se_sha quiet_sight) (se_hash quiet_sight) (se_fields quiet_sight) bot_def None None
      = Inr (dumps (JObj [(''name'', JStr ''b2'')]))"
    by (simp add: quiet_sight_def bot_hash)
  have old: "last_hash quiet_sight [first_row] ''t'' ''bot'' = Some (Inr (dumps (JObj [(''name'', JStr ''b1'')])))"
    by (simp add: last_hash_def history_def first_row_def quiet_sight_def bot_hash)
  have ne: "dumps (JObj [(''name'', JStr ''b1'')]) \<noteq> dumps (JObj [(''name'', JStr ''b2'')])" by code_simp
  define db' where "db' = snd (snapshot_agent [] 8 [first_row] ''t'' ''bot'' bot_def None None None)"
  have "snapshot_agent [] 8 [first_row] ''t'' ''bot'' bot_def None None None = (Inr 2, db')"
    by (simp add: db'_def snapshot_uncontended next_version_no_def history_def first_row_def)
  then have run: "snapshot_on_first_sight quiet_sight [] 8 ''t'' ''bot'' bot_def None None [first_row] [] = (Inr (2, True), db', [])"
    unfolding first_sight_numbered [OF numbered_first_row h] old
    using ne by (simp add: history_def first_row_def)
  have "canonical_hash (se_sha quiet_sight) (se_hash quiet_sight) (se_fields quiet_sight) [(''name'', JStr ''b2'')] None None
      = canonical_hash (se_sha quiet_sight) (se_hash quiet_sight) (se_fields quiet_sight) bot_def None None"
    by (simp add: quiet_sight_def bot_hash)
  from first_sight_settles [OF numbered_first_row _ run this] run show ?thesis by auto
qed

section \<open>Rollback\<close>

text \<open>Rolling back stores the older definition as a new version and keeps all others.\<close>

lemma rollback_restores:
  assumes "numbered db" "rivals_snapshot db cs" "rollback_to cs now db t a n by = (Inr (m, d, note), db')"
  shows "map_option av_def (get_version db t a n) = Some d \<and> map_option av_def (get_version db' t a m) = Some d
    \<and> m = int (length (history db' t a)) \<and> numbered db' \<and> prefix db db'"
proof -
  obtain r where r: "get_version db t a n = Some r" "d = av_def r"
      "snapshot_agent cs now db t a (av_def r) by (Some (''rolled back from v'' @ int_text n)) None = (Inr m, db')"
    using assms(3) by (auto simp: rollback_to_def Let_def split: option.splits prod.splits sum.splits)
  from snapshot_facts [OF assms(1,2) r(3)] r(1,2) show ?thesis by auto
qed

section \<open>Keys of principals\<close>

text \<open>The key of a principal in the version table determines it: two principals with
  the same composed key have the same kind and id.\<close>

theorem composed_keys_distinct:
  assumes "compose_principal_key kind pid = Inr k" and "compose_principal_key kind' pid' = Inr k"
  shows "kind = kind' \<and> pid = pid'"
  using assms colon_append_inject [of pid pid' kind kind']
  by (auto simp: compose_principal_key_def split: if_splits)

lemma composed_keys_distinct_witness:
  "\<exists>k. compose_principal_key ''drone'' ''d7'' = Inr k \<and> compose_principal_key ''robot'' ''d7'' \<noteq> Inr k"
proof -
  have k: "compose_principal_key ''drone'' ''d7'' = Inr ''drone:d7''"
    by (simp add: compose_principal_key_def AGENT_KEY_LEN_def)
  then have "compose_principal_key ''robot'' ''d7'' \<noteq> Inr ''drone:d7''"
    using composed_keys_distinct [OF k, of "''robot''" "''d7''"] by auto
  with k show ?thesis by blast
qed

text \<open>But an agent key is stored as it is, so an agent may be named like a drone's key, and
  an agent identified by a DID can be stored by one entry point only.\<close>

lemma agent_key_collides:
  "snd (snapshot_agent [] now db t ''drone:d7'' d by note occ) = snd (snapshot_principal [] now db t ''drone'' ''d7'' d by note occ)"
  by (simp add: snapshot_principal_def compose_principal_key_def AGENT_KEY_LEN_def)

lemma did_agent_refused:
  "fst (snapshot_principal cs now db t ''agent'' ''did:key:z6Mk'' d by note occ) = Inl ''ValueError''
   \<and> fst (snapshot_agent [] now db t ''did:key:z6Mk'' d by note occ) = Inr (next_version_no db t ''did:key:z6Mk'')"
  by (simp add: snapshot_principal_def compose_principal_key_def snapshot_uncontended)

section \<open>The automatic override\<close>

lemma auto_default_cases:
  "maybe_apply_risk_tier_default e now t a d by ovr = ovr \<or>
   (\<exists>s row. definition_score e now d = Some s \<and> 85 \<le> s
      \<and> maybe_apply_risk_tier_default e now t a d by ovr = ovr @ [row]
      \<and> or_tenant row = t \<and> or_parent row = Some a \<and> or_mode row = ''flag''
      \<and> (se_db_ok e \<longrightarrow> (\<forall>r\<in>set ovr. or_tenant r = t \<and> override_active now r \<longrightarrow> or_parent r \<noteq> None \<and> or_parent r \<noteq> Some a)))"
proof (cases "maybe_apply_risk_tier_default e now t a d by ovr = ovr")
  case False
  let ?specific = "list_delegation_overrides (se_db_ok e) now ovr t False (Some a) None None"
  let ?wide = "filter (\<lambda>r. or_parent r = None) (list_delegation_overrides (se_db_ok e) now ovr t False None None None)"
  obtain s mode where s: "definition_score e now d = Some s" "map_of RISK_TIER_DEFAULT_MODE (bucket_for s) = Some (Some mode)"
      and empty: "?specific = []" "?wide = []"
      and set: "maybe_apply_risk_tier_default e now t a d by ovr =
        snd (set_delegation_override (se_new_id e) now ovr t (Some mode) (Some a) None None
          (Some (''auto-default: risk_bucket='' @ bucket_for s @ '' (score='' @ int_text s @ '')'')) by None None)"
    using False by (auto simp: maybe_apply_risk_tier_default_def Let_def split: if_splits option.splits)
  have crit: "85 \<le> s" "mode = ''flag''"
    using s(2) by (auto simp: RISK_TIER_DEFAULT_MODE_def bucket_for_def split: if_splits)
  have "strip (lower ''flag'') = ''flag''" by code_simp
  then have "t \<noteq> []" "\<exists>row. maybe_apply_risk_tier_default e now t a d by ovr = ovr @ [row]
      \<and> or_tenant row = t \<and> or_parent row = Some a \<and> or_mode row = ''flag''"
    using False set by (auto simp: set_delegation_override_def crit(2) Let_def DELEGATION_POLICY_MODES_def split: if_splits)
  moreover have "or_parent r \<noteq> None \<and> or_parent r \<noteq> Some a"
    if "se_db_ok e" "r \<in> set ovr" "or_tenant r = t" "override_active now r" for r
  proof -
    have "r \<in> set (list_delegation_overrides (se_db_ok e) now ovr t False None None None)"
      using that by (simp add: list_delegation_overrides_def)
    then have 1: "or_parent r \<noteq> None" using empty(2) by (auto simp: filter_empty_conv)
    have "or_parent r = Some a \<Longrightarrow> r \<in> set ?specific"
      using that by (simp add: list_delegation_overrides_def)
    with 1 empty(1) show ?thesis by auto
  qed
  ultimately show ?thesis using s(1) crit(1) by blast
qed simp

text \<open>The automatic override never speaks over the operator. Whatever a novel agent
  scores, writing its default leaves the effective delegation mode of every scope that
  some active override of the tenant already covered as it was, provided the query for
  existing overrides succeeds; and a row is only ever added for a critical score.\<close>

theorem auto_default_defers:
  assumes "se_db_ok e" and "r \<in> set ovr" and "override_matches now t parent sub kind r"
  shows "resolve_effective_mode True env now (maybe_apply_risk_tier_default e now t a d by ovr) t parent sub kind
      = resolve_effective_mode True env now ovr t parent sub kind
    \<and> (maybe_apply_risk_tier_default e now t a d by ovr = ovr \<or> (\<exists>s. definition_score e now d = Some s \<and> 85 \<le> s))"
proof (cases "maybe_apply_risk_tier_default e now t a d by ovr = ovr")
  case False
  then obtain s row where s: "definition_score e now d = Some s" "85 \<le> s"
      and new: "maybe_apply_risk_tier_default e now t a d by ovr = ovr @ [row]" "or_parent row = Some a"
      and none: "\<forall>r\<in>set ovr. or_tenant r = t \<and> override_active now r \<longrightarrow> or_parent r \<noteq> None \<and> or_parent r \<noteq> Some a"
    using auto_default_cases [of e now t a d "by" ovr] assms(1) by blast
  have "or_parent r \<noteq> None \<and> or_parent r \<noteq> Some a"
    using none assms(2,3) by (auto simp: override_matches_def)
  then have "parent \<noteq> Some a" using assms(3) by (auto simp: override_matches_def covers_def)
  then have "\<not> override_matches now t parent sub kind row"
    using new(2) by (auto simp: override_matches_def covers_def)
  then have "filter (override_matches now t parent sub kind) (ovr @ [row]) = filter (override_matches now t parent sub kind) ovr"
    by simp
  then show ?thesis using s unfolding new(1) resolve_effective_mode_def by simp
qed simp

lemma auto_default_defers_witness:
  "resolve_effective_mode True None 5 (maybe_apply_risk_tier_default quiet_sight 5 ''t'' ''bot'' bot_def None
     [\<lparr> or_id = 1, or_tenant = ''t'', or_parent = None, or_sub = None, or_kind = None, or_mode = ''observe'',
        or_reason = None, or_by = None, or_effective = 0, or_expires = None, or_created = 0 \<rparr>])
     ''t'' (Some ''bot'') None None = (''observe'', Override 1)"
proof -
  let ?r = "\<lparr> or_id = 1, or_tenant = ''t'', or_parent = None, or_sub = None, or_kind = None, or_mode = ''observe'',
        or_reason = None, or_by = None, or_effective = 0, or_expires = None, or_created = 0 \<rparr>"
  have m: "override_matches 5 ''t'' (Some ''bot'') None None ?r"
    by (simp add: override_matches_def override_active_def covers_def)
  have "resolve_effective_mode True None 5 [?r] ''t'' (Some ''bot'') None None = (''observe'', Override 1)"
    using m by (simp add: resolve_effective_mode_def)
  with auto_default_defers [of quiet_sight ?r "[?r]" 5 "''t''" "Some ''bot''" None None None "''bot''" bot_def None] m
  show ?thesis by (simp add: quiet_sight_def)
qed

text \<open>When the query for overrides fails it looks like none: the default is written on top.\<close>

lemma failing_query_overrides:
  assumes "auto_defaults_on e" "definition_score e now d = Some s" "85 \<le> s" "\<not> se_db_ok e" "t \<noteq> []"
  shows "maybe_apply_risk_tier_default e now t a d by ovr \<noteq> ovr"
proof -
  have "strip (lower ''flag'') = ''flag''" by code_simp
  with assms show ?thesis
    by (simp add: maybe_apply_risk_tier_default_def RISK_TIER_DEFAULT_MODE_def bucket_for_def
        list_delegation_overrides_def set_delegation_override_def DELEGATION_POLICY_MODES_def Let_def)
qed

section \<open>Races and floats\<close>

text \<open>Two callers that see an agent first at the same time both store it.\<close>

lemma racing_first_sight_doubles:
  assumes "canonical_hash (se_sha e) (se_hash e) (se_fields e) d None None = Inr h"
    "snapshot_agent [] now1 [] t a d by1 note1 None = (Inr n, db1)"
  shows "\<exists>db2 ovr2. snapshot_on_first_sight e [VersionTaken db1] now2 t a d by2 note2 [] ovr = (Inr (2, True), db2, ovr2)
    \<and> map av_def (history db2 t a) = [d, d]"
proof -
  have db1: "db1 = [\<lparr> av_tenant = t, av_agent = a, av_no = 1, av_def = d, av_note = note1, av_by = by1, av_occurred = None,
      av_created = now1 \<rparr>]"
    using assms(2) by (simp add: snapshot_uncontended next_version_no_def history_def)
  have "last_hash e [] t a = None" by (simp add: last_hash_def history_def)
  then show ?thesis
    unfolding first_sight_numbered [OF numbered_Nil assms(1)]
    by (simp add: snapshot_agent_def db1 next_version_no_def history_def)
qed

text \<open>The float product loses a millisecond: a lag of 1.001 seconds reads as 1000.\<close>

lemma lag_loses_a_millisecond: "lag_ms (Some 0) (Some 1001000) = Some 1000"
  by code_simp

end
