(* ===== verification/AssessmentFacts.thy ===== *)
theory AssessmentFacts
  imports Assessment VersionFacts
begin

text \<open>
  What the assessment reports and what it misses: the headline, the evidence pillar and
  its window, the EU AI Act finding, the severity of the delegation advice.
\<close>

section \<open>The headline\<close>

lemma max_finding_upper: "f \<in> set (b # fs) \<Longrightarrow> severity_rank (fg_severity f) \<le> severity_rank (fg_severity (max_finding b fs))"
proof (induction fs arbitrary: b f)
  case (Cons g fs)
  let ?b = "if severity_rank (fg_severity b) < severity_rank (fg_severity g) then g else b"
  have top: "severity_rank (fg_severity ?b) \<le> severity_rank (fg_severity (max_finding ?b fs))"
    using Cons.IH [of ?b ?b] by simp
  show ?case
  proof (cases "f \<in> set fs")
    case True
    then show ?thesis using Cons.IH [of f ?b] by simp
  next
    case False
    then have "severity_rank (fg_severity f) \<le> severity_rank (fg_severity ?b)" using Cons.prems by auto
    with top show ?thesis by simp
  qed
qed simp

lemma max_finding_member: "max_finding b fs \<in> set (b # fs)"
proof (induction fs arbitrary: b)
  case (Cons f fs)
  show ?case
    using Cons.IH [of "if severity_rank (fg_severity b) < severity_rank (fg_severity f) then f else b"]
    by (auto split: if_splits)
qed simp

lemma evidence_never_empty: "fst (pillar_evidence_chain_review e agents) \<noteq> []"
  by (simp add: pillar_evidence_chain_review_def Let_def)

lemma headline_unfold:
  "\<exists>b fs. report_findings (run_assessment e agents) = b # fs \<and> ar_headline (run_assessment e agents) = fg_severity (max_finding b fs)"
  using evidence_never_empty [of e agents]
  by (cases "report_findings (run_assessment e agents)")
    (auto simp: run_assessment_def report_findings_def max_severity_def Let_def split: prod.splits)

text \<open>The headline of a report is the severity of one of its findings, and no
  finding ranks above it; a report is never without a finding.\<close>

theorem headline_is_worst:
  "report_findings (run_assessment e agents) \<noteq> []
   \<and> ar_headline (run_assessment e agents) \<in> fg_severity ` set (report_findings (run_assessment e agents))
   \<and> Max (severity_rank ` fg_severity ` set (report_findings (run_assessment e agents)))
       = severity_rank (ar_headline (run_assessment e agents))"
proof -
  obtain b fs where r: "report_findings (run_assessment e agents) = b # fs"
      "ar_headline (run_assessment e agents) = fg_severity (max_finding b fs)"
    using headline_unfold by blast
  have "Max (severity_rank ` fg_severity ` set (b # fs)) = severity_rank (fg_severity (max_finding b fs))"
    using max_finding_upper [of _ b fs] max_finding_member [of b fs] by (intro Max_eqI) auto
  with r max_finding_member [of b fs] show ?thesis by auto
qed

section \<open>The evidence pillar\<close>

lemma checked_chains_mem:
  "i \<in> set (checked_chains e agents) \<longleftrightarrow> ax_key e \<noteq> None \<and> (\<exists>a\<in>set agents. \<exists>r\<in>set (reviewed e a). iv_id r = i)"
  by (cases "ax_key e") (auto simp: checked_chains_def)

lemma broken_chains_mem:
  "i \<in> set (broken_chains e agents)
   \<longleftrightarrow> i \<in> set (checked_chains e agents) \<and> (\<exists>k. ax_key e = Some k \<and> chain_broken e k i)"
  by (cases "ax_key e") (auto simp: broken_chains_def checked_chains_def)

lemma reviewed_ignores_window: "reviewed (e\<lparr> ax_window := w \<rparr>) a = reviewed e a"
  by (simp add: reviewed_def)

text \<open>The pillar reports a critical finding exactly when the chain of a reviewed
  invocation fails.\<close>

lemma evidence_critical_iff:
  "''critical'' \<in> fg_severity ` set (fst (pillar_evidence_chain_review e agents)) \<longleftrightarrow> broken_chains e agents \<noteq> []"
  by (auto simp: pillar_evidence_chain_review_def Let_def broken_chains_def split: option.splits)

text \<open>The evidence pillar does not depend on the window of the assessment: every
  invocation of an agent, up to the 500 latest, is reviewed whatever window was asked for,
  and a broken chain of any of them is reported critical.\<close>

theorem evidence_window_ignored:
  "pillar_evidence_chain_review (e\<lparr> ax_window := w \<rparr>) agents = pillar_evidence_chain_review e agents
   \<and> ((\<exists>k. ax_key e = Some k \<and> (\<exists>i\<in>set (checked_chains e agents). chain_broken e k i))
        = (''critical'' \<in> fg_severity ` set (ar_evidence (run_assessment e agents))))"
proof
  have "chain_broken (e\<lparr> ax_window := w \<rparr>) = chain_broken e" by (intro ext) (simp add: chain_broken_def Let_def)
  moreover have "checked_chains (e\<lparr> ax_window := w \<rparr>) agents = checked_chains e agents"
    by (cases "ax_key e") (simp_all add: checked_chains_def reviewed_ignores_window)
  moreover from calculation have "broken_chains (e\<lparr> ax_window := w \<rparr>) agents = broken_chains e agents"
    by (cases "ax_key e") (simp_all add: broken_chains_def)
  ultimately show "pillar_evidence_chain_review (e\<lparr> ax_window := w \<rparr>) agents = pillar_evidence_chain_review e agents"
    by (simp add: pillar_evidence_chain_review_def Let_def)
  have "ar_evidence (run_assessment e agents) = fst (pillar_evidence_chain_review e agents)"
    by (simp add: run_assessment_def Let_def split: prod.splits)
  then show "(\<exists>k. ax_key e = Some k \<and> (\<exists>i\<in>set (checked_chains e agents). chain_broken e k i))
      = (''critical'' \<in> fg_severity ` set (ar_evidence (run_assessment e agents)))"
    using broken_chains_mem [of _ e agents] by (auto simp: evidence_critical_iff) (metis neq_Nil_conv list.set_intros(1))
qed

section \<open>Findings that are lost\<close>

text \<open>An EU AI Act finding comes only from an agent whose regimes require no control: where
  controls are required, the recommendation that lists them raises.\<close>

lemma regulated_agents_unreported:
  assumes "f \<in> set (pillar_trust_scoring e agents)" "fg_topic f = EuTier a tier"
  shows "\<exists>d. latest_definition e a = Some d \<and> required_controls (ax_scope e d) tier = [] \<and> tier \<in> {''unacceptable'', ''high''}"
proof -
  have tier: "required_controls (ax_scope e d) tier = [] \<and> tier \<in> {''unacceptable'', ''high''} \<and> b = a"
    if "g \<in> set (tier_findings e b d s)" "fg_topic g = EuTier a tier" for g b d s
    using that by (auto simp: tier_findings_def Let_def compliance_summary_def split: if_splits)
  have risk: "required_controls (ax_scope e d) tier = [] \<and> tier \<in> {''unacceptable'', ''high''} \<and> b = a"
    if "g \<in> set (risk_findings e b d)" "fg_topic g = EuTier a tier" for g b d
    using that tier [of g b d] by (cases "score_agent (ax_now e) (ax_risk e) None None None (ax_read e d)")
      (auto simp: risk_findings_def)
  have quiet: False if "g \<in> set (runtime_findings e b)" "fg_topic g = EuTier a tier" for g b
    using that by (auto simp: runtime_findings_def Let_def split: if_splits)
  obtain b where b: "f \<in> set (case latest_definition e b of Some (kv # kvs) \<Rightarrow> risk_findings e b (kv # kvs) | _ \<Rightarrow> [])"
    using assms(1) quiet [OF _ assms(2)] assms(2) unfolding pillar_trust_scoring_def by (fastforce split: if_splits)
  then obtain d where "latest_definition e b = Some d" "f \<in> set (risk_findings e b d)"
    by (cases "latest_definition e b") (auto split: list.splits)
  with risk [OF _ assms(2)] show ?thesis by blast
qed

lemma high_tier_needs_other_law: "required_controls [''eu_ai_act''] ''high'' \<noteq> []"
  by code_simp

text \<open>The advice to tighten an edge ranks high, the advice to loosen one after a spike low;
  and a window beyond the thirty days of the promotion rule yields no advice at all.\<close>

lemma advice_ranked_by_word:
  "advice_severity ''promote_to_block'' = ''high''" "advice_severity ''rollback_to_observe'' = ''low''"
  by code_simp+

lemma long_window_no_advice:
  assumes "30 < ax_window e"
  shows "DelegationAdvice k r \<notin> fg_topic ` set (pillar_delegation_analysis e agents)"
  using assms
  by (auto simp: pillar_delegation_analysis_def delegation_readiness_report_def assessment_query_def
      DEFAULT_STABLE_DAYS_TO_PROMOTE_def divergence_findings_def Let_def split: if_splits)

text \<open>A store that fails to list grants reads as an agent without grants.\<close>

lemma failing_grants_read_as_none:
  "\<not> ax_grants_ok e \<Longrightarrow> ax_tenant e \<noteq> [] \<Longrightarrow> authority_findings_of e a
     = [\<lparr> fg_pillar = PILLAR_AUTHORITY, fg_severity = ''medium'', fg_topic = NoGrants a \<rparr>]"
  by (simp add: authority_findings_of_def list_grants_def PRINCIPAL_KINDS_def)

text \<open>An invocation that never had a record of evidence counts among the verified chains.\<close>

lemma empty_chain_verifies:
  assumes "chain (ax_evidence e) (ax_tenant e) i = []" "load_anchor (ax_schema e) (d_anchors (ax_evidence e)) (ax_tenant e) i = (None, None)"
    "check_counter_signature (ax_crypto e) k (ax_tenant e) i None None = Inr s"
  shows "\<not> chain_broken e k i"
  using assms by (simp add: chain_broken_def verify_chain_def check_count_def)

end
