(* ===== verification/ChainStore.thy ===== *)
theory ChainStore
  imports ChainFacts RateLimit
begin

text \<open>
  \<open>ValkeyStateStore\<close> (\<open>kya/attack_chains/_state.py\<close>): partial matches shared between
  processes through Valkey, as JSON under a key per rule and correlate key, with an index
  of write times per rule. A text in the store is the JSON value it denotes; SHA-1 is an
  argument. Times are integers, \<open>created_at\<close> is not kept. It provides the locale of
  state stores, and the engine over it is the engine over the in-memory store.
\<close>

section \<open>The store\<close>

text \<open>The prefix, the life time in seconds, and whether the client answers: commands on
  values, and commands on the index (they run after those on the value).\<close>

record chain_conf =
  cc_prefix :: string
  cc_ttl :: "int option"
  cc_sha1 :: "string \<Rightarrow> string"
  cc_up :: bool
  cc_index_up :: bool

record valkey_chains =
  vc_now :: instant
  vc_values :: "(string \<times> json \<times> instant option) list"
  vc_index :: "(string \<times> (string \<times> instant) list) list"

definition DEFAULT_PREFIX :: string where "DEFAULT_PREFIX = ''kya:chains''"
definition STORE_TTL :: int where "STORE_TTL = 3600"

definition chain_store_conf :: "string \<Rightarrow> int option \<Rightarrow> (string \<Rightarrow> string) \<Rightarrow> bool \<Rightarrow> bool \<Rightarrow> chain_conf" where
  "chain_store_conf prefx ttl sha up index_up =
     \<lparr> cc_prefix = prefx, cc_ttl = (case ttl of Some n \<Rightarrow> if 0 < n then Some n else None | None \<Rightarrow> None),
       cc_sha1 = sha, cc_up = up, cc_index_up = index_up \<rparr>"

section \<open>Keys and values\<close>

definition ck_token :: "chain_conf \<Rightarrow> string list \<Rightarrow> string" where
  "ck_token c key = cc_sha1 c (dumps (JList (map JStr key)))"

definition chain_pm_key :: "chain_conf \<Rightarrow> string \<Rightarrow> string \<Rightarrow> string" where
  "chain_pm_key c rid tok = cc_prefix c @ '':pm:'' @ rid @ '':'' @ tok"

definition chain_idx_key :: "chain_conf \<Rightarrow> string \<Rightarrow> string" where
  "chain_idx_key c rid = cc_prefix c @ '':idx:'' @ rid"

definition dumps_pm :: "partial_match \<Rightarrow> json" where
  "dumps_pm pm = JObj
     [(''rule_id'', JStr (pm_rule pm)), (''correlate_key'', JList (map JStr (pm_key pm))),
      (''current_step_idx'', JInt (int (pm_idx pm))), (''steps_ts'', JList (map JInt (pm_ts pm))),
      (''steps_evidence_ids'', JList (map JInt (pm_evidence pm))),
      (''completed_step_ids'', JList (map JStr (pm_done pm))),
      (''steps_principal_ids'', JList (map JStr (pm_principals pm))),
      (''updated_at'', JInt (pm_updated pm))]"

text \<open>Reading back; \<open>None\<close> where the code raises, and for texts no version of \<open>_dumps\<close> wrote.
  Fields added later may be missing.\<close>

fun all_of :: "('a \<Rightarrow> 'b option) \<Rightarrow> 'a list \<Rightarrow> 'b list option" where
  "all_of f [] = Some []"
| "all_of f (x # xs) = (case f x of None \<Rightarrow> None | Some y \<Rightarrow> map_option (Cons y) (all_of f xs))"

fun read_str :: "json \<Rightarrow> string option" where
  "read_str (JStr s) = Some s"
| "read_str j = None"

fun read_int :: "json \<Rightarrow> int option" where
  "read_int (JInt i) = Some i"
| "read_int j = None"

definition read_field :: "(json \<Rightarrow> 'a option) \<Rightarrow> jobj \<Rightarrow> string \<Rightarrow> 'a list option" where
  "read_field f d k =
     (case map_of d k of
        None \<Rightarrow> Some []
      | Some (JList xs) \<Rightarrow> all_of f xs
      | Some _ \<Rightarrow> None)"

definition loads_pm :: "json \<Rightarrow> partial_match option" where
  "loads_pm j =
     (case j of
        JObj d \<Rightarrow>
          (case (Option.bind (map_of d ''rule_id'') read_str,
                 if map_of d ''correlate_key'' = None then None else read_field read_str d ''correlate_key'',
                 Option.bind (map_of d ''current_step_idx'') read_int,
                 read_field read_int d ''steps_ts'', read_field read_int d ''steps_evidence_ids'',
                 read_field read_str d ''completed_step_ids'', read_field read_str d ''steps_principal_ids'',
                 case map_of d ''updated_at'' of None \<Rightarrow> Some 0 | Some u \<Rightarrow> read_int u) of
             (Some r, Some k, Some n, Some ts, Some evs, Some ds, Some ps, Some u) \<Rightarrow>
               Some \<lparr> pm_rule = r, pm_key = k, pm_idx = nat n, pm_ts = ts, pm_evidence = evs, pm_done = ds,
                      pm_principals = ps, pm_updated = u \<rparr>
           | _ \<Rightarrow> None)
      | _ \<Rightarrow> None)"

section \<open>Operations\<close>

definition live_value :: "valkey_chains \<Rightarrow> string \<Rightarrow> json option" where
  "live_value st k =
     (case map_of (vc_values st) k of
        Some (j, None) \<Rightarrow> Some j
      | Some (j, Some d) \<Rightarrow> if vc_now st < d then Some j else None
      | None \<Rightarrow> None)"

definition chain_get :: "chain_conf \<Rightarrow> valkey_chains \<Rightarrow> slot \<Rightarrow> partial_match option" where
  "chain_get c st s =
     (if cc_up c then Option.bind (live_value st (chain_pm_key c (fst s) (ck_token c (snd s)))) loads_pm else None)"

definition index_of :: "valkey_chains \<Rightarrow> string \<Rightarrow> (string \<times> instant) list" where
  "index_of st k = (case map_of (vc_index st) k of Some z \<Rightarrow> z | None \<Rightarrow> [])"

definition index_add :: "chain_conf \<Rightarrow> string \<Rightarrow> string \<Rightarrow> valkey_chains \<Rightarrow> valkey_chains" where
  "index_add c rid tok st =
     (if cc_index_up c then
        st\<lparr> vc_index := AList.update (chain_idx_key c rid)
              (AList.update tok (vc_now st) (index_of st (chain_idx_key c rid))) (vc_index st) \<rparr>
      else st)"

definition index_remove :: "chain_conf \<Rightarrow> string \<Rightarrow> string \<Rightarrow> valkey_chains \<Rightarrow> valkey_chains" where
  "index_remove c rid tok st =
     (if cc_index_up c then
        st\<lparr> vc_index := AList.update (chain_idx_key c rid)
              (AList.delete tok (index_of st (chain_idx_key c rid))) (vc_index st) \<rparr>
      else st)"

definition chain_update :: "chain_conf \<Rightarrow> instant \<Rightarrow> valkey_chains \<Rightarrow> partial_match \<Rightarrow> valkey_chains" where
  "chain_update c mtime st pm =
     (if \<not> cc_up c then st
      else
        (let tok = ck_token c (pm_key pm);
             deadline = map_option (\<lambda>n. vc_now st + n * second) (cc_ttl c)
         in index_add c (pm_rule pm) tok
              (st\<lparr> vc_values := AList.update (chain_pm_key c (pm_rule pm) tok)
                    (dumps_pm (pm\<lparr> pm_updated := mtime \<rparr>), deadline) (vc_values st) \<rparr>)))"

definition chain_get_or_create :: "chain_conf \<Rightarrow> instant \<Rightarrow> valkey_chains \<Rightarrow> slot \<Rightarrow> partial_match \<times> valkey_chains" where
  "chain_get_or_create c mtime st s =
     (case chain_get c st s of
        Some pm \<Rightarrow> (pm, st)
      | None \<Rightarrow>
          (let pm = \<lparr> pm_rule = fst s, pm_key = snd s, pm_idx = 0, pm_ts = [], pm_evidence = [],
                      pm_done = [], pm_principals = [], pm_updated = mtime \<rparr>
           in (pm, chain_update c mtime st pm)))"

definition chain_delete :: "chain_conf \<Rightarrow> valkey_chains \<Rightarrow> slot \<Rightarrow> valkey_chains" where
  "chain_delete c st s =
     (if \<not> cc_up c then st
      else
        (let tok = ck_token c (snd s)
         in index_remove c (fst s) tok
              (st\<lparr> vc_values := AList.delete (chain_pm_key c (fst s) tok) (vc_values st) \<rparr>)))"

text \<open>The index is searched by its key prefix; a token is stale when its last write is at or
  before the cutoff, whether or not its value still lives.\<close>

definition stale_tokens :: "chain_conf \<Rightarrow> instant \<Rightarrow> valkey_chains \<Rightarrow> (string \<times> string) list" where
  "stale_tokens c cutoff st =
     concat (map (\<lambda>(k, z).
       let prefx = cc_prefix c @ '':idx:''
       in if prefix prefx k then map (\<lambda>(tok, t). (drop (length prefx) k, tok)) (filter (\<lambda>(tok, t). t \<le> cutoff) z)
          else []) (vc_index st))"

definition drop_token :: "chain_conf \<Rightarrow> string \<times> string \<Rightarrow> valkey_chains \<Rightarrow> valkey_chains" where
  "drop_token c s st =
     (case s of (rid, tok) \<Rightarrow>
        index_remove c rid tok (st\<lparr> vc_values := AList.delete (chain_pm_key c rid tok) (vc_values st) \<rparr>))"

definition chain_expire :: "chain_conf \<Rightarrow> instant \<Rightarrow> valkey_chains \<Rightarrow> nat \<times> valkey_chains" where
  "chain_expire c max_age st =
     (if \<not> cc_up c \<or> \<not> cc_index_up c then (0, st)
      else (let stale = stale_tokens c (vc_now st - max_age) st
            in (length stale, fold (drop_token c) stale st)))"

definition chain_list_active :: "chain_conf \<Rightarrow> valkey_chains \<Rightarrow> string \<Rightarrow> partial_match list" where
  "chain_list_active c st rid =
     (if \<not> cc_up c \<or> \<not> cc_index_up c then []
      else (let raws = List.map_filter (\<lambda>(tok, t). live_value st (chain_pm_key c rid tok))
                          (sort_key snd (sort_key fst (index_of st (chain_idx_key c rid))))
            in map (\<lambda>j. the (loads_pm j)) (takeWhile (\<lambda>j. loads_pm j \<noteq> None) raws)))"

definition chain_ops :: "chain_conf \<Rightarrow> valkey_chains store_ops" where
  "chain_ops c = \<lparr> so_get = chain_get c, so_update = chain_update c, so_delete = chain_delete c \<rparr>"

section \<open>Round trip\<close>

lemma all_of_map: "(\<And>x. f (g x) = Some x) \<Longrightarrow> all_of f (map g xs) = Some xs"
  by (induction xs) auto

lemma loads_dumps [simp]: "loads_pm (dumps_pm pm) = Some pm"
  by (simp add: loads_pm_def dumps_pm_def read_field_def all_of_map)

section \<open>Keys\<close>

text \<open>The client answers, digests contain no colon, and the digest tells apart the texts of
  the correlate keys in \<open>K\<close> (those that occur; nothing is asked of it elsewhere).\<close>

definition key_text :: "string list \<Rightarrow> string" where
  "key_text k = dumps (JList (map JStr k))"

definition chain_store_ready :: "chain_conf \<Rightarrow> string list set \<Rightarrow> bool" where
  "chain_store_ready c K \<longleftrightarrow> cc_up c \<and> inj_on (cc_sha1 c) (key_text ` K) \<and> (\<forall>x. CHR '':'' \<notin> set (cc_sha1 c x))
     \<and> (\<forall>n. cc_ttl c = Some n \<longrightarrow> 0 < n)"

lemma token_inject:
  assumes "chain_store_ready c K" "k \<in> K" "k' \<in> K" "ck_token c k = ck_token c k'"
  shows "k = k'"
proof -
  have "key_text k = key_text k'"
    using assms unfolding chain_store_ready_def ck_token_def key_text_def [symmetric]
    by (meson imageI inj_onD)
  then have "JList (map JStr k) = JList (map JStr k')"
    unfolding key_text_def using dumps_inject [of "JList (map JStr k)" "JList (map JStr k')" "[]" "[]"]
    by (simp add: list_all_iff delim_def)
  then show ?thesis by (simp add: inj_map_eq_map inj_def)
qed

lemma pm_key_inject:
  assumes "chain_store_ready c K" "k \<in> K" "k' \<in> K"
    and "chain_pm_key c r (ck_token c k) = chain_pm_key c r' (ck_token c k')"
  shows "(r, k) = (r', k')"
proof -
  have "CHR '':'' \<notin> set (ck_token c x)" for x
    using assms(1) by (simp add: chain_store_ready_def ck_token_def)
  moreover have "r @ CHR '':'' # ck_token c k = r' @ CHR '':'' # ck_token c k'"
    using assms(4) by (simp add: chain_pm_key_def)
  ultimately have "r = r'" "ck_token c k = ck_token c k'"
    using colon_append_inject by blast+
  with token_inject [OF assms(1-3)] show ?thesis by simp
qed

section \<open>A provider of state stores\<close>

lemma live_value_index [simp]: "live_value (index_add c r tok st) k = live_value st k"
  "live_value (index_remove c r tok st) k = live_value st k"
  by (simp_all add: index_add_def index_remove_def live_value_def split: option.split)

lemma live_value_update:
  "live_value (st\<lparr> vc_values := AList.update k (j, d) (vc_values st) \<rparr>) k' =
     (if k' = k then (case d of None \<Rightarrow> Some j | Some t \<Rightarrow> if vc_now st < t then Some j else None)
      else live_value st k')"
  by (auto simp: live_value_def update_conv split: option.split)

lemma live_value_delete:
  "live_value (st\<lparr> vc_values := AList.delete k (vc_values st) \<rparr>) k' = (if k' = k then None else live_value st k')"
  by (simp add: live_value_def delete_conv split: option.split)

text \<open>The laws of a state store, on the slots whose keys are in \<open>K\<close>.\<close>

locale keyed_store =
  fixes ops :: "'st store_ops" and K :: "string list set"
  assumes get_update: "snd s \<in> K \<Longrightarrow> pm_key pm \<in> K \<Longrightarrow> so_get ops (so_update ops now st pm) s =
      (if s = slot_of pm then Some (pm\<lparr> pm_updated := now \<rparr>) else so_get ops st s)"
    and get_delete: "snd s \<in> K \<Longrightarrow> snd s' \<in> K \<Longrightarrow>
      so_get ops (so_delete ops st s') s = (if s = s' then None else so_get ops st s)"

sublocale state_store \<subseteq> keyed: keyed_store ops K for K
  by unfold_locales (simp_all add: get_update get_delete)

interpretation mem_keyed: keyed_store memory_ops K for K
  by (rule mem.keyed.keyed_store_axioms)

lemma chain_keyed_store:
  assumes "chain_store_ready c K"
  shows "keyed_store (chain_ops c) K"
proof
  have up: "cc_up c" and ttl: "\<And>n. cc_ttl c = Some n \<Longrightarrow> 0 < n"
    using assms by (simp_all add: chain_store_ready_def)
  have eq: "chain_pm_key c (fst s) (ck_token c (snd s)) = chain_pm_key c (fst s') (ck_token c (snd s')) \<longleftrightarrow> s = s'"
    if "snd s \<in> K" "snd s' \<in> K" for s s'
    using pm_key_inject [OF assms that] by (metis prod.collapse)
  show "so_get (chain_ops c) (so_update (chain_ops c) now st pm) s =
      (if s = slot_of pm then Some (pm\<lparr> pm_updated := now \<rparr>) else so_get (chain_ops c) st s)"
    if "snd s \<in> K" "pm_key pm \<in> K" for now st pm s
    using eq [of s "slot_of pm"] ttl up that
    by (auto simp: chain_ops_def chain_get_def chain_update_def Let_def live_value_update slot_of_def second_def
        split: option.split)
  show "so_get (chain_ops c) (so_delete (chain_ops c) st s') s = (if s = s' then None else so_get (chain_ops c) st s)"
    if "snd s \<in> K" "snd s' \<in> K" for st s s'
    using eq [OF that] up
    by (auto simp: chain_ops_def chain_get_def chain_delete_def Let_def live_value_delete)
qed

section \<open>The engine sees only the view\<close>

definition same_view :: "string list set \<Rightarrow> 'a store_ops \<Rightarrow> 'a \<Rightarrow> 'b store_ops \<Rightarrow> 'b \<Rightarrow> bool" where
  "same_view K a x b y \<longleftrightarrow>
     (\<forall>s. snd s \<in> K \<longrightarrow> so_get a x s = so_get b y s \<and> (\<forall>pm. so_get b y s = Some pm \<longrightarrow> slot_of pm = s))"

lemma same_view_update:
  assumes "keyed_store a K" "keyed_store b K" "same_view K a x b y" "pm_key pm \<in> K"
  shows "same_view K a (so_update a n x pm) b (so_update b n y pm)"
  using assms by (auto simp: same_view_def keyed_store.get_update slot_of_def)

lemma same_view_delete:
  assumes "keyed_store a K" "keyed_store b K" "same_view K a x b y" "snd s \<in> K"
  shows "same_view K a (so_delete a x s) b (so_delete b y s)"
  using assms by (auto simp: same_view_def keyed_store.get_delete)

definition same_result ::
    "string list set \<Rightarrow> 'a store_ops \<Rightarrow> 'b store_ops \<Rightarrow> 'c \<times> 'd \<times> 'a \<Rightarrow> 'c \<times> 'd \<times> 'b \<Rightarrow> bool" where
  "same_result K a b p q \<longleftrightarrow>
     fst p = fst q \<and> fst (snd p) = fst (snd q) \<and> same_view K a (snd (snd p)) b (snd (snd q))"

lemmas same_view_ops = same_view_update same_view_delete

lemma match_keys [simp]:
  "pm_key (first_match r key e ds) = key" "pm_key (extend_match pm e n ds) = pm_key pm"
  by (simp_all add: first_match_def extend_match_def)

lemma advance_rule_same:
  assumes "keyed_store a K" "keyed_store b K" "same_view K a x b y"
    and "\<And>key. correlate_key l r e = Some key \<Longrightarrow> key \<in> K"
  shows "same_result K a b (advance_rule a l r e x) (advance_rule b l r e y)"
proof (cases "correlate_key l r e")
  case (Some key)
  then have key: "key \<in> K" by (rule assms(4))
  then have get: "so_get a x (ru_id r, key) = so_get b y (ru_id r, key)"
    and at: "\<And>pm. so_get b y (ru_id r, key) = Some pm \<Longrightarrow> pm_key pm = key"
    using assms(3) by (force simp: same_view_def slot_of_def)+
  note view = same_view_ops [OF assms(1,2)] assms(3)
  have "same_result K a b (advance_dag a l r key e x) (advance_dag b l r key e y)"
    by (auto simp: same_result_def advance_dag_def Let_def get at key view split: option.split)
  moreover have "same_result K a b (advance_linear a l r key e x) (advance_linear b l r key e y)"
    by (auto simp: same_result_def advance_linear_def Let_def get at key view split: option.split list.split)
  ultimately show ?thesis by (simp add: advance_rule_def Some)
qed (use assms in \<open>simp add: advance_rule_def same_result_def\<close>)

text \<open>The correlate keys that rules compute for events.\<close>

definition keys_of :: "lang \<Rightarrow> chain_rule list \<Rightarrow> event list \<Rightarrow> string list set" where
  "keys_of l rs es = {k. \<exists>r \<in> set rs. \<exists>e \<in> set es. correlate_key l r e = Some k}"

lemma process_same:
  assumes "keyed_store a K" "keyed_store b K" "same_view K a x b y" "keys_of l rs [e] \<subseteq> K"
  shows "same_result K a b (process_evidence a l rs e x) (process_evidence b l rs e y)"
  using assms(3,4)
proof (induction rs arbitrary: x y)
  case (Cons r rs)
  have keys: "\<And>key. correlate_key l r e = Some key \<Longrightarrow> key \<in> K" "keys_of l rs [e] \<subseteq> K"
    using Cons.prems(2) by (auto simp: keys_of_def)
  obtain h es x' where a: "advance_rule a l r e x = (h, es, x')" by (cases "advance_rule a l r e x") auto
  have "same_result K a b (advance_rule a l r e x) (advance_rule b l r e y)"
    by (rule advance_rule_same [OF assms(1,2) Cons.prems(1) keys(1)])
  with a obtain y' where b: "advance_rule b l r e y = (h, es, y')" "same_view K a x' b y'"
    by (cases "advance_rule b l r e y") (auto simp: same_result_def)
  from Cons.IH [OF b(2) keys(2)] show ?case by (auto simp: same_result_def a b(1) split: prod.split)
qed (simp add: same_result_def)

text \<open>Whatever updates and deletions keep, the engine keeps.\<close>

lemma advance_rule_keeps:
  assumes "\<And>n st pm. P st \<Longrightarrow> P (so_update a n st pm)" "\<And>st s. P st \<Longrightarrow> P (so_delete a st s)" "P st"
  shows "P (snd (snd (advance_rule a l r e st)))"
  using assms
  by (auto simp: advance_rule_def advance_dag_def advance_linear_def Let_def split: option.split list.split)

lemma process_keeps:
  assumes "\<And>n st pm. P st \<Longrightarrow> P (so_update a n st pm)" "\<And>st s. P st \<Longrightarrow> P (so_delete a st s)" "P st"
  shows "P (snd (snd (process_evidence a l rs e st)))"
  using assms(3)
proof (induction rs arbitrary: st)
  case (Cons r rs)
  from Cons.IH [OF advance_rule_keeps [of P, OF assms(1,2) Cons.prems, of l r e]]
  show ?case by (auto split: prod.split)
qed simp

section \<open>Workers that share the store\<close>

text \<open>Events with the clock of the store at which they arrive, at whichever worker; the
  reports are the completed rules and the emitted signals of each event.\<close>

fun chain_reports ::
    "(instant \<Rightarrow> 'st \<Rightarrow> 'st) \<Rightarrow> 'st store_ops \<Rightarrow> lang \<Rightarrow> chain_rule list \<Rightarrow> (instant \<times> event) list \<Rightarrow> 'st \<Rightarrow>
     (string list \<times> emission list) list" where
  "chain_reports tick ops l rs [] st = []"
| "chain_reports tick ops l rs ((t, e) # evs) st =
     (case process_evidence ops l rs e (tick t st) of
        (ids, ems, st') \<Rightarrow> (ids, ems) # chain_reports tick ops l rs evs st')"

definition set_clock :: "instant \<Rightarrow> valkey_chains \<Rightarrow> valkey_chains" where
  "set_clock t st = st\<lparr> vc_now := t \<rparr>"

definition empty_chains :: valkey_chains where
  "empty_chains = \<lparr> vc_now = 0, vc_values = [], vc_index = [] \<rparr>"

definition lasts :: "chain_conf \<Rightarrow> instant \<Rightarrow> instant option \<Rightarrow> bool" where
  "lasts c t0 d = (case cc_ttl c of None \<Rightarrow> d = None
     | Some n \<Rightarrow> (case d of None \<Rightarrow> False | Some x \<Rightarrow> t0 + n * second \<le> x))"

definition lasting :: "chain_conf \<Rightarrow> instant \<Rightarrow> valkey_chains \<Rightarrow> bool" where
  "lasting c t0 st \<longleftrightarrow> t0 \<le> vc_now st \<and> (\<forall>d\<in>snd ` snd ` set (vc_values st). lasts c t0 d)"

lemma set_alist_update: "set (AList.update k v xs) \<subseteq> insert (k, v) (set xs)"
  by (induction xs) auto

lemma lasting_put:
  assumes "lasting c t0 st" "lasts c t0 d"
  shows "lasting c t0 (st\<lparr> vc_values := AList.update k (j, d) (vc_values st) \<rparr>)"
  using assms set_alist_update [of k "(j, d)" "vc_values st"] unfolding lasting_def by fastforce

lemma lasting_index [simp]: "lasting c t0 (index_add c r tok st) = lasting c t0 st"
  "lasting c t0 (index_remove c r tok st) = lasting c t0 st"
  by (simp_all add: index_add_def index_remove_def lasting_def)

lemma lasting_update: "lasting c t0 st \<Longrightarrow> lasting c t0 (chain_update c n st pm)"
  unfolding chain_update_def Let_def
  by (auto intro!: lasting_put simp: lasts_def lasting_def [of c t0 st] split: option.split)

lemma lasting_delete: "lasting c t0 st \<Longrightarrow> lasting c t0 (chain_delete c st s)"
  by (auto simp: chain_delete_def Let_def) (auto simp: lasting_def AList.delete_eq)

lemma lasting_process: "lasting c t0 st \<Longrightarrow> lasting c t0 (snd (snd (process_evidence (chain_ops c) l rs e st)))"
  by (rule process_keeps [of "lasting c t0"]) (simp_all add: chain_ops_def lasting_update lasting_delete)

lemma lasting_live:
  assumes "lasting c t0 st" "\<And>n. cc_ttl c = Some n \<Longrightarrow> vc_now st < t0 + n * second"
  shows "live_value st k = map_option fst (map_of (vc_values st) k)"
proof (cases "map_of (vc_values st) k")
  case (Some v)
  then have "(k, v) \<in> set (vc_values st)" by (rule map_of_SomeD)
  then have d: "lasts c t0 (snd v)" using assms(1) unfolding lasting_def by force
  show ?thesis
  proof (cases "cc_ttl c")
    case None
    with d show ?thesis by (cases v) (simp add: lasts_def live_value_def Some)
  next
    case (Some n)
    with d obtain x where "snd v = Some x" "t0 + n * second \<le> x"
      by (auto simp: lasts_def split: option.splits)
    with assms(2) [OF Some] \<open>map_of (vc_values st) k = Some v\<close> show ?thesis
      by (cases v) (simp add: live_value_def)
  qed
qed (simp add: live_value_def)

lemma now_process: "vc_now (snd (snd (process_evidence (chain_ops c) l rs e st))) = vc_now st"
  by (rule process_keeps [of "\<lambda>x. vc_now x = vc_now st"])
    (simp_all add: chain_ops_def chain_update_def chain_delete_def index_add_def index_remove_def Let_def)

definition in_life :: "chain_conf \<Rightarrow> instant \<Rightarrow> instant \<Rightarrow> bool" where
  "in_life c t0 t \<longleftrightarrow> t0 \<le> t \<and> (case cc_ttl c of None \<Rightarrow> True | Some n \<Rightarrow> t < t0 + n * second)"

lemma clock_irrelevant:
  assumes "lasting c t0 st" "in_life c t0 (vc_now st)" "in_life c t0 t"
  shows "so_get (chain_ops c) (set_clock t st) s = so_get (chain_ops c) st s"
proof -
  have "lasting c t0 (set_clock t st)" using assms(1,3) by (simp add: lasting_def set_clock_def in_life_def)
  then have "live_value (set_clock t st) k = live_value st k" for k
    using lasting_live [of c t0 "set_clock t st"] lasting_live [OF assms(1)] assms(2,3)
    by (simp add: in_life_def set_clock_def split: option.splits)
  then show ?thesis by (simp add: chain_ops_def chain_get_def)
qed

lemma reports_same:
  assumes ready: "chain_store_ready c K" and "list_all (\<lambda>(t, e). in_life c t0 t) evs"
    and "keys_of l rs (map snd evs) \<subseteq> K"
    and "lasting c t0 st" "in_life c t0 (vc_now st)" "same_view K (chain_ops c) st memory_ops m"
  shows "chain_reports set_clock (chain_ops c) l rs evs st = chain_reports (\<lambda>t m. m) memory_ops l rs evs m"
  using assms(2-)
proof (induction evs arbitrary: st m)
  case (Cons te evs)
  obtain t e where te: "te = (t, e)" by (cases te)
  let ?st = "set_clock t st"
  have t: "in_life c t0 t" and evs: "list_all (\<lambda>(t, e). in_life c t0 t) evs" using Cons.prems(1) te by simp_all
  have keys: "keys_of l rs [e] \<subseteq> K" "keys_of l rs (map snd evs) \<subseteq> K"
    using Cons.prems(2) by (auto simp: keys_of_def te)
  have last: "lasting c t0 ?st" using Cons.prems(3) t by (simp add: lasting_def set_clock_def in_life_def)
  have "same_view K (chain_ops c) ?st memory_ops m"
    using Cons.prems(5) clock_irrelevant [OF Cons.prems(3,4) t] unfolding same_view_def by simp
  from process_same [OF chain_keyed_store [OF ready] mem.keyed.keyed_store_axioms this keys(1)]
  have res: "same_result K (chain_ops c) memory_ops (process_evidence (chain_ops c) l rs e ?st) (process_evidence memory_ops l rs e m)" .
  obtain ids ems st' where p: "process_evidence (chain_ops c) l rs e ?st = (ids, ems, st')"
    by (cases "process_evidence (chain_ops c) l rs e ?st")
  with res obtain m' where q: "process_evidence memory_ops l rs e m = (ids, ems, m')" "same_view K (chain_ops c) st' memory_ops m'"
    by (cases "process_evidence memory_ops l rs e m") (auto simp: same_result_def)
  have "lasting c t0 st'" "vc_now st' = t"
    using lasting_process [OF last, of l rs e] now_process [of c l rs e ?st] p by (simp_all add: set_clock_def)
  with Cons.IH [OF evs keys(2), of st' m'] q t show ?case by (simp add: te p)
qed simp

text \<open>C12. Detection over the shared store is detection in one process, as long as no two
  workers advance at the same time. Let events be processed one after another, each by any
  of the workers that share the store, at whatever clock readings, the store answering, the
  first write not yet expired at the last event, and the digest without a colon and
  different on the correlate keys that occur: every event completes the same rules and emits the same signals
  as if one process had seen them all with the in-memory store. (What happens when two workers do
  advance at the same time is the theorems after it.)\<close>

theorem shared_store_refines_memory:
  assumes "chain_store_ready c (keys_of l rs (map snd evs))" and "list_all (\<lambda>(t, e). in_life c t0 t) evs"
  shows "chain_reports set_clock (chain_ops c) l rs evs empty_chains
      = chain_reports (\<lambda>t m. m) memory_ops l rs evs []"
proof (cases evs)
  case (Cons te evs')
  have "in_life c t0 (fst te)" using assms(2) Cons by (cases te) simp
  then have "in_life c t0 (vc_now (set_clock (fst te) empty_chains))" "lasting c t0 (set_clock (fst te) empty_chains)"
    by (simp_all add: set_clock_def lasting_def empty_chains_def in_life_def)
  moreover have "same_view K (chain_ops c) (set_clock (fst te) empty_chains) memory_ops []" for K
    by (simp add: same_view_def chain_ops_def chain_get_def live_value_def set_clock_def empty_chains_def
        memory_ops_def memory_get_def)
  ultimately have "chain_reports set_clock (chain_ops c) l rs evs (set_clock (fst te) empty_chains)
      = chain_reports (\<lambda>t m. m) memory_ops l rs evs []"
    using reports_same [OF assms subset_refl] by blast
  then show ?thesis by (cases te) (simp add: Cons set_clock_def)
qed simp

text \<open>A digest without colons that tells texts apart.\<close>

definition toy_sha :: "string \<Rightarrow> string" where
  "toy_sha x = concat (map (\<lambda>h. if h = CHR '':'' then ''a'' else [CHR ''b'', h]) x)"

lemma toy_sha_ready: "chain_store_ready (chain_store_conf DEFAULT_PREFIX (Some STORE_TTL) toy_sha True True) K"
proof -
  have "x = y" if "toy_sha x = toy_sha y" for x y
    using that
  proof (induction x arbitrary: y)
    case Nil then show ?case by (cases y) (auto simp: toy_sha_def split: if_splits)
  next
    case (Cons h x) then show ?case by (cases y) (auto simp: toy_sha_def split: if_splits)
  qed
  moreover have "CHR '':'' \<notin> set (toy_sha x)" for x by (induction x) (auto simp: toy_sha_def)
  ultimately show ?thesis by (auto simp: chain_store_ready_def chain_store_conf_def inj_on_def STORE_TTL_def)
qed

definition spread_events :: "(instant \<times> event) list" where
  "spread_events = [(5 * second, toy_event ''p'' ''tool_call'' 1), (4 * second, toy_event ''q'' ''response'' 1000)]"

lemma shared_store_refines_memory_witness:
  "chain_reports set_clock (chain_ops (chain_store_conf DEFAULT_PREFIX (Some STORE_TTL) toy_sha True True)) toy_lang
     [two_step_rule] spread_events empty_chains
   = [([], []), ([''exfil''], emit two_step_rule [''t'', ''c''] (toy_event ''q'' ''response'' 1000) [''p'', ''q''])]"
proof -
  have "list_all (\<lambda>(t, e). in_life (chain_store_conf DEFAULT_PREFIX (Some STORE_TTL) toy_sha True True) (4 * second) t) spread_events"
    by (simp add: spread_events_def in_life_def chain_store_conf_def STORE_TTL_def second_def)
  note run = shared_store_refines_memory [OF toy_sha_ready this, of toy_lang "[two_step_rule]"]
  have "fst (snd (process_evidence memory_ops toy_lang [two_step_rule] (toy_event ''p'' ''tool_call'' 1) [])) = []
      \<and> fst (process_evidence memory_ops toy_lang [two_step_rule] (toy_event ''p'' ''tool_call'' 1) []) = []"
    by (simp add: advance_rule_def toy_key advance_linear_def Let_def toy_step memory_ops_def memory_get_def
        two_step_rule_def [THEN arg_cong [of _ _ ru_mode]] two_step_rule_def [THEN arg_cong [of _ _ ru_steps]])
  with toy_run show ?thesis unfolding run unfolding spread_events_def
    by (cases "process_evidence memory_ops toy_lang [two_step_rule] (toy_event ''p'' ''tool_call'' 1) []") auto
qed

text \<open>Beyond the life time the store forgets: a chain whose next step comes an hour later
  starts over, whatever the windows of its rule say.\<close>

lemma expired_match_forgotten:
  assumes "cc_ttl c = Some n" "cc_up c" "vc_now st + n * second \<le> t"
  shows "so_get (chain_ops c) (set_clock t (so_update (chain_ops c) m st pm)) (slot_of pm) = None"
  using assms
  by (simp add: chain_ops_def chain_get_def chain_update_def Let_def live_value_def slot_of_def set_clock_def index_add_def
      update_conv')

text \<open>With the store down a rule of two steps never fires.\<close>

lemma store_down_blind:
  assumes "\<not> cc_up c" "2 \<le> length (ru_steps r)" "ru_mode r \<noteq> ''dag''"
  shows "fst (advance_rule (chain_ops c) l r e st) = False"
  using assms
  by (auto simp: advance_rule_def advance_linear_def chain_ops_def chain_get_def Let_def split: option.split list.split)

section \<open>Workers at the same time\<close>

text \<open>The commands are atomic, the advance is not: the engine reads the partial match and
  writes it back with nothing between to notice another worker. An advance that read
  \<open>old\<close> and writes to the store as it has become since.\<close>

definition read_earlier :: "'st store_ops \<Rightarrow> 'st \<Rightarrow> 'st store_ops" where
  "read_earlier ops old = ops\<lparr> so_get := (\<lambda>st s. so_get ops old s) \<rparr>"

lemma read_earlier_simps [simp]:
  "so_get (read_earlier ops old) st s = so_get ops old s"
  "so_update (read_earlier ops old) = so_update ops" "so_delete (read_earlier ops old) = so_delete ops"
  by (simp_all add: read_earlier_def)

text \<open>A missed advance: two events that match different steps of a graph rule arrive at
  two workers, and both read before either writes. Neither completes the rule, and the
  store keeps the step of the later write only: the other step is forgotten.\<close>

theorem racing_workers_lose_a_step:
  assumes "keyed_store ops K" "key \<in> K" "ru_mode r = ''dag''"
    and key: "correlate_key l r e1 = Some key" "correlate_key l r e2 = Some key"
    and none: "so_get ops st (ru_id r, key) = None"
    and steps: "ready_step l r [] e1 = Some s1" "ready_step l r [] e2 = Some s2" "st_id s1 \<noteq> st_id s2"
    and first: "advance_rule ops l r e1 st = (hit1, ems1, st1)"
    and second: "advance_rule (read_earlier ops st) l r e2 st1 = (hit2, ems2, st2)"
  shows "\<not> hit1 \<and> \<not> hit2 \<and> ems1 = [] \<and> ems2 = []
    \<and> map_option pm_done (so_get ops st2 (ru_id r, key)) = Some [st_id s2]"
proof -
  have ins: "s1 \<in> set (ru_steps r)" "s2 \<in> set (ru_steps r)"
    using steps(1,2) by (auto simp: ready_step_def find_Some_iff)
  then have more: "\<not> list_all (\<lambda>x. st_id x \<in> set (pm_done (first_match r key e [st_id s]))) (ru_steps r)"
    if "s = s1 \<or> s = s2" for s e
    using that steps(3) ins by (auto simp: list_all_iff first_match_def) metis+
  have adv1: "hit1 = False \<and> ems1 = [] \<and> st1 = so_update ops (ev_mono e1) st (first_match r key e1 [st_id s1])"
    using first more [of s1] by (simp add: advance_rule_def advance_dag_def assms(3) key none steps Let_def)
  have adv2: "hit2 = False \<and> ems2 = [] \<and> st2 = so_update ops (ev_mono e2) st1 (first_match r key e2 [st_id s2])"
    using second more [of s2] by (simp add: advance_rule_def advance_dag_def assms(3) key none steps Let_def)
  from adv1 adv2 show ?thesis
    by (simp add: keyed_store.get_update [OF assms(1)] assms(2) slot_of_def first_match_def)
qed

text \<open>A repeated detection: two events that match the last step of a linear rule both
  complete it, and each emits its signals.\<close>

theorem racing_workers_repeat_a_match:
  assumes "ru_mode r \<noteq> ''dag''" "correlate_key l r e1 = Some key" "correlate_key l r e2 = Some key"
    and "so_get ops st (ru_id r, key) = Some pm" "Suc (pm_idx pm) = length (ru_steps r)"
    and "\<And>e. e = e1 \<or> e = e2 \<Longrightarrow> event_matches_step l e (ru_steps r ! pm_idx pm)
      \<and> \<not> window_closed (ru_steps r ! pm_idx pm) (linear_pred_times r pm (ru_steps r ! pm_idx pm)) (now_ts e)"
  shows "fst (advance_rule ops l r e1 st) \<and> fst (advance_rule (read_earlier ops st) l r e2 st1)"
  using assms by (simp add: advance_rule_def advance_linear_def Let_def extend_match_def)

text \<open>Both at concrete events. One after the other the two steps of an unordered rule complete
  it; at the same time they do not.\<close>

definition unordered_rule :: chain_rule where
  "unordered_rule = two_step_rule\<lparr> ru_mode := ''dag'', ru_steps :=
     [\<lparr> st_id = ''a'', st_kind = ''tool_call'', st_match = [], st_after = [], st_within = None \<rparr>,
      \<lparr> st_id = ''b'', st_kind = ''response'', st_match = [], st_after = [], st_within = None \<rparr>] \<rparr>"

lemma unordered_simps [simp]:
  "ru_mode unordered_rule = ''dag''" "ru_id unordered_rule = ''exfil''"
  "ru_steps unordered_rule =
     [\<lparr> st_id = ''a'', st_kind = ''tool_call'', st_match = [], st_after = [], st_within = None \<rparr>,
      \<lparr> st_id = ''b'', st_kind = ''response'', st_match = [], st_after = [], st_within = None \<rparr>]"
  by (simp_all add: unordered_rule_def two_step_rule_def)

lemma unordered_key: "correlate_key toy_lang unordered_rule (toy_event p k t) = Some [''t'', ''c'']"
proof -
  have "correlate_key l unordered_rule e = correlate_key l two_step_rule e" for l e
    by (simp add: correlate_key_def unordered_rule_def)
  then show ?thesis by (simp add: toy_key)
qed

lemma unordered_ready:
  "ready_step toy_lang unordered_rule ds (toy_event p k t) =
     (if k = ''tool_call'' \<and> ''a'' \<notin> set ds then Some (hd (ru_steps unordered_rule))
      else if k = ''response'' \<and> ''b'' \<notin> set ds then Some (last (ru_steps unordered_rule)) else None)"
  by (auto simp: ready_step_def toy_step all_match_def)

abbreviation step_a :: event where "step_a \<equiv> toy_event ''p'' ''tool_call'' 1"
abbreviation step_b :: event where "step_b \<equiv> toy_event ''q'' ''response'' 1000"

theorem racing_workers_lose_a_step_witness:
  "fst (advance_rule memory_ops toy_lang unordered_rule step_b
         (snd (snd (advance_rule memory_ops toy_lang unordered_rule step_a []))))
   \<and> \<not> fst (advance_rule (read_earlier memory_ops []) toy_lang unordered_rule step_b
         (snd (snd (advance_rule memory_ops toy_lang unordered_rule step_a []))))"
proof -
  have none: "so_get memory_ops [] (ru_id unordered_rule, [''t'', ''c'']) = None"
    by (simp add: memory_ops_def memory_get_def)
  have "fst (advance_rule memory_ops toy_lang unordered_rule step_b
         (snd (snd (advance_rule memory_ops toy_lang unordered_rule step_a []))))"
    by (simp add: advance_rule_def unordered_key advance_dag_def unordered_ready Let_def memory_ops_def
        memory_get_def memory_update_def slot_of_def first_match_def extend_match_def window_closed_def)
  moreover obtain h1 m1 st1 where 1: "advance_rule memory_ops toy_lang unordered_rule step_a [] = (h1, m1, st1)"
    by (rule prod_cases3)
  obtain h2 m2 st2 where 2: "advance_rule (read_earlier memory_ops []) toy_lang unordered_rule step_b st1 = (h2, m2, st2)"
    by (rule prod_cases3)
  from racing_workers_lose_a_step [OF mem.keyed.keyed_store_axioms [of UNIV] UNIV_I unordered_simps(1)
      unordered_key unordered_key none _ _ _ 1 2, of "hd (ru_steps unordered_rule)" "last (ru_steps unordered_rule)"]
  have "\<not> fst (advance_rule (read_earlier memory_ops []) toy_lang unordered_rule step_b
         (snd (snd (advance_rule memory_ops toy_lang unordered_rule step_a []))))"
    by (simp add: 1 2 unordered_ready)
  ultimately show ?thesis by blast
qed

theorem racing_workers_repeat_a_match_witness:
  "fst (advance_rule (read_earlier memory_ops [((''exfil'', [''t'', ''c'']), first_match two_step_rule [''t'', ''c''] step_a [])])
     toy_lang two_step_rule (toy_event ''r'' ''response'' 2000) [])"
proof -
  let ?pm = "first_match two_step_rule [''t'', ''c''] step_a []"
  have steps: "ru_steps two_step_rule ! pm_idx ?pm =
      \<lparr> st_id = ''b'', st_kind = ''response'', st_match = [], st_after = [''a''], st_within = None \<rparr>"
    "Suc (pm_idx ?pm) = length (ru_steps two_step_rule)"
    and names: "ru_mode two_step_rule = ''linear''" "ru_id two_step_rule = ''exfil''"
    by (simp_all add: two_step_rule_def first_match_def)
  show ?thesis
    by (rule racing_workers_repeat_a_match [where key = "[''t'', ''c'']" and ?e1.0 = step_b and pm = ?pm, THEN conjunct2])
      (auto simp: toy_key toy_step all_match_def memory_ops_def memory_get_def window_closed_def steps names)
qed

end
