(* ===== verification/Dids.thy ===== *)
theory Dids
  imports Json "HOL-Library.Word"
begin

text \<open>
  Decentralised identifiers: the document (\<open>kya/did_document.py\<close>), the facade
  (\<open>kya/did.py\<close>) and the two methods without network (\<open>kya/did_methods/key.py\<close>,
  \<open>jwk.py\<close>). SHA-256, the web method, methods registered by the host and the decoding of
  a JWK suffix to JSON are arguments. Services and other names of a document are not read.
\<close>

section \<open>Positional numbers\<close>

function digits :: "nat \<Rightarrow> nat \<Rightarrow> nat list" where
  "digits b n = (if n = 0 \<or> b < 2 then [] else digits b (n div b) @ [n mod b])"
  by pat_completeness auto

termination by (relation "measure snd") auto

declare digits.simps [simp del]

definition positional :: "nat \<Rightarrow> nat list \<Rightarrow> nat" where
  "positional b ds = foldl (\<lambda>n d. n * b + d) 0 ds"

lemma number_snoc [simp]: "positional b [] = 0" "positional b (ds @ [d]) = positional b ds * b + d"
  by (simp_all add: positional_def)

lemma number_digits: "2 \<le> b \<Longrightarrow> positional b (digits b n) = n"
proof (induction b n rule: digits.induct)
  case (1 b n)
  then show ?case by (subst digits.simps) simp
qed

lemma number_pos:
  "0 < b \<Longrightarrow> ds \<noteq> [] \<Longrightarrow> hd ds \<noteq> 0 \<Longrightarrow> 0 < positional b ds"
proof (induction ds rule: rev_induct)
  case (snoc d ds)
  then show ?case unfolding number_snoc by (cases ds) auto
qed simp

lemma digits_number:
  assumes "2 \<le> b" "\<forall>d\<in>set ds. d < b" "ds = [] \<or> hd ds \<noteq> 0"
  shows "digits b (positional b ds) = ds"
  using assms(2,3)
proof (induction ds rule: rev_induct)
  case Nil
  then show ?case by (simp add: digits.simps)
next
  case (snoc d ds)
  have d: "d < b" and ds: "digits b (positional b ds) = ds" and pos: "ds \<noteq> [] \<Longrightarrow> 0 < positional b ds"
    using snoc assms(1) number_pos [of b ds] by (cases ds; auto)+
  have "positional b ds * b + d \<noteq> 0" using pos assms(1) snoc.prems(2) by (cases ds) auto
  with d ds assms(1) show ?case by (subst digits.simps) auto
qed

lemma digits_bounds: "2 \<le> b \<Longrightarrow> (\<forall>d\<in>set (digits b n). d < b) \<and> (digits b n = [] \<or> hd (digits b n) \<noteq> 0)"
proof (induction b n rule: digits.induct)
  case (1 b n)
  show ?case
  proof (cases "n = 0")
    case False
    with 1 have "n div b \<noteq> 0 \<or> n mod b \<noteq> 0" by (metis mod_div_mult_eq mult_is_0 add_0 mult_0)
    moreover have "digits b (n div b) = [] \<longleftrightarrow> n div b = 0"
      using number_digits [OF 1(2), of "n div b"] by (metis digits.simps number_snoc(1))
    ultimately show ?thesis using 1 False by (subst (1 2 3) digits.simps) auto
  qed (simp add: digits.simps)
qed

section \<open>Base 58\<close>

type_synonym byte = "8 word"

definition BASE58_ALPHABET :: string where
  "BASE58_ALPHABET = ''123456789ABCDEFGHJKLMNPQRSTUVWXYZabcdefghijkmnopqrstuvwxyz''"

definition BASE58_INDEX :: "(char \<times> nat) list" where
  "BASE58_INDEX = zip BASE58_ALPHABET [0..<58]"

definition to_bytes :: "nat \<Rightarrow> byte list" where
  "to_bytes n = map of_nat (digits 256 n)"

definition base58_decode :: "string \<Rightarrow> byte list option" where
  "base58_decode s =
     (case those (map (map_of BASE58_INDEX) s) of
        None \<Rightarrow> None
      | Some ds \<Rightarrow> Some (replicate (length (takeWhile (\<lambda>c. c = CHR ''1'') s)) 0 @ to_bytes (positional 58 ds)))"

text \<open>The text of a byte string, for reference.\<close>

definition base58_encode :: "byte list \<Rightarrow> string" where
  "base58_encode bs =
     replicate (length (takeWhile (\<lambda>b. b = 0) bs)) (CHR ''1'')
     @ map (\<lambda>d. BASE58_ALPHABET ! d) (digits 58 (positional 256 (map unat bs)))"

section \<open>Base 64 for URLs, without padding\<close>

definition BASE64_ALPHABET :: string where
  "BASE64_ALPHABET = ''ABCDEFGHIJKLMNOPQRSTUVWXYZabcdefghijklmnopqrstuvwxyz0123456789-_''"

fun sextets :: "nat list \<Rightarrow> nat list" where
  "sextets [] = []"
| "sextets [a] = [a div 4, a mod 4 * 16]"
| "sextets [a, b] = [a div 4, a mod 4 * 16 + b div 16, b mod 16 * 4]"
| "sextets (a # b # c # bs) =
     a div 4 # (a mod 4 * 16 + b div 16) # (b mod 16 * 4 + c div 64) # c mod 64 # sextets bs"

definition b64url_no_pad :: "byte list \<Rightarrow> string" where
  "b64url_no_pad bs = map (\<lambda>d. BASE64_ALPHABET ! d) (sextets (map unat bs))"

section \<open>Documents\<close>

record verification_method =
  vm_id :: string
  vm_type :: string
  vm_controller :: string
  vm_jwk :: jobj

record did_document =
  dd_id :: string
  dd_methods :: "verification_method list"
  dd_auth :: "string list"
  dd_assert :: "string list"
  dd_raw :: jobj

definition doc_hash :: "(string \<Rightarrow> string) \<Rightarrow> did_document \<Rightarrow> string" where
  "doc_hash sha d = (if dd_raw d = [] then [] else sha (dumps (sort_keys (JObj (dd_raw d)))))"

definition find_key :: "did_document \<Rightarrow> string option \<Rightarrow> verification_method option" where
  "find_key d kid =
     (case kid of
        None \<Rightarrow> (case dd_methods d of [] \<Rightarrow> None | m # ms \<Rightarrow> Some m)
      | Some k \<Rightarrow> List.find (\<lambda>m. vm_id m = k \<or> suffix (CHR ''#'' # k) (vm_id m)) (dd_methods d))"

section \<open>The methods key and jwk\<close>

datatype did_error = DIDInvalidIdentifier | DIDMethodNotEnabled | DIDResolutionFailed | DIDDocumentTooLarge

text \<open>A document with a single key that authenticates and asserts.\<close>

definition single_key_document :: "string \<Rightarrow> string \<Rightarrow> string \<Rightarrow> jobj \<Rightarrow> did_document" where
  "single_key_document did vid vtype jwk =
     \<lparr> dd_id = did,
       dd_methods = [\<lparr> vm_id = vid, vm_type = vtype, vm_controller = did, vm_jwk = jwk \<rparr>],
       dd_auth = [vid], dd_assert = [vid],
       dd_raw = [(''@context'', JList [JStr ''https://www.w3.org/ns/did/v1'']), (''id'', JStr did),
         (''verificationMethod'', JList [JObj [(''id'', JStr vid), (''type'', JStr vtype), (''controller'', JStr did),
            (''publicKeyJwk'', JObj jwk)]]),
         (''authentication'', JList [JStr vid]), (''assertionMethod'', JList [JStr vid])] \<rparr>"

definition MULTICODEC_ED25519 :: "byte list" where "MULTICODEC_ED25519 = [0xED, 0x01]"
definition MULTICODEC_X25519 :: "byte list" where "MULTICODEC_X25519 = [0xEC, 0x01]"
definition MULTICODEC_SECP256K1 :: "byte list" where "MULTICODEC_SECP256K1 = [0xE7, 0x01]"
definition MULTICODEC_P256 :: "byte list" where "MULTICODEC_P256 = [0x80, 0x24]"

definition resolve_key :: "string \<Rightarrow> did_error + did_document" where
  "resolve_key sfx =
     (if \<not> starts_with sfx ''z'' then Inl DIDInvalidIdentifier
      else (case base58_decode (tl sfx) of
          None \<Rightarrow> Inl DIDInvalidIdentifier
        | Some raw \<Rightarrow>
            if length raw < 3 then Inl DIDInvalidIdentifier
            else if take 2 raw = MULTICODEC_ED25519 then
              (if length (drop 2 raw) \<noteq> 32 then Inl DIDInvalidIdentifier
               else (let did = ''did:key:'' @ sfx
                     in Inr (single_key_document did (did @ ''#'' @ sfx) ''Ed25519VerificationKey2020''
                          [(''kty'', JStr ''OKP''), (''crv'', JStr ''Ed25519''),
                           (''x'', JStr (b64url_no_pad (drop 2 raw)))])))
            else if take 2 raw \<in> {MULTICODEC_X25519, MULTICODEC_SECP256K1, MULTICODEC_P256} then Inl DIDResolutionFailed
            else Inl DIDInvalidIdentifier))"

text \<open>The argument gives the JSON value a suffix denotes, if it denotes one.\<close>

definition resolve_jwk :: "(string \<Rightarrow> json option) \<Rightarrow> string \<Rightarrow> did_error + did_document" where
  "resolve_jwk denoted sfx =
     (case denoted sfx of
        Some (JObj jwk) \<Rightarrow>
          if map_of jwk ''kty'' = None then Inl DIDInvalidIdentifier
          else (let did = ''did:jwk:'' @ sfx in Inr (single_key_document did (did @ ''#0'') ''JsonWebKey2020'' jwk))
      | _ \<Rightarrow> Inl DIDInvalidIdentifier)"

section \<open>The facade\<close>

text \<open>The two environment variables, the methods the host has registered, the network method
  and the decoder; a resolver raises a DID error or, \<open>Inl None\<close>, another exception.\<close>

type_synonym resolver = "string \<Rightarrow> did_error option + did_document"

record did_env =
  de_resolvers :: "string option"
  de_trusted :: "string option"
  de_registered :: "(string \<times> resolver) list"
  de_web :: resolver
  de_denoted :: "string \<Rightarrow> json option"

definition listed :: "string option \<Rightarrow> string list" where
  "listed v = filter (\<lambda>m. m \<noteq> []) (map strip (split_on (CHR '','') (strip (or_else v []))))"

definition enabled_methods :: "did_env \<Rightarrow> string list" where
  "enabled_methods e = map lower (listed (de_resolvers e))"

definition trusted_issuers :: "did_env \<Rightarrow> string list" where
  "trusted_issuers e = listed (de_trusted e)"

definition register_did_method ::
    "string \<Rightarrow> resolver \<Rightarrow> (string \<times> resolver) list \<Rightarrow> string + (string \<times> resolver) list" where
  "register_did_method m r rs = (if m = [] then Inl ''ValueError'' else Inr ((m, r) # rs))"

definition did_resolvers :: "did_env \<Rightarrow> (string \<times> resolver) list" where
  "did_resolvers e =
     de_registered e @ filter (\<lambda>(m, r). m \<in> set (enabled_methods e))
       [(''key'', map_sum Some id \<circ> resolve_key), (''web'', de_web e),
        (''jwk'', map_sum Some id \<circ> resolve_jwk (de_denoted e))]"

text \<open>Method and suffix of \<open>did:method:suffix\<close>.\<close>

definition did_parts :: "string \<Rightarrow> (string \<times> string) option" where
  "did_parts uri =
     (if \<not> starts_with uri ''did:'' then None
      else (let rest = drop 4 uri; m = takeWhile (\<lambda>c. c \<noteq> CHR '':'') rest; s = dropWhile (\<lambda>c. c \<noteq> CHR '':'') rest
            in if m = [] \<or> s = [] \<or> tl s = [] then None else Some (m, tl s)))"

definition resolve_did :: "did_env \<Rightarrow> string \<Rightarrow> did_error + did_document" where
  "resolve_did e uri =
     (case did_parts uri of
        None \<Rightarrow> Inl DIDInvalidIdentifier
      | Some (m, s) \<Rightarrow>
          if m \<notin> set (enabled_methods e) then Inl DIDMethodNotEnabled
          else (case map_of (did_resolvers e) m of
              None \<Rightarrow> Inl DIDMethodNotEnabled
            | Some r \<Rightarrow>
                (case r s of
                   Inl (Some x) \<Rightarrow> Inl x | Inl None \<Rightarrow> Inl DIDResolutionFailed | Inr d \<Rightarrow> Inr d)))"

end
