(* ===== verification/DidFacts.thy ===== *)
theory DidFacts
  imports Dids
begin

text \<open>
  What a DID stands for: base 58 is a bijection onto its texts, so a key has exactly one
  \<open>did:key\<close> name, and the facade resolves a DID to the document of that very name.
\<close>

section \<open>Leading zeros\<close>

lemma number_zeros: "positional b (replicate k 0 @ ds) = positional b ds"
proof (induction ds rule: rev_induct)
  case Nil
  show ?case by (induction k) (simp_all add: positional_def)
next
  case (snoc d ds)
  then show ?case using number_snoc(2) [of b "replicate k 0 @ ds" d] number_snoc(2) [of b ds d] by simp
qed

abbreviation zeros :: "nat list \<Rightarrow> nat" where
  "zeros ds \<equiv> length (takeWhile (\<lambda>d. d = 0) ds)"

lemma takeWhile_zeros: "takeWhile (\<lambda>d. d = 0) ds = replicate (zeros ds) (0::nat)"
  by (induction ds) auto

lemma zeros_then_digits:
  assumes "2 \<le> b" "\<forall>d\<in>set ds. d < b"
  shows "replicate (zeros ds) 0 @ digits b (positional b ds) = ds"
proof -
  let ?rest = "dropWhile (\<lambda>d. d = 0) ds"
  have ds: "ds = replicate (zeros ds) 0 @ ?rest"
    using takeWhile_dropWhile_id [of "\<lambda>d. d = 0" ds] takeWhile_zeros [of ds] by simp
  have "\<forall>d\<in>set ?rest. d < b" using assms(2) by (auto dest: set_dropWhileD)
  moreover have "?rest = [] \<or> hd ?rest \<noteq> 0" using hd_dropWhile [of "\<lambda>d. d = 0" ds] by blast
  ultimately have "digits b (positional b ?rest) = ?rest" by (rule digits_number [OF assms(1)])
  moreover have "positional b ds = positional b ?rest" by (subst ds) (rule number_zeros)
  ultimately show ?thesis using ds by simp
qed

lemma zeros_digits: "2 \<le> b \<Longrightarrow> zeros (replicate k 0 @ digits b n) = k"
  using digits_bounds [of b n] by (cases "digits b n") (auto simp: takeWhile_append)

section \<open>Base 58\<close>

lemma alphabet58: "distinct BASE58_ALPHABET" "length BASE58_ALPHABET = 58" "BASE58_ALPHABET ! 0 = CHR ''1''"
  by code_simp+

lemma index58: "map_of BASE58_INDEX c = Some d \<longleftrightarrow> d < 58 \<and> BASE58_ALPHABET ! d = c"
  using alphabet58(1,2) by (auto simp: BASE58_INDEX_def map_of_eq_Some_iff in_set_zip)

lemma those_Cons: "those (x # xs) = Some (y # ys) \<longleftrightarrow> x = Some y \<and> those xs = Some ys"
  "those (x # xs) \<noteq> Some []"
  by (auto split: option.split)

lemma those58: "those (map (map_of BASE58_INDEX) s) = Some ds
  \<longleftrightarrow> (\<forall>d\<in>set ds. d < 58) \<and> s = map (\<lambda>d. BASE58_ALPHABET ! d) ds"
proof (induction s arbitrary: ds)
  case (Cons c s)
  show ?case
  proof (cases ds)
    case Nil
    then show ?thesis using those_Cons(2) by simp
  next
    case (Cons d ds')
    show ?thesis unfolding Cons list.map those_Cons Cons.IH index58 by auto
  qed
qed auto

lemma ones58: "\<forall>d\<in>set ds. d < 58 \<Longrightarrow> takeWhile (\<lambda>c. c = CHR ''1'') (map (\<lambda>d. BASE58_ALPHABET ! d) ds)
    = map (\<lambda>d. BASE58_ALPHABET ! d) (takeWhile (\<lambda>d. d = 0) ds)"
proof (induction ds)
  case (Cons d ds)
  have "BASE58_ALPHABET ! d = CHR ''1'' \<longleftrightarrow> d = 0"
    using Cons.prems alphabet58 nth_eq_iff_index_eq [OF alphabet58(1), of d 0] by simp
  with Cons show ?case by simp
qed simp

lemma unat_of_byte: "n < 256 \<Longrightarrow> unat (of_nat n :: byte) = n"
  by (simp add: unat_of_nat take_bit_nat_eq_self)

lemma byte_list: "\<forall>n\<in>set ns. n < 256 \<Longrightarrow> map (unat \<circ> (of_nat :: nat \<Rightarrow> byte)) ns = ns"
  by (induction ns) (auto simp: unat_of_byte)

lemma byte_bound: "unat (w :: byte) < 256"
  using unsigned_less [of w, where ?'a = nat] by simp

lemma unat_map_inject: "map unat bs = map unat (cs :: byte list) \<Longrightarrow> bs = cs"
  by (rule map_injective [OF _ injI]) (auto intro: unsigned_word_eqI)

lemma zeros_unat: "length (takeWhile (\<lambda>b. b = 0) (bs :: byte list)) = zeros (map unat bs)"
  by (induction bs) (auto simp: unat_eq_0)

lemma decode58_iff:
  "base58_decode s = Some bs \<longleftrightarrow> (\<exists>ds. (\<forall>d\<in>set ds. d < 58) \<and> s = map (\<lambda>d. BASE58_ALPHABET ! d) ds
     \<and> map unat bs = replicate (zeros ds) 0 @ digits 256 (positional 58 ds))" (is "?L = ?R")
proof
  have bytes: "map unat (replicate k 0 @ to_bytes n) = replicate k 0 @ digits 256 n" for k n
    using byte_list [of "digits 256 n"] digits_bounds [of 256 n] by (simp add: to_bytes_def)
  show ?R if left: ?L
  proof -
    obtain ds where ds: "those (map (map_of BASE58_INDEX) s) = Some ds"
      using left by (cases "those (map (map_of BASE58_INDEX) s)") (auto simp: base58_decode_def)
    with left have "bs = replicate (length (takeWhile (\<lambda>c. c = CHR ''1'') s)) 0 @ to_bytes (positional 58 ds)"
      by (simp add: base58_decode_def)
    with ds ones58 bytes show ?thesis by (intro exI [of _ ds]) (simp add: those58)
  qed
  show ?L if right: ?R
  proof -
    obtain ds where ds: "\<forall>d\<in>set ds. d < 58" "s = map (\<lambda>d. BASE58_ALPHABET ! d) ds"
        "map unat bs = replicate (zeros ds) 0 @ digits 256 (positional 58 ds)"
      using right by blast
    have "map unat bs = map unat (replicate (zeros ds) 0 @ to_bytes (positional 58 ds))"
      unfolding ds(3) bytes ..
    then have "bs = replicate (zeros ds) 0 @ to_bytes (positional 58 ds)"
      by (rule unat_map_inject)
    with ds(1,2) show ?thesis using those58 [of s ds] ones58 [OF ds(1)] by (simp add: base58_decode_def)
  qed
qed

lemma encode_decode58:
  assumes "base58_decode s = Some bs"
  shows "base58_encode bs = s"
proof -
  obtain ds where ds: "\<forall>d\<in>set ds. d < 58" "s = map (\<lambda>d. BASE58_ALPHABET ! d) ds"
      "map unat bs = replicate (zeros ds) 0 @ digits 256 (positional 58 ds)"
    using assms decode58_iff by blast
  have "base58_encode bs = map (\<lambda>d. BASE58_ALPHABET ! d) (replicate (zeros ds) 0 @ digits 58 (positional 58 ds))"
    by (simp add: base58_encode_def zeros_unat ds(3) zeros_digits number_zeros number_digits alphabet58(3))
  then show ?thesis using zeros_then_digits [OF _ ds(1)] ds(2) by simp
qed

lemma decode_encode58: "base58_decode (base58_encode bs) = Some bs"
proof -
  let ?ns = "map unat bs" and ?ds = "replicate (zeros (map unat bs)) 0 @ digits 58 (positional 256 (map unat bs))"
  have "replicate (zeros ?ns) 0 @ digits 256 (positional 256 ?ns) = ?ns"
    by (rule zeros_then_digits) (auto simp: byte_bound)
  then have "map unat bs = replicate (zeros ?ds) 0 @ digits 256 (positional 58 ?ds)"
    by (simp add: zeros_digits number_zeros number_digits)
  moreover have "\<forall>d\<in>set ?ds. d < 58" using digits_bounds [of 58 "positional 256 ?ns"] by auto
  moreover have "base58_encode bs = map (\<lambda>d. BASE58_ALPHABET ! d) ?ds"
    by (simp add: base58_encode_def zeros_unat alphabet58(3))
  ultimately show ?thesis using decode58_iff by blast
qed

section \<open>Base 64\<close>

lemma alphabet64: "distinct BASE64_ALPHABET" "length BASE64_ALPHABET = 64"
  by code_simp+

lemma sextet_parts:
  "(a::nat) < 256 \<Longrightarrow> a div 4 < 64" "a mod 4 * 16 < 64" "a mod 64 < 64" "a mod 16 * 4 < 64"
  "b < 256 \<Longrightarrow> a mod 4 * 16 + b div 16 < 64" "b < 256 \<Longrightarrow> a mod 16 * 4 + b div 64 < 64"
proof -
  have m: "a mod 4 < 4" "a mod 16 < 16" by simp_all
  show "a < 256 \<Longrightarrow> a div 4 < 64" "a mod 64 < 64" by simp_all
  show "a mod 4 * 16 < 64" "a mod 16 * 4 < 64" using m by linarith+
  have "b < 256 \<Longrightarrow> b div 16 < 16" "b < 256 \<Longrightarrow> b div 64 < 4" by simp_all
  with m show "b < 256 \<Longrightarrow> a mod 4 * 16 + b div 16 < 64" "b < 256 \<Longrightarrow> a mod 16 * 4 + b div 64 < 64"
    by linarith+
qed

lemma sextet_bound: "\<forall>n\<in>set ns. n < 256 \<Longrightarrow> \<forall>d\<in>set (sextets ns). d < 64"
  by (induction ns rule: sextets.induct) (simp_all add: sextet_parts)

lemma radix_eq:
  assumes "(x::nat) * k + y = x' * k + y'" "y < k" "y' < k"
  shows "x = x' \<and> y = y'"
proof -
  have "(x * k + y) div k = x" "(x' * k + y') div k = x'" using assms(2,3) by simp_all
  with assms(1) show ?thesis by simp
qed

lemma sextets_two:
  assumes "(a::nat) div 4 = a' div 4" "a mod 4 * 16 + b div 16 = a' mod 4 * 16 + b' div 16" "b < 256" "b' < 256"
  shows "a = a' \<and> b div 16 = b' div 16"
proof -
  have "a mod 4 = a' mod 4 \<and> b div 16 = b' div 16"
    by (rule radix_eq [OF assms(2)]) (use assms(3,4) in simp_all)
  with assms(1) show ?thesis by (metis div_mult_mod_eq)
qed

lemma sextets_three:
  assumes "(b::nat) div 16 = b' div 16" "b mod 16 * 4 + c div 64 = b' mod 16 * 4 + c' div 64" "c < 256" "c' < 256"
    "c mod 64 = c' mod 64"
  shows "b = b' \<and> c = c'"
proof -
  have "b mod 16 = b' mod 16 \<and> c div 64 = c' div 64"
    by (rule radix_eq [OF assms(2)]) (use assms(3,4) in simp_all)
  with assms(1,5) show ?thesis by (metis div_mult_mod_eq)
qed

lemma sextets_inject:
  "\<forall>n\<in>set ns. n < 256 \<Longrightarrow> \<forall>n\<in>set ms. n < 256 \<Longrightarrow> sextets ns = sextets ms \<Longrightarrow> ns = ms"
proof (induction ns arbitrary: ms rule: sextets.induct)
  case 1 then show ?case by (cases ms rule: sextets.cases) auto
next
  case (2 a)
  then obtain a' where ms: "ms = [a']" by (cases ms rule: sextets.cases) auto
  have "a div 4 = a' div 4" "a mod 4 * 16 + 0 div 16 = a' mod 4 * 16 + 0 div 16"
    using "2.prems"(3) unfolding ms sextets.simps list.inject by auto
  from sextets_two [OF this] show ?case unfolding ms by auto
next
  case (3 a b)
  then obtain a' b' where ms: "ms = [a', b']" by (cases ms rule: sextets.cases) auto
  have eq: "a div 4 = a' div 4" "a mod 4 * 16 + b div 16 = a' mod 4 * 16 + b' div 16" "b mod 16 * 4 = b' mod 16 * 4"
    using "3.prems"(3) unfolding ms sextets.simps list.inject by blast+
  have bound: "b < 256" "b' < 256" using "3.prems"(1,2) unfolding ms by auto
  have two: "a = a'" "b div 16 = b' div 16" using sextets_two [OF eq(1,2) bound] by blast+
  have "b mod 16 = b' mod 16" using eq(3) by linarith
  with two(2) have "b = b'" by (metis div_mult_mod_eq)
  with two(1) show ?case unfolding ms by blast
next
  case (4 a b c bs)
  then obtain a' b' c' bs' where ms: "ms = a' # b' # c' # bs'" by (cases ms rule: sextets.cases) auto
  have eq: "a div 4 = a' div 4" "a mod 4 * 16 + b div 16 = a' mod 4 * 16 + b' div 16"
      "b mod 16 * 4 + c div 64 = b' mod 16 * 4 + c' div 64" "c mod 64 = c' mod 64" "sextets bs = sextets bs'"
    using "4.prems"(3) unfolding ms sextets.simps list.inject by blast+
  have bound: "b < 256" "b' < 256" "c < 256" "c' < 256" "\<forall>n\<in>set bs. n < 256" "\<forall>n\<in>set bs'. n < 256"
    using "4.prems"(1,2) unfolding ms by auto
  have two: "a = a'" "b div 16 = b' div 16" using sextets_two [OF eq(1,2) bound(1,2)] by blast+
  have three: "b = b'" "c = c'" using sextets_three [OF two(2) eq(3) bound(3,4) eq(4)] by blast+
  show ?case unfolding ms using two(1) three "4.IH" [OF bound(5,6) eq(5)] by blast
qed

lemma b64url_inject:
  assumes "b64url_no_pad bs = b64url_no_pad cs"
  shows "bs = cs"
proof -
  have bound: "\<forall>d\<in>set (sextets (map unat (xs :: byte list))). d < 64" for xs
    by (rule sextet_bound) (simp add: byte_bound)
  have "sextets (map unat bs) = sextets (map unat cs)"
  proof (rule map_inj_on [of "\<lambda>d. BASE64_ALPHABET ! d"])
    show "map (\<lambda>d. BASE64_ALPHABET ! d) (sextets (map unat bs)) = map (\<lambda>d. BASE64_ALPHABET ! d) (sextets (map unat cs))"
      using assms unfolding b64url_no_pad_def .
    have "x = y" if "x < 64" "y < 64" "BASE64_ALPHABET ! x = BASE64_ALPHABET ! y" for x y
      using that nth_eq_iff_index_eq [OF alphabet64(1), of x y] unfolding alphabet64(2) by blast
    then show "inj_on (\<lambda>d. BASE64_ALPHABET ! d) (set (sextets (map unat bs)) \<union> set (sextets (map unat cs)))"
      using bound [of bs] bound [of cs] unfolding inj_on_def by blast
  qed
  moreover have "\<forall>n\<in>set (map unat (xs :: byte list)). n < 256" for xs by (simp add: byte_bound)
  ultimately have "map unat bs = map unat cs" using sextets_inject by blast
  then show ?thesis by (rule unat_map_inject)
qed

section \<open>The key a DID names\<close>

definition key_document :: "string \<Rightarrow> byte list \<Rightarrow> did_document" where
  "key_document sfx key =
     single_key_document (''did:key:'' @ sfx) (''did:key:'' @ sfx @ ''#'' @ sfx) ''Ed25519VerificationKey2020''
       [(''kty'', JStr ''OKP''), (''crv'', JStr ''Ed25519''), (''x'', JStr (b64url_no_pad key))]"

definition key_suffix :: "byte list \<Rightarrow> string" where
  "key_suffix key = CHR ''z'' # base58_encode (MULTICODEC_ED25519 @ key)"

lemma resolve_key_of_suffix:
  assumes "length key = 32"
  shows "resolve_key (key_suffix key) = Inr (key_document (key_suffix key) key)"
  using assms
  by (simp add: resolve_key_def key_suffix_def starts_with_def decode_encode58 MULTICODEC_ED25519_def key_document_def Let_def)

lemma resolve_key_inv:
  assumes "resolve_key s = Inr d"
  obtains key where "length key = 32" "s = key_suffix key" "d = key_document s key"
proof -
  obtain raw where raw: "starts_with s ''z''" "base58_decode (tl s) = Some raw" "take 2 raw = MULTICODEC_ED25519"
      "length (drop 2 raw) = 32"
    using assms by (auto simp: resolve_key_def Let_def split: if_splits option.splits)
  then have s: "s = CHR ''z'' # tl s" by (cases s) (auto simp: starts_with_def)
  have key: "raw = MULTICODEC_ED25519 @ drop 2 raw" using raw(3) by (metis append_take_drop_id)
  with encode_decode58 [OF raw(2)] s have "s = key_suffix (drop 2 raw)" by (metis key_suffix_def)
  moreover from this assms have "d = key_document s (drop 2 raw)" using resolve_key_of_suffix [OF raw(4)] by simp
  ultimately show thesis using that [OF raw(4)] by blast
qed

text \<open>C25. A \<open>did:key\<close> is its key. A suffix resolves exactly when it is the base 58 text of
  an Ed25519 key of 32 bytes, and then to the document whose only key, for authentication
  and assertion, is that one; and two suffixes whose documents have the same key are equal.\<close>

theorem did_key_is_its_key:
  "(resolve_key s = Inr d \<longleftrightarrow> (\<exists>key. length key = 32 \<and> s = key_suffix key \<and> d = key_document s key))
   \<and> (resolve_key s = Inr d \<and> resolve_key s' = Inr d' \<and> map vm_jwk (dd_methods d) = map vm_jwk (dd_methods d') \<longrightarrow> s = s')"
proof (intro conjI impI)
  show "resolve_key s = Inr d \<longleftrightarrow> (\<exists>key. length key = 32 \<and> s = key_suffix key \<and> d = key_document s key)"
    using resolve_key_inv resolve_key_of_suffix by metis
  show "s = s'"
    if "resolve_key s = Inr d \<and> resolve_key s' = Inr d' \<and> map vm_jwk (dd_methods d) = map vm_jwk (dd_methods d')"
  proof -
    from that have r: "resolve_key s = Inr d" "resolve_key s' = Inr d'" by blast+
    obtain k where "s = key_suffix k" "d = key_document s k" using r(1) by (rule resolve_key_inv)
    moreover obtain k' where "s' = key_suffix k'" "d' = key_document s' k'" using r(2) by (rule resolve_key_inv)
    ultimately show ?thesis using that b64url_inject [of k k'] by (simp add: key_document_def single_key_document_def)
  qed
qed

lemma did_key_is_its_key_witness:
  "resolve_key (key_suffix (replicate 32 7)) = Inr (key_document (key_suffix (replicate 32 7)) (replicate 32 7))"
proof -
  let ?k = "replicate 32 7 :: byte list"
  have "length ?k = 32" by simp
  then show ?thesis
    using did_key_is_its_key [of "key_suffix ?k" "key_document (key_suffix ?k) ?k" "key_suffix ?k" "key_document (key_suffix ?k) ?k"]
    by blast
qed

section \<open>The facade\<close>

lemma did_parts_eq: "did_parts uri = Some (m, s) \<Longrightarrow> uri = ''did:'' @ m @ '':'' @ s"
proof -
  assume a: "did_parts uri = Some (m, s)"
  let ?rest = "drop 4 uri"
  from a have p: "starts_with uri ''did:''" "m = takeWhile (\<lambda>c. c \<noteq> CHR '':'') ?rest"
      "dropWhile (\<lambda>c. c \<noteq> CHR '':'') ?rest \<noteq> []" "s = tl (dropWhile (\<lambda>c. c \<noteq> CHR '':'') ?rest)"
    by (auto simp: did_parts_def Let_def split: if_splits)
  have "take 4 uri @ ?rest = uri" by (rule append_take_drop_id)
  moreover have "take 4 uri = ''did:''" using p(1) by (simp add: starts_with_def numeral_eq_Suc)
  ultimately have "uri = ''did:'' @ ?rest" by simp
  moreover have "?rest = m @ '':'' @ s"
    using takeWhile_dropWhile_id [of "\<lambda>c. c \<noteq> CHR '':''" ?rest] p(2-4) hd_dropWhile [OF p(3)]
    by (cases "dropWhile (\<lambda>c. c \<noteq> CHR '':'') ?rest") auto
  ultimately show "uri = ''did:'' @ m @ '':'' @ s" by simp
qed

lemma map_sum_Inr: "map_sum f id x = Inr d \<longleftrightarrow> x = Inr d"
  by (cases x) auto

text \<open>Without methods of the host, the two local methods answer with the document of the
  DID that was asked for, held by itself.\<close>

lemma local_methods_answer_the_name:
  assumes "de_registered e = []" "did_parts uri = Some (m, s)" "m \<in> {''key'', ''jwk''}" "resolve_did e uri = Inr d"
  shows "dd_id d = uri \<and> (\<forall>v\<in>set (dd_methods d). vm_controller v = uri \<and> vm_id v \<in> set (dd_auth d))"
proof -
  have uri: "uri = ''did:'' @ m @ '':'' @ s" by (rule did_parts_eq [OF assms(2)])
  have "(m = ''key'' \<and> resolve_key s = Inr d) \<or> (m = ''jwk'' \<and> resolve_jwk (de_denoted e) s = Inr d)"
    using assms by (auto simp: resolve_did_def did_resolvers_def map_sum_Inr split: if_splits sum.splits option.splits)
  then show ?thesis
  proof
    assume k: "m = ''key'' \<and> resolve_key s = Inr d"
    then obtain key where "d = key_document s key" by (auto elim: resolve_key_inv)
    with k show ?thesis by (simp add: uri key_document_def single_key_document_def)
  next
    assume j: "m = ''jwk'' \<and> resolve_jwk (de_denoted e) s = Inr d"
    then obtain jwk where "d = single_key_document (''did:jwk:'' @ s) ((''did:jwk:'' @ s) @ ''#0'') ''JsonWebKey2020'' jwk"
      by (auto simp: resolve_jwk_def Let_def split: option.splits json.splits if_splits)
    with j show ?thesis by (simp add: uri single_key_document_def)
  qed
qed

end
