(* ===== verification/Credentials.thy ===== *)
theory Credentials
  imports Dids McpProtocol Matchers
begin

text \<open>
  Signed credentials: verifiable credentials (\<open>kya/vc.py\<close>), bearer tokens
  (\<open>kya/auth.py\<close>) and workload identities (\<open>kya/spiffe.py\<close>). The token library is an
  argument, with what its documentation promises as a named predicate; claims are JSON
  objects. Logging, the cache of key sets and the binding of rows are left out.
\<close>

section \<open>The token library\<close>

text \<open>
  One call of \<open>jwt.decode\<close> with verification: key, accepted algorithms, audience, issuer,
  leeway, required claims, and which claims are checked. It fails as expired, as not yet
  valid, for its signature, or otherwise.
\<close>

record decode_call =
  dc_key :: jobj
  dc_algs :: "string list"
  dc_aud :: "string option"
  dc_iss :: "string option"
  dc_leeway :: int
  dc_require :: "string list"
  dc_check_aud :: bool
  dc_check_iss :: bool

datatype jwt_fault = ExpiredSignature | ImmatureSignature | InvalidSignature | InvalidToken

text \<open>Header and claims without verification (\<open>None\<close>: refused), whether a JWK makes a key,
  verified decoding, and the key of a token in the set behind an address.\<close>

record jwt_lib =
  jl_header :: "string \<Rightarrow> json option"
  jl_peek :: "string \<Rightarrow> jobj option"
  jl_key_ok :: "jobj \<Rightarrow> bool"
  jl_decode :: "decode_call \<Rightarrow> string \<Rightarrow> jwt_fault + jobj"
  jl_signing_key :: "string \<Rightarrow> string \<Rightarrow> jobj option"

text \<open>Documented: what verified decoding returns is the payload of the token, signed by the
  key with an accepted algorithm, with the required claims, issuer and audience.\<close>

definition audience_of :: "jobj \<Rightarrow> string \<Rightarrow> bool" where
  "audience_of cl a =
     (case map_of cl ''aud'' of
        Some (JStr b) \<Rightarrow> b = a | Some (JList bs) \<Rightarrow> JStr a \<in> set bs | _ \<Rightarrow> False)"

definition jwt_sound :: "jwt_lib \<Rightarrow> (jobj \<Rightarrow> string \<Rightarrow> string \<Rightarrow> bool) \<Rightarrow> bool" where
  "jwt_sound lib signs \<longleftrightarrow>
     (\<forall>c tok cl. jl_decode lib c tok = Inr cl \<longrightarrow>
        jl_peek lib tok = Some cl \<and> (\<exists>alg\<in>set (dc_algs c). signs (dc_key c) alg tok)
        \<and> (\<forall>k\<in>set (dc_require c). map_of cl k \<noteq> None)
        \<and> (dc_check_aud c \<longrightarrow> (case dc_aud c of None \<Rightarrow> True | Some a \<Rightarrow> audience_of cl a))
        \<and> (dc_check_iss c \<longrightarrow> (case dc_iss c of None \<Rightarrow> True | Some i \<Rightarrow> map_of cl ''iss'' = Some (JStr i))))"

definition claim :: "jobj \<Rightarrow> string \<Rightarrow> json" where
  "claim cl k = (case map_of cl k of Some v \<Rightarrow> v | None \<Rightarrow> JNull)"

text \<open>A token is three parts; the split at dots counts them.\<close>

definition jwt_shaped :: "string \<Rightarrow> bool" where
  "jwt_shaped tok = (length (filter (\<lambda>c. c = CHR ''.'') tok) = 2)"

section \<open>Verifiable credentials\<close>

datatype vc_error = VCSignatureInvalid | VCExpired | VCNotYetValid | VCIssuerNotTrusted | VCMalformed

record verified_credential =
  vc_issuer :: string
  vc_subject :: "string option"
  vc_claims :: jobj
  vc_issuer_doc :: did_document

definition pick_verification_method :: "did_document \<Rightarrow> string option \<Rightarrow> vc_error + verification_method" where
  "pick_verification_method d kid =
     (if dd_methods d = [] then Inl VCSignatureInvalid
      else (case kid of
          Some k \<Rightarrow>
            (case find_key d (Some k) of
               None \<Rightarrow> Inl VCSignatureInvalid
             | Some vm \<Rightarrow>
                 if dd_assert d \<noteq> [] \<and> vm_id vm \<notin> set (dd_assert d) then Inl VCSignatureInvalid else Inr vm)
        | None \<Rightarrow> if 1 < length (dd_methods d) then Inl VCSignatureInvalid else Inr (hd (dd_methods d))))"

definition ALLOWED_FOR_KTY :: "((json \<times> json) \<times> string) list" where
  "ALLOWED_FOR_KTY =
     [((JStr ''OKP'', JStr ''Ed25519''), ''EdDSA''), ((JStr ''EC'', JStr ''secp256k1''), ''ES256K''),
      ((JStr ''EC'', JStr ''P-256''), ''ES256''), ((JStr ''EC'', JStr ''P-384''), ''ES384''),
      ((JStr ''EC'', JStr ''P-521''), ''ES512'')]"

definition RSA_ALLOWED :: "string list" where
  "RSA_ALLOWED = [''RS256'', ''RS384'', ''RS512'', ''PS256'', ''PS384'', ''PS512'']"

definition algorithms_for_jwk :: "jobj \<Rightarrow> vc_error + string list" where
  "algorithms_for_jwk jwk =
     (let kty = claim jwk ''kty''; allowed = map_of ALLOWED_FOR_KTY (kty, claim jwk ''crv'')
      in (case claim jwk ''alg'' of
            JNull \<Rightarrow>
              (case allowed of
                 Some a \<Rightarrow> Inr [a]
               | None \<Rightarrow> if kty = JStr ''RSA'' then Inr [''RS256''] else Inl VCSignatureInvalid)
          | JStr a \<Rightarrow>
              if kty = JStr ''RSA'' then (if a \<in> set RSA_ALLOWED then Inr [a] else Inl VCSignatureInvalid)
              else if allowed = Some a then Inr [a] else Inl VCSignatureInvalid
          | _ \<Rightarrow> Inl VCSignatureInvalid))"

definition vc_call :: "jobj \<Rightarrow> string list \<Rightarrow> string option \<Rightarrow> int \<Rightarrow> decode_call" where
  "vc_call jwk algs aud leeway =
     \<lparr> dc_key = jwk, dc_algs = algs, dc_aud = aud, dc_iss = None, dc_leeway = leeway, dc_require = [''exp'', ''iss''],
       dc_check_aud = (aud \<noteq> None), dc_check_iss = False \<rparr>"

text \<open>The key id of a header: absent when it is not an object or the id is missing or blank.\<close>

definition header_kid :: "json \<Rightarrow> vc_error + string option" where
  "header_kid h =
     (case h of
        JObj kvs \<Rightarrow>
          (case claim kvs ''kid'' of
             JNull \<Rightarrow> Inr None | JStr k \<Rightarrow> Inr (if k = [] then None else Some k) | _ \<Rightarrow> Inl VCMalformed)
      | _ \<Rightarrow> Inr None)"

definition verified_of :: "string \<Rightarrow> did_document \<Rightarrow> jobj \<Rightarrow> verified_credential" where
  "verified_of issuer d cl =
     \<lparr> vc_issuer = issuer, vc_subject = (case claim cl ''sub'' of JStr s \<Rightarrow> Some s | _ \<Rightarrow> None),
       vc_claims = cl, vc_issuer_doc = d \<rparr>"

text \<open>The key that signed, taken from the issuer's document; \<open>None\<close>: the JWK makes no key and
  the library's exception passes through.\<close>

definition verify_with_document ::
    "jwt_lib \<Rightarrow> string option \<Rightarrow> int \<Rightarrow> string \<Rightarrow> string \<Rightarrow> did_document \<Rightarrow> vc_error option + verified_credential" where
  "verify_with_document lib aud leeway tok issuer d =
     (case jl_header lib tok of
        None \<Rightarrow> Inl (Some VCMalformed)
      | Some h \<Rightarrow>
          (case header_kid h of
             Inl e \<Rightarrow> Inl (Some e)
           | Inr kid \<Rightarrow>
               (case pick_verification_method d kid of
                  Inl e \<Rightarrow> Inl (Some e)
                | Inr vm \<Rightarrow>
                    (case algorithms_for_jwk (vm_jwk vm) of
                       Inl e \<Rightarrow> Inl (Some e)
                     | Inr algs \<Rightarrow>
                         if \<not> jl_key_ok lib (vm_jwk vm) then Inl None
                         else (case jl_decode lib (vc_call (vm_jwk vm) algs aud leeway) tok of
                             Inl ExpiredSignature \<Rightarrow> Inl (Some VCExpired)
                           | Inl ImmatureSignature \<Rightarrow> Inl (Some VCNotYetValid)
                           | Inl _ \<Rightarrow> Inl (Some VCSignatureInvalid)
                           | Inr cl \<Rightarrow> Inr (verified_of issuer d cl))))))"

definition verify_vc ::
    "did_env \<Rightarrow> jwt_lib \<Rightarrow> string option \<Rightarrow> string list option \<Rightarrow> int \<Rightarrow> string \<Rightarrow>
     vc_error option + verified_credential" where
  "verify_vc de lib aud trusted leeway tok =
     (if tok = [] \<or> \<not> jwt_shaped tok then Inl (Some VCMalformed)
      else (case jl_peek lib tok of
          None \<Rightarrow> Inl (Some VCMalformed)
        | Some cl \<Rightarrow>
            (case claim cl ''iss'' of
               JStr issuer \<Rightarrow>
                 (let trust = (case trusted of Some ts \<Rightarrow> ts | None \<Rightarrow> trusted_issuers de)
                  in if \<not> starts_with issuer ''did:'' then Inl (Some VCMalformed)
                     else if trust \<noteq> [] \<and> issuer \<notin> set trust then Inl (Some VCIssuerNotTrusted)
                     else (case resolve_did de issuer of
                         Inl e \<Rightarrow> Inl (Some VCSignatureInvalid)
                       | Inr d \<Rightarrow> verify_with_document lib aud leeway tok issuer d))
             | _ \<Rightarrow> Inl (Some VCMalformed))))"

section \<open>Bearer tokens\<close>

definition DEFAULT_ALGS :: "string list" where
  "DEFAULT_ALGS = [''RS256'', ''ES256'', ''RS384'', ''ES384'', ''RS512'', ''ES512'']"

record jwt_settings =
  js_jwks :: "string option"
  js_audience :: "string option"
  js_issuer :: "string option"
  js_leeway :: "string option"
  js_algs :: "string option"

definition safe_algorithms :: "string list \<Rightarrow> string list" where
  "safe_algorithms algs = filter (\<lambda>a. lower a \<noteq> ''none'' \<and> \<not> starts_with (upper a) ''HS'') algs"

definition env_algorithms :: "jwt_settings \<Rightarrow> string list" where
  "env_algorithms s =
     (case js_algs s of
        Some v \<Rightarrow> if v = [] then DEFAULT_ALGS else filter (\<lambda>a. a \<noteq> []) (map strip (split_on (CHR '','') v))
      | None \<Rightarrow> DEFAULT_ALGS)"

definition env_leeway :: "jwt_settings \<Rightarrow> int" where
  "env_leeway s = (case js_leeway s of None \<Rightarrow> 30 | Some v \<Rightarrow> (case py_int v of Some n \<Rightarrow> n | None \<Rightarrow> 30))"

definition jwt_call :: "jobj \<Rightarrow> string list \<Rightarrow> string option \<Rightarrow> string option \<Rightarrow> int \<Rightarrow> decode_call" where
  "jwt_call key algs aud iss leeway =
     \<lparr> dc_key = key, dc_algs = algs, dc_aud = aud, dc_iss = iss, dc_leeway = leeway,
       dc_require = ''exp'' # (if aud \<noteq> None then [''aud''] else []) @ (if iss \<noteq> None then [''iss''] else []),
       dc_check_aud = (aud \<noteq> None), dc_check_iss = (iss \<noteq> None) \<rparr>"

definition nonblank :: "string option \<Rightarrow> string option" where
  "nonblank s = (if truthy s then s else None)"

text \<open>Every failure of the token is \<open>None\<close>; a missing address of the key set raises.\<close>

definition verify_jwt ::
    "jwt_lib \<Rightarrow> jwt_settings \<Rightarrow> string option \<Rightarrow> string option \<Rightarrow> string option \<Rightarrow> int option \<Rightarrow> string list option \<Rightarrow>
     string \<Rightarrow> string + jobj option" where
  "verify_jwt lib s jwks aud iss leeway algs tok =
     (if tok = [] then Inr None
      else (case option_or (nonblank jwks) (nonblank (js_jwks s)) of
          None \<Rightarrow> Inl ''ValueError''
        | Some url \<Rightarrow>
            (let a = option_or (nonblank aud) (nonblank (js_audience s));
                 i = option_or (nonblank iss) (nonblank (js_issuer s));
                 safe = safe_algorithms (case algs of Some xs \<Rightarrow> xs | None \<Rightarrow> env_algorithms s)
             in if safe = [] then Inr None
                else (case jl_signing_key lib url tok of
                    None \<Rightarrow> Inr None
                  | Some key \<Rightarrow>
                      (case jl_decode lib (jwt_call key safe a i (case leeway of Some n \<Rightarrow> n | None \<Rightarrow> env_leeway s)) tok of
                         Inl e \<Rightarrow> Inr None | Inr cl \<Rightarrow> Inr (Some cl))))))"

definition infer_idp_kind :: "string option \<Rightarrow> string" where
  "infer_idp_kind iss =
     (if \<not> truthy iss then ''custom''
      else (let s = lower (the iss); has = (\<lambda>p. sublist p s)
            in if has ''okta.com'' \<or> has ''.okta-emea.com'' then ''okta''
               else if has ''auth0.com'' \<or> has ''auth0.net'' then ''auth0''
               else if has ''/auth/realms/'' \<or> has ''keycloak'' then ''keycloak''
               else if has ''accounts.google.com'' \<or> has ''googleapis.com'' then ''google''
               else if has ''login.microsoftonline.com'' \<or> has ''login.windows.net'' \<or> has ''/sts.windows.net'' then ''microsoft''
               else if has ''cognito-idp'' \<or> has ''amazoncognito.com'' then ''aws_cognito''
               else if starts_with s ''spiffe://'' then ''spiffe''
               else ''custom''))"

section \<open>Workload identities\<close>

definition MAX_SPIFFE_ID_LEN :: nat where "MAX_SPIFFE_ID_LEN = 2048"
definition MAX_TRUST_DOMAIN_LEN :: nat where "MAX_TRUST_DOMAIN_LEN = 255"

definition domain_char :: "char \<Rightarrow> bool" where
  "domain_char c = (is_lower c \<or> is_digit c \<or> c \<in> {CHR ''.'', CHR ''-''})"

definition segment_char :: "char \<Rightarrow> bool" where
  "segment_char c = (is_lower c \<or> is_upper c \<or> is_digit c \<or> c \<in> {CHR ''.'', CHR ''_'', CHR ''-''})"

definition path_ok :: "string \<Rightarrow> bool" where
  "path_ok p = (p = [] \<or> (hd p = CHR ''/''
     \<and> list_all (\<lambda>seg. seg \<noteq> [] \<and> seg \<notin> {''.'', ''..''} \<and> list_all segment_char seg) (split_on (CHR ''/'') (tl p))))"

text \<open>
  The split of the library first removes tabs and line ends anywhere in the text. On text
  whose authority and path have only the characters allowed below, it
  ends the authority at the first slash, and a query or fragment mark would stand in
  the path or authority and be refused; a mark with nothing behind it is dropped by the split.
\<close>

definition drop_empty_mark :: "string \<Rightarrow> string" where
  "drop_empty_mark s =
     (let t = (if s \<noteq> [] \<and> last s = CHR ''#'' then butlast s else s)
      in if t \<noteq> [] \<and> last t = CHR ''?'' then butlast t else t)"

definition parse_spiffe_id :: "string \<Rightarrow> (string \<times> string) option" where
  "parse_spiffe_id uri =
     (if uri = [] \<or> MAX_SPIFFE_ID_LEN < length uri \<or> \<not> starts_with uri ''spiffe://'' then None
      else (let rest = drop_empty_mark (filter (\<lambda>c. code_of c \<notin> {9, 10, 13}) (drop 9 uri));
                td = takeWhile (\<lambda>c. c \<noteq> CHR ''/'') rest; p = dropWhile (\<lambda>c. c \<noteq> CHR ''/'') rest
            in if td = [] \<or> MAX_TRUST_DOMAIN_LEN < length td \<or> \<not> list_all domain_char td \<or> \<not> path_ok p then None
               else Some (td, p)))"

record spiffe_settings =
  sp_jwks :: "string option"
  sp_audience :: "string option"
  sp_domains :: "string option"

definition allowed_domains :: "spiffe_settings \<Rightarrow> string list option \<Rightarrow> string list option" where
  "allowed_domains s explicit =
     (case explicit of
        Some ds \<Rightarrow> Some (filter (\<lambda>d. d \<noteq> []) (map strip ds))
      | None \<Rightarrow>
          (let v = strip (or_else (sp_domains s) [])
           in if v = [] then None else Some (filter (\<lambda>d. d \<noteq> []) (map strip (split_on (CHR '','') v)))))"

definition is_allowed_trust_domain :: "spiffe_settings \<Rightarrow> string list option \<Rightarrow> string \<Rightarrow> bool" where
  "is_allowed_trust_domain s explicit td =
     (case allowed_domains s explicit of None \<Rightarrow> True | Some ds \<Rightarrow> td \<in> set ds)"

text \<open>The answer wraps the claims under a key of their own.\<close>

definition svid_answer :: "string \<Rightarrow> string \<Rightarrow> string \<Rightarrow> jobj \<Rightarrow> jobj" where
  "svid_answer sub td p cl =
     [(''spiffe_id'', JStr sub), (''trust_domain'', JStr td), (''path'', JStr p), (''claims'', JObj cl),
      (''idp_issuer'', JStr (''spiffe://'' @ td))]"

definition checked_svid :: "spiffe_settings \<Rightarrow> string list option \<Rightarrow> jobj \<Rightarrow> jobj option" where
  "checked_svid s domains cl =
     (case claim cl ''sub'' of
        JStr sub \<Rightarrow>
          (case parse_spiffe_id sub of
             None \<Rightarrow> None
           | Some (td, p) \<Rightarrow>
               if \<not> json_falsy (claim cl ''iss'')
                 \<and> (case claim cl ''iss'' of
                      JStr i \<Rightarrow> (case parse_spiffe_id i of Some (itd, ip) \<Rightarrow> itd \<noteq> td | None \<Rightarrow> True) | _ \<Rightarrow> True)
               then None
               else if \<not> is_allowed_trust_domain s domains td then None
               else Some (svid_answer sub td p cl))
      | _ \<Rightarrow> None)"

definition verify_jwt_svid ::
    "jwt_lib \<Rightarrow> jwt_settings \<Rightarrow> spiffe_settings \<Rightarrow> string option \<Rightarrow> string option \<Rightarrow> string list option \<Rightarrow> string \<Rightarrow>
     jobj option" where
  "verify_jwt_svid lib js s jwks aud domains svid =
     (let url = (case jwks of Some u \<Rightarrow> Some u | None \<Rightarrow> option_or (nonblank (sp_jwks s)) (js_jwks js));
          a = (case aud of Some x \<Rightarrow> Some x | None \<Rightarrow> option_or (nonblank (sp_audience s)) (js_audience js))
      in if svid = [] \<or> \<not> truthy url then None
         else (case verify_jwt lib js url a None None None svid of
             Inr (Some cl) \<Rightarrow> checked_svid s domains cl
           | _ \<Rightarrow> None))"

end
