(* ===== verification/Identity.thy ===== *)
theory Identity
  imports Credentials Endpoints
begin

text \<open>
  Who is calling (\<open>kya_gateway/identity.py\<close>): the identity resolver of the gateway over the
  credentials of \<open>Credentials\<close>, the proof of possession of a DID and the revocation check. The
  claims a principal carries along, which no handler reads, are left out; message texts are
  an argument.
\<close>

section \<open>Configuration and environment\<close>

record jwt_config =
  jc_jwks :: "string option"
  jc_issuer :: "string option"
  jc_trusted :: "string list"

record did_config =
  dg_trusted :: "string list"
  dg_header_trust :: bool
  dg_audience :: "string option"
  dg_leeway :: int
  dg_revocation :: bool
  dg_require_dpop :: bool
  dg_dpop_audience :: "string option"
  dg_dpop_leeway :: int

record identity_config =
  ic_methods :: "string list"
  ic_jwt :: "jwt_config option"
  ic_did :: "did_config option"

datatype bind_error =
    NoBearer | EmptyBearer | BearerRejected | NoSubject
  | NoDid | DidUnresolved | PopMissing | PopHeader | PopKid | PopUnknownKey | PopNoAuthentication
  | PopNotAuthenticating | PopNoAudience | PopRejected | PopWrongIssuer | PopTooLong
  | VcRejected | Revoked "string option" "string option"
  | NoSvid | SvidRejected | SvidNotSpiffe | NoMethod

text \<open>A revocation check passes, raises the registered class of errors, or another exception.\<close>

datatype revocation = NotRevoked | IsRevoked | CheckCrashed

text \<open>The registered hooks: a factory of checkers, a checker, and whether the class of
  revocation errors is registered.\<close>

record revocation_hooks =
  rh_factory :: "(verified_credential \<Rightarrow> revocation) option"
  rh_prebuilt :: "(verified_credential \<Rightarrow> revocation) option"
  rh_error :: bool

record identity_env =
  ii_config :: identity_config
  ii_lib :: jwt_lib
  ii_jwt :: jwt_settings
  ii_spiffe :: spiffe_settings
  ii_did :: did_env
  ii_hooks :: revocation_hooks
  ii_lang :: lang
  ii_now :: int
  ii_text :: "bind_error \<Rightarrow> string"

text \<open>A principal, a refusal, or an exception that is no identity failure.\<close>

datatype resolution = BoundTo bound_principal | Refused bind_error | Crashed

section \<open>Claims about the principal\<close>

definition attr_text :: "lang \<Rightarrow> json \<Rightarrow> string option" where
  "attr_text l v = (if v = JNull \<or> v = JStr [] then None else Some (py_str l v))"

definition extract_vc_principal_attr :: "lang \<Rightarrow> jobj \<Rightarrow> string \<Rightarrow> string option" where
  "extract_vc_principal_attr l cl k =
     (let nested = (case claim cl ''vc'' of
            JObj vc \<Rightarrow> (case claim vc ''credentialSubject'' of JObj cs \<Rightarrow> attr_text l (claim cs k) | _ \<Rightarrow> None)
          | _ \<Rightarrow> None)
      in option_or nested (attr_text l (claim cl k)))"

definition text_or :: "lang \<Rightarrow> json \<Rightarrow> string \<Rightarrow> string" where
  "text_or l v d = (if json_falsy v then d else py_str l v)"

section \<open>Bearer tokens\<close>

definition header :: "(string \<times> string) list \<Rightarrow> string \<Rightarrow> string" where
  "header h k = or_else (map_of h k) []"

definition issuer_text :: "lang \<Rightarrow> json \<Rightarrow> string option" where
  "issuer_text l v = (if v = JNull then None else Some (py_str l v))"

definition try_jwt :: "identity_env \<Rightarrow> (string \<times> string) list \<Rightarrow> resolution" where
  "try_jwt e h =
     (let auth = header h ''authorization''; cfg = ic_jwt (ii_config e); l = ii_lang e
      in if \<not> starts_with (lower auth) ''bearer '' then Refused NoBearer
         else (let tok = strip (drop 7 auth)
           in if tok = [] then Refused EmptyBearer
              else (case verify_jwt (ii_lib e) (ii_jwt e) (Option.bind cfg jc_jwks) None (Option.bind cfg jc_issuer) None None tok of
                  Inl x \<Rightarrow> Refused BearerRejected
                | Inr None \<Rightarrow> Refused BearerRejected
                | Inr (Some cl) \<Rightarrow>
                    (let sub = text_or l (claim cl ''sub'') []; iss = claim cl ''iss'';
                         trusted = (case cfg of Some c \<Rightarrow> jc_trusted c | None \<Rightarrow> []);
                         honoured = (case iss of JStr i \<Rightarrow> i \<in> set trusted | _ \<Rightarrow> False)
                     in if sub = [] then Refused NoSubject
                        else (case iss of JList xs \<Rightarrow> Crashed | JObj kvs \<Rightarrow> Crashed | _ \<Rightarrow>
                          BoundTo
                            \<lparr> bp_kind = (if honoured then text_or l (claim cl ''principal_kind'') ''agent'' else ''agent''),
                              bp_id = (if honoured then text_or l (claim cl ''principal_id'') sub else sub),
                              bp_method = ''bearer_jwt'', bp_subject = Some sub, bp_issuer = issuer_text l iss \<rparr>)))))"

section \<open>DIDs\<close>

definition pop_call :: "jobj \<Rightarrow> string list \<Rightarrow> string \<Rightarrow> int \<Rightarrow> decode_call" where
  "pop_call jwk algs aud leeway =
     \<lparr> dc_key = jwk, dc_algs = algs, dc_aud = Some aud, dc_iss = None, dc_leeway = leeway,
       dc_require = [''iss'', ''exp'', ''iat''], dc_check_aud = True, dc_check_iss = False \<rparr>"

definition MAX_POP_SECONDS :: int where "MAX_POP_SECONDS = 600"

text \<open>The key that a token names, which must be one of the DID for authentication; the first
  three failures of either proof.\<close>

definition named_key :: "jwt_lib \<Rightarrow> string \<Rightarrow> string option" where
  "named_key lib tok =
     (case jl_header lib tok of
        Some (JObj kvs) \<Rightarrow> (case claim kvs ''kid'' of JStr k \<Rightarrow> if k = [] then None else Some k | _ \<Rightarrow> None)
      | _ \<Rightarrow> None)"

definition within_lifetime :: "int \<Rightarrow> int \<Rightarrow> jobj \<Rightarrow> bool" where
  "within_lifetime now leeway cl =
     (case claim cl ''exp'' of JInt x \<Rightarrow> x - now \<le> MAX_POP_SECONDS + leeway | _ \<Rightarrow> True)"

text \<open>\<open>None\<close>: the proof is accepted; \<open>Some None\<close>: an exception that is no identity failure.\<close>

definition verify_did_pop :: "identity_env \<Rightarrow> string \<Rightarrow> string \<Rightarrow> did_document \<Rightarrow> bind_error option option" where
  "verify_did_pop e tok did d =
     (let lib = ii_lib e; cfg = ic_did (ii_config e); leeway = (case cfg of Some c \<Rightarrow> dg_leeway c | None \<Rightarrow> 30)
      in if jl_header lib tok = None then Some (Some PopHeader)
         else (case named_key lib tok of
             None \<Rightarrow> Some (Some PopKid)
           | Some kid \<Rightarrow>
               (case find_key d (Some kid) of
                  None \<Rightarrow> Some (Some PopUnknownKey)
                | Some vm \<Rightarrow>
                    if dd_auth d = [] then Some (Some PopNoAuthentication)
                    else if vm_id vm \<notin> set (dd_auth d) then Some (Some PopNotAuthenticating)
                    else (case algorithms_for_jwk (vm_jwk vm) of
                        Inl x \<Rightarrow> Some None
                      | Inr algs \<Rightarrow>
                          (case nonblank (Option.bind cfg dg_audience) of
                             None \<Rightarrow> Some (Some PopNoAudience)
                           | Some aud \<Rightarrow>
                               if \<not> jl_key_ok lib (vm_jwk vm) then Some None
                               else (case jl_decode lib (pop_call (vm_jwk vm) algs aud leeway) tok of
                                   Inl x \<Rightarrow> Some (Some PopRejected)
                                 | Inr cl \<Rightarrow>
                                     if claim cl ''iss'' \<noteq> JStr did then Some (Some PopWrongIssuer)
                                     else if \<not> within_lifetime (ii_now e) leeway cl then Some (Some PopTooLong)
                                     else None))))))"

text \<open>The effective checker of the hooks, with whether its error class is known; without the
  class its own errors are not caught either.\<close>

definition revocation_outcome :: "revocation_hooks \<Rightarrow> verified_credential \<Rightarrow> revocation" where
  "revocation_outcome h vc =
     (case (rh_factory h, rh_prebuilt h) of
        (Some f, _) \<Rightarrow> (case f vc of NotRevoked \<Rightarrow> NotRevoked | IsRevoked \<Rightarrow> if rh_error h then IsRevoked else CheckCrashed
                        | CheckCrashed \<Rightarrow> CheckCrashed)
      | (None, Some f) \<Rightarrow> if rh_error h then f vc else NotRevoked
      | (None, None) \<Rightarrow> NotRevoked)"

definition check_revocation :: "identity_env \<Rightarrow> verified_credential \<Rightarrow> resolution option" where
  "check_revocation e vc =
     (case revocation_outcome (ii_hooks e) vc of
        NotRevoked \<Rightarrow> None
      | CheckCrashed \<Rightarrow> Some Crashed
      | IsRevoked \<Rightarrow>
          Some (Refused (Revoked (extract_vc_principal_attr (ii_lang e) (vc_claims vc) ''principal_kind'')
            (option_or (extract_vc_principal_attr (ii_lang e) (vc_claims vc) ''principal_id'') (vc_subject vc)))))"

text \<open>The principal of a DID with or without a verified credential.\<close>

definition did_principal :: "identity_env \<Rightarrow> string \<Rightarrow> verified_credential option \<Rightarrow> bound_principal" where
  "did_principal e did vc =
     (let trusted = (case ic_did (ii_config e) of Some c \<Rightarrow> dg_trusted c | None \<Rightarrow> [])
      in (case vc of
            Some v \<Rightarrow>
              if vc_claims v \<noteq> [] \<and> vc_issuer v \<noteq> [] \<and> vc_issuer v \<in> set trusted then
                \<lparr> bp_kind = (case extract_vc_principal_attr (ii_lang e) (vc_claims v) ''principal_kind'' of Some k \<Rightarrow> k | None \<Rightarrow> ''agent''),
                  bp_id = (case extract_vc_principal_attr (ii_lang e) (vc_claims v) ''principal_id'' of Some i \<Rightarrow> i | None \<Rightarrow> did),
                  bp_method = ''did'', bp_subject = Some did, bp_issuer = Some (vc_issuer v) \<rparr>
              else \<lparr> bp_kind = ''agent'', bp_id = did, bp_method = ''did'', bp_subject = Some did,
                     bp_issuer = Some (if vc_issuer v = [] then did else vc_issuer v) \<rparr>
          | None \<Rightarrow> \<lparr> bp_kind = ''agent'', bp_id = did, bp_method = ''did'', bp_subject = Some did, bp_issuer = Some did \<rparr>))"

definition with_credential :: "identity_env \<Rightarrow> (string \<times> string) list \<Rightarrow> string \<Rightarrow> resolution" where
  "with_credential e h did =
     (if header h ''x-kya-vc'' = [] then BoundTo (did_principal e did None)
      else (case verify_vc (ii_did e) (ii_lib e) None None 30 (header h ''x-kya-vc'') of
          Inl x \<Rightarrow> Refused VcRejected
        | Inr vc \<Rightarrow>
            (case (if (case ic_did (ii_config e) of Some c \<Rightarrow> dg_revocation c | None \<Rightarrow> False) then check_revocation e vc else None) of
               Some b \<Rightarrow> b
             | None \<Rightarrow> BoundTo (did_principal e did (Some vc)))))"

definition try_did :: "identity_env \<Rightarrow> (string \<times> string) list \<Rightarrow> resolution" where
  "try_did e h =
     (let did = header h ''x-kya-did''; pop = header h ''x-kya-did-proof''
      in if did = [] then Refused NoDid
         else (case resolve_did (ii_did e) did of
             Inl x \<Rightarrow> Refused DidUnresolved
           | Inr d \<Rightarrow>
               if (case ic_did (ii_config e) of Some c \<Rightarrow> dg_header_trust c | None \<Rightarrow> False) then with_credential e h did
               else if pop = [] then Refused PopMissing
               else (case verify_did_pop e pop did d of
                   None \<Rightarrow> with_credential e h did
                 | Some None \<Rightarrow> Crashed
                 | Some (Some x) \<Rightarrow> Refused x)))"

section \<open>Workloads\<close>

definition try_spiffe :: "identity_env \<Rightarrow> (string \<times> string) list \<Rightarrow> resolution" where
  "try_spiffe e h =
     (let svid = header h ''x-svid-jwt''
      in if svid = [] then Refused NoSvid
         else (case verify_jwt_svid (ii_lib e) (ii_jwt e) (ii_spiffe e) None None None svid of
             None \<Rightarrow> Refused SvidRejected
           | Some cl \<Rightarrow>
               (let sub = text_or (ii_lang e) (claim cl ''sub'') []
                in if \<not> starts_with sub ''spiffe://'' then Refused SvidNotSpiffe
                   else BoundTo \<lparr> bp_kind = ''service_account'', bp_id = sub, bp_method = ''spiffe'', bp_subject = Some sub,
                          bp_issuer = issuer_text (ii_lang e) (claim cl ''iss'') \<rparr>)))"

section \<open>The resolver\<close>

definition absent :: "bind_error \<Rightarrow> bool" where
  "absent x = (x \<in> {NoBearer, NoDid, NoSvid})"

definition try_method :: "identity_env \<Rightarrow> (string \<times> string) list \<Rightarrow> string \<Rightarrow> resolution option" where
  "try_method e h m =
     (if lower m = ''bearer_jwt'' then Some (try_jwt e h)
      else if lower m = ''did'' then Some (try_did e h)
      else if lower m = ''spiffe'' then Some (try_spiffe e h)
      else None)"

fun resolve_methods :: "identity_env \<Rightarrow> (string \<times> string) list \<Rightarrow> string list \<Rightarrow> bind_error \<Rightarrow> resolution" where
  "resolve_methods e h [] missing = Refused missing"
| "resolve_methods e h (m # ms) missing =
     (case try_method e h m of
        None \<Rightarrow> resolve_methods e h ms missing
      | Some (Refused x) \<Rightarrow> if absent x then resolve_methods e h ms x else Refused x
      | Some b \<Rightarrow> b)"

definition lower_keys :: "headers \<Rightarrow> (string \<times> string) list" where
  "lower_keys hs = rev (map (map_prod lower id) hs)"

definition resolve_identity :: "identity_env \<Rightarrow> headers \<Rightarrow> resolution" where
  "resolve_identity e hs = resolve_methods e (lower_keys hs) (ic_methods (ii_config e)) NoMethod"

text \<open>What the handlers read of a refusal; every one is answered as an unknown caller.\<close>

definition failure_of :: "identity_env \<Rightarrow> bind_error \<Rightarrow> identity_failure" where
  "failure_of e x =
     \<lparr> xf_class = (if x = NoMethod \<or> absent x then ''IdentityBindingFailed''
         else (case x of Revoked k i \<Rightarrow> ''RevocationBlocked'' | _ \<Rightarrow> ''IdentityCredentialInvalid'')),
       xf_bases = (if x = NoMethod \<or> absent x then [''GatewayError'']
         else (case x of Revoked k i \<Rightarrow> [''IdentityCredentialInvalid'', ''IdentityBindingFailed'', ''GatewayError'']
                | _ \<Rightarrow> [''IdentityBindingFailed'', ''GatewayError''])),
       xf_dpop = None, xf_jsonrpc = - 32002, xf_status = 401, xf_text = ii_text e x,
       xf_kind = (case x of Revoked k i \<Rightarrow> k | _ \<Rightarrow> None), xf_id = (case x of Revoked k i \<Rightarrow> i | _ \<Rightarrow> None) \<rparr>"

definition identity_of :: "identity_env \<Rightarrow> resolution \<Rightarrow> identity option" where
  "identity_of e b =
     (case b of BoundTo p \<Rightarrow> Some (Bound p) | Refused x \<Rightarrow> Some (Unbound (failure_of e x)) | Crashed \<Rightarrow> None)"

end
