(* ===== verification/IdentityFacts.thy ===== *)
theory IdentityFacts
  imports Identity
begin

text \<open>
  What the identity resolver guarantees: which method decides, what a principal bound to a DID
  has proved, and whose word makes it more than an agent.
\<close>

section \<open>One method decides\<close>

lemma resolve_methods_bound:
  assumes "resolve_methods e h ms x = BoundTo p"
  obtains ms1 m ms2 where "ms = ms1 @ m # ms2" "try_method e h m = Some (BoundTo p)"
    "\<forall>m'\<in>set ms1. try_method e h m' = None \<or> (\<exists>a. try_method e h m' = Some (Refused a) \<and> absent a)"
  using assms
proof (induction e h ms x arbitrary: thesis rule: resolve_methods.induct)
  case (1 e h missing)
  then show ?case by simp
next
  case (2 e h m ms missing)
  let ?quiet = "\<lambda>m'. try_method e h m' = None \<or> (\<exists>a. try_method e h m' = Some (Refused a) \<and> absent a)"
  have rest: thesis if "?quiet m" "resolve_methods e h ms y = BoundTo p"
    "\<And>t. (\<And>ms1 m ms2. ms = ms1 @ m # ms2 \<Longrightarrow> try_method e h m = Some (BoundTo p) \<Longrightarrow> \<forall>m'\<in>set ms1. ?quiet m' \<Longrightarrow> t) \<Longrightarrow>
      resolve_methods e h ms y = BoundTo p \<Longrightarrow> t" for y
  proof (rule that(3) [OF _ that(2)])
    fix ms1 m2 ms2
    assume "ms = ms1 @ m2 # ms2" "try_method e h m2 = Some (BoundTo p)" "\<forall>m'\<in>set ms1. ?quiet m'"
    with that(1) show thesis by (intro 2(3) [of "m # ms1" m2 ms2]) auto
  qed
  show ?case
  proof (cases "try_method e h m")
    case None
    with 2(4) have "resolve_methods e h ms missing = BoundTo p" by simp
    with None show ?thesis by (intro rest [of missing]) (auto intro: 2(1))
  next
    case (Some b)
    show ?thesis
    proof (cases b)
      case (BoundTo q)
      with Some 2(4) have "q = p" by simp
      with BoundTo Some show ?thesis by (intro 2(3) [of "[]" m ms]) auto
    next
      case (Refused a)
      with Some 2(4) have a: "absent a" and r: "resolve_methods e h ms a = BoundTo p" by (auto split: if_splits)
      from Some Refused a r show ?thesis by (intro rest [of a]) (auto intro: 2(2))
    next
      case Crashed
      with Some 2(4) show ?thesis by simp
    qed
  qed
qed

definition credential_header :: "string \<Rightarrow> string" where
  "credential_header m = (if lower m = ''bearer_jwt'' then ''authorization'' else if lower m = ''did'' then ''x-kya-did'' else ''x-svid-jwt'')"

text \<open>The header of a method that counts as absent is absent, or, for bearer tokens, of another scheme.\<close>

definition no_credential :: "(string \<times> string) list \<Rightarrow> string \<Rightarrow> bool" where
  "no_credential h m =
     (if lower m = ''bearer_jwt'' then \<not> starts_with (lower (header h ''authorization'')) ''bearer ''
      else header h (credential_header m) = [])"

lemma with_credential_refusals: "with_credential e h did = Refused a \<Longrightarrow> \<not> absent a"
  by (auto simp: with_credential_def check_revocation_def absent_def Let_def split: if_splits sum.splits option.splits revocation.splits)

lemma verify_did_pop_refusals: "verify_did_pop e tok did d = Some (Some a) \<Longrightarrow> \<not> absent a"
  by (auto simp: verify_did_pop_def absent_def Let_def split: if_splits sum.splits option.splits)

lemma try_method_absent:
  assumes "try_method e h m = Some (Refused a)" "absent a"
  shows "no_credential h m"
proof -
  consider "lower m = ''bearer_jwt''" "try_jwt e h = Refused a" | "lower m = ''did''" "try_did e h = Refused a"
    | "lower m = ''spiffe''" "try_spiffe e h = Refused a"
    using assms(1) by (auto simp: try_method_def split: if_splits)
  then show ?thesis
  proof cases
    case 1
    with assms(2) show ?thesis
      by (auto simp: no_credential_def try_jwt_def absent_def Let_def split: if_splits sum.splits option.splits json.splits)
  next
    case 2
    with assms(2) show ?thesis
      by (auto simp: no_credential_def credential_header_def try_did_def absent_def Let_def split: if_splits sum.splits option.splits
          dest: with_credential_refusals verify_did_pop_refusals)
  next
    case 3
    with assms(2) show ?thesis
      by (auto simp: no_credential_def credential_header_def try_spiffe_def absent_def Let_def split: if_splits option.splits)
  qed
qed

section \<open>What each method binds\<close>

lemma try_spiffe_never_binds: "try_spiffe e h \<noteq> BoundTo p"
proof
  assume "try_spiffe e h = BoundTo p"
  then obtain cl where cl: "verify_jwt_svid (ii_lib e) (ii_jwt e) (ii_spiffe e) None None None (header h ''x-svid-jwt'') = Some cl"
      "starts_with (text_or (ii_lang e) (claim cl ''sub'') []) ''spiffe://''"
    by (auto simp: try_spiffe_def Let_def split: if_splits option.splits)
  then obtain sub td q cl' where "cl = svid_answer sub td q cl'"
    by (auto simp: verify_jwt_svid_def checked_svid_def Let_def split: if_splits option.splits sum.splits json.splits)
  then have "claim cl ''sub'' = JNull" by (simp add: svid_answer_def claim_def)
  with cl(2) show False by (simp add: text_or_def starts_with_def)
qed

lemma try_jwt_bound:
  assumes "try_jwt e h = BoundTo p"
  shows "bp_method p = ''bearer_jwt''"
    "bp_kind p \<noteq> ''agent'' \<or> Some (bp_id p) \<noteq> bp_subject p \<Longrightarrow>
      \<exists>c i. ic_jwt (ii_config e) = Some c \<and> bp_issuer p = Some i \<and> i \<in> set (jc_trusted c)"
  using assms
  by (auto simp: try_jwt_def Let_def issuer_text_def py_str_def split: if_splits sum.splits option.splits json.splits)

lemma did_principal_fields:
  "bp_method (did_principal e did vc) = ''did''" "bp_subject (did_principal e did vc) = Some did"
  by (cases vc; simp add: did_principal_def Let_def)+

lemma did_principal_trust:
  assumes "bp_kind (did_principal e did vc) \<noteq> ''agent'' \<or> bp_id (did_principal e did vc) \<noteq> did"
  shows "\<exists>c i. ic_did (ii_config e) = Some c \<and> bp_issuer (did_principal e did vc) = Some i \<and> i \<in> set (dg_trusted c)"
  using assms by (cases vc; cases "ic_did (ii_config e)") (auto simp: did_principal_def Let_def split: if_splits)

lemma with_credential_bound:
  assumes "with_credential e h did = BoundTo p"
  obtains vc where "p = did_principal e did vc"
    "vc = None \<or> (\<exists>v. vc = Some v \<and> verify_vc (ii_did e) (ii_lib e) None None 30 (header h ''x-kya-vc'') = Inr v)"
  using assms
  by (auto simp: with_credential_def check_revocation_def split: if_splits sum.splits option.splits revocation.splits)

lemma try_did_bound:
  assumes "try_did e h = BoundTo p"
  obtains d where "resolve_did (ii_did e) (header h ''x-kya-did'') = Inr d"
    "(\<exists>c. ic_did (ii_config e) = Some c \<and> dg_header_trust c) \<or>
       verify_did_pop e (header h ''x-kya-did-proof'') (header h ''x-kya-did'') d = None"
    "with_credential e h (header h ''x-kya-did'') = BoundTo p"
  using assms by (auto simp: try_did_def Let_def split: if_splits sum.splits option.splits)

lemma try_did_method: "try_did e h = BoundTo p \<Longrightarrow> bp_method p = ''did''"
  by (elim try_did_bound with_credential_bound) (simp add: did_principal_fields)

lemma only_did_tries:
  assumes "resolve_identity e hs = BoundTo p" "\<forall>m\<in>set (ic_methods (ii_config e)). lower m = ''did''"
  shows "try_did e (lower_keys hs) = BoundTo p"
proof -
  from assms(1) obtain ms1 m ms2 where "ic_methods (ii_config e) = ms1 @ m # ms2" "try_method e (lower_keys hs) m = Some (BoundTo p)"
    unfolding resolve_identity_def by (rule resolve_methods_bound)
  with assms(2) show ?thesis by (auto simp: try_method_def split: if_splits)
qed

lemma try_did_trust:
  assumes "try_did e h = BoundTo p" "ic_did (ii_config e) = Some c"
  shows "bp_kind p = ''agent'' \<and> Some (bp_id p) = bp_subject p \<or> (\<exists>i. bp_issuer p = Some i \<and> i \<in> set (dg_trusted c))"
proof -
  from assms(1) obtain vc where p: "p = did_principal e (header h ''x-kya-did'') vc"
    by (elim try_did_bound with_credential_bound)
  then show ?thesis using did_principal_trust [of e "header h ''x-kya-did''" vc] assms(2) by (auto simp: did_principal_fields)
qed

lemma verify_did_pop_accepted:
  assumes "jwt_sound (ii_lib e) signs" "verify_did_pop e tok did d = None"
  obtains vm alg cl c aud where "vm \<in> set (dd_methods d)" "vm_id vm \<in> set (dd_auth d)" "signs (vm_jwk vm) alg tok"
    "algorithms_for_jwk (vm_jwk vm) = Inr [alg]"
    "jl_peek (ii_lib e) tok = Some cl" "claim cl ''iss'' = JStr did" "ic_did (ii_config e) = Some c"
    "dg_audience c = Some aud" "audience_of cl aud" "within_lifetime (ii_now e) (dg_leeway c) cl"
proof -
  obtain kid vm algs where k: "find_key d (Some kid) = Some vm" "vm_id vm \<in> set (dd_auth d)"
      "algorithms_for_jwk (vm_jwk vm) = Inr algs"
    and rest: "(case nonblank (Option.bind (ic_did (ii_config e)) dg_audience) of
             None \<Rightarrow> Some (Some PopNoAudience)
           | Some aud \<Rightarrow>
               if \<not> jl_key_ok (ii_lib e) (vm_jwk vm) then Some None
               else (case jl_decode (ii_lib e) (pop_call (vm_jwk vm) algs aud (case ic_did (ii_config e) of Some c \<Rightarrow> dg_leeway c | None \<Rightarrow> 30)) tok of
                   Inl x \<Rightarrow> Some (Some PopRejected)
                 | Inr cl \<Rightarrow>
                     if claim cl ''iss'' \<noteq> JStr did then Some (Some PopWrongIssuer)
                     else if \<not> within_lifetime (ii_now e) (case ic_did (ii_config e) of Some c \<Rightarrow> dg_leeway c | None \<Rightarrow> 30) cl
                       then Some (Some PopTooLong) else None)) = None"
    using assms(2) by (auto simp: verify_did_pop_def Let_def split: if_splits option.splits sum.splits)
  obtain c aud where c: "ic_did (ii_config e) = Some c" "dg_audience c = Some aud"
      "nonblank (Option.bind (ic_did (ii_config e)) dg_audience) = Some aud"
    using rest by (cases "ic_did (ii_config e)") (auto simp: nonblank_def split: option.splits if_splits)
  obtain cl where cl: "jl_decode (ii_lib e) (pop_call (vm_jwk vm) algs aud (dg_leeway c)) tok = Inr cl"
      "claim cl ''iss'' = JStr did" "within_lifetime (ii_now e) (dg_leeway c) cl"
    using rest unfolding c(3) by (auto simp: c(1) split: if_splits sum.splits)
  from assms(1) cl(1) have s: "jl_peek (ii_lib e) tok = Some cl" "\<exists>alg\<in>set algs. signs (vm_jwk vm) alg tok" "audience_of cl aud"
    unfolding jwt_sound_def by (force simp: pop_call_def)+
  have one: "\<exists>a. algs = [a]" using k(3) by (auto simp: algorithms_for_jwk_def Let_def split: json.splits option.splits if_splits)
  have "vm \<in> set (dd_methods d)" using k(1) by (auto simp: find_key_def find_Some_iff)
  with k s one cl c that show thesis by auto
qed

lemma did_proof:
  assumes "resolve_identity e hs = BoundTo p" "bp_method p = ''did''" "jwt_sound (ii_lib e) signs"
    and "ic_did (ii_config e) = Some c" "\<not> dg_header_trust c"
  shows "\<exists>did tok d vm alg cl aud. did = header (lower_keys hs) ''x-kya-did'' \<and> tok = header (lower_keys hs) ''x-kya-did-proof''
    \<and> bp_subject p = Some did \<and> resolve_did (ii_did e) did = Inr d \<and> vm \<in> set (dd_methods d) \<and> vm_id vm \<in> set (dd_auth d)
    \<and> algorithms_for_jwk (vm_jwk vm) = Inr [alg] \<and> signs (vm_jwk vm) alg tok
    \<and> jl_peek (ii_lib e) tok = Some cl \<and> claim cl ''iss'' = JStr did \<and> dg_audience c = Some aud \<and> audience_of cl aud
    \<and> (\<forall>x. claim cl ''exp'' = JInt x \<longrightarrow> x \<le> ii_now e + 600 + dg_leeway c)"
proof -
  let ?h = "lower_keys hs"
  from assms(1) obtain m where "try_method e ?h m = Some (BoundTo p)"
    unfolding resolve_identity_def by (rule resolve_methods_bound)
  then have "try_did e ?h = BoundTo p"
    using try_spiffe_never_binds try_jwt_bound(1) assms(2) by (fastforce simp: try_method_def split: if_splits)
  then obtain d where d: "resolve_did (ii_did e) (header ?h ''x-kya-did'') = Inr d"
      "verify_did_pop e (header ?h ''x-kya-did-proof'') (header ?h ''x-kya-did'') d = None"
      "with_credential e ?h (header ?h ''x-kya-did'') = BoundTo p"
    using assms(4,5) by (auto elim: try_did_bound)
  from d(3) have sub: "bp_subject p = Some (header ?h ''x-kya-did'')"
    by (rule with_credential_bound) (simp add: did_principal_fields)
  from verify_did_pop_accepted [OF assms(3) d(2)] obtain vm alg cl c' aud where v: "vm \<in> set (dd_methods d)"
      "vm_id vm \<in> set (dd_auth d)" "signs (vm_jwk vm) alg (header ?h ''x-kya-did-proof'')" "algorithms_for_jwk (vm_jwk vm) = Inr [alg]"
      "jl_peek (ii_lib e) (header ?h ''x-kya-did-proof'') = Some cl" "claim cl ''iss'' = JStr (header ?h ''x-kya-did'')"
      "ic_did (ii_config e) = Some c'" "dg_audience c' = Some aud" "audience_of cl aud"
      "within_lifetime (ii_now e) (dg_leeway c') cl"
    by blast
  from v(7) assms(4) have c: "c' = c" by simp
  from v(10) have "\<forall>x. claim cl ''exp'' = JInt x \<longrightarrow> x \<le> ii_now e + 600 + dg_leeway c"
    by (auto simp: within_lifetime_def MAX_POP_SECONDS_def c)
  with d(1) sub v c show ?thesis by blast
qed

section \<open>Properties\<close>

text \<open>C16. One credential decides. When a principal is bound, a configured method bound it, and
  no method configured before it had a credential in the request: a credential that is present
  and bad ends the search, so it can never be traded for a weaker one.\<close>

theorem no_credential_is_skipped:
  assumes "resolve_identity e hs = BoundTo p"
  shows "\<exists>ms1 m ms2. ic_methods (ii_config e) = ms1 @ m # ms2 \<and> try_method e (lower_keys hs) m = Some (BoundTo p)
    \<and> lower m \<in> {''bearer_jwt'', ''did''}
    \<and> (\<forall>m'\<in>set ms1. lower m' \<in> {''bearer_jwt'', ''did'', ''spiffe''} \<longrightarrow> no_credential (lower_keys hs) m')"
proof -
  from assms obtain ms1 m ms2 where m: "ic_methods (ii_config e) = ms1 @ m # ms2"
      "try_method e (lower_keys hs) m = Some (BoundTo p)"
      "\<forall>m'\<in>set ms1. try_method e (lower_keys hs) m' = None \<or> (\<exists>a. try_method e (lower_keys hs) m' = Some (Refused a) \<and> absent a)"
    unfolding resolve_identity_def by (rule resolve_methods_bound)
  have "lower m \<in> {''bearer_jwt'', ''did''}"
    using m(2) try_spiffe_never_binds by (auto simp: try_method_def split: if_splits)
  moreover have "no_credential (lower_keys hs) m'"
    if "m' \<in> set ms1" "lower m' \<in> {''bearer_jwt'', ''did'', ''spiffe''}" for m'
  proof -
    have "try_method e (lower_keys hs) m' \<noteq> None" using that(2) by (auto simp: try_method_def)
    with m(3) that(1) show ?thesis by (fastforce intro: try_method_absent)
  qed
  ultimately show ?thesis using m by blast
qed

text \<open>C15. Only a trusted issuer makes more than an agent. A principal whose kind is not agent, or
  whose id is not the subject of its credential, was named by an issuer that the configuration
  of that method trusts.\<close>

theorem elevation_needs_trusted_issuer:
  assumes "resolve_identity e hs = BoundTo p" "bp_kind p \<noteq> ''agent'' \<or> Some (bp_id p) \<noteq> bp_subject p"
  shows "\<exists>i. bp_issuer p = Some i \<and>
    ((\<exists>c. bp_method p = ''bearer_jwt'' \<and> ic_jwt (ii_config e) = Some c \<and> i \<in> set (jc_trusted c))
     \<or> (\<exists>c. bp_method p = ''did'' \<and> ic_did (ii_config e) = Some c \<and> i \<in> set (dg_trusted c)))"
proof -
  from assms(1) obtain m where "try_method e (lower_keys hs) m = Some (BoundTo p)"
    unfolding resolve_identity_def by (rule resolve_methods_bound)
  then consider "try_jwt e (lower_keys hs) = BoundTo p" | "try_did e (lower_keys hs) = BoundTo p"
    using try_spiffe_never_binds by (auto simp: try_method_def split: if_splits)
  then show ?thesis
  proof cases
    case 1
    with try_jwt_bound [OF 1] assms(2) show ?thesis by blast
  next
    case 2
    let ?did = "header (lower_keys hs) ''x-kya-did''"
    from 2 obtain d where "with_credential e (lower_keys hs) ?did = BoundTo p" by (rule try_did_bound)
    then obtain vc where p: "p = did_principal e ?did vc" by (rule with_credential_bound)
    with assms(2) have "bp_kind (did_principal e ?did vc) \<noteq> ''agent'' \<or> bp_id (did_principal e ?did vc) \<noteq> ?did"
      by (simp add: did_principal_fields)
    from did_principal_trust [OF this] p show ?thesis by (auto simp: did_principal_fields)
  qed
qed

text \<open>A DID is bound to its keys. Unless the configuration trusts headers, a principal bound by
  the method of DIDs presented a token that a key for authentication of the DID's document
  signed, that names the DID as issuer and this gateway as audience, and that, where its expiry
  is an integer, lives no longer than ten minutes and the leeway.\<close>

theorem did_binding_is_proved:
  assumes "resolve_identity e hs = BoundTo p" "bp_method p = ''did''" "jwt_sound (ii_lib e) signs"
    and "ic_did (ii_config e) = Some c" "\<not> dg_header_trust c"
  shows "\<exists>did tok d vm alg cl aud. did = header (lower_keys hs) ''x-kya-did'' \<and> tok = header (lower_keys hs) ''x-kya-did-proof''
    \<and> bp_subject p = Some did \<and> resolve_did (ii_did e) did = Inr d \<and> vm \<in> set (dd_methods d) \<and> vm_id vm \<in> set (dd_auth d)
    \<and> algorithms_for_jwk (vm_jwk vm) = Inr [alg] \<and> signs (vm_jwk vm) alg tok
    \<and> jl_peek (ii_lib e) tok = Some cl \<and> claim cl ''iss'' = JStr did \<and> dg_audience c = Some aud \<and> audience_of cl aud
    \<and> (\<forall>x. claim cl ''exp'' = JInt x \<longrightarrow> x \<le> ii_now e + 600 + dg_leeway c)"
  using assms by (rule did_proof)

section \<open>A credential of somebody else\<close>

lemma with_credential_of:
  assumes "header h ''x-kya-vc'' \<noteq> []" "verify_vc (ii_did e) (ii_lib e) None None 30 (header h ''x-kya-vc'') = Inr v"
    and "ic_did (ii_config e) = Some c" "\<not> dg_revocation c"
  shows "with_credential e h did = BoundTo (did_principal e did (Some v))"
  using assms by (simp add: with_credential_def)

text \<open>C32. A trusted credential serves whoever presents it. With the revocation check off, a
  credential of a trusted issuer that names a principal binds the caller to that principal,
  whatever DID the caller has proved and whomever the credential is about: its subject is never
  compared with the DID.\<close>

theorem trusted_credential_binds_any_holder:
  assumes "try_did e h = BoundTo p" "header h ''x-kya-vc'' \<noteq> []"
    and "verify_vc (ii_did e) (ii_lib e) None None 30 (header h ''x-kya-vc'') = Inr v"
    and "ic_did (ii_config e) = Some c" "\<not> dg_revocation c"
    and "vc_issuer v \<in> set (dg_trusted c)" "vc_issuer v \<noteq> []"
    and "extract_vc_principal_attr (ii_lang e) (vc_claims v) ''principal_kind'' = Some k"
    and "extract_vc_principal_attr (ii_lang e) (vc_claims v) ''principal_id'' = Some i"
  shows "bp_kind p = k \<and> bp_id p = i \<and> bp_subject p = Some (header h ''x-kya-did'')"
proof -
  have "vc_claims v \<noteq> []" using assms(9) by (auto simp: extract_vc_principal_attr_def attr_text_def claim_def)
  moreover from assms(1) have "with_credential e h (header h ''x-kya-did'') = BoundTo p" by (rule try_did_bound)
  ultimately show ?thesis
    using with_credential_of [OF assms(2-5), of "header h ''x-kya-did''"] assms(4,6-9)
    by (auto simp: did_principal_def)
qed

section \<open>Instances\<close>

text \<open>Two holders \<open>did:ex:a\<close> and \<open>did:ex:b\<close>, an issuer \<open>did:ex:i\<close>, each with one key; the token
  \<open>pop\<close> is a proof of the second, \<open>cr.ed.\<close> a credential the issuer has given the first.\<close>

definition sample_jwk :: "string \<Rightarrow> jobj" where
  "sample_jwk s = [(''kty'', JStr ''OKP''), (''crv'', JStr ''Ed25519''), (''x'', JStr s)]"

definition sample_document :: "string \<Rightarrow> did_document" where
  "sample_document s = single_key_document (''did:ex:'' @ s) ''k'' ''JsonWebKey2020'' (sample_jwk s)"

definition sample_dids :: did_env where
  "sample_dids = \<lparr> de_resolvers = Some ''ex'', de_trusted = None, de_registered = [(''ex'', \<lambda>s. Inr (sample_document s))],
     de_web = (\<lambda>s. Inl None), de_denoted = (\<lambda>s. None) \<rparr>"

definition sample_claims :: "string \<Rightarrow> jobj" where
  "sample_claims tok =
     (if tok = ''cr.ed.'' then [(''iss'', JStr ''did:ex:i''), (''sub'', JStr ''did:ex:a''), (''exp'', JInt 900),
        (''principal_kind'', JStr ''user''), (''principal_id'', JStr ''alice'')]
      else [(''iss'', JStr ''did:ex:b''), (''aud'', JStr ''gw''), (''exp'', JInt 400), (''iat'', JInt 100),
        (''htm'', JStr ''GET''), (''htu'', JStr ''https://gw/me'')])"

definition sample_signs :: "jobj \<Rightarrow> string \<Rightarrow> string \<Rightarrow> bool" where
  "sample_signs jwk alg tok \<longleftrightarrow> alg = ''EdDSA'' \<and> jwk = sample_jwk (if tok = ''cr.ed.'' then ''i'' else ''b'')"

definition sample_lib :: jwt_lib where
  "sample_lib = \<lparr> jl_header = (\<lambda>tok. Some (JObj [(''kid'', JStr ''k'')])), jl_peek = (\<lambda>tok. Some (sample_claims tok)),
     jl_key_ok = (\<lambda>k. True),
     jl_decode = (\<lambda>c tok. if (\<exists>alg\<in>set (dc_algs c). sample_signs (dc_key c) alg tok)
         \<and> list_all (\<lambda>k. map_of (sample_claims tok) k \<noteq> None) (dc_require c)
         \<and> (dc_check_aud c \<longrightarrow> (case dc_aud c of None \<Rightarrow> True | Some a \<Rightarrow> audience_of (sample_claims tok) a)) \<and> \<not> dc_check_iss c
       then Inr (sample_claims tok) else Inl InvalidSignature),
     jl_signing_key = (\<lambda>url tok. None) \<rparr>"

lemma sample_lib_sound: "jwt_sound sample_lib sample_signs"
  by (auto simp: jwt_sound_def sample_lib_def list_all_iff split: if_splits)

definition sample_did_config :: did_config where
  "sample_did_config = \<lparr> dg_trusted = [''did:ex:i''], dg_header_trust = False, dg_audience = Some ''gw'', dg_leeway = 30,
     dg_revocation = False, dg_require_dpop = True, dg_dpop_audience = Some ''https://gw'', dg_dpop_leeway = 30 \<rparr>"

definition sample_identity_env :: identity_env where
  "sample_identity_env = \<lparr> ii_config = \<lparr> ic_methods = [''spiffe'', ''did''], ic_jwt = None, ic_did = Some sample_did_config \<rparr>,
     ii_lib = sample_lib,
     ii_jwt = \<lparr> js_jwks = None, js_audience = None, js_issuer = None, js_leeway = None, js_algs = None \<rparr>,
     ii_spiffe = \<lparr> sp_jwks = None, sp_audience = None, sp_domains = None \<rparr>, ii_did = sample_dids,
     ii_hooks = \<lparr> rh_factory = None, rh_prebuilt = None, rh_error = False \<rparr>,
     ii_lang = \<lparr> l_glob = (\<lambda>a b. False), l_regex = (\<lambda>a b. None), l_float = (\<lambda>s. None), l_repr = (\<lambda>j. []) \<rparr>,
     ii_now = 110, ii_text = (\<lambda>x. []) \<rparr>"

lemma sample_fields [simp]:
  "ic_methods (ii_config sample_identity_env) = [''spiffe'', ''did'']"
  "ic_did (ii_config sample_identity_env) = Some sample_did_config" "ii_lib sample_identity_env = sample_lib"
  "ii_did sample_identity_env = sample_dids" "ii_now sample_identity_env = 110"
  "dg_trusted sample_did_config = [''did:ex:i'']" "\<not> dg_header_trust sample_did_config"
  "dg_audience sample_did_config = Some ''gw''" "dg_leeway sample_did_config = 30" "\<not> dg_revocation sample_did_config"
  "dg_require_dpop sample_did_config" "dg_dpop_audience sample_did_config = Some ''https://gw''"
  "dg_dpop_leeway sample_did_config = 30"
  by (simp_all add: sample_identity_env_def sample_did_config_def)

definition sample_headers :: headers where
  "sample_headers = [(''X-KYA-DID'', ''did:ex:b''), (''X-KYA-DID-Proof'', ''p.o.p'')]"

lemma sample_lower_keys:
  "lower_keys sample_headers = [(''x-kya-did-proof'', ''p.o.p''), (''x-kya-did'', ''did:ex:b'')]"
  by code_simp

lemma sample_resolves: "resolve_did sample_dids (''did:ex:'' @ [c]) = Inr (sample_document [c])"
proof -
  have "enabled_methods sample_dids = [''ex'']" unfolding enabled_methods_def sample_dids_def did_env.simps by code_simp
  moreover have "did_parts (''did:ex:'' @ [c]) = Some (''ex'', [c])" by (simp add: did_parts_def starts_with_def)
  ultimately show ?thesis by (simp add: resolve_did_def did_resolvers_def sample_dids_def)
qed

lemma sample_key: "find_key (sample_document s) (Some ''k'') = Some (hd (dd_methods (sample_document s)))"
  by (simp add: find_key_def sample_document_def single_key_document_def)

lemma sample_algorithms: "algorithms_for_jwk (sample_jwk s) = Inr [''EdDSA'']"
  by (simp add: algorithms_for_jwk_def sample_jwk_def claim_def ALLOWED_FOR_KTY_def)

lemma sample_pop: "verify_did_pop sample_identity_env ''p.o.p'' ''did:ex:b'' (sample_document ''b'') = None"
proof -
  have k: "named_key sample_lib ''p.o.p'' = Some ''k''" "jl_header sample_lib ''p.o.p'' \<noteq> None" "jl_key_ok sample_lib j" for j
    by (simp_all add: named_key_def sample_lib_def claim_def)
  have d: "jl_decode sample_lib (pop_call (sample_jwk ''b'') [''EdDSA''] ''gw'' 30) ''p.o.p'' = Inr (sample_claims ''p.o.p'')"
    by (simp add: sample_lib_def pop_call_def sample_signs_def audience_of_def sample_claims_def)
  have c: "claim (sample_claims ''p.o.p'') ''iss'' = JStr ''did:ex:b''" "within_lifetime 110 30 (sample_claims ''p.o.p'')"
    by (simp_all add: claim_def sample_claims_def within_lifetime_def MAX_POP_SECONDS_def)
  have v: "dd_auth (sample_document ''b'') = [''k'']" "vm_id (hd (dd_methods (sample_document ''b''))) = ''k''"
      "vm_jwk (hd (dd_methods (sample_document ''b''))) = sample_jwk ''b''"
    by (simp_all add: sample_document_def single_key_document_def)
  have n: "nonblank (Some ''gw'') = Some ''gw''" by (simp add: nonblank_def truthy_def)
  show ?thesis
    by (simp add: verify_did_pop_def k d c v n sample_key sample_algorithms)
qed

lemma sample_tries:
  "try_did sample_identity_env (lower_keys sample_headers) = BoundTo (did_principal sample_identity_env ''did:ex:b'' None)"
  using sample_pop sample_resolves [of "CHR ''b''"]
  by (simp add: try_did_def sample_lower_keys header_def with_credential_def)

lemma sample_binds: "resolve_identity sample_identity_env sample_headers = BoundTo (did_principal sample_identity_env ''did:ex:b'' None)"
proof -
  have l: "lower ''spiffe'' = ''spiffe''" "lower ''did'' = ''did''" by code_simp+
  have "try_spiffe sample_identity_env (lower_keys sample_headers) = Refused NoSvid"
    by (simp add: try_spiffe_def sample_lower_keys header_def)
  then show ?thesis by (simp add: resolve_identity_def try_method_def l absent_def sample_tries)
qed

lemma no_credential_is_skipped_witness:
  "no_credential (lower_keys sample_headers) ''spiffe''"
proof -
  let ?h = "lower_keys sample_headers"
  have l: "lower ''spiffe'' = ''spiffe''" "lower ''did'' = ''did''" by code_simp+
  obtain ms1 m1 ms2 where "[''spiffe'', ''did''] = ms1 @ m1 # ms2" "lower m1 \<in> {''bearer_jwt'', ''did''}"
      "\<forall>m'\<in>set ms1. lower m' \<in> {''bearer_jwt'', ''did'', ''spiffe''} \<longrightarrow> no_credential ?h m'"
    using no_credential_is_skipped [OF sample_binds] unfolding sample_fields(1) by blast
  with l show ?thesis by (cases ms1) auto
qed

lemma did_binding_is_proved_witness: "sample_signs (sample_jwk ''b'') ''EdDSA'' ''p.o.p''"
proof -
  have "jwt_sound (ii_lib sample_identity_env) sample_signs" using sample_lib_sound by simp
  from did_binding_is_proved [OF sample_binds did_principal_fields(1) this sample_fields(2,7)]
  obtain d vm alg where "resolve_did (ii_did sample_identity_env) ''did:ex:b'' = Inr d" "vm \<in> set (dd_methods d)"
      "algorithms_for_jwk (vm_jwk vm) = Inr [alg]" "sample_signs (vm_jwk vm) alg ''p.o.p''"
    by (auto simp: sample_lower_keys header_def)
  then show ?thesis
    using sample_resolves [of "CHR ''b''"] sample_algorithms by (auto simp: sample_document_def single_key_document_def)
qed

text \<open>The second holder presents the credential of the first.\<close>

definition stolen_headers :: headers where
  "stolen_headers = (''X-KYA-VC'', ''cr.ed.'') # sample_headers"

lemma stolen_lower_keys:
  "lower_keys stolen_headers = [(''x-kya-did-proof'', ''p.o.p''), (''x-kya-did'', ''did:ex:b''), (''x-kya-vc'', ''cr.ed.'')]"
  by code_simp

definition sample_credential :: verified_credential where
  "sample_credential = verified_of ''did:ex:i'' (sample_document ''i'') (sample_claims ''cr.ed.'')"

lemma sample_verifies: "verify_vc sample_dids sample_lib None None 30 ''cr.ed.'' = Inr sample_credential"
proof -
  have i: "claim (sample_claims ''cr.ed.'') ''iss'' = JStr ''did:ex:i''" by (simp add: claim_def sample_claims_def)
  have t: "trusted_issuers sample_dids = []" by (simp add: trusted_issuers_def sample_dids_def listed_def) code_simp
  have l: "jl_peek sample_lib ''cr.ed.'' = Some (sample_claims ''cr.ed.'')" by (simp add: sample_lib_def)
  have p: "pick_verification_method (sample_document ''i'') (Some ''k'') = Inr (hd (dd_methods (sample_document ''i'')))"
    by (simp add: pick_verification_method_def sample_key) (simp add: sample_document_def single_key_document_def)
  have v: "vm_jwk (hd (dd_methods (sample_document ''i''))) = sample_jwk ''i''"
    by (simp add: sample_document_def single_key_document_def)
  have "verify_with_document sample_lib None 30 ''cr.ed.'' ''did:ex:i'' (sample_document ''i'') = Inr sample_credential"
    by (simp add: verify_with_document_def header_kid_def p v sample_algorithms)
       (simp add: sample_lib_def header_kid_def claim_def p v sample_algorithms vc_call_def sample_signs_def sample_claims_def
         sample_credential_def)
  with sample_resolves [of "CHR ''i''"] i t l show ?thesis
    by (simp add: verify_vc_def jwt_shaped_def starts_with_def)
qed

lemma stolen_binds:
  "try_did sample_identity_env (lower_keys stolen_headers)
     = BoundTo (did_principal sample_identity_env ''did:ex:b'' (Some sample_credential))"
proof -
  have "with_credential sample_identity_env (lower_keys stolen_headers) ''did:ex:b''
      = BoundTo (did_principal sample_identity_env ''did:ex:b'' (Some sample_credential))"
    using sample_verifies by (intro with_credential_of [of _ _ _ sample_did_config])
      (simp_all add: stolen_lower_keys header_def)
  with sample_pop sample_resolves [of "CHR ''b''"] show ?thesis
    by (simp add: try_did_def stolen_lower_keys header_def)
qed

lemma trusted_credential_binds_any_holder_witness:
  "vc_subject sample_credential = Some ''did:ex:a''
   \<and> (let p = did_principal sample_identity_env ''did:ex:b'' (Some sample_credential)
      in bp_kind p = ''user'' \<and> bp_id p = ''alice'' \<and> bp_subject p = Some ''did:ex:b'')"
proof -
  have c: "vc_issuer sample_credential \<in> set (dg_trusted sample_did_config)" "vc_issuer sample_credential \<noteq> []"
    by (simp_all add: sample_credential_def verified_of_def)
  have h: "header (lower_keys stolen_headers) ''x-kya-vc'' = ''cr.ed.''"
      "header (lower_keys stolen_headers) ''x-kya-did'' = ''did:ex:b''"
    by (simp_all add: stolen_lower_keys header_def)
  have a: "extract_vc_principal_attr (ii_lang sample_identity_env) (vc_claims sample_credential) ''principal_kind'' = Some ''user''"
      "extract_vc_principal_attr (ii_lang sample_identity_env) (vc_claims sample_credential) ''principal_id'' = Some ''alice''"
    by (simp_all add: extract_vc_principal_attr_def attr_text_def claim_def sample_credential_def verified_of_def sample_claims_def py_str_def)
  have "vc_subject sample_credential = Some ''did:ex:a''"
    by (simp add: sample_credential_def verified_of_def claim_def sample_claims_def)
  with trusted_credential_binds_any_holder [OF stolen_binds _ _ sample_fields(2,10) c a] sample_verifies show ?thesis
    by (simp add: h Let_def)
qed

lemma elevation_needs_trusted_issuer_witness:
  "bp_issuer (did_principal sample_identity_env ''did:ex:b'' (Some sample_credential)) = Some ''did:ex:i''"
proof -
  let ?p = "did_principal sample_identity_env ''did:ex:b'' (Some sample_credential)"
  have l: "lower ''spiffe'' = ''spiffe''" "lower ''did'' = ''did''" by code_simp+
  have "try_spiffe sample_identity_env (lower_keys stolen_headers) = Refused NoSvid"
    by (simp add: try_spiffe_def stolen_lower_keys header_def)
  then have b: "resolve_identity sample_identity_env stolen_headers = BoundTo ?p"
    by (simp add: resolve_identity_def try_method_def l absent_def stolen_binds)
  have k: "bp_kind ?p \<noteq> ''agent'' \<or> Some (bp_id ?p) \<noteq> bp_subject ?p"
    by (simp add: did_principal_def sample_credential_def verified_of_def
        sample_claims_def extract_vc_principal_attr_def attr_text_def claim_def py_str_def)
  have f: "bp_method ?p = ''did''" by (rule did_principal_fields)
  from elevation_needs_trusted_issuer [OF b k] obtain i where "bp_issuer ?p = Some i" "i \<in> set (dg_trusted sample_did_config)"
    unfolding f by auto
  then show ?thesis by simp
qed

end
