(* ===== verification/GatewayIdentity.thy ===== *)
theory GatewayIdentity
  imports IdentityFacts GatewayFacts
begin

text \<open>
  The gateway over its identity resolver: POST /mcp as it runs when the callers are resolved by
  \<open>kya_gateway/identity.py\<close>, and what a call that reaches a backend has then proved.
\<close>

section \<open>The handler over the resolver\<close>

text \<open>A refusal is an answer for the handler; an exception of another class leaves the request
  without one.\<close>

definition resolver_of :: "identity_env \<Rightarrow> headers \<Rightarrow> identity" where
  "resolver_of i hs =
     (case identity_of i (resolve_identity i hs) of Some x \<Rightarrow> x | None \<Rightarrow> Unbound (failure_of i NoMethod))"

definition mcp_identified ::
    "identity_env \<Rightarrow> 'st gateway_env \<Rightarrow> http_request \<Rightarrow> 'st gateway_state \<Rightarrow> (http_reply \<times> 'st gateway_state) option" where
  "mcp_identified i g rq s =
     (if body_refused MAX_HTTP_BODY_BYTES rq = None \<and> is_ok (parse_request (ge_loads g (hq_body rq)))
         \<and> resolve_identity i (hq_headers rq) = Crashed
      then None else Some (mcp_endpoint (g\<lparr> ge_resolve := resolver_of i \<rparr>) rq s))"

lemma resolver_of_bound: "resolver_of i hs = Bound p \<longleftrightarrow> resolve_identity i hs = BoundTo p"
  by (simp add: resolver_of_def identity_of_def split: resolution.split)

text \<open>C4. What reaches a backend was asked by a key. In enforce mode, with callers identified by
  DIDs alone and headers not trusted, a tool call is forwarded only when its request carries a
  token that a key for authentication of a DID's document signed for this gateway, when every
  stage of the stack passes for the principal bound to that DID, and when that principal is an
  agent named by the DID or was named by a trusted issuer.\<close>

theorem forwarded_call_is_proved:
  assumes "ge_mode g = ''enforce''" "parse_request (ge_loads g (hq_body rq)) = Inr q" "mq_method q = ''tools/call''"
    and "mcp_identified i g rq s = Some (rp, s')" "gs_sent s' \<noteq> gs_sent s"
    and "jwt_sound (ii_lib i) signs" "\<forall>m\<in>set (ic_methods (ii_config i)). lower m = ''did''"
    and "ic_did (ii_config i) = Some c" "\<not> dg_header_trust c"
  shows "\<exists>p b t did d vm alg cl aud. resolve_identity i (hq_headers rq) = BoundTo p \<and> bp_subject p = Some did
    \<and> gs_sent s' = gs_sent s @ [(b, mq_raw q)]
    \<and> fst (run_stages (ge_pipeline g) (ge_tenant g) p (action_from_tool_call b t) (int (length (hq_body rq)))
          (ge_policy g) (gs_pipeline s)) = Pass
    \<and> resolve_did (ii_did i) did = Inr d \<and> vm \<in> set (dd_methods d) \<and> vm_id vm \<in> set (dd_auth d)
    \<and> signs (vm_jwk vm) alg (header (lower_keys (hq_headers rq)) ''x-kya-did-proof'')
    \<and> jl_peek (ii_lib i) (header (lower_keys (hq_headers rq)) ''x-kya-did-proof'') = Some cl
    \<and> claim cl ''iss'' = JStr did \<and> dg_audience c = Some aud \<and> audience_of cl aud
    \<and> (bp_kind p = ''agent'' \<and> bp_id p = did \<or> (\<exists>iss. bp_issuer p = Some iss \<and> iss \<in> set (dg_trusted c)))"
proof -
  let ?g = "g\<lparr> ge_resolve := resolver_of i \<rparr>"
  have e: "mcp_endpoint ?g rq s = (rp, s')" using assms(4) by (simp add: mcp_identified_def split: if_splits)
  have g: "ge_mode ?g = ''enforce''" "parse_request (ge_loads ?g (hq_body rq)) = Inr q"
      "gs_sent (snd (mcp_endpoint ?g rq s)) \<noteq> gs_sent s"
    using assms(1,2,5) e by simp_all
  from forwarded_call_passed [OF g(1,2) assms(3) g(3)] obtain p b t where p: "resolve_identity i (hq_headers rq) = BoundTo p"
      "gs_sent s' = gs_sent s @ [(b, mq_raw q)]"
      "fst (run_stages (ge_pipeline g) (ge_tenant g) p (action_from_tool_call b t) (int (length (hq_body rq)))
          (ge_policy g) (gs_pipeline s)) = Pass"
    by (auto simp: e resolver_of_bound)
  have tries: "try_did i (lower_keys (hq_headers rq)) = BoundTo p"
    using only_did_tries [OF p(1) assms(7)] .
  note shown = did_proof [OF p(1) try_did_method [OF tries] assms(6,8,9)]
  show ?thesis using shown p try_did_trust [OF tries assms(8)] by fastforce
qed

section \<open>An instance\<close>

definition did_only :: identity_env where
  "did_only = sample_identity_env\<lparr> ii_config := (ii_config sample_identity_env)\<lparr> ic_methods := [''did''] \<rparr> \<rparr>"

lemma did_only_fields [simp]:
  "ic_methods (ii_config did_only) = [''did'']" "ic_did (ii_config did_only) = Some sample_did_config"
  "ii_lib did_only = sample_lib" "ii_did did_only = sample_dids" "ii_now did_only = 110"
  by (simp_all add: did_only_def)

lemma did_only_binds: "resolve_identity did_only sample_headers = BoundTo (did_principal did_only ''did:ex:b'' None)"
proof -
  have "verify_did_pop did_only ''p.o.p'' ''did:ex:b'' (sample_document ''b'') = None"
    using sample_pop unfolding verify_did_pop_def did_only_fields sample_fields .
  then have "try_did did_only (lower_keys sample_headers) = BoundTo (did_principal did_only ''did:ex:b'' None)"
    using sample_resolves [of "CHR ''b''"] by (simp add: try_did_def sample_lower_keys header_def with_credential_def)
  moreover have "lower ''did'' = ''did''" by code_simp
  ultimately show ?thesis by (simp add: resolve_identity_def try_method_def)
qed

lemma forwarded_call_is_proved_witness:
  "\<exists>alg. sample_signs (sample_jwk ''b'') alg ''p.o.p'' \<and> resolve_did sample_dids ''did:ex:b'' = Inr (sample_document ''b'')"
proof -
  let ?g = "sample_gateway ''enforce'' (sample_call (JObj []) [(''id'', JInt 1)]) (Bound sample_principal)"
  let ?rq = "sample_request\<lparr> hq_headers := sample_headers \<rparr>" and ?p = "did_principal did_only ''did:ex:b'' None"
  have r: "resolver_of did_only (hq_headers ?rq) = Bound ?p" by (simp add: resolver_of_bound did_only_binds)
  obtain rp s' where m: "mcp_identified did_only ?g ?rq sample_gateway_state = Some (rp, s')"
    by (simp add: mcp_identified_def did_only_binds) (metis surj_pair)
  then have s: "s' = snd (mcp_endpoint (?g\<lparr> ge_resolve := resolver_of did_only \<rparr>) ?rq sample_gateway_state)"
    by (simp add: mcp_identified_def did_only_binds)
  have "gs_sent s' = [(''fs'', sample_call (JObj []) [(''id'', JInt 1)])]"
    unfolding s by (rule sample_sent_via [where p = ?p]) (use r in \<open>simp_all add: sample_request_def\<close>)
  then have sent: "gs_sent s' \<noteq> gs_sent sample_gateway_state" by (simp add: sample_gateway_state_def)
  have l: "\<forall>m\<in>set (ic_methods (ii_config did_only)). lower m = ''did''"
  proof -
    have "lower ''did'' = ''did''" by code_simp
    then show ?thesis by simp
  qed
  have lib: "jwt_sound (ii_lib did_only) sample_signs" using sample_lib_sound by simp
  have q: "parse_request (ge_loads ?g (hq_body ?rq)) = Inr (sample_parsed (JObj []) [(''id'', JInt 1)])"
    "mq_method (sample_parsed (JObj []) [(''id'', JInt 1)]) = ''tools/call''"
    by (simp add: sample_parse) (simp add: sample_parsed_def)
  have mode: "ge_mode ?g = ''enforce''" by simp
  from forwarded_call_is_proved [OF mode q m sent lib l did_only_fields(2) sample_fields(7)]
  obtain d vm alg where "resolve_did sample_dids ''did:ex:b'' = Inr d" "vm \<in> set (dd_methods d)"
      "sample_signs (vm_jwk vm) alg ''p.o.p''"
    by (auto simp: did_only_binds did_principal_fields sample_lower_keys header_def sample_request_def)
  then show ?thesis
    using sample_resolves [of "CHR ''b''"] by (auto simp: sample_document_def single_key_document_def)
qed

end
