(* ===== verification/WriteLimits.thy ===== *)
theory WriteLimits
  imports RateLimit Consensus
begin

text \<open>
  Rate limiting of writes: \<open>maybe_rate_limit\<close> of \<open>kya/rate_limit.py\<close> over the limiter that
  may wait, \<open>acquire_rate_token\<close> of \<open>kya_redteam/runtime.py\<close>. What the clock shows at each
  attempt is an argument, so that others may delay the caller. Rates and waiting times are
  rational numbers; reading a number from text is an argument.
\<close>

section \<open>Waiting for a token\<close>

definition FIRST_BACKOFF :: rat where "FIRST_BACKOFF = 1 / 20"
definition MAX_BACKOFF :: rat where "MAX_BACKOFF = 2 / 5"

text \<open>The pause after the k-th attempt, and what the attempts before it have waited.\<close>

fun backoff :: "nat \<Rightarrow> rat" where
  "backoff 0 = FIRST_BACKOFF"
| "backoff (Suc k) = min MAX_BACKOFF (backoff k * (3 / 2))"

fun waited :: "nat \<Rightarrow> rat" where
  "waited 0 = 0"
| "waited (Suc k) = waited k + backoff k"

lemma backoff_bounds: "FIRST_BACKOFF \<le> backoff k" "backoff k \<le> MAX_BACKOFF"
  by (induction k) (auto simp: FIRST_BACKOFF_def MAX_BACKOFF_def)

lemma waited_bounds: "of_nat k * FIRST_BACKOFF \<le> waited k" "waited k \<le> of_nat k * MAX_BACKOFF"
proof (induction k)
  case (Suc k)
  case 1 show ?case using Suc(1) backoff_bounds(1) [of k] by (simp add: algebra_simps)
next
  case (Suc k)
  case 2 show ?case using Suc(2) backoff_bounds(2) [of k] by (simp add: algebra_simps)
qed simp_all

text \<open>One attempt in the counter of the current second; a store that fails admits.\<close>

definition attempt :: "'st valkey \<Rightarrow> instant \<Rightarrow> string \<Rightarrow> rat \<Rightarrow> 'st \<Rightarrow> bool \<times> 'st" where
  "attempt vk now target rps st =
     (let key = rate_key target (now div second)
      in (case vk_incrby vk st now key 1 of
            None \<Rightarrow> (True, st)
          | Some (n, st') \<Rightarrow>
              if n = 1 then
                (case vk_expire vk st' now key 2 of None \<Rightarrow> (True, st') | Some st'' \<Rightarrow> (n \<le> max 1 \<lfloor>rps\<rfloor>, st''))
              else (n \<le> max 1 \<lfloor>rps\<rfloor>, st')))"

lemma waited_grows: "waited k + FIRST_BACKOFF \<le> waited (Suc k)"
  using backoff_bounds(1) [of k] by simp

text \<open>Each pause takes at least the first one, so at most that many attempts fit.\<close>

lemma pause_shrinks:
  assumes "waited k < m"
  shows "nat \<lceil>(m - waited (Suc k)) * 20\<rceil> < nat \<lceil>(m - waited k) * 20\<rceil>"
proof -
  have "(m - waited (Suc k)) * 20 \<le> (m - waited k) * 20 - 1"
    using waited_grows [of k] by (simp add: FIRST_BACKOFF_def algebra_simps)
  then have "\<lceil>(m - waited (Suc k)) * 20\<rceil> \<le> \<lceil>(m - waited k) * 20\<rceil> - 1"
    by (metis ceiling_diff_one ceiling_mono)
  moreover have "0 < \<lceil>(m - waited k) * 20\<rceil>" using assms by simp
  ultimately show ?thesis by linarith
qed

function acquire_loop ::
    "'st valkey \<Rightarrow> (nat \<Rightarrow> instant) \<Rightarrow> string \<Rightarrow> rat \<Rightarrow> rat \<Rightarrow> nat \<Rightarrow> 'st \<Rightarrow> rat \<times> 'st" where
  "acquire_loop vk clock target rps max_wait k st =
     (if \<not> waited k < max_wait then (waited k, st)
      else (case attempt vk (clock k) target rps st of
          (True, st') \<Rightarrow> (waited k, st')
        | (False, st') \<Rightarrow> acquire_loop vk clock target rps max_wait (Suc k) st'))"
  by pat_completeness auto

termination
  by (relation "measure (\<lambda>(vk, clock, target, rps, m, k, st). nat \<lceil>(m - waited k) * 20\<rceil>)")
    (use pause_shrinks in \<open>force simp del: waited.simps\<close>)+

declare acquire_loop.simps [simp del]

text \<open>Below one call a second the caller waits for the interval and the time is stored, whether
  or not the wait was cut short.\<close>

definition acquire_interval ::
    "'st valkey \<Rightarrow> (nat \<Rightarrow> instant) \<Rightarrow> string \<Rightarrow> rat \<Rightarrow> rat \<Rightarrow> 'st \<Rightarrow> rat \<times> 'st" where
  "acquire_interval vk clock target rps max_wait st =
     (let last_t = (case vk_get vk st (clock 0) (rate_last_key target) of Some (Some t) \<Rightarrow> t | _ \<Rightarrow> 0);
          wait = max 0 (secs last_t + 1 / rps - secs (clock 0));
          total = (if 0 < wait then min wait max_wait else 0)
      in (total, (case vk_set_ex vk st (clock 1) (rate_last_key target) (clock 1) 300 of Some st' \<Rightarrow> st' | None \<Rightarrow> st)))"

definition acquire_rate_token ::
    "'st valkey option \<Rightarrow> (nat \<Rightarrow> instant) \<Rightarrow> string \<Rightarrow> rat \<Rightarrow> rat \<Rightarrow> 'st \<Rightarrow> rat \<times> 'st" where
  "acquire_rate_token store clock target rps max_wait st =
     (if rps \<le> 0 then (0, st)
      else (case store of
          None \<Rightarrow> (0, st)
        | Some vk \<Rightarrow>
            if 1 \<le> rps then acquire_loop vk clock target rps max_wait 0 st
            else acquire_interval vk clock target rps max_wait st))"

section \<open>The configured rate\<close>

definition rate_env_segment :: "string \<Rightarrow> string" where
  "rate_env_segment s = upper (map (\<lambda>c. if is_alnum c \<or> c = CHR ''_'' then c else CHR ''_'') s)"

definition rps_keys :: "string \<Rightarrow> string \<Rightarrow> string list" where
  "rps_keys t primitive =
     [''KYA_RATE_LIMIT_RPS_'' @ rate_env_segment t @ ''_'' @ rate_env_segment primitive,
      ''KYA_RATE_LIMIT_RPS_'' @ rate_env_segment primitive, ''KYA_RATE_LIMIT_DEFAULT_RPS'']"

fun first_rate :: "(string \<Rightarrow> rat option) \<Rightarrow> (string \<Rightarrow> string option) \<Rightarrow> string list \<Rightarrow> rat" where
  "first_rate parse env [] = 0"
| "first_rate parse env (k # ks) =
     (case env k of
        None \<Rightarrow> first_rate parse env ks
      | Some raw \<Rightarrow>
          if raw = [] then first_rate parse env ks
          else (case parse raw of None \<Rightarrow> first_rate parse env ks | Some v \<Rightarrow> max 0 v))"

definition resolve_rps :: "(string \<Rightarrow> rat option) \<Rightarrow> (string \<Rightarrow> string option) \<Rightarrow> string \<Rightarrow> string \<Rightarrow> rat" where
  "resolve_rps parse env t primitive = first_rate parse env (rps_keys t primitive)"

section \<open>The limit on a write\<close>

text \<open>Refused with the seconds waited, or admitted. A principal with a database is charged for
  every wait, in either mode.\<close>

definition limit_target :: "string \<Rightarrow> string \<Rightarrow> string" where
  "limit_target t primitive = ''kya:'' @ t @ '':'' @ primitive"

definition maybe_rate_limit ::
    "(string \<Rightarrow> rat option) \<Rightarrow> (string \<Rightarrow> string option) \<Rightarrow> 'st valkey option \<Rightarrow> (nat \<Rightarrow> instant) \<Rightarrow> rbac_env \<Rightarrow>
     ident \<Rightarrow> string \<Rightarrow> bool \<Rightarrow> rat \<Rightarrow> string option \<Rightarrow> ident option \<Rightarrow> string \<Rightarrow> bool \<Rightarrow> 'st \<times> principal_table \<Rightarrow>
     (rat + unit) \<times> 'st \<times> principal_table" where
  "maybe_rate_limit parse env store clock e t primitive hard max_wait kind pid detail has_db s =
     (let rps = resolve_rps parse env t primitive
      in if rps \<le> 0 then (Inr (), s)
         else (let (wait, st') = acquire_rate_token store clock (limit_target t primitive) rps max_wait (fst s);
                   tab = (if 0 < wait then emit_security_event (re_kinds e) (re_commits e) (snd s) ''rate_limit_exceeded'' t
                            kind pid detail has_db (re_now e) else snd s)
               in if 0 < wait \<and> hard \<and> max_wait \<le> wait then (Inl wait, st', tab) else (Inr (), st', tab)))"

section \<open>What it promises\<close>

lemma acquire_loop_waits:
  "fst (acquire_loop vk clock target rps m k st) \<in> waited ` {k..} \<and>
   (waited k < m \<longrightarrow> fst (acquire_loop vk clock target rps m k st) < m + MAX_BACKOFF)"
proof (induction vk clock target rps m k st rule: acquire_loop.induct)
  case (1 vk clock target rps m k st)
  show ?case
  proof (cases "waited k < m")
    case False
    then show ?thesis by (subst (1 2) acquire_loop.simps) simp
  next
    case True
    obtain ok st' where a: "attempt vk (clock k) target rps st = (ok, st')" by force
    have pause: "waited (Suc k) \<le> waited k + MAX_BACKOFF" using backoff_bounds(2) [of k] by simp
    show ?thesis
    proof (cases ok)
      case ok: True
      with a True show ?thesis by (subst (1 2) acquire_loop.simps) (auto simp: MAX_BACKOFF_def)
    next
      case False
      let ?r = "fst (acquire_loop vk clock target rps m (Suc k) st')"
      have step: "fst (acquire_loop vk clock target rps m k st) = ?r"
        using a False True by (subst acquire_loop.simps) simp
      have ih: "?r \<in> waited ` {Suc k..}" "waited (Suc k) < m \<Longrightarrow> ?r < m + MAX_BACKOFF"
        using 1 [OF _ a [symmetric]] True False by simp_all
      have "?r < m + MAX_BACKOFF"
      proof (cases "waited (Suc k) < m")
        case False
        then have "?r = waited (Suc k)" by (subst acquire_loop.simps) simp
        with pause True show ?thesis by linarith
      qed (rule ih(2))
      moreover have "?r \<in> waited ` {k..}" using ih(1) by auto
      ultimately show ?thesis by (simp add: step)
    qed
  qed
qed

lemma acquire_wait_bounds:
  assumes "acquire_rate_token store clock target rps m st = (w, st')" "0 \<le> m"
  shows "0 \<le> w" "w < m + MAX_BACKOFF" "m = 0 \<Longrightarrow> w = 0"
proof -
  have nonneg: "0 \<le> waited k" for k using waited_bounds(1) [of k] by (simp add: FIRST_BACKOFF_def order_trans [rotated])
  have small: "w < m + MAX_BACKOFF" if "0 \<le> w" "w \<le> m" using that by (simp add: MAX_BACKOFF_def)
  have "0 \<le> w \<and> w < m + MAX_BACKOFF \<and> (m = 0 \<longrightarrow> w = 0)"
  proof (cases "rps \<le> 0 \<or> store = None")
    case True
    with assms(1) have "w = 0" by (cases "rps \<le> 0") (simp_all add: acquire_rate_token_def)
    with assms(2) show ?thesis by (simp add: MAX_BACKOFF_def)
  next
    case False
    then obtain vk where vk: "store = Some vk" by auto
    show ?thesis
    proof (cases "1 \<le> rps")
      case True
      with False vk assms(1) have l: "w = fst (acquire_loop vk clock target rps m 0 st)" by (simp add: acquire_rate_token_def)
      show ?thesis
      proof (cases "m = 0")
        case True
        with l show ?thesis by (simp add: acquire_loop.simps MAX_BACKOFF_def)
      next
        case pos: False
        with assms(2) acquire_loop_waits [of vk clock target rps m 0 st] l nonneg show ?thesis by auto
      qed
    next
      case no: False
      with False vk assms have "0 \<le> w \<and> w \<le> m" by (auto simp: acquire_rate_token_def acquire_interval_def Let_def)
      with small assms(2) show ?thesis by auto
    qed
  qed
  then show "0 \<le> w" "w < m + MAX_BACKOFF" "m = 0 \<Longrightarrow> w = 0" by simp_all
qed

text \<open>C35. A write limit waits, and refuses only in hard mode after the whole time it was given,
  at most one pause later. So a hard limit that is given no time to wait, as the introspection
  endpoint of the gateway asks for it, admits every call at every rate and charges nobody.\<close>

theorem hard_limit_needs_time_to_wait:
  assumes "0 \<le> max_wait"
    and "maybe_rate_limit parse env store clock e t primitive hard max_wait kind pid detail has_db (st, tab) = (r, st', tab')"
  shows "case r of
      Inl w \<Rightarrow> hard \<and> 0 < max_wait \<and> max_wait \<le> w \<and> w < max_wait + 2 / 5
    | Inr u \<Rightarrow> max_wait = 0 \<longrightarrow> tab' = tab"
proof (cases "resolve_rps parse env t primitive \<le> 0")
  case True
  with assms(2) show ?thesis by (auto simp: maybe_rate_limit_def)
next
  case False
  obtain w s where a: "acquire_rate_token store clock (limit_target t primitive) (resolve_rps parse env t primitive) max_wait st = (w, s)" by force
  note b = acquire_wait_bounds [OF a assms(1)]
  show ?thesis
  proof (cases "max_wait = 0")
    case True
    with b(3) have "w = 0" by simp
    with assms(2) False a show ?thesis by (auto simp: maybe_rate_limit_def)
  next
    case pos: False
    with assms(1) have "0 < max_wait" by simp
    with b assms(2) False a show ?thesis by (auto simp: maybe_rate_limit_def Let_def MAX_BACKOFF_def split: if_splits)
  qed
qed

lemma hard_limit_needs_time_to_wait_witness:
  "resolve_rps (\<lambda>s. Some 1) (\<lambda>k. Some ''1'') ''t'' ''principals_me'' = 1
   \<and> fst (maybe_rate_limit (\<lambda>s. Some 1) (\<lambda>k. Some ''1'') (Some sample_valkey) (\<lambda>k. 0)
       \<lparr> re_grants = [], re_kinds = [], re_db_ok = True, re_trust_ok = True, re_commits = [], re_mode = None, re_now = 0 \<rparr>
       ''t'' ''principals_me'' True 0 None None [] False (\<lambda>k. Some (1000, None), [])) = Inr ()"
proof -
  let ?e = "\<lparr> re_grants = [], re_kinds = [], re_db_ok = True, re_trust_ok = True, re_commits = [], re_mode = None, re_now = 0 \<rparr>"
  obtain r s tab where m: "maybe_rate_limit (\<lambda>s. Some 1) (\<lambda>k. Some ''1'') (Some sample_valkey) (\<lambda>k. 0) ?e
      ''t'' ''principals_me'' True 0 None None [] False (\<lambda>k. Some (1000, None), []) = (r, s, tab)" by (rule prod_cases3)
  have "0 \<le> (0 :: rat)" by simp
  from hard_limit_needs_time_to_wait [OF this m] have "r = Inr ()" by (cases r) auto
  moreover have "resolve_rps (\<lambda>s. Some 1) (\<lambda>k. Some ''1'') ''t'' ''principals_me'' = 1" by (simp add: resolve_rps_def rps_keys_def)
  ultimately show ?thesis by (simp add: m)
qed

end
