(* ===== verification/Dpop.thy ===== *)
theory Dpop
  imports Identity Throttle WriteLimits
begin

text \<open>
  Proofs bound to one request (\<open>kya_gateway/_dpop.py\<close>) and the introspection endpoint that asks
  for them, GET /v1/principals/me (\<open>kya_gateway/server.py\<close>). Addresses are split as Python
  3.12 does; whether a host in brackets is one is an argument, and so are message texts.
\<close>

section \<open>Addresses\<close>

definition scheme_char :: "char \<Rightarrow> bool" where
  "scheme_char c = (is_lower c \<or> is_upper c \<or> is_digit c \<or> c \<in> {CHR ''+'', CHR ''-'', CHR ''.''})"

text \<open>Scheme, authority and path of an address without query and fragment; \<open>None\<close>: it raises.\<close>

definition url_scheme :: "string \<Rightarrow> string \<times> string" where
  "url_scheme u =
     (let s = takeWhile (\<lambda>c. c \<noteq> CHR '':'') u
      in if length s < length u \<and> s \<noteq> [] \<and> (is_lower (hd s) \<or> is_upper (hd s)) \<and> list_all scheme_char s
         then (lower s, drop (Suc (length s)) u) else ([], u))"

definition url_split :: "(string \<Rightarrow> bool) \<Rightarrow> string \<Rightarrow> (string \<times> string \<times> string) option" where
  "url_split bracketed url =
     (let u = filter (\<lambda>c. code_of c \<notin> {9, 10, 13}) (dropWhile (\<lambda>c. code_of c \<le> 32) url);
          (scheme, r) = url_scheme u
      in if \<not> starts_with r ''//'' then Some (scheme, [], r)
         else (let netloc = takeWhile (\<lambda>c. c \<noteq> CHR ''/'') (drop 2 r); p = dropWhile (\<lambda>c. c \<noteq> CHR ''/'') (drop 2 r);
                   l = CHR ''['' \<in> set netloc; h = CHR '']'' \<in> set netloc
               in if l \<noteq> h \<or> l \<and> \<not> bracketed netloc then None else Some (scheme, netloc, p)))"

definition USES_NETLOC :: "string list" where
  "USES_NETLOC =
     [[], ''ftp'', ''http'', ''gopher'', ''nntp'', ''telnet'', ''imap'', ''wais'', ''file'', ''mms'', ''https'', ''shttp'',
      ''snews'', ''prospero'', ''rtsp'', ''rtsps'', ''rtspu'', ''rsync'', ''svn'', ''svn+ssh'', ''sftp'', ''nfs'', ''git'',
      ''git+ssh'', ''ws'', ''wss'', ''itms-services'']"

definition url_unsplit :: "string \<Rightarrow> string \<Rightarrow> string \<Rightarrow> string" where
  "url_unsplit scheme netloc p =
     (let u = (if netloc \<noteq> [] \<or> scheme \<noteq> [] \<and> scheme \<in> set USES_NETLOC \<and> \<not> starts_with p ''//''
               then ''//'' @ netloc @ (if p \<noteq> [] \<and> \<not> starts_with p ''/'' then CHR ''/'' # p else p) else p)
      in if scheme = [] then u else scheme @ '':'' @ u)"

definition rstrip_slash :: "string \<Rightarrow> string" where
  "rstrip_slash s = rev (dropWhile (\<lambda>c. c = CHR ''/'') (rev s))"

definition drop_suffix :: "string \<Rightarrow> string \<Rightarrow> string" where
  "drop_suffix sfx s = (if suffix sfx s then take (length s - length sfx) s else s)"

definition normalize_htu :: "(string \<Rightarrow> bool) \<Rightarrow> string \<Rightarrow> string" where
  "normalize_htu bracketed url =
     (let base = takeWhile (\<lambda>c. c \<noteq> CHR ''?'') (takeWhile (\<lambda>c. c \<noteq> CHR ''#'') url)
      in (case url_split bracketed base of
            None \<Rightarrow> rstrip_slash base
          | Some (scheme, netloc, p) \<Rightarrow>
              (let n = lower netloc;
                   n' = (if scheme = ''https'' then drop_suffix '':443'' n
                         else if scheme = ''http'' then drop_suffix '':80'' n else n)
               in url_unsplit scheme n' (rstrip_slash p))))"

section \<open>The proof\<close>

definition dpop_call :: "jobj \<Rightarrow> string list \<Rightarrow> int \<Rightarrow> decode_call" where
  "dpop_call jwk algs leeway =
     \<lparr> dc_key = jwk, dc_algs = algs, dc_aud = None, dc_iss = None, dc_leeway = leeway,
       dc_require = [''iss'', ''iat'', ''htm'', ''htu''], dc_check_aud = True, dc_check_iss = False \<rparr>"

definition numeric :: "json \<Rightarrow> int option" where
  "numeric v = (case v of JInt n \<Rightarrow> Some n | JBool b \<Rightarrow> Some (if b then 1 else 0) | _ \<Rightarrow> None)"

text \<open>The checks on verified claims, in their order; \<open>None\<close>: accepted.\<close>

definition request_claims :: "(string \<Rightarrow> bool) \<Rightarrow> string \<Rightarrow> string \<Rightarrow> string \<Rightarrow> int \<Rightarrow> int \<Rightarrow> jobj \<Rightarrow> string option" where
  "request_claims bracketed htm htu did leeway now cl =
     (if claim cl ''iss'' \<noteq> JStr did then Some ''iss_mismatch''
      else if (case claim cl ''htm'' of JStr m \<Rightarrow> upper m \<noteq> upper htm | _ \<Rightarrow> True) then Some ''htm_mismatch''
      else if (case claim cl ''htu'' of JStr u \<Rightarrow> normalize_htu bracketed u \<noteq> normalize_htu bracketed htu | _ \<Rightarrow> True)
        then Some ''htu_mismatch''
      else (case numeric (claim cl ''iat'') of
          None \<Rightarrow> Some ''iat_invalid''
        | Some iat \<Rightarrow>
            if now + leeway < iat then Some ''iat_future''
            else if leeway * 5 < now - iat then Some ''iat_too_old'' else None))"

text \<open>\<open>Inl (Some code)\<close> is the typed error, \<open>Inl None\<close> an exception of another class.\<close>

definition verify_dpop ::
    "jwt_lib \<Rightarrow> (string \<Rightarrow> bool) \<Rightarrow> string \<Rightarrow> string \<Rightarrow> did_document \<Rightarrow> int \<Rightarrow> int \<Rightarrow> string \<Rightarrow> string option + jobj" where
  "verify_dpop lib bracketed htm htu d leeway now tok =
     (if tok = [] then Inl (Some ''missing'')
      else if \<not> jwt_shaped tok then Inl (Some ''malformed'')
      else (case named_key lib tok of
          None \<Rightarrow> Inl (Some ''malformed'')
        | Some kid \<Rightarrow>
            if dd_auth d = [] then Inl (Some ''kid_unknown'')
            else (case find_key d (Some kid) of
                None \<Rightarrow> Inl (Some ''kid_unknown'')
              | Some vm \<Rightarrow>
                  if vm_id vm \<notin> set (dd_auth d) then Inl (Some ''kid_unknown'')
                  else (case algorithms_for_jwk (vm_jwk vm) of
                      Inl x \<Rightarrow> Inl None
                    | Inr algs \<Rightarrow>
                        if \<not> jl_key_ok lib (vm_jwk vm) then Inl None
                        else (case jl_decode lib (dpop_call (vm_jwk vm) algs leeway) tok of
                            Inl x \<Rightarrow> Inl (Some ''signature'')
                          | Inr cl \<Rightarrow>
                              (case request_claims bracketed htm htu (dd_id d) leeway now cl of
                                 Some code \<Rightarrow> Inl (Some code) | None \<Rightarrow> Inr cl))))))"

section \<open>GET /v1/principals/me\<close>

text \<open>The request and its surroundings: the identity resolver, the limiter of writes with its
  store, the monotonic clock, the caller's address, and method, base address and path.\<close>

record 'st me_env =
  me_identity :: identity_env
  me_tenant :: ident
  me_store :: "'st valkey option"
  me_clock :: "nat \<Rightarrow> instant"
  me_parse :: "string \<Rightarrow> rat option"
  me_getenv :: "string \<Rightarrow> string option"
  me_rbac :: rbac_env
  me_monotonic :: instant
  me_ip :: string
  me_method :: string
  me_base :: string
  me_path :: string
  me_bracketed :: "string \<Rightarrow> bool"
  me_text :: "string \<Rightarrow> string"

definition expected_htu :: "'st me_env \<Rightarrow> did_config \<Rightarrow> string" where
  "expected_htu e c =
     rstrip_slash (case nonblank (dg_dpop_audience c) of Some a \<Rightarrow> a | None \<Rightarrow> rstrip_slash (me_base e)) @ me_path e"

definition verify_me_dpop :: "'st me_env \<Rightarrow> did_config \<Rightarrow> headers \<Rightarrow> bound_principal \<Rightarrow> string option + jobj" where
  "verify_me_dpop e c hs p =
     (case resolve_did (ii_did (me_identity e)) (or_else (bp_subject p) []) of
        Inl x \<Rightarrow> Inl (Some ''malformed'')
      | Inr d \<Rightarrow>
          verify_dpop (ii_lib (me_identity e)) (me_bracketed e) (me_method e) (expected_htu e c) d (dg_dpop_leeway c)
            (ii_now (me_identity e)) (let h = or_else (map_of hs ''dpop'') [] in if h = [] then or_else (map_of hs ''DPoP'') [] else h))"

definition text_json :: "string option \<Rightarrow> json" where
  "text_json v = (case v of None \<Rightarrow> JNull | Some s \<Rightarrow> JStr s)"

definition principal_reply :: "bound_principal \<Rightarrow> http_reply" where
  "principal_reply p = json_reply 200 []
     (JObj [(''principal_kind'', JStr (bp_kind p)), (''principal_id'', JStr (bp_id p)), (''method'', JStr (bp_method p)),
       (''external_subject'', text_json (bp_subject p)), (''external_issuer'', text_json (bp_issuer p))])"

definition error_reply :: "int \<Rightarrow> headers \<Rightarrow> string \<Rightarrow> http_reply" where
  "error_reply status hs msg = json_reply status hs (JObj [(''error'', JStr msg)])"

text \<open>What follows the two limiters; \<open>None\<close>: an exception that the framework answers.\<close>

definition me_identified :: "'st me_env \<Rightarrow> headers \<Rightarrow> http_reply option" where
  "me_identified e hs =
     (case resolve_identity (me_identity e) hs of
        Crashed \<Rightarrow> None
      | Refused x \<Rightarrow> Some (error_reply 401 [] (ii_text (me_identity e) x))
      | BoundTo p \<Rightarrow>
          (case (if bp_method p = ''did'' then ic_did (ii_config (me_identity e)) else None) of
             None \<Rightarrow> Some (principal_reply p)
           | Some c \<Rightarrow>
               if \<not> dg_require_dpop c then Some (principal_reply p)
               else (case verify_me_dpop e c hs p of
                   Inl None \<Rightarrow> None
                 | Inl (Some code) \<Rightarrow>
                     Some (error_reply 401
                       [(''WWW-Authenticate'', ''DPoP error=\"invalid_dpop_proof\", error_description=\"'' @ me_text e code @ ''\"'')]
                       (me_text e code))
                 | Inr cl \<Rightarrow> Some (principal_reply p))))"

text \<open>Neither the limiter nor a refused proof has a database to charge.\<close>

definition me :: "'st me_env \<Rightarrow> headers \<Rightarrow> 'st \<times> windows \<Rightarrow> http_reply option \<times> 'st \<times> windows" where
  "me e hs s =
     (case maybe_rate_limit (me_parse e) (me_getenv e) (me_store e) (me_clock e) (me_rbac e) (me_tenant e) ''principals_me'' True 0
             None None [] False (fst s, []) of
        (Inl w, st, tab) \<Rightarrow>
          (Some (json_reply 429 [(''Retry-After'', int_text \<lfloor>w\<rfloor>)]
             (JObj [(''error'', JStr ''rate limit exceeded''), (''retry_after_s'', JInt \<lfloor>w\<rfloor>)])), st, snd s)
      | (Inr u, st, tab) \<Rightarrow>
          (case me_rate_limit_check (me_monotonic e) (if me_ip e = [] then ''unknown'' else me_ip e) (snd s) of
             (False, ws) \<Rightarrow> (Some (error_reply 429 [] ''rate limit exceeded''), st, ws)
           | (True, ws) \<Rightarrow> (me_identified e hs, st, ws)))"

end
