(* ===== verification/DpopFacts.thy ===== *)
theory DpopFacts
  imports Dpop IdentityFacts
begin

text \<open>
  What an answered introspection has proved, and how long the same proof keeps working.
\<close>

section \<open>The proof\<close>

definition fresh :: "int \<Rightarrow> int \<Rightarrow> jobj \<Rightarrow> bool" where
  "fresh leeway now cl =
     (case numeric (claim cl ''iat'') of None \<Rightarrow> False | Some t \<Rightarrow> t - leeway \<le> now \<and> now \<le> t + leeway * 5)"

text \<open>The time enters only through the last two checks.\<close>

definition names_request :: "(string \<Rightarrow> bool) \<Rightarrow> string \<Rightarrow> string \<Rightarrow> string \<Rightarrow> jobj \<Rightarrow> bool" where
  "names_request bracketed htm htu did cl \<longleftrightarrow> claim cl ''iss'' = JStr did
     \<and> (\<exists>m. claim cl ''htm'' = JStr m \<and> upper m = upper htm)
     \<and> (\<exists>u. claim cl ''htu'' = JStr u \<and> normalize_htu bracketed u = normalize_htu bracketed htu)"

lemma request_claims_iff:
  "request_claims bracketed htm htu did leeway now cl = None \<longleftrightarrow> names_request bracketed htm htu did cl \<and> fresh leeway now cl"
  by (auto simp: request_claims_def names_request_def fresh_def split: json.splits option.splits if_splits)

definition authenticating_key :: "did_document \<Rightarrow> verification_method \<Rightarrow> bool" where
  "authenticating_key d vm \<longleftrightarrow> vm \<in> set (dd_methods d) \<and> vm_id vm \<in> set (dd_auth d)"

lemma verify_dpop_accepts:
  assumes "verify_dpop lib bracketed htm htu d leeway now tok = Inr cl"
  obtains vm algs where "authenticating_key d vm" "algorithms_for_jwk (vm_jwk vm) = Inr algs"
    "jl_decode lib (dpop_call (vm_jwk vm) algs leeway) tok = Inr cl"
    "names_request bracketed htm htu (dd_id d) cl" "fresh leeway now cl"
proof -
  obtain kid vm algs where k: "find_key d (Some kid) = Some vm" "vm_id vm \<in> set (dd_auth d)"
      "algorithms_for_jwk (vm_jwk vm) = Inr algs" "jl_decode lib (dpop_call (vm_jwk vm) algs leeway) tok = Inr cl"
      "request_claims bracketed htm htu (dd_id d) leeway now cl = None"
    using assms by (auto simp: verify_dpop_def split: if_splits option.splits sum.splits)
  have "vm \<in> set (dd_methods d)" using k(1) by (auto simp: find_key_def find_Some_iff)
  with k that show thesis by (auto simp: authenticating_key_def request_claims_iff)
qed

lemma verify_dpop_at:
  assumes "verify_dpop lib bracketed htm htu d leeway now tok = Inr cl"
  shows "verify_dpop lib bracketed htm htu d leeway now' tok = Inr cl \<longleftrightarrow> fresh leeway now' cl"
proof -
  have "request_claims bracketed htm htu (dd_id d) leeway now cl = None"
    using assms by (auto simp: verify_dpop_def split: if_splits option.splits sum.splits)
  then have "request_claims bracketed htm htu (dd_id d) leeway now' cl = None \<longleftrightarrow> fresh leeway now' cl"
    by (simp add: request_claims_iff)
  with assms show ?thesis
    by (auto simp: verify_dpop_def split: if_splits option.splits sum.splits)
qed

section \<open>The endpoint\<close>

lemma me_answer:
  assumes "me e hs s = (Some rp, s')" "rp_status rp = 200"
  shows "me_identified e hs = Some rp"
  using assms
  by (auto simp: me_def error_reply_def json_reply_def split: prod.splits sum.splits bool.splits)

lemma me_identified_answer:
  assumes "me_identified e hs = Some rp" "rp_status rp = 200"
    "resolve_identity (me_identity e) hs = BoundTo p" "bp_method p = ''did''"
    "ic_did (ii_config (me_identity e)) = Some c" "dg_require_dpop c"
  shows "rp = principal_reply p \<and> (\<exists>cl. verify_me_dpop e c hs p = Inr cl)"
  using assms
  by (auto simp: me_identified_def error_reply_def json_reply_def split: sum.splits option.splits)

definition dpop_token :: "headers \<Rightarrow> string" where
  "dpop_token hs = (let h = or_else (map_of hs ''dpop'') [] in if h = [] then or_else (map_of hs ''DPoP'') [] else h)"

text \<open>C24. Introspection answers the holder of the key. Where the configuration asks for it, the
  endpoint tells a caller bound to a DID who it is only if the request carries a token that a
  key for authentication of the DID's document signed, that names that document, the method and
  the address of the request, and that was issued no more than five leeways ago.\<close>

theorem introspection_needs_fresh_proof:
  assumes "me e hs s = (Some rp, s')" "rp_status rp = 200"
    "resolve_identity (me_identity e) hs = BoundTo p" "bp_method p = ''did''"
    "ic_did (ii_config (me_identity e)) = Some c" "dg_require_dpop c"
    "jwt_sound (ii_lib (me_identity e)) signs"
  shows "rp = principal_reply p \<and> (\<exists>did d vm alg cl. bp_subject p = Some did \<and> resolve_did (ii_did (me_identity e)) did = Inr d
     \<and> authenticating_key d vm \<and> signs (vm_jwk vm) alg (dpop_token hs) \<and> jl_peek (ii_lib (me_identity e)) (dpop_token hs) = Some cl
     \<and> names_request (me_bracketed e) (me_method e) (expected_htu e c) (dd_id d) cl
     \<and> fresh (dg_dpop_leeway c) (ii_now (me_identity e)) cl)"
proof -
  note me_identified_answer [OF me_answer [OF assms(1,2)] assms(2-6)]
  then obtain cl where rp: "rp = principal_reply p" and v: "verify_me_dpop e c hs p = Inr cl" by blast
  then obtain d where d: "resolve_did (ii_did (me_identity e)) (or_else (bp_subject p) []) = Inr d"
      "verify_dpop (ii_lib (me_identity e)) (me_bracketed e) (me_method e) (expected_htu e c) d (dg_dpop_leeway c)
         (ii_now (me_identity e)) (dpop_token hs) = Inr cl"
    by (auto simp: verify_me_dpop_def dpop_token_def split: sum.splits)
  have "or_else (bp_subject p) [] \<noteq> []"
  proof
    assume "or_else (bp_subject p) [] = []"
    with d(1) show False by (simp add: resolve_did_def did_parts_def starts_with_def)
  qed
  then obtain did where did: "bp_subject p = Some did" "or_else (bp_subject p) [] = did" by (cases "bp_subject p") (auto simp: or_else_def split: if_splits)
  from d(2) obtain vm algs where vm: "authenticating_key d vm"
      "jl_decode (ii_lib (me_identity e)) (dpop_call (vm_jwk vm) algs (dg_dpop_leeway c)) (dpop_token hs) = Inr cl"
      "names_request (me_bracketed e) (me_method e) (expected_htu e c) (dd_id d) cl"
      "fresh (dg_dpop_leeway c) (ii_now (me_identity e)) cl"
    by (rule verify_dpop_accepts)
  from assms(7) vm(2) obtain alg where "jl_peek (ii_lib (me_identity e)) (dpop_token hs) = Some cl" "signs (vm_jwk vm) alg (dpop_token hs)"
    unfolding jwt_sound_def by (fastforce simp: dpop_call_def)
  with rp d(1) did vm show ?thesis by metis
qed

text \<open>A proof works for its whole window. Nothing is remembered of an accepted proof, so the
  same token is accepted at exactly the instants from one leeway before to five leeways after it
  was issued, as often as it is presented.\<close>

theorem proof_works_for_its_window:
  assumes "verify_dpop lib bracketed htm htu d leeway now tok = Inr cl"
  shows "\<exists>t. numeric (claim cl ''iat'') = Some t \<and>
    (verify_dpop lib bracketed htm htu d leeway now' tok = Inr cl \<longleftrightarrow> t - leeway \<le> now' \<and> now' \<le> t + leeway * 5)"
proof -
  from assms have "fresh leeway now cl" by (rule verify_dpop_accepts)
  with verify_dpop_at [OF assms, of now'] show ?thesis by (auto simp: fresh_def split: option.splits)
qed

section \<open>Instances\<close>

lemma sample_dpop:
  "verify_dpop sample_lib (\<lambda>h. True) ''GET'' ''https://gw/me'' (sample_document ''b'') 30 110 ''p.o.p'' = Inr (sample_claims ''p.o.p'')"
proof -
  have k: "named_key sample_lib ''p.o.p'' = Some ''k''" "jl_key_ok sample_lib j" for j
    by (simp_all add: named_key_def sample_lib_def claim_def)
  have d: "jl_decode sample_lib (dpop_call (sample_jwk ''b'') [''EdDSA''] 30) ''p.o.p'' = Inr (sample_claims ''p.o.p'')"
    by (simp add: sample_lib_def dpop_call_def sample_signs_def sample_claims_def)
  have c: "request_claims (\<lambda>h. True) ''GET'' ''https://gw/me'' ''did:ex:b'' 30 110 (sample_claims ''p.o.p'') = None"
    by (simp add: request_claims_def claim_def sample_claims_def numeric_def)
  have v: "dd_auth (sample_document ''b'') = [''k'']" "vm_id (hd (dd_methods (sample_document ''b''))) = ''k''"
      "vm_jwk (hd (dd_methods (sample_document ''b''))) = sample_jwk ''b''" "dd_id (sample_document ''b'') = ''did:ex:b''"
    by (simp_all add: sample_document_def single_key_document_def)
  show ?thesis by (simp add: verify_dpop_def jwt_shaped_def k d c v sample_key sample_algorithms)
qed

lemma proof_works_for_its_window_witness:
  "verify_dpop sample_lib (\<lambda>h. True) ''GET'' ''https://gw/me'' (sample_document ''b'') 30 250 ''p.o.p'' = Inr (sample_claims ''p.o.p'')
   \<and> verify_dpop sample_lib (\<lambda>h. True) ''GET'' ''https://gw/me'' (sample_document ''b'') 30 251 ''p.o.p'' \<noteq> Inr (sample_claims ''p.o.p'')"
proof -
  have t: "numeric (claim (sample_claims ''p.o.p'') ''iat'') = Some 100" by (simp add: claim_def sample_claims_def numeric_def)
  show ?thesis
    using proof_works_for_its_window [OF sample_dpop, of 250] proof_works_for_its_window [OF sample_dpop, of 251] t by simp
qed

definition sample_me :: "(string \<Rightarrow> entry option) me_env" where
  "sample_me = \<lparr> me_identity = sample_identity_env, me_tenant = ''t'', me_store = None, me_clock = (\<lambda>k. 0), me_parse = (\<lambda>s. None), me_getenv = (\<lambda>k. None),
     me_rbac = \<lparr> re_grants = [], re_kinds = [], re_db_ok = True, re_trust_ok = True, re_commits = [], re_mode = None, re_now = 0 \<rparr>,
     me_monotonic = 0, me_ip = ''10.0.0.1'', me_method = ''GET'', me_base = ''http://inside/'', me_path = ''/me'',
     me_bracketed = (\<lambda>h. True), me_text = (\<lambda>c. c) \<rparr>"

abbreviation me_headers :: headers where
  "me_headers \<equiv> (''dpop'', ''p.o.p'') # sample_headers"

lemma sample_resolves_me:
  "resolve_identity sample_identity_env me_headers = BoundTo (did_principal sample_identity_env ''did:ex:b'' None)"
proof -
  have l: "lower_keys me_headers = [(''x-kya-did-proof'', ''p.o.p''), (''x-kya-did'', ''did:ex:b''), (''dpop'', ''p.o.p'')]"
    by code_simp
  then have "try_did sample_identity_env (lower_keys me_headers) = BoundTo (did_principal sample_identity_env ''did:ex:b'' None)"
      "try_spiffe sample_identity_env (lower_keys me_headers) = Refused NoSvid"
    using sample_pop sample_resolves [of "CHR ''b''"]
    by (simp_all add: try_did_def try_spiffe_def with_credential_def header_def)
  moreover have "lower ''spiffe'' = ''spiffe''" "lower ''did'' = ''did''" by code_simp+
  ultimately show ?thesis by (simp add: resolve_identity_def try_method_def absent_def)
qed

lemma sample_me_answers:
  "me sample_me me_headers (\<lambda>k. None, [])
     = (Some (principal_reply (did_principal sample_identity_env ''did:ex:b'' None)), \<lambda>k. None, [(''10.0.0.1'', [0])])"
proof -
  let ?p = "did_principal sample_identity_env ''did:ex:b'' None"
  have f: "me_identity sample_me = sample_identity_env" "me_getenv sample_me = (\<lambda>k. None)" "me_monotonic sample_me = 0" "me_ip sample_me = ''10.0.0.1''" by (simp_all add: sample_me_def)
  have a: "expected_htu sample_me sample_did_config = ''https://gw/me''"
    by (simp add: expected_htu_def sample_me_def nonblank_def truthy_def rstrip_slash_def)
  have d: "verify_me_dpop sample_me sample_did_config me_headers ?p = Inr (sample_claims ''p.o.p'')"
    unfolding verify_me_dpop_def a
    using sample_resolves [of "CHR ''b''"] sample_dpop by (simp add: did_principal_fields sample_me_def)
  have i: "me_identified sample_me me_headers = Some (principal_reply ?p)"
    using sample_resolves_me d by (simp add: me_identified_def did_principal_fields f)
  have r: "me_rate_limit_check 0 ''10.0.0.1'' [] = (True, [(''10.0.0.1'', [0])])"
    by (simp add: me_rate_limit_check_def me_make_room_def ME_RATE_MAX_TRACKED_IPS_def ME_RATE_LIMIT_PER_MIN_def)
  show ?thesis by (simp add: me_def maybe_rate_limit_def resolve_rps_def rps_keys_def f i r)
qed

lemma introspection_needs_fresh_proof_witness: "sample_signs (sample_jwk ''b'') ''EdDSA'' ''p.o.p''"
proof -
  let ?p = "did_principal sample_identity_env ''did:ex:b'' None"
  have f: "me_identity sample_me = sample_identity_env" by (simp add: sample_me_def)
  have st: "rp_status (principal_reply ?p) = 200" by (simp add: principal_reply_def json_reply_def)
  have b: "resolve_identity (me_identity sample_me) me_headers = BoundTo ?p"
    unfolding f by (rule sample_resolves_me)
  have "jwt_sound (ii_lib (me_identity sample_me)) sample_signs" using sample_lib_sound by (simp add: f)
  from introspection_needs_fresh_proof [OF sample_me_answers st b did_principal_fields(1) _ sample_fields(11) this]
  obtain d vm alg where "resolve_did (ii_did sample_identity_env) ''did:ex:b'' = Inr d" "authenticating_key d vm"
      "sample_signs (vm_jwk vm) alg (dpop_token me_headers)"
    by (auto simp: f did_principal_fields)
  moreover have "dpop_token me_headers = ''p.o.p''" by (simp add: dpop_token_def)
  ultimately show ?thesis
    using sample_resolves [of "CHR ''b''"]
    by (auto simp: sample_document_def single_key_document_def authenticating_key_def sample_signs_def)
qed

end
