(* ===== verification/Spec2Isabelle.thy ===== *)
theory Spec2Isabelle
  imports Rbac EvidenceProps ChainFacts DelegationFacts RateLimit Weights BudgetFacts
    Verdicts PipelineFacts Lifecycle Pending GatewayProps ThrottleFacts RiskTenants
    Replay RogueFacts ScoringFacts AssessmentFacts ChainStore DidFacts GatewayIdentity DpopFacts
begin

text \<open>
  A model of Veldt KYA (``know your agent''), the library that keeps trust scores,
  permissions, evidence and policy verdicts for AI agents, and of the gateway built on
  it. Python is translated function by function; every definition stands beside the
  code it is translated from under the same name, where the name is free.

  \<^bold>\<open>Parts and theories.\<close>
  \<^item> \<open>Prelude\<close>: identifiers, instants, Python's string operations on ASCII text,
    optional values, selection and update of table rows. \<open>Canonicals\<close>: the wire
    vocabulary (\<open>kya/canonicals.py\<close>, \<open>kya/_verdict_aliases.py\<close>).
  \<^item> \<open>Ledger\<close>: the contract of a bounded score moved by signed deltas, a locale.
    \<open>Trust\<close> (\<open>kya/users.py\<close>) and \<open>Principals\<close> (\<open>kya/principals.py\<close>) provide it: the
    trust rows of users and of agents, services and registered kinds, with both
    write paths, the retry loop under rival writers, and writes that rivals overtook.
  \<^item> \<open>Rbac\<close> (\<open>kya/rbac.py\<close>, \<open>kya/_security_events.py\<close>): action strings, grants, and
    \<open>require_action\<close> in the modes off, flag and block with its trust gate; permissions as a
    function of the history of grants and revocations.
  \<^item> \<open>Json\<close>, \<open>Linked\<close>, \<open>Evidence\<close>, \<open>EvidenceFacts\<close>, \<open>EvidenceProps\<close>
    (\<open>kya/evidence.py\<close>, \<open>kya/payload_caps.py\<close>): canonical JSON, hash-linked logs as a
    locale, the evidence chain with redaction, genesis, counter anchor, verifier and
    retention sweep.
  \<^item> \<open>Matchers\<close>, \<open>ChainEngine\<close>, \<open>ChainFacts\<close> (\<open>kya/attack_chains\<close>): field matchers and
    the engine that advances attack-chain rules over any state store (a locale,
    interpreted on the in-memory store). \<open>ChainStore\<close>: its store over Valkey, which refines
    the in-memory one for events processed in turn, and what workers lose or repeat that
    advance at the same time.
  \<^item> \<open>Delegation\<close>, \<open>DelegationFacts\<close> (\<open>kya/delegation*.py\<close>): capability comparison,
    mode overrides, enforcement, depth of the delegation graph.
  \<^item> \<open>RateLimit\<close> (\<open>kya/rate_limit.py\<close>, \<open>kya_redteam/runtime.py\<close>): the limiter of the gateway.
    \<open>WriteLimits\<close> (the same files): the limiter of writes, which may wait.
  \<^item> \<open>Layered\<close>: the contract of platform defaults that tenants may only tighten, a
    locale, provided by \<open>Weights\<close> (\<open>kya/tenant_weights.py\<close>) and \<open>Budget\<close>,
    \<open>BudgetFacts\<close> (\<open>kya/tenant_budget.py\<close>).
  \<^item> \<open>Registry\<close>: the contract of a registry of named handlers that is swapped as a whole,
    a locale, provided by \<open>Verdicts\<close> (\<open>kya/policy_verdicts.py\<close>), the verdict handlers and
    what each deployment surface answers.
  \<^item> \<open>PolicyHash\<close> (\<open>kya/policy_hash.py\<close>): the digest of a tenant's effective policy and its
    cache, exact for overrides and registrations, up to 30 seconds behind the setters of the
    module tables (which \<open>Weights\<close> keeps by reference, as the code does). \<open>Evaluator\<close> (\<open>kya/policy_evaluator.py\<close>, \<open>kya/_native_evaluator.py\<close>), \<open>Pipeline\<close>,
    \<open>PipelineFacts\<close> (\<open>kya_gateway/policy_pipeline.py\<close>): the evaluators and the decision stack
    in front of them.
  \<^item> \<open>Invocations\<close>, \<open>Lifecycle\<close> (\<open>kya/invocations.py\<close>): the invocation table, refined to a
    small machine of outcomes. \<open>Pending\<close> (\<open>kya/pending_invocations.py\<close>): the approval queue.
  \<^item> \<open>McpProtocol\<close>, \<open>McpFacts\<close> (\<open>kya_gateway/mcp_protocol.py\<close>, \<open>kya_gateway/forwarder.py\<close>):
    the wire of the gateway. \<open>Throttle\<close>, \<open>ThrottleFacts\<close>, \<open>Gateway\<close>, \<open>Endpoints\<close>,
    \<open>GatewayFacts\<close>, \<open>GatewayProps\<close> (\<open>kya_gateway/server.py\<close>): its limiters, its helpers, the
    handlers of POST /mcp and POST /v1/policy/decide, and what they guarantee.
  \<^item> \<open>Dids\<close>, \<open>DidFacts\<close> (\<open>kya/did.py\<close>, \<open>kya/did_document.py\<close>, \<open>kya/did_methods/key.py\<close>,
    \<open>jwk.py\<close>): DID documents, the registry of methods and the two methods without network.
    \<open>Credentials\<close> (\<open>kya/vc.py\<close>, \<open>kya/auth.py\<close>, \<open>kya/spiffe.py\<close>): verifiable credentials, bearer
    tokens and workload identities. \<open>Identity\<close>, \<open>IdentityFacts\<close> (\<open>kya_gateway/identity.py\<close>): the
    identity resolver. \<open>GatewayIdentity\<close>: POST /mcp over it. \<open>Dpop\<close>, \<open>DpopFacts\<close>
    (\<open>kya_gateway/_dpop.py\<close>, \<open>server.py\<close>): proofs bound to one request, and the introspection
    endpoint that asks for them.
  \<^item> \<open>Floats\<close>: binary64 rounding of rational numbers, the built-in \<open>round\<close> and \<open>int\<close>.
    \<open>RiskFactors\<close> (the factor modules \<open>kya/data_classes.py\<close>, \<open>security_caps.py\<close>, \<open>skills.py\<close>,
    \<open>input_sources.py\<close>, \<open>deployment.py\<close>, \<open>lifecycle.py\<close>, \<open>blast_radius.py\<close>,
    \<open>supply_chain.py\<close>, \<open>cost.py\<close>, \<open>trust_signals.py\<close>) and \<open>RiskScore\<close> (\<open>kya/risk.py\<close>,
    \<open>kya/interactions.py\<close>): the static risk score of an agent. \<open>RiskFacts\<close>, \<open>RiskTenants\<close>:
    its scale, its monotonicity in tools and authority, and what the weight overrides
    of a tenant (\<open>Weights\<close>) do to it.
  \<^item> \<open>Rogue\<close>, \<open>RogueFacts\<close> (\<open>kya/rogue.py\<close>): the recorders of misbehaviour, their counters
    and the report. \<open>Replay\<close> (\<open>kya/replay_protection.py\<close>): nonces over the shared store.
  \<^item> \<open>Consensus\<close> (\<open>kya/scorer_orchestrator.py\<close>), \<open>Scoring\<close>, \<open>ScoringFacts\<close>
    (\<open>kya/scoring.py\<close>): the panel of judges and the trust score composed from its
    consensus, the evidence chain and the delegation report.
  \<^item> \<open>Integrity\<close> (\<open>kya/integrity.py\<close>), \<open>Versions\<close>, \<open>VersionFacts\<close> (\<open>kya/versioning.py\<close>):
    the identity hash of a definition, its drift, and the append-only history of versions.
  \<^item> \<open>DelegationReport\<close> (\<open>kya/delegation_analytics.py\<close>), \<open>Faults\<close>
    (\<open>kya/fault_attribution.py\<close>, \<open>kya/quality.py\<close>), \<open>Compliance\<close> (\<open>kya/compliance.py\<close>),
    \<open>Assessment\<close>, \<open>AssessmentFacts\<close> (\<open>kya/assessment.py\<close>): the reports over the tables of
    the other components, ending in the five pillars of the trust assessment.

  \<^bold>\<open>How the parts interact.\<close> A tool call enters \<open>mcp_endpoint\<close>, is parsed and named by
  \<open>McpProtocol\<close>, gets its caller from \<open>Identity\<close>, reserves a row in \<open>Invocations\<close>, is decided by \<open>evaluate\<close> of \<open>Pipeline\<close>, which
  asks \<open>RateLimit\<close> and \<open>Rbac\<close> and reads and debits \<open>Principals\<close>, then passes the evaluator,
  whose verdict carries the digest of \<open>PolicyHash\<close>. The verdict goes to the chain of \<open>Evidence\<close>
  and to the trust row, closes the reserved row, and is answered or handed on; a call that
  waits for a person is stored in \<open>Pending\<close>. Beside the decision path, \<open>Assessment\<close> reads
  \<open>Versions\<close>, \<open>RiskScore\<close>, \<open>Principals\<close>, \<open>Rbac\<close>, \<open>Delegation\<close>, \<open>Invocations\<close> and \<open>Evidence\<close>.

  \<^bold>\<open>How state is modelled.\<close> A table is a list of records in insertion order; an
  operation takes it and returns it. A raising function returns a sum, \<open>Inl\<close> the
  error. A failing database call is a flag or an outcome argument, so that every
  \<open>except\<close> branch is a branch of the model. Instants are integers (microseconds),
  rates and amounts rational numbers; floating-point rounding is modelled where a result
  depends on it (the risk scores), elsewhere arithmetic on floats is exact.

  \<^bold>\<open>Concurrency.\<close> An operation is one step where the database or a lock makes it one.
  Where other writers can come in between, what they did is an argument: the table met at a
  refused or overtaken commit (\<open>Principals\<close>), the row of a lost insert race (\<open>Rbac\<close>,
  \<open>Weights\<close>, \<open>Versions\<close>), the earlier view a worker read (\<open>ChainStore\<close>), the delay between the clock
  and the command on the store (\<open>Replay\<close>), the write between computing and storing a digest
  (\<open>PolicyHash\<close>). Properties over histories of whole operations say so.

  \<^bold>\<open>Parameters.\<close> SHA-256, HMAC, \<open>isoformat\<close>, \<open>fnmatch\<close>, \<open>re\<close>, \<open>repr\<close>, the shared store
  (Valkey), the token library (PyJWT), the web method of DIDs and the host's tool catalog are
  arguments; what is used of them is a named hypothesis (\<open>valkey_up\<close>, \<open>jwt_sound\<close> and their
  like), and each property that has one comes with a concrete instance.

  \<^bold>\<open>Loops.\<close> The retry loop of a signal has its ten attempts, the one of a snapshot its
  thirty; the walk over parent
  invocations has fuel equal to its hop limit; the traversal of the delegation graph
  terminates by its node limit and the length of its queue; the wait for a token terminates
  because every pause takes at least the first one.

  \<^bold>\<open>Not modelled.\<close> Pure input and output: DDL and migrations, telemetry, exporters,
  bridges to other products, command lines, the start-up and health endpoints. Libraries
  the sources only call: the JSON decoder, NFKC, HTTP and the cryptography of tokens. The
  cache of key sets and the inbound request signatures of other products are left out with
  them. The red-team harness,
  the hooks in agent frameworks, scripts and examples drive the library and are not part of
  it. Aliases, cost analytics and exporters of \<open>kya/\<close> are read-only views or tables that the
  modelled operations do not read.
\<close>

end
